(* ===== verification/Gvirt_Base.thy ===== *)
theory Gvirt_Base
  imports Main "HOL-Library.Word"
begin

text \<open>
  The prelude of the development: the machine types the code uses, the faults a C statement
  can end in, the result type of every modelled function, and the little-endian view of an
  integer in memory (the system runs on x86-64 only, see the README).

  A C function that can crash returns \<open>'a cres\<close>: \<open>Inr x\<close> is a normal return with the
  value \<open>x\<close>, \<open>Inl f\<close> says which undefined or terminating behaviour was reached.
  The code's own error returns (\<open>ERROR\<close>, \<open>-EINVAL\<close>, a CUDA error code) are ordinary
  return values, not faults.
\<close>

named_theorems cres_simps "unfolding rules of the result type"

section \<open>Machine types and results\<close>

type_synonym byte = "8 word"
type_synonym u16 = "16 word"
type_synonym u32 = "32 word"
type_synonym u64 = "64 word"

datatype fault =
    OutOfBounds      \<comment> \<open>an access outside the object it was derived from\<close>
  | NullDeref        \<comment> \<open>a dereference of a NULL pointer\<close>
  | Uninit           \<comment> \<open>a use of a variable that was never written\<close>
  | AssertFail       \<comment> \<open>a failed assert()\<close>
  | Hangs            \<comment> \<open>stands for a call that never returns\<close>
  | ExitProc         \<comment> \<open>exit() or g_error()\<close>
  | Killed           \<comment> \<open>a signal whose default action ends the process\<close>
  | UseAfterFree     \<comment> \<open>a free() of, or an access to, a block already freed\<close>
  | DivZero          \<comment> \<open>an integer division by zero\<close>

type_synonym 'a cres = "fault + 'a"

text \<open>\<open>OK\<close> and \<open>ERROR\<close> of include/debug.h.\<close>

definition OK :: int where "OK = 0"

definition ERROR :: int where "ERROR = -1"

lemma OK_neq_ERROR [simp]: "OK \<noteq> ERROR" "ERROR \<noteq> OK"
  by (simp_all add: OK_def ERROR_def)

lemma int_neq_ERROR [simp]: "int n \<noteq> ERROR" "ERROR \<noteq> int n"
  by (simp_all add: ERROR_def)

definition bindr :: "'a cres \<Rightarrow> ('a \<Rightarrow> 'b cres) \<Rightarrow> 'b cres" where
  "bindr r k = (case r of Inl f \<Rightarrow> Inl f | Inr x \<Rightarrow> k x)"

lemma bindr_simps [simp, cres_simps]:
  "bindr (Inl f) k = Inl f" "bindr (Inr x) k = k x"
  by (simp_all add: bindr_def)

lemma bindr_eq_Inr_iff [cres_simps]:
  "bindr r k = Inr y \<longleftrightarrow> (\<exists>x. r = Inr x \<and> k x = Inr y)"
  by (cases r) simp_all

lemma bindr_cong [fundef_cong]:
  "r = r' \<Longrightarrow> (\<And>x. r' = Inr x \<Longrightarrow> k x = k' x) \<Longrightarrow> bindr r k = bindr r' k'"
  by (cases r) (auto split: sum.splits)

definition guardr :: "bool \<Rightarrow> fault \<Rightarrow> unit cres" where
  "guardr c f = (if c then Inr () else Inl f)"

lemma guardr_simps [simp, cres_simps]:
  "guardr True f = Inr ()" "guardr False f = Inl f"
  by (simp_all add: guardr_def)

lemma guardr_eq_Inr [simp, cres_simps]: "guardr c f = Inr u \<longleftrightarrow> c"
  by (simp add: guardr_def)

text \<open>An array read \<open>a[i]\<close>; outside the array it is undefined behaviour.\<close>

definition nthr :: "'a list \<Rightarrow> nat \<Rightarrow> 'a cres" where
  "nthr xs i = (if i < length xs then Inr (xs ! i) else Inl OutOfBounds)"

lemma nthr_simps [simp, cres_simps]:
  "i < length xs \<Longrightarrow> nthr xs i = Inr (xs ! i)"
  "\<not> i < length xs \<Longrightarrow> nthr xs i = Inl OutOfBounds"
  by (simp_all add: nthr_def)

lemma nthr_eq_Inr [cres_simps]: "nthr xs i = Inr x \<longleftrightarrow> i < length xs \<and> x = xs ! i"
  by (auto simp: nthr_def)

text \<open>An array read with a signed index.\<close>

definition nthri :: "'a list \<Rightarrow> int \<Rightarrow> 'a cres" where
  "nthri xs i = (if 0 \<le> i then nthr xs (nat i) else Inl OutOfBounds)"

lemma nthri_of_nat [simp]: "nthri xs (int n) = nthr xs n"
  by (simp add: nthri_def)

definition updr :: "'a list \<Rightarrow> nat \<Rightarrow> 'a \<Rightarrow> 'a list cres" where
  "updr xs i x = (if i < length xs then Inr (xs[i := x]) else Inl OutOfBounds)"

lemma updr_simps [simp, cres_simps]:
  "i < length xs \<Longrightarrow> updr xs i x = Inr (xs[i := x])"
  "\<not> i < length xs \<Longrightarrow> updr xs i x = Inl OutOfBounds"
  by (simp_all add: updr_def)

section \<open>Integers as bytes\<close>

text \<open>
  \<open>le_enc n v\<close> is the memory image of the unsigned integer \<open>v\<close> in \<open>n\<close> bytes,
  low byte first; \<open>le_dec\<close> reads it back.
\<close>

primrec le_enc :: "nat \<Rightarrow> nat \<Rightarrow> byte list" where
  "le_enc 0 v = []"
| "le_enc (Suc n) v = word_of_nat v # le_enc n (v div 256)"

primrec le_dec :: "byte list \<Rightarrow> nat" where
  "le_dec [] = 0"
| "le_dec (b # bs) = unat b + 256 * le_dec bs"

lemma length_le_enc [simp]: "length (le_enc n v) = n"
  by (induction n arbitrary: v) auto

lemma le_dec_enc: "le_dec (le_enc n v) = v mod 256 ^ n"
proof (induction n arbitrary: v)
  case 0
  then show ?case by simp
next
  case (Suc n)
  have "le_dec (le_enc (Suc n) v) = v mod 256 + 256 * (v div 256 mod 256 ^ n)"
    by (simp add: Suc.IH unat_of_nat)
  also have "\<dots> = v mod 256 ^ Suc n"
    by (simp add: mod_mult2_eq)
  finally show ?case .
qed

lemma le_dec_bound: "le_dec bs < 256 ^ length bs"
proof (induction bs)
  case Nil
  then show ?case by simp
next
  case (Cons b bs)
  have "unat b < 256"
    using unsigned_less [of b] by simp
  with Cons show ?case by simp
qed

definition le32 :: "u32 \<Rightarrow> byte list" where
  "le32 w = le_enc 4 (unat w)"

definition dec32 :: "byte list \<Rightarrow> u32" where
  "dec32 bs = word_of_nat (le_dec bs)"

definition le64 :: "u64 \<Rightarrow> byte list" where
  "le64 w = le_enc 8 (unat w)"

definition dec64 :: "byte list \<Rightarrow> u64" where
  "dec64 bs = word_of_nat (le_dec bs)"

lemma length_le32 [simp]: "length (le32 w) = 4"
  by (simp add: le32_def)

lemma length_le64 [simp]: "length (le64 w) = 8"
  by (simp add: le64_def)

lemma dec32_le32 [simp]: "dec32 (le32 w) = w"
proof -
  have "unat w < 256 ^ 4" using unsigned_less [of w] by simp
  then show ?thesis by (simp add: dec32_def le32_def le_dec_enc)
qed

lemma dec64_le64 [simp]: "dec64 (le64 w) = w"
proof -
  have "unat w < 256 ^ 8" using unsigned_less [of w] by simp
  then show ?thesis by (simp add: dec64_def le64_def le_dec_enc)
qed

section \<open>C strings\<close>

text \<open>
  The memory a \<open>char *\<close> points to is a byte list (the terminating NUL after it is not
  listed); \<open>cstr\<close> is the string the C library sees, up to the first NUL, and \<open>strlen\<close>
  its length. A NULL pointer is \<open>None\<close>.
\<close>

type_synonym charp = "byte list option"

definition cstr :: "byte list \<Rightarrow> byte list" where
  "cstr s = takeWhile (\<lambda>b. b \<noteq> 0) s"

definition strlen :: "byte list \<Rightarrow> nat" where
  "strlen s = length (cstr s)"

lemma cstr_idem [simp]: "cstr (cstr s) = cstr s"
  unfolding cstr_def by (simp add: takeWhile_idem)

lemma cstr_id: "0 \<notin> set s \<Longrightarrow> cstr s = s"
  unfolding cstr_def by (induction s) auto

lemma cstr_take: "take (strlen s) s = cstr s"
  unfolding strlen_def cstr_def by (metis takeWhile_eq_take)

lemma strlen_le: "strlen s \<le> length s"
  unfolding strlen_def cstr_def by (simp add: length_takeWhile_le)

lemma sint_small_nat: "n < 2 ^ 31 \<Longrightarrow> sint (word_of_nat n :: u32) = int n"
  by (simp add: signed_of_nat signed_take_bit_int_eq_self)

lemma unat_small_nat: "n < 2 ^ 32 \<Longrightarrow> unat (word_of_nat n :: u32) = n"
  by (simp add: unat_of_nat)

section \<open>Numbers as text\<close>

text \<open>What \<open>sprintf\<close> writes for \<open>%d\<close> and \<open>%llu\<close> of a number that is not negative.\<close>

fun digits :: "nat \<Rightarrow> string" where
  "digits n = (let d = [char_of (48 + n mod 10)] in if n < 10 then d else digits (n div 10) @ d)"

declare digits.simps [simp del]

lemma digits_step:
  "digits n = (if n < 10 then [] else digits (n div 10)) @ [char_of (48 + n mod 10)]"
  by (subst digits.simps) (simp add: Let_def)

lemma digits_not_Nil [simp]: "digits n \<noteq> []" "[] \<noteq> digits n"
  by (subst digits_step; simp)+

lemma digit_char_inj: "char_of (48 + a) = (char_of (48 + b) :: char) \<Longrightarrow> a < 10 \<Longrightarrow> b < 10 \<Longrightarrow> a = (b :: nat)"
  by (drule arg_cong [of _ _ "of_char :: char \<Rightarrow> nat"]) (simp only: of_char_of, simp)

lemma digits_inj [simp]: "digits m = digits n \<longleftrightarrow> m = n"
proof (induction m arbitrary: n rule: less_induct)
  case (less m)
  have "m = n" if e: "digits m = digits n"
  proof -
    have l: "m mod 10 = n mod 10"
      using arg_cong [OF e, of last] by (subst (asm) (1 2) digits_step) (auto dest!: digit_char_inj)
    have b: "(if m < 10 then [] else digits (m div 10)) = (if n < 10 then [] else digits (n div 10))"
      using arg_cong [OF e, of butlast] by (subst (asm) (1 2) digits_step) simp
    show ?thesis
    proof (cases "m < 10 \<or> n < 10")
      case True
      then show ?thesis using l b by (auto split: if_splits)
    next
      case False
      then have "m div 10 = n div 10" using b less [of "m div 10" "n div 10"] by simp
      then show ?thesis using l by (metis div_mult_mod_eq)
    qed
  qed
  then show ?case by auto
qed

lemma digits_length: "0 < k \<Longrightarrow> n < 10 ^ k \<Longrightarrow> length (digits n) \<le> k"
proof (induction k arbitrary: n)
  case 0
  then show ?case by simp
next
  case (Suc k)
  show ?case
  proof (cases "n < 10")
    case True
    then show ?thesis by (subst digits_step) simp
  next
    case False
    then have "0 < k" "n div 10 < 10 ^ k" using Suc.prems by (cases k; simp; simp add: less_mult_imp_div_less)+
    then show ?thesis using Suc.IH [of "n div 10"] False by (subst digits_step) simp
  qed
qed

end
