(* ===== verification/Wire_Codec.thy ===== *)
theory Wire_Codec
  imports Gvirt_Base
begin

text \<open>
  Packing and unpacking through a cursor: the buffer the marshalling code of
  interposer/libciutils.c writes to, the checked memcpy in and out of it, the sequencing the
  code uses (\<open>if (ERROR == offset) return ERROR; else pFatPack += offset;\<close>), and the
  interface every pack/unpack pair of the code implements, as two locales.
\<close>

section \<open>Buffers and cursors\<close>

type_synonym cbuf = "byte list"

text \<open>A \<open>char *\<close> into the packet: NULL, or a position in the buffer.\<close>

type_synonym cptr = "nat option"

text \<open>A packing step gets the buffer and the cursor, and returns the buffer and the offset.\<close>

type_synonym packer = "cbuf \<Rightarrow> cptr \<Rightarrow> (cbuf \<times> int) cres"

text \<open>
  An unpacking step reads at the cursor and returns the value and what it stored in
  \<open>*pOffset\<close>; \<open>None\<close> says that it returned without writing \<open>*pOffset\<close>.
\<close>

type_synonym 'a unpacker = "cbuf \<Rightarrow> cptr \<Rightarrow> ('a \<times> int option) cres"

definition adv :: "cptr \<Rightarrow> int \<Rightarrow> cptr" where
  "adv c off = map_option (\<lambda>p. nat (int p + off)) c"

lemma adv_simps [simp]: "adv None off = None" "adv (Some p) (int n) = Some (p + n)"
  by (simp_all add: adv_def nat_add_distrib)

definition splice :: "cbuf \<Rightarrow> nat \<Rightarrow> byte list \<Rightarrow> cbuf" where
  "splice b p s = take p b @ s @ drop (p + length s) b"

definition memcpy_to :: "byte list \<Rightarrow> packer" where
  "memcpy_to s b c = (case c of None \<Rightarrow> Inl NullDeref | Some p \<Rightarrow>
     if p + length s \<le> length b then Inr (splice b p s, int (length s)) else Inl OutOfBounds)"

definition memcpy_from :: "nat \<Rightarrow> byte list unpacker" where
  "memcpy_from n b c = (case c of None \<Rightarrow> Inl NullDeref | Some p \<Rightarrow>
     if p + n \<le> length b then Inr (take n (drop p b), Some (int n)) else Inl OutOfBounds)"

text \<open>The entry test of the packing functions: \<open>if( pDst == NULL ) return ERROR;\<close>.\<close>

definition if_dst :: "packer \<Rightarrow> packer" where
  "if_dst f b c = (if c = None then Inr (b, ERROR) else f b c)"

text \<open>The entry test of the unpacking functions: \<open>if( NULL == pSrc ) return NULL;\<close>.\<close>

definition if_src :: "'a \<Rightarrow> 'a unpacker \<Rightarrow> 'a unpacker" where
  "if_src dflt f b c = (if c = None then Inr (dflt, None) else f b c)"

text \<open>
  Two packing steps in sequence: \<open>then_pack\<close> only adds the offsets, \<open>then_chk\<close> tests each
  for \<open>ERROR\<close> (\<open>if (ERROR == offset) return ERROR; else pFatPack += offset;\<close>).
\<close>

definition then_pack :: "packer \<Rightarrow> packer \<Rightarrow> packer" where
  "then_pack f g b c =
     bindr (f b c) (\<lambda>(b1, off1). bindr (g b1 (adv c off1)) (\<lambda>(b2, off2). Inr (b2, off1 + off2)))"

definition then_chk :: "packer \<Rightarrow> packer \<Rightarrow> packer" where
  "then_chk f g b c =
     bindr (f b c) (\<lambda>(b1, off1). if off1 = ERROR then Inr (b1, ERROR) else
       bindr (g b1 (adv c off1)) (\<lambda>(b2, off2).
         if off2 = ERROR then Inr (b2, ERROR) else Inr (b2, off1 + off2)))"

definition pack_nothing :: packer where
  "pack_nothing b c = memcpy_to [] b c"

definition pack_seq :: "packer list \<Rightarrow> packer" where
  "pack_seq fs = foldr then_pack fs pack_nothing"

definition pack_chk :: "packer list \<Rightarrow> packer" where
  "pack_chk fs = foldr then_chk fs pack_nothing"

text \<open>
  An unpacking step followed by the rest of the function, which starts after the bytes the
  step consumed; using an offset that was never written is a fault.
\<close>

definition then_read :: "'a unpacker \<Rightarrow> ('a \<Rightarrow> 'b unpacker) \<Rightarrow> 'b unpacker" where
  "then_read f k b c =
     bindr (f b c) (\<lambda>(x, off). case off of None \<Rightarrow> Inl Uninit | Some o1 \<Rightarrow>
       bindr (k x b (adv c o1)) (\<lambda>(y, off'). Inr (y, map_option ((+) o1) off')))"

definition read_ret :: "'a \<Rightarrow> 'a unpacker" where
  "read_ret x b c = Inr (x, Some 0)"

definition read_fault :: "fault \<Rightarrow> 'a unpacker" where
  "read_fault e b c = Inl e"

definition read_u32 :: "u32 unpacker" where
  "read_u32 b c = bindr (memcpy_from 4 b c) (\<lambda>(s, off). Inr (dec32 s, off))"

definition read_u64 :: "u64 unpacker" where
  "read_u64 b c = bindr (memcpy_from 8 b c) (\<lambda>(s, off). Inr (dec64 s, off))"

section \<open>What a step writes and reads\<close>

text \<open>
  \<open>writes f s\<close>: from a non-NULL cursor the step \<open>f\<close> puts exactly the bytes \<open>s\<close>,
  whatever the buffer holds, and is an out-of-bounds access exactly when they do not fit.
  \<open>holds_at b p s\<close>: the buffer has the bytes \<open>s\<close> at \<open>p\<close>.
  \<open>reads f s x\<close>: where the buffer has \<open>s\<close>, \<open>f\<close> reads \<open>x\<close> and consumes
  exactly \<open>s\<close>.
\<close>

definition writes :: "packer \<Rightarrow> byte list \<Rightarrow> bool" where
  "writes f s \<longleftrightarrow> (\<forall>b p. f b (Some p) = memcpy_to s b (Some p))"

definition holds_at :: "cbuf \<Rightarrow> nat \<Rightarrow> byte list \<Rightarrow> bool" where
  "holds_at b p s \<longleftrightarrow> p + length s \<le> length b \<and> take (length s) (drop p b) = s"

definition reads :: "'a unpacker \<Rightarrow> byte list \<Rightarrow> 'a \<Rightarrow> bool" where
  "reads f s x \<longleftrightarrow>
     (\<forall>b p. holds_at b p s \<longrightarrow> f b (Some p) = Inr (x, Some (int (length s))))"

text \<open>Loops over arrays: \<open>for (i = 0; i < n; i++)\<close> with one step per element.\<close>

primrec pack_n :: "nat \<Rightarrow> ('a \<Rightarrow> packer) \<Rightarrow> 'a list \<Rightarrow> packer" where
  "pack_n 0 f xs = pack_nothing"
| "pack_n (Suc n) f xs = (case xs of [] \<Rightarrow> (\<lambda>b c. Inl OutOfBounds)
     | x # xs' \<Rightarrow> then_pack (f x) (pack_n n f xs'))"

primrec unpack_n :: "nat \<Rightarrow> 'a unpacker \<Rightarrow> 'a list unpacker" where
  "unpack_n 0 f = read_ret []"
| "unpack_n (Suc n) f =
     then_read f (\<lambda>x. then_read (unpack_n n f) (\<lambda>xs. read_ret (x # xs)))"

named_theorems writes_intros "what the packing steps write"
named_theorems reads_intros "what the unpacking steps read"

lemma writes_memcpy [writes_intros]: "writes (memcpy_to s) s"
  by (simp add: writes_def)

lemma length_splice: "p + length s \<le> length b \<Longrightarrow> length (splice b p s) = length b"
  by (simp add: splice_def)

lemma splice_append:
  "p + length s + length t \<le> length b \<Longrightarrow>
   splice (splice b p s) (p + length s) t = splice b p (s @ t)"
  by (simp add: splice_def ac_simps)

lemma splice_Nil: "p \<le> length b \<Longrightarrow> splice b p [] = b"
  by (simp add: splice_def)

lemma holds_at_splice: "p + length s \<le> length b \<Longrightarrow> holds_at (splice b p s) p s"
  by (simp add: holds_at_def splice_def)

lemma splice_nth_outside:
  assumes "p + length s \<le> length b" and "i < length b" and "i < p \<or> p + length s \<le> i"
  shows "splice b p s ! i = b ! i"
  using assms by (auto simp: splice_def nth_append)

lemma holds_at_Nil [simp]: "holds_at b p [] \<longleftrightarrow> p \<le> length b"
  by (simp add: holds_at_def)

lemma holds_at_append [simp]:
  "holds_at b p (s @ t) \<longleftrightarrow> holds_at b p s \<and> holds_at b (p + length s) t"
proof
  assume a: "holds_at b p (s @ t)"
  then have l: "p + length s + length t \<le> length b" by (simp add: holds_at_def)
  have e: "take (length s + length t) (drop p b) = s @ t"
    using a by (simp add: holds_at_def)
  from e have "take (length s) (take (length s + length t) (drop p b)) = s" by simp
  then have 1: "take (length s) (drop p b) = s" by simp
  from e have "drop (length s) (take (length s + length t) (drop p b)) = t" by simp
  then have 2: "take (length t) (drop (p + length s) b) = t"
    by (simp add: drop_take add.commute)
  from 1 2 l show "holds_at b p s \<and> holds_at b (p + length s) t"
    by (simp add: holds_at_def)
next
  assume "holds_at b p s \<and> holds_at b (p + length s) t"
  then show "holds_at b p (s @ t)"
    by (simp add: holds_at_def take_add add.assoc) (simp add: add.commute)
qed

lemma writes_apply:
  "writes f s \<Longrightarrow> p + length s \<le> length b \<Longrightarrow>
   f b (Some p) = Inr (splice b p s, int (length s))"
  by (simp add: writes_def memcpy_to_def)

lemma writes_overflow:
  "writes f s \<Longrightarrow> \<not> p + length s \<le> length b \<Longrightarrow> f b (Some p) = Inl OutOfBounds"
  by (simp add: writes_def memcpy_to_def)

lemma writes_then_pack [writes_intros]:
  assumes f: "writes f s" and g: "writes g t"
  shows "writes (then_pack f g) (s @ t)"
  unfolding writes_def
proof (intro allI)
  fix b p
  show "then_pack f g b (Some p) = memcpy_to (s @ t) b (Some p)"
  proof (cases "p + length s \<le> length b")
    case True
    with f g show ?thesis
      by (simp add: then_pack_def writes_def memcpy_to_def length_splice splice_append add.assoc)
  next
    case False
    with f show ?thesis
      by (simp add: then_pack_def writes_def memcpy_to_def)
  qed
qed

text \<open>A step that writes bytes never reports \<open>ERROR\<close>, so the tested sequence is the plain one.\<close>

lemma writes_then_chk [writes_intros]:
  assumes f: "writes f s" and g: "writes g t"
  shows "writes (then_chk f g) (s @ t)"
  unfolding writes_def
proof (intro allI)
  fix b p
  show "then_chk f g b (Some p) = memcpy_to (s @ t) b (Some p)"
  proof (cases "p + length s \<le> length b")
    case True
    with f g show ?thesis
      by (simp add: then_chk_def writes_def memcpy_to_def length_splice splice_append add.assoc)
  next
    case False
    with f show ?thesis
      by (simp add: then_chk_def writes_def memcpy_to_def)
  qed
qed

lemma writes_if_dst [writes_intros]: "writes f s \<Longrightarrow> writes (if_dst f) s"
  by (simp add: writes_def if_dst_def)

lemma writes_nothing [writes_intros]: "writes pack_nothing []"
  by (simp add: writes_def pack_nothing_def)

lemma writes_last [writes_intros]:
  assumes "writes f s"
  shows "writes (then_pack f pack_nothing) s"
  using writes_then_pack [OF assms writes_nothing] by simp

lemma writes_chk_last [writes_intros]:
  assumes "writes f s"
  shows "writes (then_chk f pack_nothing) s"
  using writes_then_chk [OF assms writes_nothing] by simp

lemma pack_seq_simps [simp]:
  "pack_seq [] = pack_nothing"
  "pack_seq (f # fs) = then_pack f (pack_seq fs)"
  by (simp_all add: pack_seq_def)

lemma pack_chk_simps [simp]:
  "pack_chk [] = pack_nothing"
  "pack_chk (f # fs) = then_chk f (pack_chk fs)"
  by (simp_all add: pack_chk_def)

lemma writes_pack_seq:
  "list_all2 writes fs ss \<Longrightarrow> writes (pack_seq fs) (concat ss)"
  by (induction rule: list_all2_induct)
    (auto simp: writes_nothing intro: writes_then_pack)

lemma writes_pack_chk:
  "list_all2 writes fs ss \<Longrightarrow> writes (pack_chk fs) (concat ss)"
  by (induction rule: list_all2_induct)
    (auto simp: writes_nothing intro: writes_then_chk)

lemma reads_apply:
  "reads f s x \<Longrightarrow> holds_at b p s \<Longrightarrow> f b (Some p) = Inr (x, Some (int (length s)))"
  by (simp add: reads_def)

lemma reads_memcpy [reads_intros]: "length s = n \<Longrightarrow> reads (memcpy_from n) s s"
  by (auto simp: reads_def holds_at_def memcpy_from_def)

lemma reads_u32 [reads_intros]: "reads read_u32 (le32 w) w"
  by (auto simp: reads_def read_u32_def holds_at_def memcpy_from_def)

lemma reads_u64 [reads_intros]: "reads read_u64 (le64 w) w"
  by (auto simp: reads_def read_u64_def holds_at_def memcpy_from_def)

lemma reads_ret [reads_intros]: "reads (read_ret x) [] x"
  by (simp add: reads_def read_ret_def)

lemma reads_if_src [reads_intros]: "reads f s x \<Longrightarrow> reads (if_src d f) s x"
  by (simp add: reads_def if_src_def)

lemma reads_then_read [reads_intros]:
  assumes "reads f s x" and "reads (k x) t y"
  shows "reads (then_read f k) (s @ t) y"
  using assms by (auto simp: reads_def then_read_def)

lemma reads_weaken: "reads f s x \<Longrightarrow> s = s' \<Longrightarrow> x = x' \<Longrightarrow> reads f s' x'"
  by simp

lemma writes_weaken: "writes f s \<Longrightarrow> s = s' \<Longrightarrow> writes f s'"
  by simp

text \<open>A read that is the last one of its sequence.\<close>

lemma reads_then_ret [reads_intros]:
  "reads f s x \<Longrightarrow> y = g x \<Longrightarrow> reads (then_read f (\<lambda>x. read_ret (g x))) s y"
  using reads_then_read [OF _ reads_ret, of f s x "\<lambda>x. g x"] by simp

lemma writes_pack_n:
  "n = length ys \<Longrightarrow> take n xs = ys \<Longrightarrow> (\<And>x. x \<in> set ys \<Longrightarrow> writes (f x) (g x)) \<Longrightarrow>
   writes (pack_n n f xs) (concat (map g ys))"
proof (induction ys arbitrary: n xs)
  case Nil
  then show ?case by (simp add: writes_nothing)
next
  case (Cons y ys)
  then obtain xs' where xs: "xs = y # xs'" "take (length ys) xs' = ys"
    by (cases xs) auto
  show ?case
    using Cons.IH [of "length ys" xs'] Cons.prems xs by (auto intro: writes_then_pack)
qed

lemma reads_unpack_n:
  "n = length xs \<Longrightarrow> (\<And>x. x \<in> set xs \<Longrightarrow> reads f (g x) (h x)) \<Longrightarrow>
   reads (unpack_n n f) (concat (map g xs)) (map h xs)"
proof (induction xs arbitrary: n)
  case Nil
  then show ?case by (simp add: reads_ret)
next
  case (Cons x xs)
  have f: "reads f (g x) (h x)" using Cons.prems by simp
  have r: "reads (unpack_n (length xs) f) (concat (map g xs)) (map h xs)"
    using Cons by simp
  have "reads (then_read (unpack_n (length xs) f) (\<lambda>xs. read_ret (h x # xs)))
          (concat (map g xs)) (h x # map h xs)"
    by (rule reads_then_ret [OF r]) simp
  then show ?case
    using Cons.prems(1) reads_then_read [OF f] by auto
qed

section \<open>The interface of a marshalled type\<close>

text \<open>
  Every type the interposer sends has a size function, which also fills the cache of entry
  counts (\<open>cache_num_entries_t\<close>), and a pack function that is given this cache. The sender
  allocates the announced number of bytes and packs into them. The contract between the two:
  the pack function writes a fixed image of the value, and the announced size is enough for it.
\<close>

locale wire_packer =
  fixes getsize :: "'a \<Rightarrow> (int \<times> 'c) cres"
    and pack :: "'a \<Rightarrow> 'c \<Rightarrow> packer"
    and image :: "'a \<Rightarrow> byte list"
    and wf :: "'a \<Rightarrow> bool"
  assumes sized: "wf x \<Longrightarrow> \<exists>n c. getsize x = Inr (n, c)"
    and pack_writes: "wf x \<Longrightarrow> getsize x = Inr (n, c) \<Longrightarrow> writes (pack x c) (image x)"
    and size_enough: "wf x \<Longrightarrow> getsize x = Inr (n, c) \<Longrightarrow> int (length (image x)) \<le> n"
begin

lemma pack_fits:
  assumes "wf x" and "getsize x = Inr (n, c)" and "p + nat n \<le> length b"
  shows "pack x c b (Some p) = Inr (splice b p (image x), int (length (image x)))"
proof -
  have "p + length (image x) \<le> length b"
    using size_enough [OF assms(1,2)] assms(3) by simp
  then show ?thesis
    using pack_writes [OF assms(1,2)] by (simp add: writes_apply)
qed

text \<open>The buffer the sender allocates (exactly the announced bytes) is never overrun.\<close>

lemma pack_safe:
  assumes "wf x" and "getsize x = Inr (n, c)" and "length b = nat n"
  shows "\<exists>b' off. pack x c b (Some 0) = Inr (b', off) \<and> 0 \<le> off \<and> off \<le> n \<and>
           length b' = length b"
proof -
  have fits: "0 + nat n \<le> length b" using assms(3) by simp
  have l: "length (image x) \<le> length b"
    using size_enough [OF assms(1,2)] assms(3) by simp
  show ?thesis
    using pack_fits [OF assms(1,2) fits] size_enough [OF assms(1,2)] l
    by (simp add: length_splice)
qed

text \<open>Nothing outside the announced range is touched.\<close>

lemma pack_frame:
  assumes "wf x" and "getsize x = Inr (n, c)" and "p + nat n \<le> length b"
    and "pack x c b (Some p) = Inr (b', off)"
    and "i < length b" and "i < p \<or> p + nat n \<le> i"
  shows "b' ! i = b ! i"
proof -
  have b': "b' = splice b p (image x)"
    using assms(4) pack_fits [OF assms(1-3)] by simp
  have l: "length (image x) \<le> nat n"
    using size_enough [OF assms(1,2)] by simp
  show ?thesis
    unfolding b' by (rule splice_nth_outside) (use l assms in auto)
qed

end

text \<open>
  The receiving side: an unpack function that reads the image back. It returns a \<open>view\<close> of
  the value, because some distinctions do not survive (an empty string arrives as NULL, an
  address is replaced by that of the receiver's copy).
\<close>

locale wire_codec = wire_packer getsize pack image wf
  for getsize :: "'a \<Rightarrow> (int \<times> 'c) cres" and pack image wf +
  fixes unpack :: "'b unpacker"
    and view :: "'a \<Rightarrow> 'b"
  assumes unpack_reads: "wf x \<Longrightarrow> reads unpack (image x) (view x)"
begin

lemma unpack_pack:
  assumes "wf x" and "getsize x = Inr (n, c)" and "p + nat n \<le> length b"
  shows "\<exists>b' off. pack x c b (Some p) = Inr (b', off) \<and>
           unpack b' (Some p) = Inr (view x, Some off)"
proof -
  have l: "p + length (image x) \<le> length b"
    using size_enough [OF assms(1,2)] assms(3) by simp
  have "unpack (splice b p (image x)) (Some p) = Inr (view x, Some (int (length (image x))))"
    using unpack_reads [OF assms(1)] holds_at_splice [OF l] by (simp add: reads_def)
  then show ?thesis
    using pack_fits [OF assms] by simp
qed

text \<open>The image determines the view: two values with the same bytes are read as the same.\<close>

lemma image_inj:
  assumes "wf x" and "wf y" and "image x = image y"
  shows "view x = view y"
proof -
  have h: "holds_at (image x) 0 (image x)" by (simp add: holds_at_def)
  have "unpack (image x) (Some 0) = Inr (view x, Some (int (length (image x))))"
    using unpack_reads [OF assms(1)] h by (simp add: reads_def)
  moreover have "unpack (image x) (Some 0) = Inr (view y, Some (int (length (image x))))"
    using unpack_reads [OF assms(2)] h assms(3) by (simp add: reads_def)
  ultimately show ?thesis by simp
qed

end

end
