(* ===== verification/Marshal_Str.thy ===== *)
theory Marshal_Str
  imports Wire_Codec
begin

text \<open>
  Strings and pointers to small structures on the wire: \<open>l_getStringPktSize\<close>,
  \<open>l_packStr\<close>, \<open>l_unpackStr\<close>, \<open>l_unpackChars\<close> and the packing of pointers to
  \<open>uint3\<close>, \<open>dim3\<close> and \<open>int\<close> of interposer/libciutils.c. Each pair is an
  interpretation of \<open>wire_codec\<close>.
\<close>

section \<open>Strings\<close>

definition l_getStringPktSize :: "charp \<Rightarrow> int" where
  "l_getStringPktSize string =
     (case string of None \<Rightarrow> 4
      | Some s \<Rightarrow> if strlen s = 0 then 4 else 4 + int (strlen s))"

text \<open>The length is an \<open>int\<close>: a string of 2^31 bytes or more has a negative one.\<close>

definition l_packStr :: "charp \<Rightarrow> packer" where
  "l_packStr src = if_dst
     (let len = (case src of None \<Rightarrow> 0
                 | Some s \<Rightarrow> if strlen s = 0 then 0 else word_of_nat (strlen s)) :: u32
      in then_pack (memcpy_to (le32 len))
           (if 0 < sint len then memcpy_to (take (nat (sint len)) (the src)) else pack_nothing))"

text \<open>
  \<open>malloc(length + 1)\<close> is computed in 32 bits: for the largest length it allocates 0 bytes
  and the copy overflows.
\<close>

definition l_unpackStr :: "charp unpacker" where
  "l_unpackStr = if_src None
     (then_read read_u32 (\<lambda>len.
        if len = 0 then read_ret None
        else if len + 1 = 0 then read_fault OutOfBounds
        else then_read (memcpy_from (unat len)) (\<lambda>s. read_ret (Some s))))"

text \<open>
  \<open>l_unpackChars(pSrc, size)\<close>: NULL source or size 0 gives NULL, and so does a negative
  \<open>size\<close>, for which \<open>malloc\<close> cannot succeed.
\<close>

definition l_unpackChars :: "u32 \<Rightarrow> cbuf \<Rightarrow> cptr \<Rightarrow> charp cres" where
  "l_unpackChars sz b c =
     (if c = None \<or> sz = 0 \<or> sint sz < 0 then Inr None
      else bindr (memcpy_from (unat sz) b c) (\<lambda>(s, off). Inr (Some s)))"

definition str_bytes :: "charp \<Rightarrow> byte list" where
  "str_bytes s = (case s of None \<Rightarrow> [] | Some s \<Rightarrow> cstr s)"

definition str_image :: "charp \<Rightarrow> byte list" where
  "str_image s = le32 (word_of_nat (length (str_bytes s))) @ str_bytes s"

definition str_wf :: "charp \<Rightarrow> bool" where
  "str_wf s \<longleftrightarrow> length (str_bytes s) < 2 ^ 31"

definition str_view :: "charp \<Rightarrow> charp" where
  "str_view s = (if str_bytes s = [] then None else Some (str_bytes s))"

lemma str_bytes_simps [simp]:
  "str_bytes None = []" "str_bytes (Some s) = cstr s"
  by (simp_all add: str_bytes_def)

lemma str_size: "l_getStringPktSize s = int (length (str_image s))"
  by (auto simp: l_getStringPktSize_def str_image_def str_bytes_def strlen_def
      split: option.splits)

lemma writes_str [writes_intros]: "str_wf s \<Longrightarrow> writes (l_packStr s) (str_image s)"
proof -
  assume wf: "str_wf s"
  show "writes (l_packStr s) (str_image s)"
  proof (cases "str_bytes s = []")
    case True
    then have "l_packStr s = if_dst (then_pack (memcpy_to (le32 0)) pack_nothing)"
      by (auto simp: l_packStr_def str_bytes_def strlen_def split: option.splits)
    moreover have "str_image s = le32 0 @ []" by (simp add: str_image_def True)
    ultimately show ?thesis
      by (metis writes_if_dst writes_memcpy writes_nothing writes_then_pack)
  next
    case False
    then obtain t where s: "s = Some t" and t: "strlen t \<noteq> 0"
      by (auto simp: str_bytes_def strlen_def split: option.splits)
    have len: "sint (word_of_nat (strlen t) :: u32) = int (strlen t)"
      using wf s by (intro sint_small_nat) (simp add: str_wf_def strlen_def)
    have "l_packStr s = if_dst (then_pack (memcpy_to (le32 (word_of_nat (strlen t))))
            (memcpy_to (cstr t)))"
      using s t len by (simp add: l_packStr_def cstr_take)
    then show ?thesis
      using s by (auto simp: str_image_def strlen_def intro!: writes_intros)
  qed
qed

lemma reads_str [reads_intros]: "str_wf s \<Longrightarrow> reads l_unpackStr (str_image s) (str_view s)"
proof -
  assume wf: "str_wf s"
  let ?n = "length (str_bytes s)"
  have n: "?n < 2 ^ 31" using wf by (simp add: str_wf_def)
  have u: "unat (word_of_nat ?n :: u32) = ?n" using n by (intro unat_small_nat) simp
  have z: "(word_of_nat ?n :: u32) = 0 \<longleftrightarrow> str_bytes s = []"
    using u by (metis length_0_conv unat_eq_zero)
  have m: "(word_of_nat ?n :: u32) + 1 \<noteq> 0"
  proof
    assume "(word_of_nat ?n :: u32) + 1 = 0"
    then have "(word_of_nat (?n + 1) :: u32) = 0" by (simp add: add.commute)
    then have "unat (word_of_nat (?n + 1) :: u32) = 0" by simp
    then show False using n by (subst (asm) unat_small_nat) auto
  qed
  show ?thesis
    unfolding l_unpackStr_def str_image_def
    by (intro reads_if_src reads_then_read [OF reads_u32])
      (auto simp: z m u str_view_def intro!: reads_ret reads_memcpy reads_then_ret)
qed

interpretation str_codec: wire_codec
  "\<lambda>s. Inr (l_getStringPktSize s, ())" "\<lambda>s _. l_packStr s" str_image str_wf
  l_unpackStr str_view
  by unfold_locales (auto simp: str_size intro: writes_str reads_str)

section \<open>Pointers to small structures\<close>

text \<open>
  \<open>uint3\<close> and \<open>dim3\<close> are the CUDA vector types. A non-NULL pointer is the address (which
  is sent) with the object behind it; the receiver tests the address it gets for NULL.
\<close>

record uint3 =
  ux :: u32
  uy :: u32
  uz :: u32

record dim3 =
  dx :: u32
  dy :: u32
  dz :: u32

type_synonym uint3p = "(u64 \<times> uint3) option"
type_synonym dim3p = "(u64 \<times> dim3) option"
type_synonym intp = "(u64 \<times> u32) option"

definition ptr_val :: "(u64 \<times> 'a) option \<Rightarrow> u64" where
  "ptr_val p = (case p of None \<Rightarrow> 0 | Some (a, x) \<Rightarrow> a)"

definition l_getUint3PtrPktSize :: "uint3p \<Rightarrow> int" where
  "l_getUint3PtrPktSize p = (if p \<noteq> None then 8 + 12 else 8)"

definition l_getDim3PtrPktSize :: "dim3p \<Rightarrow> int" where
  "l_getDim3PtrPktSize p = (if p \<noteq> None then 8 + 12 else 8)"

definition l_getIntPtrPktSize :: "intp \<Rightarrow> int" where
  "l_getIntPtrPktSize p = (if p \<noteq> None then 8 + 4 else 8)"

definition l_packUint3Ptr :: "uint3p \<Rightarrow> packer" where
  "l_packUint3Ptr src = if_dst (then_pack (memcpy_to (le64 (ptr_val src)))
     (case src of None \<Rightarrow> pack_nothing
      | Some (a, v) \<Rightarrow> pack_seq [memcpy_to (le32 (ux v)), memcpy_to (le32 (uy v)),
                                memcpy_to (le32 (uz v))]))"

definition l_packDim3Ptr :: "dim3p \<Rightarrow> packer" where
  "l_packDim3Ptr src = if_dst (then_pack (memcpy_to (le64 (ptr_val src)))
     (case src of None \<Rightarrow> pack_nothing
      | Some (a, v) \<Rightarrow> pack_seq [memcpy_to (le32 (dx v)), memcpy_to (le32 (dy v)),
                                memcpy_to (le32 (dz v))]))"

definition l_packIntPtr :: "intp \<Rightarrow> packer" where
  "l_packIntPtr src = if_dst (then_pack (memcpy_to (le64 (ptr_val src)))
     (case src of None \<Rightarrow> pack_nothing | Some (a, v) \<Rightarrow> memcpy_to (le32 v)))"

text \<open>
  The unpacking functions set \<open>*pOffset\<close> to \<open>ERROR\<close> for a NULL source, and return a
  pointer to a fresh object, here the object itself.
\<close>

definition if_src_err :: "'a \<Rightarrow> 'a unpacker \<Rightarrow> 'a unpacker" where
  "if_src_err dflt f b c = (if c = None then Inr (dflt, Some ERROR) else f b c)"

definition l_unpackUint3Ptr :: "uint3 option unpacker" where
  "l_unpackUint3Ptr = if_src_err None
     (then_read read_u64 (\<lambda>a. if a \<noteq> 0 then
        then_read read_u32 (\<lambda>x. then_read read_u32 (\<lambda>y. then_read read_u32 (\<lambda>z.
          read_ret (Some \<lparr>ux = x, uy = y, uz = z\<rparr>))))
      else read_ret None))"

definition l_unpackDim3Ptr :: "dim3 option unpacker" where
  "l_unpackDim3Ptr = if_src_err None
     (then_read read_u64 (\<lambda>a. if a \<noteq> 0 then
        then_read read_u32 (\<lambda>x. then_read read_u32 (\<lambda>y. then_read read_u32 (\<lambda>z.
          read_ret (Some \<lparr>dx = x, dy = y, dz = z\<rparr>))))
      else read_ret None))"

definition l_unpackIntPtr :: "u32 option unpacker" where
  "l_unpackIntPtr = if_src_err None
     (then_read read_u64 (\<lambda>a. if a \<noteq> 0 then
        then_read read_u32 (\<lambda>x. read_ret (Some x)) else read_ret None))"

definition ptr_wf :: "(u64 \<times> 'a) option \<Rightarrow> bool" where
  "ptr_wf p \<longleftrightarrow> (case p of None \<Rightarrow> True | Some (a, x) \<Rightarrow> a \<noteq> 0)"

definition ptr_image :: "('a \<Rightarrow> byte list) \<Rightarrow> (u64 \<times> 'a) option \<Rightarrow> byte list" where
  "ptr_image f p = le64 (ptr_val p) @ (case p of None \<Rightarrow> [] | Some (a, x) \<Rightarrow> f x)"

definition uint3_image :: "uint3 \<Rightarrow> byte list" where
  "uint3_image v = le32 (ux v) @ le32 (uy v) @ le32 (uz v) @ []"

definition dim3_image :: "dim3 \<Rightarrow> byte list" where
  "dim3_image v = le32 (dx v) @ le32 (dy v) @ le32 (dz v) @ []"

definition ptr_view :: "(u64 \<times> 'a) option \<Rightarrow> 'a option" where
  "ptr_view p = map_option snd p"

lemma reads_if_src_err [reads_intros]: "reads f s x \<Longrightarrow> reads (if_src_err d f) s x"
  by (simp add: reads_def if_src_err_def)

lemma writes_uint3p [writes_intros]: "writes (l_packUint3Ptr p) (ptr_image uint3_image p)"
  unfolding l_packUint3Ptr_def ptr_image_def uint3_image_def pack_seq_simps
  by (auto split: option.splits prod.splits intro!: writes_intros)

lemma writes_dim3p [writes_intros]: "writes (l_packDim3Ptr p) (ptr_image dim3_image p)"
  unfolding l_packDim3Ptr_def ptr_image_def dim3_image_def pack_seq_simps
  by (auto split: option.splits prod.splits intro!: writes_intros)

lemma writes_intp [writes_intros]: "writes (l_packIntPtr p) (ptr_image le32 p)"
  unfolding l_packIntPtr_def ptr_image_def
  by (auto split: option.splits prod.splits intro!: writes_intros)

text \<open>The common shape of the three unpacking functions.\<close>

lemma reads_ptr:
  assumes "ptr_wf p" and "\<And>a x. p = Some (a, x) \<Longrightarrow> reads k (f x) (Some x)"
  shows "reads (then_read read_u64 (\<lambda>a. if a \<noteq> 0 then k else read_ret None))
           (ptr_image f p) (ptr_view p)"
  unfolding ptr_image_def
  by (rule reads_then_read [OF reads_u64])
    (use assms in \<open>auto simp: ptr_wf_def ptr_val_def ptr_view_def reads_ret split: option.splits\<close>)

lemma reads_uint3p [reads_intros]:
  "ptr_wf p \<Longrightarrow> reads l_unpackUint3Ptr (ptr_image uint3_image p) (ptr_view p)"
  unfolding l_unpackUint3Ptr_def
  by (intro reads_if_src_err reads_ptr) (auto simp: uint3_image_def intro!: reads_intros)

lemma reads_dim3p [reads_intros]:
  "ptr_wf p \<Longrightarrow> reads l_unpackDim3Ptr (ptr_image dim3_image p) (ptr_view p)"
  unfolding l_unpackDim3Ptr_def
  by (intro reads_if_src_err reads_ptr) (auto simp: dim3_image_def intro!: reads_intros)

lemma reads_intp [reads_intros]:
  "ptr_wf p \<Longrightarrow> reads l_unpackIntPtr (ptr_image le32 p) (ptr_view p)"
  unfolding l_unpackIntPtr_def
  by (intro reads_if_src_err reads_ptr) (auto intro!: reads_then_ret reads_u32)

lemma uint3p_size: "l_getUint3PtrPktSize p = int (length (ptr_image uint3_image p))"
  by (auto simp: l_getUint3PtrPktSize_def ptr_image_def uint3_image_def split: option.splits)

lemma dim3p_size: "l_getDim3PtrPktSize p = int (length (ptr_image dim3_image p))"
  by (auto simp: l_getDim3PtrPktSize_def ptr_image_def dim3_image_def split: option.splits)

lemma intp_size: "l_getIntPtrPktSize p = int (length (ptr_image le32 p))"
  by (auto simp: l_getIntPtrPktSize_def ptr_image_def split: option.splits)

interpretation uint3p_codec: wire_codec
  "\<lambda>p. Inr (l_getUint3PtrPktSize p, ())" "\<lambda>p _. l_packUint3Ptr p" "ptr_image uint3_image"
  ptr_wf l_unpackUint3Ptr ptr_view
  by unfold_locales (auto simp: uint3p_size intro: writes_uint3p reads_uint3p)

interpretation dim3p_codec: wire_codec
  "\<lambda>p. Inr (l_getDim3PtrPktSize p, ())" "\<lambda>p _. l_packDim3Ptr p" "ptr_image dim3_image"
  ptr_wf l_unpackDim3Ptr ptr_view
  by unfold_locales (auto simp: dim3p_size intro: writes_dim3p reads_dim3p)

interpretation intp_codec: wire_codec
  "\<lambda>p. Inr (l_getIntPtrPktSize p, ())" "\<lambda>p _. l_packIntPtr p" "ptr_image le32"
  ptr_wf l_unpackIntPtr ptr_view
  by unfold_locales (auto simp: intp_size intro: writes_intp reads_intp)

end
