(* ===== verification/Wire_Arrays.thy ===== *)
theory Wire_Arrays
  imports Marshal_Str
begin

text \<open>
  Arrays and linked lists of entries on the wire: the loops that the size, pack and unpack
  functions of interposer/libciutils.c repeat for each type of entry.

  An array of entries is the list of its elements up to and including the entry with NULL
  fields that ends it; reading past the list is out of bounds. A list of entries that are linked
  by \<open>next\<close> is the list of the linked records, \<open>[]\<close> being NULL.
\<close>

section \<open>Loops the entry functions share\<close>

text \<open>\<open>while (ok(pEntry[i])) { size += ...; i++; }\<close> over an array, with the counter.\<close>

primrec count_array :: "('a \<Rightarrow> bool) \<Rightarrow> ('a \<Rightarrow> int) \<Rightarrow> 'a list \<Rightarrow> (int \<times> int) cres" where
  "count_array ok sz [] = Inl OutOfBounds"
| "count_array ok sz (e # es) = (if ok e
     then bindr (count_array ok sz es) (\<lambda>(s, i). Inr (sz e + s, i + 1)) else Inr (0, 0))"

text \<open>The same over a list linked by \<open>next\<close>: \<open>while (p && ok(p)) { ...; p = p->next; }\<close>.\<close>

primrec count_chain :: "('a \<Rightarrow> bool) \<Rightarrow> ('a \<Rightarrow> int) \<Rightarrow> 'a list \<Rightarrow> int \<times> int" where
  "count_chain ok sz [] = (0, 0)"
| "count_chain ok sz (e # es) = (if ok e
     then (let (s, i) = count_chain ok sz es in (sz e + s, i + 1)) else (0, 0))"

definition pack_assert :: "bool \<Rightarrow> packer" where
  "pack_assert cond b c = (if cond then pack_nothing b c else Inl AssertFail)"

text \<open>Packing a linked list with a counter \<open>i\<close>, which must end at \<open>n\<close>.\<close>

primrec pack_chain :: "('a \<Rightarrow> bool) \<Rightarrow> ('a \<Rightarrow> packer) \<Rightarrow> int \<Rightarrow> int \<Rightarrow> 'a list \<Rightarrow> packer" where
  "pack_chain ok f n i [] = pack_assert (i = n)"
| "pack_chain ok f n i (e # es) =
     (if ok e then then_pack (f e) (pack_chain ok f n (i + 1) es) else pack_assert (i = n))"

text \<open>Packing an array: the count, then the first \<open>n\<close> entries.\<close>

definition pack_array :: "('a \<Rightarrow> packer) \<Rightarrow> 'a list option \<Rightarrow> int \<Rightarrow> packer" where
  "pack_array f p n = if_dst (then_pack (memcpy_to (le32 (word_of_int n)))
     (if n = 0 \<or> p = None then pack_nothing else pack_n (nat n) f (the p)))"

text \<open>
  Unpacking: the count, then the entries, then the terminator. Where the code allocates
  \<open>(n + 1) * sizeof\<close> with \<open>n + 1\<close> in 32 bits, the largest count allocates nothing.
\<close>

definition unpack_terminated :: "bool \<Rightarrow> 'a unpacker \<Rightarrow> 'a \<Rightarrow> u32 \<Rightarrow> 'a list unpacker" where
  "unpack_terminated wraps f term n =
     (if wraps \<and> n + 1 = 0 then read_fault OutOfBounds
      else then_read (unpack_n (unat n) f) (\<lambda>es. read_ret (es @ [term])))"

definition pack_linked :: "('a \<Rightarrow> bool) \<Rightarrow> ('a \<Rightarrow> packer) \<Rightarrow> 'a list \<Rightarrow> int \<Rightarrow> packer" where
  "pack_linked ok f p n = if_dst (then_pack (memcpy_to (le32 (word_of_int n)))
     (if n = 0 \<or> p = [] then pack_nothing else pack_chain ok f n 0 p))"

definition unpack_linked :: "'a unpacker \<Rightarrow> 'a \<Rightarrow> 'a list unpacker" where
  "unpack_linked f term = if_src [] (then_read read_u32 (\<lambda>n.
     if n = 0 then read_ret [] else unpack_terminated True f term n))"

text \<open>The entries before the terminator, and what the loops above do with them.\<close>

definition arr_entries :: "('a \<Rightarrow> bool) \<Rightarrow> 'a list option \<Rightarrow> 'a list" where
  "arr_entries ok p = (case p of None \<Rightarrow> [] | Some xs \<Rightarrow> takeWhile ok xs)"

definition terminated :: "('a \<Rightarrow> bool) \<Rightarrow> 'a list option \<Rightarrow> bool" where
  "terminated ok p = (case p of None \<Rightarrow> True | Some xs \<Rightarrow> (\<exists>x \<in> set xs. \<not> ok x))"

definition entries_image :: "('a \<Rightarrow> byte list) \<Rightarrow> 'a list \<Rightarrow> byte list" where
  "entries_image img es = le32 (word_of_nat (length es)) @ concat (map img es)"

definition entries_wf :: "('a \<Rightarrow> bool) \<Rightarrow> 'a list \<Rightarrow> bool" where
  "entries_wf good es \<longleftrightarrow> (\<forall>e \<in> set es. good e) \<and> length es < 2 ^ 31"

lemma arr_entries_simps [simp]:
  "arr_entries ok None = []" "arr_entries ok (Some xs) = takeWhile ok xs"
  by (simp_all add: arr_entries_def)

lemma count_array_eq:
  "\<exists>x \<in> set xs. \<not> ok x \<Longrightarrow> count_array ok sz xs =
     Inr (sum_list (map sz (takeWhile ok xs)), int (length (takeWhile ok xs)))"
  by (induction xs) auto

lemma count_chain_eq:
  "count_chain ok sz xs =
     (sum_list (map sz (takeWhile ok xs)), int (length (takeWhile ok xs)))"
  by (induction xs) auto

lemma length_concat_image:
  "int (length (concat (map img es))) = sum_list (map (\<lambda>e. int (length (img e))) es)"
  by (induction es) auto

lemma take_length_takeWhile: "take (length (takeWhile P xs)) xs = takeWhile P xs"
  by (induction xs) auto

lemma word_of_int_of_nat: "(word_of_int (int n) :: u32) = word_of_nat n"
  by simp

lemma writes_array:
  assumes wf: "entries_wf good (arr_entries ok p)"
    and f: "\<And>e. good e \<Longrightarrow> writes (f e) (img e)"
  shows "writes (pack_array f p (int (length (arr_entries ok p))))
           (entries_image img (arr_entries ok p))"
proof (cases p)
  case None
  then show ?thesis
    by (auto simp: pack_array_def entries_image_def intro!: writes_intros)
next
  case (Some xs)
  have "writes (pack_n (length (takeWhile ok xs)) f xs) (concat (map img (takeWhile ok xs)))"
    by (rule writes_pack_n)
      (use wf f Some in \<open>auto simp: take_length_takeWhile entries_wf_def\<close>)
  then show ?thesis
    using Some
    by (auto simp: pack_array_def entries_image_def intro!: writes_intros)
qed

lemma writes_assert: "cond \<Longrightarrow> writes (pack_assert cond) []"
  by (simp add: pack_assert_def writes_def pack_nothing_def)

lemma writes_chain:
  assumes "\<And>e. e \<in> set (takeWhile ok xs) \<Longrightarrow> writes (f e) (img e)"
    and "n = i + int (length (takeWhile ok xs))"
  shows "writes (pack_chain ok f n i xs) (concat (map img (takeWhile ok xs)))"
  using assms
proof (induction xs arbitrary: i)
  case Nil
  then show ?case by (simp add: writes_assert)
next
  case (Cons x xs)
  then show ?case
    by (cases "ok x") (auto intro!: writes_then_pack writes_assert)
qed

lemma writes_linked:
  assumes f: "\<And>e. e \<in> set (takeWhile ok p) \<Longrightarrow> writes (f e) (img e)"
  shows "writes (pack_linked ok f p (int (length (takeWhile ok p))))
           (entries_image img (takeWhile ok p))"
proof (cases "takeWhile ok p = []")
  case True
  then show ?thesis
    by (auto simp: pack_linked_def entries_image_def intro!: writes_intros)
next
  case False
  then have "p \<noteq> []" by auto
  moreover have "writes (pack_chain ok f (int (length (takeWhile ok p))) 0 p)
      (concat (map img (takeWhile ok p)))"
    by (rule writes_chain) (use f in auto)
  ultimately show ?thesis
    using False
    by (auto simp: pack_linked_def entries_image_def intro!: writes_intros)
qed

lemma count_not_max:
  assumes "n < 2 ^ 31"
  shows "(word_of_nat n :: u32) + 1 \<noteq> 0"
proof
  assume "(word_of_nat n :: u32) + 1 = 0"
  then have "(word_of_nat (n + 1) :: u32) = 0" by (simp add: add.commute)
  then have "unat (word_of_nat (n + 1) :: u32) = 0" by simp
  then show False using assms by (subst (asm) unat_small_nat) auto
qed

lemma reads_terminated:
  assumes wf: "entries_wf good es" and f: "\<And>e. good e \<Longrightarrow> reads f (img e) (view e)"
  shows "reads (unpack_terminated wraps f term (word_of_nat (length es)))
           (concat (map img es)) (map view es @ [term])"
proof -
  have l: "length es < 2 ^ 31" using wf by (simp add: entries_wf_def)
  then have u: "unat (word_of_nat (length es) :: u32) = length es"
    by (intro unat_small_nat) simp
  have "reads (unpack_n (length es) f) (concat (map img es)) (map view es)"
    by (rule reads_unpack_n) (use wf f in \<open>auto simp: entries_wf_def\<close>)
  then show ?thesis
    unfolding unpack_terminated_def u
    using count_not_max [OF l] by (auto intro: reads_then_ret)
qed

lemma count_zero_iff: "n < 2 ^ 31 \<Longrightarrow> (word_of_nat n :: u32) = 0 \<longleftrightarrow> n = 0"
  using unat_small_nat [of n] unsigned_0 by fastforce

lemma reads_linked:
  assumes wf: "entries_wf good es" and f: "\<And>e. good e \<Longrightarrow> reads f (img e) (view e)"
  shows "reads (unpack_linked f term) (entries_image img es)
           (if es = [] then [] else map view es @ [term])"
proof -
  have l: "length es < 2 ^ 31" using wf by (simp add: entries_wf_def)
  show ?thesis
    unfolding unpack_linked_def entries_image_def
    by (intro reads_if_src reads_then_read [OF reads_u32])
      (use reads_terminated [OF wf f] in \<open>auto simp: count_zero_iff [OF l] intro: reads_ret\<close>)
qed

end
