(* ===== verification/Marshal_Fat.thy ===== *)
theory Marshal_Fat
  imports Wire_Arrays
begin

text \<open>
  The fat binaries of interposer/libciutils.c: the entries of \<open>__cudaFatCudaBinary\<close>
  (CUDA 3.2) and the whole structure, with their size functions, packing and unpacking.
  Each entry type and the structure itself are interpretations of \<open>wire_codec\<close>.
\<close>

section \<open>Entries\<close>

record cudaFatPtxEntry =
  ptx_gpuProfileName :: charp
  ptx_ptx :: charp

record cudaFatCubinEntry =
  cubin_gpuProfileName :: charp
  cubin_cubin :: charp

record cudaFatDebugEntry =
  debug_gpuProfileName :: charp
  debug_debug :: charp
  debug_size :: u32

record cudaFatElfEntry =
  elf_gpuProfileName :: charp
  elf_elf :: charp
  elf_size :: u32

record cudaFatSymbol =
  sym_name :: charp

subsection \<open>PTX\<close>

definition ptx_ok :: "cudaFatPtxEntry \<Rightarrow> bool" where
  "ptx_ok e \<longleftrightarrow> ptx_gpuProfileName e \<noteq> None \<and> ptx_ptx e \<noteq> None"

definition l_getSize_cudaFatPtxEntry :: "cudaFatPtxEntry list option \<Rightarrow> (int \<times> int) cres" where
  "l_getSize_cudaFatPtxEntry p = (case p of None \<Rightarrow> Inr (4, 0) | Some xs \<Rightarrow>
     bindr (count_array ptx_ok (\<lambda>e. l_getStringPktSize (ptx_gpuProfileName e)
       + l_getStringPktSize (ptx_ptx e)) xs) (\<lambda>(s, i). Inr (4 + s, i)))"

definition l_packPtx :: "cudaFatPtxEntry list option \<Rightarrow> int \<Rightarrow> packer" where
  "l_packPtx = pack_array (\<lambda>e. pack_seq [l_packStr (ptx_gpuProfileName e), l_packStr (ptx_ptx e)])"

definition l_unpackPtx :: "cudaFatPtxEntry list option unpacker" where
  "l_unpackPtx = if_src None (then_read read_u32 (\<lambda>n. then_read
     (unpack_terminated False
       (then_read l_unpackStr (\<lambda>name. then_read l_unpackStr (\<lambda>code.
          read_ret \<lparr>ptx_gpuProfileName = name, ptx_ptx = code\<rparr>)))
       \<lparr>ptx_gpuProfileName = None, ptx_ptx = None\<rparr> n)
     (\<lambda>es. read_ret (Some es))))"

definition ptx_wf :: "cudaFatPtxEntry \<Rightarrow> bool" where
  "ptx_wf e \<longleftrightarrow> str_wf (ptx_gpuProfileName e) \<and> str_wf (ptx_ptx e)"

definition ptx_image :: "cudaFatPtxEntry \<Rightarrow> byte list" where
  "ptx_image e = str_image (ptx_gpuProfileName e) @ str_image (ptx_ptx e)"

definition ptx_view :: "cudaFatPtxEntry \<Rightarrow> cudaFatPtxEntry" where
  "ptx_view e = \<lparr>ptx_gpuProfileName = str_view (ptx_gpuProfileName e),
                 ptx_ptx = str_view (ptx_ptx e)\<rparr>"

definition ptxs_wf :: "cudaFatPtxEntry list option \<Rightarrow> bool" where
  "ptxs_wf p \<longleftrightarrow> terminated ptx_ok p \<and> entries_wf ptx_wf (arr_entries ptx_ok p)"

definition ptxs_image :: "cudaFatPtxEntry list option \<Rightarrow> byte list" where
  "ptxs_image p = entries_image ptx_image (arr_entries ptx_ok p)"

definition ptxs_view :: "cudaFatPtxEntry list option \<Rightarrow> cudaFatPtxEntry list option" where
  "ptxs_view p = Some (map ptx_view (arr_entries ptx_ok p)
                   @ [\<lparr>ptx_gpuProfileName = None, ptx_ptx = None\<rparr>])"

lemma ptx_size: "ptxs_wf p \<Longrightarrow> l_getSize_cudaFatPtxEntry p =
    Inr (int (length (ptxs_image p)), int (length (arr_entries ptx_ok p)))"
  by (auto simp: l_getSize_cudaFatPtxEntry_def ptxs_wf_def terminated_def count_array_eq
      ptxs_image_def entries_image_def length_concat_image ptx_image_def str_size
      split: option.splits)

lemma writes_ptx:
  "ptxs_wf p \<Longrightarrow> writes (l_packPtx p (int (length (arr_entries ptx_ok p)))) (ptxs_image p)"
  unfolding l_packPtx_def ptxs_image_def
  by (rule writes_array [where good = ptx_wf])
    (auto simp: ptxs_wf_def ptx_wf_def ptx_image_def intro!: writes_intros)

lemma reads_ptx: "ptxs_wf p \<Longrightarrow> reads l_unpackPtx (ptxs_image p) (ptxs_view p)"
  unfolding l_unpackPtx_def ptxs_image_def ptxs_view_def entries_image_def
  by (intro reads_if_src reads_then_read [OF reads_u32]
      reads_then_ret [OF reads_terminated [where good = ptx_wf and view = ptx_view]])
    (auto simp: ptxs_wf_def ptx_wf_def ptx_image_def ptx_view_def intro!: reads_intros)

interpretation ptx_codec: wire_codec
  l_getSize_cudaFatPtxEntry l_packPtx ptxs_image ptxs_wf l_unpackPtx ptxs_view
  by unfold_locales (auto simp: ptx_size intro: writes_ptx reads_ptx)

subsection \<open>CUBIN\<close>

definition cubin_ok :: "cudaFatCubinEntry \<Rightarrow> bool" where
  "cubin_ok e \<longleftrightarrow> cubin_gpuProfileName e \<noteq> None \<and> cubin_cubin e \<noteq> None"

definition l_getSize_cudaFatCubinEntry :: "cudaFatCubinEntry list option \<Rightarrow> (int \<times> int) cres" where
  "l_getSize_cudaFatCubinEntry p = (case p of None \<Rightarrow> Inr (4, 0) | Some xs \<Rightarrow>
     bindr (count_array cubin_ok (\<lambda>e. l_getStringPktSize (cubin_gpuProfileName e)
       + l_getStringPktSize (cubin_cubin e)) xs) (\<lambda>(s, i). Inr (4 + s, i)))"

definition l_packCubin :: "cudaFatCubinEntry list option \<Rightarrow> int \<Rightarrow> packer" where
  "l_packCubin =
     pack_array (\<lambda>e. pack_seq [l_packStr (cubin_gpuProfileName e), l_packStr (cubin_cubin e)])"

definition l_unpackCubin :: "cudaFatCubinEntry list option unpacker" where
  "l_unpackCubin = if_src None (then_read read_u32 (\<lambda>n. then_read
     (unpack_terminated True
       (then_read l_unpackStr (\<lambda>name. then_read l_unpackStr (\<lambda>code.
          read_ret \<lparr>cubin_gpuProfileName = name, cubin_cubin = code\<rparr>)))
       \<lparr>cubin_gpuProfileName = None, cubin_cubin = None\<rparr> n)
     (\<lambda>es. read_ret (Some es))))"

definition cubin_wf :: "cudaFatCubinEntry \<Rightarrow> bool" where
  "cubin_wf e \<longleftrightarrow> str_wf (cubin_gpuProfileName e) \<and> str_wf (cubin_cubin e)"

definition cubin_image :: "cudaFatCubinEntry \<Rightarrow> byte list" where
  "cubin_image e = str_image (cubin_gpuProfileName e) @ str_image (cubin_cubin e)"

definition cubin_view :: "cudaFatCubinEntry \<Rightarrow> cudaFatCubinEntry" where
  "cubin_view e = \<lparr>cubin_gpuProfileName = str_view (cubin_gpuProfileName e),
                   cubin_cubin = str_view (cubin_cubin e)\<rparr>"

definition cubins_wf :: "cudaFatCubinEntry list option \<Rightarrow> bool" where
  "cubins_wf p \<longleftrightarrow> terminated cubin_ok p \<and> entries_wf cubin_wf (arr_entries cubin_ok p)"

definition cubins_image :: "cudaFatCubinEntry list option \<Rightarrow> byte list" where
  "cubins_image p = entries_image cubin_image (arr_entries cubin_ok p)"

definition cubins_view :: "cudaFatCubinEntry list option \<Rightarrow> cudaFatCubinEntry list option" where
  "cubins_view p = Some (map cubin_view (arr_entries cubin_ok p)
                   @ [\<lparr>cubin_gpuProfileName = None, cubin_cubin = None\<rparr>])"

lemma cubin_size: "cubins_wf p \<Longrightarrow> l_getSize_cudaFatCubinEntry p =
    Inr (int (length (cubins_image p)), int (length (arr_entries cubin_ok p)))"
  by (auto simp: l_getSize_cudaFatCubinEntry_def cubins_wf_def terminated_def count_array_eq
      cubins_image_def entries_image_def length_concat_image cubin_image_def str_size
      split: option.splits)

lemma writes_cubin:
  "cubins_wf p \<Longrightarrow>
   writes (l_packCubin p (int (length (arr_entries cubin_ok p)))) (cubins_image p)"
  unfolding l_packCubin_def cubins_image_def
  by (rule writes_array [where good = cubin_wf])
    (auto simp: cubins_wf_def cubin_wf_def cubin_image_def intro!: writes_intros)

lemma reads_cubin: "cubins_wf p \<Longrightarrow> reads l_unpackCubin (cubins_image p) (cubins_view p)"
  unfolding l_unpackCubin_def cubins_image_def cubins_view_def entries_image_def
  by (intro reads_if_src reads_then_read [OF reads_u32]
      reads_then_ret [OF reads_terminated [where good = cubin_wf and view = cubin_view]])
    (auto simp: cubins_wf_def cubin_wf_def cubin_image_def cubin_view_def intro!: reads_intros)

interpretation cubin_codec: wire_codec
  l_getSize_cudaFatCubinEntry l_packCubin cubins_image cubins_wf l_unpackCubin cubins_view
  by unfold_locales (auto simp: cubin_size intro: writes_cubin reads_cubin)

subsection \<open>Debug information\<close>

definition debug_ok :: "cudaFatDebugEntry \<Rightarrow> bool" where
  "debug_ok e \<longleftrightarrow> debug_gpuProfileName e \<noteq> None \<and> debug_debug e \<noteq> None"

definition l_getSize_cudaFatDebugEntry :: "cudaFatDebugEntry list \<Rightarrow> int \<times> int" where
  "l_getSize_cudaFatDebugEntry p =
     (let (s, i) = count_chain debug_ok (\<lambda>e. l_getStringPktSize (debug_gpuProfileName e)
        + l_getStringPktSize (debug_debug e) + 4) p in (4 + s, i))"

definition l_packDebug :: "cudaFatDebugEntry list \<Rightarrow> int \<Rightarrow> packer" where
  "l_packDebug = pack_linked debug_ok (\<lambda>e. pack_seq
     [l_packStr (debug_gpuProfileName e), l_packStr (debug_debug e),
      memcpy_to (le32 (debug_size e))])"

definition debug_end :: cudaFatDebugEntry where
  "debug_end = \<lparr>debug_gpuProfileName = None, debug_debug = None, debug_size = 0\<rparr>"

definition l_unpackDebug :: "cudaFatDebugEntry list unpacker" where
  "l_unpackDebug = unpack_linked
     (then_read l_unpackStr (\<lambda>name. then_read l_unpackStr (\<lambda>dbg. then_read read_u32 (\<lambda>sz.
        read_ret \<lparr>debug_gpuProfileName = name, debug_debug = dbg, debug_size = sz\<rparr>))))
     debug_end"

definition debug_wf :: "cudaFatDebugEntry \<Rightarrow> bool" where
  "debug_wf e \<longleftrightarrow> str_wf (debug_gpuProfileName e) \<and> str_wf (debug_debug e)"

definition debug_image :: "cudaFatDebugEntry \<Rightarrow> byte list" where
  "debug_image e = str_image (debug_gpuProfileName e) @ str_image (debug_debug e)
                   @ le32 (debug_size e)"

definition debug_view :: "cudaFatDebugEntry \<Rightarrow> cudaFatDebugEntry" where
  "debug_view e = \<lparr>debug_gpuProfileName = str_view (debug_gpuProfileName e),
                   debug_debug = str_view (debug_debug e), debug_size = debug_size e\<rparr>"

definition debugs_wf :: "cudaFatDebugEntry list \<Rightarrow> bool" where
  "debugs_wf p \<longleftrightarrow> entries_wf debug_wf (takeWhile debug_ok p)"

definition debugs_image :: "cudaFatDebugEntry list \<Rightarrow> byte list" where
  "debugs_image p = entries_image debug_image (takeWhile debug_ok p)"

definition debugs_view :: "cudaFatDebugEntry list \<Rightarrow> cudaFatDebugEntry list" where
  "debugs_view p = (if takeWhile debug_ok p = [] then []
                    else map debug_view (takeWhile debug_ok p) @ [debug_end])"

lemma debug_len: "l_getSize_cudaFatDebugEntry p =
    (int (length (debugs_image p)), int (length (takeWhile debug_ok p)))"
  by (simp add: l_getSize_cudaFatDebugEntry_def count_chain_eq debugs_image_def
      entries_image_def length_concat_image debug_image_def str_size add.assoc)

lemma writes_debug: "debugs_wf p \<Longrightarrow>
   writes (l_packDebug p (int (length (takeWhile debug_ok p)))) (debugs_image p)"
  unfolding l_packDebug_def debugs_image_def
  by (rule writes_linked)
    (auto simp: debugs_wf_def entries_wf_def debug_wf_def debug_image_def intro!: writes_intros)

lemma reads_debug: "debugs_wf p \<Longrightarrow> reads l_unpackDebug (debugs_image p) (debugs_view p)"
  unfolding l_unpackDebug_def debugs_image_def debugs_view_def
  by (rule reads_linked [where good = debug_wf])
    (auto simp: debugs_wf_def debug_wf_def debug_image_def debug_view_def intro!: reads_intros)

interpretation debug_codec: wire_codec
  "\<lambda>p. Inr (l_getSize_cudaFatDebugEntry p)" l_packDebug debugs_image debugs_wf
  l_unpackDebug debugs_view
  by unfold_locales (auto simp: debug_len intro: writes_debug reads_debug)

subsection \<open>ELF\<close>

text \<open>
  The size function stops at an entry of size 0 as well, the pack function does not: on such a
  list its counter assertion fails. The bytes of an entry are \<open>size\<close> bytes at \<open>elf\<close>.
\<close>

definition elf_ok :: "cudaFatElfEntry \<Rightarrow> bool" where
  "elf_ok e \<longleftrightarrow> elf_gpuProfileName e \<noteq> None \<and> elf_elf e \<noteq> None"

definition elf_size_ok :: "cudaFatElfEntry \<Rightarrow> bool" where
  "elf_size_ok e \<longleftrightarrow> elf_gpuProfileName e \<noteq> None \<and> elf_elf e \<noteq> None \<and> elf_size e \<noteq> 0"

definition l_getSize_cudaFatElfEntry :: "cudaFatElfEntry list \<Rightarrow> int \<times> int" where
  "l_getSize_cudaFatElfEntry p =
     (let (s, i) = count_chain elf_size_ok (\<lambda>e. l_getStringPktSize (elf_gpuProfileName e)
        + uint (elf_size e) + 4) p in (4 + s, i))"

definition memcpy_obj :: "byte list \<Rightarrow> nat \<Rightarrow> packer" where
  "memcpy_obj s n b c = (if n \<le> length s then memcpy_to (take n s) b c else Inl OutOfBounds)"

definition l_packElf :: "cudaFatElfEntry list \<Rightarrow> int \<Rightarrow> packer" where
  "l_packElf = pack_linked elf_ok (\<lambda>e. pack_seq
     [l_packStr (elf_gpuProfileName e), memcpy_to (le32 (elf_size e)),
      if 0 < elf_size e then memcpy_obj (the (elf_elf e)) (unat (elf_size e)) else pack_nothing])"

definition elf_end :: cudaFatElfEntry where
  "elf_end = \<lparr>elf_gpuProfileName = None, elf_elf = None, elf_size = 0\<rparr>"

text \<open>\<open>l_unpackChars\<close> and the test of its result, which ends the process.\<close>

definition unpack_elf_bytes :: "u32 \<Rightarrow> charp unpacker" where
  "unpack_elf_bytes sz b c = bindr (l_unpackChars sz b c)
     (\<lambda>r. case r of None \<Rightarrow> Inl ExitProc | Some s \<Rightarrow> Inr (Some s, Some (uint sz)))"

definition l_unpackElf :: "cudaFatElfEntry list unpacker" where
  "l_unpackElf = unpack_linked
     (then_read l_unpackStr (\<lambda>name. then_read read_u32 (\<lambda>sz.
        then_read (if sz = 0 then read_ret None else unpack_elf_bytes sz) (\<lambda>elf.
        read_ret \<lparr>elf_gpuProfileName = name, elf_elf = elf, elf_size = sz\<rparr>))))
     elf_end"

definition elf_wf :: "cudaFatElfEntry \<Rightarrow> bool" where
  "elf_wf e \<longleftrightarrow> str_wf (elf_gpuProfileName e) \<and> elf_size e \<noteq> 0 \<and> unat (elf_size e) < 2 ^ 31
     \<and> unat (elf_size e) \<le> length (the (elf_elf e))"

definition elf_image :: "cudaFatElfEntry \<Rightarrow> byte list" where
  "elf_image e = str_image (elf_gpuProfileName e) @ le32 (elf_size e)
                 @ take (unat (elf_size e)) (the (elf_elf e))"

definition elf_view :: "cudaFatElfEntry \<Rightarrow> cudaFatElfEntry" where
  "elf_view e = \<lparr>elf_gpuProfileName = str_view (elf_gpuProfileName e),
     elf_elf = Some (take (unat (elf_size e)) (the (elf_elf e))), elf_size = elf_size e\<rparr>"

definition elves_wf :: "cudaFatElfEntry list \<Rightarrow> bool" where
  "elves_wf p \<longleftrightarrow> entries_wf elf_wf (takeWhile elf_ok p)"

definition elves_image :: "cudaFatElfEntry list \<Rightarrow> byte list" where
  "elves_image p = entries_image elf_image (takeWhile elf_ok p)"

definition elves_view :: "cudaFatElfEntry list \<Rightarrow> cudaFatElfEntry list" where
  "elves_view p = (if takeWhile elf_ok p = [] then []
                   else map elf_view (takeWhile elf_ok p) @ [elf_end])"

lemma elf_takeWhile:
  "\<forall>e \<in> set (takeWhile elf_ok p). elf_size e \<noteq> 0 \<Longrightarrow> takeWhile elf_size_ok p = takeWhile elf_ok p"
  by (induction p) (auto simp: elf_ok_def elf_size_ok_def split: if_splits)

lemma elf_image_length:
  "elf_wf e \<Longrightarrow> int (length (elf_image e))
     = l_getStringPktSize (elf_gpuProfileName e) + uint (elf_size e) + 4"
  by (simp add: elf_image_def elf_wf_def str_size)

lemma elf_len: "elves_wf p \<Longrightarrow> l_getSize_cudaFatElfEntry p =
    (int (length (elves_image p)), int (length (takeWhile elf_ok p)))"
proof -
  assume wf: "elves_wf p"
  have t: "takeWhile elf_size_ok p = takeWhile elf_ok p"
    by (rule elf_takeWhile) (use wf in \<open>auto simp: elves_wf_def entries_wf_def elf_wf_def\<close>)
  have "map (\<lambda>e. int (length (elf_image e))) (takeWhile elf_ok p) =
    map (\<lambda>e. l_getStringPktSize (elf_gpuProfileName e) + uint (elf_size e) + 4)
      (takeWhile elf_ok p)"
    using wf by (simp add: elves_wf_def entries_wf_def elf_image_length)
  note sums = arg_cong [OF this, where f = sum_list]
  from sums show ?thesis
    by (simp add: l_getSize_cudaFatElfEntry_def count_chain_eq elves_image_def t
        entries_image_def length_concat_image)
qed

lemma writes_obj [writes_intros]: "n \<le> length s \<Longrightarrow> writes (memcpy_obj s n) (take n s)"
  by (simp add: writes_def memcpy_obj_def)

lemma writes_elf: "elves_wf p \<Longrightarrow>
   writes (l_packElf p (int (length (takeWhile elf_ok p)))) (elves_image p)"
  unfolding l_packElf_def elves_image_def
  by (rule writes_linked)
    (auto simp: elves_wf_def entries_wf_def elf_wf_def elf_image_def word_gt_0
      intro!: writes_intros)

lemma reads_elf_bytes:
  assumes "sz \<noteq> 0" and "unat sz < 2 ^ 31" and "length s = unat sz"
  shows "reads (unpack_elf_bytes sz) s (Some s)"
proof -
  have "sint sz = int (unat sz)"
    using sint_small_nat [OF assms(2)] by simp
  then show ?thesis
    using assms by (auto simp: reads_def unpack_elf_bytes_def l_unpackChars_def
        memcpy_from_def holds_at_def)
qed

lemma reads_elf1: "elf_wf e \<Longrightarrow>
  reads (then_read l_unpackStr (\<lambda>name. then_read read_u32 (\<lambda>sz.
        then_read (if sz = 0 then read_ret None else unpack_elf_bytes sz) (\<lambda>elf.
        read_ret \<lparr>elf_gpuProfileName = name, elf_elf = elf, elf_size = sz\<rparr>))))
    (elf_image e) (elf_view e)"
  unfolding elf_image_def
  by (intro reads_then_read [OF reads_str] reads_then_read [OF reads_u32])
    (auto simp: elf_wf_def elf_view_def intro!: reads_then_ret [OF reads_elf_bytes])

lemma reads_elf: "elves_wf p \<Longrightarrow> reads l_unpackElf (elves_image p) (elves_view p)"
  unfolding l_unpackElf_def elves_image_def elves_view_def
  by (rule reads_linked [where good = elf_wf])
    (auto simp: elves_wf_def intro: reads_elf1)

interpretation elf_codec: wire_codec
  "\<lambda>p. Inr (l_getSize_cudaFatElfEntry p)" l_packElf elves_image elves_wf
  l_unpackElf elves_view
  by unfold_locales (auto simp: elf_len intro: writes_elf reads_elf)

subsection \<open>Symbols\<close>

definition sym_ok :: "cudaFatSymbol \<Rightarrow> bool" where
  "sym_ok e \<longleftrightarrow> sym_name e \<noteq> None"

definition l_getSize_cudaFatSymbolEntry :: "cudaFatSymbol list option \<Rightarrow> (int \<times> int) cres" where
  "l_getSize_cudaFatSymbolEntry p = (case p of None \<Rightarrow> Inr (4 + l_getStringPktSize None, 0)
     | Some xs \<Rightarrow> bindr (nthr xs 0) (\<lambda>x. if sym_name x = None
         then Inr (4 + l_getStringPktSize None, 0)
         else bindr (count_array sym_ok (\<lambda>e. l_getStringPktSize (sym_name e)) xs)
                (\<lambda>(s, i). Inr (4 + s, i))))"

definition l_packSymbol :: "cudaFatSymbol list option \<Rightarrow> int \<Rightarrow> packer" where
  "l_packSymbol = pack_array (\<lambda>e. l_packStr (sym_name e))"

definition l_unpackSymbol :: "cudaFatSymbol list option unpacker" where
  "l_unpackSymbol = if_src None (then_read read_u32 (\<lambda>n. if n = 0 then read_ret None
     else then_read
       (unpack_terminated True
         (then_read l_unpackStr (\<lambda>name. read_ret \<lparr>sym_name = name\<rparr>)) \<lparr>sym_name = None\<rparr> n)
       (\<lambda>es. read_ret (Some es))))"

definition syms_wf :: "cudaFatSymbol list option \<Rightarrow> bool" where
  "syms_wf p \<longleftrightarrow> terminated sym_ok p
     \<and> entries_wf (\<lambda>e. str_wf (sym_name e)) (arr_entries sym_ok p)"

definition syms_image :: "cudaFatSymbol list option \<Rightarrow> byte list" where
  "syms_image p = entries_image (\<lambda>e. str_image (sym_name e)) (arr_entries sym_ok p)"

definition sym_view :: "cudaFatSymbol \<Rightarrow> cudaFatSymbol" where
  "sym_view e = \<lparr>sym_name = str_view (sym_name e)\<rparr>"

definition syms_view :: "cudaFatSymbol list option \<Rightarrow> cudaFatSymbol list option" where
  "syms_view p = (if arr_entries sym_ok p = [] then None
     else Some (map sym_view (arr_entries sym_ok p) @ [\<lparr>sym_name = None\<rparr>]))"

text \<open>An empty table is announced with four bytes more than are written.\<close>

lemma syms_size: "syms_wf p \<Longrightarrow> l_getSize_cudaFatSymbolEntry p =
    Inr (int (length (syms_image p)) + (if arr_entries sym_ok p = [] then 4 else 0),
         int (length (arr_entries sym_ok p)))"
proof (cases p)
  case None
  then show ?thesis
    by (simp add: l_getSize_cudaFatSymbolEntry_def l_getStringPktSize_def syms_image_def
        entries_image_def)
next
  case (Some xs)
  assume wf: "syms_wf p"
  with Some obtain x xs' where xs: "xs = x # xs'"
    by (cases xs) (auto simp: syms_wf_def terminated_def)
  show ?thesis
  proof (cases "sym_ok x")
    case True
    then show ?thesis
      using wf Some xs count_array_eq [of xs sym_ok]
      by (auto simp: l_getSize_cudaFatSymbolEntry_def syms_wf_def terminated_def sym_ok_def
          syms_image_def entries_image_def length_concat_image str_size nthr_def
          simp del: count_array.simps)
  next
    case False
    then show ?thesis
      using Some xs
      by (simp add: l_getSize_cudaFatSymbolEntry_def l_getStringPktSize_def sym_ok_def
          syms_image_def entries_image_def nthr_def)
  qed
qed

lemma writes_syms:
  "syms_wf p \<Longrightarrow> writes (l_packSymbol p (int (length (arr_entries sym_ok p)))) (syms_image p)"
  unfolding l_packSymbol_def syms_image_def
  by (rule writes_array [where good = "\<lambda>e. str_wf (sym_name e)"])
    (auto simp: syms_wf_def intro!: writes_intros)

lemma reads_syms: "syms_wf p \<Longrightarrow> reads l_unpackSymbol (syms_image p) (syms_view p)"
proof -
  assume wf: "syms_wf p"
  let ?es = "arr_entries sym_ok p"
  have l: "length ?es < 2 ^ 31" using wf by (simp add: syms_wf_def entries_wf_def)
  have r: "reads (unpack_terminated w (then_read l_unpackStr (\<lambda>name. read_ret \<lparr>sym_name = name\<rparr>))
      t (word_of_nat (length ?es))) (concat (map (\<lambda>e. str_image (sym_name e)) ?es))
      (map sym_view ?es @ [t])" for w t
    by (rule reads_terminated [where good = "\<lambda>e. str_wf (sym_name e)"])
      (use wf in \<open>auto simp: syms_wf_def sym_view_def intro!: reads_intros\<close>)
  show ?thesis
    unfolding l_unpackSymbol_def syms_image_def syms_view_def entries_image_def
    by (intro reads_if_src reads_then_read [OF reads_u32])
      (auto simp: count_zero_iff [OF l] intro: reads_ret reads_then_ret [OF r])
qed

interpretation syms_codec: wire_codec
  l_getSize_cudaFatSymbolEntry l_packSymbol syms_image syms_wf l_unpackSymbol syms_view
  by unfold_locales (auto simp: syms_size intro: writes_syms reads_syms)

end
