(* ===== verification/Fat_Binary.thy ===== *)
theory Fat_Binary
  imports Marshal_Fat
begin

text \<open>
  The fat binaries of interposer/libciutils.c as a whole: \<open>getFatRecPktSize\<close>,
  \<open>packFatBinary\<close> and \<open>unpackFatBinary\<close> for the CUDA 3.2 structure with its cache of
  entry counts, the dependends that the code does not support, and the \<open>_4\<close> variants for
  the single blob of CUDA 4.0.
\<close>

section \<open>The CUDA 3.2 structure\<close>

text \<open>
  The dependends of a fat binary are linked by its \<open>dependends\<close> field: the structure is one
  \<open>fatrec\<close> with the list of the \<open>fatrec\<close>s that follow it in the chain.
\<close>

record fatrec =
  fat_magic :: u64
  fat_version :: u64
  fat_gpuInfoVersion :: u64
  fat_flags :: u32
  fat_characteristic :: u32
  fat_key :: charp
  fat_ident :: charp
  fat_usageMode :: charp
  fat_debugInfo :: u64
  fat_ptx :: "cudaFatPtxEntry list option"
  fat_cubin :: "cudaFatCubinEntry list option"
  fat_debug :: "cudaFatDebugEntry list"
  fat_elf :: "cudaFatElfEntry list"
  fat_exported :: "cudaFatSymbol list option"
  fat_imported :: "cudaFatSymbol list option"

record cudaFatCudaBinary = fatrec +
  fat_dependends :: "fatrec list"

record cache_num_entries =
  nptxs :: int
  ncubs :: int
  ndebs :: int
  ndeps :: int
  nelves :: int
  nexps :: int
  nimps :: int

definition empty_cache :: cache_num_entries where
  "empty_cache = \<lparr>nptxs = 0, ncubs = 0, ndebs = 0, ndeps = 0, nelves = 0, nexps = 0, nimps = 0\<rparr>"

subsection \<open>Size\<close>

definition l_getFatRecPktSize ::
  "'a fatrec_scheme \<Rightarrow> cache_num_entries \<Rightarrow> (int \<times> cache_num_entries) cres" where
  "l_getFatRecPktSize f cache =
     (let sz = 8 + 8 + 8 + 4 + 4 + l_getStringPktSize (fat_key f)
        + l_getStringPktSize (fat_ident f) + l_getStringPktSize (fat_usageMode f) + 8 in
      bindr (l_getSize_cudaFatPtxEntry (fat_ptx f)) (\<lambda>(s1, n1).
      bindr (l_getSize_cudaFatCubinEntry (fat_cubin f)) (\<lambda>(s2, n2).
      let (s3, n3) = l_getSize_cudaFatDebugEntry (fat_debug f);
          (s4, n4) = l_getSize_cudaFatElfEntry (fat_elf f) in
      bindr (l_getSize_cudaFatSymbolEntry (fat_exported f)) (\<lambda>(s5, n5).
      bindr (l_getSize_cudaFatSymbolEntry (fat_imported f)) (\<lambda>(s6, n6).
      Inr (sz + s1 + s2 + s3 + s4 + s5 + s6,
           cache\<lparr>nptxs := n1, ncubs := n2, ndebs := n3, nelves := n4, nexps := n5,
             nimps := n6\<rparr>))))))"

text \<open>The dependends, each with a cache of its own; only their number is remembered.\<close>

primrec l_getSize_deps_loop ::
  "fatrec list \<Rightarrow> cache_num_entries \<Rightarrow> (int \<times> cache_num_entries) cres" where
  "l_getSize_deps_loop [] cache = Inr (0, cache)"
| "l_getSize_deps_loop (p # ps) cache =
     bindr (l_getFatRecPktSize p empty_cache) (\<lambda>(s, _).
     bindr (l_getSize_deps_loop ps (cache\<lparr>ndeps := ndeps cache + 1\<rparr>)) (\<lambda>(s', cache').
     Inr (s + s', cache')))"

definition l_getSize_cudaFatBinaryEntry ::
  "fatrec list \<Rightarrow> cache_num_entries \<Rightarrow> (int \<times> cache_num_entries) cres" where
  "l_getSize_cudaFatBinaryEntry p cache =
     bindr (l_getSize_deps_loop p cache) (\<lambda>(s, cache'). Inr (4 + s, cache'))"

definition getFatRecPktSize :: "cudaFatCudaBinary \<Rightarrow> (int \<times> cache_num_entries) cres" where
  "getFatRecPktSize f =
     bindr (l_getFatRecPktSize f empty_cache) (\<lambda>(s, cache).
     bindr (l_getSize_cudaFatBinaryEntry (fat_dependends f) cache) (\<lambda>(s', cache').
     Inr (s + s', cache')))"

subsection \<open>Pack\<close>

text \<open>Only the count is packed; with dependends the function stops at an assertion.\<close>

definition l_packDep :: "fatrec list \<Rightarrow> int \<Rightarrow> packer" where
  "l_packDep p n = if_dst (then_pack (memcpy_to (le32 (word_of_int n)))
     (if n = 0 \<or> p = [] then pack_nothing else pack_assert False))"

definition l_packFatBinary :: "'a fatrec_scheme \<Rightarrow> cache_num_entries \<Rightarrow> packer" where
  "l_packFatBinary f cache = pack_chk
     [memcpy_to (le64 (fat_magic f)), memcpy_to (le64 (fat_version f)),
      memcpy_to (le64 (fat_gpuInfoVersion f)), memcpy_to (le32 (fat_flags f)),
      memcpy_to (le32 (fat_characteristic f)),
      l_packStr (fat_key f), l_packStr (fat_ident f), l_packStr (fat_usageMode f),
      memcpy_to (le64 (fat_debugInfo f)),
      l_packPtx (fat_ptx f) (nptxs cache), l_packCubin (fat_cubin f) (ncubs cache),
      l_packDebug (fat_debug f) (ndebs cache), l_packElf (fat_elf f) (nelves cache),
      l_packSymbol (fat_exported f) (nexps cache), l_packSymbol (fat_imported f) (nimps cache)]"

definition packFatBinary :: "cudaFatCudaBinary \<Rightarrow> cache_num_entries \<Rightarrow> packer" where
  "packFatBinary f cache =
     pack_chk [l_packFatBinary f cache, l_packDep (fat_dependends f) (ndeps cache)]"

subsection \<open>Unpack\<close>

text \<open>
  Without dependends \<open>l_unpackDep\<close> returns NULL and does not store an offset. With
  dependends it unpacks through the \<open>dependends\<close> pointers of memory it has just allocated.
\<close>

definition l_unpackDep :: "fatrec list unpacker" where
  "l_unpackDep b c = (if c = None then Inr ([], None)
     else bindr (read_u32 b c) (\<lambda>(n, _). if n = 0 then Inr ([], None) else Inl Uninit))"

text \<open>A step whose offset is tested for \<open>ERROR\<close>; \<open>None\<close> as the value of the function.\<close>

definition read_chk :: "'a unpacker \<Rightarrow> ('a \<Rightarrow> 'b option unpacker) \<Rightarrow> 'b option unpacker" where
  "read_chk f k b c = bindr (f b c) (\<lambda>(x, off). case off of None \<Rightarrow> Inl Uninit | Some o1 \<Rightarrow>
     if o1 = ERROR then Inr (None, Some ERROR)
     else bindr (k x b (adv c o1)) (\<lambda>(y, off').
       Inr (y, map_option (\<lambda>o2. if o2 = ERROR then ERROR else o1 + o2) off')))"

text \<open>
  The last two steps of \<open>unpackFatBinary\<close>: \<open>offset\<close> keeps the value of the previous step
  when \<open>l_unpackDep\<close> does not write it.
\<close>

definition unpack_imported_deps ::
  "(cudaFatSymbol list option \<times> fatrec list) option unpacker" where
  "unpack_imported_deps b c = bindr (l_unpackSymbol b c) (\<lambda>(imp, off).
     case off of None \<Rightarrow> Inl Uninit | Some o1 \<Rightarrow>
     if o1 = ERROR then Inr (None, Some ERROR) else
     bindr (l_unpackDep b (adv c o1)) (\<lambda>(deps, off').
       let o2 = (case off' of None \<Rightarrow> o1 | Some o2 \<Rightarrow> o2) in
       if o2 = ERROR then Inr (None, Some ERROR) else Inr (Some (imp, deps), Some (o1 + o2))))"

definition unpackFatBinary :: "cudaFatCudaBinary option unpacker" where
  "unpackFatBinary =
     read_chk read_u64 (\<lambda>mag. read_chk read_u64 (\<lambda>ver. read_chk read_u64 (\<lambda>gpu.
     read_chk read_u32 (\<lambda>flags. read_chk read_u32 (\<lambda>char.
     read_chk l_unpackStr (\<lambda>key. read_chk l_unpackStr (\<lambda>ident. read_chk l_unpackStr (\<lambda>usage.
     read_chk read_u64 (\<lambda>dinfo.
     read_chk l_unpackPtx (\<lambda>ptx. read_chk l_unpackCubin (\<lambda>cub. read_chk l_unpackDebug (\<lambda>deb.
     read_chk l_unpackElf (\<lambda>elf. read_chk l_unpackSymbol (\<lambda>expo.
     then_read unpack_imported_deps (\<lambda>r. read_ret (map_option (\<lambda>(imp, deps).
       \<lparr>fat_magic = mag, fat_version = ver, fat_gpuInfoVersion = gpu, fat_flags = flags,
        fat_characteristic = char, fat_key = key, fat_ident = ident, fat_usageMode = usage,
        fat_debugInfo = dinfo, fat_ptx = ptx, fat_cubin = cub, fat_debug = deb, fat_elf = elf,
        fat_exported = expo, fat_imported = imp, fat_dependends = deps\<rparr>) r))))))))))))))))"

subsection \<open>What is written, and what is read\<close>

definition fatrec_wf :: "'a fatrec_scheme \<Rightarrow> bool" where
  "fatrec_wf f \<longleftrightarrow> str_wf (fat_key f) \<and> str_wf (fat_ident f) \<and> str_wf (fat_usageMode f)
     \<and> ptxs_wf (fat_ptx f) \<and> cubins_wf (fat_cubin f) \<and> debugs_wf (fat_debug f)
     \<and> elves_wf (fat_elf f) \<and> syms_wf (fat_exported f) \<and> syms_wf (fat_imported f)"

definition fat_wf :: "cudaFatCudaBinary \<Rightarrow> bool" where
  "fat_wf f \<longleftrightarrow> fatrec_wf f \<and> fat_dependends f = []"

definition fatrec_head_image :: "'a fatrec_scheme \<Rightarrow> byte list" where
  "fatrec_head_image f = le64 (fat_magic f) @ le64 (fat_version f) @ le64 (fat_gpuInfoVersion f)
     @ le32 (fat_flags f) @ le32 (fat_characteristic f)
     @ str_image (fat_key f) @ str_image (fat_ident f) @ str_image (fat_usageMode f)
     @ le64 (fat_debugInfo f)"

definition fatrec_image :: "'a fatrec_scheme \<Rightarrow> byte list" where
  "fatrec_image f = fatrec_head_image f @ ptxs_image (fat_ptx f) @ cubins_image (fat_cubin f)
     @ debugs_image (fat_debug f) @ elves_image (fat_elf f)
     @ syms_image (fat_exported f) @ syms_image (fat_imported f)"

definition fat_image :: "cudaFatCudaBinary \<Rightarrow> byte list" where
  "fat_image f = fatrec_image f @ le32 0"

definition fat_cache :: "'a fatrec_scheme \<Rightarrow> cache_num_entries" where
  "fat_cache f = \<lparr>nptxs = int (length (arr_entries ptx_ok (fat_ptx f))),
     ncubs = int (length (arr_entries cubin_ok (fat_cubin f))),
     ndebs = int (length (takeWhile debug_ok (fat_debug f))), ndeps = 0,
     nelves = int (length (takeWhile elf_ok (fat_elf f))),
     nexps = int (length (arr_entries sym_ok (fat_exported f))),
     nimps = int (length (arr_entries sym_ok (fat_imported f)))\<rparr>"

text \<open>The bytes announced and not used: four for each empty symbol table.\<close>

definition fat_slack :: "'a fatrec_scheme \<Rightarrow> int" where
  "fat_slack f = (if arr_entries sym_ok (fat_exported f) = [] then 4 else 0)
     + (if arr_entries sym_ok (fat_imported f) = [] then 4 else 0)"

definition fat_view :: "cudaFatCudaBinary \<Rightarrow> cudaFatCudaBinary" where
  "fat_view f =
     \<lparr>fat_magic = fat_magic f, fat_version = fat_version f,
      fat_gpuInfoVersion = fat_gpuInfoVersion f, fat_flags = fat_flags f,
      fat_characteristic = fat_characteristic f, fat_key = str_view (fat_key f),
      fat_ident = str_view (fat_ident f), fat_usageMode = str_view (fat_usageMode f),
      fat_debugInfo = fat_debugInfo f, fat_ptx = ptxs_view (fat_ptx f),
      fat_cubin = cubins_view (fat_cubin f), fat_debug = debugs_view (fat_debug f),
      fat_elf = elves_view (fat_elf f), fat_exported = syms_view (fat_exported f),
      fat_imported = syms_view (fat_imported f), fat_dependends = []\<rparr>"

lemma fatrec_size: "fatrec_wf f \<Longrightarrow> l_getFatRecPktSize f c =
    Inr (int (length (fatrec_image f)) + fat_slack f, (fat_cache f)\<lparr>ndeps := ndeps c\<rparr>)"
  by (simp add: fatrec_wf_def l_getFatRecPktSize_def ptx_size cubin_size debug_len elf_len
      syms_size fatrec_image_def fatrec_head_image_def str_size fat_slack_def fat_cache_def)

lemma fat_size: "fat_wf f \<Longrightarrow>
    getFatRecPktSize f = Inr (int (length (fat_image f)) + fat_slack f, fat_cache f)"
  by (simp add: fat_wf_def getFatRecPktSize_def fatrec_size l_getSize_cudaFatBinaryEntry_def
      fat_image_def empty_cache_def fat_cache_def)

lemma writes_fatrec: "fatrec_wf f \<Longrightarrow> writes (l_packFatBinary f (fat_cache f)) (fatrec_image f)"
  unfolding l_packFatBinary_def fatrec_image_def fatrec_head_image_def fat_cache_def
    pack_chk_simps append_assoc fatrec_wf_def
  by (simp, intro writes_then_chk writes_memcpy writes_str writes_ptx writes_cubin writes_debug
      writes_elf writes_syms writes_chk_last; simp)

lemma writes_deps: "writes (l_packDep p 0) (le32 0)"
  unfolding l_packDep_def by (auto intro!: writes_intros)

lemma writes_fat: "fat_wf f \<Longrightarrow> writes (packFatBinary f (fat_cache f)) (fat_image f)"
  unfolding packFatBinary_def fat_image_def pack_chk_simps fat_wf_def
  by (intro writes_then_chk writes_fatrec writes_chk_last)
    (auto simp: fat_cache_def writes_deps)

interpretation fat_packer: wire_packer getFatRecPktSize packFatBinary fat_image fat_wf
  by unfold_locales (auto simp: fat_size fat_slack_def intro: writes_fat)

text \<open>
  Reading with an offset that need not be the number of bytes read: the offset of
  \<open>unpackFatBinary\<close> counts the imported symbols twice, because \<open>l_unpackDep\<close> leaves the
  variable as it was.
\<close>

definition yields :: "'a unpacker \<Rightarrow> byte list \<Rightarrow> 'a \<Rightarrow> int \<Rightarrow> bool" where
  "yields f s x off \<longleftrightarrow> (\<forall>b p. holds_at b p s \<longrightarrow> f b (Some p) = Inr (x, Some off))"

lemma yields_apply: "yields f s x off \<Longrightarrow> holds_at b p s \<Longrightarrow> f b (Some p) = Inr (x, Some off)"
  by (simp add: yields_def)

lemma yields_read_chk:
  assumes "reads f s x" and "yields (k x) t y (int off)"
  shows "yields (read_chk f k) (s @ t) y (int (length s + off))"
  using assms by (auto simp: yields_def reads_def read_chk_def ERROR_def)

lemma yields_then_ret:
  assumes "yields f s x off" and "y = g x"
  shows "yields (then_read f (\<lambda>x. read_ret (g x))) s y off"
  using assms by (auto simp: yields_def then_read_def read_ret_def)

lemma yields_off: "yields f s x off \<Longrightarrow> off = off' \<Longrightarrow> yields f s x off'"
  by simp

lemma yields_imported_deps:
  assumes "syms_wf imp"
  shows "yields unpack_imported_deps (syms_image imp @ le32 0) (Some (syms_view imp, []))
           (int (2 * length (syms_image imp)))"
  unfolding yields_def
proof (intro allI impI)
  fix b p
  assume "holds_at b p (syms_image imp @ le32 0)"
  then have h: "holds_at b p (syms_image imp)"
    "holds_at b (p + length (syms_image imp)) (le32 0)"
    by simp_all
  have i: "l_unpackSymbol b (Some p) = Inr (syms_view imp, Some (int (length (syms_image imp))))"
    using reads_syms [OF assms] h(1) by (simp add: reads_def)
  have d: "read_u32 b (Some (p + length (syms_image imp))) = Inr (0, Some 4)"
    using reads_u32 [of 0] h(2) by (simp add: reads_def)
  show "unpack_imported_deps b (Some p) =
      Inr (Some (syms_view imp, []), Some (int (2 * length (syms_image imp))))"
    by (simp add: unpack_imported_deps_def i l_unpackDep_def d)
qed

lemma yields_fat:
  assumes "fat_wf f"
  shows "yields unpackFatBinary (fat_image f) (Some (fat_view f))
    (int (length (fat_image f)) - 4 + int (length (syms_image (fat_imported f))))"
proof -
  have wf: "fatrec_wf f" using assms by (simp add: fat_wf_def)
  then have imp: "syms_wf (fat_imported f)" by (simp add: fatrec_wf_def)
  show ?thesis
    unfolding unpackFatBinary_def fat_image_def fatrec_image_def fatrec_head_image_def
      append_assoc
    by (rule yields_off, (rule yields_read_chk yields_then_ret [OF yields_imported_deps [OF imp]]
        reads_u64 reads_u32 reads_str reads_ptx reads_cubin reads_debug reads_elf reads_syms
        | (use wf in \<open>simp add: fatrec_wf_def\<close>; fail))+)
      (simp_all add: fat_view_def)
qed

end
