(* ===== verification/Fat_Binary4.thy ===== *)
theory Fat_Binary4
  imports Fat_Binary
begin

text \<open>
  The CUDA 4.0 fat binary of interposer/libciutils.c: one blob behind a header that gives its
  length, and a string. \<open>fatbinData\<close> points to the header, which the bytes of the blob follow
  in memory.
\<close>

record cudaFatCudaBinary2Header =
  hdr_magic :: u32
  hdr_version :: u32
  hdr_length :: u64

record cudaFatCudaBinary2 =
  fb2_magic :: u32
  fb2_version :: u32
  fb2_fatbinData :: "(cudaFatCudaBinary2Header \<times> byte list) option"
  fb2_f :: charp

record cudaFatCudaBinary2Entry =
  ent_type :: u32
  ent_binary :: u32
  ent_binarySize :: u32
  ent_unknown2 :: u32
  ent_kindOffset :: u32
  ent_unknown3 :: u32
  ent_unknown4 :: u32
  ent_unknown5 :: u32
  ent_name :: u32
  ent_nameSize :: u32
  ent_unknown6 :: u64
  ent_unknown7 :: u64

text \<open>\<open>size\<close> is an \<open>int\<close>: adding the 64-bit length keeps the low 32 bits.\<close>

definition l_getFatRecPktSize_4 :: "cudaFatCudaBinary2 \<Rightarrow> int cres" where
  "l_getFatRecPktSize_4 f = (case fb2_fatbinData f of None \<Rightarrow> Inl NullDeref
     | Some (h, blob) \<Rightarrow>
         Inr (sint (word_of_int (4 + 4 + 4 + 4 + 8 + uint (hdr_length h)) :: u32)
              + l_getStringPktSize (fb2_f f)))"

definition getFatRecPktSize_4 :: "cudaFatCudaBinary2 \<Rightarrow> (int \<times> cache_num_entries) cres" where
  "getFatRecPktSize_4 f = bindr (l_getFatRecPktSize_4 f) (\<lambda>s. Inr (s, empty_cache))"

definition l_packFatBinary_4 :: "cudaFatCudaBinary2 \<Rightarrow> cache_num_entries \<Rightarrow> packer" where
  "l_packFatBinary_4 f cache = pack_chk
     [memcpy_to (le32 (fb2_magic f)), memcpy_to (le32 (fb2_version f)),
      (case fb2_fatbinData f of None \<Rightarrow> (\<lambda>b c. Inl NullDeref)
       | Some (h, blob) \<Rightarrow> pack_chk
           [memcpy_to (le32 (hdr_magic h)), memcpy_to (le32 (hdr_version h)),
            memcpy_to (le64 (hdr_length h)), memcpy_obj blob (unat (hdr_length h))]),
      l_packStr (fb2_f f)]"

definition packFatBinary_4 :: "cudaFatCudaBinary2 \<Rightarrow> cache_num_entries \<Rightarrow> packer" where
  "packFatBinary_4 f cache = pack_chk [l_packFatBinary_4 f cache]"

text \<open>
  The function copies the twelve fields and then reaches its end without a \<open>return\<close>: the
  buffer it leaves is the result, there is no offset.
\<close>

definition l_packEntries_4 :: "cudaFatCudaBinary2Entry \<Rightarrow> cbuf \<Rightarrow> cptr \<Rightarrow> cbuf cres" where
  "l_packEntries_4 e b c = bindr (pack_seq
     [memcpy_to (le32 (ent_type e)), memcpy_to (le32 (ent_binary e)),
      memcpy_to (le32 (ent_binarySize e)), memcpy_to (le32 (ent_unknown2 e)),
      memcpy_to (le32 (ent_kindOffset e)), memcpy_to (le32 (ent_unknown3 e)),
      memcpy_to (le32 (ent_unknown4 e)), memcpy_to (le32 (ent_unknown5 e)),
      memcpy_to (le32 (ent_name e)), memcpy_to (le32 (ent_nameSize e)),
      memcpy_to (le64 (ent_unknown6 e)), memcpy_to (le64 (ent_unknown7 e))] b c)
     (\<lambda>(b', off). Inr b')"

text \<open>
  \<open>malloc(sizeof(header) + length)\<close> in 64 bits: when the sum wraps, the block is too small for
  the header that is stored next.
\<close>

definition unpackFatBinary_4 :: "cudaFatCudaBinary2 option unpacker" where
  "unpackFatBinary_4 =
     read_chk read_u32 (\<lambda>mag. read_chk read_u32 (\<lambda>ver.
     read_chk read_u32 (\<lambda>hmag. read_chk read_u32 (\<lambda>hver. read_chk read_u64 (\<lambda>len.
     if 16 + len < len then read_fault OutOfBounds else
     read_chk (memcpy_from (unat len)) (\<lambda>blob. read_chk l_unpackStr (\<lambda>f.
       read_ret (Some \<lparr>fb2_magic = mag, fb2_version = ver,
         fb2_fatbinData = Some (\<lparr>hdr_magic = hmag, hdr_version = hver, hdr_length = len\<rparr>, blob),
         fb2_f = f\<rparr>))))))))"

definition fat4_wf :: "cudaFatCudaBinary2 \<Rightarrow> bool" where
  "fat4_wf f \<longleftrightarrow> str_wf (fb2_f f) \<and> (case fb2_fatbinData f of None \<Rightarrow> False
     | Some (h, blob) \<Rightarrow> 24 + unat (hdr_length h) < 2 ^ 31 \<and> unat (hdr_length h) \<le> length blob)"

definition fat4_image :: "cudaFatCudaBinary2 \<Rightarrow> byte list" where
  "fat4_image f = (let (h, blob) = the (fb2_fatbinData f) in
     le32 (fb2_magic f) @ le32 (fb2_version f) @ (le32 (hdr_magic h) @ le32 (hdr_version h)
     @ le64 (hdr_length h) @ take (unat (hdr_length h)) blob) @ str_image (fb2_f f))"

definition fat4_view :: "cudaFatCudaBinary2 \<Rightarrow> cudaFatCudaBinary2" where
  "fat4_view f = f\<lparr>fb2_f := str_view (fb2_f f),
     fb2_fatbinData := map_option (\<lambda>(h, blob). (h, take (unat (hdr_length h)) blob))
       (fb2_fatbinData f)\<rparr>"

lemma fat4_wfE:
  assumes "fat4_wf f"
  obtains h blob where "fb2_fatbinData f = Some (h, blob)" "24 + unat (hdr_length h) < 2 ^ 31"
    "unat (hdr_length h) \<le> length blob" "str_wf (fb2_f f)"
  using assms by (auto simp: fat4_wf_def split: option.splits)

lemma fat4_size:
  assumes "fat4_wf f"
  shows "getFatRecPktSize_4 f = Inr (int (length (fat4_image f)), empty_cache)"
proof -
  from assms obtain h blob where *: "fb2_fatbinData f = Some (h, blob)"
    "24 + unat (hdr_length h) < 2 ^ 31" "unat (hdr_length h) \<le> length blob"
    by (rule fat4_wfE)
  have "sint (word_of_int (24 + uint (hdr_length h)) :: u32) = 24 + uint (hdr_length h)"
    using sint_small_nat [OF *(2)] by simp
  then show ?thesis
    using * by (simp add: getFatRecPktSize_4_def l_getFatRecPktSize_4_def fat4_image_def
        str_size add.commute)
qed

lemma writes_fat4:
  assumes "fat4_wf f"
  shows "writes (packFatBinary_4 f c) (fat4_image f)"
proof -
  from assms obtain h blob where *: "fb2_fatbinData f = Some (h, blob)"
    "unat (hdr_length h) \<le> length blob" "str_wf (fb2_f f)"
    by (rule fat4_wfE)
  show ?thesis
    unfolding packFatBinary_4_def l_packFatBinary_4_def fat4_image_def pack_chk_simps *(1)
      option.case prod.case option.sel Let_def
    by (intro writes_chk_last writes_then_chk writes_memcpy writes_obj writes_str *)
qed

lemma yields_reads: "yields f s x (int (length s)) \<Longrightarrow> reads f s x"
  by (simp add: yields_def reads_def)

lemma reads_yields: "reads f s x \<Longrightarrow> yields f s x (int (length s))"
  by (simp add: yields_def reads_def)

lemma reads_read_chk [reads_intros]:
  assumes "reads f s x" and "reads (k x) t y"
  shows "reads (read_chk f k) (s @ t) y"
  using yields_read_chk [of f s x k t y "length t", OF assms(1) reads_yields [OF assms(2)]]
  by (intro yields_reads) simp

lemma reads_chk_ret [reads_intros]:
  assumes "reads f s x" and "y = g x"
  shows "reads (read_chk f (\<lambda>x. read_ret (g x))) s y"
  using reads_read_chk [OF assms(1), of "\<lambda>x. read_ret (g x)" "[]" y] assms(2)
  by (simp add: reads_ret)

lemma len_no_wrap:
  assumes "24 + unat (len :: u64) < 2 ^ 31"
  shows "\<not> 16 + len < len"
proof -
  have "unat (16 + len) = 16 + unat len"
    by (subst unat_add_lem [THEN iffD1]) (use assms in auto)
  then show ?thesis by (simp add: word_less_nat_alt)
qed

lemma reads_fat4:
  assumes "fat4_wf f"
  shows "reads unpackFatBinary_4 (fat4_image f) (Some (fat4_view f))"
proof -
  from assms obtain h blob where *: "fb2_fatbinData f = Some (h, blob)"
    "24 + unat (hdr_length h) < 2 ^ 31" "unat (hdr_length h) \<le> length blob" "str_wf (fb2_f f)"
    by (rule fat4_wfE)
  have img: "fat4_image f = le32 (fb2_magic f) @ le32 (fb2_version f) @ le32 (hdr_magic h)
     @ le32 (hdr_version h) @ le64 (hdr_length h) @ take (unat (hdr_length h)) blob
     @ str_image (fb2_f f)"
    using *(1) by (simp add: fat4_image_def)
  show ?thesis
    unfolding unpackFatBinary_4_def img
    by (intro reads_read_chk [OF reads_u32] reads_read_chk [OF reads_u64])
      (use * len_no_wrap [OF *(2)] in \<open>auto simp: fat4_view_def
        intro!: reads_read_chk reads_memcpy reads_chk_ret reads_str\<close>)
qed

interpretation fat4_codec: wire_codec getFatRecPktSize_4 packFatBinary_4 fat4_image fat4_wf
  unpackFatBinary_4 "\<lambda>f. Some (fat4_view f)"
  by unfold_locales (auto simp: fat4_size intro: writes_fat4 reads_fat4)

end
