(* ===== verification/Reg_Args.thy ===== *)
theory Reg_Args
  imports Fat_Binary4
begin

text \<open>
  The arguments of \<open>__cudaRegisterFunction\<close> and \<open>__cudaRegisterVar\<close> on the wire
  (interposer/libciutils.c): size, allocation and packing on the application side, unpacking
  into \<open>reg_func_args_t\<close> and \<open>reg_var_args_t\<close> on the backend.
\<close>

section \<open>Registered functions\<close>

text \<open>\<open>hostFun\<close> is sent twice: its string, and its address as the key for \<open>cudaLaunch\<close>.\<close>

record reg_func =
  rf_fatCubinHandle :: u64
  rf_hostFun :: "(u64 \<times> byte list) option"
  rf_deviceFun :: charp
  rf_deviceName :: charp
  rf_thread_limit :: u32
  rf_tid :: uint3p
  rf_bid :: uint3p
  rf_bDim :: dim3p
  rf_gDim :: dim3p
  rf_wSize :: intp

record reg_func_args =
  fa_fatCubinHandle :: u64
  fa_hostFun :: charp
  fa_hostFEaddr :: u64
  fa_deviceFun :: charp
  fa_deviceName :: charp
  fa_thread_limit :: u32
  fa_tid :: "uint3 option"
  fa_bid :: "uint3 option"
  fa_bDim :: "dim3 option"
  fa_gDim :: "dim3 option"
  fa_wSize :: "u32 option"

definition l_getSize_regFuncArgs :: "reg_func \<Rightarrow> int" where
  "l_getSize_regFuncArgs a = 8 + l_getStringPktSize (map_option snd (rf_hostFun a)) + 8
     + l_getStringPktSize (rf_deviceFun a) + l_getStringPktSize (rf_deviceName a) + 4
     + l_getUint3PtrPktSize (rf_tid a) + l_getUint3PtrPktSize (rf_bid a)
     + l_getDim3PtrPktSize (rf_bDim a) + l_getDim3PtrPktSize (rf_gDim a)
     + l_getIntPtrPktSize (rf_wSize a)"

definition packRegFunc_body :: "reg_func \<Rightarrow> packer" where
  "packRegFunc_body a = pack_chk
     [memcpy_to (le64 (rf_fatCubinHandle a)), l_packStr (map_option snd (rf_hostFun a)),
      memcpy_to (le64 (ptr_val (rf_hostFun a))), l_packStr (rf_deviceFun a),
      l_packStr (rf_deviceName a), memcpy_to (le32 (rf_thread_limit a)),
      l_packUint3Ptr (rf_tid a), l_packUint3Ptr (rf_bid a), l_packDim3Ptr (rf_bDim a),
      l_packDim3Ptr (rf_gDim a), l_packIntPtr (rf_wSize a)]"

text \<open>
  \<open>alloc n\<close> is the block \<open>malloc(n)\<close> returns (\<open>None\<close> for NULL). The result is the
  packet, or NULL, with \<open>*pSize\<close>.
\<close>

definition pack_allocated ::
  "(int \<Rightarrow> cbuf option) \<Rightarrow> int \<Rightarrow> packer \<Rightarrow> (cbuf option \<times> int) cres" where
  "pack_allocated alloc sz f = (case alloc sz of None \<Rightarrow> Inr (None, sz)
     | Some b \<Rightarrow> bindr (f b (Some 0)) (\<lambda>(b', off).
         Inr (if off = ERROR then None else Some b', sz)))"

definition packRegFuncArgs ::
  "(int \<Rightarrow> cbuf option) \<Rightarrow> reg_func \<Rightarrow> (cbuf option \<times> int) cres" where
  "packRegFuncArgs alloc a =
     pack_allocated alloc (l_getSize_regFuncArgs a) (packRegFunc_body a)"

definition unpackRegFunc_body :: "reg_func_args option unpacker" where
  "unpackRegFunc_body =
     read_chk read_u64 (\<lambda>h. read_chk l_unpackStr (\<lambda>hf. read_chk read_u64 (\<lambda>addr.
     read_chk l_unpackStr (\<lambda>df. read_chk l_unpackStr (\<lambda>dn. read_chk read_u32 (\<lambda>tl.
     read_chk l_unpackUint3Ptr (\<lambda>t. read_chk l_unpackUint3Ptr (\<lambda>bi.
     read_chk l_unpackDim3Ptr (\<lambda>bd. read_chk l_unpackDim3Ptr (\<lambda>gd.
     read_chk l_unpackIntPtr (\<lambda>w. read_ret (Some
       \<lparr>fa_fatCubinHandle = h, fa_hostFun = hf, fa_hostFEaddr = addr, fa_deviceFun = df,
        fa_deviceName = dn, fa_thread_limit = tl, fa_tid = t, fa_bid = bi, fa_bDim = bd,
        fa_gDim = gd, fa_wSize = w\<rparr>))))))))))))"

text \<open>The C functions return only a status; \<open>None\<close> is \<open>ERROR\<close>.\<close>

definition status_of :: "'a option unpacker \<Rightarrow> cbuf \<Rightarrow> cptr \<Rightarrow> ('a option \<times> int) cres" where
  "status_of f b c = bindr (f b c) (\<lambda>(r, off). Inr (r, if r = None then ERROR else OK))"

definition unpackRegFuncArgs :: "cbuf \<Rightarrow> cptr \<Rightarrow> (reg_func_args option \<times> int) cres" where
  "unpackRegFuncArgs = status_of unpackRegFunc_body"

section \<open>Registered variables\<close>

record reg_var =
  rv_fatCubinHandle :: u64
  rv_hostVar :: u64
  rv_deviceAddress :: charp
  rv_deviceName :: charp
  rv_ext :: u32
  rv_vsize :: u32
  rv_constant :: u32
  rv_global :: u32

text \<open>\<open>dom0HostAddr\<close> points to a fresh block of one byte.\<close>

record reg_var_args =
  va_fatCubinHandle :: u64
  va_hostVar :: u64
  va_dom0HostAddr_size :: nat
  va_deviceAddress :: charp
  va_deviceName :: charp
  va_ext :: u32
  va_size :: u32
  va_constant :: u32
  va_global :: u32

definition l_getSize_regVar :: "reg_var \<Rightarrow> int" where
  "l_getSize_regVar a = 8 + 8 + l_getStringPktSize (rv_deviceAddress a)
     + l_getStringPktSize (rv_deviceName a) + 4 + 4 + 4 + 4"

definition packRegVar_body :: "reg_var \<Rightarrow> packer" where
  "packRegVar_body a = pack_chk
     [memcpy_to (le64 (rv_fatCubinHandle a)), memcpy_to (le64 (rv_hostVar a)),
      l_packStr (rv_deviceAddress a), l_packStr (rv_deviceName a),
      memcpy_to (le32 (rv_ext a)), memcpy_to (le32 (rv_vsize a)),
      memcpy_to (le32 (rv_constant a)), memcpy_to (le32 (rv_global a))]"

definition packRegVar :: "(int \<Rightarrow> cbuf option) \<Rightarrow> reg_var \<Rightarrow> (cbuf option \<times> int) cres" where
  "packRegVar alloc a = pack_allocated alloc (l_getSize_regVar a) (packRegVar_body a)"

definition unpackRegVar_body :: "reg_var_args option unpacker" where
  "unpackRegVar_body =
     read_chk read_u64 (\<lambda>h. read_chk read_u64 (\<lambda>hv. read_chk l_unpackStr (\<lambda>da.
     read_chk l_unpackStr (\<lambda>dn. read_chk read_u32 (\<lambda>e. read_chk read_u32 (\<lambda>sz.
     read_chk read_u32 (\<lambda>co. read_chk read_u32 (\<lambda>gl. read_ret (Some
       \<lparr>va_fatCubinHandle = h, va_hostVar = hv, va_dom0HostAddr_size = 1,
        va_deviceAddress = da, va_deviceName = dn, va_ext = e, va_size = sz, va_constant = co,
        va_global = gl\<rparr>)))))))))"

definition unpackRegVar :: "cbuf \<Rightarrow> cptr \<Rightarrow> (reg_var_args option \<times> int) cres" where
  "unpackRegVar = status_of unpackRegVar_body"

section \<open>The wire formats\<close>

definition reg_func_wf :: "reg_func \<Rightarrow> bool" where
  "reg_func_wf a \<longleftrightarrow> str_wf (map_option snd (rf_hostFun a)) \<and> str_wf (rf_deviceFun a)
     \<and> str_wf (rf_deviceName a) \<and> ptr_wf (rf_tid a) \<and> ptr_wf (rf_bid a) \<and> ptr_wf (rf_bDim a)
     \<and> ptr_wf (rf_gDim a) \<and> ptr_wf (rf_wSize a)"

definition reg_func_image :: "reg_func \<Rightarrow> byte list" where
  "reg_func_image a = le64 (rf_fatCubinHandle a) @ str_image (map_option snd (rf_hostFun a))
     @ le64 (ptr_val (rf_hostFun a)) @ str_image (rf_deviceFun a) @ str_image (rf_deviceName a)
     @ le32 (rf_thread_limit a) @ ptr_image uint3_image (rf_tid a)
     @ ptr_image uint3_image (rf_bid a) @ ptr_image dim3_image (rf_bDim a)
     @ ptr_image dim3_image (rf_gDim a) @ ptr_image le32 (rf_wSize a)"

definition reg_func_view :: "reg_func \<Rightarrow> reg_func_args" where
  "reg_func_view a =
     \<lparr>fa_fatCubinHandle = rf_fatCubinHandle a, fa_hostFun = str_view (map_option snd (rf_hostFun a)),
      fa_hostFEaddr = ptr_val (rf_hostFun a), fa_deviceFun = str_view (rf_deviceFun a),
      fa_deviceName = str_view (rf_deviceName a), fa_thread_limit = rf_thread_limit a,
      fa_tid = ptr_view (rf_tid a), fa_bid = ptr_view (rf_bid a), fa_bDim = ptr_view (rf_bDim a),
      fa_gDim = ptr_view (rf_gDim a), fa_wSize = ptr_view (rf_wSize a)\<rparr>"

lemma reg_func_size: "l_getSize_regFuncArgs a = int (length (reg_func_image a))"
  by (simp add: l_getSize_regFuncArgs_def reg_func_image_def str_size uint3p_size dim3p_size
      intp_size)

lemma writes_reg_func: "reg_func_wf a \<Longrightarrow> writes (packRegFunc_body a) (reg_func_image a)"
  unfolding packRegFunc_body_def reg_func_image_def pack_chk_simps reg_func_wf_def
  by (intro writes_then_chk writes_chk_last writes_memcpy writes_str writes_uint3p
      writes_dim3p writes_intp) auto

lemma reads_reg_func:
  "reg_func_wf a \<Longrightarrow> reads unpackRegFunc_body (reg_func_image a) (Some (reg_func_view a))"
  unfolding unpackRegFunc_body_def reg_func_image_def reg_func_wf_def
  by (intro reads_read_chk [OF reads_u64] reads_read_chk [OF reads_u32]
      reads_read_chk [OF reads_str] reads_read_chk [OF reads_uint3p]
      reads_read_chk [OF reads_dim3p] reads_chk_ret [OF reads_intp])
    (auto simp: reg_func_view_def)

definition reg_var_wf :: "reg_var \<Rightarrow> bool" where
  "reg_var_wf a \<longleftrightarrow> str_wf (rv_deviceAddress a) \<and> str_wf (rv_deviceName a)"

definition reg_var_image :: "reg_var \<Rightarrow> byte list" where
  "reg_var_image a = le64 (rv_fatCubinHandle a) @ le64 (rv_hostVar a)
     @ str_image (rv_deviceAddress a) @ str_image (rv_deviceName a) @ le32 (rv_ext a)
     @ le32 (rv_vsize a) @ le32 (rv_constant a) @ le32 (rv_global a)"

definition reg_var_view :: "reg_var \<Rightarrow> reg_var_args" where
  "reg_var_view a =
     \<lparr>va_fatCubinHandle = rv_fatCubinHandle a, va_hostVar = rv_hostVar a,
      va_dom0HostAddr_size = 1, va_deviceAddress = str_view (rv_deviceAddress a),
      va_deviceName = str_view (rv_deviceName a), va_ext = rv_ext a, va_size = rv_vsize a,
      va_constant = rv_constant a, va_global = rv_global a\<rparr>"

lemma reg_var_size: "l_getSize_regVar a = int (length (reg_var_image a))"
  by (simp add: l_getSize_regVar_def reg_var_image_def str_size)

lemma writes_reg_var: "reg_var_wf a \<Longrightarrow> writes (packRegVar_body a) (reg_var_image a)"
  unfolding packRegVar_body_def reg_var_image_def pack_chk_simps reg_var_wf_def
  by (intro writes_then_chk writes_chk_last writes_memcpy writes_str) auto

lemma reads_reg_var:
  "reg_var_wf a \<Longrightarrow> reads unpackRegVar_body (reg_var_image a) (Some (reg_var_view a))"
  unfolding unpackRegVar_body_def reg_var_image_def reg_var_wf_def
  by (intro reads_read_chk [OF reads_u64] reads_read_chk [OF reads_u32]
      reads_read_chk [OF reads_str] reads_chk_ret [OF reads_u32])
    (auto simp: reg_var_view_def)

interpretation reg_func_codec: wire_codec
  "\<lambda>a. Inr (l_getSize_regFuncArgs a, ())" "\<lambda>a _. packRegFunc_body a" reg_func_image reg_func_wf
  unpackRegFunc_body "\<lambda>a. Some (reg_func_view a)"
  by unfold_locales (auto simp: reg_func_size intro: writes_reg_func reads_reg_func)

interpretation reg_var_codec: wire_codec
  "\<lambda>a. Inr (l_getSize_regVar a, ())" "\<lambda>a _. packRegVar_body a" reg_var_image reg_var_wf
  unpackRegVar_body "\<lambda>a. Some (reg_var_view a)"
  by unfold_locales (auto simp: reg_var_size intro: writes_reg_var reads_reg_var)

section \<open>The functions as they are called\<close>

text \<open>\<open>malloc\<close> gives a block of the requested size, or NULL.\<close>

definition malloc_ok :: "(int \<Rightarrow> cbuf option) \<Rightarrow> bool" where
  "malloc_ok alloc \<longleftrightarrow> (\<forall>n b. alloc n = Some b \<longrightarrow> length b = nat n)"

lemma pack_allocated_exact:
  assumes "malloc_ok alloc" and "writes f s" and "sz = int (length s)"
  shows "pack_allocated alloc sz f =
    Inr (if alloc sz = None then None else Some s, int (length s))"
proof (cases "alloc sz")
  case None
  then show ?thesis using assms(3) by (simp add: pack_allocated_def)
next
  case (Some b)
  then have "length b = length s" using assms(1,3) by (auto simp: malloc_ok_def)
  then show ?thesis
    using Some writes_apply [OF assms(2), of 0 b] assms(3)
    by (simp add: pack_allocated_def splice_def)
qed

lemma status_of_reads:
  "reads f s (Some x) \<Longrightarrow> status_of f s (Some 0) = Inr (Some x, OK)"
  by (simp add: status_of_def reads_def holds_at_def)

end
