(* ===== verification/Fat_Registry.thy ===== *)
theory Fat_Registry
  imports Reg_Args Fat_Binary4 "HOL-Library.AList"
begin

text \<open>
  The registries built on glib containers (interposer/libciutils.c): the backend's array of
  registered fat binaries (\<open>g_fcia_*\<close>) and the interposer's table of host variables
  (\<open>g_vars_*\<close>). A GArray is a list (\<open>None\<close> for NULL). A GHashTable is an association
  list in its iteration order, which glib leaves open: the results below hold for any order.
\<close>

section \<open>Registered fat binaries\<close>

definition MAX_REGISTERED_VARS :: nat where "MAX_REGISTERED_VARS = 10"

definition MAX_REGISTERED_FUNCS :: nat where "MAX_REGISTERED_FUNCS = 10"

text \<open>What the pointer \<open>fatCubin\<close> points to: its type is that of CUDA 3.2, for both.\<close>

datatype fat_cubin = FatCubin cudaFatCudaBinary | FatCubin2 cudaFatCudaBinary2

record fatcubin_info =
  fi_fatCubinHandle :: u64
  fi_fatCubin :: "fat_cubin option"
  fi_num_reg_vars :: int
  fi_variables :: "reg_var_args option list"
  fi_num_reg_texs :: int
  fi_num_reg_shared :: int
  fi_num_reg_fns :: int
  fi_reg_fns :: "reg_func_args option list"

definition fci_calloc :: fatcubin_info where
  "fci_calloc = \<lparr>fi_fatCubinHandle = 0, fi_fatCubin = None, fi_num_reg_vars = 0,
     fi_variables = replicate MAX_REGISTERED_VARS None, fi_num_reg_texs = 0,
     fi_num_reg_shared = 0, fi_num_reg_fns = 0,
     fi_reg_fns = replicate MAX_REGISTERED_FUNCS None\<rparr>"

primrec fcia_idx_loop :: "fatcubin_info list \<Rightarrow> u64 \<Rightarrow> int \<Rightarrow> int" where
  "fcia_idx_loop [] h i = -1"
| "fcia_idx_loop (e # es) h i =
     (if fi_fatCubinHandle e = h then i else fcia_idx_loop es h (i + 1))"

definition g_fcia_idx :: "fatcubin_info list option \<Rightarrow> u64 \<Rightarrow> int" where
  "g_fcia_idx arr h = (case arr of None \<Rightarrow> -1 | Some es \<Rightarrow> fcia_idx_loop es h 0)"

text \<open>The pointer that is returned is the index into the array, with the element.\<close>

definition g_fcia_elidx ::
  "fatcubin_info list option \<Rightarrow> u64 \<Rightarrow> fatcubin_info option \<times> int" where
  "g_fcia_elidx arr h = (let i = g_fcia_idx arr h in
     (if i = -1 then None else Some (the arr ! nat i), i))"

definition g_fcia_elem :: "fatcubin_info list option \<Rightarrow> u64 \<Rightarrow> fatcubin_info option" where
  "g_fcia_elem arr h = fst (g_fcia_elidx arr h)"

text \<open>\<open>for (j = 0; j < p->num_reg_vars; j++)\<close> from \<open>j\<close>, with \<open>k\<close> iterations left.\<close>

primrec scan_vars :: "reg_var_args option list \<Rightarrow> u64 \<Rightarrow> nat \<Rightarrow> nat \<Rightarrow> nat option cres" where
  "scan_vars vars hv 0 j = Inr None"
| "scan_vars vars hv (Suc k) j = bindr (nthr vars j) (\<lambda>v.
     case v of Some a \<Rightarrow> if va_hostVar a = hv then Inr (Some j) else scan_vars vars hv k (j + 1)
     | None \<Rightarrow> scan_vars vars hv k (j + 1))"

text \<open>The \<open>break\<close> leaves the inner loop only: the outer one goes on.\<close>

primrec fcia_host_loop ::
  "fatcubin_info list \<Rightarrow> u64 \<Rightarrow> nat \<Rightarrow> nat option \<times> int \<Rightarrow> (nat option \<times> int) cres" where
  "fcia_host_loop [] hv i acc = Inr acc"
| "fcia_host_loop (p # ps) hv i acc =
     bindr (scan_vars (fi_variables p) hv (nat (fi_num_reg_vars p)) 0) (\<lambda>r.
       fcia_host_loop ps hv (i + 1)
         (case r of Some j \<Rightarrow> (Some i, int j) | None \<Rightarrow> acc))"

definition g_fcia_host_var ::
  "fatcubin_info list option \<Rightarrow> u64 \<Rightarrow> (nat option \<times> int) cres" where
  "g_fcia_host_var arr hv =
     (case arr of None \<Rightarrow> Inr (None, -1) | Some ps \<Rightarrow> fcia_host_loop ps hv 0 (None, -1))"

subsection \<open>What the searches find\<close>

lemma fcia_idx_loop_spec:
  "fcia_idx_loop es h i = (if h \<in> fi_fatCubinHandle ` set es
     then i + int (length (takeWhile (\<lambda>e. fi_fatCubinHandle e \<noteq> h) es)) else -1)"
  by (induction es arbitrary: i) auto

lemma takeWhile_hit:
  "\<exists>e \<in> set es. P e \<Longrightarrow> length (takeWhile (\<lambda>e. \<not> P e) es) < length es \<and>
     P (es ! length (takeWhile (\<lambda>e. \<not> P e) es))"
  by (induction es) auto

lemma g_fcia_elem_some:
  "g_fcia_elem arr h = Some e \<longleftrightarrow> (\<exists>es. arr = Some es \<and> h \<in> fi_fatCubinHandle ` set es \<and>
     e = es ! length (takeWhile (\<lambda>e. fi_fatCubinHandle e \<noteq> h) es))"
  by (auto simp: g_fcia_elem_def g_fcia_elidx_def g_fcia_idx_def fcia_idx_loop_spec Let_def
      split: option.splits)

lemma g_fcia_elem_handle:
  assumes "g_fcia_elem arr h = Some e"
  shows "fi_fatCubinHandle e = h \<and> (\<exists>es. arr = Some es \<and> e \<in> set es)"
proof -
  obtain es where es: "arr = Some es" "h \<in> fi_fatCubinHandle ` set es"
    "e = es ! length (takeWhile (\<lambda>e. fi_fatCubinHandle e \<noteq> h) es)"
    using assms unfolding g_fcia_elem_some by auto
  have "\<exists>e \<in> set es. fi_fatCubinHandle e = h" using es(2) by auto
  from takeWhile_hit [OF this] es show ?thesis by auto
qed

lemma g_fcia_elem_none:
  "g_fcia_elem (Some es) h = None \<longleftrightarrow> h \<notin> fi_fatCubinHandle ` set es"
  by (auto simp: g_fcia_elem_def g_fcia_elidx_def g_fcia_idx_def fcia_idx_loop_spec Let_def)

definition fci_wf :: "fatcubin_info \<Rightarrow> bool" where
  "fci_wf p \<longleftrightarrow> length (fi_variables p) = MAX_REGISTERED_VARS
     \<and> length (fi_reg_fns p) = MAX_REGISTERED_FUNCS
     \<and> 0 \<le> fi_num_reg_vars p \<and> fi_num_reg_vars p \<le> int MAX_REGISTERED_VARS
     \<and> 0 \<le> fi_num_reg_fns p \<and> fi_num_reg_fns p \<le> int MAX_REGISTERED_FUNCS"

text \<open>A variable slot of a fat binary that holds the host variable.\<close>

definition slot_has :: "reg_var_args option list \<Rightarrow> u64 \<Rightarrow> nat \<Rightarrow> bool" where
  "slot_has vars hv j \<longleftrightarrow> (case vars ! j of None \<Rightarrow> False | Some a \<Rightarrow> va_hostVar a = hv)"

definition holds_var :: "fatcubin_info \<Rightarrow> u64 \<Rightarrow> nat \<Rightarrow> bool" where
  "holds_var p hv j \<longleftrightarrow> int j < fi_num_reg_vars p \<and> slot_has (fi_variables p) hv j"

lemma scan_vars_step:
  "j < length vars \<Longrightarrow> scan_vars vars hv (Suc k) j =
     (if slot_has vars hv j then Inr (Some j) else scan_vars vars hv k (Suc j))"
  by (auto simp: slot_has_def split: option.splits)

lemma scan_vars_None:
  "j + k \<le> length vars \<Longrightarrow> \<forall>m. j \<le> m \<longrightarrow> m < j + k \<longrightarrow> \<not> slot_has vars hv m \<Longrightarrow>
   scan_vars vars hv k j = Inr None"
  by (induction k arbitrary: j) (simp_all add: scan_vars_step del: scan_vars.simps(2))

lemma scan_vars_Some:
  "j + k \<le> length vars \<Longrightarrow> \<exists>m. j \<le> m \<and> m < j + k \<and> slot_has vars hv m \<Longrightarrow>
   \<exists>m. scan_vars vars hv k j = Inr (Some m) \<and> j \<le> m \<and> m < j + k \<and> slot_has vars hv m"
proof (induction k arbitrary: j)
  case 0
  then show ?case by auto
next
  case (Suc k)
  have j: "j < length vars" using Suc.prems(1) by simp
  show ?case
  proof (cases "slot_has vars hv j")
    case True
    then show ?thesis using scan_vars_step [OF j] by auto
  next
    case False
    then have "\<exists>m. Suc j \<le> m \<and> m < Suc j + k \<and> slot_has vars hv m"
      using Suc.prems(2) by (metis add_Suc add_Suc_right le_eq_less_or_eq less_eq_Suc_le)
    then show ?thesis
      using Suc.IH [of "Suc j"] Suc.prems(1) False scan_vars_step [OF j]
      by (auto simp del: scan_vars.simps(2))
  qed
qed

lemma scan_vars_fci:
  assumes "fci_wf p"
  shows "\<exists>r. scan_vars (fi_variables p) hv (nat (fi_num_reg_vars p)) 0 = Inr r \<and>
    (case r of None \<Rightarrow> \<forall>m. \<not> holds_var p hv m | Some m \<Rightarrow> holds_var p hv m)"
proof -
  have l: "0 + nat (fi_num_reg_vars p) \<le> length (fi_variables p)"
    using assms by (auto simp: fci_wf_def)
  show ?thesis
  proof (cases "\<exists>m. 0 \<le> m \<and> m < 0 + nat (fi_num_reg_vars p) \<and> slot_has (fi_variables p) hv m")
    case True
    from scan_vars_Some [OF l this] show ?thesis
      by (auto simp: holds_var_def zless_nat_eq_int_zless)
  next
    case False
    then have "scan_vars (fi_variables p) hv (nat (fi_num_reg_vars p)) 0 = Inr None"
      using scan_vars_None [OF l] by blast
    moreover have "\<not> holds_var p hv m" for m
      using False by (auto simp: holds_var_def zless_nat_eq_int_zless)
    ultimately show ?thesis by auto
  qed
qed

lemma fcia_host_loop_spec:
  assumes "\<forall>p \<in> set ps. fci_wf p"
  shows "\<exists>fi idx. fcia_host_loop ps hv i acc = Inr (fi, idx) \<and>
    (if \<exists>p \<in> set ps. \<exists>m. holds_var p hv m
     then (\<exists>n m. fi = Some (i + n) \<and> idx = int m \<and> n < length ps \<and> holds_var (ps ! n) hv m
            \<and> (\<forall>n'. n < n' \<longrightarrow> n' < length ps \<longrightarrow> (\<forall>m'. \<not> holds_var (ps ! n') hv m')))
     else (fi, idx) = acc)"
  using assms
proof (induction ps arbitrary: i acc)
  case Nil
  then show ?case by (cases acc) simp
next
  case (Cons p ps)
  obtain r where r: "scan_vars (fi_variables p) hv (nat (fi_num_reg_vars p)) 0 = Inr r"
    "case r of None \<Rightarrow> \<forall>m. \<not> holds_var p hv m | Some m \<Rightarrow> holds_var p hv m"
    using scan_vars_fci [of p hv] Cons.prems by auto
  let ?acc = "case r of Some j \<Rightarrow> (Some i, int j) | None \<Rightarrow> acc"
  obtain fi idx where l: "fcia_host_loop ps hv (i + 1) ?acc = Inr (fi, idx)"
    and s: "if \<exists>p \<in> set ps. \<exists>m. holds_var p hv m
     then (\<exists>n m. fi = Some (i + 1 + n) \<and> idx = int m \<and> n < length ps \<and> holds_var (ps ! n) hv m
            \<and> (\<forall>n'. n < n' \<longrightarrow> n' < length ps \<longrightarrow> (\<forall>m'. \<not> holds_var (ps ! n') hv m')))
     else (fi, idx) = ?acc"
    using Cons.IH [of "i + 1" ?acc] Cons.prems by auto
  have e: "fcia_host_loop (p # ps) hv i acc = Inr (fi, idx)" using r(1) l by simp
  show ?case
  proof (cases "\<exists>p \<in> set ps. \<exists>m. holds_var p hv m")
    case True
    with s obtain n m where "fi = Some (i + 1 + n)" "idx = int m" "n < length ps"
      "holds_var (ps ! n) hv m"
      "\<forall>n'. n < n' \<longrightarrow> n' < length ps \<longrightarrow> (\<forall>m'. \<not> holds_var (ps ! n') hv m')"
      by auto
    then have "\<exists>n m. fi = Some (i + n) \<and> idx = int m \<and> n < length (p # ps)
        \<and> holds_var ((p # ps) ! n) hv m
        \<and> (\<forall>n'. n < n' \<longrightarrow> n' < length (p # ps) \<longrightarrow> (\<forall>m'. \<not> holds_var ((p # ps) ! n') hv m'))"
      by (intro exI [of _ "Suc n"] exI [of _ m]) (auto simp: nth_Cons')
    then show ?thesis using e True by auto
  next
    case False
    have none: "\<forall>n'. 0 < n' \<longrightarrow> n' < length (p # ps) \<longrightarrow> (\<forall>m'. \<not> holds_var ((p # ps) ! n') hv m')"
      using False by (auto simp: nth_Cons')
    show ?thesis
    proof (cases r)
      case None
      then show ?thesis using e s r(2) False by auto
    next
      case (Some j)
      then have "\<exists>n m. fi = Some (i + n) \<and> idx = int m \<and> n < length (p # ps)
        \<and> holds_var ((p # ps) ! n) hv m
        \<and> (\<forall>n'. n < n' \<longrightarrow> n' < length (p # ps) \<longrightarrow> (\<forall>m'. \<not> holds_var ((p # ps) ! n') hv m'))"
        using s r(2) False none by (intro exI [of _ 0] exI [of _ j]) auto
      then show ?thesis using e Some r(2) by auto
    qed
  qed
qed

section \<open>Host variables of the application\<close>

text \<open>
  \<open>regHostVarsTab\<close>: fat cubin handle to the variables registered for it. A symbol that the
  application passes to \<open>cudaMemcpyToSymbol\<close> is an address with the bytes stored there: it is
  either the address of a variable or a name.
\<close>

record vars_val =
  vv_hostVar :: u64
  vv_deviceName :: charp

type_synonym vars_tab = "(u64 \<times> vars_val list) list"
type_synonym symbolp = "u64 \<times> byte list"

definition g_vars_val_new :: "u64 \<Rightarrow> charp \<Rightarrow> vars_val" where
  "g_vars_val_new hv name = \<lparr>vv_hostVar = hv, vv_deviceName = map_option cstr name\<rparr>"

definition g_vars_insert ::
  "vars_tab \<Rightarrow> u64 \<Rightarrow> vars_val option \<Rightarrow> vars_tab \<times> vars_val list option" where
  "g_vars_insert tab h v = (case v of None \<Rightarrow> (tab, None) | Some val \<Rightarrow>
     if h = 0 then (tab, None)
     else (let arr = (case map_of tab h of None \<Rightarrow> [] | Some a \<Rightarrow> a) @ [val] in
       (AList.update h arr tab, Some arr)))"

definition g_vars_remove :: "vars_tab option \<Rightarrow> u64 \<Rightarrow> vars_tab option \<times> int" where
  "g_vars_remove tab h = (case tab of None \<Rightarrow> (None, OK) | Some t \<Rightarrow>
     if h = 0 then (Some t, OK) else (Some (AList.delete h t), OK))"

text \<open>
  The two predicates of \<open>g_vars_find\<close>: the host variable that is added to \<open>user_data\<close>
  when they return TRUE.
\<close>

primrec l_g_vars_find_hostVar :: "vars_val list \<Rightarrow> symbolp \<Rightarrow> u64 option" where
  "l_g_vars_find_hostVar [] smb = None"
| "l_g_vars_find_hostVar (v # vs) smb =
     (if vv_hostVar v = fst smb then Some (vv_hostVar v) else l_g_vars_find_hostVar vs smb)"

primrec l_g_vars_find_deviceName :: "vars_val list \<Rightarrow> symbolp \<Rightarrow> u64 option cres" where
  "l_g_vars_find_deviceName [] smb = Inr None"
| "l_g_vars_find_deviceName (v # vs) smb = (case vv_deviceName v of None \<Rightarrow> Inl NullDeref
     | Some n \<Rightarrow> if cstr n = cstr (snd smb) then Inr (Some (vv_hostVar v))
                else l_g_vars_find_deviceName vs smb)"

text \<open>\<open>g_hash_table_find\<close> goes through the entries until the predicate returns TRUE.\<close>

primrec ht_find :: "('v \<Rightarrow> 'r option cres) \<Rightarrow> (u64 \<times> 'v) list \<Rightarrow> 'r option cres" where
  "ht_find f [] = Inr None"
| "ht_find f (e # es) =
     bindr (f (snd e)) (\<lambda>r. case r of Some x \<Rightarrow> Inr (Some x) | None \<Rightarrow> ht_find f es)"

text \<open>The result is the host variable, 0 being NULL; \<open>None\<close> as symbol is NULL.\<close>

definition g_vars_find :: "vars_tab option \<Rightarrow> symbolp option \<Rightarrow> u64 cres" where
  "g_vars_find tab smb = (case tab of None \<Rightarrow> Inr 0 | Some t \<Rightarrow>
     (case smb of None \<Rightarrow> Inr 0 | Some s \<Rightarrow>
       bindr (ht_find (\<lambda>vs. Inr (l_g_vars_find_hostVar vs s)) t) (\<lambda>r. case r of
         Some hv \<Rightarrow> Inr hv
       | None \<Rightarrow> bindr (ht_find (\<lambda>vs. l_g_vars_find_deviceName vs s) t) (\<lambda>r. case r of
           Some hv \<Rightarrow> Inr hv | None \<Rightarrow> Inr 0))))"

subsection \<open>What \<open>g_vars_find\<close> finds\<close>

definition tab_vars :: "vars_tab \<Rightarrow> vars_val list" where
  "tab_vars t = concat (map snd t)"

definition named :: "vars_tab \<Rightarrow> bool" where
  "named t \<longleftrightarrow> (\<forall>v \<in> set (tab_vars t). vv_deviceName v \<noteq> None)"

definition var_named :: "symbolp \<Rightarrow> vars_val \<Rightarrow> bool" where
  "var_named s v \<longleftrightarrow> cstr (the (vv_deviceName v)) = cstr (snd s)"

lemma find_append:
  "List.find P (xs @ ys) = (case List.find P xs of Some x \<Rightarrow> Some x | None \<Rightarrow> List.find P ys)"
  by (induction xs) auto

lemma find_hostVar_eq:
  "l_g_vars_find_hostVar vs s = map_option vv_hostVar (List.find (\<lambda>v. vv_hostVar v = fst s) vs)"
  by (induction vs) auto

lemma find_deviceName_eq:
  "\<forall>v \<in> set vs. vv_deviceName v \<noteq> None \<Longrightarrow>
   l_g_vars_find_deviceName vs s = Inr (map_option vv_hostVar (List.find (var_named s) vs))"
  by (induction vs) (auto simp: var_named_def)

lemma ht_find_eq:
  assumes "\<And>e. e \<in> set t \<Longrightarrow> f (snd e) = Inr (map_option g (List.find P (snd e)))"
  shows "ht_find f t = Inr (map_option g (List.find P (tab_vars t)))"
  using assms
  by (induction t) (auto simp: tab_vars_def find_append split: option.splits)

lemma g_vars_find_eq:
  assumes "named t"
  shows "g_vars_find (Some t) (Some s) = Inr
    (case List.find (\<lambda>v. vv_hostVar v = fst s) (tab_vars t) of Some v \<Rightarrow> vv_hostVar v
     | None \<Rightarrow> (case List.find (var_named s) (tab_vars t) of Some v \<Rightarrow> vv_hostVar v | None \<Rightarrow> 0))"
proof -
  have 1: "ht_find (\<lambda>vs. Inr (l_g_vars_find_hostVar vs s)) t =
      Inr (map_option vv_hostVar (List.find (\<lambda>v. vv_hostVar v = fst s) (tab_vars t)))"
    by (rule ht_find_eq) (simp add: find_hostVar_eq)
  have 2: "ht_find (\<lambda>vs. l_g_vars_find_deviceName vs s) t =
      Inr (map_option vv_hostVar (List.find (var_named s) (tab_vars t)))"
    by (rule ht_find_eq, rule find_deviceName_eq)
      (use assms in \<open>auto simp: named_def tab_vars_def\<close>)
  show ?thesis
    by (simp add: g_vars_find_def 1 2 split: option.splits)
qed

lemma find_member: "List.find P xs = Some x \<Longrightarrow> x \<in> set xs \<and> P x"
  by (auto simp: find_Some_iff in_set_conv_nth)

lemma find_None: "List.find P xs = None \<longleftrightarrow> (\<forall>x \<in> set xs. \<not> P x)"
  by (induction xs) auto

text \<open>An address that is registered is found, whatever the names and the order.\<close>

lemma g_vars_find_address:
  assumes "named t" and "v \<in> set (tab_vars t)" and "fst s = vv_hostVar v"
  shows "g_vars_find (Some t) (Some s) = Inr (vv_hostVar v)"
proof -
  have "List.find (\<lambda>v. vv_hostVar v = fst s) (tab_vars t) \<noteq> None"
    using assms(2,3) by (auto simp: find_None)
  then obtain w where "List.find (\<lambda>v. vv_hostVar v = fst s) (tab_vars t) = Some w" by auto
  moreover from find_member [OF this] have "vv_hostVar w = vv_hostVar v" using assms(3) by simp
  ultimately show ?thesis by (simp add: g_vars_find_eq [OF assms(1)])
qed

text \<open>A name is resolved when it is not the address of a variable and its variable is unique.\<close>

lemma g_vars_find_name:
  assumes "named t" and v: "v \<in> set (tab_vars t)" "var_named s v"
    and addr: "\<forall>w \<in> set (tab_vars t). vv_hostVar w \<noteq> fst s"
    and uniq: "\<forall>w \<in> set (tab_vars t). var_named s w \<longrightarrow> vv_hostVar w = vv_hostVar v"
  shows "g_vars_find (Some t) (Some s) = Inr (vv_hostVar v)"
proof -
  have n: "List.find (\<lambda>v. vv_hostVar v = fst s) (tab_vars t) = None"
    using addr by (simp add: find_None)
  have "List.find (var_named s) (tab_vars t) \<noteq> None"
    using v by (auto simp: find_None)
  then obtain w where w: "List.find (var_named s) (tab_vars t) = Some w" by auto
  from find_member [OF this] uniq have "vv_hostVar w = vv_hostVar v" by simp
  then show ?thesis by (simp add: g_vars_find_eq [OF assms(1)] n w)
qed

subsection \<open>The interface the interposer uses\<close>

text \<open>
  What \<open>__cudaRegisterVar\<close> and \<open>cudaMemcpyToSymbol\<close> rely on: registering keeps what was
  registered, and the address of a registered variable is looked up as itself.
\<close>

locale var_registry =
  fixes register :: "'t \<Rightarrow> u64 \<Rightarrow> vars_val \<Rightarrow> 't"
    and lookup :: "'t \<Rightarrow> symbolp \<Rightarrow> u64 cres"
    and content :: "'t \<Rightarrow> vars_val set"
    and inv :: "'t \<Rightarrow> bool"
  assumes inv_register:
      "inv t \<Longrightarrow> h \<noteq> 0 \<Longrightarrow> vv_deviceName v \<noteq> None \<Longrightarrow> inv (register t h v)"
    and content_register:
      "inv t \<Longrightarrow> h \<noteq> 0 \<Longrightarrow> vv_deviceName v \<noteq> None \<Longrightarrow>
       content (register t h v) = insert v (content t)"
    and lookup_address:
      "inv t \<Longrightarrow> v \<in> content t \<Longrightarrow> fst s = vv_hostVar v \<Longrightarrow> lookup t s = Inr (vv_hostVar v)"
    and lookup_sound:
      "inv t \<Longrightarrow> lookup t s = Inr a \<Longrightarrow> a \<noteq> 0 \<Longrightarrow> \<exists>v \<in> content t. vv_hostVar v = a"
begin

definition register_all :: "'t \<Rightarrow> (u64 \<times> vars_val) list \<Rightarrow> 't" where
  "register_all t rs = foldl (\<lambda>t (h, v). register t h v) t rs"

lemma register_all_content:
  assumes "inv t" and "\<forall>(h, v) \<in> set rs. h \<noteq> 0 \<and> vv_deviceName v \<noteq> None"
  shows "inv (register_all t rs) \<and> content (register_all t rs) = snd ` set rs \<union> content t"
  using assms
proof (induction rs arbitrary: t)
  case Nil
  then show ?case by (simp add: register_all_def)
next
  case (Cons r rs)
  obtain h v where r: "r = (h, v)" by force
  with Cons show ?case
    by (auto simp: register_all_def inv_register content_register)
qed

lemma registered_found:
  assumes "inv t" and "\<forall>(h, v) \<in> set rs. h \<noteq> 0 \<and> vv_deviceName v \<noteq> None"
    and "(h, v) \<in> set rs" and "fst s = vv_hostVar v"
  shows "lookup (register_all t rs) s = Inr (vv_hostVar v)"
  using register_all_content [OF assms(1,2)] assms(3,4)
  by (intro lookup_address) force+

end

definition vars_inv :: "vars_tab \<Rightarrow> bool" where
  "vars_inv t \<longleftrightarrow> named t \<and> distinct (map fst t)"

lemma g_vars_insert_tab:
  "h \<noteq> 0 \<Longrightarrow> fst (g_vars_insert t h (Some v)) =
     AList.update h ((case map_of t h of None \<Rightarrow> [] | Some a \<Rightarrow> a) @ [v]) t"
  by (simp add: g_vars_insert_def Let_def)

lemma tab_vars_update:
  "distinct (map fst t) \<Longrightarrow>
   set (tab_vars (AList.update h ((case map_of t h of None \<Rightarrow> [] | Some a \<Rightarrow> a) @ [v]) t)) =
   insert v (set (tab_vars t))"
proof (induction t)
  case Nil
  then show ?case by (simp add: tab_vars_def)
next
  case (Cons e t)
  then show ?case by (cases e) (auto simp: tab_vars_def split: option.splits)
qed

lemma g_vars_insert_content:
  "vars_inv t \<Longrightarrow> h \<noteq> 0 \<Longrightarrow>
   set (tab_vars (fst (g_vars_insert t h (Some v)))) = insert v (set (tab_vars t))"
  unfolding vars_inv_def g_vars_insert_tab by (simp only: g_vars_insert_tab tab_vars_update)

lemma g_vars_insert_inv:
  "vars_inv t \<Longrightarrow> h \<noteq> 0 \<Longrightarrow> vv_deviceName v \<noteq> None \<Longrightarrow>
   vars_inv (fst (g_vars_insert t h (Some v)))"
  using g_vars_insert_content [of t h v]
  by (auto simp: vars_inv_def named_def g_vars_insert_tab distinct_update)

lemma g_vars_find_sound:
  assumes "named t" and "g_vars_find (Some t) (Some s) = Inr a" and "a \<noteq> 0"
  shows "\<exists>v \<in> set (tab_vars t). vv_hostVar v = a"
  using assms(2,3) unfolding g_vars_find_eq [OF assms(1)]
  by (auto split: option.splits dest: find_member)

interpretation host_vars: var_registry
  "\<lambda>t h v. fst (g_vars_insert t h (Some v))" "\<lambda>t s. g_vars_find (Some t) (Some s)"
  "\<lambda>t. set (tab_vars t)" vars_inv
proof
  show "vars_inv (fst (g_vars_insert t h (Some v)))"
    if "vars_inv t" "h \<noteq> 0" "vv_deviceName v \<noteq> None" for t h v
    using that by (rule g_vars_insert_inv)
  show "set (tab_vars (fst (g_vars_insert t h (Some v)))) = insert v (set (tab_vars t))"
    if "vars_inv t" "h \<noteq> 0" "vv_deviceName v \<noteq> None" for t h v
    using that by (simp add: g_vars_insert_content)
  show "g_vars_find (Some t) (Some s) = Inr (vv_hostVar v)"
    if "vars_inv t" "v \<in> set (tab_vars t)" "fst s = vv_hostVar v" for t v s
    using that by (intro g_vars_find_address) (auto simp: vars_inv_def)
  show "\<exists>v \<in> set (tab_vars t). vv_hostVar v = a"
    if "vars_inv t" "g_vars_find (Some t) (Some s) = Inr a" "a \<noteq> 0" for t s a
    using that by (intro g_vars_find_sound) (auto simp: vars_inv_def)
qed

end
