(* ===== verification/Fat_Free.thy ===== *)
theory Fat_Free
  imports Fat_Registry
begin

text \<open>
  Releasing what was unpacked: \<open>freeRegFunc\<close>, \<open>freeRegVar\<close>, \<open>freeFatBinary\<close> and
  \<open>cleanFatCubinInfo\<close> of interposer/libciutils.c. The heap is reduced to what matters here:
  which block, named by the field that points to it, has been freed. Freeing a block again, and
  reading an array that was freed, is the fault \<open>UseAfterFree\<close>.
\<close>

datatype arr = PtxArr | CubinArr | DebugArr | ElfArr

datatype block =
    FatField nat             \<comment> \<open>key, ident, usageMode: 0, 1, 2\<close>
  | Arr arr                  \<comment> \<open>the array of entries\<close>
  | EntName arr nat          \<comment> \<open>gpuProfileName of the i-th entry\<close>
  | EntData arr nat          \<comment> \<open>ptx, cubin, debug or elf of the i-th entry\<close>
  | FatBlock                 \<comment> \<open>the structure itself\<close>
  | VarField nat nat         \<comment> \<open>field of the i-th registered variable\<close>
  | VarBlock nat
  | FunField nat nat         \<comment> \<open>field of the i-th registered function\<close>
  | FunBlock nat

type_synonym freed = "block list"

definition free_block :: "block \<Rightarrow> freed \<Rightarrow> freed cres" where
  "free_block b st = (if b \<in> set st then Inl UseAfterFree else Inr (b # st))"

text \<open>\<open>if (p != NULL) free(p);\<close>, and \<open>free(p)\<close> alone, which accepts NULL.\<close>

definition free_opt :: "bool \<Rightarrow> block \<Rightarrow> freed \<Rightarrow> freed cres" where
  "free_opt present b st = (if present then free_block b st else Inr st)"

primrec free_list :: "(bool \<times> block) list \<Rightarrow> freed \<Rightarrow> freed cres" where
  "free_list [] st = Inr st"
| "free_list (x # xs) st = bindr (free_opt (fst x) (snd x) st) (free_list xs)"

text \<open>
  \<open>while (!(a[i].gpuProfileName == NULL && a[i].data == NULL))\<close>: the entries are given by
  which of their two pointers are not NULL.
\<close>

primrec free_entries :: "arr \<Rightarrow> (bool \<times> bool) list \<Rightarrow> nat \<Rightarrow> freed \<Rightarrow> freed cres" where
  "free_entries a [] i st = (if Arr a \<in> set st then Inl UseAfterFree else Inl OutOfBounds)"
| "free_entries a (e # es) i st = (if Arr a \<in> set st then Inl UseAfterFree
     else if \<not> fst e \<and> \<not> snd e then Inr st
     else bindr (free_opt (fst e) (EntName a i) st) (\<lambda>st.
          bindr (free_opt (snd e) (EntData a i) st) (\<lambda>st. free_entries a es (i + 1) st)))"

definition free_array :: "arr \<Rightarrow> (bool \<times> bool) list option \<Rightarrow> freed \<Rightarrow> freed cres" where
  "free_array a p st = (case p of None \<Rightarrow> Inr st
     | Some es \<Rightarrow> bindr (free_entries a es 0 st) (free_block (Arr a)))"

definition ptx_ptrs :: "cudaFatPtxEntry \<Rightarrow> bool \<times> bool" where
  "ptx_ptrs e = (ptx_gpuProfileName e \<noteq> None, ptx_ptx e \<noteq> None)"

definition cubin_ptrs :: "cudaFatCubinEntry \<Rightarrow> bool \<times> bool" where
  "cubin_ptrs e = (cubin_gpuProfileName e \<noteq> None, cubin_cubin e \<noteq> None)"

definition debug_ptrs :: "cudaFatDebugEntry \<Rightarrow> bool \<times> bool" where
  "debug_ptrs e = (debug_gpuProfileName e \<noteq> None, debug_debug e \<noteq> None)"

definition elf_ptrs :: "cudaFatElfEntry \<Rightarrow> bool \<times> bool" where
  "elf_ptrs e = (elf_gpuProfileName e \<noteq> None, elf_elf e \<noteq> None)"

text \<open>The entries of an unpacked list lie in one array; \<open>[]\<close> is NULL.\<close>

definition chain_ptrs :: "('a \<Rightarrow> bool \<times> bool) \<Rightarrow> 'a list \<Rightarrow> (bool \<times> bool) list option" where
  "chain_ptrs f es = (if es = [] then None else Some (map f es))"

text \<open>
  The block that frees the debug entries stands twice in the source. The structure of CUDA 4.0
  has 24 bytes, and the first field that is read, \<open>key\<close>, stands behind three words of 8 bytes.
\<close>

definition freeFatBinary :: "fat_cubin option \<Rightarrow> freed \<Rightarrow> (freed \<times> int) cres" where
  "freeFatBinary fc st = (case fc of None \<Rightarrow> Inr (st, OK) | Some (FatCubin2 f) \<Rightarrow> Inl OutOfBounds
     | Some (FatCubin f) \<Rightarrow>
     bindr (free_list [(fat_key f \<noteq> None, FatField 0), (fat_ident f \<noteq> None, FatField 1),
       (fat_usageMode f \<noteq> None, FatField 2)] st) (\<lambda>st.
     bindr (free_array PtxArr (map_option (map ptx_ptrs) (fat_ptx f)) st) (\<lambda>st.
     bindr (free_array CubinArr (map_option (map cubin_ptrs) (fat_cubin f)) st) (\<lambda>st.
     bindr (free_array DebugArr (chain_ptrs debug_ptrs (fat_debug f)) st) (\<lambda>st.
     bindr (free_array DebugArr (chain_ptrs debug_ptrs (fat_debug f)) st) (\<lambda>st.
     bindr (free_array ElfArr (chain_ptrs elf_ptrs (fat_elf f)) st) (\<lambda>st.
     bindr (free_block FatBlock st) (\<lambda>st. Inr (st, OK)))))))))"

definition freeRegFunc :: "nat \<Rightarrow> reg_func_args option \<Rightarrow> freed \<Rightarrow> (freed \<times> int) cres" where
  "freeRegFunc i args st = (case args of None \<Rightarrow> Inr (st, OK) | Some a \<Rightarrow>
     bindr (free_list [(fa_hostFun a \<noteq> None, FunField i 0), (fa_deviceFun a \<noteq> None, FunField i 1),
       (fa_deviceName a \<noteq> None, FunField i 2), (fa_tid a \<noteq> None, FunField i 3),
       (fa_bid a \<noteq> None, FunField i 4), (fa_bDim a \<noteq> None, FunField i 5),
       (fa_gDim a \<noteq> None, FunField i 6), (fa_wSize a \<noteq> None, FunField i 7),
       (True, FunBlock i)] st) (\<lambda>st. Inr (st, OK)))"

definition freeRegVar :: "nat \<Rightarrow> reg_var_args option \<Rightarrow> freed \<Rightarrow> (freed \<times> int) cres" where
  "freeRegVar i args st = (case args of None \<Rightarrow> Inr (st, OK) | Some a \<Rightarrow>
     bindr (free_list [(va_deviceName a \<noteq> None, VarField i 0),
       (va_deviceAddress a \<noteq> None, VarField i 1), (True, VarField i 2), (True, VarBlock i)] st)
       (\<lambda>st. Inr (st, OK)))"

text \<open>\<open>for (i = 0; i < n; ++i)\<close> over the slots of a registered fat binary.\<close>

primrec free_slots :: "(nat \<Rightarrow> 'a option \<Rightarrow> freed \<Rightarrow> (freed \<times> int) cres) \<Rightarrow> 'a option list
    \<Rightarrow> nat \<Rightarrow> nat \<Rightarrow> freed \<Rightarrow> freed cres" where
  "free_slots f xs 0 i st = Inr st"
| "free_slots f xs (Suc k) i st = bindr (nthr xs i) (\<lambda>x.
     bindr (f i x st) (\<lambda>(st, _). free_slots f xs k (i + 1) st))"

definition cleanFatCubinInfo ::
  "fatcubin_info option \<Rightarrow> freed \<Rightarrow> (fatcubin_info \<times> freed \<times> int) cres" where
  "cleanFatCubinInfo p st = (case p of None \<Rightarrow> Inl AssertFail | Some fci \<Rightarrow>
     bindr (free_slots freeRegVar (fi_variables fci) (nat (fi_num_reg_vars fci)) 0 st) (\<lambda>st.
     bindr (free_slots freeRegFunc (fi_reg_fns fci) (nat (fi_num_reg_fns fci)) 0 st) (\<lambda>st.
     bindr (freeFatBinary (fi_fatCubin fci) st) (\<lambda>(st, _).
     Inr (fci\<lparr>fi_num_reg_fns := 0, fi_num_reg_vars := 0, fi_num_reg_texs := 0,
       fi_num_reg_shared := 0, fi_fatCubinHandle := 0, fi_fatCubin := None\<rparr>, st, OK)))))"

section \<open>What is released\<close>

text \<open>A step that frees exactly the blocks \<open>bs\<close> whenever none of them is freed already.\<close>

definition frees :: "(freed \<Rightarrow> freed cres) \<Rightarrow> block list \<Rightarrow> bool" where
  "frees f bs \<longleftrightarrow> (\<forall>st. set bs \<inter> set st = {} \<longrightarrow> f st = Inr (rev bs @ st))"

lemma frees_apply: "frees f bs \<Longrightarrow> set bs \<inter> set st = {} \<Longrightarrow> f st = Inr (rev bs @ st)"
  by (simp add: frees_def)

lemma frees_block: "frees (free_block b) [b]"
  by (simp add: frees_def free_block_def)

lemma frees_opt: "frees (free_opt c b) (if c then [b] else [])"
  by (simp add: frees_def free_opt_def free_block_def)

lemma frees_bind:
  assumes "frees f as" and "frees g bs" and "set as \<inter> set bs = {}"
  shows "frees (\<lambda>st. bindr (f st) g) (as @ bs)"
  using assms by (auto simp: frees_def Int_Un_distrib Int_Un_distrib2 inf_commute)

lemma frees_list:
  "distinct (map snd xs) \<Longrightarrow> frees (free_list xs) (map snd (filter fst xs))"
proof (induction xs)
  case Nil
  then show ?case by (simp add: frees_def)
next
  case (Cons x xs)
  have "frees (\<lambda>st. bindr (free_opt (fst x) (snd x) st) (free_list xs))
      ((if fst x then [snd x] else []) @ map snd (filter fst xs))"
    by (rule frees_bind [OF frees_opt]) (use Cons in \<open>auto simp: image_iff\<close>)
  then show ?case by (simp split: if_splits)
qed

fun entry_blocks :: "arr \<Rightarrow> (bool \<times> bool) list \<Rightarrow> nat \<Rightarrow> block list" where
  "entry_blocks a [] i = []"
| "entry_blocks a (e # es) i = (if \<not> fst e \<and> \<not> snd e then [] else
     (if fst e then [EntName a i] else []) @ (if snd e then [EntData a i] else [])
     @ entry_blocks a es (i + 1))"

definition array_blocks :: "arr \<Rightarrow> (bool \<times> bool) list option \<Rightarrow> block list" where
  "array_blocks a p = (case p of None \<Rightarrow> [] | Some es \<Rightarrow> entry_blocks a es 0 @ [Arr a])"

lemma entry_blocks_index:
  "b \<in> set (entry_blocks a es i) \<Longrightarrow> \<exists>j \<ge> i. b = EntName a j \<or> b = EntData a j"
  by (induction a es i rule: entry_blocks.induct) (auto split: if_splits dest: Suc_leD)

lemma free_entries_ok:
  assumes "(False, False) \<in> set es" and "Arr a \<notin> set st"
    and "set (entry_blocks a es i) \<inter> set st = {}"
  shows "free_entries a es i st = Inr (rev (entry_blocks a es i) @ st)"
  using assms
proof (induction a es i arbitrary: st rule: entry_blocks.induct)
  case (1 a i)
  then show ?case by simp
next
  case (2 a e es i)
  show ?case
  proof (cases "\<not> fst e \<and> \<not> snd e")
    case True
    then show ?thesis using 2 by simp
  next
    case False
    let ?h = "(if fst e then [EntName a i] else []) @ (if snd e then [EntData a i] else [])"
    have m: "(False, False) \<in> set es" using 2(2) False by (cases e) auto
    have d: "set (entry_blocks a es (i + 1)) \<inter> set (rev ?h @ st) = {}"
      using 2(4) False entry_blocks_index [of _ a es "i + 1"] by (fastforce split: if_splits)
    have r: "free_entries a es (i + 1) (rev ?h @ st) =
        Inr (rev (entry_blocks a es (i + 1)) @ rev ?h @ st)"
      by (rule 2(1) [OF False m _ d]) (use 2(3) in auto)
    show ?thesis
      using False 2(3,4) r by (cases "fst e"; cases "snd e")
        (simp_all add: free_opt_def free_block_def)
  qed
qed

lemma frees_array:
  assumes "\<forall>es. p = Some es \<longrightarrow> (False, False) \<in> set es"
  shows "frees (free_array a p) (array_blocks a p)"
proof (cases p)
  case None
  then show ?thesis by (simp add: frees_def free_array_def array_blocks_def)
next
  case (Some es)
  have "free_array a p st = Inr (rev (array_blocks a p) @ st)"
    if d: "set (array_blocks a p) \<inter> set st = {}" for st
  proof -
    have "free_entries a es 0 st = Inr (rev (entry_blocks a es 0) @ st)"
      by (rule free_entries_ok) (use Some assms d in \<open>auto simp: array_blocks_def\<close>)
    moreover have "Arr a \<notin> set (rev (entry_blocks a es 0) @ st)"
      using Some d by (auto simp: array_blocks_def dest: entry_blocks_index)
    ultimately show ?thesis
      using Some by (simp add: free_array_def array_blocks_def free_block_def)
  qed
  then show ?thesis by (simp add: frees_def)
qed

lemma free_array_twice:
  assumes "Arr a \<in> set st"
  shows "free_array a (Some es) st = Inl UseAfterFree"
  using assms by (cases es) (simp_all add: free_array_def)

definition fat_blocks :: "cudaFatCudaBinary \<Rightarrow> block list" where
  "fat_blocks f = map snd (filter fst [(fat_key f \<noteq> None, FatField 0),
       (fat_ident f \<noteq> None, FatField 1), (fat_usageMode f \<noteq> None, FatField 2)])
     @ array_blocks PtxArr (map_option (map ptx_ptrs) (fat_ptx f))
     @ array_blocks CubinArr (map_option (map cubin_ptrs) (fat_cubin f))
     @ array_blocks ElfArr (chain_ptrs elf_ptrs (fat_elf f)) @ [FatBlock]"

text \<open>The arrays that unpacking builds end with a sentinel.\<close>

definition sentinels :: "cudaFatCudaBinary \<Rightarrow> bool" where
  "sentinels f \<longleftrightarrow>
     (\<forall>es. fat_ptx f = Some es \<longrightarrow> (False, False) \<in> ptx_ptrs ` set es) \<and>
     (\<forall>es. fat_cubin f = Some es \<longrightarrow> (False, False) \<in> cubin_ptrs ` set es) \<and>
     (fat_debug f \<noteq> [] \<longrightarrow> (False, False) \<in> debug_ptrs ` set (fat_debug f)) \<and>
     (fat_elf f \<noteq> [] \<longrightarrow> (False, False) \<in> elf_ptrs ` set (fat_elf f))"

lemma sentinels_view: "sentinels (fat_view f)"
  by (simp add: sentinels_def fat_view_def ptxs_view_def cubins_view_def debugs_view_def
      elves_view_def debug_end_def elf_end_def ptx_ptrs_def cubin_ptrs_def debug_ptrs_def
      elf_ptrs_def)

lemma array_blocks_arr:
  "b \<in> set (array_blocks a p) \<Longrightarrow> b = Arr a \<or> (\<exists>i. b = EntName a i \<or> b = EntData a i)"
  by (auto simp: array_blocks_def dest: entry_blocks_index split: option.splits)

lemma frees_fat_arrays:
  assumes "sentinels f"
  shows "frees (free_array PtxArr (map_option (map ptx_ptrs) (fat_ptx f)))
           (array_blocks PtxArr (map_option (map ptx_ptrs) (fat_ptx f)))"
    and "frees (free_array CubinArr (map_option (map cubin_ptrs) (fat_cubin f)))
           (array_blocks CubinArr (map_option (map cubin_ptrs) (fat_cubin f)))"
    and "frees (free_array DebugArr (chain_ptrs debug_ptrs (fat_debug f)))
           (array_blocks DebugArr (chain_ptrs debug_ptrs (fat_debug f)))"
    and "frees (free_array ElfArr (chain_ptrs elf_ptrs (fat_elf f)))
           (array_blocks ElfArr (chain_ptrs elf_ptrs (fat_elf f)))"
proof -
  note s = assms [unfolded sentinels_def]
  show "frees (free_array PtxArr (map_option (map ptx_ptrs) (fat_ptx f)))
      (array_blocks PtxArr (map_option (map ptx_ptrs) (fat_ptx f)))"
    by (rule frees_array) (use s in auto)
  show "frees (free_array CubinArr (map_option (map cubin_ptrs) (fat_cubin f)))
      (array_blocks CubinArr (map_option (map cubin_ptrs) (fat_cubin f)))"
    by (rule frees_array) (use s in auto)
  show "frees (free_array DebugArr (chain_ptrs debug_ptrs (fat_debug f)))
      (array_blocks DebugArr (chain_ptrs debug_ptrs (fat_debug f)))"
    by (rule frees_array) (use s in \<open>simp add: chain_ptrs_def\<close>)
  show "frees (free_array ElfArr (chain_ptrs elf_ptrs (fat_elf f)))
      (array_blocks ElfArr (chain_ptrs elf_ptrs (fat_elf f)))"
    by (rule frees_array) (use s in \<open>simp add: chain_ptrs_def\<close>)
qed

text \<open>Without debug entries every owned block is freed once, exported and imported excepted.\<close>

lemma freeFatBinary_frees:
  assumes "sentinels f" and "fat_debug f = []"
  shows "freeFatBinary (Some (FatCubin f)) [] = Inr (rev (fat_blocks f), OK)"
proof -
  let ?L = "[(fat_key f \<noteq> None, FatField 0), (fat_ident f \<noteq> None, FatField 1),
       (fat_usageMode f \<noteq> None, FatField 2)]"
  let ?P = "map_option (map ptx_ptrs) (fat_ptx f)"
  let ?C = "map_option (map cubin_ptrs) (fat_cubin f)"
  let ?E = "chain_ptrs elf_ptrs (fat_elf f)"
  have l: "frees (free_list ?L) (map snd (filter fst ?L))" by (rule frees_list) simp
  have p: "frees (free_array PtxArr ?P) (array_blocks PtxArr ?P)"
    and c: "frees (free_array CubinArr ?C) (array_blocks CubinArr ?C)"
    and e: "frees (free_array ElfArr ?E) (array_blocks ElfArr ?E)"
    by (rule frees_fat_arrays [OF assms(1)])+
  have d: "free_array DebugArr (chain_ptrs debug_ptrs (fat_debug f)) st = Inr st" for st
    using assms(2) by (simp add: chain_ptrs_def free_array_def)
  have "frees (\<lambda>st. bindr (free_list ?L st) (\<lambda>st. bindr (free_array PtxArr ?P st) (\<lambda>st.
      bindr (free_array CubinArr ?C st) (\<lambda>st. bindr (free_array ElfArr ?E st)
        (free_block FatBlock))))) (fat_blocks f)"
    unfolding fat_blocks_def
    by (intro frees_bind l p c e frees_block) (auto dest!: array_blocks_arr)
  from frees_apply [OF this, of "[]"] show ?thesis
    by (auto simp: freeFatBinary_def d bindr_eq_Inr_iff)
qed

text \<open>With debug entries the second copy of the block reads the array that was freed.\<close>

lemma freeFatBinary_twice:
  assumes "sentinels f" and "fat_debug f \<noteq> []"
  shows "freeFatBinary (Some (FatCubin f)) [] = Inl UseAfterFree"
proof -
  let ?L = "[(fat_key f \<noteq> None, FatField 0), (fat_ident f \<noteq> None, FatField 1),
       (fat_usageMode f \<noteq> None, FatField 2)]"
  let ?P = "map_option (map ptx_ptrs) (fat_ptx f)"
  let ?C = "map_option (map cubin_ptrs) (fat_cubin f)"
  let ?D = "chain_ptrs debug_ptrs (fat_debug f)"
  have l: "frees (free_list ?L) (map snd (filter fst ?L))" by (rule frees_list) simp
  have p: "frees (free_array PtxArr ?P) (array_blocks PtxArr ?P)"
    and c: "frees (free_array CubinArr ?C) (array_blocks CubinArr ?C)"
    and d: "frees (free_array DebugArr ?D) (array_blocks DebugArr ?D)"
    by (rule frees_fat_arrays [OF assms(1)])+
  have "frees (\<lambda>st. bindr (free_list ?L st) (\<lambda>st. bindr (free_array PtxArr ?P st) (\<lambda>st.
      bindr (free_array CubinArr ?C st) (free_array DebugArr ?D))))
    (map snd (filter fst ?L) @ array_blocks PtxArr ?P @ array_blocks CubinArr ?C
      @ array_blocks DebugArr ?D)"
    by (intro frees_bind l p c d) (auto dest!: array_blocks_arr)
  from frees_apply [OF this, of "[]"]
  obtain s1 s2 s3 s4 where s: "free_list ?L [] = Inr s1" "free_array PtxArr ?P s1 = Inr s2"
    "free_array CubinArr ?C s2 = Inr s3" "free_array DebugArr ?D s3 = Inr s4"
    and s4: "Arr DebugArr \<in> set s4"
    using assms(2) by (fastforce simp: bindr_eq_Inr_iff array_blocks_def chain_ptrs_def)
  show ?thesis
    using s free_array_twice [OF s4] assms(2) by (simp add: freeFatBinary_def chain_ptrs_def)
qed

end
