(* ===== verification/Marshal_Properties.thy ===== *)
theory Marshal_Properties
  imports Fat_Free
begin

text \<open>
  The properties of the marshalling layer and of the registries (interposer/libciutils.c), each
  with a concrete instance.
\<close>

section \<open>Concrete values\<close>

text \<open>A fat binary with one PTX entry, one debug entry, one ELF entry and an imported symbol.\<close>

definition demo_fat :: cudaFatCudaBinary where
  "demo_fat = \<lparr>fat_magic = 0x1ee55a01, fat_version = 4, fat_gpuInfoVersion = 2, fat_flags = 1,
     fat_characteristic = 0, fat_key = Some [107, 49], fat_ident = None, fat_usageMode = Some [],
     fat_debugInfo = 0,
     fat_ptx = Some [\<lparr>ptx_gpuProfileName = Some [99], ptx_ptx = Some [65, 66]\<rparr>,
                     \<lparr>ptx_gpuProfileName = None, ptx_ptx = None\<rparr>],
     fat_cubin = None,
     fat_debug = [\<lparr>debug_gpuProfileName = Some [99], debug_debug = Some [68], debug_size = 7\<rparr>],
     fat_elf = [\<lparr>elf_gpuProfileName = Some [99], elf_elf = Some [1, 2, 3], elf_size = 2\<rparr>,
                \<lparr>elf_gpuProfileName = None, elf_elf = None, elf_size = 0\<rparr>],
     fat_exported = None,
     fat_imported = Some [\<lparr>sym_name = Some [115]\<rparr>, \<lparr>sym_name = None\<rparr>],
     fat_dependends = []\<rparr>"

definition demo_fat4 :: cudaFatCudaBinary2 where
  "demo_fat4 = \<lparr>fb2_magic = 0x466243b1, fb2_version = 1,
     fb2_fatbinData = Some (\<lparr>hdr_magic = 0xba55ed50, hdr_version = 1, hdr_length = 3\<rparr>,
       [10, 20, 30, 40]),
     fb2_f = Some [97]\<rparr>"

definition demo_fun :: reg_func where
  "demo_fun = \<lparr>rf_fatCubinHandle = 0x7f00, rf_hostFun = Some (0x400500, [85]),
     rf_deviceFun = Some [75, 49], rf_deviceName = Some [75, 49], rf_thread_limit = 0xFFFFFFFF,
     rf_tid = None, rf_bid = Some (0x7ffe, \<lparr>ux = 1, uy = 2, uz = 3\<rparr>), rf_bDim = None,
     rf_gDim = None, rf_wSize = Some (0x7ff0, 5)\<rparr>"

definition demo_var :: reg_var where
  "demo_var = \<lparr>rv_fatCubinHandle = 0x7f00, rv_hostVar = 0x601040,
     rv_deviceAddress = Some [118], rv_deviceName = Some [118], rv_ext = 0, rv_vsize = 64,
     rv_constant = 1, rv_global = 0\<rparr>"

text \<open>\<open>malloc\<close> that succeeds, with an arbitrary content.\<close>

definition demo_malloc :: "int \<Rightarrow> cbuf option" where
  "demo_malloc n = Some (replicate (nat n) 0xAA)"

lemma demo_malloc_ok: "malloc_ok demo_malloc"
  by (simp add: malloc_ok_def demo_malloc_def)

lemma demo_fat_wf: "fat_wf demo_fat"
  by (simp add: fat_wf_def fatrec_wf_def demo_fat_def str_wf_def ptxs_wf_def cubins_wf_def
      debugs_wf_def elves_wf_def syms_wf_def terminated_def entries_wf_def ptx_ok_def debug_ok_def
      elf_ok_def sym_ok_def ptx_wf_def debug_wf_def elf_wf_def cstr_def)

lemma demo_fat_size: "getFatRecPktSize demo_fat = Inr (127, fat_cache demo_fat)"
  by code_simp

section \<open>Fat binaries\<close>

text \<open>C11. A fat binary that the interposer packs with \<open>getFatRecPktSize\<close> and
  \<open>packFatBinary\<close> (interposer/libciutils.c) fits the announced size, and the backend's
  \<open>unpackFatBinary\<close> rebuilds the same structure: numbers, strings, entries, ELF images and
  symbols, with every array ended by its NULL entry.\<close>

theorem fat_binary_roundtrip:
  assumes "fat_wf f" and "getFatRecPktSize f = Inr (n, c)" and "p + nat n \<le> length b"
  shows "\<exists>b' off off'. packFatBinary f c b (Some p) = Inr (b', off) \<and> 0 \<le> off \<and> off \<le> n
    \<and> unpackFatBinary b' (Some p) = Inr (Some (fat_view f), Some off')"
proof -
  have size: "int (length (fat_image f)) \<le> n"
    by (rule fat_packer.size_enough [OF assms(1,2)])
  with assms(3) have fits: "p + length (fat_image f) \<le> length b" by simp
  show ?thesis
    using fat_packer.pack_fits [OF assms] yields_apply [OF yields_fat [OF assms(1)]
        holds_at_splice [OF fits]] size by simp
qed

theorem fat_binary_roundtrip_witness:
  "\<exists>b' off off'. packFatBinary demo_fat (fat_cache demo_fat) (replicate 200 0) (Some 5)
      = Inr (b', off) \<and> 0 \<le> off \<and> off \<le> 127
    \<and> unpackFatBinary b' (Some 5) = Inr (Some (fat_view demo_fat), Some off')"
  by (rule fat_binary_roundtrip [OF demo_fat_wf demo_fat_size]) simp

text \<open>The number of bytes \<open>unpackFatBinary\<close> reports is wrong when the fat binary imports
  symbols: \<open>l_unpackDep\<close> returns without setting the offset, so the imported symbols are
  counted twice and the four bytes of the dependends count not at all.\<close>

theorem fat_binary_unpack_offset:
  assumes "fat_wf f" and "holds_at b p (fat_image f)"
  shows "unpackFatBinary b (Some p) = Inr (Some (fat_view f),
    Some (int (length (fat_image f)) + (int (length (syms_image (fat_imported f))) - 4)))"
  using yields_apply [OF yields_fat [OF assms(1)] assms(2)] by (simp add: algebra_simps)

theorem fat_binary_unpack_offset_witness:
  "unpackFatBinary (fat_image demo_fat) (Some 0) = Inr (Some (fat_view demo_fat),
    Some (int (length (fat_image demo_fat)) + 5))"
  using fat_binary_unpack_offset [OF demo_fat_wf, of "fat_image demo_fat" 0]
  by (simp add: holds_at_def) (simp add: demo_fat_def syms_image_def entries_image_def
      sym_ok_def str_image_def cstr_def)

text \<open>Packing never touches a byte outside the announced size: with the buffer of exactly
  that size that \<open>__cudaRegisterFatBinary\<close> allocates there is no overrun, and the length of
  the buffer and the bytes around the packet stay as they were.\<close>

theorem fat_binary_pack_in_bounds:
  assumes "fat_wf f" and "getFatRecPktSize f = Inr (n, c)" and "p + nat n \<le> length b"
    and "packFatBinary f c b (Some p) = r"
  shows "\<exists>b' off. r = Inr (b', off) \<and> length b' = length b
    \<and> (\<forall>i < length b. i < p \<or> p + nat n \<le> i \<longrightarrow> b' ! i = b ! i)"
proof -
  have l: "p + length (fat_image f) \<le> length b"
    using fat_packer.size_enough [OF assms(1,2)] assms(3) by simp
  have r: "r = Inr (splice b p (fat_image f), int (length (fat_image f)))"
    using fat_packer.pack_fits [OF assms(1-3)] assms(4) by simp
  have "splice b p (fat_image f) ! i = b ! i"
    if "i < length b" "i < p \<or> p + nat n \<le> i" for i
    by (rule fat_packer.pack_frame [OF assms(1-3)]) (use r assms(4) that in auto)
  then show ?thesis using r length_splice [OF l] by auto
qed

theorem fat_binary_pack_in_bounds_witness:
  "\<exists>b' off. packFatBinary demo_fat (fat_cache demo_fat) (replicate 127 0) (Some 0) = Inr (b', off)
    \<and> length b' = 127"
  using fat_binary_pack_in_bounds [OF demo_fat_wf demo_fat_size _ refl, of 0 "replicate 127 0"]
  by auto

lemma deps_loop:
  assumes "\<forall>d \<in> set ps. fatrec_wf d"
  shows "\<exists>s. l_getSize_deps_loop ps c = Inr (s, c\<lparr>ndeps := ndeps c + int (length ps)\<rparr>) \<and> 0 \<le> s"
  using assms
proof (induction ps arbitrary: c)
  case Nil
  then show ?case by simp
next
  case (Cons p ps)
  obtain s where s: "l_getSize_deps_loop ps (c\<lparr>ndeps := ndeps c + 1\<rparr>) =
      Inr (s, c\<lparr>ndeps := ndeps c + 1 + int (length ps)\<rparr>)" "0 \<le> s"
    using Cons.IH [of "c\<lparr>ndeps := ndeps c + 1\<rparr>"] Cons.prems by auto
  have "l_getFatRecPktSize p empty_cache =
      Inr (int (length (fatrec_image p)) + fat_slack p, (fat_cache p)\<lparr>ndeps := 0\<rparr>)"
    using Cons.prems by (simp add: fatrec_size empty_cache_def)
  then show ?case
    using s by (auto simp: fat_slack_def add.assoc)
qed

lemma packFatBinary_ndeps: "l_packFatBinary f (c\<lparr>ndeps := k\<rparr>) = l_packFatBinary f c"
  by (simp add: l_packFatBinary_def)

text \<open>Dependends are announced by the size function but cannot be packed: with a chain of
  dependends \<open>packFatBinary\<close> stops at the assertion of \<open>l_packDep\<close>, however large the
  buffer.\<close>

theorem fat_binary_dependends_abort:
  assumes "fatrec_wf f" and "\<forall>d \<in> set (fat_dependends f). fatrec_wf d"
    and "fat_dependends f \<noteq> []" and "getFatRecPktSize f = Inr (n, c)"
    and "p + nat n \<le> length b"
  shows "packFatBinary f c b (Some p) = Inl AssertFail"
proof -
  let ?k = "int (length (fat_dependends f))"
  let ?L = "length (fatrec_image f)"
  obtain s where s: "l_getSize_deps_loop (fat_dependends f) ((fat_cache f)\<lparr>ndeps := 0\<rparr>) =
      Inr (s, (fat_cache f)\<lparr>ndeps := ?k\<rparr>)" "0 \<le> s"
    using deps_loop [OF assms(2), of "(fat_cache f)\<lparr>ndeps := 0\<rparr>"] by auto
  have nc: "n = int ?L + fat_slack f + 4 + s" "c = (fat_cache f)\<lparr>ndeps := ?k\<rparr>"
    using assms(4) s(1) by (simp_all add: getFatRecPktSize_def fatrec_size [OF assms(1)]
        empty_cache_def l_getSize_cudaFatBinaryEntry_def)
  have fits: "p + (?L + 4) \<le> length b"
    using assms(5) nc(1) s(2) by (auto simp: fat_slack_def split: if_splits)
  have body: "l_packFatBinary f c b (Some p) = Inr (splice b p (fatrec_image f), int ?L)"
    using writes_apply [OF writes_fatrec [OF assms(1)], of p b] fits
    by (simp add: nc(2) packFatBinary_ndeps)
  have "l_packDep (fat_dependends f) ?k (splice b p (fatrec_image f)) (Some (p + ?L))
      = Inl AssertFail"
    using assms(3) fits
    by (simp add: l_packDep_def if_dst_def then_pack_def memcpy_to_def length_splice
        pack_assert_def)
  then show ?thesis
    by (simp add: packFatBinary_def then_chk_def body [unfolded nc(2)] nc(2))
qed

theorem fat_binary_dependends_abort_witness:
  "packFatBinary (demo_fat\<lparr>fat_dependends := [fatrec.truncate demo_fat]\<rparr>)
     ((fat_cache demo_fat)\<lparr>ndeps := 1\<rparr>) (replicate 250 0) (Some 0) = Inl AssertFail"
proof -
  have w: "fatrec_wf (fatrec.truncate demo_fat)" "fatrec_wf demo_fat"
    using demo_fat_wf by (simp_all add: fat_wf_def fatrec_wf_def fatrec.truncate_def)
  then have w': "fatrec_wf (demo_fat\<lparr>fat_dependends := ds\<rparr>)" for ds
    by (simp add: fatrec_wf_def)
  have sz: "getFatRecPktSize (demo_fat\<lparr>fat_dependends := [fatrec.truncate demo_fat]\<rparr>)
      = Inr (250, (fat_cache demo_fat)\<lparr>ndeps := 1\<rparr>)"
    by code_simp
  show ?thesis
    by (rule fat_binary_dependends_abort [OF w' _ _ sz]) (use w in simp_all)
qed

text \<open>C25. The CUDA 4.0 fat binary: what \<open>packFatBinary_4\<close> writes into a buffer of the
  announced size is read back by \<open>unpackFatBinary_4\<close> with the same number of bytes, the
  blob behind the header included.\<close>

theorem fat_binary4_roundtrip:
  assumes "fat4_wf f" and "getFatRecPktSize_4 f = Inr (n, c)" and "length b = nat n"
  shows "\<exists>b'. packFatBinary_4 f c b (Some 0) = Inr (b', n)
    \<and> unpackFatBinary_4 b' (Some 0) = Inr (Some (fat4_view f), Some n)"
proof -
  have n: "n = int (length (fat4_image f))" using assms(2) fat4_size [OF assms(1)] by simp
  have fits: "0 + nat n \<le> length b" using assms(3) by simp
  show ?thesis
    using fat4_codec.pack_fits [OF assms(1,2) fits] fat4_codec.unpack_pack [OF assms(1,2) fits] n
    by simp
qed

theorem fat_binary4_roundtrip_witness:
  "\<exists>b'. packFatBinary_4 demo_fat4 empty_cache (replicate 32 0) (Some 0) = Inr (b', 32)
    \<and> unpackFatBinary_4 b' (Some 0) = Inr (Some (fat4_view demo_fat4), Some 32)"
proof -
  have sz: "getFatRecPktSize_4 demo_fat4 = Inr (32, empty_cache)" by code_simp
  have w: "fat4_wf demo_fat4" by (simp add: fat4_wf_def demo_fat4_def str_wf_def cstr_def)
  show ?thesis by (rule fat_binary4_roundtrip [OF w sz]) simp
qed

section \<open>Registered functions and variables\<close>

text \<open>The arguments of \<open>__cudaRegisterFunction\<close>: \<open>packRegFuncArgs\<close> fills exactly
  the block it allocates, and \<open>unpackRegFuncArgs\<close> on the backend returns \<open>OK\<close> with the
  same handle, names, launch bounds and geometry, and with the address of the host function,
  the key of a later \<open>cudaLaunch\<close>.\<close>

theorem reg_func_roundtrip:
  assumes "reg_func_wf a" and "malloc_ok alloc" and "alloc (l_getSize_regFuncArgs a) \<noteq> None"
  shows "\<exists>pkt. packRegFuncArgs alloc a = Inr (Some pkt, l_getSize_regFuncArgs a)
    \<and> int (length pkt) = l_getSize_regFuncArgs a
    \<and> unpackRegFuncArgs pkt (Some 0) = Inr (Some (reg_func_view a), OK)"
  using pack_allocated_exact [OF assms(2) writes_reg_func [OF assms(1)] reg_func_size]
    status_of_reads [OF reads_reg_func [OF assms(1)]] assms(3)
  by (simp add: packRegFuncArgs_def unpackRegFuncArgs_def reg_func_size)

theorem reg_func_roundtrip_witness:
  "\<exists>pkt. packRegFuncArgs demo_malloc demo_fun = Inr (Some pkt, 93) \<and> int (length pkt) = 93
    \<and> unpackRegFuncArgs pkt (Some 0) = Inr (Some (reg_func_view demo_fun), OK)"
proof -
  have w: "reg_func_wf demo_fun"
    by (simp add: reg_func_wf_def demo_fun_def str_wf_def ptr_wf_def cstr_def)
  have sz: "l_getSize_regFuncArgs demo_fun = 93" by code_simp
  show ?thesis
    using reg_func_roundtrip [OF w demo_malloc_ok] sz by (simp add: demo_malloc_def)
qed

text \<open>The arguments of \<open>__cudaRegisterVar\<close> arrive unchanged, and the length of the
  packet is the announced one.\<close>

theorem reg_var_roundtrip:
  assumes "reg_var_wf a" and "malloc_ok alloc" and "alloc (l_getSize_regVar a) \<noteq> None"
  shows "\<exists>pkt. packRegVar alloc a = Inr (Some pkt, l_getSize_regVar a)
    \<and> int (length pkt) = l_getSize_regVar a
    \<and> unpackRegVar pkt (Some 0) = Inr (Some (reg_var_view a), OK)"
  using pack_allocated_exact [OF assms(2) writes_reg_var [OF assms(1)] reg_var_size]
    status_of_reads [OF reads_reg_var [OF assms(1)]] assms(3)
  by (simp add: packRegVar_def unpackRegVar_def reg_var_size)

theorem reg_var_roundtrip_witness:
  "\<exists>pkt. packRegVar demo_malloc demo_var = Inr (Some pkt, 42) \<and> int (length pkt) = 42
    \<and> unpackRegVar pkt (Some 0) = Inr (Some (reg_var_view demo_var), OK)"
proof -
  have w: "reg_var_wf demo_var" by (simp add: reg_var_wf_def demo_var_def str_wf_def cstr_def)
  have sz: "l_getSize_regVar demo_var = 42" by code_simp
  show ?thesis
    using reg_var_roundtrip [OF w demo_malloc_ok] sz by (simp add: demo_malloc_def)
qed

section \<open>Releasing\<close>

text \<open>Unregistering a fat binary: \<open>freeFatBinary\<close> on what \<open>unpackFatBinary\<close> built
  frees every block it owns exactly once (the two symbol tables are never freed), unless the
  binary has debug entries: then the block that frees them is executed twice, and the second
  time it reads the freed array.\<close>

theorem freeFatBinary_unpacked:
  "freeFatBinary (Some (FatCubin (fat_view f))) [] =
     (if takeWhile debug_ok (fat_debug f) = [] then Inr (rev (fat_blocks (fat_view f)), OK)
      else Inl UseAfterFree)"
proof -
  have "fat_debug (fat_view f) = [] \<longleftrightarrow> takeWhile debug_ok (fat_debug f) = []"
    by (simp add: fat_view_def debugs_view_def)
  then show ?thesis
    using freeFatBinary_frees [OF sentinels_view] freeFatBinary_twice [OF sentinels_view] by auto
qed

section \<open>Registries\<close>

text \<open>\<open>g_fcia_host_var\<close> finds a registered host variable whenever there is one: it
  returns a fat binary and a slot that hold it, of the last such fat binary in the array because
  the \<open>break\<close> leaves the inner loop only, and NULL with index -1 exactly when no slot in use
  holds it. No slot outside the arrays is read.\<close>

theorem g_fcia_host_var_finds:
  assumes "\<forall>p \<in> set ps. fci_wf p"
  shows "\<exists>fi idx. g_fcia_host_var (Some ps) hv = Inr (fi, idx) \<and>
    (if \<exists>p \<in> set ps. \<exists>m. holds_var p hv m
     then (\<exists>n m. fi = Some n \<and> idx = int m \<and> n < length ps \<and> holds_var (ps ! n) hv m
            \<and> (\<forall>n'. n < n' \<longrightarrow> n' < length ps \<longrightarrow> (\<forall>m'. \<not> holds_var (ps ! n') hv m')))
     else fi = None \<and> idx = -1)"
  using fcia_host_loop_spec [OF assms, of hv 0 "(None, -1)"]
  unfolding g_fcia_host_var_def option.case by (simp only: add_0 prod.inject)

definition demo_fci :: "u64 \<Rightarrow> fatcubin_info" where
  "demo_fci hv = fci_calloc\<lparr>fi_fatCubinHandle := 7, fi_num_reg_vars := 1,
     fi_variables := (replicate 10 None)[0 := Some (reg_var_view (demo_var\<lparr>rv_hostVar := hv\<rparr>))]\<rparr>"

theorem g_fcia_host_var_finds_witness:
  "\<exists>fi idx. g_fcia_host_var (Some [demo_fci 5, demo_fci 6]) 6 = Inr (fi, idx)
    \<and> (\<exists>n m. fi = Some n \<and> idx = int m \<and> n < 2 \<and> holds_var ([demo_fci 5, demo_fci 6] ! n) 6 m)"
proof -
  have w: "\<forall>p \<in> set [demo_fci 5, demo_fci 6]. fci_wf p"
    by (simp add: fci_wf_def demo_fci_def fci_calloc_def MAX_REGISTERED_VARS_def
        MAX_REGISTERED_FUNCS_def)
  have "holds_var (demo_fci 6) 6 0"
    by (simp add: holds_var_def slot_has_def demo_fci_def reg_var_view_def)
  then have "\<exists>p \<in> set [demo_fci 5, demo_fci 6]. \<exists>m. holds_var p 6 m" by auto
  from g_fcia_host_var_finds [OF w, of 6, unfolded if_P [OF this]]
  obtain fi idx n m where r: "g_fcia_host_var (Some [demo_fci 5, demo_fci 6]) 6 = Inr (fi, idx)"
    "fi = Some n" "idx = int m" "holds_var ([demo_fci 5, demo_fci 6] ! n) 6 m"
    and n: "n < length [demo_fci 5, demo_fci 6]"
    by (elim exE conjE)
  from n have "n < 2" by simp
  with r show ?thesis by (intro exI conjI)
qed

text \<open>A variable registered with \<open>__cudaRegisterVar\<close> is found by the symbol lookup of
  \<open>cudaMemcpyToSymbol\<close> under its address, whatever was registered before and after it,
  under whichever handles and in whichever order the hash table is searched; and a lookup that
  succeeds returns a registered variable.\<close>

theorem registered_variables_found:
  assumes "\<forall>(h, v) \<in> set rs. h \<noteq> 0 \<and> vv_deviceName v \<noteq> None"
    and "tab = foldl (\<lambda>t (h, v). fst (g_vars_insert t h (Some v))) [] rs"
  shows "((h, v) \<in> set rs \<longrightarrow>
      g_vars_find (Some tab) (Some (vv_hostVar v, bytes)) = Inr (vv_hostVar v))
    \<and> (g_vars_find (Some tab) (Some s) = Inr a \<longrightarrow> a \<noteq> 0 \<longrightarrow>
      (\<exists>(h, v) \<in> set rs. vv_hostVar v = a))"
proof -
  have inv: "vars_inv []" by (simp add: vars_inv_def named_def tab_vars_def)
  have tab: "tab = host_vars.register_all [] rs"
    using assms(2) by (simp add: host_vars.register_all_def)
  have c: "vars_inv tab" "set (tab_vars tab) = snd ` set rs"
    using host_vars.register_all_content [OF inv assms(1)] tab
    by (simp_all add: tab_vars_def)
  show ?thesis
  proof (intro conjI impI)
    show "g_vars_find (Some tab) (Some (vv_hostVar v, bytes)) = Inr (vv_hostVar v)"
      if "(h, v) \<in> set rs"
      unfolding tab by (rule host_vars.registered_found [OF inv assms(1) that]) simp
    show "\<exists>(h, v) \<in> set rs. vv_hostVar v = a"
      if "g_vars_find (Some tab) (Some s) = Inr a" "a \<noteq> 0"
      using host_vars.lookup_sound [OF c(1) that] c(2) by fastforce
  qed
qed

theorem registered_variables_found_witness:
  "g_vars_find (Some (fst (g_vars_insert (fst (g_vars_insert [] 9 (Some (g_vars_val_new 40 (Some [97])))))
     9 (Some (g_vars_val_new 48 (Some [98])))))) (Some (40, [])) = Inr 40"
  using registered_variables_found [of "[(9, g_vars_val_new 40 (Some [97])),
      (9, g_vars_val_new 48 (Some [98]))]" _ 9 "g_vars_val_new 40 (Some [97])" "[]"]
  by (simp add: g_vars_val_new_def)

end
