(* ===== verification/Cuda_Packet.thy ===== *)
theory Cuda_Packet
  imports Wire_Codec
begin

text \<open>
  The remote packets: method identifiers (include/method_id.h), \<open>cuda_packet_t\<close>
  (include/packetheader.h) with its memory image, the packet stream and its predicates, and the
  dispatch of the backend (remote/remote_packet.c).
\<close>

section \<open>Methods\<close>

text \<open>The names that start with two underscores in the source have none here.\<close>

datatype method_id =
    CUDA_MALLOC | CUDA_FREE | CUDA_MEMCPY_H2D | CUDA_MEMCPY_D2H | CUDA_MEMCPY_H2H
  | CUDA_MEMCPY_D2D | CUDA_SETUP_ARGUMENT | CUDA_LAUNCH | CUDA_GET_DEVICE_COUNT
  | CUDA_GET_DEVICE_PROPERTIES | CUDA_GET_DEVICE | CUDA_SET_DEVICE | CUDA_CONFIGURE_CALL
  | FE_BE_PIN_PAGES | CUDA_THREAD_SYNCHRONIZE | CUDA_THREAD_EXIT | CUDA_MEMSET
  | CUDA_UNBIND_TEXTURE | CUDA_BIND_TEXTURE_TO_ARRAY | CUDA_FREE_HOST
  | CUDA_MEMCPY_TO_SYMBOL | CUDA_MEMCPY_FROM_SYMBOL | CUDA_MALLOC_ARRAY | CUDA_FREE_ARRAY
  | CUDA_MEMCPY_TO_ARRAY_D2D | CUDA_MEMCPY_TO_ARRAY_H2D | CUDA_MEMCPY_TO_ARRAY_D2H
  | CUDA_MEMCPY_TO_ARRAY_H2H | CUDA_MEMCPY_2D_TO_ARRAY_D2D | CUDA_MEMCPY_2D_TO_ARRAY_H2D
  | CUDA_MEMCPY_2D_TO_ARRAY_D2H | CUDA_MEMCPY_2D_TO_ARRAY_H2H | CUDA_REGISTER_FAT_BINARY
  | CUDA_REGISTER_FUNCTION | CUDA_REGISTER_VARIABLE | CUDA_REGISTER_TEXTURE
  | CUDA_REGISTER_SHARED | CUDA_UNREGISTER_FAT_BINARY

text \<open>The enumeration starts at 1.\<close>

definition methods :: "method_id list" where
  "methods =
    [CUDA_MALLOC, CUDA_FREE, CUDA_MEMCPY_H2D, CUDA_MEMCPY_D2H, CUDA_MEMCPY_H2H,
     CUDA_MEMCPY_D2D, CUDA_SETUP_ARGUMENT, CUDA_LAUNCH, CUDA_GET_DEVICE_COUNT,
     CUDA_GET_DEVICE_PROPERTIES, CUDA_GET_DEVICE, CUDA_SET_DEVICE, CUDA_CONFIGURE_CALL,
     FE_BE_PIN_PAGES, CUDA_THREAD_SYNCHRONIZE, CUDA_THREAD_EXIT, CUDA_MEMSET,
     CUDA_UNBIND_TEXTURE, CUDA_BIND_TEXTURE_TO_ARRAY, CUDA_FREE_HOST,
     CUDA_MEMCPY_TO_SYMBOL, CUDA_MEMCPY_FROM_SYMBOL, CUDA_MALLOC_ARRAY, CUDA_FREE_ARRAY,
     CUDA_MEMCPY_TO_ARRAY_D2D, CUDA_MEMCPY_TO_ARRAY_H2D, CUDA_MEMCPY_TO_ARRAY_D2H,
     CUDA_MEMCPY_TO_ARRAY_H2H, CUDA_MEMCPY_2D_TO_ARRAY_D2D, CUDA_MEMCPY_2D_TO_ARRAY_H2D,
     CUDA_MEMCPY_2D_TO_ARRAY_D2H, CUDA_MEMCPY_2D_TO_ARRAY_H2H, CUDA_REGISTER_FAT_BINARY,
     CUDA_REGISTER_FUNCTION, CUDA_REGISTER_VARIABLE, CUDA_REGISTER_TEXTURE,
     CUDA_REGISTER_SHARED, CUDA_UNREGISTER_FAT_BINARY]"

fun method_index :: "method_id \<Rightarrow> method_id list \<Rightarrow> nat" where
  "method_index x [] = 0"
| "method_index x (y # ys) = (if x = y then 0 else Suc (method_index x ys))"

definition method_num :: "method_id \<Rightarrow> u16" where
  "method_num x = word_of_nat (Suc (method_index x methods))"

definition method_of :: "u16 \<Rightarrow> method_id option" where
  "method_of w = (if w = 0 \<or> unat w > length methods then None
                  else Some (methods ! (unat w - 1)))"

definition methodIdToString :: "int \<Rightarrow> string option" where
  "methodIdToString n = (if 0 \<le> n \<and> n < 2 ^ 16 then
     (case method_of (word_of_int n) of
        Some CUDA_MALLOC \<Rightarrow> Some ''cudaMalloc''
      | Some CUDA_FREE \<Rightarrow> Some ''cudaFree''
      | Some CUDA_MEMCPY_H2D \<Rightarrow> Some ''cudaMemcpyH2D''
      | Some CUDA_MEMCPY_D2H \<Rightarrow> Some ''cudaMemcpyD2H''
      | Some CUDA_MEMCPY_H2H \<Rightarrow> Some ''cudaMemcpyH2H''
      | Some CUDA_MEMCPY_D2D \<Rightarrow> Some ''cudaMemcpyD2D''
      | Some CUDA_SETUP_ARGUMENT \<Rightarrow> Some ''cudaSetupArgument''
      | Some CUDA_LAUNCH \<Rightarrow> Some ''cudaLaunch''
      | Some CUDA_GET_DEVICE_COUNT \<Rightarrow> Some ''cudaGetDeviceCount''
      | Some CUDA_GET_DEVICE_PROPERTIES \<Rightarrow> Some ''cudaGetDeviceProperties''
      | Some CUDA_GET_DEVICE \<Rightarrow> Some ''cudaGetDevice''
      | Some CUDA_SET_DEVICE \<Rightarrow> Some ''cudaSetDevice''
      | Some CUDA_CONFIGURE_CALL \<Rightarrow> Some ''cudaConfigureCall''
      | Some FE_BE_PIN_PAGES \<Rightarrow> Some ''feBePinPages''
      | Some CUDA_THREAD_SYNCHRONIZE \<Rightarrow> Some ''cudaThreadSynchronize''
      | Some CUDA_THREAD_EXIT \<Rightarrow> Some ''cudaThreadExit''
      | Some CUDA_MEMSET \<Rightarrow> Some ''cudaMemset''
      | Some CUDA_UNBIND_TEXTURE \<Rightarrow> Some ''cudaUnbindTexture''
      | Some CUDA_BIND_TEXTURE_TO_ARRAY \<Rightarrow> Some ''cudaBindTextureToArray''
      | Some CUDA_FREE_HOST \<Rightarrow> Some ''cudaFreeHost''
      | Some CUDA_MEMCPY_TO_SYMBOL \<Rightarrow> Some ''cudaMemcpyToSymbol''
      | Some CUDA_MEMCPY_FROM_SYMBOL \<Rightarrow> Some ''cudaMemcpyFromSymbol''
      | Some CUDA_MALLOC_ARRAY \<Rightarrow> Some ''cudaMallocArray''
      | Some CUDA_FREE_ARRAY \<Rightarrow> Some ''cudaFreeArray''
      | Some CUDA_MEMCPY_TO_ARRAY_D2D \<Rightarrow> Some ''cudaMemcpyToArrayD2D''
      | Some CUDA_MEMCPY_TO_ARRAY_H2D \<Rightarrow> Some ''cudaMemcpyToArrayH2D''
      | Some CUDA_MEMCPY_TO_ARRAY_D2H \<Rightarrow> Some ''cudaMemcpyToArrayD2H''
      | Some CUDA_MEMCPY_TO_ARRAY_H2H \<Rightarrow> Some ''cudaMemcpyToArrayH2H''
      | Some CUDA_REGISTER_FAT_BINARY \<Rightarrow> Some ''__cudaRegisterFatBinary''
      | Some CUDA_REGISTER_FUNCTION \<Rightarrow> Some ''__cudaRegisterFunction''
      | Some CUDA_REGISTER_VARIABLE \<Rightarrow> Some ''__cudaRegisterVariable''
      | Some CUDA_REGISTER_TEXTURE \<Rightarrow> Some ''__cudaRegisterTexture''
      | Some CUDA_REGISTER_SHARED \<Rightarrow> Some ''__cudaRegisterShared''
      | Some CUDA_UNREGISTER_FAT_BINARY \<Rightarrow> Some ''__cudaUnregisterFatBinary''
      | _ \<Rightarrow> None) else None)"

lemma method_index_nth:
  "x \<in> set xs \<Longrightarrow> method_index x xs < length xs \<and> xs ! method_index x xs = x"
  by (induction xs) auto

lemma in_methods: "x \<in> set methods"
  by (cases x) (simp_all add: methods_def)

lemma length_methods: "length methods = 38"
  by (simp add: methods_def)

lemma method_of_num [simp]: "method_of (method_num x) = Some x"
proof -
  let ?i = "method_index x methods"
  have i: "?i < 38" "methods ! ?i = x"
    using method_index_nth [OF in_methods [of x]] by (simp_all add: length_methods)
  then have u: "unat (method_num x) = Suc ?i"
    by (simp add: method_num_def unat_of_nat del: of_nat_Suc)
  then have "method_num x \<noteq> 0" by (metis nat.distinct(1) unsigned_0)
  with i u show ?thesis by (simp add: method_of_def length_methods)
qed

lemma method_num_inj: "method_num x = method_num y \<longleftrightarrow> x = y"
  by (metis method_of_num option.inject)

lemma method_index_of_nth: "distinct xs \<Longrightarrow> k < length xs \<Longrightarrow> method_index (xs ! k) xs = k"
proof (induction xs arbitrary: k)
  case (Cons x xs)
  then show ?case by (cases k) (auto simp: nth_mem)
qed simp

lemma method_of_iff: "method_of w = Some x \<longleftrightarrow> w = method_num x"
proof
  assume m: "method_of w = Some x"
  then have w: "w \<noteq> 0" "unat w \<le> length methods" "x = methods ! (unat w - 1)"
    by (auto simp: method_of_def split: if_splits)
  have "distinct methods" by (simp add: methods_def)
  moreover have "0 < unat w" using w(1) by (simp add: unat_gt_0)
  ultimately have "Suc (method_index x methods) = unat w"
    using method_index_of_nth [of methods "unat w - 1"] w(2,3) by simp
  then show "w = method_num x" by (simp add: method_num_def)
qed simp

section \<open>Packets\<close>

text \<open>
  \<open>args_t\<close> is a union of 16 bytes and \<open>ret_extra_t\<close> one of 8: their members are views of
  the same bits. The floats are kept as their bit patterns.
\<close>

record args =
  arg_lo :: u64
  arg_hi :: u64

record timeval_img =
  tvi_sec :: u64
  tvi_usec :: u64

record cuda_packet =
  pk_method_id :: u16
  pk_req_id :: u16
  pk_thr_id :: u64
  pk_flags :: byte
  pk_arg0 :: args
  pk_arg1 :: args
  pk_arg2 :: args
  pk_arg3 :: args
  pk_ret_ex_val :: u64
  pk_signo :: u32
  pk_is_feedback_packet :: u32
  pk_node :: u32
  pk_devid :: u32
  pk_app_type :: u32
  pk_total_ex_time :: u32
  pk_sys_time :: u32
  pk_usr_time :: u32
  pk_cuda_kernel_launches :: u64
  pk_kernel_time :: timeval_img
  pk_non_kernel_time :: timeval_img
  pk_vmmap :: u64
  pk_kmap :: u64

abbreviation zero_args :: args where
  "zero_args \<equiv> \<lparr>arg_lo = 0, arg_hi = 0\<rparr>"

text \<open>\<open>callocCudaPacket\<close>: every field 0, or NULL and \<open>cudaErrorMemoryAllocation\<close>.\<close>

definition zero_packet :: cuda_packet where
  "zero_packet = \<lparr>pk_method_id = 0, pk_req_id = 0, pk_thr_id = 0, pk_flags = 0,
     pk_arg0 = zero_args, pk_arg1 = zero_args, pk_arg2 = zero_args, pk_arg3 = zero_args,
     pk_ret_ex_val = 0, pk_signo = 0, pk_is_feedback_packet = 0, pk_node = 0, pk_devid = 0,
     pk_app_type = 0, pk_total_ex_time = 0, pk_sys_time = 0, pk_usr_time = 0,
     pk_cuda_kernel_launches = 0, pk_kernel_time = \<lparr>tvi_sec = 0, tvi_usec = 0\<rparr>,
     pk_non_kernel_time = \<lparr>tvi_sec = 0, tvi_usec = 0\<rparr>, pk_vmmap = 0, pk_kmap = 0\<rparr>"

text \<open>The CUDA error codes the code compares with or sets (driver_types.h).\<close>

definition cudaSuccess :: u32 where "cudaSuccess = 0"

definition cudaErrorMemoryAllocation :: u32 where "cudaErrorMemoryAllocation = 2"

definition cudaErrorInvalidDevice :: u32 where "cudaErrorInvalidDevice = 10"

definition cudaErrorInvalidValue :: u32 where "cudaErrorInvalidValue = 11"

definition cudaErrorInvalidSymbol :: u32 where "cudaErrorInvalidSymbol = 13"

definition cudaErrorInvalidMemcpyDirection :: u32 where "cudaErrorInvalidMemcpyDirection = 21"

definition callocCudaPacket :: "bool \<Rightarrow> u32 \<Rightarrow> cuda_packet option \<times> u32" where
  "callocCudaPacket ok err =
     (if ok then (Some zero_packet, err) else (None, cudaErrorMemoryAllocation))"

text \<open>Flags (include/packetheader.h).\<close>

definition CUDA_response :: byte where "CUDA_response = 0x1"

definition CUDA_request :: byte where "CUDA_request = 0x2"

definition CUDA_error :: byte where "CUDA_error = 0x8"

definition CUDA_Copytype :: byte where "CUDA_Copytype = 0x10"

definition CUDA_Addrshared :: byte where "CUDA_Addrshared = 0x40"

text \<open>The 4-byte member \<open>err\<close> of the union \<open>ret_ex_val\<close>.\<close>

definition pkt_err :: "cuda_packet \<Rightarrow> u32" where
  "pkt_err p = ucast (pk_ret_ex_val p)"

definition set_err :: "u32 \<Rightarrow> cuda_packet \<Rightarrow> cuda_packet" where
  "set_err e p = p\<lparr>pk_ret_ex_val := or (push_bit 32 (drop_bit 32 (pk_ret_ex_val p))) (ucast e)\<rparr>"

text \<open>Views of \<open>args_t\<close>.\<close>

definition argi :: "args \<Rightarrow> int" where
  "argi a = sint (arg_lo a)"

definition set_argi :: "int \<Rightarrow> args \<Rightarrow> args" where
  "set_argi i a = a\<lparr>arg_lo := word_of_int i\<rparr>"

definition set_argp :: "u64 \<Rightarrow> args \<Rightarrow> args" where
  "set_argp v a = a\<lparr>arg_lo := v\<rparr>"

text \<open>\<open>arg_dim\<close>: x and y in the low word, z in the low half of the high word.\<close>

definition arg_dim :: "args \<Rightarrow> u32 \<times> u32 \<times> u32" where
  "arg_dim a = (ucast (arg_lo a), ucast (drop_bit 32 (arg_lo a)), ucast (arg_hi a))"

definition set_arg_dim :: "u32 \<times> u32 \<times> u32 \<Rightarrow> args \<Rightarrow> args" where
  "set_arg_dim d a = (case d of (x, y, z) \<Rightarrow>
     a\<lparr>arg_lo := or (push_bit 32 (ucast y)) (ucast x),
       arg_hi := or (push_bit 32 (drop_bit 32 (arg_hi a))) (ucast z)\<rparr>)"

lemma ucast_lo_or [simp]: "ucast (or (push_bit 32 (x :: u64)) (ucast (e :: u32))) = e"
  by (rule bit_word_eqI) (auto simp: bit_simps)

lemma ucast_hi_or [simp]:
  "ucast (or (drop_bit 32 (push_bit 32 (ucast (y :: u32) :: u64)))
     (drop_bit 32 (ucast (x :: u32)))) = y"
  by (rule bit_word_eqI) (auto simp: bit_simps dest: bit_imp_le_length)

lemma pkt_err_set_err [simp]: "pkt_err (set_err e p) = e"
  by (simp add: pkt_err_def set_err_def)

lemma arg_dim_set [simp]: "arg_dim (set_arg_dim d a) = d"
  by (cases d) (simp add: arg_dim_def set_arg_dim_def)

subsection \<open>Memory image\<close>

text \<open>
  Packets are sent as the 184 bytes of the structure on x86-64. The padding after
  \<open>req_id\<close> and \<open>flags\<close> is 0 in a packet from \<open>callocCudaPacket\<close>; readers ignore it.
\<close>

definition le16 :: "u16 \<Rightarrow> byte list" where
  "le16 w = le_enc 2 (unat w)"

definition read_u16 :: "u16 unpacker" where
  "read_u16 b c = bindr (memcpy_from 2 b c) (\<lambda>(s, off). Inr (word_of_nat (le_dec s), off))"

definition read_u8 :: "byte unpacker" where
  "read_u8 b c = bindr (memcpy_from 1 b c) (\<lambda>(s, off). Inr (s ! 0, off))"

definition skip_bytes :: "nat \<Rightarrow> unit unpacker" where
  "skip_bytes n b c = bindr (memcpy_from n b c) (\<lambda>(s, off). Inr ((), off))"

definition args_image :: "args \<Rightarrow> byte list" where
  "args_image a = le64 (arg_lo a) @ le64 (arg_hi a)"

definition read_args :: "args unpacker" where
  "read_args = then_read read_u64 (\<lambda>lo. then_read read_u64 (\<lambda>hi.
     read_ret \<lparr>arg_lo = lo, arg_hi = hi\<rparr>))"

definition timeval_image :: "timeval_img \<Rightarrow> byte list" where
  "timeval_image t = le64 (tvi_sec t) @ le64 (tvi_usec t)"

definition read_timeval :: "timeval_img unpacker" where
  "read_timeval = then_read read_u64 (\<lambda>s. then_read read_u64 (\<lambda>u.
     read_ret \<lparr>tvi_sec = s, tvi_usec = u\<rparr>))"

definition packet_image :: "cuda_packet \<Rightarrow> byte list" where
  "packet_image p = le16 (pk_method_id p) @ le16 (pk_req_id p) @ [0, 0, 0, 0]
     @ le64 (pk_thr_id p) @ [pk_flags p] @ [0, 0, 0, 0, 0, 0, 0]
     @ args_image (pk_arg0 p) @ args_image (pk_arg1 p) @ args_image (pk_arg2 p)
     @ args_image (pk_arg3 p) @ le64 (pk_ret_ex_val p) @ le32 (pk_signo p)
     @ le32 (pk_is_feedback_packet p) @ le32 (pk_node p) @ le32 (pk_devid p)
     @ le32 (pk_app_type p) @ le32 (pk_total_ex_time p) @ le32 (pk_sys_time p)
     @ le32 (pk_usr_time p) @ le64 (pk_cuda_kernel_launches p)
     @ timeval_image (pk_kernel_time p) @ timeval_image (pk_non_kernel_time p)
     @ le64 (pk_vmmap p) @ le64 (pk_kmap p)"

definition read_packet :: "cuda_packet unpacker" where
  "read_packet =
     then_read read_u16 (\<lambda>me. then_read read_u16 (\<lambda>rq. then_read (skip_bytes 4) (\<lambda>_.
     then_read read_u64 (\<lambda>th. then_read read_u8 (\<lambda>fl. then_read (skip_bytes 7) (\<lambda>_.
     then_read read_args (\<lambda>a0. then_read read_args (\<lambda>a1. then_read read_args (\<lambda>a2.
     then_read read_args (\<lambda>a3. then_read read_u64 (\<lambda>ret. then_read read_u32 (\<lambda>sg.
     then_read read_u32 (\<lambda>fb. then_read read_u32 (\<lambda>nd. then_read read_u32 (\<lambda>dv.
     then_read read_u32 (\<lambda>ap. then_read read_u32 (\<lambda>tt. then_read read_u32 (\<lambda>st.
     then_read read_u32 (\<lambda>ut. then_read read_u64 (\<lambda>kl. then_read read_timeval (\<lambda>kt.
     then_read read_timeval (\<lambda>nt. then_read read_u64 (\<lambda>vm. then_read read_u64 (\<lambda>km.
     read_ret \<lparr>pk_method_id = me, pk_req_id = rq, pk_thr_id = th, pk_flags = fl, pk_arg0 = a0,
       pk_arg1 = a1, pk_arg2 = a2, pk_arg3 = a3, pk_ret_ex_val = ret, pk_signo = sg,
       pk_is_feedback_packet = fb, pk_node = nd, pk_devid = dv, pk_app_type = ap,
       pk_total_ex_time = tt, pk_sys_time = st, pk_usr_time = ut,
       pk_cuda_kernel_launches = kl, pk_kernel_time = kt, pk_non_kernel_time = nt,
       pk_vmmap = vm, pk_kmap = km\<rparr>))))))))))))))))))))))))"

definition sizeof_packet :: nat where "sizeof_packet = 184"

lemma length_packet_image [simp]: "length (packet_image p) = sizeof_packet"
  by (simp add: packet_image_def args_image_def timeval_image_def le16_def sizeof_packet_def)

lemma reads_u16: "reads read_u16 (le16 w) w"
proof -
  have "unat w < 256 ^ 2" using unsigned_less [of w] by simp
  then show ?thesis
    by (auto simp: reads_def read_u16_def holds_at_def memcpy_from_def le16_def le_dec_enc)
qed

lemma reads_u8: "reads read_u8 [x] x"
  by (auto simp: reads_def read_u8_def holds_at_def memcpy_from_def)

lemma reads_skip: "length s = n \<Longrightarrow> reads (skip_bytes n) s ()"
  by (auto simp: reads_def skip_bytes_def holds_at_def memcpy_from_def)

lemma reads_args: "reads read_args (args_image a) a"
  unfolding read_args_def args_image_def
  by (intro reads_then_read [OF reads_u64] reads_then_ret [OF reads_u64]) simp

lemma reads_timeval: "reads read_timeval (timeval_image a) a"
  unfolding read_timeval_def timeval_image_def
  by (intro reads_then_read [OF reads_u64] reads_then_ret [OF reads_u64]) simp

lemma reads_packet: "reads read_packet (packet_image p) p"
  unfolding read_packet_def packet_image_def
  by (intro reads_then_read [OF reads_u16] reads_then_read [OF reads_skip]
      reads_then_read [OF reads_u64] reads_then_read [OF reads_u8]
      reads_then_read [OF reads_args] reads_then_read [OF reads_u32]
      reads_then_read [OF reads_timeval] reads_then_ret [OF reads_u64]) simp_all

text \<open>The packet that lies at the start of the bytes.\<close>

definition packet_of_bytes :: "byte list \<Rightarrow> cuda_packet option" where
  "packet_of_bytes s = (case read_packet s (Some 0) of Inl _ \<Rightarrow> None | Inr (p, _) \<Rightarrow> Some p)"

lemma packet_of_image [simp]: "packet_of_bytes (packet_image p @ s) = Some p"
proof -
  have "holds_at (packet_image p @ s) 0 (packet_image p)" by (simp add: holds_at_def)
  then show ?thesis
    using reads_packet [of p] by (simp add: packet_of_bytes_def reads_def)
qed

interpretation packet_codec: wire_codec
  "\<lambda>p. Inr (int sizeof_packet, ())" "\<lambda>p _. memcpy_to (packet_image p)" packet_image
  "\<lambda>_. True" read_packet "\<lambda>p. p"
  by unfold_locales (auto intro: writes_memcpy reads_packet)

section \<open>The packet stream\<close>

definition MAX_REMOTE_BATCH_SIZE :: nat where "MAX_REMOTE_BATCH_SIZE = 1024"

record strm =
  st_batch_size :: u32
  st_num_cuda_pkts :: u32
  st_data_size :: u32
  st_rpkts :: "cuda_packet list"

definition strm_full :: "strm option \<Rightarrow> int" where
  "strm_full strm = (case strm of None \<Rightarrow> -1
     | Some s \<Rightarrow> if st_batch_size s \<le> st_num_cuda_pkts s then 1 else 0)"

definition sync_methods :: "method_id list" where
  "sync_methods =
    [CUDA_REGISTER_FAT_BINARY, CUDA_REGISTER_FUNCTION, CUDA_REGISTER_SHARED,
     CUDA_REGISTER_TEXTURE, CUDA_REGISTER_VARIABLE, CUDA_BIND_TEXTURE_TO_ARRAY,
     CUDA_UNBIND_TEXTURE, CUDA_MALLOC, CUDA_MALLOC_ARRAY, CUDA_MEMCPY_H2H, CUDA_MEMCPY_H2D,
     CUDA_MEMCPY_D2H, CUDA_MEMCPY_D2D, CUDA_MEMCPY_TO_ARRAY_H2H, CUDA_MEMCPY_TO_ARRAY_H2D,
     CUDA_MEMCPY_TO_ARRAY_D2H, CUDA_MEMCPY_TO_ARRAY_D2D, CUDA_MEMCPY_TO_SYMBOL,
     CUDA_MEMCPY_FROM_SYMBOL, CUDA_MEMCPY_2D_TO_ARRAY_H2H, CUDA_MEMCPY_2D_TO_ARRAY_H2D,
     CUDA_MEMCPY_2D_TO_ARRAY_D2H, CUDA_MEMCPY_2D_TO_ARRAY_D2D, CUDA_GET_DEVICE_COUNT,
     CUDA_GET_DEVICE_PROPERTIES, CUDA_GET_DEVICE, CUDA_THREAD_SYNCHRONIZE]"

definition method_expects_response :: "u16 \<Rightarrow> bool" where
  "method_expects_response w \<longleftrightarrow>
     (case method_of w of None \<Rightarrow> False | Some x \<Rightarrow> x \<in> set sync_methods)"

text \<open>\<open>rpkts[n-1]\<close> with \<open>n\<close> an \<open>int\<close>.\<close>

definition strm_expects_response :: "strm \<Rightarrow> int cres" where
  "strm_expects_response s =
     bindr (nthri (st_rpkts s) (sint (st_num_cuda_pkts s) - 1)) (\<lambda>p.
       Inr (if method_expects_response (pk_method_id p) then 1 else 0))"

definition strm_flush_needed :: "strm option \<Rightarrow> int cres" where
  "strm_flush_needed strm = (case strm of None \<Rightarrow> Inr (-1) | Some s \<Rightarrow>
     if strm_full strm \<noteq> 0 then Inr 1
     else bindr (strm_expects_response s) (\<lambda>r. Inr (if r \<noteq> 0 then 1 else 0)))"

lemma strm_expects_response_single:
  "st_num_cuda_pkts s = 1 \<Longrightarrow> st_rpkts s = p # ps \<Longrightarrow>
   strm_expects_response s = Inr (if method_expects_response (pk_method_id p) then 1 else 0)"
  by (simp add: strm_expects_response_def nthri_def)

section \<open>Dispatch\<close>

datatype handler =
    H_Malloc | H_GetDeviceCount | H_GetDeviceProperties | H_GetDevice | H_SetDevice | H_Free
  | H_SetupArgument | H_ConfigureCall | H_Launch | H_Memcpy | H_MemcpyToSymbol
  | H_MemcpyFromSymbol | H_ThreadSynchronize | H_ThreadExit | H_RegisterFatBinary2
  | H_RegisterFunction | H_RegisterVar | H_UnregisterFatBinary

text \<open>The \<open>switch\<close> of \<open>pkt_execute\<close>.\<close>

definition pkt_handler :: "u16 \<Rightarrow> handler option" where
  "pkt_handler w = (case method_of w of
     Some CUDA_MALLOC \<Rightarrow> Some H_Malloc
   | Some CUDA_GET_DEVICE_COUNT \<Rightarrow> Some H_GetDeviceCount
   | Some CUDA_GET_DEVICE_PROPERTIES \<Rightarrow> Some H_GetDeviceProperties
   | Some CUDA_GET_DEVICE \<Rightarrow> Some H_GetDevice
   | Some CUDA_SET_DEVICE \<Rightarrow> Some H_SetDevice
   | Some CUDA_FREE \<Rightarrow> Some H_Free
   | Some CUDA_SETUP_ARGUMENT \<Rightarrow> Some H_SetupArgument
   | Some CUDA_CONFIGURE_CALL \<Rightarrow> Some H_ConfigureCall
   | Some CUDA_LAUNCH \<Rightarrow> Some H_Launch
   | Some CUDA_MEMCPY_H2H \<Rightarrow> Some H_Memcpy
   | Some CUDA_MEMCPY_H2D \<Rightarrow> Some H_Memcpy
   | Some CUDA_MEMCPY_D2H \<Rightarrow> Some H_Memcpy
   | Some CUDA_MEMCPY_D2D \<Rightarrow> Some H_Memcpy
   | Some CUDA_MEMCPY_TO_SYMBOL \<Rightarrow> Some H_MemcpyToSymbol
   | Some CUDA_MEMCPY_FROM_SYMBOL \<Rightarrow> Some H_MemcpyFromSymbol
   | Some CUDA_THREAD_SYNCHRONIZE \<Rightarrow> Some H_ThreadSynchronize
   | Some CUDA_THREAD_EXIT \<Rightarrow> Some H_ThreadExit
   | Some CUDA_REGISTER_FAT_BINARY \<Rightarrow> Some H_RegisterFatBinary2
   | Some CUDA_REGISTER_FUNCTION \<Rightarrow> Some H_RegisterFunction
   | Some CUDA_REGISTER_VARIABLE \<Rightarrow> Some H_RegisterVar
   | Some CUDA_UNREGISTER_FAT_BINARY \<Rightarrow> Some H_UnregisterFatBinary
   | _ \<Rightarrow> None)"

text \<open>\<open>srv\<close> gives the handlers; they work on the packet and on the state of the backend.\<close>

definition pkt_execute :: "(handler \<Rightarrow> cuda_packet \<Rightarrow> 's \<Rightarrow> (cuda_packet \<times> 's) cres)
    \<Rightarrow> cuda_packet \<Rightarrow> 's \<Rightarrow> (cuda_packet \<times> 's) cres" where
  "pkt_execute srv p st = (case pkt_handler (pk_method_id p) of
     Some h \<Rightarrow> srv h p st
   | None \<Rightarrow> Inr (set_err cudaErrorInvalidValue (p\<lparr>pk_flags := CUDA_error\<rparr>), st))"

text \<open>\<open>for (i = 0; i < num_cuda_pkts; i++)\<close>, with \<open>k\<close> packets left.\<close>

primrec strm_execute_loop :: "(handler \<Rightarrow> cuda_packet \<Rightarrow> 's \<Rightarrow> (cuda_packet \<times> 's) cres)
    \<Rightarrow> nat \<Rightarrow> nat \<Rightarrow> cuda_packet list \<Rightarrow> 's \<Rightarrow> (cuda_packet list \<times> 's) cres" where
  "strm_execute_loop srv 0 i ps st = Inr (ps, st)"
| "strm_execute_loop srv (Suc k) i ps st =
     bindr (nthr ps i) (\<lambda>p. bindr (pkt_execute srv p st) (\<lambda>(p', st').
       strm_execute_loop srv k (i + 1) (ps[i := p']) st'))"

definition strm_execute :: "(handler \<Rightarrow> cuda_packet \<Rightarrow> 's \<Rightarrow> (cuda_packet \<times> 's) cres)
    \<Rightarrow> strm option \<Rightarrow> 's \<Rightarrow> (strm option \<times> 's) cres" where
  "strm_execute srv strm st = (case strm of None \<Rightarrow> Inr (None, st) | Some s \<Rightarrow>
     bindr (strm_execute_loop srv (nat (sint (st_num_cuda_pkts s))) 0 (st_rpkts s) st)
       (\<lambda>(ps, st'). Inr (Some (s\<lparr>st_rpkts := ps\<rparr>), st')))"

lemma strm_execute_single:
  assumes "st_num_cuda_pkts s = 1" and "st_rpkts s = p # ps"
    and "pkt_execute srv p st = Inr (p', st')"
  shows "strm_execute srv (Some s) st = Inr (Some (s\<lparr>st_rpkts := p' # ps\<rparr>), st')"
  using assms by (simp add: strm_execute_def)

end
