(* ===== verification/Net_Conn.thy ===== *)
theory Net_Conn
  imports Cuda_Packet
begin

text \<open>
  The connections of remote/connection.c: set-up and tear-down, \<open>put\<close> and \<open>get\<close>, and the
  header of a batch. The socket calls of the operating system are parameters: what each
  returned, and for \<open>send\<close> and \<open>recv\<close> how many bytes each call took.
\<close>

section \<open>Connections\<close>

record connection =
  cn_valid :: int
  cn_address :: "byte list option"
  cn_address_len :: nat
  cn_address_family :: int
  cn_socket :: int
  cn_socktype :: int
  cn_protocol :: int

text \<open>What \<open>getaddrinfo\<close> gives: the first result.\<close>

record addrinfo =
  ai_family :: int
  ai_socktype :: int
  ai_protocol :: int
  ai_addr :: "byte list"

text \<open>The ports: \<open>flag\<close> selects the one of the scheduler.\<close>

definition admission_port :: "int \<Rightarrow> string" where
  "admission_port flag = (if flag \<noteq> 0 then ''1025'' else ''1024'')"

text \<open>The results of the system calls of one \<open>conn_connect\<close>, for the port asked for.\<close>

record connect_env =
  ce_getaddrinfo :: "string \<Rightarrow> int"
  ce_results :: "addrinfo option"
  ce_calloc_ok :: bool
  ce_socket :: int
  ce_connect :: int

text \<open>
  The label \<open>client_connect_error\<close>: the socket of the structure is closed unless it is -1.
  The last component of the results lists the descriptors that were closed.
\<close>

definition connect_error :: "connection \<Rightarrow> int \<times> connection \<times> int list" where
  "connect_error c = (-1, c\<lparr>cn_socket := -1\<rparr>,
     if cn_socket c \<noteq> -1 then [cn_socket c] else [])"

definition conn_connect ::
  "connection option \<Rightarrow> string option \<Rightarrow> int \<Rightarrow> connect_env \<Rightarrow> int \<times> connection option \<times> int list" where
  "conn_connect conn host flag e = (case conn of None \<Rightarrow> (-1, None, []) | Some c \<Rightarrow>
     if host = None then (-1, Some c, []) else
     let err = (\<lambda>c. case connect_error c of (r, c', cl) \<Rightarrow> (r, Some c', cl)) in
     if ce_getaddrinfo e (admission_port flag) \<noteq> 0 then err c else
     (case ce_results e of None \<Rightarrow> err c | Some ai \<Rightarrow>
       let c1 = c\<lparr>cn_address_family := ai_family ai, cn_socktype := ai_socktype ai,
                 cn_protocol := ai_protocol ai, cn_address_len := length (ai_addr ai),
                 cn_address := None\<rparr> in
       if \<not> ce_calloc_ok e then (-1, Some c1, []) else
       let c2 = c1\<lparr>cn_address := Some (ai_addr ai), cn_socket := ce_socket e\<rparr> in
       if ce_socket e < 0 then err c2 else
       if ce_connect e \<noteq> 0 then err c2 else (0, Some c2, [])))"

definition conn_close :: "connection option \<Rightarrow> int \<times> connection option \<times> int list" where
  "conn_close conn = (case conn of None \<Rightarrow> (-1, None, []) | Some c \<Rightarrow>
     (0, Some (c\<lparr>cn_socket := -1, cn_address := None\<rparr>),
      if 0 < cn_socket c then [cn_socket c] else []))"

record bind_env =
  be_getaddrinfo :: "string \<Rightarrow> int"
  be_results :: addrinfo
  be_socket :: int
  be_setsockopt :: int
  be_bind :: int
  be_calloc_ok :: bool
  be_listen :: int

text \<open>
  After a failed \<open>bind\<close> the socket is closed there and once more at the error label. After a
  failed \<open>getaddrinfo\<close> the error label reads \<open>servaddrinfo\<close>, which was never set.
\<close>

definition conn_localbind ::
  "connection option \<Rightarrow> int \<Rightarrow> bind_env \<Rightarrow> (int \<times> connection option \<times> int list) cres" where
  "conn_localbind conn flag e = (case conn of None \<Rightarrow> Inr (-1, None, []) | Some c \<Rightarrow>
     let err = (\<lambda>c fd cl. Inr (-1, Some c, cl @ (if fd \<noteq> -1 then [fd] else []))) in
     if be_getaddrinfo e (admission_port flag) \<noteq> 0 then Inl Uninit else
     if be_socket e < 0 then err c (be_socket e) [] else
     if be_setsockopt e < 0 then err c (be_socket e) [] else
     if be_bind e < 0 then err c (be_socket e) [be_socket e] else
     let ai = be_results e;
         c1 = c\<lparr>cn_socket := be_socket e, cn_socktype := ai_socktype ai,
               cn_protocol := ai_protocol ai, cn_address_len := length (ai_addr ai),
               cn_address_family := ai_family ai, cn_address := None\<rparr> in
     if \<not> be_calloc_ok e then Inr (-1, Some c1, []) else
     let c2 = c1\<lparr>cn_address := Some (ai_addr ai)\<rparr> in
     if be_listen e < 0 then err c2 (be_socket e) [] else Inr (0, Some c2, []))"

text \<open>
  \<open>memset\<close> and \<open>accept\<close> are given the address of the pointer field: the 16 bytes cleared are
  the pointer, its length and the family. With length 0 nothing is stored there by
  \<open>accept\<close>, which sets the length to that of the peer's address.
\<close>

definition conn_accept ::
  "connection option \<Rightarrow> connection option \<Rightarrow> int \<Rightarrow> nat \<Rightarrow> int \<times> connection option" where
  "conn_accept lconn nconn fd alen = (case nconn of None \<Rightarrow> (-1, None) | Some c \<Rightarrow>
     if lconn = None then (-1, Some c) else
     let c1 = c\<lparr>cn_address := None, cn_address_len := 0, cn_address_family := 0,
               cn_socket := fd\<rparr> in
     if fd = -1 then (-1, Some c1) else (0, Some (c1\<lparr>cn_address_len := alen\<rparr>)))"

section \<open>Transfer\<close>

definition PER_XFER_MAX :: int where "PER_XFER_MAX = 1024"

definition EINVAL :: int where "EINVAL = 22"

text \<open>
  The endpoint of a stream socket: the bytes sent so far, the bytes of the peer still to be
  received, and the number of calls made, by which the oracles for \<open>send\<close> and \<open>recv\<close>
  choose their result for a request of \<open>n\<close> bytes.
\<close>

record sock =
  sk_out :: "byte list"
  sk_in :: "byte list"
  sk_calls :: nat

type_synonym xfer = "nat \<Rightarrow> nat \<Rightarrow> int"

definition xfer_chunk :: "int \<Rightarrow> int" where
  "xfer_chunk remain = (if remain > PER_XFER_MAX then PER_XFER_MAX else remain)"

text \<open>The loop of \<open>put\<close>: \<open>msg\<close> is what lies at \<open>msg_ptr\<close>.\<close>

function put_loop :: "xfer \<Rightarrow> int \<Rightarrow> byte list \<Rightarrow> sock \<Rightarrow> (int \<times> sock) cres" where
  "put_loop sndf remain msg s = (if remain > 0 then
     let n = nat (xfer_chunk remain); r = sndf (sk_calls s) n in
     if length msg < n then Inl OutOfBounds
     else if r \<le> 0 then Inr (r, s\<lparr>sk_calls := sk_calls s + 1\<rparr>)
     else put_loop sndf (remain - r) (drop (nat r) msg)
            (s\<lparr>sk_calls := sk_calls s + 1, sk_out := sk_out s @ take (nat r) msg\<rparr>)
   else Inr (1, s))"
  by pat_completeness auto
termination by (relation "measure (\<lambda>(_, remain, _, _). nat remain)") auto

definition put :: "xfer \<Rightarrow> int option \<Rightarrow> byte list option \<Rightarrow> int \<Rightarrow> sock \<Rightarrow> (int \<times> sock) cres" where
  "put sndf socket msg len s = (case socket of None \<Rightarrow> Inr (- EINVAL, s) | Some fd \<Rightarrow>
     (case msg of None \<Rightarrow> Inr (- EINVAL, s) | Some m \<Rightarrow>
       if fd < 0 \<or> len < 0 then Inr (- EINVAL, s) else put_loop sndf len m s))"

text \<open>
  The loop of \<open>get\<close>: \<open>got\<close> is what was stored so far. At the end of the peer's stream
  \<open>recv\<close> returns 0.
\<close>

function get_loop :: "xfer \<Rightarrow> int \<Rightarrow> byte list \<Rightarrow> sock \<Rightarrow> (int \<times> byte list \<times> sock)" where
  "get_loop rcv remain got s = (if remain > 0 then
     let n = nat (xfer_chunk remain); r = rcv (sk_calls s) n;
         r' = (if r \<le> 0 then r else min r (int (length (sk_in s)))) in
     if r' \<le> 0 then (r', got, s\<lparr>sk_calls := sk_calls s + 1\<rparr>)
     else get_loop rcv (remain - r') (got @ take (nat r') (sk_in s))
            (s\<lparr>sk_calls := sk_calls s + 1, sk_in := drop (nat r') (sk_in s)\<rparr>)
   else (1, got, s))"
  by pat_completeness auto
termination by (relation "measure (\<lambda>(_, remain, _, _). nat remain)") auto

definition get :: "xfer \<Rightarrow> int option \<Rightarrow> bool \<Rightarrow> int \<Rightarrow> sock \<Rightarrow> int \<times> byte list \<times> sock" where
  "get rcv socket msg_ok len s = (case socket of None \<Rightarrow> (- EINVAL, [], s) | Some fd \<Rightarrow>
     if fd < 0 \<or> \<not> msg_ok \<or> len < 0 then (- EINVAL, [], s) else get_loop rcv len [] s)"

declare put_loop.simps [simp del] get_loop.simps [simp del]

subsection \<open>Any segmentation delivers the same bytes\<close>

text \<open>
  \<open>send\<close> and \<open>recv\<close> on a blocking stream socket that does not fail: each call transfers at
  least one and at most the requested number of bytes.
\<close>

definition xfer_ok :: "xfer \<Rightarrow> bool" where
  "xfer_ok f \<longleftrightarrow> (\<forall>k n. 0 < n \<longrightarrow> 1 \<le> f k n \<and> f k n \<le> int n)"

lemma xfer_okD: "xfer_ok f \<Longrightarrow> 0 < n \<Longrightarrow> 1 \<le> f k n \<and> f k n \<le> int n"
  by (simp add: xfer_ok_def)

lemma xfer_chunk_bounds: "0 < r \<Longrightarrow> 0 < xfer_chunk r \<and> xfer_chunk r \<le> r"
  by (auto simp: xfer_chunk_def PER_XFER_MAX_def)

lemma put_loop_delivers:
  assumes "xfer_ok sndf" and "remain \<le> int (length msg)"
  shows "\<exists>k. put_loop sndf remain msg s = Inr (1, s\<lparr>sk_out := sk_out s @ take (nat remain) msg,
    sk_calls := k\<rparr>)"
  using assms
proof (induction sndf remain msg s rule: put_loop.induct)
  case (1 sndf remain msg s)
  show ?case
  proof (cases "remain > 0")
    case False
    then show ?thesis by (subst put_loop.simps) (auto intro: exI [of _ "sk_calls s"])
  next
    case True
    let ?n = "nat (xfer_chunk remain)"
    let ?r = "sndf (sk_calls s) ?n"
    have n: "0 < ?n" "int ?n \<le> remain" using xfer_chunk_bounds [OF True] by auto
    have r: "1 \<le> ?r" "?r \<le> int ?n" using xfer_okD [OF 1(2) n(1)] by auto
    have len: "\<not> length msg < ?n" using n(2) 1(3) by linarith
    let ?s = "s\<lparr>sk_calls := sk_calls s + 1, sk_out := sk_out s @ take (nat ?r) msg\<rparr>"
    have step: "put_loop sndf remain msg s = put_loop sndf (remain - ?r) (drop (nat ?r) msg) ?s"
      using True r len by (subst put_loop.simps) (simp add: Let_def)
    obtain k where k: "put_loop sndf (remain - ?r) (drop (nat ?r) msg) ?s = Inr (1, ?s
        \<lparr>sk_out := sk_out ?s @ take (nat (remain - ?r)) (drop (nat ?r) msg), sk_calls := k\<rparr>)"
      using 1(1) [OF True refl refl len] r 1(2,3) n by auto
    have "nat remain = nat ?r + nat (remain - ?r)" using r n by linarith
    then have "take (nat remain) msg = take (nat ?r) msg @ take (nat (remain - ?r)) (drop (nat ?r) msg)"
      by (simp add: take_add)
    then show ?thesis using step k by auto
  qed
qed

lemma get_loop_receives:
  assumes "xfer_ok rcv" and "remain \<le> int (length (sk_in s))"
  shows "\<exists>k. get_loop rcv remain got s = (1, got @ take (nat remain) (sk_in s),
    s\<lparr>sk_in := drop (nat remain) (sk_in s), sk_calls := k\<rparr>)"
  using assms
proof (induction rcv remain got s rule: get_loop.induct)
  case (1 rcv remain got s)
  show ?case
  proof (cases "remain > 0")
    case False
    then show ?thesis by (subst get_loop.simps) (auto intro: exI [of _ "sk_calls s"])
  next
    case True
    let ?n = "nat (xfer_chunk remain)"
    let ?r = "rcv (sk_calls s) ?n"
    have n: "0 < ?n" "int ?n \<le> remain" using xfer_chunk_bounds [OF True] by auto
    have r: "1 \<le> ?r" "?r \<le> int ?n" using xfer_okD [OF 1(2) n(1)] by auto
    have m: "min ?r (int (length (sk_in s))) = ?r" using r n 1(3) by linarith
    let ?s = "s\<lparr>sk_calls := sk_calls s + 1, sk_in := drop (nat ?r) (sk_in s)\<rparr>"
    have step: "get_loop rcv remain got s =
        get_loop rcv (remain - ?r) (got @ take (nat ?r) (sk_in s)) ?s"
      using True r m by (subst get_loop.simps) (simp add: Let_def)
    have "\<exists>k. get_loop rcv (remain - ?r) (got @ take (nat ?r) (sk_in s)) ?s =
        (1, (got @ take (nat ?r) (sk_in s)) @ take (nat (remain - ?r)) (sk_in ?s),
         ?s\<lparr>sk_in := drop (nat (remain - ?r)) (sk_in ?s), sk_calls := k\<rparr>)"
      using 1(1) [OF True refl refl refl] r m 1(2,3) n by simp
    then obtain k where k: "get_loop rcv (remain - ?r) (got @ take (nat ?r) (sk_in s)) ?s =
        (1, (got @ take (nat ?r) (sk_in s)) @ take (nat (remain - ?r)) (sk_in ?s),
         ?s\<lparr>sk_in := drop (nat (remain - ?r)) (sk_in ?s), sk_calls := k\<rparr>)" ..
    have "nat remain = nat ?r + nat (remain - ?r)" using r n by linarith
    then have "take (nat remain) (sk_in s)
        = take (nat ?r) (sk_in s) @ take (nat (remain - ?r)) (drop (nat ?r) (sk_in s))"
      "drop (nat remain) (sk_in s) = drop (nat (remain - ?r)) (drop (nat ?r) (sk_in s))"
      by (simp_all add: take_add add.commute)
    then show ?thesis using step k by auto
  qed
qed

lemma put_delivers:
  assumes "xfer_ok sndf" and "0 \<le> fd"
  shows "\<exists>k. put sndf (Some fd) (Some msg) (int (length msg)) s =
    Inr (1, s\<lparr>sk_out := sk_out s @ msg, sk_calls := k\<rparr>)"
  using put_loop_delivers [OF assms(1), of "int (length msg)" msg s] assms(2)
  by (simp add: put_def)

lemma get_receives:
  assumes "xfer_ok rcv" and "0 \<le> fd" and "sk_in s = msg @ rest" and "n = int (length msg)"
  shows "\<exists>k. get rcv (Some fd) True n s = (1, msg, s\<lparr>sk_in := rest, sk_calls := k\<rparr>)"
  using get_loop_receives [OF assms(1), of n s "[]"] assms(2-4)
  by (simp add: get_def)

text \<open>A send that fails or ends the stream stops \<open>put\<close> with its result; what was sent is a
  prefix of the message.\<close>

lemma put_loop_prefix:
  assumes "\<forall>k n. sndf k n \<le> int n" and "put_loop sndf remain msg s = Inr (r, s')"
    and "remain \<le> int (length msg)"
  shows "\<exists>m. m \<le> length msg \<and> sk_out s' = sk_out s @ take m msg
    \<and> (r = 1 \<and> int m = max 0 remain \<or> r \<le> 0 \<and> int m < remain)"
  using assms
proof (induction sndf remain msg s rule: put_loop.induct)
  case (1 sndf remain msg s)
  show ?case
  proof (cases "remain > 0")
    case False
    then have "r = 1 \<and> s' = s" using 1(3) by (simp add: put_loop.simps)
    then show ?thesis using False by (intro exI [of _ 0]) auto
  next
    case True
    let ?n = "nat (xfer_chunk remain)"
    let ?r = "sndf (sk_calls s) ?n"
    have n: "0 < ?n" "int ?n \<le> remain" using xfer_chunk_bounds [OF True] by auto
    have len: "\<not> length msg < ?n" using n(2) 1(4) by linarith
    have rb: "?r \<le> int ?n" using 1(2) by blast
    show ?thesis
    proof (cases "?r \<le> 0")
      case r: True
      then have "r = ?r \<and> sk_out s' = sk_out s"
        using 1(3) True len by (auto simp: put_loop.simps [of sndf remain] Let_def)
      then show ?thesis using r True by (intro exI [of _ 0]) auto
    next
      case False
      let ?s = "s\<lparr>sk_calls := sk_calls s + 1, sk_out := sk_out s @ take (nat ?r) msg\<rparr>"
      have step: "put_loop sndf (remain - ?r) (drop (nat ?r) msg) ?s = Inr (r, s')"
        using 1(3) True False len by (simp add: put_loop.simps [of sndf remain] Let_def)
      have l: "remain - ?r \<le> int (length (drop (nat ?r) msg))" using 1(4) False by auto
      from 1(1) [OF True refl refl len False 1(2) step l]
      obtain m where m: "m \<le> length (drop (nat ?r) msg)"
        "sk_out s' = sk_out ?s @ take m (drop (nat ?r) msg)"
        "r = 1 \<and> int m = max 0 (remain - ?r) \<or> r \<le> 0 \<and> int m < remain - ?r"
        by blast
      have "sk_out s' = sk_out s @ take (nat ?r + m) msg"
        using m(2) by (simp add: take_add)
      moreover have "nat ?r + m \<le> length msg" using m(1) len rb n False by auto
      moreover have "r = 1 \<and> int (nat ?r + m) = max 0 remain \<or> r \<le> 0 \<and> int (nat ?r + m) < remain"
        using m(3) False rb n by auto
      ultimately show ?thesis by blast
    qed
  qed
qed

section \<open>Headers\<close>

definition hdr_image :: "u32 \<Rightarrow> u32 \<Rightarrow> byte list" where
  "hdr_image n sz = le32 n @ le32 sz"

definition read_hdr :: "(u32 \<times> u32) unpacker" where
  "read_hdr = then_read read_u32 (\<lambda>n. then_read read_u32 (\<lambda>sz. read_ret (n, sz)))"

lemma length_hdr_image [simp]: "length (hdr_image n sz) = 8"
  by (simp add: hdr_image_def)

lemma reads_hdr: "reads read_hdr (hdr_image n sz) (n, sz)"
  unfolding read_hdr_def hdr_image_def
  by (intro reads_then_read [OF reads_u32] reads_then_ret [OF reads_u32]) simp

definition hdr_of_bytes :: "byte list \<Rightarrow> u32 \<times> u32" where
  "hdr_of_bytes s = (case read_hdr s (Some 0) of Inl _ \<Rightarrow> (0, 0) | Inr (h, _) \<Rightarrow> h)"

lemma hdr_of_image [simp]: "hdr_of_bytes (hdr_image n sz) = (n, sz)"
  using reads_hdr [of n sz] by (simp add: hdr_of_bytes_def reads_def holds_at_def)

definition conn_sendCudaPktHdr ::
  "xfer \<Rightarrow> int option \<Rightarrow> strm \<Rightarrow> u32 \<Rightarrow> int \<Rightarrow> sock \<Rightarrow> (int \<times> strm \<times> sock) cres" where
  "conn_sendCudaPktHdr sndf socket st n sz s =
     (let st' = st\<lparr>st_num_cuda_pkts := n, st_data_size := word_of_int sz\<rparr> in
      bindr (put sndf socket (Some (hdr_image n (word_of_int sz))) 8 s) (\<lambda>(r, s').
        Inr (if r \<noteq> 1 then ERROR else OK, st', s')))"

lemma send_hdr_delivers:
  assumes "xfer_ok sndf" and "0 \<le> fd"
  shows "\<exists>k. conn_sendCudaPktHdr sndf (Some fd) st n sz s = Inr (OK,
    st\<lparr>st_num_cuda_pkts := n, st_data_size := word_of_int sz\<rparr>,
    s\<lparr>sk_out := sk_out s @ hdr_image n (word_of_int sz), sk_calls := k\<rparr>)"
  using put_delivers [OF assms, of "hdr_image n (word_of_int sz)" s]
  by (auto simp: conn_sendCudaPktHdr_def)

end
