(* ===== verification/Net_Properties.thy ===== *)
theory Net_Properties
  imports Net_Conn
begin

text \<open>
  The properties of the transport: methods and packets (include/method_id.h,
  remote/remote_packet.c) and connections (remote/connection.c).
\<close>

section \<open>Transfer\<close>

text \<open>C19. Whatever pieces the two sockets cut the stream into, a message that is put on one end
  and got from the other arrives unchanged, and what follows it in the stream is left there.\<close>

theorem put_get_delivers:
  assumes "xfer_ok sndf" and "xfer_ok rcv" and "0 \<le> fd" and "0 \<le> fd'"
    and "put sndf (Some fd) (Some msg) (int (length msg)) s = Inr (r, s')"
    and "sk_in t = drop (length (sk_out s)) (sk_out s') @ rest"
  shows "r = 1 \<and> (\<exists>k. get rcv (Some fd') True (int (length msg)) t
    = (1, msg, t\<lparr>sk_in := rest, sk_calls := k\<rparr>))"
proof -
  obtain k where "put sndf (Some fd) (Some msg) (int (length msg)) s
      = Inr (1, s\<lparr>sk_out := sk_out s @ msg, sk_calls := k\<rparr>)"
    using put_delivers [OF assms(1,3)] by blast
  then have "r = 1" "sk_in t = msg @ rest" using assms(5,6) by auto
  then show ?thesis using get_receives [OF assms(2,4)] by blast
qed

definition idle :: "byte list \<Rightarrow> sock" where
  "idle s = \<lparr>sk_out = [], sk_in = s, sk_calls = 0\<rparr>"

text \<open>A socket that sends one byte per call, and one that takes all.\<close>

lemma xfer_ok_one: "xfer_ok (\<lambda>k n. 1)"
  by (simp add: xfer_ok_def)

lemma xfer_ok_all: "xfer_ok (\<lambda>k n. int n)"
  by (simp add: xfer_ok_def)

lemma put_get_delivers_witness:
  "\<exists>k. get (\<lambda>k n. int n) (Some 4) True 2 (idle [7, 8, 9]) = (1, [7, 8], idle [9]\<lparr>sk_calls := k\<rparr>)"
proof -
  have "put (\<lambda>k n. 1) (Some 3) (Some [7, 8]) (int (length [7, 8 :: byte])) (idle [])
      = Inr (1, \<lparr>sk_out = [7, 8], sk_in = [], sk_calls = 2\<rparr>)"
    by (simp add: put_def put_loop.simps xfer_chunk_def PER_XFER_MAX_def idle_def
        numeral_eq_Suc)
  from put_get_delivers [OF xfer_ok_one xfer_ok_all _ _ this, of 4 "idle [7, 8, 9]" "[9]"]
  show ?thesis by (simp add: idle_def)
qed

text \<open>A \<open>put\<close> whose socket fails returns the result of the failing call and has sent a
  proper prefix of the message; it returns 1 only when all of it was sent.\<close>

theorem put_sends_prefix:
  assumes "\<forall>k n. sndf k n \<le> int n" and "0 \<le> fd"
    and "put sndf (Some fd) (Some msg) (int (length msg)) s = Inr (r, s')"
  shows "\<exists>m \<le> length msg. sk_out s' = sk_out s @ take m msg
    \<and> (r = 1 \<and> m = length msg \<or> r \<le> 0 \<and> m < length msg)"
proof -
  have "put_loop sndf (int (length msg)) msg s = Inr (r, s')"
    using assms(2,3) by (simp add: put_def)
  then obtain m where m: "m \<le> length msg" "sk_out s' = sk_out s @ take m msg"
    "r = 1 \<and> int m = max 0 (int (length msg)) \<or> r \<le> 0 \<and> int m < int (length msg)"
    using put_loop_prefix [OF assms(1)] by blast
  then show ?thesis by (intro exI [of _ m]) auto
qed

definition fails_second :: xfer where
  "fails_second k n = (if k = 0 then 1 else -1)"

lemma put_sends_prefix_witness:
  "\<exists>m \<le> length [7, 8 :: byte]. [7 :: byte] = [] @ take m [7, 8]"
proof -
  have "put (\<lambda>k n. min (int n) (fails_second k n)) (Some 3) (Some [7, 8])
      (int (length [7, 8 :: byte])) (idle []) = Inr (-1, \<lparr>sk_out = [7], sk_in = [], sk_calls = 2\<rparr>)"
    by (simp add: put_def put_loop.simps xfer_chunk_def PER_XFER_MAX_def idle_def
        fails_second_def numeral_eq_Suc)
  from put_sends_prefix [OF _ _ this] show ?thesis by (auto simp: idle_def)
qed

section \<open>Connections\<close>

definition blank_conn :: connection where
  "blank_conn = \<lparr>cn_valid = 0, cn_address = None, cn_address_len = 0, cn_address_family = 0,
     cn_socket = 0, cn_socktype = 0, cn_protocol = 0\<rparr>"

text \<open>After a \<open>conn_connect\<close> that fails, whether the address cannot be found or the peer does
  not answer, the socket field is -1 and \<open>conn_close\<close> closes nothing more; after one that
  succeeds no descriptor was closed and \<open>conn_close\<close> closes exactly the new socket.\<close>

theorem connect_close_once:
  assumes "conn_connect (Some c) (Some host) flag e = (r, Some c', closed)"
    and "ce_calloc_ok e" and "0 < ce_socket e \<or> ce_socket e = -1"
  shows "if r = 0 then closed = [] \<and> snd (snd (conn_close (Some c'))) = [ce_socket e]
    else r = -1 \<and> cn_socket c' = -1 \<and> snd (snd (conn_close (Some c'))) = []"
  using assms
  by (auto simp: conn_connect_def connect_error_def conn_close_def Let_def
      split: if_splits option.splits)

definition demo_env :: "int \<Rightarrow> connect_env" where
  "demo_env r = \<lparr>ce_getaddrinfo = (\<lambda>_. 0), ce_results = Some \<lparr>ai_family = 2, ai_socktype = 1,
     ai_protocol = 6, ai_addr = [2, 0]\<rparr>, ce_calloc_ok = True, ce_socket = 5, ce_connect = r\<rparr>"

lemma connect_close_once_witness:
  "\<exists>c'. conn_connect (Some blank_conn) (Some ''h'') 0 (demo_env (-1)) = (-1, Some c', [5])
     \<and> snd (snd (conn_close (Some c'))) = []"
proof -
  obtain c' where c: "conn_connect (Some blank_conn) (Some ''h'') 0 (demo_env (-1)) = (-1, Some c', [5])"
    by (simp add: conn_connect_def connect_error_def demo_env_def blank_conn_def)
  show ?thesis using connect_close_once [OF c] c by (simp add: demo_env_def)
qed

text \<open>\<open>conn_localbind\<close> closes the socket twice when \<open>bind\<close> fails, and when the address cannot
  be found it reads a pointer that was never set.\<close>

theorem localbind_error_paths:
  assumes "0 \<le> be_socket e" and "0 \<le> be_setsockopt e" and "be_bind e < 0"
  shows "conn_localbind (Some c) flag e = (if be_getaddrinfo e (admission_port flag) \<noteq> 0
    then Inl Uninit else Inr (-1, Some c, [be_socket e, be_socket e]))"
  using assms by (simp add: conn_localbind_def Let_def)

lemma localbind_error_paths_witness:
  "conn_localbind (Some blank_conn) 0 \<lparr>be_getaddrinfo = (\<lambda>_. 0), be_results = \<lparr>ai_family = 2,
     ai_socktype = 1, ai_protocol = 6, ai_addr = []\<rparr>, be_socket = 3, be_setsockopt = 0,
     be_bind = -1, be_calloc_ok = True, be_listen = 0\<rparr> = Inr (-1, Some blank_conn, [3, 3])"
  by (subst localbind_error_paths) simp_all

section \<open>Methods and packets\<close>

text \<open>Every method has a number of its own, and the table of names gives a name to each of
  them but four: the copies between two-dimensional arrays.\<close>

lemma method_numbers:
  "method_of (method_num x) = Some x \<and> (method_num x = method_num y \<longleftrightarrow> x = y)
   \<and> 1 \<le> method_num x \<and> method_num x \<le> 38
   \<and> (methodIdToString (uint (method_num x)) = None \<longleftrightarrow>
        x \<in> {CUDA_MEMCPY_2D_TO_ARRAY_D2D, CUDA_MEMCPY_2D_TO_ARRAY_H2D,
             CUDA_MEMCPY_2D_TO_ARRAY_D2H, CUDA_MEMCPY_2D_TO_ARRAY_H2H})"
proof -
  have "methodIdToString (uint (method_num x)) = None \<longleftrightarrow>
        x \<in> {CUDA_MEMCPY_2D_TO_ARRAY_D2D, CUDA_MEMCPY_2D_TO_ARRAY_H2D,
             CUDA_MEMCPY_2D_TO_ARRAY_D2H, CUDA_MEMCPY_2D_TO_ARRAY_H2H}"
    using unsigned_less [of "method_num x"]
    by (cases x) (simp_all add: methodIdToString_def)
  moreover have "1 \<le> method_num x \<and> method_num x \<le> 38"
    by (cases x) (simp_all add: method_num_def methods_def)
  ultimately show ?thesis by (simp add: method_num_inj)
qed

text \<open>A packet survives its transport: its image is 184 bytes, and what the receiver reads from
  it is the packet, whatever follows in the stream.\<close>

theorem packet_image_roundtrip:
  "length (packet_image p) = 184 \<and> packet_of_bytes (packet_image p @ s) = Some p"
  by (simp add: sizeof_packet_def)

text \<open>The stream has to be flushed exactly when it is full or its last packet is a call whose
  answer the application waits for.\<close>

theorem flush_needed_iff:
  assumes "0 < sint (st_num_cuda_pkts s)" and "sint (st_num_cuda_pkts s) \<le> int (length (st_rpkts s))"
  shows "strm_flush_needed (Some s) = Inr (if st_batch_size s \<le> st_num_cuda_pkts s
      \<or> method_expects_response (pk_method_id (st_rpkts s ! nat (sint (st_num_cuda_pkts s) - 1)))
    then 1 else 0)"
  using assms by (auto simp: strm_flush_needed_def strm_full_def strm_expects_response_def nthri_def
      nthr_def nat_less_iff)

definition demo_strm :: "u16 \<Rightarrow> strm" where
  "demo_strm w = \<lparr>st_batch_size = 1024, st_num_cuda_pkts = 1, st_data_size = 0,
     st_rpkts = [zero_packet\<lparr>pk_method_id := w\<rparr>]\<rparr>"

lemma flush_needed_iff_witness:
  "strm_flush_needed (Some (demo_strm (method_num CUDA_MALLOC))) = Inr 1
   \<and> strm_flush_needed (Some (demo_strm (method_num CUDA_FREE))) = Inr 0"
  using flush_needed_iff [of "demo_strm (method_num CUDA_MALLOC)"]
    flush_needed_iff [of "demo_strm (method_num CUDA_FREE)"]
  by (simp add: demo_strm_def method_expects_response_def sync_methods_def zero_packet_def
      word_le_nat_alt)

text \<open>The backend answers a call it has no handler for with the error flag and
  \<open>cudaErrorInvalidValue\<close>, without touching its state. These are the methods of the list,
  several of which the client sends and waits for, and every number that is no method.\<close>

theorem unsupported_methods:
  assumes "case method_of (pk_method_id p) of None \<Rightarrow> True | Some x \<Rightarrow> x \<in> {FE_BE_PIN_PAGES,
    CUDA_MEMSET, CUDA_UNBIND_TEXTURE, CUDA_BIND_TEXTURE_TO_ARRAY, CUDA_FREE_HOST,
    CUDA_MALLOC_ARRAY, CUDA_FREE_ARRAY, CUDA_MEMCPY_TO_ARRAY_D2D, CUDA_MEMCPY_TO_ARRAY_H2D,
    CUDA_MEMCPY_TO_ARRAY_D2H, CUDA_MEMCPY_TO_ARRAY_H2H, CUDA_MEMCPY_2D_TO_ARRAY_D2D,
    CUDA_MEMCPY_2D_TO_ARRAY_H2D, CUDA_MEMCPY_2D_TO_ARRAY_D2H, CUDA_MEMCPY_2D_TO_ARRAY_H2H,
    CUDA_REGISTER_TEXTURE, CUDA_REGISTER_SHARED}"
  shows "\<exists>p'. pkt_execute srv p st = Inr (p', st) \<and> pk_flags p' = CUDA_error
    \<and> pkt_err p' = cudaErrorInvalidValue \<and> pk_arg0 p' = pk_arg0 p"
proof -
  have "pkt_handler (pk_method_id p) = None"
    using assms by (auto simp: pkt_handler_def split: option.splits)
  then show ?thesis by (simp add: pkt_execute_def) (simp add: set_err_def)
qed

lemma unsupported_methods_witness:
  "\<exists>p'. pkt_execute (\<lambda>h p st. Inl NullDeref) (zero_packet\<lparr>pk_method_id := method_num CUDA_MALLOC_ARRAY\<rparr>) ()
     = Inr (p', ()) \<and> pkt_err p' = cudaErrorInvalidValue"
  using unsupported_methods [of "zero_packet\<lparr>pk_method_id := method_num CUDA_MALLOC_ARRAY\<rparr>"
      "\<lambda>h p st. Inl NullDeref" "()"]
  by (auto simp: zero_packet_def)

end
