(* ===== verification/Vmem.thy ===== *)
theory Vmem
  imports Cuda_Packet
begin

text \<open>
  The virtual memory of the device, virtmem/cuda_vmem.c: the memory map with its status machine
  and its swap space, the kernel map, the paging test, page-in, page-out and the launch.

  \<open>struct mem_map **table\<close> is the list of the nodes its pointers lead to, so an index outside
  the pointer array is out of bounds. The CUDA runtime is a parameter, \<open>cuda_rt\<close>: what the
  code relies on is stated by \<open>cuda_ok\<close>.
\<close>

section \<open>The CUDA runtime\<close>

text \<open>
  \<open>cu_malloc n\<close> is \<open>cudaMalloc\<close> (\<open>None\<close>: an error code), \<open>cu_h2d p s\<close> is \<open>cudaMemcpy\<close>
  of the bytes \<open>s\<close> to the device address \<open>p\<close>, and a device-to-host copy of \<open>n\<close> bytes
  from \<open>p\<close> gives the first \<open>n\<close> bytes of \<open>cu_content p\<close>. \<open>cu_live\<close> says which
  addresses are allocated.
\<close>

record 'g cuda_rt =
  cu_malloc :: "nat \<Rightarrow> 'g \<Rightarrow> u64 option \<times> 'g"
  cu_free :: "u64 \<Rightarrow> 'g \<Rightarrow> 'g"
  cu_h2d :: "u64 \<Rightarrow> byte list \<Rightarrow> 'g \<Rightarrow> 'g"
  cu_content :: "u64 \<Rightarrow> 'g \<Rightarrow> byte list"
  cu_live :: "u64 \<Rightarrow> 'g \<Rightarrow> bool"

definition cuda_malloc_ok :: "'g cuda_rt \<Rightarrow> bool" where
  "cuda_malloc_ok rt \<longleftrightarrow> (\<forall>n g p g'. cu_malloc rt n g = (Some p, g') \<longrightarrow>
     p \<noteq> 0 \<and> \<not> cu_live rt p g \<and> length (cu_content rt p g') = n
     \<and> (\<forall>q. cu_live rt q g' = (q = p \<or> cu_live rt q g))
     \<and> (\<forall>q. cu_live rt q g \<longrightarrow> cu_content rt q g' = cu_content rt q g))"

definition cuda_fail_ok :: "'g cuda_rt \<Rightarrow> bool" where
  "cuda_fail_ok rt \<longleftrightarrow> (\<forall>n g g'. cu_malloc rt n g = (None, g') \<longrightarrow>
     (\<forall>q. cu_live rt q g' = cu_live rt q g)
     \<and> (\<forall>q. cu_live rt q g \<longrightarrow> cu_content rt q g' = cu_content rt q g))"

definition cuda_free_ok :: "'g cuda_rt \<Rightarrow> bool" where
  "cuda_free_ok rt \<longleftrightarrow> (\<forall>p g. cu_live rt p g \<longrightarrow>
     (\<forall>q. cu_live rt q (cu_free rt p g) = (q \<noteq> p \<and> cu_live rt q g))
     \<and> (\<forall>q. q \<noteq> p \<longrightarrow> cu_live rt q g \<longrightarrow>
          cu_content rt q (cu_free rt p g) = cu_content rt q g))"

definition cuda_h2d_ok :: "'g cuda_rt \<Rightarrow> bool" where
  "cuda_h2d_ok rt \<longleftrightarrow> (\<forall>p s g. cu_live rt p g \<longrightarrow> length s \<le> length (cu_content rt p g) \<longrightarrow>
     (\<forall>q. cu_live rt q (cu_h2d rt p s g) = cu_live rt q g)
     \<and> cu_content rt p (cu_h2d rt p s g) = s @ drop (length s) (cu_content rt p g)
     \<and> (\<forall>q. q \<noteq> p \<longrightarrow> cu_live rt q g \<longrightarrow>
          cu_content rt q (cu_h2d rt p s g) = cu_content rt q g))"

definition cuda_ok :: "'g cuda_rt \<Rightarrow> bool" where
  "cuda_ok rt \<longleftrightarrow> cuda_malloc_ok rt \<and> cuda_fail_ok rt \<and> cuda_free_ok rt \<and> cuda_h2d_ok rt"

section \<open>The memory map\<close>

definition MAX_KERNELS :: nat where "MAX_KERNELS = 10000"

definition MAX_MEMORY :: nat where "MAX_MEMORY = 10000"

datatype vmem_status = D_NOALLOC | D_INIT | D_READY | D_MODIFIED | D_MEMWAIT | D_DEFERRED

text \<open>\<open>mm_addr\<close> is the address of the node itself, \<open>actual_devptr\<close> is 0 for NULL.\<close>

record mem_map =
  mm_addr :: u64
  mm_valid :: int
  mm_handle :: int
  mm_actual_devptr :: u64
  mm_swap :: "byte list option"
  mm_size :: nat
  mm_status :: vmem_status
  mm_pid :: int
  mm_freq :: int

text \<open>\<open>&node->handle\<close>, the device pointer the application is meant to get: offset 4.\<close>

definition handle_addr :: "mem_map \<Rightarrow> u64" where
  "handle_addr m = mm_addr m + 4"

text \<open>\<open>for (i = 0; i < size; i++)\<close> from \<open>i\<close>, with \<open>k\<close> iterations left.\<close>

primrec mem_map_init_loop :: "int \<Rightarrow> nat \<Rightarrow> nat \<Rightarrow> mem_map list \<Rightarrow> mem_map list cres" where
  "mem_map_init_loop pid 0 i table = Inr table"
| "mem_map_init_loop pid (Suc k) i table = bindr (nthr table i) (\<lambda>m.
     mem_map_init_loop pid k (i + 1) (table[i := m\<lparr>mm_valid := 0, mm_actual_devptr := 0,
       mm_swap := None, mm_handle := int i, mm_size := 0, mm_status := D_NOALLOC,
       mm_pid := pid, mm_freq := 0\<rparr>]))"

definition mem_map_init :: "int \<Rightarrow> mem_map list \<Rightarrow> int \<Rightarrow> mem_map list cres" where
  "mem_map_init pid table n = mem_map_init_loop pid (nat n) 0 table"

text \<open>
  \<open>host_malloc\<close> gives the swap space. \<open>devptr\<close> is what \<open>*devptr\<close> of the caller holds:
  the function stores the handle through its own copy of the parameter only.
\<close>

definition mem_map_creat :: "'g cuda_rt \<Rightarrow> (nat \<Rightarrow> byte list option) \<Rightarrow> mem_map list \<Rightarrow> u64
    \<Rightarrow> nat \<Rightarrow> int \<Rightarrow> 'g \<Rightarrow> (int \<times> u64 \<times> mem_map list \<times> 'g) cres" where
  "mem_map_creat rt host_malloc table devptr sz idx g =
     bindr (nthri table idx) (\<lambda>m.
       let (r, g') = cu_malloc rt sz g;
           m' = (case r of Some p \<Rightarrow> m\<lparr>mm_actual_devptr := p, mm_status := D_INIT\<rparr>
                 | None \<Rightarrow> m\<lparr>mm_status := D_NOALLOC, mm_actual_devptr := 0\<rparr>) in
       Inr (0, devptr, table[nat idx := m'\<lparr>mm_swap := host_malloc sz, mm_size := sz,
              mm_valid := 1\<rparr>], g'))"

definition mem_map_delete :: "'g cuda_rt \<Rightarrow> mem_map list \<Rightarrow> int \<Rightarrow> 'g \<Rightarrow> (mem_map list \<times> 'g) cres" where
  "mem_map_delete rt table idx g =
     bindr (nthri table idx) (\<lambda>m.
       let g' = (if mm_actual_devptr m \<noteq> 0 then cu_free rt (mm_actual_devptr m) g else g) in
       Inr (table[nat idx := m\<lparr>mm_actual_devptr := 0, mm_swap := None, mm_size := 0,
              mm_status := D_NOALLOC, mm_valid := 0\<rparr>], g'))"

text \<open>The result is a position in \<open>indexes\<close>; \<open>i\<close> is the position of the first one.\<close>

primrec find_entry_loop :: "mem_map list \<Rightarrow> int list \<Rightarrow> u64 \<Rightarrow> int \<Rightarrow> int cres" where
  "find_entry_loop table [] devptr i = Inr (-1)"
| "find_entry_loop table (x # xs) devptr i =
     (if 0 \<le> x \<and> devptr \<noteq> 0 then bindr (nthri table x) (\<lambda>m.
        if devptr = handle_addr m then Inr i else find_entry_loop table xs devptr (i + 1))
      else find_entry_loop table xs devptr (i + 1))"

definition mem_map_find_entry :: "mem_map list \<Rightarrow> int list \<Rightarrow> nat \<Rightarrow> u64 \<Rightarrow> int cres" where
  "mem_map_find_entry table indexes len devptr =
     (if length indexes < len then Inl OutOfBounds
      else find_entry_loop table (take len indexes) devptr 0)"

text \<open>
  \<open>memcpy(swap, src, size)\<close> of the first \<open>n\<close> bytes into a block. A negative size is
  converted to a huge one.
\<close>

definition copy_into :: "byte list option \<Rightarrow> byte list \<Rightarrow> int \<Rightarrow> byte list cres" where
  "copy_into dst src n = (case dst of None \<Rightarrow> if n = 0 then Inr [] else Inl NullDeref
     | Some d \<Rightarrow> if n < 0 \<or> length d < nat n \<or> length src < nat n then Inl OutOfBounds
       else Inr (take (nat n) src @ drop (nat n) d))"

definition copy_from :: "byte list option \<Rightarrow> int \<Rightarrow> byte list cres" where
  "copy_from src n = (case src of None \<Rightarrow> if n = 0 then Inr [] else Inl NullDeref
     | Some s \<Rightarrow> if n < 0 \<or> length s < nat n then Inl OutOfBounds else Inr (take (nat n) s))"

text \<open>
  The result of a copy: the bytes stored at the host destination, if any, the table and the
  device.
\<close>

definition mem_map_h2d :: "'g cuda_rt \<Rightarrow> mem_map list \<Rightarrow> nat \<Rightarrow> mem_map \<Rightarrow> byte list \<Rightarrow> int \<Rightarrow> 'g
    \<Rightarrow> (byte list option \<times> mem_map list \<times> 'g) cres" where
  "mem_map_h2d rt table i m src n g =
     bindr (copy_into (mm_swap m) src n) (\<lambda>sw.
       let m1 = m\<lparr>mm_swap := map_option (\<lambda>_. sw) (mm_swap m)\<rparr> in
       Inr (case mm_status m of
         D_INIT \<Rightarrow> (None, table[i := m1\<lparr>mm_status := D_READY\<rparr>],
                    cu_h2d rt (mm_actual_devptr m) (take (nat n) sw) g)
       | D_READY \<Rightarrow> (None, table[i := m1\<lparr>mm_status := D_READY\<rparr>],
                    cu_h2d rt (mm_actual_devptr m) (take (nat n) sw) g)
       | D_MODIFIED \<Rightarrow> (None, table[i := m1\<lparr>mm_status := D_READY\<rparr>],
                    cu_h2d rt (mm_actual_devptr m) (take (nat n) sw) g)
       | D_NOALLOC \<Rightarrow> (None, table[i := m1\<lparr>mm_status := D_MEMWAIT\<rparr>], g)
       | D_MEMWAIT \<Rightarrow> (None, table[i := m1\<lparr>mm_status := D_MEMWAIT\<rparr>], g)
       | D_DEFERRED \<Rightarrow> (None, table[i := m1\<lparr>mm_status := D_DEFERRED\<rparr>], g)))"

definition mem_map_d2h :: "'g cuda_rt \<Rightarrow> mem_map list \<Rightarrow> nat \<Rightarrow> mem_map \<Rightarrow> int \<Rightarrow> 'g
    \<Rightarrow> (byte list option \<times> mem_map list \<times> 'g) cres" where
  "mem_map_d2h rt table i m n g =
     (if mm_status m = D_NOALLOC \<or> mm_status m = D_INIT then Inr (None, table, g)
      else if mm_status m = D_READY \<or> mm_status m = D_MODIFIED then
        bindr (copy_into (mm_swap m) (cu_content rt (mm_actual_devptr m) g) n) (\<lambda>sw.
        bindr (copy_from (map_option (\<lambda>_. sw) (mm_swap m)) n) (\<lambda>out.
        Inr (Some out, table[i := m\<lparr>mm_swap := map_option (\<lambda>_. sw) (mm_swap m),
               mm_status := D_READY\<rparr>], g)))
      else bindr (copy_from (mm_swap m) n) (\<lambda>out. Inr (Some out, table, g)))"

definition mem_map_memcpy :: "'g cuda_rt \<Rightarrow> mem_map list \<Rightarrow> int \<Rightarrow> byte list \<Rightarrow> int \<Rightarrow> u16 \<Rightarrow> 'g
    \<Rightarrow> (byte list option \<times> mem_map list \<times> 'g) cres" where
  "mem_map_memcpy rt table idx src n ty g =
     bindr (nthri table idx) (\<lambda>m.
       if ty = method_num CUDA_MEMCPY_H2D then mem_map_h2d rt table (nat idx) m src n g
       else if ty = method_num CUDA_MEMCPY_D2H then mem_map_d2h rt table (nat idx) m n g
       else Inr (None, table, g))"

text \<open>Step 2 of \<open>gvirt_page_out\<close>: every requested page that is on the device.\<close>

primrec page_out_loop :: "'g cuda_rt \<Rightarrow> int list \<Rightarrow> mem_map list \<Rightarrow> 'g
    \<Rightarrow> (mem_map list \<times> 'g) cres" where
  "page_out_loop rt [] table g = Inr (table, g)"
| "page_out_loop rt (x # xs) table g =
     bindr (nthri table x) (\<lambda>m.
       if mm_status m = D_READY \<or> mm_status m = D_MODIFIED then
         bindr (copy_into (mm_swap m) (cu_content rt (mm_actual_devptr m) g) (int (mm_size m)))
           (\<lambda>sw. page_out_loop rt xs
             (table[nat x := m\<lparr>mm_swap := map_option (\<lambda>_. sw) (mm_swap m),
                mm_actual_devptr := 0, mm_status := D_MEMWAIT\<rparr>])
             (cu_free rt (mm_actual_devptr m) g))
       else page_out_loop rt xs table g)"

text \<open>
  What the pager sent: the length and what the pointer to the requests, which comes from the
  pager's own address space, leads to here.
\<close>

definition gvirt_page_out :: "'g cuda_rt \<Rightarrow> int list \<Rightarrow> int \<Rightarrow> mem_map list \<Rightarrow> 'g
    \<Rightarrow> (mem_map list \<times> 'g) cres" where
  "gvirt_page_out rt reqarr len table g =
     (if length reqarr < nat len then Inl OutOfBounds
      else page_out_loop rt (take (nat len) reqarr) table g)"

text \<open>
  Step 5 of \<open>gvirt_page_in\<close>: \<open>cudaMalloc\<close> gets the value of \<open>actual_devptr\<close> where it
  needs its address, and the copy dereferences it on the host.
\<close>

primrec page_in_loop :: "int list \<Rightarrow> mem_map list \<Rightarrow> mem_map list cres" where
  "page_in_loop [] table = Inr table"
| "page_in_loop (x # xs) table =
     bindr (nthri table x) (\<lambda>m.
       if mm_status m = D_MEMWAIT \<or> mm_status m = D_DEFERRED then
         Inl (if mm_actual_devptr m = 0 then NullDeref else OutOfBounds)
       else page_in_loop xs table)"

text \<open>\<open>semid\<close> is what \<open>semget\<close> gave.\<close>

definition gvirt_page_in :: "int \<Rightarrow> mem_map list \<Rightarrow> int list \<Rightarrow> int \<Rightarrow> mem_map list cres" where
  "gvirt_page_in semid table reqarr len =
     (if semid = -1 then Inr table
      else if length reqarr < nat len then Inl OutOfBounds
      else page_in_loop (take (nat len) reqarr) table)"

section \<open>The kernel map\<close>

text \<open>\<open>kernel_arg_node\<close>; a \<open>kernel_args\<close> is the list from \<open>head\<close> to \<open>tail\<close>.\<close>

record kernel_arg_node =
  ka_arg :: u64
  ka_size :: u64
  ka_offset :: u64
  ka_mem_map_index :: int

record kmap_node =
  kn_valid :: int
  kn_launch_pending :: int
  kn_gridDim :: "u32 \<times> u32 \<times> u32"
  kn_blockDim :: "u32 \<times> u32 \<times> u32"
  kn_sharedMem :: u64
  kn_stream :: u64
  kn_arg_list :: "kernel_arg_node list"
  kn_func :: "byte list option"

record kmap =
  km_kobjects :: "kmap_node list"
  km_index :: int

text \<open>\<open>sizeof(struct kmap)\<close> and \<open>sizeof(struct kmap_node)\<close> on x86-64.\<close>

definition sizeof_kmap :: nat where "sizeof_kmap = 16"

definition sizeof_kmap_node :: nat where "sizeof_kmap_node = 72"

primrec kmap_init_loop :: "nat \<Rightarrow> nat \<Rightarrow> kmap_node list \<Rightarrow> kmap_node list cres" where
  "kmap_init_loop 0 i ks = Inr ks"
| "kmap_init_loop (Suc k) i ks = bindr (nthr ks i) (\<lambda>n.
     kmap_init_loop k (i + 1)
       (ks[i := n\<lparr>kn_valid := 0, kn_launch_pending := 0, kn_arg_list := []\<rparr>]))"

text \<open>
  The block of \<open>MAX_KERNELS * sizeof(struct kmap)\<close> bytes holds as many nodes as fit;
  \<open>junk\<close> is their content before.
\<close>

definition kmap_init :: "kmap_node \<Rightarrow> kmap cres" where
  "kmap_init junk =
     bindr (kmap_init_loop MAX_KERNELS 0
       (replicate (MAX_KERNELS * sizeof_kmap div sizeof_kmap_node) junk)) (\<lambda>ks.
     Inr \<lparr>km_kobjects = ks, km_index = 0\<rparr>)"

definition kmap_upd :: "kmap \<Rightarrow> (kmap_node \<Rightarrow> kmap_node) \<Rightarrow> kmap cres" where
  "kmap_upd t f = bindr (nthri (km_kobjects t) (km_index t)) (\<lambda>n.
     Inr (t\<lparr>km_kobjects := (km_kobjects t)[nat (km_index t) := f n]\<rparr>))"

definition kmap_add_config :: "kmap \<Rightarrow> u32 \<times> u32 \<times> u32 \<Rightarrow> u32 \<times> u32 \<times> u32 \<Rightarrow> u64 \<Rightarrow> u64 \<Rightarrow> kmap cres" where
  "kmap_add_config t gridDim blockDim sharedMem stream =
     kmap_upd t (\<lambda>n. n\<lparr>kn_gridDim := gridDim, kn_blockDim := blockDim,
       kn_sharedMem := sharedMem, kn_stream := stream\<rparr>)"

text \<open>Whatever the size of the argument, the 8 bytes at \<open>arg\<close> are kept.\<close>

definition kmap_add_arg :: "kmap \<Rightarrow> byte list \<Rightarrow> u64 \<Rightarrow> u64 \<Rightarrow> int \<Rightarrow> kmap cres" where
  "kmap_add_arg t arg sz offset vindex =
     (if length arg < 8 then Inl OutOfBounds
      else kmap_upd t (\<lambda>n. n\<lparr>kn_arg_list := kn_arg_list n @
        [\<lparr>ka_arg = dec64 (take 8 arg), ka_size = sz, ka_offset = offset,
          ka_mem_map_index = vindex\<rparr>]\<rparr>))"

text \<open>\<open>sizeof( *kfun)\<close> is 1: one byte of the name is kept.\<close>

definition kmap_add_kernel :: "kmap \<Rightarrow> byte list option \<Rightarrow> (kmap \<times> int) cres" where
  "kmap_add_kernel t kfun = (case kfun of None \<Rightarrow> Inl NullDeref
     | Some s \<Rightarrow> bindr (kmap_upd t (\<lambda>n. n\<lparr>kn_func := Some (take 1 (s @ [0])), kn_valid := 1,
         kn_launch_pending := 1\<rparr>)) (\<lambda>t'.
       Inr (t'\<lparr>km_index := km_index t + 1\<rparr>, km_index t)))"

section \<open>Paging test and launch\<close>

text \<open>The pages of the arguments that have to be paged in, at most 50.\<close>

primrec paging_loop :: "mem_map list \<Rightarrow> kernel_arg_node list \<Rightarrow> int list \<Rightarrow> int list cres" where
  "paging_loop mtable [] req = Inr req"
| "paging_loop mtable (a # as) req =
     (if 0 \<le> ka_mem_map_index a then
        bindr (nthri mtable (ka_mem_map_index a)) (\<lambda>m.
          if mm_valid m \<noteq> 0 \<and> (mm_status m = D_MEMWAIT \<or> mm_status m = D_DEFERRED) then
            (if length req < 50 then paging_loop mtable as (req @ [ka_mem_map_index a])
             else Inl OutOfBounds)
          else paging_loop mtable as req)
      else paging_loop mtable as req)"

text \<open>
  The parameters \<open>pagein_request\<close> and \<open>reqsize\<close> are copies of the caller's pointers: what
  is allocated for them is lost, and when no paging is required \<open>*reqsize = len\<close> writes
  through NULL. What is left for the caller is the status.
\<close>

definition gvirt_is_paging_required :: "kmap \<Rightarrow> int \<Rightarrow> mem_map list \<Rightarrow> int cres" where
  "gvirt_is_paging_required ktable kindex mtable =
     bindr (nthri (km_kobjects ktable) kindex) (\<lambda>n.
     bindr (paging_loop mtable (kn_arg_list n) []) (\<lambda>req.
       if req \<noteq> [] then Inr 1 else Inl NullDeref))"

text \<open>
  The loop over the arguments does not advance \<open>iter\<close>. \<open>setup arg size offset\<close> is
  \<open>cudaSetupArgument\<close> on the launch being prepared, kept as the list of what it got.
\<close>

partial_function (option) launch_loop :: "kernel_arg_node list \<Rightarrow> mem_map list
    \<Rightarrow> (u64 \<times> u64 \<times> u64) list \<Rightarrow> (mem_map list \<times> (u64 \<times> u64 \<times> u64) list) cres option" where
  "launch_loop iter mtab acc = (case iter of [] \<Rightarrow> Some (Inr (mtab, acc)) | a # as \<Rightarrow>
     if 0 \<le> ka_mem_map_index a then
       (case nthri mtab (ka_mem_map_index a) of Inl f \<Rightarrow> Some (Inl f) | Inr m \<Rightarrow>
          launch_loop iter (mtab[nat (ka_mem_map_index a) := m\<lparr>mm_freq := mm_freq m + 1\<rparr>])
            (acc @ [(mm_actual_devptr m, ka_size a, ka_offset a)]))
     else launch_loop iter mtab (acc @ [(ka_arg a, ka_size a, ka_offset a)]))"

text \<open>What \<open>cudaConfigureCall\<close>, \<open>cudaSetupArgument\<close> and \<open>cudaLaunch\<close> got.\<close>

record cuda_launch =
  cl_gridDim :: "u32 \<times> u32 \<times> u32"
  cl_blockDim :: "u32 \<times> u32 \<times> u32"
  cl_sharedMem :: u64
  cl_stream :: u64
  cl_args :: "(u64 \<times> u64 \<times> u64) list"
  cl_func :: "byte list option"

definition gvirt_cuda_launch_index :: "kmap \<Rightarrow> int \<Rightarrow> mem_map list
    \<Rightarrow> (mem_map list \<times> cuda_launch) cres option" where
  "gvirt_cuda_launch_index ktab idx mtab = (case nthri (km_kobjects ktab) idx of
     Inl f \<Rightarrow> Some (Inl f)
   | Inr n \<Rightarrow> map_option (\<lambda>r. bindr r (\<lambda>(mtab', args).
       Inr (mtab', \<lparr>cl_gridDim = kn_gridDim n, cl_blockDim = kn_blockDim n,
         cl_sharedMem = kn_sharedMem n, cl_stream = kn_stream n, cl_args = args,
         cl_func = kn_func n\<rparr>))) (launch_loop (kn_arg_list n) mtab []))"

end
