(* ===== verification/Vmem_Inv.thy ===== *)
theory Vmem_Inv
  imports Vmem
begin

text \<open>
  The invariant of the memory map of virtmem/cuda_vmem.c, the abstract content of a virtual
  device object, and what each operation does to both: creating and deleting an object, copying
  to and from it, and paging out. An object that is on the device has the content of its device
  block, any other that of its swap space.
\<close>

section \<open>Laws of the runtime\<close>

lemma cuda_malloc_some:
  assumes "cuda_ok rt" and "cu_malloc rt n g = (Some p, g')"
  shows "p \<noteq> 0" "\<not> cu_live rt p g" "length (cu_content rt p g') = n"
    "cu_live rt q g' \<longleftrightarrow> q = p \<or> cu_live rt q g"
    "cu_live rt q g \<Longrightarrow> cu_content rt q g' = cu_content rt q g"
  using assms unfolding cuda_ok_def cuda_malloc_ok_def by simp_all

lemma cuda_malloc_none:
  assumes "cuda_ok rt" and "cu_malloc rt n g = (None, g')"
  shows "cu_live rt q g' \<longleftrightarrow> cu_live rt q g"
    "cu_live rt q g \<Longrightarrow> cu_content rt q g' = cu_content rt q g"
  using assms unfolding cuda_ok_def cuda_fail_ok_def by simp_all

lemma cuda_free:
  assumes "cuda_ok rt" and "cu_live rt p g"
  shows "cu_live rt q (cu_free rt p g) \<longleftrightarrow> q \<noteq> p \<and> cu_live rt q g"
    "q \<noteq> p \<Longrightarrow> cu_live rt q g \<Longrightarrow> cu_content rt q (cu_free rt p g) = cu_content rt q g"
  using assms unfolding cuda_ok_def cuda_free_ok_def by simp_all

lemma cuda_h2d:
  assumes "cuda_ok rt" and "cu_live rt p g" and "length s \<le> length (cu_content rt p g)"
  shows "cu_live rt q (cu_h2d rt p s g) \<longleftrightarrow> cu_live rt q g"
    "cu_content rt p (cu_h2d rt p s g) = s @ drop (length s) (cu_content rt p g)"
    "q \<noteq> p \<Longrightarrow> cu_live rt q g \<Longrightarrow> cu_content rt q (cu_h2d rt p s g) = cu_content rt q g"
  using assms unfolding cuda_ok_def cuda_h2d_ok_def by simp_all

section \<open>Invariant and abstraction\<close>

definition on_device :: "vmem_status \<Rightarrow> bool" where
  "on_device s \<longleftrightarrow> s = D_INIT \<or> s = D_READY \<or> s = D_MODIFIED"

definition node_inv :: "'g cuda_rt \<Rightarrow> 'g \<Rightarrow> mem_map \<Rightarrow> bool" where
  "node_inv rt g m \<longleftrightarrow> (on_device (mm_status m) \<longleftrightarrow> mm_actual_devptr m \<noteq> 0)
     \<and> (mm_actual_devptr m \<noteq> 0 \<longrightarrow> cu_live rt (mm_actual_devptr m) g
          \<and> length (cu_content rt (mm_actual_devptr m) g) = mm_size m)
     \<and> (if mm_valid m = 0 then mm_actual_devptr m = 0
        else (\<exists>sw. mm_swap m = Some sw \<and> length sw = mm_size m))"

definition vm_inv :: "'g cuda_rt \<Rightarrow> 'g \<Rightarrow> mem_map list \<Rightarrow> bool" where
  "vm_inv rt g t \<longleftrightarrow> (\<forall>i < length t. node_inv rt g (t ! i))
     \<and> (\<forall>i < length t. \<forall>j < length t. i \<noteq> j \<longrightarrow> mm_actual_devptr (t ! i) \<noteq> 0 \<longrightarrow>
          mm_actual_devptr (t ! i) \<noteq> mm_actual_devptr (t ! j))"

definition vdata :: "'g cuda_rt \<Rightarrow> 'g \<Rightarrow> mem_map \<Rightarrow> byte list" where
  "vdata rt g m = (if on_device (mm_status m) then cu_content rt (mm_actual_devptr m) g
                   else the (mm_swap m))"

text \<open>Nothing changed for the nodes other than \<open>i\<close>.\<close>

definition frame :: "'g cuda_rt \<Rightarrow> nat \<Rightarrow> mem_map list \<Rightarrow> 'g \<Rightarrow> mem_map list \<Rightarrow> 'g \<Rightarrow> bool" where
  "frame rt i t g t' g' \<longleftrightarrow> length t' = length t
     \<and> (\<forall>j < length t. j \<noteq> i \<longrightarrow> t' ! j = t ! j \<and> vdata rt g' (t ! j) = vdata rt g (t ! j))"

lemma vm_inv_node: "vm_inv rt g t \<Longrightarrow> i < length t \<Longrightarrow> node_inv rt g (t ! i)"
  by (simp add: vm_inv_def)

text \<open>
  The one shape of all the updates: a node is replaced, and the device changes in a way that
  the blocks of the other nodes do not notice.
\<close>

lemma vm_inv_update:
  assumes inv: "vm_inv rt g t" and i: "i < length t" and m: "node_inv rt g' m"
    and fresh: "\<And>j. j < length t \<Longrightarrow> j \<noteq> i \<Longrightarrow> mm_actual_devptr (t ! j) \<noteq> 0 \<Longrightarrow>
      mm_actual_devptr m \<noteq> mm_actual_devptr (t ! j)
      \<and> cu_live rt (mm_actual_devptr (t ! j)) g'
      \<and> cu_content rt (mm_actual_devptr (t ! j)) g' = cu_content rt (mm_actual_devptr (t ! j)) g"
  shows "vm_inv rt g' (t[i := m]) \<and> frame rt i t g (t[i := m]) g'"
proof
  have other: "node_inv rt g' (t ! j)" if "j < length t" "j \<noteq> i" for j
    using vm_inv_node [OF inv that(1)] fresh [OF that] by (auto simp: node_inv_def)
  have dist: "mm_actual_devptr (t[i := m] ! j) \<noteq> mm_actual_devptr (t[i := m] ! k)"
    if "j < length t" "k < length t" "j \<noteq> k" "mm_actual_devptr (t[i := m] ! j) \<noteq> 0" for j k
    using that inv fresh i by (auto simp: vm_inv_def nth_list_update) metis+
  show "vm_inv rt g' (t[i := m])"
    unfolding vm_inv_def using m other dist i by (auto simp: nth_list_update)
  show "frame rt i t g (t[i := m]) g'"
  proof -
    have "vdata rt g' (t ! j) = vdata rt g (t ! j)" if "j < length t" "j \<noteq> i" for j
      using vm_inv_node [OF inv that(1)] fresh [OF that] by (auto simp: vdata_def node_inv_def)
    then show ?thesis by (simp add: frame_def)
  qed
qed

lemma vm_inv_other:
  assumes "vm_inv rt g t" and "i < length t" and "j < length t" and "j \<noteq> i"
    and "mm_actual_devptr (t ! j) \<noteq> 0"
  shows "mm_actual_devptr (t ! i) \<noteq> mm_actual_devptr (t ! j)"
    "mm_actual_devptr (t ! j) \<noteq> mm_actual_devptr (t ! i)"
    "cu_live rt (mm_actual_devptr (t ! j)) g"
proof -
  show "mm_actual_devptr (t ! j) \<noteq> mm_actual_devptr (t ! i)"
    using assms by (auto simp: vm_inv_def)
  then show "mm_actual_devptr (t ! i) \<noteq> mm_actual_devptr (t ! j)" by simp
  show "cu_live rt (mm_actual_devptr (t ! j)) g"
    using vm_inv_node [OF assms(1,3)] assms(5) by (simp add: node_inv_def)
qed

section \<open>Copies\<close>

lemma copy_into_ok:
  "\<lbrakk>0 \<le> n; nat n \<le> length d; nat n \<le> length src\<rbrakk> \<Longrightarrow>
   copy_into (Some d) src n = Inr (take (nat n) src @ drop (nat n) d)"
  by (simp add: copy_into_def)

lemma copy_from_ok: "0 \<le> n \<Longrightarrow> nat n \<le> length s \<Longrightarrow> copy_from (Some s) n = Inr (take (nat n) s)"
  by (simp add: copy_from_def)

lemma h2d_on_device:
  assumes "on_device (mm_status m)" and "copy_into (mm_swap m) src n = Inr sw"
  shows "mem_map_h2d rt t i m src n g = Inr (None,
    t[i := m\<lparr>mm_swap := map_option (\<lambda>_. sw) (mm_swap m), mm_status := D_READY\<rparr>],
    cu_h2d rt (mm_actual_devptr m) (take (nat n) sw) g)"
  using assms by (auto simp: mem_map_h2d_def on_device_def)

lemma h2d_off_device:
  assumes "\<not> on_device (mm_status m)" and "copy_into (mm_swap m) src n = Inr sw"
  shows "\<exists>st. \<not> on_device st \<and> st \<noteq> D_NOALLOC \<and> mem_map_h2d rt t i m src n g = Inr (None,
    t[i := m\<lparr>mm_swap := map_option (\<lambda>_. sw) (mm_swap m), mm_status := st\<rparr>], g)"
  using assms by (cases "mm_status m") (auto simp: mem_map_h2d_def on_device_def)

text \<open>Writing to an object: exactly the bytes written change, wherever the object is.\<close>

lemma h2d_spec:
  assumes ok: "cuda_ok rt" and inv: "vm_inv rt g t" and i: "i < length t"
    and valid: "mm_valid (t ! i) \<noteq> 0"
    and n: "0 \<le> n" "n \<le> int (mm_size (t ! i))" "n \<le> int (length src)"
  shows "\<exists>t' g'. mem_map_h2d rt t i (t ! i) src n g = Inr (None, t', g')
    \<and> vm_inv rt g' t' \<and> frame rt i t g t' g'
    \<and> vdata rt g' (t' ! i) = take (nat n) src @ drop (nat n) (vdata rt g (t ! i))
    \<and> mm_status (t' ! i) \<notin> {D_NOALLOC, D_INIT}
    \<and> mm_valid (t' ! i) \<noteq> 0 \<and> mm_size (t' ! i) = mm_size (t ! i)
    \<and> mm_addr (t' ! i) = mm_addr (t ! i)"
proof -
  let ?m = "t ! i" let ?p = "mm_actual_devptr (t ! i)"
  note node = vm_inv_node [OF inv i]
  obtain sw where sw: "mm_swap ?m = Some sw" "length sw = mm_size ?m"
    using node valid by (auto simp: node_inv_def)
  let ?sw = "take (nat n) src @ drop (nat n) sw"
  have c: "copy_into (mm_swap ?m) src n = Inr ?sw"
    using n sw by (simp add: copy_into_ok)
  show ?thesis
  proof (cases "on_device (mm_status ?m)")
    case True
    let ?t = "t[i := ?m\<lparr>mm_swap := Some ?sw, mm_status := D_READY\<rparr>]"
    let ?s = "take (nat n) src"
    let ?g = "cu_h2d rt ?p ?s g"
    have p: "?p \<noteq> 0" "cu_live rt ?p g" "length (cu_content rt ?p g) = mm_size ?m"
      using node True by (auto simp: node_inv_def)
    have l: "length ?s \<le> length (cu_content rt ?p g)" using n p by simp
    note h = cuda_h2d [OF ok p(2) l]
    have r: "mem_map_h2d rt t i ?m src n g = Inr (None, ?t, ?g)"
      using h2d_on_device [OF True c, of rt t i g] sw n by simp
    have "vm_inv rt ?g ?t \<and> frame rt i t g ?t ?g"
      by (rule vm_inv_update [OF inv i])
        (use p l h sw n valid vm_inv_other [OF inv i] in \<open>auto simp: node_inv_def on_device_def\<close>)
    moreover have "vdata rt ?g (?t ! i) = take (nat n) src @ drop (nat n) (vdata rt g ?m)"
      using i True n h(2) by (simp add: vdata_def on_device_def)
    ultimately show ?thesis using r i valid by auto
  next
    case False
    obtain st where st: "\<not> on_device st" "st \<noteq> D_NOALLOC" "mem_map_h2d rt t i ?m src n g =
        Inr (None, t[i := ?m\<lparr>mm_swap := Some ?sw, mm_status := st\<rparr>], g)"
      using h2d_off_device [OF False c, of rt t i g] sw by auto
    let ?t = "t[i := ?m\<lparr>mm_swap := Some ?sw, mm_status := st\<rparr>]"
    have p: "?p = 0" using node False by (auto simp: node_inv_def)
    have "vm_inv rt g ?t \<and> frame rt i t g ?t g"
      by (rule vm_inv_update [OF inv i])
        (use p sw n st valid vm_inv_other [OF inv i] in \<open>auto simp: node_inv_def\<close>)
    moreover have "vdata rt g (?t ! i) = take (nat n) src @ drop (nat n) (vdata rt g ?m)"
      using i False st(1) sw by (simp add: vdata_def)
    ultimately show ?thesis using st i valid by (auto simp: on_device_def)
  qed
qed

text \<open>Reading an object: its content, unless nothing was ever written to it.\<close>

lemma d2h_spec:
  assumes inv: "vm_inv rt g t" and i: "i < length t" and valid: "mm_valid (t ! i) \<noteq> 0"
    and n: "0 \<le> n" "n \<le> int (mm_size (t ! i))"
  shows "\<exists>out t'. mem_map_d2h rt t i (t ! i) n g = Inr (out, t', g)
    \<and> vm_inv rt g t' \<and> frame rt i t g t' g \<and> vdata rt g (t' ! i) = vdata rt g (t ! i)
    \<and> out = (if mm_status (t ! i) \<in> {D_NOALLOC, D_INIT} then None
             else Some (take (nat n) (vdata rt g (t ! i))))"
proof -
  let ?m = "t ! i" let ?p = "mm_actual_devptr (t ! i)"
  note node = vm_inv_node [OF inv i]
  obtain sw where sw: "mm_swap ?m = Some sw" "length sw = mm_size ?m"
    using node valid by (auto simp: node_inv_def)
  have same: "vm_inv rt g t \<and> frame rt i t g t g" using inv by (simp add: frame_def)
  consider "mm_status ?m = D_NOALLOC \<or> mm_status ?m = D_INIT"
    | "mm_status ?m = D_READY \<or> mm_status ?m = D_MODIFIED"
    | "mm_status ?m = D_MEMWAIT \<or> mm_status ?m = D_DEFERRED"
    by (cases "mm_status ?m") auto
  then show ?thesis
  proof cases
    case 1
    then show ?thesis using same by (auto simp: mem_map_d2h_def)
  next
    case 2
    then have dev: "on_device (mm_status ?m)" by (auto simp: on_device_def)
    let ?c = "cu_content rt ?p g"
    have p: "?p \<noteq> 0" "cu_live rt ?p g" "length ?c = mm_size ?m"
      using node dev by (auto simp: node_inv_def)
    let ?sw = "take (nat n) ?c @ drop (nat n) sw"
    let ?t = "t[i := ?m\<lparr>mm_swap := Some ?sw, mm_status := D_READY\<rparr>]"
    have r: "mem_map_d2h rt t i ?m n g = Inr (Some (take (nat n) ?c), ?t, g)"
      using 2 n p sw by (auto simp: mem_map_d2h_def copy_into_ok copy_from_ok)
    have "vm_inv rt g ?t \<and> frame rt i t g ?t g"
      by (rule vm_inv_update [OF inv i])
        (use p sw n valid vm_inv_other [OF inv i] in \<open>auto simp: node_inv_def on_device_def\<close>)
    then show ?thesis using r dev i 2 by (auto simp: vdata_def on_device_def)
  next
    case 3
    then show ?thesis using same n sw
      by (auto simp: mem_map_d2h_def copy_from_ok vdata_def on_device_def)
  qed
qed

section \<open>Creating, deleting, paging out\<close>

lemma creat_spec:
  assumes ok: "cuda_ok rt" and inv: "vm_inv rt g t" and i: "i < length t"
    and unused: "mm_actual_devptr (t ! i) = 0"
    and hm: "host_malloc sz = Some sw" "length sw = sz"
  shows "\<exists>t' g'. mem_map_creat rt host_malloc t dv sz (int i) g = Inr (0, dv, t', g')
    \<and> vm_inv rt g' t' \<and> frame rt i t g t' g'
    \<and> mm_valid (t' ! i) = 1 \<and> mm_size (t' ! i) = sz \<and> mm_addr (t' ! i) = mm_addr (t ! i)
    \<and> mm_status (t' ! i) \<in> {D_NOALLOC, D_INIT}"
proof -
  obtain r g' where mal: "cu_malloc rt sz g = (r, g')" by force
  show ?thesis
  proof (cases r)
    case None
    let ?t = "t[i := (t ! i)\<lparr>mm_status := D_NOALLOC, mm_actual_devptr := 0,
      mm_swap := Some sw, mm_size := sz, mm_valid := 1\<rparr>]"
    note L = cuda_malloc_none [OF ok mal [unfolded None]]
    have "vm_inv rt g' ?t \<and> frame rt i t g ?t g'"
      by (rule vm_inv_update [OF inv i])
        (use L hm vm_inv_other [OF inv i] in \<open>auto simp: node_inv_def on_device_def\<close>)
    then show ?thesis using mal None hm i by (auto simp: mem_map_creat_def)
  next
    case (Some p)
    let ?t = "t[i := (t ! i)\<lparr>mm_actual_devptr := p, mm_status := D_INIT,
      mm_swap := Some sw, mm_size := sz, mm_valid := 1\<rparr>]"
    note L = cuda_malloc_some [OF ok mal [unfolded Some]]
    have "vm_inv rt g' ?t \<and> frame rt i t g ?t g'"
      by (rule vm_inv_update [OF inv i])
        (use L hm vm_inv_other [OF inv i] in \<open>auto simp: node_inv_def on_device_def\<close>)
    then show ?thesis using mal Some hm i by (auto simp: mem_map_creat_def)
  qed
qed

lemma delete_spec:
  assumes ok: "cuda_ok rt" and inv: "vm_inv rt g t" and i: "i < length t"
  shows "\<exists>t' g'. mem_map_delete rt t (int i) g = Inr (t', g') \<and> vm_inv rt g' t'
    \<and> frame rt i t g t' g' \<and> mm_valid (t' ! i) = 0 \<and> mm_actual_devptr (t' ! i) = 0
    \<and> (mm_actual_devptr (t ! i) \<noteq> 0 \<longrightarrow> \<not> cu_live rt (mm_actual_devptr (t ! i)) g')"
proof -
  let ?p = "mm_actual_devptr (t ! i)"
  let ?t = "t[i := (t ! i)\<lparr>mm_actual_devptr := 0, mm_swap := None, mm_size := 0,
    mm_status := D_NOALLOC, mm_valid := 0\<rparr>]"
  let ?g = "if ?p \<noteq> 0 then cu_free rt ?p g else g"
  have live: "?p \<noteq> 0 \<Longrightarrow> cu_live rt ?p g"
    using vm_inv_node [OF inv i] by (simp add: node_inv_def)
  have "vm_inv rt ?g ?t \<and> frame rt i t g ?t ?g"
    by (rule vm_inv_update [OF inv i])
      (use live cuda_free [OF ok] vm_inv_other [OF inv i] in
        \<open>auto simp: node_inv_def on_device_def split: if_splits\<close>)
  then show ?thesis using i live cuda_free [OF ok] by (auto simp: mem_map_delete_def)
qed

text \<open>What stays of a node when its data is moved.\<close>

definition same_object :: "'g cuda_rt \<Rightarrow> 'g \<Rightarrow> mem_map \<Rightarrow> 'g \<Rightarrow> mem_map \<Rightarrow> bool" where
  "same_object rt g m g' m' \<longleftrightarrow> vdata rt g' m' = vdata rt g m \<and> mm_valid m' = mm_valid m
     \<and> mm_size m' = mm_size m \<and> mm_addr m' = mm_addr m
     \<and> (mm_status m' \<in> {D_NOALLOC, D_INIT} \<longleftrightarrow> mm_status m \<in> {D_NOALLOC, D_INIT})"

lemma same_object_refl [simp]: "same_object rt g m g m"
  by (simp add: same_object_def)

lemma same_object_trans:
  "same_object rt g m g' m' \<Longrightarrow> same_object rt g' m' g'' m'' \<Longrightarrow> same_object rt g m g'' m''"
  by (simp add: same_object_def)

lemma frame_same_object:
  "frame rt i t g t' g' \<Longrightarrow> j < length t \<Longrightarrow> j \<noteq> i \<Longrightarrow> same_object rt g (t ! j) g' (t' ! j)"
  by (simp add: frame_def same_object_def)

lemma frame_preserves:
  "frame rt i t g t' g' \<Longrightarrow>
   length t' = length t \<and> (\<forall>j < length t. \<not> i = j \<longrightarrow> same_object rt g (t ! j) g' (t' ! j))"
  using frame_same_object [of rt i t g t' g'] by (auto simp: frame_def)

text \<open>One page: its data goes to the swap space and its device block is freed.\<close>

lemma page_out_one:
  assumes ok: "cuda_ok rt" and inv: "vm_inv rt g t" and i: "i < length t"
    and st: "mm_status (t ! i) = D_READY \<or> mm_status (t ! i) = D_MODIFIED"
  shows "\<exists>sw. copy_into (mm_swap (t ! i)) (cu_content rt (mm_actual_devptr (t ! i)) g)
      (int (mm_size (t ! i))) = Inr sw
    \<and> (let t' = t[i := (t ! i)\<lparr>mm_swap := map_option (\<lambda>_. sw) (mm_swap (t ! i)),
              mm_actual_devptr := 0, mm_status := D_MEMWAIT\<rparr>];
           g' = cu_free rt (mm_actual_devptr (t ! i)) g in
       vm_inv rt g' t' \<and> frame rt i t g t' g' \<and> same_object rt g (t ! i) g' (t' ! i)
       \<and> mm_actual_devptr (t' ! i) = 0)"
proof -
  let ?m = "t ! i" let ?p = "mm_actual_devptr (t ! i)"
  note node = vm_inv_node [OF inv i]
  have dev: "on_device (mm_status ?m)" using st by (auto simp: on_device_def)
  have p: "?p \<noteq> 0" "cu_live rt ?p g" "length (cu_content rt ?p g) = mm_size ?m"
    using node dev by (auto simp: node_inv_def)
  have valid: "mm_valid ?m \<noteq> 0" using node p(1) by (auto simp: node_inv_def split: if_splits)
  obtain sw where sw: "mm_swap ?m = Some sw" "length sw = mm_size ?m"
    using node valid by (auto simp: node_inv_def)
  let ?c = "cu_content rt ?p g"
  let ?t = "t[i := ?m\<lparr>mm_swap := Some ?c, mm_actual_devptr := 0, mm_status := D_MEMWAIT\<rparr>]"
  let ?g = "cu_free rt ?p g"
  have c: "copy_into (mm_swap ?m) ?c (int (mm_size ?m)) = Inr ?c"
    using sw p by (simp add: copy_into_def)
  have "vm_inv rt ?g ?t \<and> frame rt i t g ?t ?g"
    by (rule vm_inv_update [OF inv i])
      (use p valid cuda_free [OF ok p(2)] vm_inv_other [OF inv i] in
        \<open>auto simp: node_inv_def on_device_def\<close>)
  then show ?thesis
    using c sw(1) i dev st by (auto simp: Let_def same_object_def vdata_def on_device_def)
qed

lemma page_out_spec:
  assumes "cuda_ok rt" and "vm_inv rt g t" and "\<forall>x \<in> set xs. 0 \<le> x \<and> x < int (length t)"
  shows "\<exists>t' g'. page_out_loop rt xs t g = Inr (t', g') \<and> vm_inv rt g' t' \<and> length t' = length t
    \<and> (\<forall>j < length t. same_object rt g (t ! j) g' (t' ! j)
         \<and> (int j \<in> set xs \<longrightarrow> mm_status (t' ! j) \<noteq> D_READY \<and> mm_status (t' ! j) \<noteq> D_MODIFIED)
         \<and> (mm_status (t ! j) \<noteq> D_READY \<and> mm_status (t ! j) \<noteq> D_MODIFIED \<longrightarrow>
            t' ! j = t ! j))"
  using assms(2,3)
proof (induction xs arbitrary: t g)
  case Nil
  then show ?case by simp
next
  case (Cons x xs)
  obtain i where x: "x = int i" "i < length t"
    using Cons.prems(2) by (metis insertI1 list.simps(15) of_nat_less_iff zero_le_imp_eq_int)
  show ?case
  proof (cases "mm_status (t ! i) = D_READY \<or> mm_status (t ! i) = D_MODIFIED")
    case False
    then have e: "page_out_loop rt (x # xs) t g = page_out_loop rt xs t g"
      using x by simp
    have "\<forall>x \<in> set xs. 0 \<le> x \<and> x < int (length t)" using Cons.prems(2) by simp
    from Cons.IH [OF Cons.prems(1) this] show ?thesis
      unfolding e using False x by (elim exE conjE) (intro exI conjI; auto)
  next
    case True
    obtain sw where c: "copy_into (mm_swap (t ! i)) (cu_content rt (mm_actual_devptr (t ! i)) g)
        (int (mm_size (t ! i))) = Inr sw"
      and step: "let t' = t[i := (t ! i)\<lparr>mm_swap := map_option (\<lambda>_. sw) (mm_swap (t ! i)),
              mm_actual_devptr := 0, mm_status := D_MEMWAIT\<rparr>];
           g' = cu_free rt (mm_actual_devptr (t ! i)) g in
       vm_inv rt g' t' \<and> frame rt i t g t' g' \<and> same_object rt g (t ! i) g' (t' ! i)
       \<and> mm_actual_devptr (t' ! i) = 0"
      using page_out_one [OF assms(1) Cons.prems(1) x(2) True] by blast
    define t1 where "t1 = t[i := (t ! i)\<lparr>mm_swap := map_option (\<lambda>_. sw) (mm_swap (t ! i)),
              mm_actual_devptr := 0, mm_status := D_MEMWAIT\<rparr>]"
    define g1 where "g1 = cu_free rt (mm_actual_devptr (t ! i)) g"
    have s1: "vm_inv rt g1 t1" "frame rt i t g t1 g1" "same_object rt g (t ! i) g1 (t1 ! i)"
      using step by (auto simp: Let_def t1_def g1_def)
    have l1: "length t1 = length t" "mm_status (t1 ! i) = D_MEMWAIT"
      using x(2) by (simp_all add: t1_def)
    have e: "page_out_loop rt (x # xs) t g = page_out_loop rt xs t1 g1"
      using x True c by (simp add: t1_def g1_def)
    have "\<forall>x \<in> set xs. 0 \<le> x \<and> x < int (length t1)" using Cons.prems(2) l1 by simp
    from Cons.IH [OF s1(1) this] obtain t' g' where r:
      "page_out_loop rt xs t1 g1 = Inr (t', g')" "vm_inv rt g' t'" "length t' = length t1"
      "\<forall>j < length t1. same_object rt g1 (t1 ! j) g' (t' ! j)
         \<and> (int j \<in> set xs \<longrightarrow> mm_status (t' ! j) \<noteq> D_READY \<and> mm_status (t' ! j) \<noteq> D_MODIFIED)
         \<and> (mm_status (t1 ! j) \<noteq> D_READY \<and> mm_status (t1 ! j) \<noteq> D_MODIFIED \<longrightarrow>
            t' ! j = t1 ! j)"
      by blast
    have j: "same_object rt g (t ! j) g' (t' ! j)
         \<and> (int j \<in> set (x # xs) \<longrightarrow> mm_status (t' ! j) \<noteq> D_READY \<and> mm_status (t' ! j) \<noteq> D_MODIFIED)
         \<and> (mm_status (t ! j) \<noteq> D_READY \<and> mm_status (t ! j) \<noteq> D_MODIFIED \<longrightarrow> t' ! j = t ! j)"
      if "j < length t" for j
    proof (cases "j = i")
      case True
      have q: "i < length t1" using l1(1) x(2) by simp
      have k: "same_object rt g1 (t1 ! i) g' (t' ! i)" using r(4) q by blast
      have k2: "t' ! i = t1 ! i" using r(4) q l1(2) by simp
      have "same_object rt g (t ! i) g' (t' ! i)"
        using s1(3) k by (rule same_object_trans)
      then show ?thesis
        using True k2 l1 \<open>mm_status (t ! i) = D_READY \<or> mm_status (t ! i) = D_MODIFIED\<close> by auto
    next
      case False
      have f: "same_object rt g (t ! j) g1 (t1 ! j)"
        by (rule frame_same_object [OF s1(2) that False])
      have k: "t1 ! j = t ! j" using False by (simp add: t1_def)
      have "same_object rt g1 (t1 ! j) g' (t' ! j)" using r(4) l1(1) that by simp
      with f have "same_object rt g (t ! j) g' (t' ! j)" by (rule same_object_trans)
      then show ?thesis using r(4) l1(1) k that False x(1) by auto
    qed
    show ?thesis unfolding e using r l1 j by auto
  qed
qed

section \<open>Sequences of operations\<close>

text \<open>
  The operations as a step relation: an operation is possible where its preconditions hold
  (creation in an unused slot, copies within the object), and its effect is what the function
  returns. The label says which object it may change.
\<close>

datatype vop = VCreat nat nat | VDelete nat | VWrite nat "byte list" int | VRead nat int
  | VPageOut "int list"

definition hm_ok :: "(nat \<Rightarrow> byte list option) \<Rightarrow> bool" where
  "hm_ok hm \<longleftrightarrow> (\<forall>n. \<exists>sw. hm n = Some sw \<and> length sw = n)"

inductive vm_step :: "'g cuda_rt \<Rightarrow> (nat \<Rightarrow> byte list option) \<Rightarrow> vop \<Rightarrow>
    mem_map list \<times> 'g \<Rightarrow> byte list option \<Rightarrow> mem_map list \<times> 'g \<Rightarrow> bool"
  for rt hm where
  v_creat: "\<lbrakk>i < length t; mm_valid (t ! i) = 0;
     mem_map_creat rt hm t dv sz (int i) g = Inr (r, dv', t', g')\<rbrakk> \<Longrightarrow>
     vm_step rt hm (VCreat i sz) (t, g) None (t', g')"
| v_delete: "\<lbrakk>i < length t; mem_map_delete rt t (int i) g = Inr (t', g')\<rbrakk> \<Longrightarrow>
     vm_step rt hm (VDelete i) (t, g) None (t', g')"
| v_write: "\<lbrakk>i < length t; mm_valid (t ! i) \<noteq> 0; 0 \<le> n; n \<le> int (mm_size (t ! i));
     n \<le> int (length src);
     mem_map_memcpy rt t (int i) src n (method_num CUDA_MEMCPY_H2D) g = Inr (out, t', g')\<rbrakk> \<Longrightarrow>
     vm_step rt hm (VWrite i src n) (t, g) None (t', g')"
| v_read: "\<lbrakk>i < length t; mm_valid (t ! i) \<noteq> 0; 0 \<le> n; n \<le> int (mm_size (t ! i));
     mem_map_memcpy rt t (int i) [] n (method_num CUDA_MEMCPY_D2H) g = Inr (out, t', g')\<rbrakk> \<Longrightarrow>
     vm_step rt hm (VRead i n) (t, g) out (t', g')"
| v_page_out: "\<lbrakk>\<forall>x \<in> set xs. 0 \<le> x \<and> x < int (length t);
     gvirt_page_out rt xs (int (length xs)) t g = Inr (t', g')\<rbrakk> \<Longrightarrow>
     vm_step rt hm (VPageOut xs) (t, g) None (t', g')"

inductive_cases vm_stepE: "vm_step rt hm op s out s'"
inductive_cases vm_readE: "vm_step rt hm (VRead i n) s out s'"
inductive_cases vm_writeE: "vm_step rt hm (VWrite i src n) s out s'"

inductive vm_run :: "'g cuda_rt \<Rightarrow> (nat \<Rightarrow> byte list option) \<Rightarrow> vop list \<Rightarrow>
    mem_map list \<times> 'g \<Rightarrow> mem_map list \<times> 'g \<Rightarrow> bool"
  for rt hm where
  finish: "vm_run rt hm [] s s"
| more: "vm_step rt hm op s out s' \<Longrightarrow> vm_run rt hm ops s' s'' \<Longrightarrow> vm_run rt hm (op # ops) s s''"

fun touches :: "nat \<Rightarrow> vop \<Rightarrow> bool" where
  "touches i (VCreat j sz) \<longleftrightarrow> j = i"
| "touches i (VDelete j) \<longleftrightarrow> j = i"
| "touches i (VWrite j src n) \<longleftrightarrow> j = i"
| "touches i (VRead j n) \<longleftrightarrow> False"
| "touches i (VPageOut xs) \<longleftrightarrow> False"

lemma memcpy_h2d: "i < length t \<Longrightarrow>
    mem_map_memcpy rt t (int i) src n (method_num CUDA_MEMCPY_H2D) g = mem_map_h2d rt t i (t ! i) src n g"
  by (simp add: mem_map_memcpy_def)

lemma memcpy_d2h: "i < length t \<Longrightarrow>
    mem_map_memcpy rt t (int i) src n (method_num CUDA_MEMCPY_D2H) g = mem_map_d2h rt t i (t ! i) n g"
  by (simp add: mem_map_memcpy_def method_num_inj)

text \<open>One step: the invariant, and the objects the operation does not name.\<close>

lemma vm_step_preserves:
  assumes "vm_step rt hm op (t, g) out (t', g')" and ok: "cuda_ok rt" and hm: "hm_ok hm"
    and inv: "vm_inv rt g t"
  shows "vm_inv rt g' t' \<and> length t' = length t
    \<and> (\<forall>j < length t. \<not> touches j op \<longrightarrow> same_object rt g (t ! j) g' (t' ! j))"
  using assms(1)
proof (cases rule: vm_step.cases)
  case (v_creat i dv sz r dv')
  have "mm_actual_devptr (t ! i) = 0"
    using vm_inv_node [OF inv v_creat(3)] v_creat(4) by (simp add: node_inv_def)
  moreover obtain sw where "hm sz = Some sw" "length sw = sz" using hm by (auto simp: hm_ok_def)
  ultimately obtain t1 g1 where r: "mem_map_creat rt hm t dv sz (int i) g = Inr (0, dv, t1, g1)"
    "vm_inv rt g1 t1" "frame rt i t g t1 g1"
    using creat_spec [OF ok inv v_creat(3), of hm sz sw dv] by blast
  then have "t' = t1" "g' = g1" using v_creat(5) by simp_all
  then show ?thesis using r(2) frame_preserves [OF r(3)] v_creat(1) by simp
next
  case (v_delete i)
  obtain t1 g1 where r: "mem_map_delete rt t (int i) g = Inr (t1, g1)"
    "vm_inv rt g1 t1" "frame rt i t g t1 g1"
    using delete_spec [OF ok inv v_delete(3)] by blast
  then have "t' = t1" "g' = g1" using v_delete(4) by simp_all
  then show ?thesis using r(2) frame_preserves [OF r(3)] v_delete(1) by simp
next
  case (v_write i n src out')
  obtain t1 g1 where r: "mem_map_h2d rt t i (t ! i) src n g = Inr (None, t1, g1)"
    "vm_inv rt g1 t1" "frame rt i t g t1 g1"
    using h2d_spec [OF ok inv v_write(3-7)] by blast
  have "mem_map_h2d rt t i (t ! i) src n g = Inr (out', t', g')"
    using v_write(8) unfolding memcpy_h2d [OF v_write(3)] .
  with r(1) have "t' = t1" "g' = g1" by simp_all
  then show ?thesis using r(2) frame_preserves [OF r(3)] v_write(1) by simp
next
  case (v_read i n)
  obtain out1 t1 where r: "mem_map_d2h rt t i (t ! i) n g = Inr (out1, t1, g)"
    "vm_inv rt g t1" "frame rt i t g t1 g" "vdata rt g (t1 ! i) = vdata rt g (t ! i)"
    using d2h_spec [OF inv v_read(2-5)] by blast
  have "mem_map_d2h rt t i (t ! i) n g = Inr (out, t', g')"
    using v_read(6) unfolding memcpy_d2h [OF v_read(2)] .
  with r(1) have e: "t' = t1" "g' = g" by simp_all
  have "same_object rt g (t ! i) g (t1 ! i)"
    using r(1,4) v_read(2) by (auto simp: same_object_def mem_map_d2h_def bindr_eq_Inr_iff
        split: if_splits)
  then show ?thesis
    using r frame_same_object [OF r(3)] e by (metis frame_def)
next
  case (v_page_out xs)
  then show ?thesis
    using page_out_spec [OF ok inv v_page_out(3)] by (auto simp: gvirt_page_out_def)
qed

lemma vm_run_preserves:
  assumes "vm_run rt hm ops s s'" and "cuda_ok rt" and "hm_ok hm" and "vm_inv rt (snd s) (fst s)"
    and "\<forall>op \<in> set ops. \<not> touches i op" and "i < length (fst s)"
  shows "vm_inv rt (snd s') (fst s') \<and> length (fst s') = length (fst s)
    \<and> same_object rt (snd s) (fst s ! i) (snd s') (fst s' ! i)"
  using assms
proof (induction rule: vm_run.induct)
  case (finish s)
  then show ?case by simp
next
  case (more op s out s' ops s'')
  obtain t g t' g' where s: "s = (t, g)" "s' = (t', g')" by (cases s; cases s') auto
  have 1: "vm_inv rt g' t' \<and> length t' = length t
    \<and> (\<forall>j < length t. \<not> touches j op \<longrightarrow> same_object rt g (t ! j) g' (t' ! j))"
    using vm_step_preserves [OF more(1)[unfolded s]] more(4-6) s by simp
  with more s show ?case by (auto intro: same_object_trans)
qed

text \<open>The invariant alone holds after any sequence, whatever it touches.\<close>

lemma vm_run_inv:
  assumes "vm_run rt hm ops s s'" and "cuda_ok rt" and "hm_ok hm" and "vm_inv rt (snd s) (fst s)"
  shows "vm_inv rt (snd s') (fst s')"
  using assms
proof (induction rule: vm_run.induct)
  case (finish s)
  then show ?case by simp
next
  case (more op s out s' ops s'')
  then show ?case
    using vm_step_preserves [of rt hm op "fst s" "snd s" out "fst s'" "snd s'"] by simp
qed

end
