(* ===== verification/Vmem_Properties.thy ===== *)
theory Vmem_Properties
  imports Vmem_Inv
begin

text \<open>
  The properties of the virtual memory of virtmem/cuda_vmem.c: the invariant of the memory map
  and the transparency of paging on the one side, and what the kernel map, the paging test, the
  page-in and the launch really do on the other.
\<close>

section \<open>A concrete device\<close>

text \<open>A device that has room for one block.\<close>

definition demo_rt :: "byte list option cuda_rt" where
  "demo_rt = \<lparr>cu_malloc = (\<lambda>n g. if g = None then (Some 0x1000, Some (replicate n 0)) else (None, g)),
     cu_free = (\<lambda>p g. if p = 0x1000 then None else g),
     cu_h2d = (\<lambda>p s g. if p = 0x1000 then map_option (\<lambda>c. s @ drop (length s) c) g else g),
     cu_content = (\<lambda>p g. if p = 0x1000 then (case g of None \<Rightarrow> [] | Some c \<Rightarrow> c) else []),
     cu_live = (\<lambda>p g. p = 0x1000 \<and> g \<noteq> None)\<rparr>"

lemma demo_rt_ok: "cuda_ok demo_rt"
  by (auto simp: cuda_ok_def cuda_malloc_ok_def cuda_fail_ok_def cuda_free_ok_def cuda_h2d_ok_def
      demo_rt_def split: if_splits)

definition demo_hm :: "nat \<Rightarrow> byte list option" where
  "demo_hm n = Some (replicate n 0xEE)"

lemma demo_hm_ok: "hm_ok demo_hm"
  by (simp add: hm_ok_def demo_hm_def)

definition blank_node :: "nat \<Rightarrow> mem_map" where
  "blank_node i = \<lparr>mm_addr = word_of_nat (0x7000 + 48 * i), mm_valid = 0, mm_handle = int i,
     mm_actual_devptr = 0, mm_swap = None, mm_size = 0, mm_status = D_NOALLOC, mm_pid = 1,
     mm_freq = 0\<rparr>"

section \<open>Paging is transparent\<close>

lemma mem_map_init_loop_ok:
  "i + k \<le> length t \<Longrightarrow> \<exists>t'. mem_map_init_loop pid k i t = Inr t' \<and> length t' = length t
     \<and> (\<forall>j < length t. if i \<le> j \<and> j < i + k then mm_valid (t' ! j) = 0
          \<and> mm_actual_devptr (t' ! j) = 0 \<and> mm_status (t' ! j) = D_NOALLOC else t' ! j = t ! j)"
proof (induction k arbitrary: i t)
  case 0
  then show ?case by auto
next
  case (Suc k)
  let ?m = "(t ! i)\<lparr>mm_valid := 0, mm_actual_devptr := 0, mm_swap := None, mm_handle := int i,
    mm_size := 0, mm_status := D_NOALLOC, mm_pid := pid, mm_freq := 0\<rparr>"
  have i: "i < length t" using Suc.prems by simp
  obtain t' where t': "mem_map_init_loop pid k (i + 1) (t[i := ?m]) = Inr t'"
    "length t' = length (t[i := ?m])"
    "\<forall>j < length (t[i := ?m]). if i + 1 \<le> j \<and> j < i + 1 + k then mm_valid (t' ! j) = 0
       \<and> mm_actual_devptr (t' ! j) = 0 \<and> mm_status (t' ! j) = D_NOALLOC
       else t' ! j = t[i := ?m] ! j"
    using Suc.IH [of "i + 1" "t[i := ?m]"] Suc.prems by auto
  have "\<forall>j < length t. if i \<le> j \<and> j < i + Suc k then mm_valid (t' ! j) = 0
     \<and> mm_actual_devptr (t' ! j) = 0 \<and> mm_status (t' ! j) = D_NOALLOC else t' ! j = t ! j"
    using t'(2,3) i by (auto simp: nth_list_update Suc_le_eq split: if_splits)
  then show ?case using t' i by auto
qed

lemma mem_map_init_inv:
  fixes rt :: "'g cuda_rt" and g :: 'g
  assumes "mem_map_init pid t (int (length t)) = Inr t0"
  shows "vm_inv rt g t0"
proof -
  obtain t' where t': "mem_map_init_loop pid (length t) 0 t = Inr t'" "length t' = length t"
    "\<forall>j < length t. if 0 \<le> j \<and> j < 0 + length t then mm_valid (t' ! j) = 0
        \<and> mm_actual_devptr (t' ! j) = 0 \<and> mm_status (t' ! j) = D_NOALLOC else t' ! j = t ! j"
    using mem_map_init_loop_ok [of 0 "length t" t pid] by auto
  then have "t0 = t'" using assms by (simp add: mem_map_init_def)
  then show ?thesis using t'(2,3) by (simp add: vm_inv_def node_inv_def on_device_def)
qed

text \<open>C8. From an initialised memory map on, whatever sequence of allocations, deletions,
  copies and page-outs is executed, the map stays consistent: a node has a device block exactly
  when its status says so, that block is allocated and has the size of the object, no two nodes
  share one, and every valid node has a swap space of its size.\<close>

theorem vmem_invariant:
  assumes "cuda_ok rt" and "hm_ok hm" and "mem_map_init pid t (int (length t)) = Inr t0"
    and "vm_run rt hm ops (t0, g) (t', g')"
  shows "vm_inv rt g' t'"
  using vm_run_inv [OF assms(4,1,2)] mem_map_init_inv [OF assms(3), of rt g] by simp

text \<open>The one object, of four bytes, that the examples use: allocated, nothing written yet.\<close>

definition fresh_node :: mem_map where
  "fresh_node = (blank_node 0)\<lparr>mm_valid := 1, mm_actual_devptr := 0x1000,
     mm_swap := Some [0xEE, 0xEE, 0xEE, 0xEE], mm_size := 4, mm_status := D_INIT\<rparr>"

lemmas demo_defs = demo_rt_def demo_hm_def blank_node_def fresh_node_def

lemma replicate_4: "replicate 4 x = [x, x, x, x]"
  by (simp add: numeral_eq_Suc)

lemma upt_3: "[0..<3] = [0, 1, 2]"
  by (simp add: upt_rec numeral_eq_Suc)

lemma fresh_node_inv: "vm_inv demo_rt (Some [0, 0, 0, 0]) [fresh_node]"
  by (simp add: vm_inv_def node_inv_def on_device_def demo_defs)

lemma vmem_invariant_witness:
  "vm_inv demo_rt (Some [0, 0, 0, 0]) [fresh_node]"
proof -
  have i: "mem_map_init 1 [blank_node 0] (int (length [blank_node 0])) = Inr [blank_node 0]"
    by (simp add: mem_map_init_def blank_node_def nthr_def)
  have "mem_map_creat demo_rt demo_hm [blank_node 0] 0 4 (int 0) None
      = Inr (0, 0, [fresh_node], Some [0, 0, 0, 0])"
    by (simp add: mem_map_creat_def demo_defs nthri_def nthr_def replicate_4)
  then have "vm_step demo_rt demo_hm (VCreat 0 4) ([blank_node 0], None) None
      ([fresh_node], Some [0, 0, 0, 0])"
    by (intro v_creat) (simp_all add: blank_node_def)
  then have r: "vm_run demo_rt demo_hm [VCreat 0 4] ([blank_node 0], None)
      ([fresh_node], Some [0, 0, 0, 0])"
    by (blast intro: vm_run.intros)
  show ?thesis by (rule vmem_invariant [OF demo_rt_ok demo_hm_ok i r])
qed

text \<open>C7. What the application copies to a device object is what it reads back, whatever
  happens to other objects in between and however often the object is paged out: the read
  succeeds and gives the bytes written.\<close>

theorem vmem_write_read:
  assumes "cuda_ok rt" and "hm_ok hm" and "vm_inv rt g t"
    and "vm_step rt hm (VWrite i src n) (t, g) out1 s1" and "vm_run rt hm ops s1 s2"
    and "\<forall>op \<in> set ops. \<not> touches i op" and "0 \<le> k" and "k \<le> n"
  shows "\<exists>s3. vm_step rt hm (VRead i k) s2 (Some (take (nat k) src)) s3"
proof -
  obtain t1 g1 t2 g2 where s: "s1 = (t1, g1)" "s2 = (t2, g2)" by (cases s1; cases s2) auto
  from assms(4) obtain out where w: "i < length t" "mm_valid (t ! i) \<noteq> 0" "0 \<le> n"
    "n \<le> int (mm_size (t ! i))" "n \<le> int (length src)"
    "mem_map_memcpy rt t (int i) src n (method_num CUDA_MEMCPY_H2D) g = Inr (out, t1, g1)"
    unfolding s by (rule vm_writeE) auto
  have h: "mem_map_h2d rt t i (t ! i) src n g = Inr (out, t1, g1)"
    using w(6) unfolding memcpy_h2d [OF w(1)] .
  have a: "vm_inv rt g1 t1 \<and> frame rt i t g t1 g1
    \<and> vdata rt g1 (t1 ! i) = take (nat n) src @ drop (nat n) (vdata rt g (t ! i))
    \<and> mm_status (t1 ! i) \<notin> {D_NOALLOC, D_INIT}
    \<and> mm_valid (t1 ! i) \<noteq> 0 \<and> mm_size (t1 ! i) = mm_size (t ! i)"
    using h2d_spec [OF assms(1,3) w(1-5)] unfolding h by blast
  then have i1: "i < length t1" using w(1) by (simp add: frame_def)
  have b: "vm_inv rt g2 t2 \<and> length t2 = length t1 \<and> same_object rt g1 (t1 ! i) g2 (t2 ! i)"
    using vm_run_preserves [OF assms(5,1,2) _ assms(6)] a i1 s by simp
  then have i2: "i < length t2" "mm_valid (t2 ! i) \<noteq> 0" "k \<le> int (mm_size (t2 ! i))"
    using i1 a w(4) assms(8) by (auto simp: same_object_def)
  have st: "mm_status (t2 ! i) \<notin> {D_NOALLOC, D_INIT}"
    using a b unfolding same_object_def by blast
  have v: "take (nat k) (vdata rt g2 (t2 ! i)) = take (nat k) src"
    using a b assms(7,8) w(3,5) by (auto simp: same_object_def min_absorb1 nat_mono)
  obtain t3 where "mem_map_d2h rt t2 i (t2 ! i) k g2 = Inr (Some (take (nat k) src), t3, g2)"
    using d2h_spec [OF conjunct1 [OF b] i2(1,2) assms(7) i2(3)] st v by auto
  then have "mem_map_memcpy rt t2 (int i) [] k (method_num CUDA_MEMCPY_D2H) g2
      = Inr (Some (take (nat k) src), t3, g2)"
    unfolding memcpy_d2h [OF i2(1)] .
  from v_read [OF i2(1,2) assms(7) i2(3) this] show ?thesis unfolding s by blast
qed

text \<open>Written, paged out, and read back.\<close>

definition waiting_node :: mem_map where
  "waiting_node = fresh_node\<lparr>mm_actual_devptr := 0, mm_swap := Some [1, 2, 3, 0],
     mm_status := D_MEMWAIT\<rparr>"

definition ready_node :: mem_map where
  "ready_node = fresh_node\<lparr>mm_swap := Some [1, 2, 3, 0xEE], mm_status := D_READY\<rparr>"

lemma demo_write: "vm_step demo_rt demo_hm (VWrite 0 [1, 2, 3] 3)
    ([fresh_node], Some [0, 0, 0, 0]) None ([ready_node], Some [1, 2, 3, 0])"
  by (rule v_write [where out = None])
    (simp_all add: mem_map_memcpy_def mem_map_h2d_def copy_into_def ready_node_def demo_defs
      nthri_def nthr_def)

lemma demo_page_out: "gvirt_page_out demo_rt [0] (int (length [0::int])) [ready_node]
    (Some [1, 2, 3, 0]) = Inr ([waiting_node], None)"
  by (simp add: gvirt_page_out_def copy_into_def waiting_node_def ready_node_def demo_defs
      nthri_def nthr_def)

lemma vmem_write_read_witness:
  "\<exists>s3. vm_step demo_rt demo_hm (VRead 0 2) ([waiting_node], None) (Some [1, 2]) s3"
proof -
  have p: "vm_run demo_rt demo_hm [VPageOut [0]] ([ready_node], Some [1, 2, 3, 0])
      ([waiting_node], None)"
    by (rule more [OF v_page_out [OF _ demo_page_out] finish]) simp
  show ?thesis
    using vmem_write_read [OF demo_rt_ok demo_hm_ok fresh_node_inv demo_write p, of 2]
    by (simp add: numeral_eq_Suc)
qed

text \<open>C23. A page-out of pages that exist returns, frees the device blocks of the requested
  objects that were on the device with data, and changes the data of no object.\<close>

theorem page_out_preserves_data:
  assumes "cuda_ok rt" and "vm_inv rt g t" and "\<forall>x \<in> set req. 0 \<le> x \<and> x < int (length t)"
  shows "\<exists>t' g'. gvirt_page_out rt req (int (length req)) t g = Inr (t', g')
    \<and> vm_inv rt g' t' \<and> length t' = length t
    \<and> (\<forall>j < length t. vdata rt g' (t' ! j) = vdata rt g (t ! j)
         \<and> (int j \<in> set req \<longrightarrow> mm_status (t ! j) = D_READY \<or> mm_status (t ! j) = D_MODIFIED \<longrightarrow>
              mm_actual_devptr (t' ! j) = 0))"
proof -
  obtain t' g' where r: "page_out_loop rt req t g = Inr (t', g')" "vm_inv rt g' t'"
    "length t' = length t"
    "\<forall>j < length t. same_object rt g (t ! j) g' (t' ! j)
         \<and> (int j \<in> set req \<longrightarrow> mm_status (t' ! j) \<noteq> D_READY \<and> mm_status (t' ! j) \<noteq> D_MODIFIED)
         \<and> (mm_status (t ! j) \<noteq> D_READY \<and> mm_status (t ! j) \<noteq> D_MODIFIED \<longrightarrow> t' ! j = t ! j)"
    using page_out_spec [OF assms] by blast
  have "mm_actual_devptr (t' ! j) = 0"
    if j: "j < length t" "int j \<in> set req"
      "mm_status (t ! j) = D_READY \<or> mm_status (t ! j) = D_MODIFIED" for j
  proof -
    have "mm_status (t' ! j) \<notin> {D_NOALLOC, D_INIT}"
      using r(4) j(1,3) unfolding same_object_def by auto
    then have "\<not> on_device (mm_status (t' ! j))"
      using r(4) j by (auto simp: on_device_def)
    then show ?thesis using vm_inv_node [OF r(2)] r(3) j(1) by (simp add: node_inv_def)
  qed
  then show ?thesis
    using r by (auto simp: gvirt_page_out_def same_object_def)
qed

lemma page_out_preserves_data_witness:
  "\<exists>t' g'. gvirt_page_out demo_rt [0] (int (length [0::int])) [ready_node] (Some [1, 2, 3, 0])
      = Inr (t', g') \<and> vdata demo_rt g' (t' ! 0) = [1, 2, 3, 0] \<and> mm_actual_devptr (t' ! 0) = 0"
proof -
  have v: "vm_inv demo_rt (Some [1, 2, 3, 0]) [ready_node]"
    by (simp add: vm_inv_def node_inv_def on_device_def ready_node_def demo_defs)
  have d: "vdata demo_rt (Some [1, 2, 3, 0]) ready_node = [1, 2, 3, 0]"
    by (simp add: vdata_def on_device_def ready_node_def demo_defs)
  show ?thesis
    using page_out_preserves_data [OF demo_rt_ok v, of "[0]"] d
    by (auto simp: ready_node_def fresh_node_def)
qed

section \<open>Finding an object\<close>

lemma find_entry_loop_skip:
  "\<lbrakk>\<forall>x \<in> set xs. x < 0 \<or> (x < int (length t) \<and> devptr \<noteq> handle_addr (t ! nat x))\<rbrakk> \<Longrightarrow>
   find_entry_loop t (xs @ ys) devptr i = find_entry_loop t ys devptr (i + int (length xs))"
proof (induction xs arbitrary: i)
  case (Cons x xs)
  then show ?case by (auto simp: nthri_def nthr_def algebra_simps)
qed simp

lemma find_entry_loop_Nil: "find_entry_loop t [] devptr i = Inr (-1)"
  by simp

text \<open>The look-up of a device pointer gives the first position of the index list whose
  entry is the node that the pointer belongs to, negative entries being skipped, and -1 when no
  node has it.\<close>

theorem mem_map_find_entry_first:
  assumes "len \<le> length idx" and "devptr \<noteq> 0"
    and "\<forall>x \<in> set (take len idx). x < int (length t)"
  shows "mem_map_find_entry t idx len devptr = Inr
    (case List.find (\<lambda>p. 0 \<le> idx ! p \<and> handle_addr (t ! nat (idx ! p)) = devptr) [0..<len] of
       None \<Rightarrow> -1 | Some p \<Rightarrow> int p)"
proof (cases "List.find (\<lambda>p. 0 \<le> idx ! p \<and> handle_addr (t ! nat (idx ! p)) = devptr) [0..<len]")
  case None
  then have n: "\<forall>p < len. \<not> (0 \<le> idx ! p \<and> handle_addr (t ! nat (idx ! p)) = devptr)"
    by (auto simp: find_None_iff)
  have "\<forall>x \<in> set (take len idx). x < 0 \<or> (x < int (length t) \<and> devptr \<noteq> handle_addr (t ! nat x))"
    using n assms(1,3) by (fastforce simp: in_set_conv_nth)
  then have "find_entry_loop t (take len idx @ []) devptr 0 = Inr (-1)"
    by (subst find_entry_loop_skip) simp_all
  then show ?thesis using assms(1) None by (simp add: mem_map_find_entry_def)
next
  case (Some p)
  then have p: "p < len" "0 \<le> idx ! p" "handle_addr (t ! nat (idx ! p)) = devptr"
    and before: "\<forall>q < p. \<not> (0 \<le> idx ! q \<and> handle_addr (t ! nat (idx ! q)) = devptr)"
    by (auto simp: find_Some_iff)
  have split: "take len idx = take p idx @ idx ! p # drop (Suc p) (take len idx)"
    using p(1) assms(1) id_take_nth_drop [of p "take len idx"] by simp
  have "take len idx ! p \<in> set (take len idx)" using p(1) assms(1) by (intro nth_mem) simp
  then have m: "idx ! p < int (length t)" using assms(3) p(1) by simp
  have "\<forall>x \<in> set (take p idx). x < 0 \<or> (x < int (length t) \<and> devptr \<noteq> handle_addr (t ! nat x))"
  proof
    fix x assume "x \<in> set (take p idx)"
    then obtain q where q: "q < p" "x = idx ! q" by (auto simp: in_set_conv_nth)
    then have "x = take len idx ! q" "q < length (take len idx)" using p(1) assms(1) by simp_all
    then have "x \<in> set (take len idx)" using nth_mem by blast
    then show "x < 0 \<or> x < int (length t) \<and> devptr \<noteq> handle_addr (t ! nat x)"
      using q before assms(3) by force
  qed
  then have "find_entry_loop t (take len idx) devptr 0 = Inr (int p)"
    by (subst split, subst find_entry_loop_skip)
      (use p m assms(1,2) in \<open>auto simp: nthri_def nthr_def min_absorb1\<close>)
  then show ?thesis using assms(1) Some by (simp add: mem_map_find_entry_def)
qed

lemma mem_map_find_entry_first_witness:
  "mem_map_find_entry [blank_node 0, blank_node 1] [-1, 1, 0] 3 0x7004 = Inr 2"
  using mem_map_find_entry_first [of 3 "[-1, 1, 0]" "0x7004" "[blank_node 0, blank_node 1]"]
  by (simp add: blank_node_def handle_addr_def upt_3)

section \<open>Where the code fails\<close>

lemma kmap_init_loop_short:
  "length ks - i < k \<Longrightarrow> kmap_init_loop k i ks = Inl OutOfBounds"
  by (induction k arbitrary: i ks) (auto simp: nthr_def)

text \<open>The kernel map cannot be initialised: the loop writes \<open>MAX_KERNELS\<close> nodes to a
  block that was allocated with the size of another struct and has room for 2222.\<close>

theorem kmap_init_overflows: "kmap_init junk = Inl OutOfBounds"
  by (simp add: kmap_init_def kmap_init_loop_short MAX_KERNELS_def sizeof_kmap_def
      sizeof_kmap_node_def)

text \<open>Paging.\<close>

definition waiting :: "mem_map list \<Rightarrow> kernel_arg_node \<Rightarrow> bool" where
  "waiting t a \<longleftrightarrow> 0 \<le> ka_mem_map_index a \<and> mm_valid (t ! nat (ka_mem_map_index a)) \<noteq> 0
     \<and> mm_status (t ! nat (ka_mem_map_index a)) \<in> {D_MEMWAIT, D_DEFERRED}"

lemma paging_loop_spec:
  "\<lbrakk>\<forall>a \<in> set as. ka_mem_map_index a < int (length t);
    length req + length (filter (waiting t) as) \<le> 50\<rbrakk> \<Longrightarrow>
   paging_loop t as req = Inr (req @ map ka_mem_map_index (filter (waiting t) as))"
proof (induction as arbitrary: req)
  case (Cons a as)
  then show ?case by (auto simp: nthri_def nthr_def waiting_def split: if_splits)
qed simp

text \<open>The paging test answers 1 exactly when an argument of the kernel is a valid object
  that waits in the swap space. In every other case it writes through a null pointer: the answer
  0 is never given.\<close>

theorem is_paging_required_spec:
  assumes "0 \<le> k" and "k < int (length (km_kobjects kt))"
    and "\<forall>a \<in> set (kn_arg_list (km_kobjects kt ! nat k)). ka_mem_map_index a < int (length t)"
    and "length (filter (waiting t) (kn_arg_list (km_kobjects kt ! nat k))) \<le> 50"
  shows "gvirt_is_paging_required kt k t =
    (if \<exists>a \<in> set (kn_arg_list (km_kobjects kt ! nat k)). waiting t a then Inr 1
     else Inl NullDeref)"
  using assms by (auto simp: gvirt_is_paging_required_def nthri_def nthr_def paging_loop_spec
      filter_empty_conv)

definition demo_arg :: "int \<Rightarrow> kernel_arg_node" where
  "demo_arg i = \<lparr>ka_arg = 5, ka_size = 8, ka_offset = 0, ka_mem_map_index = i\<rparr>"

definition demo_kernel :: "kernel_arg_node list \<Rightarrow> kmap" where
  "demo_kernel as = \<lparr>km_kobjects = [\<lparr>kn_valid = 1, kn_launch_pending = 1, kn_gridDim = (1, 1, 1),
     kn_blockDim = (1, 1, 1), kn_sharedMem = 0, kn_stream = 0, kn_arg_list = as,
     kn_func = Some [0x6b]\<rparr>], km_index = 0\<rparr>"

lemma is_paging_required_spec_witness:
  "gvirt_is_paging_required (demo_kernel [demo_arg (-1), demo_arg 0]) 0 [waiting_node] = Inr 1
   \<and> gvirt_is_paging_required (demo_kernel [demo_arg 0]) 0 [ready_node] = Inl NullDeref"
  using is_paging_required_spec [of 0 "demo_kernel [demo_arg (-1), demo_arg 0]" "[waiting_node]"]
    is_paging_required_spec [of 0 "demo_kernel [demo_arg 0]" "[ready_node]"]
  by (simp add: demo_kernel_def demo_arg_def waiting_def waiting_node_def ready_node_def
      demo_defs)

lemma page_in_loop_none:
  "\<lbrakk>\<forall>x \<in> set xs. 0 \<le> x \<and> x < int (length t); \<forall>x \<in> set xs. mm_status (t ! nat x) \<notin> {D_MEMWAIT, D_DEFERRED}\<rbrakk> \<Longrightarrow>
   page_in_loop xs t = Inr t"
  by (induction xs) (auto simp: nthri_def nthr_def)

lemma page_in_loop_some:
  "\<lbrakk>vm_inv rt g t; \<forall>x \<in> set xs. 0 \<le> x \<and> x < int (length t);
    \<exists>x \<in> set xs. mm_status (t ! nat x) \<in> {D_MEMWAIT, D_DEFERRED}\<rbrakk> \<Longrightarrow>
   page_in_loop xs t = Inl NullDeref"
proof (induction xs)
  case (Cons x xs)
  have "mm_status (t ! nat x) \<in> {D_MEMWAIT, D_DEFERRED} \<Longrightarrow> mm_actual_devptr (t ! nat x) = 0"
    using vm_inv_node [OF Cons.prems(1), of "nat x"] Cons.prems(2)
    by (auto simp: node_inv_def on_device_def nat_less_iff)
  then show ?case using Cons by (auto simp: nthri_def nthr_def)
qed simp

text \<open>In a consistent memory map a page-in never brings a page in: as soon as one of the
  requested pages is waiting, the code dereferences the null device pointer of that page,
  otherwise the map is left as it is.\<close>

theorem page_in_never_pages_in:
  assumes "vm_inv rt g t" and "\<forall>x \<in> set req. 0 \<le> x \<and> x < int (length t)" and "semid \<noteq> -1"
  shows "gvirt_page_in semid t req (int (length req)) =
    (if \<exists>x \<in> set req. mm_status (t ! nat x) \<in> {D_MEMWAIT, D_DEFERRED} then Inl NullDeref
     else Inr t)"
proof (cases "\<exists>x \<in> set req. mm_status (t ! nat x) \<in> {D_MEMWAIT, D_DEFERRED}")
  case True
  show ?thesis
    using page_in_loop_some [OF assms(1,2) True] True assms(3) by (simp add: gvirt_page_in_def)
next
  case False
  then show ?thesis
    using page_in_loop_none [OF assms(2)] assms(3) by (auto simp: gvirt_page_in_def)
qed

lemma page_in_never_pages_in_witness:
  "gvirt_page_in 3 [waiting_node] [0] (int (length [0::int])) = Inl NullDeref"
proof -
  have "vm_inv demo_rt None [waiting_node]"
    by (simp add: vm_inv_def node_inv_def on_device_def waiting_node_def demo_defs)
  from page_in_never_pages_in [OF this, of "[0]" 3] show ?thesis
    by (simp add: waiting_node_def)
qed

lemma launch_loop_stuck:
  assumes "launch_loop as t acc = Some r"
  shows "as \<noteq> [] \<longrightarrow> \<not> ka_mem_map_index (hd as) < int (length t)"
  using assms
proof (induction rule: launch_loop.raw_induct)
  case (1 f as t acc r)
  note IH = 1(1)
  show ?case
  proof (cases as)
    case (Cons a rest)
    show ?thesis
    proof (rule ccontr)
      assume "\<not> ?thesis"
      then have lt: "ka_mem_map_index a < int (length t)" by (simp add: Cons)
      show False
      proof (cases "0 \<le> ka_mem_map_index a")
        case True
        let ?m = "t ! nat (ka_mem_map_index a)"
        let ?t = "t[nat (ka_mem_map_index a) := ?m\<lparr>mm_freq := mm_freq ?m + 1\<rparr>]"
        let ?acc = "acc @ [(mm_actual_devptr ?m, ka_size a, ka_offset a)]"
        have m: "nthri t (ka_mem_map_index a) = Inr ?m"
          using True lt by (simp add: nthri_def nthr_def)
        have "launch_loop as t acc = launch_loop as ?t ?acc"
          using True m by (subst launch_loop.simps) (simp add: Cons)
        moreover have "f as ?t ?acc = Some r" using 1(2) True m by (simp add: Cons)
        ultimately have "as \<noteq> [] \<longrightarrow> \<not> ka_mem_map_index (hd as) < int (length ?t)"
          using 1(3) by (intro IH [of as ?t ?acc r]) simp_all
        then show False using lt by (simp add: Cons)
      next
        case False
        let ?acc = "acc @ [(ka_arg a, ka_size a, ka_offset a)]"
        have "launch_loop as t acc = launch_loop as t ?acc"
          using False by (subst launch_loop.simps) (simp add: Cons)
        moreover have "f as t ?acc = Some r" using 1(2) False by (simp add: Cons)
        ultimately have "as \<noteq> [] \<longrightarrow> \<not> ka_mem_map_index (hd as) < int (length t)"
          using 1(3) by (intro IH [of as t ?acc r]) simp_all
        then show False using lt by (simp add: Cons)
      qed
    qed
  qed simp
qed (rule assms)

text \<open>A kernel with an argument is never launched: the loop that sets up the arguments does
  not advance and never ends, whether the first one is a plain value or an object of the memory
  map. A kernel without arguments is launched with its configuration.\<close>

theorem launch_with_arguments_hangs:
  assumes "0 \<le> k" and "k < int (length (km_kobjects kt))"
    and "\<forall>a \<in> set (kn_arg_list (km_kobjects kt ! nat k)). ka_mem_map_index a < int (length t)"
  shows "gvirt_cuda_launch_index kt k t =
    (let n = km_kobjects kt ! nat k in
     if kn_arg_list n = [] then Some (Inr (t, \<lparr>cl_gridDim = kn_gridDim n,
       cl_blockDim = kn_blockDim n, cl_sharedMem = kn_sharedMem n, cl_stream = kn_stream n,
       cl_args = [], cl_func = kn_func n\<rparr>)) else None)"
proof (cases "kn_arg_list (km_kobjects kt ! nat k)")
  case Nil
  then show ?thesis using assms
    by (simp add: gvirt_cuda_launch_index_def nthri_def nthr_def launch_loop.simps Let_def)
next
  case (Cons a as)
  then have "launch_loop (a # as) t [] = None"
    using launch_loop_stuck [of "a # as" t "[]"] assms(3) by (cases "launch_loop (a # as) t []") auto
  then show ?thesis using assms Cons
    by (simp add: gvirt_cuda_launch_index_def nthri_def nthr_def Let_def)
qed

lemma launch_with_arguments_hangs_witness:
  "gvirt_cuda_launch_index (demo_kernel [demo_arg (-1)]) 0 [ready_node] = None
   \<and> gvirt_cuda_launch_index (demo_kernel []) 0 [ready_node] = Some (Inr ([ready_node],
       \<lparr>cl_gridDim = (1, 1, 1), cl_blockDim = (1, 1, 1), cl_sharedMem = 0, cl_stream = 0,
        cl_args = [], cl_func = Some [0x6b]\<rparr>))"
  using launch_with_arguments_hangs [of 0 "demo_kernel [demo_arg (-1)]" "[ready_node]"]
    launch_with_arguments_hangs [of 0 "demo_kernel []" "[ready_node]"]
  by (simp add: demo_kernel_def demo_arg_def)

text \<open>Creating an object in a free slot succeeds and gives it a device block, or the swap
  space alone when the device is full, but the caller's device pointer keeps the value it had.\<close>

theorem mem_map_creat_loses_devptr:
  assumes "cuda_ok rt" and "hm_ok hm" and "vm_inv rt g t" and "i < length t"
    and "mm_valid (t ! i) = 0"
  shows "\<exists>t' g'. mem_map_creat rt hm t devptr sz (int i) g = Inr (0, devptr, t', g')
    \<and> vm_inv rt g' t' \<and> mm_valid (t' ! i) = 1 \<and> mm_size (t' ! i) = sz
    \<and> (\<forall>j < length t. j \<noteq> i \<longrightarrow> t' ! j = t ! j)"
proof -
  have "mm_actual_devptr (t ! i) = 0"
    using vm_inv_node [OF assms(3,4)] assms(5) by (simp add: node_inv_def)
  moreover obtain sw where "hm sz = Some sw" "length sw = sz"
    using assms(2) by (auto simp: hm_ok_def)
  ultimately show ?thesis
    using creat_spec [OF assms(1,3,4), of hm sz sw devptr] by (auto simp: frame_def)
qed

lemma mem_map_creat_loses_devptr_witness:
  "\<exists>t' g'. mem_map_creat demo_rt demo_hm [blank_node 0] 0 4 (int 0) None = Inr (0, 0, t', g')"
proof -
  have "vm_inv demo_rt None [blank_node 0]"
    by (simp add: vm_inv_def node_inv_def on_device_def blank_node_def)
  from mem_map_creat_loses_devptr [OF demo_rt_ok demo_hm_ok this, of 0 0 4] show ?thesis
    by (auto simp: blank_node_def)
qed

end
