(* ===== verification/Sched_Common.thy ===== *)
theory Sched_Common
  imports Gvirt_Base "HOL-Library.Log_Nat" "HOL-Library.Signed_Division"
begin

text \<open>
  What the two schedulers share: the time values of sys/time.h, single-precision arithmetic as
  the time slices use it, the table of the processes (l2scheduler/sched_commons.h) and the
  requests of the processes to the scheduler.
\<close>

section \<open>Time values\<close>

text \<open>The fields are 64-bit integers; times are far below that.\<close>

record timeval =
  tv_sec :: int
  tv_usec :: int

definition timersub :: "timeval \<Rightarrow> timeval \<Rightarrow> timeval" where
  "timersub a b = (let s = tv_sec a - tv_sec b; u = tv_usec a - tv_usec b in
     if u < 0 then \<lparr>tv_sec = s - 1, tv_usec = u + 1000000\<rparr> else \<lparr>tv_sec = s, tv_usec = u\<rparr>)"

definition timeradd :: "timeval \<Rightarrow> timeval \<Rightarrow> timeval" where
  "timeradd a b = (let s = tv_sec a + tv_sec b; u = tv_usec a + tv_usec b in
     if 1000000 \<le> u then \<lparr>tv_sec = s + 1, tv_usec = u - 1000000\<rparr>
     else \<lparr>tv_sec = s, tv_usec = u\<rparr>)"

definition timer_less :: "timeval \<Rightarrow> timeval \<Rightarrow> bool" where
  "timer_less a b \<longleftrightarrow>
     (if tv_sec a = tv_sec b then tv_usec a < tv_usec b else tv_sec a < tv_sec b)"

definition tv_ok :: "timeval \<Rightarrow> bool" where
  "tv_ok t \<longleftrightarrow> 0 \<le> tv_usec t \<and> tv_usec t < 1000000"

definition tv_us :: "timeval \<Rightarrow> int" where
  "tv_us t = tv_sec t * 1000000 + tv_usec t"

lemma timersub_us [simp]: "tv_us (timersub a b) = tv_us a - tv_us b"
  by (simp add: tv_us_def timersub_def Let_def algebra_simps)

lemma timeradd_us [simp]: "tv_us (timeradd a b) = tv_us a + tv_us b"
  by (simp add: tv_us_def timeradd_def Let_def algebra_simps)

lemma timersub_ok: "tv_ok a \<Longrightarrow> tv_ok b \<Longrightarrow> tv_ok (timersub a b)"
  by (auto simp: tv_ok_def timersub_def Let_def)

lemma timeradd_ok: "tv_ok a \<Longrightarrow> tv_ok b \<Longrightarrow> tv_ok (timeradd a b)"
  by (auto simp: tv_ok_def timeradd_def Let_def)

lemma timer_less_us: "tv_ok a \<Longrightarrow> tv_ok b \<Longrightarrow> timer_less a b \<longleftrightarrow> tv_us a < tv_us b"
  by (auto simp: timer_less_def tv_us_def tv_ok_def)

lemma tv_us_parts:
  "tv_ok a \<Longrightarrow> tv_sec a = tv_us a div 1000000" "tv_ok a \<Longrightarrow> tv_usec a = tv_us a mod 1000000"
  by (simp_all add: tv_us_def tv_ok_def)

lemma tv_us_inj: "tv_ok a \<Longrightarrow> tv_ok b \<Longrightarrow> tv_us a = tv_us b \<Longrightarrow> a = b"
  by (rule timeval.equality) (simp_all add: tv_us_parts)

section \<open>Single precision\<close>

text \<open>
  The value of a non-zero quotient is rounded to 24 significant bits, ties to even. The
  quotients that occur are far from the ends of the exponent range.
\<close>

definition flt_exp :: "rat \<Rightarrow> int" where
  "flt_exp x = (let (n, d) = quotient_of \<bar>x\<bar>; e = bitlen n - bitlen d in
     if \<bar>x\<bar> < 2 powi e then e - 1 else e)"

definition round_even :: "rat \<Rightarrow> int" where
  "round_even q = (let f = \<lfloor>q\<rfloor>; r = q - of_int f in
     if r < 1/2 \<or> r = 1/2 \<and> even f then f else f + 1)"

definition flt :: "rat \<Rightarrow> rat" where
  "flt x = (if x = 0 then 0 else
     let u = 2 powi (flt_exp x - 23) in sgn x * of_int (round_even (\<bar>x\<bar> / u)) * u)"

lemma round_even_near: "\<bar>of_int (round_even q) - q\<bar> \<le> 1/2"
  unfolding round_even_def Let_def by (auto simp: abs_if not_less) linarith+

lemma flt_exp_le:
  assumes "x \<noteq> 0"
  shows "2 powi (flt_exp x) \<le> \<bar>x\<bar>"
proof -
  obtain n d where q: "quotient_of \<bar>x\<bar> = (n, d)" by force
  have d: "0 < d" and x: "\<bar>x\<bar> = of_int n / of_int d"
    using quotient_of_denom_pos [OF q] quotient_of_div [OF q] by auto
  have n: "0 < n" using x d assms by (metis abs_ge_zero abs_0_eq div_0 linorder_cases
        divide_less_0_iff not_less of_int_0 of_int_0_less_iff of_int_less_0_iff)
  have bn: "of_int n \<ge> (2 :: rat) powi (bitlen n - 1)" and bd: "of_int d < (2 :: rat) powi (bitlen d)"
  proof -
    have "2 ^ nat (bitlen n - 1) \<le> n" "d < 2 ^ nat (bitlen d)"
      using bitlen_bounds [OF n] bitlen_bounds [OF d] by auto
    moreover have "0 < bitlen n" "0 < bitlen d"
      using bitlen_ge_iff_power [of 1 n] bitlen_ge_iff_power [of 1 d] n d by auto
    ultimately show "of_int n \<ge> (2 :: rat) powi (bitlen n - 1)"
      "of_int d < (2 :: rat) powi (bitlen d)"
      by (simp_all add: power_int_def)
  qed
  have "(2 :: rat) powi (bitlen n - bitlen d - 1) = 2 powi (bitlen n - 1) / 2 powi (bitlen d)"
    by (simp add: power_int_diff [symmetric] algebra_simps)
  also have "\<dots> \<le> of_int n / of_int d"
    using bn bd d n by (intro frac_le) auto
  finally show ?thesis using x q by (auto simp: flt_exp_def Let_def)
qed

text \<open>One rounding changes a value by at most one part in 2\<open>\<^sup>2\<^sup>4\<close>.\<close>

lemma flt_error: "\<bar>flt x - x\<bar> \<le> \<bar>x\<bar> / 2 ^ 24"
proof (cases "x = 0")
  case False
  let ?u = "(2 :: rat) powi (flt_exp x - 23)"
  have u: "0 < ?u" by (simp add: zero_less_power_int)
  have "flt x - x = sgn x * (of_int (round_even (\<bar>x\<bar> / ?u)) - \<bar>x\<bar> / ?u) * ?u"
    using False u by (simp add: flt_def Let_def algebra_simps abs_mult_sgn)
  then have "\<bar>flt x - x\<bar> = \<bar>of_int (round_even (\<bar>x\<bar> / ?u)) - \<bar>x\<bar> / ?u\<bar> * ?u"
    using False u by (simp add: abs_mult abs_sgn_eq)
  also have "\<dots> \<le> 1/2 * ?u" using round_even_near u by (intro mult_right_mono) auto
  also have "\<dots> = 2 powi (flt_exp x) / 2 ^ 24"
    by (simp add: power_int_diff)
  also have "\<dots> \<le> \<bar>x\<bar> / 2 ^ 24" using flt_exp_le [OF False] by (intro divide_right_mono) auto
  finally show ?thesis .
qed (simp add: flt_def)

lemma flt_bounds:
  assumes "0 \<le> x"
  shows "x * (1 - 1 / 2 ^ 24) \<le> flt x" "flt x \<le> x * (1 + 1 / 2 ^ 24)"
proof -
  have e: "\<bar>flt x - x\<bar> \<le> x / 2 ^ 24" using flt_error [of x] assms by simp
  show "x * (1 - 1 / 2 ^ 24) \<le> flt x" using abs_le_D2 [OF e] by (simp add: algebra_simps)
  show "flt x \<le> x * (1 + 1 / 2 ^ 24)" using abs_le_D1 [OF e] by (simp add: algebra_simps)
qed

lemma flt_nonneg:
  assumes "0 \<le> x"
  shows "0 \<le> flt x"
proof -
  have "0 \<le> x * (1 - 1 / 2 ^ 24)" by (rule mult_nonneg_nonneg [OF assms]) simp
  then show ?thesis using flt_bounds(1) [OF assms] by (rule order_trans)
qed

text \<open>\<open>(long) f\<close>: truncation towards zero.\<close>

definition flt_to_int :: "rat \<Rightarrow> int" where
  "flt_to_int f = (if f < 0 then \<lceil>f\<rceil> else \<lfloor>f\<rfloor>)"

section \<open>The table of processes\<close>

definition MAX_CONTROLLER_COUNT :: nat where "MAX_CONTROLLER_COUNT = 500"

definition INVALID_PROCEESS :: int where "INVALID_PROCEESS = 0"

definition EPOCH_LENGTH :: int where "EPOCH_LENGTH = 100"

definition PROC_ACTIVE :: int where "PROC_ACTIVE = 0"

definition PROC_INACTIVE :: int where "PROC_INACTIVE = 1"

definition PROC_PAGING :: int where "PROC_PAGING = 2"

definition PROC_WAITING :: int where "PROC_WAITING = 3"

lemmas proc_states = PROC_ACTIVE_def PROC_INACTIVE_def PROC_PAGING_def PROC_WAITING_def

text \<open>
  \<open>scheduler_data\<close> has one array per field; slot \<open>i\<close> is what they hold at position \<open>i\<close>.
\<close>

record slot =
  sl_process :: int
  sl_share_unit :: u64
  sl_signal_num :: int
  sl_state :: int
  sl_app_type :: int
  sl_allocated :: timeval
  sl_execution :: timeval
  sl_penalty :: int
  sl_gpu :: int
  sl_priority :: int
  sl_feedback :: int
  sl_valid :: int

record scheduler_data =
  sd_slots :: "slot list"
  sd_count :: u32

definition sd_ok :: "scheduler_data \<Rightarrow> bool" where
  "sd_ok sd \<longleftrightarrow> length (sd_slots sd) = MAX_CONTROLLER_COUNT
     \<and> unat (sd_count sd) < MAX_CONTROLLER_COUNT"

lemma sd_okD: "sd_ok sd \<Longrightarrow> length (sd_slots sd) = MAX_CONTROLLER_COUNT"
  "sd_ok sd \<Longrightarrow> unat (sd_count sd) < MAX_CONTROLLER_COUNT"
  by (simp_all add: sd_ok_def)

definition zero_slot :: slot where
  "zero_slot = \<lparr>sl_process = 0, sl_share_unit = 0, sl_signal_num = 0, sl_state = 0,
     sl_app_type = 0, sl_allocated = \<lparr>tv_sec = 0, tv_usec = 0\<rparr>,
     sl_execution = \<lparr>tv_sec = 0, tv_usec = 0\<rparr>, sl_penalty = 0, sl_gpu = 0, sl_priority = 0,
     sl_feedback = 0, sl_valid = 0\<rparr>"

text \<open>The static variable before the program starts.\<close>

definition Scheduler_Data0 :: scheduler_data where
  "Scheduler_Data0 = \<lparr>sd_slots = replicate MAX_CONTROLLER_COUNT zero_slot, sd_count = 0\<rparr>"

definition slot_upd :: "(slot \<Rightarrow> slot) \<Rightarrow> nat \<Rightarrow> scheduler_data \<Rightarrow> scheduler_data cres" where
  "slot_upd f i sd = bindr (nthr (sd_slots sd) i) (\<lambda>s.
     Inr (sd\<lparr>sd_slots := (sd_slots sd)[i := f s]\<rparr>))"

text \<open>\<open>x = (x + 1) % MAX_CONTROLLER_COUNT\<close> on \<open>unsigned\<close>.\<close>

definition next_slot :: "u32 \<Rightarrow> u32" where
  "next_slot i = (i + 1) mod word_of_nat MAX_CONTROLLER_COUNT"

lemma unat_next_slot:
  assumes "unat i < MAX_CONTROLLER_COUNT"
  shows "unat (next_slot i) = (unat i + 1) mod MAX_CONTROLLER_COUNT"
    "unat (next_slot i) < MAX_CONTROLLER_COUNT"
proof -
  have "unat (i + 1) = unat i + 1"
    using assms by (subst unat_word_ariths) (simp add: MAX_CONTROLLER_COUNT_def)
  then show "unat (next_slot i) = (unat i + 1) mod MAX_CONTROLLER_COUNT"
    by (simp add: next_slot_def unat_mod MAX_CONTROLLER_COUNT_def)
  then show "unat (next_slot i) < MAX_CONTROLLER_COUNT"
    by (simp add: MAX_CONTROLLER_COUNT_def)
qed

section \<open>Requests\<close>

record process_credit_data =
  pcd_pid :: int
  pcd_share_unit :: u64
  pcd_action :: int
  pcd_app_type :: int
  pcd_gpuid :: int
  pcd_execution :: timeval

definition ADD_Q :: int where "ADD_Q = 10"

definition REM_Q :: int where "REM_Q = 11"

definition NOTIFY_SCHED :: int where "NOTIFY_SCHED = 12"

definition GET_PRIORITY :: int where "GET_PRIORITY = 14"

definition GET_L2_DATA :: int where "GET_L2_DATA = 15"

lemmas pcd_actions = ADD_Q_def REM_Q_def NOTIFY_SCHED_def GET_PRIORITY_def GET_L2_DATA_def

text \<open>Signals: \<open>SIGRTMIN\<close> and \<open>SIGRTMAX\<close> of the C library are 34 and 64.\<close>

definition SIGALRM :: int where "SIGALRM = 14"

definition SIGSCHED :: int where "SIGSCHED = 34"

definition SIGRTMAX :: int where "SIGRTMAX = 64"

definition already_added :: "process_credit_data \<Rightarrow> scheduler_data \<Rightarrow> bool" where
  "already_added pcd sd \<longleftrightarrow> (\<exists>s \<in> set (sd_slots sd). sl_process s = pcd_pid pcd)"

text \<open>The first slot with the process of a request on the GPU of the listener.\<close>

fun find_slot :: "int \<Rightarrow> int \<Rightarrow> slot list \<Rightarrow> nat \<Rightarrow> nat option" where
  "find_slot pid gpu [] i = None"
| "find_slot pid gpu (s # ss) i =
     (if pid = sl_process s \<and> gpu = sl_gpu s then Some i else find_slot pid gpu ss (i + 1))"

lemma find_slot_Some:
  "find_slot pid gpu ss i = Some j \<Longrightarrow> i \<le> j \<and> j < i + length ss
     \<and> sl_process (ss ! (j - i)) = pid \<and> sl_gpu (ss ! (j - i)) = gpu"
proof (induction ss arbitrary: i)
  case (Cons s ss)
  show ?case
  proof (cases "pid = sl_process s \<and> gpu = sl_gpu s")
    case False
    then have "find_slot pid gpu ss (i + 1) = Some j" using Cons.prems by auto
    from Cons.IH [OF this] show ?thesis by (auto simp: nth_Cons')
  qed (use Cons.prems in auto)
qed simp

lemma find_slot_None:
  "find_slot pid gpu ss i = None \<longleftrightarrow> (\<forall>s \<in> set ss. \<not> (sl_process s = pid \<and> sl_gpu s = gpu))"
  by (induction ss arbitrary: i) auto

end
