(* ===== verification/Sched_Table.thy ===== *)
theory Sched_Table
  imports Sched_Common
begin

text \<open>
  The contract that the tables of both schedulers keep: registration writes the slot that the
  counter points to and moves the counter on, removal clears one slot. What follows from it:
  the table keeps its size, and no process is in it twice.
\<close>

definition pids :: "scheduler_data \<Rightarrow> int list" where
  "pids sd = map sl_process (sd_slots sd)"

definition distinct_pids :: "scheduler_data \<Rightarrow> bool" where
  "distinct_pids sd \<longleftrightarrow> (\<forall>i < length (pids sd). \<forall>j < length (pids sd).
     i \<noteq> j \<longrightarrow> pids sd ! i \<noteq> INVALID_PROCEESS \<longrightarrow> pids sd ! i \<noteq> pids sd ! j)"

definition table_inv :: "scheduler_data \<Rightarrow> bool" where
  "table_inv sd \<longleftrightarrow> sd_ok sd \<and> distinct_pids sd"

lemma already_added_pids: "already_added pcd sd \<longleftrightarrow> pcd_pid pcd \<in> set (pids sd)"
  by (auto simp: already_added_def pids_def image_iff eq_commute)

lemma pids_slot_upd:
  "slot_upd f i sd = Inr sd' \<Longrightarrow> length (sd_slots sd') = length (sd_slots sd)
     \<and> sd_count sd' = sd_count sd \<and> i < length (sd_slots sd)
     \<and> pids sd' = (pids sd)[i := sl_process (f (sd_slots sd ! i))]"
  by (auto simp: slot_upd_def bindr_eq_Inr_iff nthr_eq_Inr pids_def map_update)

lemma slot_upd_ok:
  "i < length (sd_slots sd) \<Longrightarrow>
   slot_upd f i sd = Inr (sd\<lparr>sd_slots := (sd_slots sd)[i := f (sd_slots sd ! i)]\<rparr>)"
  by (simp add: slot_upd_def nthr_def)

lemma table_inv_zero: "table_inv Scheduler_Data0"
  by (auto simp: table_inv_def sd_ok_def distinct_pids_def pids_def Scheduler_Data0_def
      MAX_CONTROLLER_COUNT_def zero_slot_def INVALID_PROCEESS_def)

lemma table_invD:
  assumes "table_inv sd" and "i < length (pids sd)" and "j < length (pids sd)" and "i \<noteq> j"
    and "pids sd ! i = p" and "pids sd ! j = p"
  shows "p = INVALID_PROCEESS"
proof -
  have "pids sd ! i \<noteq> INVALID_PROCEESS \<longrightarrow> pids sd ! i \<noteq> pids sd ! j"
    using assms(1-4) by (simp add: table_inv_def distinct_pids_def)
  then show ?thesis unfolding assms(5,6) by simp
qed

lemma table_inv_update:
  assumes "table_inv sd" and "sd_ok sd'" and "pids sd' = (pids sd)[i := p]"
    and "p = INVALID_PROCEESS \<or> p \<notin> set (pids sd)"
  shows "table_inv sd'"
proof -
  have old: "pids sd ! a \<noteq> pids sd ! b"
    if "a < length (pids sd)" "b < length (pids sd)" "a \<noteq> b" "pids sd ! a \<noteq> INVALID_PROCEESS" for a b
    using that assms(1) by (simp add: table_inv_def distinct_pids_def)
  have new: "p \<noteq> pids sd ! a" if "a < length (pids sd)" "p \<noteq> INVALID_PROCEESS" for a
    using that assms(4) nth_mem by blast
  have "pids sd' ! a \<noteq> pids sd' ! b"
    if h: "a < length (pids sd')" "b < length (pids sd')" "a \<noteq> b"
      "pids sd' ! a \<noteq> INVALID_PROCEESS" for a b
  proof -
    have l: "a < length (pids sd)" "b < length (pids sd)" using h(1,2) assms(3) by simp_all
    consider "a = i" "b \<noteq> i" | "b = i" "a \<noteq> i" | "a \<noteq> i" "b \<noteq> i" using h(3) by blast
    then show ?thesis
    proof cases
      case 1
      then show ?thesis using new [OF l(2)] h(4) l assms(3) by simp
    next
      case 2
      then show ?thesis using new [OF l(1)] h(4) l assms(3) by (cases "p = INVALID_PROCEESS") auto
    next
      case 3
      then show ?thesis using old [OF l h(3)] h(4) assms(3) by simp
    qed
  qed
  then show ?thesis using assms(2) by (simp add: table_inv_def distinct_pids_def)
qed

text \<open>
  \<open>register r\<close> enters the process \<open>pid_of r\<close>, \<open>remove gpu pid\<close> clears the first slot with
  that process and that GPU.
\<close>

locale process_table =
  fixes register :: "'r \<Rightarrow> scheduler_data \<Rightarrow> scheduler_data cres"
    and pid_of :: "'r \<Rightarrow> int"
    and remove :: "int \<Rightarrow> int \<Rightarrow> scheduler_data \<Rightarrow> scheduler_data cres"
  assumes register_ok: "sd_ok sd \<Longrightarrow> \<exists>sd'. register r sd = Inr sd'
      \<and> length (sd_slots sd') = length (sd_slots sd) \<and> sd_count sd' = next_slot (sd_count sd)
      \<and> pids sd' = (pids sd)[unat (sd_count sd) := pid_of r]"
    and remove_ok: "\<exists>sd'. remove gpu p sd = Inr sd' \<and> length (sd_slots sd') = length (sd_slots sd)
      \<and> sd_count sd' = sd_count sd
      \<and> pids sd' = (case find_slot p gpu (sd_slots sd) 0 of None \<Rightarrow> pids sd
          | Some i \<Rightarrow> (pids sd)[i := INVALID_PROCEESS])"
begin

lemma register_sd_ok: "sd_ok sd \<Longrightarrow> register r sd = Inr sd' \<Longrightarrow> sd_ok sd'"
  using register_ok [of sd r] unat_next_slot(2) [of "sd_count sd"] by (auto simp: sd_ok_def)

lemma register_inv:
  assumes "table_inv sd" and "pid_of r \<notin> set (pids sd)"
  shows "\<exists>sd'. register r sd = Inr sd' \<and> table_inv sd' \<and> pid_of r \<in> set (pids sd')"
proof -
  have ok: "sd_ok sd" using assms(1) by (simp add: table_inv_def)
  then obtain sd' where r: "register r sd = Inr sd'"
    "pids sd' = (pids sd)[unat (sd_count sd) := pid_of r]"
    using register_ok [of sd r] by auto
  have "table_inv sd'"
    by (rule table_inv_update [OF assms(1) register_sd_ok [OF ok r(1)] r(2)])
      (use assms(2) in simp)
  moreover have "pid_of r \<in> set (pids sd')"
    using r(2) sd_okD [OF ok] by (simp add: pids_def set_update_memI)
  ultimately show ?thesis using r(1) by blast
qed

text \<open>The counter wraps: the process whose slot is taken is no longer in the table.\<close>

lemma register_evicts:
  assumes "table_inv sd" and "pid_of r \<notin> set (pids sd)" and "q \<noteq> INVALID_PROCEESS"
    and "pids sd ! unat (sd_count sd) = q" and "register r sd = Inr sd'"
  shows "q \<notin> set (pids sd')"
proof
  assume "q \<in> set (pids sd')"
  have ok: "sd_ok sd" using assms(1) by (simp add: table_inv_def)
  have c: "unat (sd_count sd) < length (pids sd)" using sd_okD [OF ok] by (simp add: pids_def)
  have e: "pids sd' = (pids sd)[unat (sd_count sd) := pid_of r]"
    using register_ok [OF ok, of r] assms(5) by auto
  from \<open>q \<in> set (pids sd')\<close> obtain j where j: "j < length (pids sd)" "pids sd' ! j = q"
    using e by (auto simp: in_set_conv_nth)
  have "q \<in> set (pids sd)" using nth_mem [OF c] unfolding assms(4) .
  then have "q \<noteq> pid_of r" using assms(2) by auto
  have ne: "j \<noteq> unat (sd_count sd)"
    using j(2) \<open>q \<noteq> pid_of r\<close> c unfolding e by auto
  then have "pids sd ! j = q" using j(2) unfolding e by simp
  from table_invD [OF assms(1) j(1) c ne this assms(4)] show False using assms(3) by contradiction
qed

lemma remove_inv:
  assumes "table_inv sd"
  shows "\<exists>sd'. remove gpu p sd = Inr sd' \<and> table_inv sd'
    \<and> (p \<noteq> INVALID_PROCEESS \<longrightarrow> (\<exists>s \<in> set (sd_slots sd). sl_process s = p \<and> sl_gpu s = gpu) \<longrightarrow>
         p \<notin> set (pids sd'))"
proof -
  have ok: "sd_ok sd" using assms by (simp add: table_inv_def)
  obtain sd' where r: "remove gpu p sd = Inr sd'" "length (sd_slots sd') = length (sd_slots sd)"
    "sd_count sd' = sd_count sd" "pids sd' = (case find_slot p gpu (sd_slots sd) 0 of None \<Rightarrow> pids sd
          | Some i \<Rightarrow> (pids sd)[i := INVALID_PROCEESS])"
    using remove_ok [of gpu p sd] by blast
  have ok': "sd_ok sd'" using ok r(2,3) by (simp add: sd_ok_def)
  show ?thesis
  proof (cases "find_slot p gpu (sd_slots sd) 0")
    case None
    then have "\<not> (\<exists>s \<in> set (sd_slots sd). sl_process s = p \<and> sl_gpu s = gpu)"
      by (simp add: find_slot_None)
    moreover have "table_inv sd'" using assms ok' r(4) None
      by (simp add: table_inv_def distinct_pids_def)
    ultimately show ?thesis using r(1) by blast
  next
    case (Some i)
    then have e: "pids sd' = (pids sd)[i := INVALID_PROCEESS]" using r(4) by simp
    have i: "i < length (pids sd)" "pids sd ! i = p"
      using find_slot_Some [OF Some] by (simp_all add: pids_def)
    have "p \<notin> set (pids sd')" if "p \<noteq> INVALID_PROCEESS"
    proof
      assume "p \<in> set (pids sd')"
      then obtain j where "j < length (pids sd)" "pids sd' ! j = p"
        using e by (auto simp: in_set_conv_nth)
      then have "j \<noteq> i \<and> pids sd ! j = p" using i e that by (cases "j = i") auto
      then have "j \<noteq> i" "pids sd ! j = p" by simp_all
      then show False
        using table_invD [OF assms \<open>j < length (pids sd)\<close> i(1) _ _ i(2)] that by simp
    qed
    moreover have "table_inv sd'" by (rule table_inv_update [OF assms ok' e]) simp
    ultimately show ?thesis using r(1) by blast
  qed
qed

end

end
