(* ===== verification/Fair_Share.thy ===== *)
theory Fair_Share
  imports Sched_Table
begin

text \<open>
  The fair-share scheduler, l2scheduler/fair_share_sched.c: registration, the listener, the
  control thread and the time slices of an epoch.
\<close>

section \<open>Registration and listener\<close>

record fs_reg =
  fr_pid :: int
  fr_signum :: int
  fr_app_type :: int
  fr_gpuid :: int
  fr_share :: int

definition fs_register_process :: "fs_reg \<Rightarrow> scheduler_data \<Rightarrow> scheduler_data cres" where
  "fs_register_process r sd =
     bindr (slot_upd (\<lambda>s. s\<lparr>sl_process := fr_pid r, sl_share_unit := word_of_int (fr_share r),
         sl_signal_num := fr_signum r, sl_state := PROC_ACTIVE, sl_app_type := fr_app_type r,
         sl_penalty := 0, sl_gpu := fr_gpuid r\<rparr>) (unat (sd_count sd)) sd) (\<lambda>sd'.
     Inr (sd'\<lparr>sd_count := next_slot (sd_count sd)\<rparr>))"

text \<open>The loop of the \<open>REM_Q\<close> branch.\<close>

definition fs_remove :: "int \<Rightarrow> int \<Rightarrow> scheduler_data \<Rightarrow> scheduler_data cres" where
  "fs_remove gpu pid sd = (case find_slot pid gpu (sd_slots sd) 0 of None \<Rightarrow> Inr sd
     | Some i \<Rightarrow> slot_upd (\<lambda>s. s\<lparr>sl_process := INVALID_PROCEESS, sl_state := PROC_INACTIVE\<rparr>) i sd)"

interpretation fs_table: process_table fs_register_process fr_pid fs_remove
proof
  fix sd r assume "sd_ok sd"
  then have "unat (sd_count sd) < length (sd_slots sd)" by (simp add: sd_ok_def)
  then show "\<exists>sd'. fs_register_process r sd = Inr sd'
      \<and> length (sd_slots sd') = length (sd_slots sd) \<and> sd_count sd' = next_slot (sd_count sd)
      \<and> pids sd' = (pids sd)[unat (sd_count sd) := fr_pid r]"
    by (simp add: fs_register_process_def slot_upd_ok pids_def map_update)
next
  fix gpu p sd
  show "\<exists>sd'. fs_remove gpu p sd = Inr sd' \<and> length (sd_slots sd') = length (sd_slots sd)
      \<and> sd_count sd' = sd_count sd
      \<and> pids sd' = (case find_slot p gpu (sd_slots sd) 0 of None \<Rightarrow> pids sd
          | Some i \<Rightarrow> (pids sd)[i := INVALID_PROCEESS])"
    using find_slot_Some [of p gpu "sd_slots sd" 0]
    by (auto simp: fs_remove_def slot_upd_ok pids_def map_update split: option.splits)
qed

text \<open>
  What the listener does outside its table: a number written to the response FIFO of a process,
  a signal queued to it, its FIFOs unlinked.
\<close>

datatype listen_out = Reply int int | Queue int int | Unlink int

text \<open>The loop before the listener starts to read.\<close>

definition fs_listen_init :: "scheduler_data \<Rightarrow> scheduler_data" where
  "fs_listen_init sd = sd\<lparr>sd_slots := map (\<lambda>s. s\<lparr>sl_state := PROC_INACTIVE\<rparr>) (sd_slots sd)\<rparr>"

text \<open>
  One iteration of \<open>fs_listen_thread\<close> for the GPU \<open>gpu\<close>: \<open>status\<close> is the result of
  \<open>read\<close>, \<open>err\<close> what the process answers after installing its handlers. The share passes
  through an \<open>int\<close> parameter.
\<close>

definition fs_listen :: "int \<Rightarrow> int \<Rightarrow> process_credit_data \<Rightarrow> int \<Rightarrow> scheduler_data
    \<Rightarrow> (scheduler_data \<times> listen_out list) cres" where
  "fs_listen gpu status pcd err sd =
     (if 0 < status \<and> pcd_action pcd = ADD_Q \<and> \<not> already_added pcd sd then
        (if err = 0 then
           bindr (fs_register_process \<lparr>fr_pid = pcd_pid pcd, fr_signum = SIGSCHED,
               fr_app_type = pcd_app_type pcd, fr_gpuid = pcd_gpuid pcd,
               fr_share = sint (ucast (pcd_share_unit pcd) :: u32)\<rparr> sd) (\<lambda>sd'.
             Inr (sd', [Reply (pcd_pid pcd) SIGSCHED, Queue (pcd_pid pcd) SIGALRM]))
         else Inr (sd, [Reply (pcd_pid pcd) SIGSCHED]))
      else if 0 < status \<and> pcd_action pcd = REM_Q then
        bindr (fs_remove gpu (pcd_pid pcd) sd) (\<lambda>sd'. Inr (sd', [Unlink (pcd_pid pcd)]))
      else Inr (sd, []))"

lemma fs_listen_inv:
  assumes "table_inv sd"
  shows "\<exists>sd' out. fs_listen gpu status pcd err sd = Inr (sd', out) \<and> table_inv sd'"
proof -
  let ?r = "\<lparr>fr_pid = pcd_pid pcd, fr_signum = SIGSCHED,
               fr_app_type = pcd_app_type pcd, fr_gpuid = pcd_gpuid pcd,
               fr_share = sint (ucast (pcd_share_unit pcd) :: u32)\<rparr>"
  show ?thesis
    using assms fs_table.register_inv [OF assms, of ?r]
      fs_table.remove_inv [OF assms, of gpu "pcd_pid pcd"]
    by (auto simp: fs_listen_def already_added_pids)
qed

section \<open>The time slices\<close>

text \<open>\<open>tv_sec * 1000 + (tv_usec + 500) / 1000\<close>, assigned to an \<open>unsigned long\<close>.\<close>

definition tv_ms :: "timeval \<Rightarrow> u64" where
  "tv_ms t = word_of_int (tv_sec t * 1000 + (tv_usec t + 500) sdiv 1000)"

text \<open>The first loop of \<open>fs_calculate_timeslice\<close> on one slot.\<close>

definition fs_penalise :: "int \<Rightarrow> slot \<Rightarrow> slot" where
  "fs_penalise gpu s = (if sl_gpu s = gpu \<and> sl_state s = PROC_ACTIVE \<and> sl_penalty s = -1 then
     let devoted_ms = tv_ms (sl_allocated s); actual_ms = tv_ms (sl_execution s) in
     if devoted_ms \<noteq> 0 then
       s\<lparr>sl_penalty := sint (ucast (actual_ms div devoted_ms) :: u32)\<rparr> else s
   else s)"

definition fs_wake :: "int \<Rightarrow> slot \<Rightarrow> slot" where
  "fs_wake gpu s = (if sl_gpu s = gpu \<and> sl_state s = PROC_WAITING \<and> sl_penalty s = -1
     then s\<lparr>sl_state := PROC_ACTIVE\<rparr> else s)"

definition fs_settle :: "int \<Rightarrow> slot \<Rightarrow> slot" where
  "fs_settle gpu s = (if sl_gpu s = gpu \<and> sl_state s = PROC_ACTIVE \<and> sl_penalty s = 0
     then s\<lparr>sl_penalty := -1\<rparr> else s)"

definition fs_age :: "int \<Rightarrow> slot \<Rightarrow> slot" where
  "fs_age gpu s = fs_settle gpu (fs_wake gpu (fs_penalise gpu s))"

definition fs_active :: "int \<Rightarrow> slot \<Rightarrow> bool" where
  "fs_active gpu s \<longleftrightarrow> sl_gpu s = gpu \<and> sl_state s = PROC_ACTIVE"

text \<open>\<open>total_shares\<close> is an \<open>int\<close>: the sum is cut to 32 bits.\<close>

definition fs_total_shares :: "int \<Rightarrow> slot list \<Rightarrow> int" where
  "fs_total_shares gpu ss =
     sint (sum_list (map (\<lambda>s. ucast (sl_share_unit s) :: u32) (filter (fs_active gpu) ss)))"

text \<open>\<open>base_share * 1000\<close> with \<open>base_share\<close> the epoch over the total, in single precision.\<close>

definition fs_slice :: "int \<Rightarrow> timeval" where
  "fs_slice shares = \<lparr>tv_sec = 0, tv_usec =
     flt_to_int (flt (flt (of_int EPOCH_LENGTH / flt (of_int shares)) * 1000))\<rparr>"

definition fs_timeslices :: "int \<Rightarrow> scheduler_data \<Rightarrow> scheduler_data" where
  "fs_timeslices gpu sd =
     (let ss = map (fs_age gpu) (sd_slots sd);
          active_count = length (filter (fs_active gpu) ss);
          total_shares = fs_total_shares gpu ss in
      if active_count = 0 \<or> total_shares = 0 then sd\<lparr>sd_slots := ss\<rparr>
      else sd\<lparr>sd_slots := map (\<lambda>s. if fs_active gpu s
             then s\<lparr>sl_allocated := fs_slice total_shares\<rparr> else s) ss\<rparr>)"

section \<open>The control thread\<close>

text \<open>
  The state that the threads share: the table, whether \<open>sched_index_mut\<close> is held, and the
  signals sent with the time slice. Locking a mutex that is held does not return.
\<close>

record fs_state =
  fs_data :: scheduler_data
  fs_locked :: bool
  fs_sent :: "(int \<times> int \<times> timeval) list"

datatype 'a ctl = Go 'a | Blocked fs_state | Crash fault

fun bindc :: "'a ctl \<Rightarrow> ('a \<Rightarrow> 'b ctl) \<Rightarrow> 'b ctl" where
  "bindc (Go x) k = k x"
| "bindc (Blocked s) k = Blocked s"
| "bindc (Crash f) k = Crash f"

definition liftc :: "'a cres \<Rightarrow> 'a ctl" where
  "liftc r = (case r of Inl f \<Rightarrow> Crash f | Inr x \<Rightarrow> Go x)"

definition mutex_lock :: "fs_state \<Rightarrow> fs_state ctl" where
  "mutex_lock st = (if fs_locked st then Blocked st else Go (st\<lparr>fs_locked := True\<rparr>))"

definition mutex_unlock :: "fs_state \<Rightarrow> fs_state" where
  "mutex_unlock st = st\<lparr>fs_locked := False\<rparr>"

definition fs_calculate_timeslice :: "int \<Rightarrow> fs_state \<Rightarrow> fs_state ctl" where
  "fs_calculate_timeslice gpu st = bindc (mutex_lock st) (\<lambda>st.
     Go (mutex_unlock (st\<lparr>fs_data := fs_timeslices gpu (fs_data st)\<rparr>)))"

text \<open>\<open>thid = (thid + 1) % MAX_CONTROLLER_COUNT\<close>; a new epoch starts when it wraps.\<close>

definition fs_advance :: "int \<Rightarrow> u32 \<Rightarrow> fs_state \<Rightarrow> (u32 \<times> fs_state) ctl" where
  "fs_advance gpu thid st = (let thid' = next_slot thid in
     if thid' < thid then bindc (fs_calculate_timeslice gpu st) (\<lambda>st. Go (thid', st))
     else Go (thid', st))"

text \<open>
  One iteration of \<open>fs_control_thread\<close>. \<open>share_unit\<close> and \<open>i\<close> are locals that are never
  assigned, the parameters are what they happen to hold; \<open>sig\<close> is what \<open>sigwaitinfo\<close>
  gave, \<open>None\<close> when it never returns, \<open>tp\<close> and \<open>tp1\<close> the clock before and after.
\<close>

definition fs_control :: "int \<Rightarrow> u64 \<Rightarrow> u32 \<Rightarrow> int option \<Rightarrow> timeval \<Rightarrow> timeval \<Rightarrow> u32 \<Rightarrow> fs_state
    \<Rightarrow> (u32 \<times> fs_state) ctl" where
  "fs_control gpu share_unit i sig tp tp1 thid st =
     (if sd_count (fs_data st) = 0 then Go (thid, st) else
      bindc (liftc (nthr (sd_slots (fs_data st)) (unat thid))) (\<lambda>s.
      if sl_state s \<noteq> PROC_ACTIVE \<or> sl_gpu s \<noteq> gpu then fs_advance gpu thid st
      else if 0 < sl_penalty s then
        bindc (liftc (slot_upd (\<lambda>s. s\<lparr>sl_penalty := sl_penalty s - 1\<rparr>) (unat thid) (fs_data st)))
          (\<lambda>sd. fs_advance gpu thid (st\<lparr>fs_data := sd\<rparr>))
      else if share_unit = 0 then fs_advance gpu thid st
      else
        bindc (mutex_lock st) (\<lambda>st.
        bindc (liftc (nthr (sd_slots (fs_data st)) (unat thid))) (\<lambda>s'.
        bindc (if sl_state s' = PROC_ACTIVE then
                 let st' = st\<lparr>fs_sent := fs_sent st @ [(sl_process s, SIGSCHED, sl_allocated s)]\<rparr> in
                 if sig = None then Blocked st'
                 else if sig = Some (SIGRTMAX - 2) then
                   bindc (liftc (slot_upd (\<lambda>s. s\<lparr>sl_state := PROC_PAGING\<rparr>) (unat i) (fs_data st')))
                     (\<lambda>sd. Go (st'\<lparr>fs_data := sd\<rparr>))
                 else Go st'
               else Go st) (\<lambda>st.
        bindc (mutex_lock st) (\<lambda>st.
        bindc (liftc (slot_upd (\<lambda>s. s\<lparr>sl_execution := timersub tp1 tp\<rparr>) (unat thid) (fs_data st)))
          (\<lambda>sd. fs_advance gpu thid (st\<lparr>fs_data := sd\<rparr>))))))))"

end
