(* ===== verification/Las.thy ===== *)
theory Las
  imports Sched_Table
begin

text \<open>
  The least-attained-service scheduler, l2scheduler/las_scheduler.c: registration, the listener
  and the pass of the control thread that sets the priorities. The build leaves
  \<open>L2_FEEDBACK_ENABLED\<close> undefined, so no process is marked for feedback.
\<close>

definition PRIORITY_NORMAL :: int where "PRIORITY_NORMAL = 19"

definition PRIORITY_HIGH :: int where "PRIORITY_HIGH = -20"

record las_reg =
  lr_pid :: int
  lr_gpuid :: int
  lr_app_type :: int
  lr_to_mark :: int

text \<open>The index of the slot is the result; the type of the application is not stored.\<close>

definition las_register_process :: "las_reg \<Rightarrow> scheduler_data \<Rightarrow> (int \<times> scheduler_data) cres" where
  "las_register_process r sd =
     bindr (slot_upd (\<lambda>s. s\<lparr>sl_process := lr_pid r, sl_valid := 1, sl_gpu := lr_gpuid r,
         sl_priority := 0, sl_feedback := (if lr_to_mark r \<noteq> 0 then 1 else 0)\<rparr>)
         (unat (sd_count sd)) sd) (\<lambda>sd'.
     Inr (sint (sd_count sd), sd'\<lparr>sd_count := next_slot (sd_count sd)\<rparr>))"

definition las_remove :: "int \<Rightarrow> int \<Rightarrow> scheduler_data \<Rightarrow> scheduler_data cres" where
  "las_remove gpu pid sd = (case find_slot pid gpu (sd_slots sd) 0 of None \<Rightarrow> Inr sd
     | Some i \<Rightarrow> slot_upd (\<lambda>s. s\<lparr>sl_process := INVALID_PROCEESS, sl_valid := 0\<rparr>) i sd)"

interpretation las_table: process_table
  "\<lambda>r sd. bindr (las_register_process r sd) (\<lambda>(i, sd'). Inr sd')" lr_pid las_remove
proof
  fix sd r assume "sd_ok sd"
  then have "unat (sd_count sd) < length (sd_slots sd)" by (simp add: sd_ok_def)
  then show "\<exists>sd'. bindr (las_register_process r sd) (\<lambda>(i, sd'). Inr sd') = Inr sd'
      \<and> length (sd_slots sd') = length (sd_slots sd) \<and> sd_count sd' = next_slot (sd_count sd)
      \<and> pids sd' = (pids sd)[unat (sd_count sd) := lr_pid r]"
    by (simp add: las_register_process_def slot_upd_ok pids_def map_update)
next
  fix gpu p sd
  show "\<exists>sd'. las_remove gpu p sd = Inr sd' \<and> length (sd_slots sd') = length (sd_slots sd)
      \<and> sd_count sd' = sd_count sd
      \<and> pids sd' = (case find_slot p gpu (sd_slots sd) 0 of None \<Rightarrow> pids sd
          | Some i \<Rightarrow> (pids sd)[i := INVALID_PROCEESS])"
    using find_slot_Some [of p gpu "sd_slots sd" 0]
    by (auto simp: las_remove_def slot_upd_ok pids_def map_update split: option.splits)
qed

section \<open>Listener\<close>

datatype las_out = LReply int int | LData int process_credit_data | LUnlink int

definition las_listen_init :: "scheduler_data \<Rightarrow> scheduler_data" where
  "las_listen_init sd = sd\<lparr>sd_slots := map (\<lambda>s. s\<lparr>sl_valid := 0\<rparr>) (sd_slots sd)\<rparr>"

definition las_notify :: "int \<Rightarrow> process_credit_data \<Rightarrow> scheduler_data \<Rightarrow> scheduler_data cres" where
  "las_notify gpu pcd sd = (case find_slot (pcd_pid pcd) gpu (sd_slots sd) 0 of None \<Rightarrow> Inr sd
     | Some i \<Rightarrow> slot_upd (\<lambda>s. s\<lparr>sl_execution := timeradd (sl_execution s) (pcd_execution pcd)\<rparr>)
                 i sd)"

text \<open>One iteration of \<open>las_listen_thread\<close> for the GPU \<open>gpu\<close>.\<close>

definition las_listen :: "int \<Rightarrow> int \<Rightarrow> process_credit_data \<Rightarrow> scheduler_data
    \<Rightarrow> (scheduler_data \<times> las_out list) cres" where
  "las_listen gpu status pcd sd =
     (if 0 < status \<and> pcd_action pcd = ADD_Q \<and> \<not> already_added pcd sd then
        bindr (las_register_process \<lparr>lr_pid = pcd_pid pcd, lr_gpuid = pcd_gpuid pcd,
            lr_app_type = pcd_app_type pcd, lr_to_mark = 0\<rparr> sd) (\<lambda>(idx, sd').
          Inr (sd', [LReply (pcd_pid pcd) idx]))
      else if 0 < status \<and> pcd_action pcd = REM_Q then
        bindr (las_remove gpu (pcd_pid pcd) sd) (\<lambda>sd'. Inr (sd', [LUnlink (pcd_pid pcd)]))
      else if 0 < status \<and> pcd_action pcd = NOTIFY_SCHED then
        bindr (las_notify gpu pcd sd) (\<lambda>sd'. Inr (sd', []))
      else if 0 < status \<and> pcd_action pcd = GET_PRIORITY then
        bindr (nthri (sd_slots sd) (pcd_gpuid pcd)) (\<lambda>s.
          Inr (sd, [LReply (pcd_pid pcd) (sl_priority s)]))
      else if 0 < status \<and> pcd_action pcd = GET_L2_DATA then
        bindr (nthri (sd_slots sd) (pcd_gpuid pcd)) (\<lambda>s.
          Inr (sd, [LData (pcd_pid pcd) (pcd\<lparr>pcd_app_type := sl_app_type s,
            pcd_execution := sl_execution s, pcd_action := sl_feedback s\<rparr>)]))
      else Inr (sd, []))"

section \<open>Priorities\<close>

definition las_valid :: "int \<Rightarrow> slot \<Rightarrow> bool" where
  "las_valid gpu s \<longleftrightarrow> sl_gpu s = gpu \<and> sl_valid s \<noteq> 0"

text \<open>The search for the least time starts with the time of slot 0.\<close>

primrec las_least :: "int \<Rightarrow> slot list \<Rightarrow> timeval \<Rightarrow> timeval" where
  "las_least gpu [] m = m"
| "las_least gpu (s # ss) m = las_least gpu ss
     (if las_valid gpu s \<and> timer_less (sl_execution s) m then sl_execution s else m)"

definition las_control :: "int \<Rightarrow> scheduler_data \<Rightarrow> scheduler_data cres" where
  "las_control gpu sd =
     (if sd_count sd = 0 then Inr sd else
      bindr (nthr (sd_slots sd) 0) (\<lambda>s0.
        let minval = las_least gpu (sd_slots sd) (sl_execution s0) in
        Inr (sd\<lparr>sd_slots := map (\<lambda>s. if las_valid gpu s
               then s\<lparr>sl_priority := (if sl_execution s \<noteq> minval then PRIORITY_NORMAL
                                     else PRIORITY_HIGH)\<rparr> else s) (sd_slots sd)\<rparr>)))"

lemma las_least_spec:
  assumes "tv_ok m" and "\<forall>s \<in> set ss. tv_ok (sl_execution s)"
  shows "tv_ok (las_least gpu ss m)
    \<and> tv_us (las_least gpu ss m) \<le> tv_us m
    \<and> (\<forall>s \<in> set ss. las_valid gpu s \<longrightarrow> tv_us (las_least gpu ss m) \<le> tv_us (sl_execution s))
    \<and> (las_least gpu ss m = m \<or> (\<exists>s \<in> set ss. las_valid gpu s \<and> las_least gpu ss m = sl_execution s))"
  using assms
proof (induction ss arbitrary: m)
  case (Cons s ss)
  let ?m = "if las_valid gpu s \<and> timer_less (sl_execution s) m then sl_execution s else m"
  have m: "tv_ok ?m" "tv_us ?m \<le> tv_us m" "las_valid gpu s \<longrightarrow> tv_us ?m \<le> tv_us (sl_execution s)"
    "?m = m \<or> las_valid gpu s \<and> ?m = sl_execution s"
    using Cons.prems by (auto simp: timer_less_us)
  have ss: "\<forall>s \<in> set ss. tv_ok (sl_execution s)" using Cons.prems(2) by simp
  have e: "las_least gpu (s # ss) m = las_least gpu ss ?m" by simp
  show ?case unfolding e using Cons.IH [OF m(1) ss] m(2-4) by (auto split del: if_split)
qed simp

end
