(* ===== verification/Pager.thy ===== *)
theory Pager
  imports Vmem Sched_Common
begin

text \<open>
  The pager, l2scheduler/pager.c: its start, the listener that takes the page-in requests of
  the processes, the choice of the victims and the worker. \<open>gmt_table\<close> is the shared memory
  map of all processes and \<open>gmt_index\<close> the number of its entries in use.
\<close>

section \<open>Start\<close>

text \<open>
  The system calls that set up the semaphore and the shared memory either all succeed or the
  function returns. \<open>mem_map_init\<close> gets the address of the one pointer \<open>gmt_table\<close>: the
  array of pointers it walks through has one element.
\<close>

definition start_pager :: "int \<Rightarrow> int \<Rightarrow> int \<Rightarrow> int \<Rightarrow> mem_map \<Rightarrow> (mem_map list \<times> int) option cres" where
  "start_pager pid semid shmid shmindex first =
     (if semid = -1 \<or> shmid = -1 \<or> shmindex = -1 then Inr None
      else bindr (mem_map_init pid [first] (int MAX_MEMORY)) (\<lambda>t. Inr (Some (t, 0))))"

section \<open>Listener\<close>

text \<open>\<open>struct pager_data\<close>: the block \<open>reqarr\<close> leads to, as its bytes.\<close>

record pager_data =
  pg_reqarr :: "byte list"
  pg_len :: int
  pg_pid :: int

text \<open>\<open>malloc(sizeof(pd.len * sizeof(int)))\<close>: the size of the type of the product.\<close>

definition reqarr_size :: nat where "reqarr_size = 8"

text \<open>
  One iteration of \<open>pager_listener\<close>: \<open>src\<close> is what the pointer of the request leads to in
  the pager, \<open>junk\<close> the content of the new block. \<open>memcpy\<close> gets the number of pages where
  it needs the number of bytes.
\<close>

definition pager_listen :: "byte list \<Rightarrow> int \<Rightarrow> byte list \<Rightarrow> int \<Rightarrow> int \<Rightarrow> pager_data list
    \<Rightarrow> pager_data list cres" where
  "pager_listen junk status src len pid PagerData =
     (if 0 < status then
        if MAX_MEMORY \<le> length PagerData then Inl OutOfBounds
        else bindr (copy_into (Some (take reqarr_size junk)) src len) (\<lambda>req.
          Inr (PagerData @ [\<lparr>pg_reqarr = req, pg_len = len, pg_pid = pid\<rparr>]))
      else Inr PagerData)"

section \<open>Victims\<close>

text \<open>
  The entry with the least size. \<open>min\<close> is an \<open>int\<close>, the comparison with a size converts it
  to \<open>size_t\<close>; \<open>last_smallest\<close> stays 0. The first valid entry is taken whatever its status.
\<close>

definition size_as_int :: "nat \<Rightarrow> int" where
  "size_as_int n = sint (word_of_nat n :: u32)"

definition evictable :: "vmem_status \<Rightarrow> bool" where
  "evictable s \<longleftrightarrow> s = D_INIT \<or> s = D_READY \<or> s = D_MODIFIED"

primrec pick_loop :: "mem_map list \<Rightarrow> nat \<Rightarrow> int \<Rightarrow> nat \<Rightarrow> int \<times> nat" where
  "pick_loop [] i mn mi = (mn, mi)"
| "pick_loop (m # ms) i mn mi =
     (if mm_valid m \<noteq> 0 \<and> mn = -1 then pick_loop ms (i + 1) (size_as_int (mm_size m)) i
      else if mm_valid m \<noteq> 0 \<and> (word_of_nat (mm_size m) :: u64) \<le> word_of_int mn
              \<and> evictable (mm_status m)
           then pick_loop ms (i + 1) (size_as_int (mm_size m)) i
      else pick_loop ms (i + 1) mn mi)"

text \<open>
  \<open>struct pager_data\<close> of the victims: the entries of the table written to \<open>reqarr\<close> so far,
  which has room for \<open>MAX_MEMORY\<close> numbers.
\<close>

record victim =
  vc_pid :: int
  vc_reqarr :: "nat list"

fun victim_index :: "int \<Rightarrow> victim list \<Rightarrow> nat \<Rightarrow> int \<Rightarrow> int" where
  "victim_index pid [] i chosen = chosen"
| "victim_index pid (v # vs) i chosen =
     victim_index pid vs (i + 1) (if vc_pid v = pid then int i else chosen)"

text \<open>\<open>pd[chosen_id].reqarr[(pd[chosen_id].len++)] = minindex\<close>\<close>

definition victim_add :: "int \<Rightarrow> nat \<Rightarrow> int \<Rightarrow> victim list \<Rightarrow> victim list cres" where
  "victim_add pid minindex chosen pd =
     (let pd' = (if chosen = -1 then pd @ [\<lparr>vc_pid = pid, vc_reqarr = []\<rparr>] else pd);
          c = (if chosen = -1 then length pd else nat chosen) in
      if MAX_CONTROLLER_COUNT < length pd' then Inl OutOfBounds
      else bindr (nthr pd' c) (\<lambda>v.
        if MAX_MEMORY \<le> length (vc_reqarr v) then Inl OutOfBounds
        else Inr (pd'[c := \<lparr>vc_pid = pid, vc_reqarr = vc_reqarr v @ [minindex]\<rparr>])))"

text \<open>
  The outer loop. \<open>satisfied\<close> is a \<open>long\<close>, compared as \<open>unsigned long\<close>. What the table
  holds does not change in it.
\<close>

partial_function (option) victims_loop :: "mem_map list \<Rightarrow> nat \<Rightarrow> u64 \<Rightarrow> u64 \<Rightarrow> victim list
    \<Rightarrow> victim list cres option" where
  "victims_loop table mx req satisfied pd =
     (if satisfied < req then
        if length table < mx then Some (Inl OutOfBounds) else
        (case pick_loop (take mx table) 0 (-1) 0 of (mn, mi) \<Rightarrow>
          (case nthr table mi of Inl f \<Rightarrow> Some (Inl f) | Inr m \<Rightarrow>
            (case victim_add (mm_pid m) mi (victim_index (mm_pid m) pd 0 (-1)) pd of
               Inl f \<Rightarrow> Some (Inl f)
             | Inr pd' \<Rightarrow> victims_loop table mx req (satisfied + word_of_int mn) pd')))
      else Some (Inr pd))"

text \<open>
  The pointer \<open>pd\<close> of the caller keeps its value: of the result only its length reaches the
  caller.
\<close>

definition choose_victims_least_frequetly_used :: "mem_map list \<Rightarrow> int \<Rightarrow> u64
    \<Rightarrow> (victim list \<times> int) cres option" where
  "choose_victims_least_frequetly_used table gmt_index req =
     map_option (\<lambda>r. bindr r (\<lambda>pd. Inr (pd, int (length pd))))
       (victims_loop table (nat gmt_index) req 0 [])"

section \<open>Worker\<close>

text \<open>\<open>reqarr[i]\<close>: an \<open>int\<close> read from the block of 8 bytes.\<close>

definition reqarr_at :: "byte list \<Rightarrow> nat \<Rightarrow> int cres" where
  "reqarr_at b i = (if length b < 4 * i + 4 then Inl OutOfBounds
     else Inr (sint (dec32 (take 4 (drop (4 * i) b)))))"

primrec mem_req_loop :: "mem_map list \<Rightarrow> byte list \<Rightarrow> nat \<Rightarrow> nat \<Rightarrow> u64 \<Rightarrow> u64 cres" where
  "mem_req_loop table b i 0 acc = Inr acc"
| "mem_req_loop table b i (Suc k) acc = bindr (reqarr_at b i) (\<lambda>x. bindr (nthri table x) (\<lambda>m.
     mem_req_loop table b (i + 1) k (acc + word_of_nat (mm_size m))))"

text \<open>
  One iteration of \<open>pager_worker\<close>. The local pointer \<open>pd\<close> is never set: with victims the
  worker reads \<open>pd[0].pid\<close>, without victims it notifies the process and then frees
  \<open>pd[i].reqarr\<close>.
\<close>

definition pager_worker :: "mem_map list \<Rightarrow> int \<Rightarrow> pager_data list \<Rightarrow> nat \<Rightarrow> nat cres option" where
  "pager_worker table gmt_index PagerData localindex =
     (if localindex < length PagerData then
        let p = PagerData ! localindex in
        (case mem_req_loop table (pg_reqarr p) 0 (nat (pg_len p)) 0 of
           Inl f \<Rightarrow> Some (Inl f)
         | Inr mem_req \<Rightarrow>
             map_option (\<lambda>r. bindr r (\<lambda>(pd, len). Inl Uninit))
               (choose_victims_least_frequetly_used table gmt_index mem_req))
      else Some (Inr localindex))"

end
