(* ===== verification/Sched_Properties.thy ===== *)
theory Sched_Properties
  imports Fair_Share Las Pager
begin

text \<open>
  The properties of the schedulers and of the pager: the tables of processes, the time slices
  and the control thread of the fair-share scheduler, the priorities of the
  least-attained-service scheduler, and what the pager does with a request.
\<close>

section \<open>The tables\<close>

lemma pids_map: "(\<And>s. sl_process (f s) = sl_process s) \<Longrightarrow>
    pids (sd\<lparr>sd_slots := map f (sd_slots sd)\<rparr>) = pids sd"
  by (simp add: pids_def)

lemma table_inv_map:
  assumes "table_inv sd" and "\<And>s. sl_process (f s) = sl_process s"
  shows "table_inv (sd\<lparr>sd_slots := map f (sd_slots sd)\<rparr>)"
  using assms(1) pids_map [OF assms(2), of sd]
  by (simp add: table_inv_def distinct_pids_def sd_ok_def)

lemma fs_age_process [simp]: "sl_process (fs_age gpu s) = sl_process s"
  by (simp add: fs_age_def fs_settle_def fs_wake_def fs_penalise_def Let_def)

lemma table_inv_timeslices:
  assumes "table_inv sd"
  shows "table_inv (fs_timeslices gpu sd)"
proof -
  let ?sd = "sd\<lparr>sd_slots := map (fs_age gpu) (sd_slots sd)\<rparr>"
  let ?f = "\<lambda>s. if fs_active gpu s
    then s\<lparr>sl_allocated := fs_slice (fs_total_shares gpu (map (fs_age gpu) (sd_slots sd)))\<rparr>
    else s"
  have a: "table_inv ?sd" by (rule table_inv_map [OF assms]) simp
  then have "table_inv (?sd\<lparr>sd_slots := map ?f (sd_slots ?sd)\<rparr>)" by (rule table_inv_map) simp
  with a show ?thesis unfolding fs_timeslices_def Let_def by (simp del: map_map)
qed

definition demo_pcd :: "int \<Rightarrow> int \<Rightarrow> process_credit_data" where
  "demo_pcd action pid = \<lparr>pcd_pid = pid, pcd_share_unit = 20, pcd_action = action,
     pcd_app_type = 0, pcd_gpuid = 0, pcd_execution = \<lparr>tv_sec = 0, tv_usec = 0\<rparr>\<rparr>"

text \<open>A process that asks to be added is entered, and the process whose slot it takes, 500
  registrations earlier, silently drops out of the table although it was never removed.\<close>

theorem fs_registration_evicts:
  assumes "table_inv sd" and "pcd_action pcd = ADD_Q" and "\<not> already_added pcd sd"
    and "0 < status" and "sl_process (sd_slots sd ! unat (sd_count sd)) = q"
    and "q \<noteq> INVALID_PROCEESS"
  shows "\<exists>sd' out. fs_listen gpu status pcd 0 sd = Inr (sd', out) \<and> table_inv sd'
    \<and> already_added pcd sd' \<and> q \<notin> sl_process ` set (sd_slots sd')"
proof -
  let ?r = "\<lparr>fr_pid = pcd_pid pcd, fr_signum = SIGSCHED,
               fr_app_type = pcd_app_type pcd, fr_gpuid = pcd_gpuid pcd,
               fr_share = sint (ucast (pcd_share_unit pcd) :: u32)\<rparr>"
  have new: "fr_pid ?r \<notin> set (pids sd)" using assms(3) by (simp add: already_added_pids)
  obtain sd' where r: "fs_register_process ?r sd = Inr sd'" "table_inv sd'"
    "fr_pid ?r \<in> set (pids sd')"
    using fs_table.register_inv [OF assms(1) new] by blast
  have "unat (sd_count sd) < length (sd_slots sd)"
    using assms(1) by (simp add: table_inv_def sd_ok_def)
  then have "pids sd ! unat (sd_count sd) = q" using assms(5) by (simp add: pids_def)
  from fs_table.register_evicts [OF assms(1) new assms(6) this r(1)]
  have "q \<notin> sl_process ` set (sd_slots sd')" by (simp add: pids_def)
  then show ?thesis using r assms(2-4) by (simp add: fs_listen_def already_added_pids)
qed

lemma fs_registration_evicts_witness:
  "\<exists>sd sd' out. table_inv sd \<and> already_added (demo_pcd ADD_Q 7) sd
     \<and> fs_listen 0 1 (demo_pcd ADD_Q 8) 0 sd = Inr (sd', out)
     \<and> \<not> already_added (demo_pcd ADD_Q 7) sd'"
proof -
  define sd where "sd = Scheduler_Data0\<lparr>sd_slots := (sd_slots Scheduler_Data0)
    [0 := zero_slot\<lparr>sl_process := 7\<rparr>]\<rparr>"
  have z: "0 < length (sd_slots Scheduler_Data0)" "sd_count Scheduler_Data0 = 0"
    "set (pids Scheduler_Data0) = {0}"
    by (simp_all add: Scheduler_Data0_def MAX_CONTROLLER_COUNT_def pids_def zero_slot_def)
  have p: "pids sd = (pids Scheduler_Data0)[0 := 7]" by (simp add: sd_def pids_def map_update)
  have "sd_ok sd" using table_inv_zero by (simp add: sd_def table_inv_def sd_ok_def)
  from table_inv_update [OF table_inv_zero this p] have t: "table_inv sd" using z(3) by simp
  have l: "0 < length (pids Scheduler_Data0)" using z(1) by (simp add: pids_def)
  have "set (pids sd) \<subseteq> insert 7 {0}" unfolding p using set_update_subset_insert z(3) by metis
  then have n: "\<not> already_added (demo_pcd ADD_Q 8) sd"
    by (auto simp: already_added_pids demo_pcd_def)
  have "7 \<in> set (pids sd)" unfolding p using l by (rule set_update_memI)
  then have a: "already_added (demo_pcd ADD_Q 7) sd" by (simp add: already_added_pids demo_pcd_def)
  have c: "sl_process (sd_slots sd ! unat (sd_count sd)) = 7" using z by (simp add: sd_def)
  show ?thesis
    using fs_registration_evicts [OF t _ n _ c, of 1 0] t a
    by (auto simp: demo_pcd_def ADD_Q_def INVALID_PROCEESS_def already_added_pids pids_def)
qed

section \<open>Time slices\<close>

lemma flt_slice_bound:
  assumes "(0 :: int) < n"
  shows "flt (flt (100 / flt (of_int n)) * 1000) * of_int n < 100001"
    "0 \<le> flt (flt (100 / flt (of_int n)) * 1000)"
proof -
  let ?e = "1 / 2 ^ 24 :: rat" let ?n = "of_int n :: rat"
  have n: "0 < ?n" using assms by simp
  have a: "?n * (1 - ?e) \<le> flt ?n" using flt_bounds(1) [of ?n] n by simp
  have a0: "0 < ?n * (1 - ?e)" using n by simp
  have b: "100 / flt ?n \<le> 100 / (?n * (1 - ?e))"
    using a a0 by (intro divide_left_mono) auto
  have b0: "0 \<le> 100 / flt ?n" using a a0 by simp
  have c: "flt (100 / flt ?n) \<le> 100 / (?n * (1 - ?e)) * (1 + ?e)"
    by (rule order_trans [OF flt_bounds(2) [OF b0] mult_right_mono [OF b]]) simp
  have c1: "0 \<le> flt (100 / flt ?n) * 1000" using flt_nonneg [OF b0] by simp
  show nonneg: "0 \<le> flt (flt (100 / flt ?n) * 1000)" by (rule flt_nonneg [OF c1])
  have "flt (flt (100 / flt ?n) * 1000) \<le> flt (100 / flt ?n) * 1000 * (1 + ?e)"
    using flt_bounds(2) [OF c1] .
  also have "\<dots> \<le> 100 / (?n * (1 - ?e)) * (1 + ?e) * 1000 * (1 + ?e)"
    using c by (intro mult_right_mono) auto
  finally have "flt (flt (100 / flt ?n) * 1000) * ?n
      \<le> 100 / (?n * (1 - ?e)) * (1 + ?e) * 1000 * (1 + ?e) * ?n"
    using n by (intro mult_right_mono) auto
  also have "\<dots> = 100 / (1 - ?e) * (1 + ?e) * 1000 * (1 + ?e)" using n by simp
  also have "\<dots> < 100001" by simp
  finally show "flt (flt (100 / flt (of_int n)) * 1000) * of_int n < 100001" .
qed

lemma fs_slice_bound:
  assumes "0 < n"
  shows "tv_sec (fs_slice n) = 0" "0 \<le> tv_usec (fs_slice n)" "tv_usec (fs_slice n) * n \<le> 100000"
proof -
  let ?f = "flt (flt (100 / flt (of_int n)) * 1000)"
  note b = flt_slice_bound [OF assms]
  have u: "tv_usec (fs_slice n) = \<lfloor>?f\<rfloor>"
    using b(2) by (simp add: fs_slice_def flt_to_int_def EPOCH_LENGTH_def)
  show "tv_sec (fs_slice n) = 0" by (simp add: fs_slice_def)
  show "0 \<le> tv_usec (fs_slice n)" using u b(2) by simp
  have "(of_int (\<lfloor>?f\<rfloor> * n) :: rat) \<le> ?f * of_int n"
    using assms by (simp add: mult_right_mono)
  also have "\<dots> < 100001" by (rule b(1))
  finally have "\<lfloor>?f\<rfloor> * n < 100001" by (metis of_int_less_iff of_int_numeral)
  then show "tv_usec (fs_slice n) * n \<le> 100000" using u by simp
qed

text \<open>The shares of the active processes as they are, not cut to an \<open>int\<close>.\<close>

definition active_shares :: "int \<Rightarrow> slot list \<Rightarrow> nat" where
  "active_shares gpu ss = sum_list (map (\<lambda>s. unat (sl_share_unit s)) (filter (fs_active gpu) ss))"

lemma fs_total_shares_eq:
  assumes "active_shares gpu ss < 2 ^ 31"
  shows "fs_total_shares gpu ss = int (active_shares gpu ss)"
proof -
  have e: "sum_list (map (\<lambda>s. ucast (sl_share_unit s) :: u32) xs)
      = word_of_nat (sum_list (map (\<lambda>s. unat (sl_share_unit s)) xs))" for xs
    by (induction xs) simp_all
  show ?thesis
    using assms unfolding fs_total_shares_def e active_shares_def [symmetric]
    by (simp add: sint_small_nat)
qed

lemma length_le_shares:
  "\<forall>s \<in> set xs. 1 \<le> f s \<Longrightarrow> length xs \<le> sum_list (map f xs)" for f :: "'a \<Rightarrow> nat"
  by (induction xs) auto

lemma fs_slice_1: "tv_usec (fs_slice 1) = 100000"
proof -
  have "fs_slice 1 = \<lparr>tv_sec = 0, tv_usec = 100000\<rparr>" by code_simp
  then show ?thesis by simp
qed


definition demo_sd :: "slot list \<Rightarrow> scheduler_data" where
  "demo_sd ss = \<lparr>sd_slots = ss, sd_count = 3\<rparr>"

definition demo_slot :: "int \<Rightarrow> u64 \<Rightarrow> slot" where
  "demo_slot pid share = zero_slot\<lparr>sl_process := pid, sl_share_unit := share\<rparr>"


section \<open>The control thread\<close>

text \<open>C40. The first time the control thread wakes a process it blocks for ever: if no signal ends its
  wait it stays there, and after one it locks the mutex that it holds instead of unlocking it. The
  signal to the process was sent, but no execution time is recorded, and every thread that wants to start a new epoch
  blocks as well.\<close>

theorem fs_control_blocks:
  assumes "\<not> fs_locked st" and "sd_count (fs_data st) \<noteq> 0"
    and "unat thid < length (sd_slots (fs_data st))" and "unat i < length (sd_slots (fs_data st))"
    and "fs_active gpu (sd_slots (fs_data st) ! unat thid)"
    and "sl_penalty (sd_slots (fs_data st) ! unat thid) \<le> 0" and "share_unit \<noteq> 0"
  shows "\<exists>st'. fs_control gpu share_unit i sig tp tp1 thid st = Blocked st' \<and> fs_locked st'
    \<and> fs_sent st' = fs_sent st @ [(sl_process (sd_slots (fs_data st) ! unat thid), SIGSCHED,
        sl_allocated (sd_slots (fs_data st) ! unat thid))]
    \<and> map sl_execution (sd_slots (fs_data st')) = map sl_execution (sd_slots (fs_data st))
    \<and> fs_calculate_timeslice gpu' st' = Blocked st'"
  using assms by (auto simp: fs_control_def liftc_def nthr_def fs_active_def mutex_lock_def Let_def
      slot_upd_ok fs_calculate_timeslice_def map_update intro!: list_update_same_conv [THEN iffD2])

definition demo_fs :: fs_state where
  "demo_fs = \<lparr>fs_data = demo_sd [demo_slot 1 70], fs_locked = False, fs_sent = []\<rparr>"

lemma fs_control_blocks_witness:
  "\<exists>st'. fs_control 0 5 0 (Some 34) \<lparr>tv_sec = 1, tv_usec = 0\<rparr> \<lparr>tv_sec = 2, tv_usec = 0\<rparr> 0 demo_fs = Blocked st'
     \<and> fs_locked st'"
proof -
  have "\<exists>st'. fs_control 0 5 0 (Some 34) \<lparr>tv_sec = 1, tv_usec = 0\<rparr> \<lparr>tv_sec = 2, tv_usec = 0\<rparr> 0 demo_fs = Blocked st'
    \<and> fs_locked st'
    \<and> fs_sent st' = fs_sent demo_fs @ [(sl_process (sd_slots (fs_data demo_fs) ! unat (0 :: u32)), SIGSCHED,
        sl_allocated (sd_slots (fs_data demo_fs) ! unat (0 :: u32)))]
    \<and> map sl_execution (sd_slots (fs_data st')) = map sl_execution (sd_slots (fs_data demo_fs))
    \<and> fs_calculate_timeslice 0 st' = Blocked st'"
    by (rule fs_control_blocks)
      (simp_all add: demo_fs_def demo_sd_def demo_slot_def zero_slot_def fs_active_def proc_states)
  then show ?thesis by blast
qed

section \<open>Priorities\<close>

text \<open>C27. After a pass of the least-attained-service scheduler a valid process of its GPU has the high
  priority exactly when no valid process of the GPU has used less time, and slot 0 has not
  either, whatever GPU it belongs to; the others have the normal one. Nothing else changes.\<close>

theorem las_priorities:
  assumes "sd_count sd \<noteq> 0" and "sd_slots sd \<noteq> []"
    and "\<forall>s \<in> set (sd_slots sd). tv_ok (sl_execution s)"
  shows "\<exists>f. las_control gpu sd = Inr (sd\<lparr>sd_slots := map f (sd_slots sd)\<rparr>)
    \<and> (\<forall>s \<in> set (sd_slots sd). f s = (if \<not> las_valid gpu s then s else s\<lparr>sl_priority :=
         (if (\<forall>s' \<in> set (sd_slots sd). las_valid gpu s' \<longrightarrow>
                tv_us (sl_execution s) \<le> tv_us (sl_execution s'))
             \<and> tv_us (sl_execution s) \<le> tv_us (sl_execution (sd_slots sd ! 0))
          then PRIORITY_HIGH else PRIORITY_NORMAL)\<rparr>))"
proof -
  let ?first = "sl_execution (sd_slots sd ! 0)"
  let ?least = "las_least gpu (sd_slots sd) ?first"
  let ?f = "\<lambda>s. if las_valid gpu s then s\<lparr>sl_priority := (if sl_execution s \<noteq> ?least
    then PRIORITY_NORMAL else PRIORITY_HIGH)\<rparr> else s"
  have "sd_slots sd ! 0 \<in> set (sd_slots sd)" using assms(2) by simp
  then have m0: "tv_ok ?first" using assms(3) by blast
  from las_least_spec [OF m0 assms(3), of gpu]
  have m: "tv_ok ?least" "tv_us ?least \<le> tv_us ?first"
    "\<forall>s \<in> set (sd_slots sd). las_valid gpu s \<longrightarrow> tv_us ?least \<le> tv_us (sl_execution s)"
    "?least = ?first \<or> (\<exists>s \<in> set (sd_slots sd). las_valid gpu s \<and> ?least = sl_execution s)"
    by blast+
  have eq: "sl_execution s = ?least \<longleftrightarrow>
      (\<forall>s' \<in> set (sd_slots sd). las_valid gpu s' \<longrightarrow> tv_us (sl_execution s) \<le> tv_us (sl_execution s'))
      \<and> tv_us (sl_execution s) \<le> tv_us ?first"
    if s: "s \<in> set (sd_slots sd)" "las_valid gpu s" for s
  proof
    assume "sl_execution s = ?least"
    then show "(\<forall>s' \<in> set (sd_slots sd). las_valid gpu s' \<longrightarrow>
        tv_us (sl_execution s) \<le> tv_us (sl_execution s')) \<and> tv_us (sl_execution s) \<le> tv_us ?first"
      using m(2,3) by simp
  next
    assume least: "(\<forall>s' \<in> set (sd_slots sd). las_valid gpu s' \<longrightarrow>
        tv_us (sl_execution s) \<le> tv_us (sl_execution s')) \<and> tv_us (sl_execution s) \<le> tv_us ?first"
    then have "tv_us (sl_execution s) \<le> tv_us ?least" using m(4) by auto
    moreover have "tv_us ?least \<le> tv_us (sl_execution s)" using m(3) s by blast
    ultimately show "sl_execution s = ?least" using tv_us_inj [OF _ m(1)] assms(3) s(1) by simp
  qed
  have "las_control gpu sd = Inr (sd\<lparr>sd_slots := map ?f (sd_slots sd)\<rparr>)"
    using assms(1,2) by (simp add: las_control_def nthr_def Let_def)
  then show ?thesis using eq by (intro exI [of _ ?f]) auto
qed

definition las_slot :: "int \<Rightarrow> int \<Rightarrow> int \<Rightarrow> slot" where
  "las_slot pid gpu us = zero_slot\<lparr>sl_process := pid, sl_gpu := gpu, sl_valid := 1,
     sl_execution := \<lparr>tv_sec = 0, tv_usec = us\<rparr>\<rparr>"

text \<open>The least time on GPU 1 is 20 ms, but slot 0, a process of GPU 0, has used 10 ms.\<close>

lemma las_priorities_witness:
  "\<exists>f. las_control 1 (demo_sd [las_slot 1 0 10000, las_slot 2 1 20000]) =
     Inr (demo_sd [las_slot 1 0 10000, f (las_slot 2 1 20000)])
   \<and> sl_priority (f (las_slot 2 1 20000)) = PRIORITY_NORMAL"
proof -
  let ?sd = "demo_sd [las_slot 1 0 10000, las_slot 2 1 20000]"
  have "\<forall>s \<in> set (sd_slots ?sd). tv_ok (sl_execution s)"
    by (simp add: demo_sd_def las_slot_def tv_ok_def)
  from las_priorities [of ?sd, OF _ _ this, of 1] show ?thesis
    by (auto simp: demo_sd_def las_slot_def las_valid_def tv_us_def zero_slot_def)
qed

text \<open>A process that registers with the least-attained-service scheduler inherits the execution
  time of the process that had the slot before, and its application type is not recorded.\<close>

theorem las_register_inherits:
  assumes "las_register_process r sd = Inr (idx, sd')" and "sd_ok sd"
  shows "\<exists>s. sd_slots sd' ! nat idx = s \<and> sl_process s = lr_pid r \<and> sl_gpu s = lr_gpuid r
    \<and> sl_valid s = 1 \<and> sl_execution s = sl_execution (sd_slots sd ! nat idx)
    \<and> sl_app_type s = sl_app_type (sd_slots sd ! nat idx)
    \<and> (\<forall>j < length (sd_slots sd). j \<noteq> nat idx \<longrightarrow> sd_slots sd' ! j = sd_slots sd ! j)"
proof -
  have c: "unat (sd_count sd) < length (sd_slots sd)" "unat (sd_count sd) < 2 ^ 31"
    using sd_okD [OF assms(2)] by (simp_all add: MAX_CONTROLLER_COUNT_def)
  have "sint (sd_count sd) = int (unat (sd_count sd))"
    using sint_small_nat [OF c(2)] by simp
  moreover have r: "idx = sint (sd_count sd)" "sd_slots sd' = (sd_slots sd)[unat (sd_count sd) :=
      (sd_slots sd ! unat (sd_count sd))\<lparr>sl_process := lr_pid r, sl_valid := 1,
         sl_gpu := lr_gpuid r, sl_priority := 0,
         sl_feedback := (if lr_to_mark r \<noteq> 0 then 1 else 0)\<rparr>]"
    using assms(1) c(1) by (auto simp: las_register_process_def slot_upd_ok)
  ultimately have i: "nat idx = unat (sd_count sd)" by linarith
  show ?thesis unfolding i r(2) using c(1) by simp
qed

lemma las_register_inherits_witness:
  "\<exists>idx sd'. las_register_process \<lparr>lr_pid = 9, lr_gpuid = 1, lr_app_type = 1, lr_to_mark = 0\<rparr>
     Scheduler_Data0 = Inr (idx, sd') \<and> sl_app_type (sd_slots sd' ! nat idx) = 0"
proof -
  let ?r = "\<lparr>lr_pid = 9, lr_gpuid = 1, lr_app_type = 1, lr_to_mark = 0\<rparr>"
  have ok: "sd_ok Scheduler_Data0" using table_inv_zero by (simp add: table_inv_def)
  obtain idx sd' where r: "las_register_process ?r Scheduler_Data0 = Inr (idx, sd')" "idx = 0"
    by (simp add: las_register_process_def slot_upd_ok Scheduler_Data0_def MAX_CONTROLLER_COUNT_def)
  have "sl_app_type (sd_slots Scheduler_Data0 ! 0) = 0"
    by (simp add: Scheduler_Data0_def MAX_CONTROLLER_COUNT_def zero_slot_def)
  then show ?thesis using las_register_inherits [OF r(1) ok] r by auto
qed

section \<open>The pager\<close>

text \<open>The pager faults when it starts: it initialises the 10000 entries of the shared memory map
  through the address of one pointer.\<close>

theorem start_pager_faults:
  "start_pager pid semid shmid shmindex first =
     (if semid = -1 \<or> shmid = -1 \<or> shmindex = -1 then Inr None else Inl OutOfBounds)"
proof -
  obtain k where k: "MAX_MEMORY = Suc (Suc k)"
    by (metis MAX_MEMORY_def numeral_eq_Suc pred_numeral_simps(2))
  have "mem_map_init_loop pid MAX_MEMORY 0 [first] = Inl OutOfBounds"
    unfolding k by (simp add: nthr_def)
  then show ?thesis by (simp add: start_pager_def mem_map_init_def)
qed

text \<open>Of a request for \<open>n\<close> pages, four bytes each, the listener copies \<open>n\<close> bytes: up to 8
  pages only the first quarter of the numbers arrives, and with more the block overflows.\<close>

theorem pager_listen_truncates:
  assumes "0 < status" and "length PagerData < MAX_MEMORY" and "8 \<le> length junk"
    and "length src = 4 * n"
  shows "pager_listen junk status src (int n) pid PagerData =
    (if 8 < n then Inl OutOfBounds
     else Inr (PagerData @ [\<lparr>pg_reqarr = take n src @ drop n (take 8 junk), pg_len = int n,
       pg_pid = pid\<rparr>]))"
  using assms by (auto simp: pager_listen_def copy_into_def reqarr_size_def min_absorb2)

text \<open>Two pages, 1 and 2: neither number arrives.\<close>

lemma pager_listen_truncates_witness:
  "pager_listen (replicate 8 0xFF) 1 [1, 0, 0, 0, 2, 0, 0, 0] 2 77 [] =
     Inr [\<lparr>pg_reqarr = [1, 0] @ replicate 6 0xFF, pg_len = 2, pg_pid = 77\<rparr>]"
  using pager_listen_truncates [of 1 "[]" "replicate 8 0xFF" "[1, 0, 0, 0, 2, 0, 0, 0]" 2 77]
  by (simp add: MAX_MEMORY_def numeral_eq_Suc)

lemma unat_word_of_int:
  assumes "0 \<le> x" and "x < 2 ^ 63"
  shows "unat (word_of_int x :: u64) = nat x"
proof -
  have "uint (word_of_int x :: u64) = x" using assms by (simp add: uint_word_of_int)
  then show ?thesis by (metis nat_uint_eq)
qed

text \<open>The loop that chooses the victims, once a first entry was made for the process.\<close>

lemma victims_loop_repeats:
  assumes pick: "pick_loop (take mx table) 0 (-1) 0 = (mn, mi)" and mi: "mi < length table"
    and mx: "mx \<le> length table" and mn: "0 < mn"
    and pd: "pd = (if k = 0 then [] else
      [\<lparr>vc_pid = mm_pid (table ! mi), vc_reqarr = replicate k mi\<rparr>])"
    and k: "(int n - 1) * mn < int (unat req) \<or> n = 0" "int (unat req) \<le> int n * mn"
      "k \<le> n" "n \<le> MAX_MEMORY" "int n * mn < 2 ^ 63"
  shows "victims_loop table mx req (word_of_int (int k * mn)) pd = Some (Inr (if n = 0 then [] else
    [\<lparr>vc_pid = mm_pid (table ! mi), vc_reqarr = replicate n mi\<rparr>]))"
  using k(3) pd
proof (induction "n - k" arbitrary: k pd)
  case 0
  then have "k = n" by simp
  moreover have "unat (word_of_int (int n * mn) :: u64) = nat (int n * mn)"
    using k(5) mn by (intro unat_word_of_int) simp_all
  moreover have "unat req \<le> nat (int n * mn)" using k(2) by (metis nat_int nat_mono)
  ultimately have "\<not> word_of_int (int k * mn) < req"
    unfolding word_less_nat_alt by (simp only: not_less)
  then show ?case using 0 \<open>k = n\<close> by (subst victims_loop.simps) simp
next
  case (Suc d)
  then have kn: "k < n" "n \<noteq> 0" by simp_all
  have "int k * mn \<le> (int n - 1) * mn" using kn mn by (intro mult_right_mono) auto
  then have lt: "int k * mn < int (unat req)" using k(1) kn by linarith
  have u: "unat (word_of_int (int k * mn) :: u64) = nat (int k * mn)"
  proof (rule unat_word_of_int)
    have "int k * mn \<le> int n * mn" using kn(1) mn by (intro mult_right_mono) auto
    then show "int k * mn < 2 ^ 63" using k(5) by linarith
  qed (use mn in simp)
  have less: "word_of_int (int k * mn) < req"
    using lt u mn by (simp add: word_less_nat_alt nat_less_iff)
  let ?pd = "[\<lparr>vc_pid = mm_pid (table ! mi), vc_reqarr = replicate (Suc k) mi\<rparr>]"
  have add: "victim_add (mm_pid (table ! mi)) mi (victim_index (mm_pid (table ! mi)) pd 0 (-1)) pd
      = Inr ?pd"
    using Suc.prems(2) kn k(4)
    by (auto simp: victim_add_def MAX_CONTROLLER_COUNT_def nthr_def replicate_append_same)
  have acc: "(word_of_int (int k * mn) :: u64) + word_of_int mn = word_of_int (int (Suc k) * mn)"
    by (simp add: algebra_simps)
  have "victims_loop table mx req (word_of_int (int k * mn)) pd
      = victims_loop table mx req (word_of_int (int (Suc k) * mn)) ?pd"
    using less mx mi add acc pick by (subst victims_loop.simps) (simp add: nthr_def)
  also have "\<dots> = Some (Inr (if n = 0 then [] else
    [\<lparr>vc_pid = mm_pid (table ! mi), vc_reqarr = replicate n mi\<rparr>]))"
    by (rule Suc.hyps(1)) (use Suc.hyps(2) kn in auto)
  finally show ?case .
qed

text \<open>The choice of the victims takes the same page again and again: when the smallest page has
  \<open>mn\<close> bytes, it is entered \<open>n\<close> times for \<open>n\<close> the number of such pages needed, and no other
  page of any process is.\<close>

theorem victims_same_page:
  assumes "pick_loop (take (nat gi) table) 0 (-1) 0 = (mn, mi)" and "mi < length table"
    and "nat gi \<le> length table" and "0 < mn" and "0 < n"
    and "(int n - 1) * mn < int (unat req)" and "int (unat req) \<le> int n * mn"
    and "n \<le> MAX_MEMORY" and "int n * mn < 2 ^ 63"
  shows "choose_victims_least_frequetly_used table gi req =
    Some (Inr ([\<lparr>vc_pid = mm_pid (table ! mi), vc_reqarr = replicate n mi\<rparr>], 1))"
  using victims_loop_repeats [OF assms(1-4), of "[]" 0 n req] assms(5-9)
  by (simp add: choose_victims_least_frequetly_used_def)

definition demo_page :: "int \<Rightarrow> nat \<Rightarrow> mem_map" where
  "demo_page pid sz = \<lparr>mm_addr = 0, mm_valid = 1, mm_handle = 0, mm_actual_devptr = 0x1000,
     mm_swap = None, mm_size = sz, mm_status = D_READY, mm_pid = pid, mm_freq = 0\<rparr>"

lemma replicate_3: "replicate 3 x = [x, x, x]"
  by (simp add: numeral_eq_Suc)

text \<open>100 bytes are needed; the page of 40 bytes is paged out three times, the one of 70 never.\<close>

lemma victims_same_page_witness:
  "choose_victims_least_frequetly_used [demo_page 11 70, demo_page 12 40] 2 100 =
     Some (Inr ([\<lparr>vc_pid = 12, vc_reqarr = [1, 1, 1]\<rparr>], 1))"
proof -
  have "pick_loop (take (nat 2) [demo_page 11 70, demo_page 12 40]) 0 (-1) 0 = (40, 1)"
    by (simp add: demo_page_def size_as_int_def evictable_def word_le_nat_alt)
  from victims_same_page [OF this, of 3 100] show ?thesis
    by (simp add: demo_page_def MAX_MEMORY_def replicate_3)
qed

text \<open>Whatever the victims are, the worker goes on with the pointer to them that it never
  received.\<close>

lemma pager_worker_never_finishes:
  "localindex < length PagerData \<Longrightarrow> pager_worker table gi PagerData localindex \<noteq> Some (Inr k)"
  by (auto simp: pager_worker_def Let_def bindr_eq_Inr_iff split: sum.splits)

end
