(* ===== verification/Backend_Loop.thy ===== *)
theory Backend_Loop
  imports Net_Conn
begin

text \<open>
  One remote call on the side of the backend: the body of the loop of \<open>backend_thread\<close> in
  backend/backend.c, as it is built (no scheduler and no feedback compiled in). The clock, the
  signal masks and the messages are left out.
\<close>

text \<open>What the handlers see of the connection besides the packet.\<close>

record srv_conn =
  sc_request_data_size :: int
  sc_response_data_size :: int
  sc_pReqBuffer :: "byte list option"
  sc_pRspBuffer :: "byte list option"

text \<open>
  The array of packets after the bytes \<open>s\<close> were received into it: as many packets as they
  reach into, the rest of the last one and all others being 0.
\<close>

primrec read_packets :: "nat \<Rightarrow> byte list \<Rightarrow> cuda_packet list" where
  "read_packets 0 s = []"
| "read_packets (Suc n) s = (case packet_of_bytes (s @ replicate sizeof_packet 0) of
     None \<Rightarrow> zero_packet | Some p \<Rightarrow> p) # read_packets n (drop sizeof_packet s)"

definition rpkts_of_bytes :: "byte list \<Rightarrow> cuda_packet list" where
  "rpkts_of_bytes s = (let n = (length s + (sizeof_packet - 1)) div sizeof_packet in
     read_packets n s @ replicate (MAX_REMOTE_BATCH_SIZE - n) zero_packet)"

text \<open>\<open>hdr->num_cuda_pkts * sizeof(rpkt_t)\<close>, passed as an \<open>int\<close>.\<close>

definition batch_bytes :: "u32 \<Rightarrow> int" where
  "batch_bytes n = sint (n * word_of_nat sizeof_packet)"

text \<open>Receiving the header, the packets and the extra data. \<open>None\<close> is \<open>break\<close>.\<close>

definition backend_receive :: "xfer \<Rightarrow> int \<Rightarrow> (nat \<Rightarrow> bool) \<Rightarrow> sock
    \<Rightarrow> ((strm \<times> srv_conn) option option \<times> sock) cres" where
  "backend_receive rcv fd malloc_ok s =
     (case get rcv (Some fd) True 8 s of (r, hb, s) \<Rightarrow>
      if r \<noteq> 1 then Inr (None, s) else
      (case hdr_of_bytes hb of (num, dsz) \<Rightarrow>
      if num = 0 then Inr (Some None, s) else
      (case get rcv (Some fd) True (batch_bytes num) s of (r, pb, s) \<Rightarrow>
      if MAX_REMOTE_BATCH_SIZE * sizeof_packet < length pb then Inl OutOfBounds
      else if r \<noteq> 1 then Inr (None, s)
      else
        let st = \<lparr>st_batch_size = 0, st_num_cuda_pkts = num, st_data_size = dsz,
                  st_rpkts = rpkts_of_bytes pb\<rparr>;
            sc = \<lparr>sc_request_data_size = 0, sc_response_data_size = 0, sc_pReqBuffer = None,
                  sc_pRspBuffer = None\<rparr> in
        if dsz = 0 then Inr (Some (Some (st, sc)), s)
        else if \<not> malloc_ok (unat dsz) then Inr (None, s)
        else (case get rcv (Some fd) True (sint dsz) s of (r, db, s) \<Rightarrow>
          if r \<noteq> 1 then Inr (None, s)
          else Inr (Some (Some (st, sc\<lparr>sc_request_data_size := sint dsz,
                 sc_pReqBuffer := Some db\<rparr>)), s)))))"

text \<open>Sending the response. The result says whether the loop goes on.\<close>

definition backend_respond :: "xfer \<Rightarrow> int \<Rightarrow> strm \<Rightarrow> cuda_packet \<Rightarrow> srv_conn \<Rightarrow> sock
    \<Rightarrow> (bool \<times> sock) cres" where
  "backend_respond sndf fd st p sc s =
     bindr (strm_expects_response st) (\<lambda>e.
     if e = 0 then Inr (True, s) else
     bindr (conn_sendCudaPktHdr sndf (Some fd) st 1 (sc_response_data_size sc) s) (\<lambda>(r, st, s).
     if r = ERROR then Inr (False, s) else
     bindr (put sndf (Some fd) (Some (packet_image p)) (int sizeof_packet) s) (\<lambda>(r, s).
     if r \<noteq> 1 then Inr (False, s)
     else if 0 < sc_response_data_size sc then
       bindr (put sndf (Some fd) (sc_pRspBuffer sc) (sc_response_data_size sc) s) (\<lambda>(r, s).
         Inr (r = 1, s))
     else Inr (True, s))))"

text \<open>
  The loop body. \<open>vm\<close> and \<open>km\<close> are the addresses of the memory map and of the kernel map;
  they are taken out of the packet before it is sent back. Only the first packet of a batch is
  executed.
\<close>

definition backend_serve :: "xfer \<Rightarrow> xfer \<Rightarrow> int \<Rightarrow> (nat \<Rightarrow> bool)
    \<Rightarrow> (handler \<Rightarrow> cuda_packet \<Rightarrow> srv_conn \<times> 's \<Rightarrow> (cuda_packet \<times> srv_conn \<times> 's) cres)
    \<Rightarrow> u64 \<Rightarrow> u64 \<Rightarrow> 's \<Rightarrow> sock \<Rightarrow> (bool \<times> 's \<times> sock) cres" where
  "backend_serve sndf rcv fd malloc_ok srv vm km st s =
     bindr (backend_receive rcv fd malloc_ok s) (\<lambda>(req, s).
     (case req of None \<Rightarrow> Inr (False, st, s) | Some None \<Rightarrow> Inr (True, st, s)
      | Some (Some (strm, sc)) \<Rightarrow>
        bindr (nthr (st_rpkts strm) 0) (\<lambda>p.
        bindr (pkt_execute srv (p\<lparr>pk_is_feedback_packet := 0, pk_vmmap := vm, pk_kmap := km\<rparr>)
            (sc, st)) (\<lambda>(p, sc, st).
        let p = p\<lparr>pk_vmmap := 0, pk_kmap := 0\<rparr>;
            strm = strm\<lparr>st_rpkts := (st_rpkts strm)[0 := p]\<rparr> in
        bindr (backend_respond sndf fd strm p sc s) (\<lambda>(go, s). Inr (go, st, s))))))"

section \<open>A well-formed request\<close>

text \<open>What the client sends for one packet with its data.\<close>

definition request_bytes :: "cuda_packet \<Rightarrow> byte list \<Rightarrow> byte list" where
  "request_bytes p d = hdr_image 1 (word_of_nat (length d)) @ packet_image p @ d"

lemma rpkts_of_image:
  "rpkts_of_bytes (packet_image p) = p # replicate (MAX_REMOTE_BATCH_SIZE - 1) zero_packet"
proof -
  have "(length (packet_image p) + (sizeof_packet - 1)) div sizeof_packet = 1"
    by (simp add: sizeof_packet_def)
  then show ?thesis by (simp add: rpkts_of_bytes_def)
qed

lemma batch_bytes_1 [simp]: "batch_bytes 1 = int sizeof_packet"
  by (simp add: batch_bytes_def sizeof_packet_def)

lemma backend_receive_ok:
  assumes "xfer_ok rcv" and "0 \<le> fd" and "sk_in s = request_bytes p d @ rest"
    and "length d < 2 ^ 31" and "\<forall>n. malloc_ok n"
  shows "\<exists>k. backend_receive rcv fd malloc_ok s = Inr (Some (Some
    (\<lparr>st_batch_size = 0, st_num_cuda_pkts = 1, st_data_size = word_of_nat (length d),
      st_rpkts = p # replicate (MAX_REMOTE_BATCH_SIZE - 1) zero_packet\<rparr>,
     \<lparr>sc_request_data_size = int (length d), sc_response_data_size = 0,
      sc_pReqBuffer = (if d = [] then None else Some d), sc_pRspBuffer = None\<rparr>)),
    s\<lparr>sk_in := rest, sk_calls := k\<rparr>)"
proof -
  let ?n = "word_of_nat (length d) :: u32"
  obtain k1 where k1: "get rcv (Some fd) True 8 s = (1, hdr_image 1 ?n,
      s\<lparr>sk_in := packet_image p @ d @ rest, sk_calls := k1\<rparr>)"
    using get_receives [OF assms(1,2), of s "hdr_image 1 ?n" "packet_image p @ d @ rest" 8] assms(3)
    by (auto simp: request_bytes_def)
  let ?s1 = "s\<lparr>sk_in := packet_image p @ d @ rest, sk_calls := k1\<rparr>"
  obtain k2 where k2: "get rcv (Some fd) True (int sizeof_packet) ?s1
      = (1, packet_image p, ?s1\<lparr>sk_in := d @ rest, sk_calls := k2\<rparr>)"
    using get_receives [OF assms(1,2), of ?s1 "packet_image p" "d @ rest" "int sizeof_packet"]
    by auto
  let ?s2 = "?s1\<lparr>sk_in := d @ rest, sk_calls := k2\<rparr>"
  have n: "sint ?n = int (length d)" using assms(4) by (rule sint_small_nat)
  have room: "\<not> MAX_REMOTE_BATCH_SIZE * sizeof_packet < sizeof_packet"
    by (simp add: MAX_REMOTE_BATCH_SIZE_def)
  show ?thesis
  proof (cases "d = []")
    case True
    then show ?thesis
      using k1 k2 room by (auto simp: backend_receive_def rpkts_of_image)
  next
    case False
    then have nz: "?n \<noteq> 0" using n by (metis length_0_conv of_nat_eq_0_iff signed_0)
    obtain k3 where "get rcv (Some fd) True (sint ?n) ?s2
        = (1, d, ?s2\<lparr>sk_in := rest, sk_calls := k3\<rparr>)"
      using get_receives [OF assms(1,2), of ?s2 d rest "sint ?n"] n by auto
    then show ?thesis
      using k1 k2 room False nz assms(5) n by (auto simp: backend_receive_def rpkts_of_image)
  qed
qed

text \<open>The bytes of a response.\<close>

definition response_bytes :: "cuda_packet \<Rightarrow> srv_conn \<Rightarrow> byte list" where
  "response_bytes p sc = hdr_image 1 (word_of_int (sc_response_data_size sc)) @ packet_image p
     @ (if 0 < sc_response_data_size sc
        then take (nat (sc_response_data_size sc)) (the (sc_pRspBuffer sc)) else [])"

definition rsp_ok :: "srv_conn \<Rightarrow> bool" where
  "rsp_ok sc \<longleftrightarrow> (0 < sc_response_data_size sc \<longrightarrow> (\<exists>b. sc_pRspBuffer sc = Some b
     \<and> int (length b) = sc_response_data_size sc))"

lemma backend_respond_ok:
  assumes "xfer_ok sndf" and "0 \<le> fd" and "st_num_cuda_pkts st = 1" and "st_rpkts st = p # ps"
    and "method_expects_response (pk_method_id p)" and "rsp_ok sc"
  shows "\<exists>k. backend_respond sndf fd st p sc s = Inr (True,
    s\<lparr>sk_out := sk_out s @ response_bytes p sc, sk_calls := k\<rparr>)"
proof -
  let ?n = "sc_response_data_size sc"
  obtain k1 where k1: "conn_sendCudaPktHdr sndf (Some fd) st 1 ?n s = Inr (OK,
      st\<lparr>st_num_cuda_pkts := 1, st_data_size := word_of_int ?n\<rparr>,
      s\<lparr>sk_out := sk_out s @ hdr_image 1 (word_of_int ?n), sk_calls := k1\<rparr>)"
    using send_hdr_delivers [OF assms(1,2)] by blast
  let ?s1 = "s\<lparr>sk_out := sk_out s @ hdr_image 1 (word_of_int ?n), sk_calls := k1\<rparr>"
  obtain k2 where k2: "put sndf (Some fd) (Some (packet_image p)) (int sizeof_packet) ?s1
      = Inr (1, ?s1\<lparr>sk_out := sk_out ?s1 @ packet_image p, sk_calls := k2\<rparr>)"
    using put_delivers [OF assms(1,2), of "packet_image p" ?s1] by auto
  let ?s2 = "?s1\<lparr>sk_out := sk_out ?s1 @ packet_image p, sk_calls := k2\<rparr>"
  have e: "strm_expects_response st = Inr 1"
    using strm_expects_response_single [OF assms(3,4)] assms(5) by simp
  show ?thesis
  proof (cases "0 < ?n")
    case False
    then show ?thesis using e k1 k2
      by (intro exI [of _ k2]) (simp add: backend_respond_def response_bytes_def)
  next
    case True
    then obtain b where b: "sc_pRspBuffer sc = Some b" "int (length b) = ?n"
      using assms(6) by (auto simp: rsp_ok_def)
    obtain k3 where "put sndf (Some fd) (Some b) ?n ?s2
        = Inr (1, ?s2\<lparr>sk_out := sk_out ?s2 @ b, sk_calls := k3\<rparr>)"
      using put_delivers [OF assms(1,2), of b ?s2] unfolding b(2) by blast
    moreover have "take (nat ?n) b = b" using b(2) by simp
    ultimately show ?thesis using e k1 k2 True b(1)
      by (intro exI [of _ k3]) (simp add: backend_respond_def response_bytes_def)
  qed
qed

text \<open>One call, from the request to the response.\<close>

lemma backend_serve_ok:
  assumes ok: "xfer_ok rcv" "xfer_ok sndf" "0 \<le> fd" "\<forall>n. malloc_ok n"
    and req: "sk_in s = request_bytes p d @ rest" "length d < 2 ^ 31"
    and exec: "pkt_execute srv (p\<lparr>pk_is_feedback_packet := 0, pk_vmmap := vm, pk_kmap := km\<rparr>)
      (\<lparr>sc_request_data_size = int (length d), sc_response_data_size = 0,
        sc_pReqBuffer = (if d = [] then None else Some d), sc_pRspBuffer = None\<rparr>, st)
      = Inr (p', sc', st')"
    and rsp: "rsp_ok sc'"
  shows "\<exists>k. backend_serve sndf rcv fd malloc_ok srv vm km st s = Inr (True, st',
    s\<lparr>sk_in := rest, sk_out := sk_out s @ (if method_expects_response (pk_method_id p')
        then response_bytes (p'\<lparr>pk_vmmap := 0, pk_kmap := 0\<rparr>) sc' else []), sk_calls := k\<rparr>)"
proof -
  let ?p = "p'\<lparr>pk_vmmap := 0, pk_kmap := 0\<rparr>"
  let ?strm = "\<lparr>st_batch_size = 0, st_num_cuda_pkts = 1, st_data_size = word_of_nat (length d),
      st_rpkts = ?p # replicate (MAX_REMOTE_BATCH_SIZE - 1) zero_packet\<rparr>"
  obtain k where k: "backend_receive rcv fd malloc_ok s = Inr (Some (Some
    (\<lparr>st_batch_size = 0, st_num_cuda_pkts = 1, st_data_size = word_of_nat (length d),
      st_rpkts = p # replicate (MAX_REMOTE_BATCH_SIZE - 1) zero_packet\<rparr>,
     \<lparr>sc_request_data_size = int (length d), sc_response_data_size = 0,
      sc_pReqBuffer = (if d = [] then None else Some d), sc_pRspBuffer = None\<rparr>)),
    s\<lparr>sk_in := rest, sk_calls := k\<rparr>)"
    using backend_receive_ok [OF ok(1,3) _ req(2) ok(4), of s p rest] req(1) by auto
  let ?s = "s\<lparr>sk_in := rest, sk_calls := k\<rparr>"
  have "\<exists>k'. backend_respond sndf fd ?strm ?p sc' ?s = Inr (True, ?s\<lparr>sk_out := sk_out s @
      (if method_expects_response (pk_method_id p') then response_bytes ?p sc' else []),
      sk_calls := k'\<rparr>)"
  proof (cases "method_expects_response (pk_method_id p')")
    case True
    then show ?thesis
      using backend_respond_ok [OF ok(2,3), of ?strm ?p _ sc' ?s] rsp by auto
  next
    case False
    then have "strm_expects_response ?strm = Inr 0"
      using strm_expects_response_single [of ?strm ?p] by simp
    then show ?thesis using False by (intro exI [of _ k]) (simp add: backend_respond_def)
  qed
  then show ?thesis using k exec by (auto simp: backend_serve_def Let_def)
qed

end
