(* ===== verification/Remote_Rpc.thy ===== *)
theory Remote_Rpc
  imports Backend_Loop
begin

text \<open>
  A remote call on the side of the client: \<open>l_do_cuda_rpc\<close> of remote/remote_api_wrapper.c and
  the functions of the calls that use it.
\<close>

definition MAX_BACKEND_NODES :: int where "MAX_BACKEND_NODES = 100"

text \<open>
  The first part, up to the test whether a response is expected. \<open>host\<close> is the entry
  \<open>index\<close> of \<open>BACKEND_LIST\<close> and \<open>env\<close> the answers of the system to \<open>conn_connect\<close>.
  \<open>exit\<close> is the fault \<open>ExitProc\<close>. The result \<open>None\<close> is to go on and read the response.
\<close>

definition rpc_connect :: "connection \<Rightarrow> string \<Rightarrow> int \<Rightarrow> connect_env \<Rightarrow> connection cres" where
  "rpc_connect conn host idx env = (if cn_valid conn = 0 then
     (case conn_connect (Some conn) (Some host) (if idx = MAX_BACKEND_NODES then 1 else 0) env of
        (r, Some c, _) \<Rightarrow> if r = -1 then Inl ExitProc else Inr (c\<lparr>cn_valid := 1\<rparr>)
      | (r, None, _) \<Rightarrow> Inl ExitProc)
     else Inr conn)"

definition rpc_send :: "xfer \<Rightarrow> connection \<Rightarrow> cuda_packet \<Rightarrow> byte list option \<Rightarrow> int \<Rightarrow> sock
    \<Rightarrow> (int option \<times> sock) cres" where
  "rpc_send sndf conn p reqbuf reqbuf_size s =
     (let fd = Some (cn_socket conn);
          strm = \<lparr>st_batch_size = 0, st_num_cuda_pkts = 1, st_data_size = word_of_int reqbuf_size,
                  st_rpkts = p # replicate (MAX_REMOTE_BATCH_SIZE - 1) zero_packet\<rparr> in
      bindr (conn_sendCudaPktHdr sndf fd strm 1 reqbuf_size s) (\<lambda>(r, strm, s).
      if r = ERROR then Inr (Some ERROR, s) else
      bindr (put sndf fd (Some (packet_image p)) (int sizeof_packet) s) (\<lambda>(r, s).
      if r \<noteq> 1 then Inr (Some ERROR, s) else
      bindr (if 0 < reqbuf_size then
               if reqbuf = None then Inl AssertFail else put sndf fd reqbuf reqbuf_size s
             else Inr (1, s)) (\<lambda>(r, s).
      if r \<noteq> 1 then Inr (Some ERROR, s) else
      bindr (strm_expects_response strm) (\<lambda>e.
      Inr (if e = 0 then Some OK else None, s))))))"

text \<open>The second part. \<open>rspbuf\<close> is the memory of the caller for the extra data.\<close>

definition rpc_receive :: "xfer \<Rightarrow> connection \<Rightarrow> cuda_packet \<Rightarrow> byte list option \<Rightarrow> int \<Rightarrow> sock
    \<Rightarrow> (int \<times> cuda_packet \<times> byte list option \<times> sock) cres" where
  "rpc_receive rcv conn p rspbuf rspbuf_size s =
     (let fd = Some (cn_socket conn) in
      case get rcv fd True 8 s of (r, hb, s) \<Rightarrow>
      if r \<noteq> 1 then Inr (ERROR, p, rspbuf, s) else
      (case hdr_of_bytes hb of (num, dsz) \<Rightarrow>
      if num \<noteq> 1 then Inl AssertFail else
      (case get rcv fd True (int sizeof_packet) s of (r, pb, s) \<Rightarrow>
      if r \<noteq> 1 then Inr (ERROR, p, rspbuf, s) else
      bindr (nthr (rpkts_of_bytes pb) 0) (\<lambda>p.
      if dsz = 0 then Inr (OK, p, rspbuf, s)
      else if rspbuf = None \<or> rspbuf_size = 0 \<or> rspbuf_size < sint dsz then Inl AssertFail
      else (case get rcv fd True (sint dsz) s of (r, db, s) \<Rightarrow>
        if length (the rspbuf) < length db then Inl OutOfBounds
        else Inr (if r \<noteq> 1 then ERROR else OK, p,
               Some (db @ drop (length db) (the rspbuf)), s))))))"

text \<open>\<open>peer\<close> is what the backend does between the two parts.\<close>

definition l_do_cuda_rpc :: "xfer \<Rightarrow> xfer \<Rightarrow> (sock \<Rightarrow> sock) \<Rightarrow> string \<Rightarrow> int \<Rightarrow> connect_env
    \<Rightarrow> connection \<Rightarrow> cuda_packet \<Rightarrow> byte list option \<Rightarrow> int \<Rightarrow> byte list option \<Rightarrow> int \<Rightarrow> sock
    \<Rightarrow> (int \<times> connection \<times> cuda_packet \<times> byte list option \<times> sock) cres" where
  "l_do_cuda_rpc sndf rcv peer host idx env conn p reqbuf reqbuf_size rspbuf rspbuf_size s =
     bindr (rpc_connect conn host idx env) (\<lambda>conn.
     bindr (rpc_send sndf conn p reqbuf reqbuf_size s) (\<lambda>(r, s).
     (case r of Some r \<Rightarrow> Inr (r, conn, p, rspbuf, s)
      | None \<Rightarrow> bindr (rpc_receive rcv conn p rspbuf rspbuf_size (peer s)) (\<lambda>(r, p, rspbuf, s).
          Inr (r, conn, p, rspbuf, s)))))"

section \<open>The calls\<close>

text \<open>
  A remote call as the functions below see it: the packet, the request buffer and its size, the
  response buffer and its size; the result of \<open>l_do_cuda_rpc\<close> is never looked at.
\<close>

type_synonym 'n rpc = "cuda_packet \<Rightarrow> byte list option \<Rightarrow> int \<Rightarrow> byte list option \<Rightarrow> int \<Rightarrow> 'n
  \<Rightarrow> (cuda_packet \<times> byte list option \<times> 'n) cres"

definition err_status :: "cuda_packet \<Rightarrow> int" where
  "err_status p = (if pkt_err p = cudaSuccess then OK else ERROR)"

text \<open>\<open>mem\<close> gives what the memory at an address of the client holds.\<close>

definition nvbackCudaMemcpy_rpc :: "'n rpc \<Rightarrow> (u64 \<Rightarrow> byte list option) \<Rightarrow> cuda_packet \<Rightarrow> 'n
    \<Rightarrow> (int \<times> cuda_packet \<times> byte list option \<times> 'n) cres" where
  "nvbackCudaMemcpy_rpc rpc mem p net =
     (let kind = argi (pk_arg3 p); size = sint (ucast (arg_lo (pk_arg2 p)) :: u32);
          out = (\<lambda>(p, rsp, net). Inr (err_status p, p, rsp, net)) in
      if kind = 1 then
        let p = p\<lparr>pk_method_id := method_num CUDA_MEMCPY_H2D\<rparr> in
        bindr (rpc p (mem (arg_lo (pk_arg1 p))) size None 0 net) out
      else if kind = 2 then
        let p = p\<lparr>pk_method_id := method_num CUDA_MEMCPY_D2H\<rparr> in
        bindr (rpc p None 0 (mem (arg_lo (pk_arg0 p))) size net) out
      else if kind = 3 then
        let p = p\<lparr>pk_method_id := method_num CUDA_MEMCPY_D2D,
                 pk_flags := and (and (pk_flags p) (not CUDA_Copytype)) (not CUDA_Addrshared)\<rparr> in
        bindr (rpc p None 0 None 0 net) out
      else
        let p = set_err cudaErrorInvalidMemcpyDirection p in
        Inr (err_status p, p, None, net))"

text \<open>Calls that are waited for and send no data.\<close>

definition sync_rpc :: "'n rpc \<Rightarrow> cuda_packet \<Rightarrow> 'n \<Rightarrow> (int \<times> cuda_packet \<times> 'n) cres" where
  "sync_rpc rpc p net =
     bindr (rpc p None 0 None 0 net) (\<lambda>(p, rsp, net). Inr (err_status p, p, net))"

definition nvbackCudaMalloc_rpc :: "'n rpc \<Rightarrow> cuda_packet \<Rightarrow> 'n \<Rightarrow> (int \<times> cuda_packet \<times> 'n) cres" where
  "nvbackCudaMalloc_rpc = sync_rpc"

definition nvbackCudaGetDeviceCount_rpc ::
  "'n rpc \<Rightarrow> cuda_packet \<Rightarrow> 'n \<Rightarrow> (int \<times> cuda_packet \<times> 'n) cres" where
  "nvbackCudaGetDeviceCount_rpc = sync_rpc"

definition nvbackCudaGetDevice_rpc ::
  "'n rpc \<Rightarrow> cuda_packet \<Rightarrow> 'n \<Rightarrow> (int \<times> cuda_packet \<times> 'n) cres" where
  "nvbackCudaGetDevice_rpc = sync_rpc"

definition nvbackCudaThreadSynchronize_rpc ::
  "'n rpc \<Rightarrow> cuda_packet \<Rightarrow> 'n \<Rightarrow> (int \<times> cuda_packet \<times> 'n) cres" where
  "nvbackCudaThreadSynchronize_rpc = sync_rpc"

definition nvbackCudaGetDeviceProperties_rpc :: "'n rpc \<Rightarrow> (u64 \<Rightarrow> byte list option) \<Rightarrow> cuda_packet
    \<Rightarrow> 'n \<Rightarrow> (int \<times> cuda_packet \<times> byte list option \<times> 'n) cres" where
  "nvbackCudaGetDeviceProperties_rpc rpc mem p net =
     bindr (rpc p None 0 (mem (arg_lo (pk_arg0 p))) (sint (ucast (arg_lo (pk_arg2 p)) :: u32)) net)
       (\<lambda>(p, rsp, net). Inr (err_status p, p, rsp, net))"

text \<open>Calls whose result is not looked at.\<close>

definition async_rpc :: "'n rpc \<Rightarrow> cuda_packet \<Rightarrow> 'n \<Rightarrow> (int \<times> cuda_packet \<times> 'n) cres" where
  "async_rpc rpc p net = bindr (rpc p None 0 None 0 net) (\<lambda>(p, rsp, net). Inr (OK, p, net))"

definition nvbackCudaSetDevice_rpc ::
  "'n rpc \<Rightarrow> cuda_packet \<Rightarrow> 'n \<Rightarrow> (int \<times> cuda_packet \<times> 'n) cres" where
  "nvbackCudaSetDevice_rpc = async_rpc"

definition nvbackCudaFree_rpc ::
  "'n rpc \<Rightarrow> cuda_packet \<Rightarrow> 'n \<Rightarrow> (int \<times> cuda_packet \<times> 'n) cres" where
  "nvbackCudaFree_rpc = async_rpc"

definition nvbackCudaConfigureCall_rpc ::
  "'n rpc \<Rightarrow> cuda_packet \<Rightarrow> 'n \<Rightarrow> (int \<times> cuda_packet \<times> 'n) cres" where
  "nvbackCudaConfigureCall_rpc = async_rpc"

definition nvbackCudaLaunch_rpc ::
  "'n rpc \<Rightarrow> cuda_packet \<Rightarrow> 'n \<Rightarrow> (int \<times> cuda_packet \<times> 'n) cres" where
  "nvbackCudaLaunch_rpc = async_rpc"

definition nvbackCudaThreadExit_rpc ::
  "'n rpc \<Rightarrow> cuda_packet \<Rightarrow> 'n \<Rightarrow> (int \<times> cuda_packet \<times> 'n) cres" where
  "nvbackCudaThreadExit_rpc = async_rpc"

definition nvback_cudaUnregisterFatBinary_rpc ::
  "'n rpc \<Rightarrow> cuda_packet \<Rightarrow> 'n \<Rightarrow> (int \<times> cuda_packet \<times> 'n) cres" where
  "nvback_cudaUnregisterFatBinary_rpc = async_rpc"

text \<open>\<open>cudaSetupArgument\<close> sends its argument.\<close>

definition nvbackCudaSetupArgument_rpc :: "'n rpc \<Rightarrow> (u64 \<Rightarrow> byte list option) \<Rightarrow> cuda_packet \<Rightarrow> 'n
    \<Rightarrow> (int \<times> cuda_packet \<times> 'n) cres" where
  "nvbackCudaSetupArgument_rpc rpc mem p net =
     bindr (rpc p (mem (arg_lo (pk_arg0 p))) (sint (ucast (arg_lo (pk_arg1 p)) :: u32)) None 0 net)
       (\<lambda>(p, rsp, net). Inr (OK, p, net))"

text \<open>\<open>__cudaRegisterFunction\<close> and \<open>__cudaRegisterVar\<close>; for the fat binary the handle is tested.\<close>

definition nvback_cudaRegister_rpc :: "'n rpc \<Rightarrow> (u64 \<Rightarrow> byte list option) \<Rightarrow> cuda_packet \<Rightarrow> 'n
    \<Rightarrow> (int \<times> cuda_packet \<times> 'n) cres" where
  "nvback_cudaRegister_rpc rpc mem p net =
     bindr (rpc p (mem (arg_lo (pk_arg0 p))) (sint (ucast (arg_lo (pk_arg1 p)) :: u32)) None 0 net)
       (\<lambda>(p, rsp, net). Inr (err_status p, p, net))"

definition nvback_cudaRegisterFatBinary_rpc :: "'n rpc \<Rightarrow> (u64 \<Rightarrow> byte list option) \<Rightarrow> cuda_packet
    \<Rightarrow> 'n \<Rightarrow> (int \<times> cuda_packet \<times> 'n) cres" where
  "nvback_cudaRegisterFatBinary_rpc rpc mem p net =
     bindr (rpc p (mem (arg_lo (pk_arg0 p))) (sint (ucast (arg_lo (pk_arg1 p)) :: u32)) None 0 net)
       (\<lambda>(p, rsp, net). Inr (if pk_ret_ex_val p \<noteq> 0 then OK else ERROR, p, net))"

text \<open>The direction is the \<open>enum\<close> in \<open>args[3]\<close>.\<close>

definition nvbackCudaMemcpyToSymbol_rpc :: "'n rpc \<Rightarrow> (u64 \<Rightarrow> byte list option) \<Rightarrow> cuda_packet \<Rightarrow> 'n
    \<Rightarrow> (int \<times> cuda_packet \<times> 'n) cres" where
  "nvbackCudaMemcpyToSymbol_rpc rpc mem p net =
     (let kind = ucast (arg_lo (pk_arg3 p)) :: u32;
          out = (\<lambda>(p, rsp, net). Inr (err_status p, p, net)) in
      if kind = 1 then
        bindr (rpc p (mem (arg_lo (pk_arg1 p))) (sint (ucast (arg_lo (pk_arg2 p)) :: u32)) None 0 net) out
      else if kind = 3 then bindr (rpc p None 0 None 0 net) out
      else Inr (ERROR, p, net))"

definition nvbackCudaMemcpyFromSymbol_rpc :: "'n rpc \<Rightarrow> (u64 \<Rightarrow> byte list option) \<Rightarrow> cuda_packet \<Rightarrow> 'n
    \<Rightarrow> (int \<times> cuda_packet \<times> byte list option \<times> 'n) cres" where
  "nvbackCudaMemcpyFromSymbol_rpc rpc mem p net =
     (let kind = ucast (arg_lo (pk_arg3 p)) :: u32;
          out = (\<lambda>(p, rsp, net). Inr (err_status p, p, rsp, net)) in
      if kind = 3 then bindr (rpc p None 0 None 0 net) out
      else if kind = 2 then
        bindr (rpc p None 0 (mem (arg_lo (pk_arg1 p))) (sint (ucast (arg_lo (pk_arg2 p)) :: u32)) net) out
      else Inr (ERROR, p, None, net))"

section \<open>From the call to the handler and back\<close>

lemma rpc_send_ok:
  assumes ok: "xfer_ok sndf" "0 \<le> cn_socket conn"
    and req: "if d = [] then n = 0 else reqbuf = Some d \<and> n = int (length d)"
    and size: "length d < 2 ^ 31"
  shows "\<exists>k. rpc_send sndf conn p reqbuf n s = Inr
    (if method_expects_response (pk_method_id p) then None else Some OK,
     s\<lparr>sk_out := sk_out s @ request_bytes p d, sk_calls := k\<rparr>)"
proof -
  let ?fd = "cn_socket conn"
  have n: "n = int (length d)" using req by (auto split: if_splits)
  let ?strm = "\<lparr>st_batch_size = 0, st_num_cuda_pkts = 1, st_data_size = word_of_int n,
    st_rpkts = p # replicate (MAX_REMOTE_BATCH_SIZE - 1) zero_packet\<rparr>"
  obtain k1 where k1: "conn_sendCudaPktHdr sndf (Some ?fd) ?strm 1 n s = Inr (OK,
      ?strm\<lparr>st_num_cuda_pkts := 1, st_data_size := word_of_int n\<rparr>,
      s\<lparr>sk_out := sk_out s @ hdr_image 1 (word_of_int n), sk_calls := k1\<rparr>)"
    using send_hdr_delivers [OF ok, of ?strm 1 n s] by blast
  let ?s1 = "s\<lparr>sk_out := sk_out s @ hdr_image 1 (word_of_int n), sk_calls := k1\<rparr>"
  obtain k2 where k2: "put sndf (Some ?fd) (Some (packet_image p)) (int sizeof_packet) ?s1
      = Inr (1, ?s1\<lparr>sk_out := sk_out ?s1 @ packet_image p, sk_calls := k2\<rparr>)"
    using put_delivers [OF ok, of "packet_image p" ?s1] by auto
  let ?s2 = "?s1\<lparr>sk_out := sk_out ?s1 @ packet_image p, sk_calls := k2\<rparr>"
  have e: "strm_expects_response ?strm = Inr (if method_expects_response (pk_method_id p) then 1 else 0)"
    by (rule strm_expects_response_single) simp_all
  have h: "request_bytes p d = hdr_image 1 (word_of_int n) @ packet_image p @ d"
    by (simp add: request_bytes_def n)
  show ?thesis
  proof (cases "d = []")
    case True
    then show ?thesis using k1 k2 e n h
      by (intro exI [of _ k2]) (simp add: rpc_send_def Let_def)
  next
    case False
    then have r: "reqbuf = Some d" "0 < n" using req n by auto
    obtain k3 where "put sndf (Some ?fd) (Some d) n ?s2
        = Inr (1, ?s2\<lparr>sk_out := sk_out ?s2 @ d, sk_calls := k3\<rparr>)"
      using put_delivers [OF ok, of d ?s2] unfolding n by blast
    then show ?thesis using k1 k2 e r h
      by (intro exI [of _ k3]) (simp add: rpc_send_def Let_def)
  qed
qed

lemma rpc_receive_ok:
  assumes ok: "xfer_ok rcv" "0 \<le> cn_socket conn" and rsp: "rsp_ok sc"
    and inp: "sk_in s = response_bytes p' sc"
    and size: "0 \<le> sc_response_data_size sc" "sc_response_data_size sc < 2 ^ 31"
    and room: "0 < sc_response_data_size sc \<longrightarrow> (\<exists>b. rspbuf = Some b
      \<and> sc_response_data_size sc \<le> int (length b) \<and> sc_response_data_size sc \<le> n)"
  shows "\<exists>k. rpc_receive rcv conn p rspbuf n s = Inr (OK, p',
    if 0 < sc_response_data_size sc
    then Some (the (sc_pRspBuffer sc) @ drop (length (the (sc_pRspBuffer sc))) (the rspbuf))
    else rspbuf, s\<lparr>sk_in := [], sk_calls := k\<rparr>)"
proof -
  let ?z = "sc_response_data_size sc" let ?fd = "cn_socket conn"
  let ?d = "if 0 < ?z then the (sc_pRspBuffer sc) else []"
  let ?w = "word_of_int ?z :: u32"
  have z: "?z = int (length ?d)" using rsp size(1) by (auto simp: rsp_ok_def)
  then have w: "?w = word_of_nat (length ?d)" by (metis of_int_of_nat_eq)
  have inp': "sk_in s = hdr_image 1 ?w @ packet_image p' @ ?d"
    using inp rsp by (auto simp: response_bytes_def rsp_ok_def)
  obtain k1 where k1: "get rcv (Some ?fd) True 8 s = (1, hdr_image 1 ?w,
      s\<lparr>sk_in := packet_image p' @ ?d, sk_calls := k1\<rparr>)"
    using get_receives [OF ok, of s "hdr_image 1 ?w" "packet_image p' @ ?d" 8] inp' by auto
  let ?s1 = "s\<lparr>sk_in := packet_image p' @ ?d, sk_calls := k1\<rparr>"
  obtain k2 where k2: "get rcv (Some ?fd) True (int sizeof_packet) ?s1
      = (1, packet_image p', ?s1\<lparr>sk_in := ?d, sk_calls := k2\<rparr>)"
    using get_receives [OF ok, of ?s1 "packet_image p'" ?d "int sizeof_packet"] by auto
  let ?s2 = "?s1\<lparr>sk_in := ?d, sk_calls := k2\<rparr>"
  have sz: "sint ?w = ?z" using sint_small_nat [of "length ?d"] z w size(2) by simp
  show ?thesis
  proof (cases "0 < ?z")
    case False
    then have "?w = 0" using size(1) by simp
    then show ?thesis using k1 k2 False
      by (intro exI [of _ k2]) (simp add: rpc_receive_def rpkts_of_image)
  next
    case True
    then have nz: "?w \<noteq> 0" using sz by auto
    obtain b where b: "rspbuf = Some b" "?z \<le> int (length b)" "?z \<le> n" using room True by blast
    obtain k3 where "get rcv (Some ?fd) True ?z ?s2 = (1, ?d, ?s2\<lparr>sk_in := [], sk_calls := k3\<rparr>)"
      using get_receives [OF ok, of ?s2 ?d "[]" ?z] z by auto
    moreover have "length (the (sc_pRspBuffer sc)) \<le> length b" using z b(2) True by simp
    ultimately show ?thesis using k1 k2 True nz sz b
      by (intro exI [of _ k3]) (simp add: rpc_receive_def rpkts_of_image)
  qed
qed

text \<open>The backend as the peer: it serves what the client has sent since \<open>s0\<close>.\<close>

definition served_by :: "(sock \<Rightarrow> (bool \<times> 's \<times> sock) cres) \<Rightarrow> sock \<Rightarrow> sock \<Rightarrow> sock \<Rightarrow> sock" where
  "served_by serve t s0 s1 =
     (case serve (t\<lparr>sk_in := drop (length (sk_out s0)) (sk_out s1)\<rparr>) of
        Inl f \<Rightarrow> s1
      | Inr (go, st, t') \<Rightarrow> s1\<lparr>sk_in := drop (length (sk_out t)) (sk_out t')\<rparr>)"

end
