(* ===== verification/Dev_Balance.thy ===== *)
theory Dev_Balance
  imports Gvirt_Base "HOL-Library.Signed_Division"
begin

text \<open>
  The choice of a device for an application, remote/remote_api_wrapper.c: round robin, which the
  build uses, and the choices by load. The state is that of the global variables; the mutex
  makes each function one step.
\<close>

record dev_bal =
  db_devices :: int
  db_threads :: "int list"
  db_rr :: int

definition MAX_BACKEND_DEVICES :: nat where "MAX_BACKEND_DEVICES = 100"

definition dev_bal0 :: dev_bal where
  "dev_bal0 = \<lparr>db_devices = 0, db_threads = replicate MAX_BACKEND_DEVICES 0, db_rr = 0\<rparr>"

definition get_gpu_index :: "int \<Rightarrow> int \<Rightarrow> int" where
  "get_gpu_index node devid = 2 * node + devid"

definition get_next_device_RR :: "dev_bal \<Rightarrow> (int \<times> dev_bal) cres" where
  "get_next_device_RR b = (if db_devices b = 0 then Inl DivZero
     else Inr (db_rr b, b\<lparr>db_rr := (db_rr b + 1) smod db_devices b\<rparr>))"

text \<open>The loop over the devices from \<open>i\<close> on with \<open>k\<close> left; \<open>cmp\<close> compares their loads.\<close>

primrec least_loaded :: "(nat \<Rightarrow> nat \<Rightarrow> bool cres) \<Rightarrow> nat \<Rightarrow> nat \<Rightarrow> nat \<Rightarrow> nat cres" where
  "least_loaded cmp 0 i mn = Inr mn"
| "least_loaded cmp (Suc k) i mn = bindr (cmp i mn) (\<lambda>b.
     least_loaded cmp k (i + 1) (if b then i else mn))"

definition threads_less :: "dev_bal \<Rightarrow> nat \<Rightarrow> nat \<Rightarrow> bool cres" where
  "threads_less b i j = bindr (nthr (db_threads b) i) (\<lambda>x. bindr (nthr (db_threads b) j) (\<lambda>y.
     Inr (x < y)))"

definition take_device :: "nat \<Rightarrow> dev_bal \<Rightarrow> (int \<times> dev_bal) cres" where
  "take_device mn b = bindr (nthr (db_threads b) mn) (\<lambda>c.
     Inr (int mn, b\<lparr>db_threads := (db_threads b)[mn := c + 1]\<rparr>))"

definition get_next_device :: "dev_bal \<Rightarrow> (int \<times> dev_bal) cres" where
  "get_next_device b = bindr (least_loaded (threads_less b) (nat (db_devices b)) 0 0) (\<lambda>mn.
     take_device mn b)"

text \<open>\<open>gpu_weight\<close>: 1, 3, 1 and 1.5, here doubled. The products are exact in single
  precision for any realistic number of threads.\<close>

definition gpu_weight2 :: "int list" where "gpu_weight2 = [2, 6, 2, 3]"

definition weighted_less :: "dev_bal \<Rightarrow> nat \<Rightarrow> nat \<Rightarrow> bool cres" where
  "weighted_less b i j = bindr (nthr (db_threads b) i) (\<lambda>x. bindr (nthr gpu_weight2 i) (\<lambda>wx.
     bindr (nthr (db_threads b) j) (\<lambda>y. bindr (nthr gpu_weight2 j) (\<lambda>wy.
     Inr (x * wx < y * wy)))))"

definition get_next_weighted_device :: "dev_bal \<Rightarrow> (int \<times> dev_bal) cres" where
  "get_next_weighted_device b =
     bindr (least_loaded (weighted_less b) (nat (db_devices b)) 0 0) (\<lambda>mn. take_device mn b)"

text \<open>The loop of \<open>get_next_device_local_pref\<close>: it starts at the local host and wraps.\<close>

primrec local_loop :: "dev_bal \<Rightarrow> nat \<Rightarrow> int \<Rightarrow> int \<Rightarrow> int cres" where
  "local_loop b 0 i mn = Inr mn"
| "local_loop b (Suc k) i mn = bindr (nthri (db_threads b) i) (\<lambda>x. bindr (nthri (db_threads b) mn) (\<lambda>y.
     local_loop b k (if i < db_devices b - 1 then i + 1 else 0) (if x < y then i else mn)))"

definition get_next_device_local_pref :: "dev_bal \<Rightarrow> int \<Rightarrow> (int \<times> dev_bal) cres" where
  "get_next_device_local_pref b localhost_id =
     bindr (local_loop b (nat (db_devices b)) localhost_id localhost_id) (\<lambda>mn.
     if mn < 0 then Inl OutOfBounds else take_device (nat mn) b)"

text \<open>\<open>DEVICE_ASSIGNED\<close> of the thread is NULL before \<open>cudaGetDevice\<close> was served.\<close>

definition dec_thread_count_per_device :: "int option \<Rightarrow> dev_bal \<Rightarrow> dev_bal cres" where
  "dec_thread_count_per_device assigned b = (case assigned of None \<Rightarrow> Inl NullDeref
     | Some d \<Rightarrow> bindr (nthri (db_threads b) d) (\<lambda>c.
         Inr (b\<lparr>db_threads := (db_threads b)[nat d := c - 1]\<rparr>)))"

section \<open>Round robin\<close>

text \<open>The answers of \<open>k\<close> calls.\<close>

primrec rr_calls :: "nat \<Rightarrow> dev_bal \<Rightarrow> int list cres" where
  "rr_calls 0 b = Inr []"
| "rr_calls (Suc k) b = bindr (get_next_device_RR b) (\<lambda>(d, b').
     bindr (rr_calls k b') (\<lambda>ds. Inr (d # ds)))"

lemma rr_calls_eq:
  assumes "0 < n" and "0 \<le> db_rr b" and "db_rr b < n" and "db_devices b = n"
  shows "rr_calls k b = Inr (map (\<lambda>i. (db_rr b + int i) mod n) [0..<k])"
  using assms
proof (induction k arbitrary: b)
  case (Suc k)
  let ?b = "b\<lparr>db_rr := (db_rr b + 1) smod n\<rparr>"
  have m: "(db_rr b + 1) smod n = (db_rr b + 1) mod n"
    using Suc.prems by (intro smod_mod_positive) simp_all
  have step: "get_next_device_RR b = Inr (db_rr b, ?b)"
    using Suc.prems by (simp add: get_next_device_RR_def)
  have "rr_calls k ?b = Inr (map (\<lambda>i. (db_rr ?b + int i) mod n) [0..<k])"
    by (rule Suc.IH) (use Suc.prems m in simp_all)
  then have "rr_calls (Suc k) b = Inr (db_rr b # map (\<lambda>i. (db_rr b + 1 + int i) mod n) [0..<k])"
    using step m by (simp add: mod_add_left_eq)
  also have "db_rr b # map (\<lambda>i. (db_rr b + 1 + int i) mod n) [0..<k]
      = map (\<lambda>i. (db_rr b + int i) mod n) [0..<Suc k]"
    using Suc.prems unfolding upt_conv_Cons [OF zero_less_Suc] map_Suc_upt [symmetric]
    by (simp add: algebra_simps comp_def)
  finally show ?case .
qed simp

section \<open>Least load\<close>

lemma least_loaded_threads:
  "\<lbrakk>i + k \<le> length (db_threads b); mn < i \<or> i = 0 \<and> mn = 0;
    \<forall>j < i. db_threads b ! mn \<le> db_threads b ! j; mn < length (db_threads b)\<rbrakk> \<Longrightarrow>
   \<exists>m. least_loaded (threads_less b) k i mn = Inr m \<and> (m < i + k \<or> m = mn)
     \<and> m < length (db_threads b) \<and> (\<forall>j < i + k. db_threads b ! m \<le> db_threads b ! j)"
proof (induction k arbitrary: i mn)
  case 0
  then show ?case by simp
next
  case (Suc k)
  let ?mn = "if db_threads b ! i < db_threads b ! mn then i else mn"
  have e: "least_loaded (threads_less b) (Suc k) i mn = least_loaded (threads_less b) k (i + 1) ?mn"
    using Suc.prems by (simp add: threads_less_def nthr_def)
  have "\<exists>m. least_loaded (threads_less b) k (i + 1) ?mn = Inr m \<and> (m < i + 1 + k \<or> m = ?mn)
     \<and> m < length (db_threads b) \<and> (\<forall>j < i + 1 + k. db_threads b ! m \<le> db_threads b ! j)"
    using Suc.prems by (intro Suc.IH) (auto simp: less_Suc_eq)
  then show ?case unfolding e using Suc.prems(2) by (auto split: if_splits)
qed

end
