(* ===== verification/Remote_Srv.thy ===== *)
theory Remote_Srv
  imports Backend_Loop Vmem Fat_Free Dev_Balance
begin

text \<open>
  The handlers of the backend, the \<open>_srv\<close> functions of remote/remote_api_wrapper.c, as they
  are built: with the pager, without a scheduler and without the feedback of the second level.
  A handler gets the packet, the buffers of the connection and the state of the process, and
  gives its status with the three of them updated.
\<close>

section \<open>The state of a backend process\<close>

text \<open>
  \<open>bs_table\<close> is what the pointer array at the address in the packet leads to, \<open>bs_vmap_index\<close>
  the counter in shared memory, \<open>bs_local\<close> and \<open>bs_localindex\<close> the process's own list of
  the objects it created, \<open>bs_fatc\<close> the array of the registered fat binaries, \<open>bs_dev\<close> and
  \<open>bs_assigned\<close> the choice of devices.
\<close>

record 'g backend_st =
  bs_gpu :: 'g
  bs_table :: "mem_map list"
  bs_vmap_index :: int
  bs_local :: "int list"
  bs_localindex :: nat
  bs_kmap :: kmap
  bs_fatc :: "fatcubin_info list option"
  bs_isLocal :: int
  bs_dev :: dev_bal
  bs_assigned :: "int option"

text \<open>
  What the handlers call and the code does not define: the CUDA runtime, the memory allocator
  and the semaphores. \<open>se_small\<close> says whether the small allocations of the registration
  succeed; \<open>se_req_addr\<close> and \<open>se_rsp_addr\<close> are the addresses of the two buffers. A variable
  on the device is named by its place in the registry.
\<close>

record 'g srv_env =
  se_rt :: "'g cuda_rt"
  se_malloc :: "nat \<Rightarrow> byte list option"
  se_small :: bool
  se_semget :: int
  se_semget_launch :: int
  se_req_addr :: u64
  se_rsp_addr :: u64
  se_fat_addr :: u64
  se_prop_size :: nat
  se_get_count :: "'g \<Rightarrow> int \<times> u32"
  se_get_props :: "int \<Rightarrow> byte list \<Rightarrow> 'g \<Rightarrow> byte list \<times> u32"
  se_set_device :: "int \<Rightarrow> 'g \<Rightarrow> u32 \<times> 'g"
  se_sync :: "'g \<Rightarrow> u32 \<times> 'g"
  se_exit :: "'g \<Rightarrow> u32 \<times> 'g"
  se_launch :: "cuda_launch \<Rightarrow> 'g \<Rightarrow> 'g"
  se_to_symbol :: "nat \<times> nat \<Rightarrow> byte list option \<Rightarrow> u64 \<Rightarrow> u64 \<Rightarrow> int \<Rightarrow> 'g \<Rightarrow> u32 \<times> 'g"
  se_from_symbol :: "nat \<times> nat \<Rightarrow> byte list option \<Rightarrow> u64 \<Rightarrow> u64 \<Rightarrow> int \<Rightarrow> 'g
    \<Rightarrow> byte list option \<times> u32"
  se_reg_fat :: "cudaFatCudaBinary \<Rightarrow> 'g \<Rightarrow> u64 \<times> 'g"
  se_reg_fat2 :: "cudaFatCudaBinary2 \<Rightarrow> 'g \<Rightarrow> u64 \<times> 'g"
  se_reg_fun :: "reg_func_args \<Rightarrow> 'g \<Rightarrow> 'g"
  se_reg_var :: "reg_var_args \<Rightarrow> 'g \<Rightarrow> 'g"
  se_unreg_fat :: "u64 \<Rightarrow> 'g \<Rightarrow> 'g"

type_synonym 'g handled = "(int \<times> cuda_packet \<times> srv_conn \<times> 'g backend_st) cres"

text \<open>\<open>argi\<close> as an \<open>int\<close>.\<close>

definition argn :: "args \<Rightarrow> int" where
  "argn a = sint (ucast (arg_lo a) :: u32)"

text \<open>\<open>return (packet->ret_ex_val.err == cudaSuccess) ? OK : ERROR\<close>.\<close>

definition reply :: "cuda_packet \<Rightarrow> srv_conn \<Rightarrow> 'g backend_st \<Rightarrow> 'g handled" where
  "reply p sc st = Inr (if pkt_err p = cudaSuccess then OK else ERROR, p, sc, st)"

text \<open>\<open>pRspBuffer = malloc(response_data_size)\<close>: an \<open>int\<close> made a \<open>size_t\<close>.\<close>

definition rsp_malloc :: "'g srv_env \<Rightarrow> int \<Rightarrow> srv_conn \<Rightarrow> srv_conn" where
  "rsp_malloc env n sc = sc\<lparr>sc_response_data_size := n,
     sc_pRspBuffer := se_malloc env (unat (word_of_int n :: u64))\<rparr>"

section \<open>Devices\<close>

definition nvbackCudaGetDeviceCount_srv :: "'g srv_env \<Rightarrow> cuda_packet \<Rightarrow> srv_conn
    \<Rightarrow> 'g backend_st \<Rightarrow> 'g handled" where
  "nvbackCudaGetDeviceCount_srv env p sc st = (case se_get_count env (bs_gpu st) of (n, err) \<Rightarrow>
     Inr (OK, set_err err p\<lparr>pk_arg0 := set_argi n (pk_arg0 p)\<rparr>, sc, st))"

definition nvbackCudaGetDeviceProperties_srv :: "'g srv_env \<Rightarrow> cuda_packet \<Rightarrow> srv_conn
    \<Rightarrow> 'g backend_st \<Rightarrow> 'g handled" where
  "nvbackCudaGetDeviceProperties_srv env p sc st =
     (let sc = rsp_malloc env (int (se_prop_size env)) sc in
      case sc_pRspBuffer sc of None \<Rightarrow> Inr (ERROR, p, sc, st)
      | Some b \<Rightarrow> (case se_get_props env (argn (pk_arg1 p)) b (bs_gpu st) of (b', err) \<Rightarrow>
          reply (set_err err p) (sc\<lparr>sc_pRspBuffer := Some b'\<rparr>) st))"

text \<open>The device is chosen by round robin over the number of devices the client sent.\<close>

definition nvbackCudaGetDevice_srv :: "'g srv_env \<Rightarrow> cuda_packet \<Rightarrow> srv_conn
    \<Rightarrow> 'g backend_st \<Rightarrow> 'g handled" where
  "nvbackCudaGetDevice_srv env p sc st =
     (let p = set_err 0 p;
          b = bs_dev st\<lparr>db_devices := argn (pk_arg0 p)\<rparr> in
      bindr (get_next_device_RR b) (\<lambda>(d, b').
      if bs_assigned st = None \<and> \<not> se_small env then Inl NullDeref
      else reply (p\<lparr>pk_arg0 := set_argi d (pk_arg0 p)\<rparr>) sc
        (st\<lparr>bs_dev := b', bs_assigned := Some d\<rparr>)))"

definition nvbackCudaSetDevice_srv :: "'g srv_env \<Rightarrow> cuda_packet \<Rightarrow> srv_conn
    \<Rightarrow> 'g backend_st \<Rightarrow> 'g handled" where
  "nvbackCudaSetDevice_srv env p sc st =
     (case se_set_device env (argn (pk_arg0 p)) (bs_gpu st) of (err, g) \<Rightarrow>
        reply (set_err err p) sc (st\<lparr>bs_gpu := g, bs_isLocal := argn (pk_arg1 p)\<rparr>))"

definition nvbackCudaThreadSynchronize_srv :: "'g srv_env \<Rightarrow> cuda_packet \<Rightarrow> srv_conn
    \<Rightarrow> 'g backend_st \<Rightarrow> 'g handled" where
  "nvbackCudaThreadSynchronize_srv env p sc st = (case se_sync env (bs_gpu st) of (err, g) \<Rightarrow>
     reply (set_err err p) sc (st\<lparr>bs_gpu := g\<rparr>))"

definition nvbackCudaThreadExit_srv :: "'g srv_env \<Rightarrow> cuda_packet \<Rightarrow> srv_conn
    \<Rightarrow> 'g backend_st \<Rightarrow> 'g handled" where
  "nvbackCudaThreadExit_srv env p sc st = (case se_exit env (bs_gpu st) of (err, g) \<Rightarrow>
     reply (set_err err p) sc (st\<lparr>bs_gpu := g\<rparr>))"

section \<open>Memory\<close>

definition local_at :: "'g backend_st \<Rightarrow> int \<Rightarrow> int cres" where
  "local_at st i = nthri (bs_local st) i"

definition local_set :: "'g backend_st \<Rightarrow> nat \<Rightarrow> int \<Rightarrow> 'g backend_st cres" where
  "local_set st i x = bindr (updr (bs_local st) i x) (\<lambda>l. Inr (st\<lparr>bs_local := l\<rparr>))"

definition nvbackCudaMalloc_srv :: "'g srv_env \<Rightarrow> cuda_packet \<Rightarrow> srv_conn
    \<Rightarrow> 'g backend_st \<Rightarrow> 'g handled" where
  "nvbackCudaMalloc_srv env p sc st =
     (if se_semget env = -1 then Inr (-1, p, sc, st) else
      let myindex = bs_vmap_index st; st = st\<lparr>bs_vmap_index := myindex + 1\<rparr> in
      bindr (mem_map_creat (se_rt env) (se_malloc env) (bs_table st) (arg_lo (pk_arg0 p))
          (unat (arg_lo (pk_arg1 p))) myindex (bs_gpu st)) (\<lambda>(r, devptr, t, g).
      bindr (local_set (st\<lparr>bs_table := t, bs_gpu := g\<rparr>) (bs_localindex st) myindex) (\<lambda>st.
      reply (set_err cudaSuccess (p\<lparr>pk_arg0 := set_argp devptr (pk_arg0 p)\<rparr>)) sc
        (st\<lparr>bs_localindex := bs_localindex st + 1\<rparr>))))"

definition find_local :: "'g backend_st \<Rightarrow> u64 \<Rightarrow> int cres" where
  "find_local st devptr =
     mem_map_find_entry (bs_table st) (bs_local st) (bs_localindex st) devptr"

definition nvbackCudaFree_srv :: "'g srv_env \<Rightarrow> cuda_packet \<Rightarrow> srv_conn
    \<Rightarrow> 'g backend_st \<Rightarrow> 'g handled" where
  "nvbackCudaFree_srv env p sc st =
     bindr (find_local st (arg_lo (pk_arg0 p))) (\<lambda>id.
     if 0 < id then
       bindr (local_at st id) (\<lambda>x.
       bindr (mem_map_delete (se_rt env) (bs_table st) x (bs_gpu st)) (\<lambda>(t, g).
       bindr (local_set (st\<lparr>bs_table := t, bs_gpu := g\<rparr>) (nat id) (-1)) (\<lambda>st.
       reply (set_err cudaSuccess p) sc st)))
     else reply p sc st)"

text \<open>A copy. In the direction device to device \<open>id\<close> is never set.\<close>

definition vmem_copy :: "'g srv_env \<Rightarrow> cuda_packet \<Rightarrow> srv_conn \<Rightarrow> u64 \<Rightarrow> 'g backend_st
    \<Rightarrow> 'g handled" where
  "vmem_copy env p sc devptr st =
     bindr (find_local st devptr) (\<lambda>id.
     bindr (local_at st id) (\<lambda>x.
     bindr (mem_map_memcpy (se_rt env) (bs_table st) x
         (case sc_pReqBuffer sc of None \<Rightarrow> [] | Some b \<Rightarrow> b) (argn (pk_arg2 p))
         (pk_method_id p) (bs_gpu st)) (\<lambda>(out, t, g).
     let sc = (case out of None \<Rightarrow> sc
       | Some o' \<Rightarrow> sc\<lparr>sc_pRspBuffer := map_option (\<lambda>b. o' @ drop (length o') b) (sc_pRspBuffer sc)\<rparr>) in
     reply (set_err cudaSuccess p) sc (st\<lparr>bs_table := t, bs_gpu := g\<rparr>))))"

definition nvbackCudaMemcpy_srv :: "'g srv_env \<Rightarrow> cuda_packet \<Rightarrow> srv_conn
    \<Rightarrow> 'g backend_st \<Rightarrow> 'g handled" where
  "nvbackCudaMemcpy_srv env p sc st =
     (if pk_method_id p = method_num CUDA_MEMCPY_H2H then Inr (ERROR, p, sc, st)
      else if pk_method_id p = method_num CUDA_MEMCPY_H2D then
        if sc_request_data_size sc \<noteq> argi (pk_arg2 p) then Inl AssertFail
        else vmem_copy env (p\<lparr>pk_arg1 := set_argp
            (if sc_pReqBuffer sc = None then 0 else se_req_addr env) (pk_arg1 p)\<rparr>)
          sc (arg_lo (pk_arg0 p)) st
      else if pk_method_id p = method_num CUDA_MEMCPY_D2H then
        if sc_pRspBuffer sc \<noteq> None then Inl AssertFail
        else let sc = rsp_malloc env (argn (pk_arg2 p)) sc in
          if sc_pRspBuffer sc = None then Inr (ERROR, p, sc, st)
          else vmem_copy env (p\<lparr>pk_arg0 := set_argp (se_rsp_addr env) (pk_arg0 p)\<rparr>) sc
            (arg_lo (pk_arg1 p)) st
      else Inl Uninit)"

section \<open>Kernels\<close>

definition nvbackCudaSetupArgument_srv :: "'g srv_env \<Rightarrow> cuda_packet \<Rightarrow> srv_conn
    \<Rightarrow> 'g backend_st \<Rightarrow> 'g handled" where
  "nvbackCudaSetupArgument_srv env p sc st = (case sc_pReqBuffer sc of None \<Rightarrow> Inl NullDeref
     | Some b \<Rightarrow> if length b < 8 then Inl OutOfBounds else
         bindr (find_local st (dec64 (take 8 b))) (\<lambda>id.
         bindr (local_at st id) (\<lambda>x.
         bindr (kmap_add_arg (bs_kmap st) b (arg_lo (pk_arg1 p)) (arg_lo (pk_arg2 p)) x) (\<lambda>km.
         reply (set_err cudaSuccess p) sc (st\<lparr>bs_kmap := km\<rparr>)))))"

definition nvbackCudaConfigureCall_srv :: "'g srv_env \<Rightarrow> cuda_packet \<Rightarrow> srv_conn
    \<Rightarrow> 'g backend_st \<Rightarrow> 'g handled" where
  "nvbackCudaConfigureCall_srv env p sc st =
     bindr (kmap_add_config (bs_kmap st) (arg_dim (pk_arg0 p)) (arg_dim (pk_arg1 p))
         (arg_lo (pk_arg2 p)) (arg_lo (pk_arg3 p))) (\<lambda>km.
     reply (set_err cudaSuccess p) sc (st\<lparr>bs_kmap := km\<rparr>))"

text \<open>\<open>for (j = 0; j < p->num_reg_fns; j++)\<close> from \<open>j\<close>, with \<open>k\<close> iterations left.\<close>

primrec scan_fns :: "reg_func_args option list \<Rightarrow> u64 \<Rightarrow> nat \<Rightarrow> nat \<Rightarrow> reg_func_args option cres" where
  "scan_fns fns fun 0 j = Inr None"
| "scan_fns fns fun (Suc k) j = bindr (nthr fns j) (\<lambda>f.
     case f of Some a \<Rightarrow> if fa_hostFEaddr a = fun then Inr (Some a) else scan_fns fns fun k (j + 1)
     | None \<Rightarrow> scan_fns fns fun k (j + 1))"

primrec find_fn :: "fatcubin_info list \<Rightarrow> u64 \<Rightarrow> reg_func_args option cres" where
  "find_fn [] fun = Inr None"
| "find_fn (c # cs) fun = bindr (scan_fns (fi_reg_fns c) fun (nat (fi_num_reg_fns c)) 0) (\<lambda>r.
     case r of None \<Rightarrow> find_fn cs fun | Some a \<Rightarrow> Inr (Some a))"

text \<open>
  The launch of a registered function. \<open>len\<close> is a pointer the paging test cannot set, so
  \<open>*len\<close> reads an uninitialised variable.
\<close>

definition launch_registered :: "'g srv_env \<Rightarrow> reg_func_args \<Rightarrow> cuda_packet \<Rightarrow> srv_conn
    \<Rightarrow> 'g backend_st \<Rightarrow> 'g handled" where
  "launch_registered env a p sc st =
     bindr (kmap_add_kernel (bs_kmap st) (fa_hostFun a)) (\<lambda>(km, kmapid).
     bindr (gvirt_is_paging_required km kmapid (bs_table st)) (\<lambda>status.
     if status \<noteq> 0 then Inl Uninit
     else (case gvirt_cuda_launch_index km kmapid (bs_table st) of None \<Rightarrow> Inl Hangs
       | Some r \<Rightarrow> bindr r (\<lambda>(t, l). reply (set_err cudaSuccess p) sc
           (st\<lparr>bs_kmap := km, bs_table := t, bs_gpu := se_launch env l (bs_gpu st)\<rparr>)))))"

text \<open>driver_types.h.\<close>

definition cudaErrorLaunchFailure :: u32 where "cudaErrorLaunchFailure = 4"

definition nvbackCudaLaunch_srv :: "'g srv_env \<Rightarrow> cuda_packet \<Rightarrow> srv_conn
    \<Rightarrow> 'g backend_st \<Rightarrow> 'g handled" where
  "nvbackCudaLaunch_srv env p sc st =
     (let p = set_err cudaErrorLaunchFailure p in
      if se_semget_launch env = -1 then Inr (-1, p, sc, st)
      else (case bs_fatc st of None \<Rightarrow> Inl NullDeref
        | Some cs \<Rightarrow> bindr (find_fn cs (arg_lo (pk_arg0 p))) (\<lambda>r.
            (case r of None \<Rightarrow> reply p sc st | Some a \<Rightarrow> launch_registered env a p sc st))))"

section \<open>Symbols\<close>

definition cudaErrorNotYetImplemented :: u32 where "cudaErrorNotYetImplemented = 31"

text \<open>The variable is looked up by the address it has in the client.\<close>

definition find_symbol :: "'g backend_st \<Rightarrow> u64 \<Rightarrow> (nat \<times> nat) option cres" where
  "find_symbol st hostVar = bindr (g_fcia_host_var (bs_fatc st) hostVar) (\<lambda>(p, idx).
     (case p of None \<Rightarrow> Inr None
      | Some i \<Rightarrow> if \<not> (-1 < idx \<and> idx < int MAX_REGISTERED_VARS) then Inl AssertFail
          else Inr (Some (i, nat idx))))"

definition nvbackCudaMemcpyToSymbol_srv :: "'g srv_env \<Rightarrow> cuda_packet \<Rightarrow> srv_conn
    \<Rightarrow> 'g backend_st \<Rightarrow> 'g handled" where
  "nvbackCudaMemcpyToSymbol_srv env p sc st =
     (let kind = argn (pk_arg3 p) in
      if kind = 3 then Inr (ERROR, set_err cudaErrorNotYetImplemented p, sc, st)
      else if kind \<noteq> 1 then Inr (ERROR, set_err cudaErrorInvalidMemcpyDirection p, sc, st)
      else if (ucast (word_of_int (sc_request_data_size sc) :: u32) :: u64) \<noteq> arg_lo (pk_arg2 p)
      then Inl AssertFail
      else
        let p = p\<lparr>pk_arg1 := set_argp
            (if sc_pReqBuffer sc = None then 0 else se_req_addr env) (pk_arg1 p)\<rparr> in
        bindr (find_symbol st (arg_lo (pk_arg0 p))) (\<lambda>r.
        (case r of None \<Rightarrow> reply (set_err cudaErrorInvalidSymbol p) sc st
         | Some v \<Rightarrow> (case se_to_symbol env v (sc_pReqBuffer sc) (arg_lo (pk_arg2 p))
               (arg_hi (pk_arg2 p)) kind (bs_gpu st) of (err, g) \<Rightarrow>
             reply (set_err err p) sc (st\<lparr>bs_gpu := g\<rparr>)))))"

definition nvbackCudaMemcpyFromSymbol_srv :: "'g srv_env \<Rightarrow> cuda_packet \<Rightarrow> srv_conn
    \<Rightarrow> 'g backend_st \<Rightarrow> 'g handled" where
  "nvbackCudaMemcpyFromSymbol_srv env p sc st =
     (let kind = argn (pk_arg3 p) in
      if kind = 3 then Inr (ERROR, set_err cudaErrorNotYetImplemented p, sc, st)
      else if kind \<noteq> 2 then Inr (ERROR, set_err cudaErrorInvalidMemcpyDirection p, sc, st)
      else if sc_pRspBuffer sc \<noteq> None then Inl AssertFail
      else let sc = rsp_malloc env (argn (pk_arg2 p)) sc in
        if sc_pRspBuffer sc = None then Inr (ERROR, p, sc, st)
        else
          let p = p\<lparr>pk_arg1 := set_argp (se_rsp_addr env) (pk_arg1 p)\<rparr> in
          bindr (find_symbol st (arg_lo (pk_arg0 p))) (\<lambda>r.
          (case r of None \<Rightarrow> reply (set_err cudaErrorInvalidSymbol p) sc st
           | Some v \<Rightarrow> (case se_from_symbol env v (sc_pRspBuffer sc) (arg_lo (pk_arg2 p))
                 (arg_hi (pk_arg2 p)) kind (bs_gpu st) of (b, err) \<Rightarrow>
               reply (set_err err p) (sc\<lparr>sc_pRspBuffer := b\<rparr>) st))))"

section \<open>Registration\<close>

definition req_ptr :: "srv_conn \<Rightarrow> cptr" where
  "req_ptr sc = (case sc_pReqBuffer sc of None \<Rightarrow> None | Some b \<Rightarrow> Some 0)"

definition req_buf :: "srv_conn \<Rightarrow> cbuf" where
  "req_buf sc = (case sc_pReqBuffer sc of None \<Rightarrow> [] | Some b \<Rightarrow> b)"

text \<open>For the structure of CUDA 3.2. \<open>p_error\<close> leaves the process.\<close>

definition nvback_cudaRegisterFatBinary_srv :: "'g srv_env \<Rightarrow> cuda_packet \<Rightarrow> srv_conn
    \<Rightarrow> 'g backend_st \<Rightarrow> 'g handled" where
  "nvback_cudaRegisterFatBinary_srv env p sc st =
     (if \<not> se_small env then Inl ExitProc else
      bindr (unpackFatBinary (req_buf sc) (req_ptr sc)) (\<lambda>(f, off).
      (case f of None \<Rightarrow> Inl ExitProc
       | Some f \<Rightarrow> (case se_reg_fat env f (bs_gpu st) of (h, g) \<Rightarrow>
           Inr (OK, p\<lparr>pk_arg1 := set_argp (se_fat_addr env) (pk_arg1 p), pk_ret_ex_val := h\<rparr>, sc,
             st\<lparr>bs_gpu := g, bs_fatc := Some ((case bs_fatc st of None \<Rightarrow> [] | Some cs \<Rightarrow> cs)
               @ [fci_calloc\<lparr>fi_fatCubinHandle := h, fi_fatCubin := Some (FatCubin f)\<rparr>])\<rparr>)))))"

text \<open>The same for the structure of CUDA 4.0.\<close>

definition nvback_cudaRegisterFatBinary2_srv :: "'g srv_env \<Rightarrow> cuda_packet \<Rightarrow> srv_conn
    \<Rightarrow> 'g backend_st \<Rightarrow> 'g handled" where
  "nvback_cudaRegisterFatBinary2_srv env p sc st =
     (if \<not> se_small env then Inl ExitProc else
      bindr (unpackFatBinary_4 (req_buf sc) (req_ptr sc)) (\<lambda>(f, off).
      (case f of None \<Rightarrow> Inl ExitProc
       | Some f \<Rightarrow> (case se_reg_fat2 env f (bs_gpu st) of (h, g) \<Rightarrow>
           Inr (OK, p\<lparr>pk_arg1 := set_argp (se_fat_addr env) (pk_arg1 p), pk_ret_ex_val := h\<rparr>, sc,
             st\<lparr>bs_gpu := g, bs_fatc := Some ((case bs_fatc st of None \<Rightarrow> [] | Some cs \<Rightarrow> cs)
               @ [fci_calloc\<lparr>fi_fatCubinHandle := h, fi_fatCubin := Some (FatCubin2 f)\<rparr>])\<rparr>)))))"

text \<open>The registered fat binary with the handle is replaced by \<open>f\<close> of it.\<close>

definition fcia_update :: "'g backend_st \<Rightarrow> u64 \<Rightarrow> (fatcubin_info \<Rightarrow> fatcubin_info cres)
    \<Rightarrow> 'g backend_st cres" where
  "fcia_update st h f = (case g_fcia_elidx (bs_fatc st) h of
     (None, i) \<Rightarrow> Inl NullDeref
   | (Some c, i) \<Rightarrow> bindr (f c) (\<lambda>c'.
       Inr (st\<lparr>bs_fatc := map_option (\<lambda>cs. cs[nat i := c']) (bs_fatc st)\<rparr>)))"

definition add_fn :: "reg_func_args \<Rightarrow> fatcubin_info \<Rightarrow> fatcubin_info cres" where
  "add_fn a c = (if \<not> fi_num_reg_fns c < int MAX_REGISTERED_FUNCS then Inl AssertFail
     else if fi_num_reg_fns c < 0 then Inl OutOfBounds
     else bindr (updr (fi_reg_fns c) (nat (fi_num_reg_fns c)) (Some a)) (\<lambda>fs.
       Inr (c\<lparr>fi_reg_fns := fs, fi_num_reg_fns := fi_num_reg_fns c + 1\<rparr>)))"

definition add_var :: "reg_var_args \<Rightarrow> fatcubin_info \<Rightarrow> fatcubin_info cres" where
  "add_var a c = (if \<not> fi_num_reg_vars c < int MAX_REGISTERED_VARS then Inl AssertFail
     else if fi_num_reg_vars c < 0 then Inl OutOfBounds
     else bindr (updr (fi_variables c) (nat (fi_num_reg_vars c)) (Some a)) (\<lambda>vs.
       Inr (c\<lparr>fi_variables := vs, fi_num_reg_vars := fi_num_reg_vars c + 1\<rparr>)))"

text \<open>When unpacking fails the handler warns and goes on with what \<open>malloc\<close> left.\<close>

definition nvback_cudaRegisterFunction_srv :: "'g srv_env \<Rightarrow> cuda_packet \<Rightarrow> srv_conn
    \<Rightarrow> 'g backend_st \<Rightarrow> 'g handled" where
  "nvback_cudaRegisterFunction_srv env p sc st =
     (if \<not> se_small env then Inl ExitProc else
      bindr (unpackRegFuncArgs (req_buf sc) (req_ptr sc)) (\<lambda>(a, r).
      (case a of None \<Rightarrow> Inl Uninit
       | Some a \<Rightarrow> bindr (fcia_update st (fa_fatCubinHandle a) (add_fn a)) (\<lambda>st.
           Inr (OK, set_err cudaSuccess p, sc, st\<lparr>bs_gpu := se_reg_fun env a (bs_gpu st)\<rparr>)))))"

definition nvback_cudaRegisterVar_srv :: "'g srv_env \<Rightarrow> cuda_packet \<Rightarrow> srv_conn
    \<Rightarrow> 'g backend_st \<Rightarrow> 'g handled" where
  "nvback_cudaRegisterVar_srv env p sc st =
     (if \<not> se_small env then Inl ExitProc else
      bindr (unpackRegVar (req_buf sc) (req_ptr sc)) (\<lambda>(a, r).
      (case a of None \<Rightarrow> Inl ExitProc
       | Some a \<Rightarrow> bindr (fcia_update st (va_fatCubinHandle a) (add_var a)) (\<lambda>st.
           Inr (OK, set_err cudaSuccess p, sc, st\<lparr>bs_gpu := se_reg_var env a (bs_gpu st)\<rparr>)))))"

text \<open>\<open>g_array_remove_index_fast\<close>: the last element takes the place of the removed one.\<close>

definition remove_index_fast :: "'a list \<Rightarrow> nat \<Rightarrow> 'a list" where
  "remove_index_fast xs i = butlast (xs[i := last xs])"

definition nvback_cudaUnregisterFatBinary_srv :: "'g srv_env \<Rightarrow> cuda_packet \<Rightarrow> srv_conn
    \<Rightarrow> 'g backend_st \<Rightarrow> 'g handled" where
  "nvback_cudaUnregisterFatBinary_srv env p sc st =
     (case g_fcia_elidx (bs_fatc st) (arg_lo (pk_arg0 p)) of
        (None, i) \<Rightarrow> Inl AssertFail
      | (Some c, i) \<Rightarrow> bindr (cleanFatCubinInfo (Some c) []) (\<lambda>(c', freed, r).
          Inr (OK, set_err cudaSuccess p, sc, st\<lparr>bs_gpu := se_unreg_fat env (arg_lo (pk_arg0 p)) (bs_gpu st),
            bs_fatc := map_option (\<lambda>cs. remove_index_fast cs (nat i)) (bs_fatc st)\<rparr>)))"

section \<open>Dispatch\<close>

text \<open>The handler \<open>pkt_execute\<close> calls. That of the CUDA 3.2 fat binary is never called.\<close>

definition srv_handler :: "'g srv_env
    \<Rightarrow> handler \<Rightarrow> cuda_packet \<Rightarrow> srv_conn \<Rightarrow> 'g backend_st \<Rightarrow> 'g handled" where
  "srv_handler env h = (case h of
     H_Malloc \<Rightarrow> nvbackCudaMalloc_srv env
   | H_GetDeviceCount \<Rightarrow> nvbackCudaGetDeviceCount_srv env
   | H_GetDeviceProperties \<Rightarrow> nvbackCudaGetDeviceProperties_srv env
   | H_GetDevice \<Rightarrow> nvbackCudaGetDevice_srv env
   | H_SetDevice \<Rightarrow> nvbackCudaSetDevice_srv env
   | H_Free \<Rightarrow> nvbackCudaFree_srv env
   | H_SetupArgument \<Rightarrow> nvbackCudaSetupArgument_srv env
   | H_ConfigureCall \<Rightarrow> nvbackCudaConfigureCall_srv env
   | H_Launch \<Rightarrow> nvbackCudaLaunch_srv env
   | H_Memcpy \<Rightarrow> nvbackCudaMemcpy_srv env
   | H_MemcpyToSymbol \<Rightarrow> nvbackCudaMemcpyToSymbol_srv env
   | H_MemcpyFromSymbol \<Rightarrow> nvbackCudaMemcpyFromSymbol_srv env
   | H_ThreadSynchronize \<Rightarrow> nvbackCudaThreadSynchronize_srv env
   | H_ThreadExit \<Rightarrow> nvbackCudaThreadExit_srv env
   | H_RegisterFatBinary2 \<Rightarrow> nvback_cudaRegisterFatBinary2_srv env
   | H_RegisterFunction \<Rightarrow> nvback_cudaRegisterFunction_srv env
   | H_RegisterVar \<Rightarrow> nvback_cudaRegisterVar_srv env
   | H_UnregisterFatBinary \<Rightarrow> nvback_cudaUnregisterFatBinary_srv env)"

text \<open>\<open>pkt_execute\<close> ignores the status.\<close>

definition srv_handlers :: "'g srv_env
    \<Rightarrow> handler \<Rightarrow> cuda_packet \<Rightarrow> srv_conn \<times> 'g backend_st
    \<Rightarrow> (cuda_packet \<times> srv_conn \<times> 'g backend_st) cres" where
  "srv_handlers env h p s = (case s of (sc, st) \<Rightarrow>
     bindr (srv_handler env h p sc st) (\<lambda>(r, p, sc, st). Inr (p, sc, st)))"

end
