(* ===== verification/Remote_Properties.thy ===== *)
theory Remote_Properties
  imports Remote_Rpc Remote_Srv Vmem_Properties Net_Properties
begin

text \<open>
  What remote calls do: a call from the client through both connections and the handler and
  back, the handlers of memory and of launches, the choice of devices.
\<close>

section \<open>The handlers leave the method of the packet alone\<close>

lemma set_err_method [simp]: "pk_method_id (set_err e p) = pk_method_id p"
  by (simp add: set_err_def)

definition keeps :: "u16 \<Rightarrow> 'g handled \<Rightarrow> bool" where
  "keeps m r \<longleftrightarrow> (case r of Inl f \<Rightarrow> True | Inr (x, p, sc, st) \<Rightarrow> pk_method_id p = m)"

lemma keeps_simps [simp]:
  "keeps m (Inl f)" "keeps m (Inr (x, p, sc, st)) \<longleftrightarrow> pk_method_id p = m"
  "keeps m (reply p sc st) \<longleftrightarrow> pk_method_id p = m"
  by (simp_all add: keeps_def reply_def)

lemma keeps_bind: "(\<And>x. keeps m (k x)) \<Longrightarrow> keeps m (bindr r k)"
  by (cases r) simp_all

definition keeps_method :: "(cuda_packet \<Rightarrow> srv_conn \<Rightarrow> 'g backend_st \<Rightarrow> 'g handled) \<Rightarrow> bool" where
  "keeps_method f \<longleftrightarrow> (\<forall>p sc st. keeps (pk_method_id p) (f p sc st))"

lemmas handler_devices = nvbackCudaGetDeviceCount_srv_def nvbackCudaGetDeviceProperties_srv_def
  nvbackCudaGetDevice_srv_def nvbackCudaSetDevice_srv_def nvbackCudaThreadSynchronize_srv_def
  nvbackCudaThreadExit_srv_def

lemmas handler_memory = nvbackCudaMalloc_srv_def nvbackCudaFree_srv_def nvbackCudaMemcpy_srv_def
  vmem_copy_def nvbackCudaMemcpyToSymbol_srv_def nvbackCudaMemcpyFromSymbol_srv_def

lemmas handler_kernels = nvbackCudaSetupArgument_srv_def nvbackCudaConfigureCall_srv_def
  nvbackCudaLaunch_srv_def launch_registered_def

lemmas handler_registration = nvback_cudaRegisterFunction_srv_def nvback_cudaRegisterVar_srv_def
  nvback_cudaUnregisterFatBinary_srv_def nvback_cudaRegisterFatBinary2_srv_def

lemma devices_keep_method:
  "keeps_method (nvbackCudaGetDeviceCount_srv env)"
  "keeps_method (nvbackCudaGetDeviceProperties_srv env)"
  "keeps_method (nvbackCudaGetDevice_srv env)"
  "keeps_method (nvbackCudaSetDevice_srv env)"
  "keeps_method (nvbackCudaThreadSynchronize_srv env)"
  "keeps_method (nvbackCudaThreadExit_srv env)"
  by (auto simp: keeps_method_def handler_devices Let_def intro!: keeps_bind
      split: prod.splits option.splits)

lemma memory_keeps_method:
  "keeps_method (nvbackCudaMalloc_srv env)"
  "keeps_method (nvbackCudaFree_srv env)"
  "keeps_method (nvbackCudaMemcpy_srv env)"
  "keeps_method (nvbackCudaMemcpyToSymbol_srv env)"
  "keeps_method (nvbackCudaMemcpyFromSymbol_srv env)"
  by (auto simp: keeps_method_def handler_memory Let_def intro!: keeps_bind
      split: prod.splits option.splits)

lemma kernels_keep_method:
  "keeps_method (nvbackCudaSetupArgument_srv env)"
  "keeps_method (nvbackCudaConfigureCall_srv env)"
  "keeps_method (nvbackCudaLaunch_srv env)"
  by (auto simp: keeps_method_def handler_kernels Let_def intro!: keeps_bind
      split: prod.splits option.splits)

lemma registration_keeps_method:
  "keeps_method (nvback_cudaRegisterFunction_srv env)"
  "keeps_method (nvback_cudaRegisterVar_srv env)"
  "keeps_method (nvback_cudaUnregisterFatBinary_srv env)"
  "keeps_method (nvback_cudaRegisterFatBinary2_srv env)"
  by (auto simp: keeps_method_def handler_registration Let_def intro!: keeps_bind
      split: prod.splits option.splits)

lemma srv_handler_keeps:
  "keeps_method (srv_handler env h)"
  by (cases h) (simp_all only: srv_handler_def handler.case devices_keep_method
      memory_keeps_method kernels_keep_method registration_keeps_method)

lemma srv_handlers_method:
  assumes "srv_handlers env h p (sc, st) = Inr (p', sc', st')"
  shows "pk_method_id p' = pk_method_id p"
proof -
  obtain r where "srv_handler env h p sc st = Inr (r, p', sc', st')"
    using assms by (auto simp: srv_handlers_def bindr_eq_Inr_iff)
  then show ?thesis
    using srv_handler_keeps [of env h] unfolding keeps_method_def
    by (metis keeps_simps(2))
qed

lemma pkt_execute_method:
  assumes "pkt_execute (srv_handlers env) p (sc, st) = Inr (p', sc', st')"
  shows "pk_method_id p' = pk_method_id p"
  using assms srv_handlers_method
  by (auto simp: pkt_execute_def split: option.splits)

section \<open>A concrete backend\<close>

definition demo_srv :: "byte list option srv_env" where
  "demo_srv = \<lparr>se_rt = demo_rt, se_malloc = demo_hm, se_small = True, se_semget = 1,
     se_semget_launch = 2, se_req_addr = 0x10, se_rsp_addr = 0x20, se_fat_addr = 0x30,
     se_prop_size = 4, se_get_count = (\<lambda>g. (2, 0)), se_get_props = (\<lambda>d b g. (b, 0)),
     se_set_device = (\<lambda>d g. (0, g)), se_sync = (\<lambda>g. (0, g)), se_exit = (\<lambda>g. (0, g)),
     se_launch = (\<lambda>l g. g), se_to_symbol = (\<lambda>v b n off k g. (0, g)),
     se_from_symbol = (\<lambda>v b n off k g. (b, 0)), se_reg_fat = (\<lambda>f g. (1, g)), se_reg_fat2 = (\<lambda>f g. (1, g)),
     se_reg_fun = (\<lambda>a g. g), se_reg_var = (\<lambda>a g. g), se_unreg_fat = (\<lambda>h g. g)\<rparr>"

definition demo_st :: "int list \<Rightarrow> byte list option backend_st" where
  "demo_st l = \<lparr>bs_gpu = Some [0, 0, 0, 0], bs_table = [fresh_node], bs_vmap_index = 1,
     bs_local = l, bs_localindex = length l, bs_kmap = demo_kernel [], bs_fatc = Some [],
     bs_isLocal = 0, bs_dev = dev_bal0, bs_assigned = None\<rparr>"

definition demo_packet :: "method_id \<Rightarrow> u64 \<Rightarrow> u64 \<Rightarrow> u64 \<Rightarrow> cuda_packet" where
  "demo_packet f a0 a1 a2 = zero_packet\<lparr>pk_method_id := method_num f,
     pk_arg0 := \<lparr>arg_lo = a0, arg_hi = 0\<rparr>, pk_arg1 := \<lparr>arg_lo = a1, arg_hi = 0\<rparr>,
     pk_arg2 := \<lparr>arg_lo = a2, arg_hi = 0\<rparr>\<rparr>"

lemma demo_srv_sel [simp]:
  "se_rt demo_srv = demo_rt" "se_malloc demo_srv = demo_hm" "se_small demo_srv"
  "se_semget_launch demo_srv = 2"
  by (simp_all add: demo_srv_def)

lemma demo_st_sel [simp]:
  "bs_gpu (demo_st l) = Some [0, 0, 0, 0]" "bs_table (demo_st l) = [fresh_node]"
  "bs_local (demo_st l) = l" "bs_localindex (demo_st l) = length l"
  "bs_fatc (demo_st l) = Some []" "bs_dev (demo_st l) = dev_bal0" "bs_assigned (demo_st l) = None"
  by (simp_all add: demo_st_def)

lemma demo_packet_sel [simp]:
  "pk_method_id (demo_packet f a b c) = method_num f" "arg_lo (pk_arg0 (demo_packet f a b c)) = a"
  "arg_lo (pk_arg1 (demo_packet f a b c)) = b" "arg_lo (pk_arg2 (demo_packet f a b c)) = c"
  by (simp_all add: demo_packet_def)

lemma demo_find:
  "find_local (demo_st [0]) 0x7004 = Inr (int 0)" "find_local (demo_st [-1, 0]) 0x7004 = Inr (int 1)"
  by (simp_all add: find_local_def mem_map_find_entry_def nthri_def nthr_def handle_addr_def
      fresh_node_def blank_node_def)

section \<open>A call from end to end\<close>

text \<open>The execution of a request: packet, data and state of the backend before, and after.\<close>

definition executed :: "'g srv_env \<Rightarrow> u64 \<Rightarrow> u64 \<Rightarrow> cuda_packet \<Rightarrow> byte list \<Rightarrow> 'g backend_st
    \<Rightarrow> (cuda_packet \<times> srv_conn \<times> 'g backend_st) cres" where
  "executed env vm km p d st = pkt_execute (srv_handlers env)
     (p\<lparr>pk_is_feedback_packet := 0, pk_vmmap := vm, pk_kmap := km\<rparr>)
     (\<lparr>sc_request_data_size = int (length d), sc_response_data_size = 0,
       sc_pReqBuffer = (if d = [] then None else Some d), sc_pRspBuffer = None\<rparr>, st)"

text \<open>The client's buffers fit the request data \<open>d\<close> and the response.\<close>

definition req_fits :: "byte list option \<Rightarrow> int \<Rightarrow> byte list \<Rightarrow> bool" where
  "req_fits reqbuf n d \<longleftrightarrow> length d < 2 ^ 31
     \<and> (if d = [] then n = 0 else reqbuf = Some d \<and> n = int (length d))"

definition rsp_fits :: "byte list option \<Rightarrow> int \<Rightarrow> srv_conn \<Rightarrow> bool" where
  "rsp_fits rspbuf n sc \<longleftrightarrow> rsp_ok sc
     \<and> 0 \<le> sc_response_data_size sc \<and> sc_response_data_size sc < 2 ^ 31
     \<and> (0 < sc_response_data_size sc \<longrightarrow> (\<exists>b. rspbuf = Some b
          \<and> sc_response_data_size sc \<le> int (length b) \<and> sc_response_data_size sc \<le> n))"

definition rsp_stored :: "byte list option \<Rightarrow> srv_conn \<Rightarrow> byte list option" where
  "rsp_stored rspbuf sc = (if 0 < sc_response_data_size sc
     then Some (the (sc_pRspBuffer sc) @ drop (length (the (sc_pRspBuffer sc))) (the rspbuf))
     else rspbuf)"

lemma rpc_serves:
  fixes env :: "'g srv_env"
  assumes xf: "xfer_ok sndf" "xfer_ok rcv" "xfer_ok bsnd" "xfer_ok brcv"
    and up: "cn_valid conn \<noteq> 0" "0 \<le> cn_socket conn" "0 \<le> fd" "\<forall>n. mok n"
    and fits: "req_fits reqbuf n d" "rsp_fits rspbuf rn sc'"
    and exec: "executed env vm km p d st = Inr (p', sc', st')"
  defines "serve \<equiv> backend_serve bsnd brcv fd mok (srv_handlers env) vm km st"
  shows "(\<exists>s'. l_do_cuda_rpc sndf rcv (served_by serve t s) host idx cenv conn p reqbuf n
        rspbuf rn s = Inr (if method_expects_response (pk_method_id p)
          then (OK, conn, p'\<lparr>pk_vmmap := 0, pk_kmap := 0\<rparr>, rsp_stored rspbuf sc', s')
          else (OK, conn, p, rspbuf, s')) \<and> sk_out s' = sk_out s @ request_bytes p d)
    \<and> (\<exists>t'. serve (t\<lparr>sk_in := request_bytes p d\<rparr>) = Inr (True, st', t'))"
proof -
  let ?r = "method_expects_response (pk_method_id p)" let ?p = "p'\<lparr>pk_vmmap := 0, pk_kmap := 0\<rparr>"
  have m: "pk_method_id p' = pk_method_id p"
    using pkt_execute_method exec unfolding executed_def by fastforce
  have fd: "length d < 2 ^ 31" "if d = [] then n = 0 else reqbuf = Some d \<and> n = int (length d)"
    using fits(1) by (auto simp: req_fits_def)
  have fr: "rsp_ok sc'" using fits(2) by (simp add: rsp_fits_def)
  obtain k1 where k1: "rpc_send sndf conn p reqbuf n s = Inr (if ?r then None else Some OK,
      s\<lparr>sk_out := sk_out s @ request_bytes p d, sk_calls := k1\<rparr>)"
    using rpc_send_ok [OF xf(1) up(2) fd(2,1)] by blast
  let ?t = "t\<lparr>sk_in := request_bytes p d\<rparr>"
  obtain k2 where k2: "serve ?t = Inr (True, st', ?t\<lparr>sk_in := [], sk_out := sk_out t @
      (if ?r then response_bytes ?p sc' else []), sk_calls := k2\<rparr>)"
    using backend_serve_ok [OF xf(4,3) up(3,4), of ?t p d "[]", OF _ fd(1) exec [unfolded executed_def] fr]
    unfolding serve_def m by auto
  let ?s = "s\<lparr>sk_out := sk_out s @ request_bytes p d, sk_calls := k1, sk_in := response_bytes ?p sc'\<rparr>"
  have peer: "served_by serve t s (s\<lparr>sk_out := sk_out s @ request_bytes p d, sk_calls := k1\<rparr>) = ?s"
    if ?r using k2 that by (simp add: served_by_def)
  obtain k3 where k3: "rpc_receive rcv conn p rspbuf rn ?s
      = Inr (OK, ?p, rsp_stored rspbuf sc', ?s\<lparr>sk_in := [], sk_calls := k3\<rparr>)"
    using rpc_receive_ok [OF xf(2) up(2) fr, of ?s ?p rspbuf rn p] fits(2)
    unfolding rsp_fits_def rsp_stored_def by auto
  have c: "rpc_connect conn host idx cenv = Inr conn" using up(1) by (simp add: rpc_connect_def)
  show ?thesis
  proof
    show "\<exists>t'. serve ?t = Inr (True, st', t')" using k2 by blast
    show "\<exists>s'. l_do_cuda_rpc sndf rcv (served_by serve t s) host idx cenv conn p reqbuf n rspbuf rn s
      = Inr (if ?r then (OK, conn, ?p, rsp_stored rspbuf sc', s') else (OK, conn, p, rspbuf, s'))
      \<and> sk_out s' = sk_out s @ request_bytes p d"
      using c k1 k3 peer by (cases ?r) (auto simp: l_do_cuda_rpc_def)
  qed
qed

text \<open>C6. A remote call runs the handler on the packet and the data the client sent, however the
  two streams are segmented. The client gets the packet the handler left, with the two addresses
  of the backend taken out, and the response data in its buffer; for a method that expects no
  response it goes on with its own packet.\<close>

theorem rpc_end_to_end:
  fixes env :: "'g srv_env"
  assumes xf: "xfer_ok sndf" "xfer_ok rcv" "xfer_ok bsnd" "xfer_ok brcv"
    and up: "cn_valid conn \<noteq> 0" "0 \<le> cn_socket conn" "0 \<le> fd" "\<forall>n. mok n"
    and fits: "req_fits reqbuf n d" "rsp_fits rspbuf rn sc'"
    and exec: "executed env vm km p d st = Inr (p', sc', st')"
  defines "serve \<equiv> backend_serve bsnd brcv fd mok (srv_handlers env) vm km st"
  shows "(\<exists>s'. l_do_cuda_rpc sndf rcv (served_by serve t s) host idx cenv conn p reqbuf n
        rspbuf rn s = Inr (if method_expects_response (pk_method_id p)
          then (OK, conn, p'\<lparr>pk_vmmap := 0, pk_kmap := 0\<rparr>, rsp_stored rspbuf sc', s')
          else (OK, conn, p, rspbuf, s')))
    \<and> (\<exists>t'. serve (t\<lparr>sk_in := request_bytes p d\<rparr>) = Inr (True, st', t'))"
  using rpc_serves [OF assms(1-11)] unfolding serve_def by blast

lemma rpc_end_to_end_witness:
  "\<exists>s'. l_do_cuda_rpc (\<lambda>k n. 1) (\<lambda>k n. int n) (served_by (backend_serve (\<lambda>k n. 1) (\<lambda>k n. int n) 4
      (\<lambda>n. True) (srv_handlers demo_srv) 0x100 0x200 (demo_st [])) (idle []) (idle []))
      ''h'' 0 (demo_env 0) (blank_conn\<lparr>cn_valid := 1\<rparr>) (demo_packet CUDA_GET_DEVICE 3 0 0)
      None 0 None 0 (idle []) =
    Inr (OK, blank_conn\<lparr>cn_valid := 1\<rparr>, demo_packet CUDA_GET_DEVICE 0 0 0, None, s')"
proof -
  let ?p = "demo_packet CUDA_GET_DEVICE 3 0 0"
  let ?p' = "(demo_packet CUDA_GET_DEVICE 0 0 0)\<lparr>pk_vmmap := 0x100, pk_kmap := 0x200\<rparr>"
  let ?sc = "\<lparr>sc_request_data_size = 0, sc_response_data_size = 0, sc_pReqBuffer = None,
    sc_pRspBuffer = None\<rparr>"
  have r: "(1 :: int) smod 3 = 1" using smod_mod_positive [of 1 "3 :: int"] by simp
  have "executed demo_srv 0x100 0x200 ?p [] (demo_st []) = Inr (?p', ?sc,
      (demo_st [])\<lparr>bs_dev := dev_bal0\<lparr>db_devices := 3, db_rr := 1\<rparr>, bs_assigned := Some 0\<rparr>)"
    by (simp add: r executed_def pkt_execute_def pkt_handler_def srv_handlers_def srv_handler_def
        nvbackCudaGetDevice_srv_def Let_def get_next_device_RR_def argn_def demo_packet_def
        zero_packet_def set_err_def dev_bal0_def reply_def set_argi_def pkt_err_def cudaSuccess_def)
  from rpc_end_to_end [OF xfer_ok_one xfer_ok_all xfer_ok_one xfer_ok_all _ _ _ _ _ _ this,
      of "blank_conn\<lparr>cn_valid := 1\<rparr>" 4 "\<lambda>_. True" None 0 None 0 "idle []" "idle []" "''h''" 0 "demo_env 0"]
  show ?thesis
    by (simp add: blank_conn_def req_fits_def rsp_fits_def rsp_ok_def rsp_stored_def
        method_expects_response_def sync_methods_def demo_packet_def zero_packet_def)
qed

section \<open>Copies through the handlers\<close>

lemma find_entry_loop_cong:
  "map mm_addr t' = map mm_addr t \<Longrightarrow> find_entry_loop t' xs dv k = find_entry_loop t xs dv k"
proof (induction xs arbitrary: k)
  case (Cons x xs)
  have l: "length t' = length t" using Cons.prems by (metis length_map)
  have "handle_addr (t' ! j) = handle_addr (t ! j)" if "j < length t" for j
    using Cons.prems that l by (metis handle_addr_def nth_map)
  then show ?case using Cons l by (auto simp: nthri_def nthr_def)
qed simp

lemma frame_addrs:
  assumes "frame rt i t g t' g'" and "i < length t" and "mm_addr (t' ! i) = mm_addr (t ! i)"
  shows "map mm_addr t' = map mm_addr t"
proof (rule nth_equalityI)
  show "length (map mm_addr t') = length (map mm_addr t)" using assms(1) by (simp add: frame_def)
  show "map mm_addr t' ! j = map mm_addr t ! j" if "j < length (map mm_addr t')" for j
    using assms that by (cases "j = i") (auto simp: frame_def)
qed

lemma argn_of_nat:
  assumes "arg_lo a = word_of_nat n" and "n < 2 ^ 31"
  shows "argn a = int n" "argi a = int n"
proof -
  have "(ucast (word_of_nat n :: u64) :: u32) = word_of_nat n"
    by (rule bit_word_eqI) (auto simp: bit_simps)
  then show "argn a = int n" unfolding argn_def assms(1) using sint_small_nat [OF assms(2)] by simp
  show "argi a = int n"
    unfolding argi_def assms(1) using assms(2)
    by (simp add: signed_of_nat signed_take_bit_int_eq_self)
qed

text \<open>The device pointer names object \<open>i\<close> of this process.\<close>

definition local_object :: "'g backend_st \<Rightarrow> u64 \<Rightarrow> nat \<Rightarrow> bool" where
  "local_object st devptr i \<longleftrightarrow> (\<exists>k. find_local st devptr = Inr (int k)
     \<and> k < length (bs_local st) \<and> bs_local st ! k = int i
     \<and> i < length (bs_table st) \<and> mm_valid (bs_table st ! i) \<noteq> 0)"

lemma local_object_find:
  assumes "local_object st devptr i"
  shows "bindr (find_local st devptr) (\<lambda>id. bindr (local_at st id) f) = f (int i)"
  using assms by (auto simp: local_object_def local_at_def)

lemma local_object_frame:
  assumes "local_object st dv i" and "frame rt i (bs_table st) g t' g'"
    and "mm_addr (t' ! i) = mm_addr (bs_table st ! i)" and "mm_valid (t' ! i) \<noteq> 0"
  shows "local_object (st\<lparr>bs_table := t', bs_gpu := g'\<rparr>) dv i"
proof -
  have "i < length (bs_table st)" using assms(1) by (auto simp: local_object_def)
  from find_entry_loop_cong [OF frame_addrs [OF assms(2) this assms(3)]]
  have f: "find_local (st\<lparr>bs_table := t', bs_gpu := g'\<rparr>) dv = find_local st dv"
    by (simp add: find_local_def mem_map_find_entry_def)
  have l: "length t' = length (bs_table st)" using assms(2) by (simp add: frame_def)
  show ?thesis using assms(1,4) l unfolding local_object_def f by fastforce
qed

abbreviation conn_req :: "byte list \<Rightarrow> srv_conn" where
  "conn_req d \<equiv> \<lparr>sc_request_data_size = int (length d), sc_response_data_size = 0,
     sc_pReqBuffer = (if d = [] then None else Some d), sc_pRspBuffer = None\<rparr>"

text \<open>Object \<open>i\<close> begins with the bytes \<open>d\<close>, on the device or in its swap space.\<close>

definition obj_holds :: "'g cuda_rt \<Rightarrow> 'g backend_st \<Rightarrow> nat \<Rightarrow> byte list \<Rightarrow> bool" where
  "obj_holds rt st i d \<longleftrightarrow> mm_status (bs_table st ! i) \<notin> {D_NOALLOC, D_INIT}
     \<and> length d \<le> mm_size (bs_table st ! i)
     \<and> take (length d) (vdata rt (bs_gpu st) (bs_table st ! i)) = d"

lemma d2h_fields:
  assumes "mem_map_d2h rt t i (t ! i) n g = Inr (out, t', g')" and "i < length t"
  shows "mm_valid (t' ! i) = mm_valid (t ! i) \<and> mm_size (t' ! i) = mm_size (t ! i)
    \<and> mm_addr (t' ! i) = mm_addr (t ! i)
    \<and> (mm_status (t' ! i) \<in> {D_NOALLOC, D_INIT} \<longleftrightarrow> mm_status (t ! i) \<in> {D_NOALLOC, D_INIT})"
  using assms by (auto simp: mem_map_d2h_def bindr_eq_Inr_iff split: if_splits)

text \<open>The two directions of a copy: what the handler does to the object and what it leaves alone.\<close>

lemma srv_h2d_writes:
  fixes st :: "'g backend_st"
  defines "t \<equiv> bs_table st" and "g \<equiv> bs_gpu st"
  assumes ok: "cuda_ok (se_rt env)" "vm_inv (se_rt env) g t"
    and obj: "local_object st dv i" "length d \<le> mm_size (t ! i)"
    and n: "d \<noteq> []" "length d < 2 ^ 31"
    and p: "pk_method_id p = method_num CUDA_MEMCPY_H2D" "arg_lo (pk_arg0 p) = dv"
      "arg_lo (pk_arg2 p) = word_of_nat (length d)"
  shows "\<exists>p' t' g'. nvbackCudaMemcpy_srv env p (conn_req d) st
      = Inr (OK, p', conn_req d, st\<lparr>bs_table := t', bs_gpu := g'\<rparr>)
    \<and> pkt_err p' = cudaSuccess \<and> vm_inv (se_rt env) g' t' \<and> frame (se_rt env) i t g t' g'
    \<and> vdata (se_rt env) g' (t' ! i) = d @ drop (length d) (vdata (se_rt env) g (t ! i))
    \<and> mm_status (t' ! i) \<notin> {D_NOALLOC, D_INIT} \<and> mm_valid (t' ! i) \<noteq> 0
    \<and> mm_size (t' ! i) = mm_size (t ! i) \<and> mm_addr (t' ! i) = mm_addr (t ! i)"
proof -
  let ?rt = "se_rt env" let ?n = "int (length d)"
  have i: "i < length t" "mm_valid (t ! i) \<noteq> 0" using obj(1) by (auto simp: local_object_def t_def)
  obtain t1 g1 where w: "mem_map_h2d ?rt t i (t ! i) d ?n g = Inr (None, t1, g1)"
    and rest: "vm_inv ?rt g1 t1" "frame ?rt i t g t1 g1"
      "vdata ?rt g1 (t1 ! i) = d @ drop (length d) (vdata ?rt g (t ! i))"
      "mm_status (t1 ! i) \<notin> {D_NOALLOC, D_INIT}" "mm_valid (t1 ! i) \<noteq> 0"
      "mm_size (t1 ! i) = mm_size (t ! i)" "mm_addr (t1 ! i) = mm_addr (t ! i)"
    using h2d_spec [OF ok i, of ?n d] obj(2) by auto
  have sz: "argn (pk_arg2 p) = ?n" "argi (pk_arg2 p) = ?n"
    using argn_of_nat [OF p(3) n(2)] by auto
  have "\<exists>p'. nvbackCudaMemcpy_srv env p (conn_req d) st
      = Inr (OK, p', conn_req d, st\<lparr>bs_table := t1, bs_gpu := g1\<rparr>) \<and> pkt_err p' = cudaSuccess"
    using n(1) p(1,2) sz w i(1) unfolding t_def g_def
    by (simp add: nvbackCudaMemcpy_srv_def vmem_copy_def local_object_find [OF obj(1)]
        memcpy_h2d method_num_inj reply_def Let_def)
  then show ?thesis using rest by blast
qed

lemma srv_h2d_ok:
  fixes st :: "'g backend_st"
  assumes ok: "cuda_ok (se_rt env)" "vm_inv (se_rt env) (bs_gpu st) (bs_table st)"
    and obj: "local_object st dv i" "length d \<le> mm_size (bs_table st ! i)"
    and n: "d \<noteq> []" "length d < 2 ^ 31"
    and p: "pk_method_id p = method_num CUDA_MEMCPY_H2D" "arg_lo (pk_arg0 p) = dv"
      "arg_lo (pk_arg2 p) = word_of_nat (length d)"
  shows "\<exists>p' st'. nvbackCudaMemcpy_srv env p (conn_req d) st = Inr (OK, p', conn_req d, st')
    \<and> pkt_err p' = cudaSuccess \<and> vm_inv (se_rt env) (bs_gpu st') (bs_table st')
    \<and> local_object st' dv i \<and> obj_holds (se_rt env) st' i d"
proof -
  obtain p' t' g' where w: "nvbackCudaMemcpy_srv env p (conn_req d) st
      = Inr (OK, p', conn_req d, st\<lparr>bs_table := t', bs_gpu := g'\<rparr>)" "pkt_err p' = cudaSuccess"
    "vm_inv (se_rt env) g' t'" "frame (se_rt env) i (bs_table st) (bs_gpu st) t' g'"
    "vdata (se_rt env) g' (t' ! i) = d @ drop (length d) (vdata (se_rt env) (bs_gpu st) (bs_table st ! i))"
    "mm_status (t' ! i) \<notin> {D_NOALLOC, D_INIT}" "mm_valid (t' ! i) \<noteq> 0"
    "mm_size (t' ! i) = mm_size (bs_table st ! i)" "mm_addr (t' ! i) = mm_addr (bs_table st ! i)"
    using srv_h2d_writes [OF assms] by blast
  have "local_object (st\<lparr>bs_table := t', bs_gpu := g'\<rparr>) dv i"
    by (rule local_object_frame [OF obj(1) w(4,9,7)])
  moreover have "obj_holds (se_rt env) (st\<lparr>bs_table := t', bs_gpu := g'\<rparr>) i d"
    using w(5,6,8) obj(2) by (simp add: obj_holds_def)
  ultimately show ?thesis using w(1-3) by auto
qed

lemma srv_d2h_reads:
  fixes st :: "'g backend_st"
  assumes inv: "vm_inv (se_rt env) (bs_gpu st) (bs_table st)"
    and obj: "local_object st dv i" "obj_holds (se_rt env) st i d"
    and n: "m \<le> length d" "length d < 2 ^ 31"
    and mem: "se_malloc env m = Some b" "length b = m"
    and q: "pk_method_id q = method_num CUDA_MEMCPY_D2H" "arg_lo (pk_arg1 q) = dv"
      "arg_lo (pk_arg2 q) = word_of_nat m"
  shows "\<exists>q' t'. nvbackCudaMemcpy_srv env q (conn_req []) st = Inr (OK, q',
      (conn_req [])\<lparr>sc_response_data_size := int m, sc_pRspBuffer := Some (take m d)\<rparr>, st\<lparr>bs_table := t'\<rparr>)
    \<and> pkt_err q' = cudaSuccess \<and> vm_inv (se_rt env) (bs_gpu st) t'
    \<and> frame (se_rt env) i (bs_table st) (bs_gpu st) t' (bs_gpu st)
    \<and> same_object (se_rt env) (bs_gpu st) (bs_table st ! i) (bs_gpu st) (t' ! i)"
proof -
  let ?rt = "se_rt env" let ?t = "bs_table st" let ?g = "bs_gpu st"
  have i: "i < length ?t" "mm_valid (?t ! i) \<noteq> 0" using obj(1) by (auto simp: local_object_def)
  have "take m (vdata ?rt ?g (?t ! i)) = take m d"
    using obj(2) n(1) unfolding obj_holds_def by (metis min.absorb1 take_take)
  then obtain t2 where r: "mem_map_d2h ?rt ?t i (?t ! i) (int m) ?g = Inr (Some (take m d), t2, ?g)"
    and keep: "vm_inv ?rt ?g t2" "frame ?rt i ?t ?g t2 ?g" "vdata ?rt ?g (t2 ! i) = vdata ?rt ?g (?t ! i)"
    using d2h_spec [OF inv i, of "int m"] n(1) obj(2) by (auto simp: obj_holds_def)
  have same: "same_object ?rt ?g (?t ! i) ?g (t2 ! i)"
    using d2h_fields [OF r i(1)] keep(3) unfolding same_object_def by simp
  have sz: "argn (pk_arg2 q) = int m" using argn_of_nat(1) [OF q(3)] n by auto
  have um: "unat (word_of_int (int m) :: u64) = m" using n by (simp add: unat_of_nat)
  have "\<exists>q'. nvbackCudaMemcpy_srv env q (conn_req []) st = Inr (OK, q',
      (conn_req [])\<lparr>sc_response_data_size := int m, sc_pRspBuffer := Some (take m d)\<rparr>, st\<lparr>bs_table := t2\<rparr>)
    \<and> pkt_err q' = cudaSuccess"
    using q(1,2) sz r mem n(1) um
    by (simp add: nvbackCudaMemcpy_srv_def vmem_copy_def local_object_find [OF obj(1)]
        memcpy_d2h [OF i(1)] method_num_inj reply_def Let_def rsp_malloc_def)
  then show ?thesis using keep(1,2) same by blast
qed

text \<open>Data that a client copies to one of its device objects comes back when it copies the
  object to the host: both handlers succeed, and the response carries the bytes written.\<close>

theorem srv_memcpy_roundtrip:
  fixes st :: "'g backend_st"
  assumes ok: "cuda_ok (se_rt env)" "vm_inv (se_rt env) (bs_gpu st) (bs_table st)"
    and obj: "local_object st dv i" "length d \<le> mm_size (bs_table st ! i)"
    and n: "d \<noteq> []" "length d < 2 ^ 31" "m \<le> length d"
    and mem: "se_malloc env m = Some b" "length b = m"
    and p: "pk_method_id p = method_num CUDA_MEMCPY_H2D" "arg_lo (pk_arg0 p) = dv"
      "arg_lo (pk_arg2 p) = word_of_nat (length d)"
    and q: "pk_method_id q = method_num CUDA_MEMCPY_D2H" "arg_lo (pk_arg1 q) = dv"
      "arg_lo (pk_arg2 q) = word_of_nat m"
  shows "\<exists>p' st1. nvbackCudaMemcpy_srv env p (conn_req d) st = Inr (OK, p', conn_req d, st1)
    \<and> (\<exists>q' sc' st2. nvbackCudaMemcpy_srv env q (conn_req []) st1 = Inr (OK, q', sc', st2)
      \<and> sc_response_data_size sc' = int m \<and> sc_pRspBuffer sc' = Some (take m d))"
proof -
  obtain p' st1 where 1: "nvbackCudaMemcpy_srv env p (conn_req d) st = Inr (OK, p', conn_req d, st1)"
    "vm_inv (se_rt env) (bs_gpu st1) (bs_table st1)" "local_object st1 dv i"
    "obj_holds (se_rt env) st1 i d"
    using srv_h2d_ok [OF ok obj n(1,2) p] by blast
  show ?thesis using 1(1) srv_d2h_reads [OF 1(2-4) n(3,2) mem q] by fastforce
qed

lemma srv_memcpy_roundtrip_witness:
  "\<exists>p' st1. nvbackCudaMemcpy_srv demo_srv (demo_packet CUDA_MEMCPY_H2D 0x7004 0 3)
      (conn_req [1, 2, 3]) (demo_st [0]) = Inr (OK, p', conn_req [1, 2, 3], st1)
    \<and> (\<exists>q' sc' st2. nvbackCudaMemcpy_srv demo_srv (demo_packet CUDA_MEMCPY_D2H 0 0x7004 2)
        (conn_req []) st1 = Inr (OK, q', sc', st2)
      \<and> sc_response_data_size sc' = 2 \<and> sc_pRspBuffer sc' = Some [1, 2])"
proof -
  have hm: "demo_hm 2 = Some [0xEE, 0xEE]" by (simp add: demo_hm_def numeral_2_eq_2)
  have o': "local_object (demo_st [0]) 0x7004 0"
    unfolding local_object_def by (rule exI [of _ 0]) (simp add: demo_find fresh_node_def)
  show ?thesis
    using srv_memcpy_roundtrip [of demo_srv "demo_st [0]" "0x7004" 0 "[1, 2, 3]" 2 "[0xEE, 0xEE]"
        "demo_packet CUDA_MEMCPY_H2D 0x7004 0 3" "demo_packet CUDA_MEMCPY_D2H 0 0x7004 2"]
      demo_rt_ok fresh_node_inv o' hm
    by (simp add: fresh_node_def)
qed

section \<open>Freeing\<close>

text \<open>C36. \<open>cudaFree\<close> of an object the process owns deletes the object, its device block and its
  entry in the list of the process, unless the entry is the first of the list: then nothing is
  freed, and the status is that of the error code the client sent.\<close>

theorem srv_free_but_first:
  assumes "cuda_ok (se_rt env)" and "vm_inv (se_rt env) (bs_gpu st) (bs_table st)"
    and "find_local st (arg_lo (pk_arg0 p)) = Inr (int k)" and "k < length (bs_local st)"
    and "bs_local st ! k = int i" and "i < length (bs_table st)"
  shows "if k = 0 then nvbackCudaFree_srv env p sc st
      = Inr (if pkt_err p = cudaSuccess then OK else ERROR, p, sc, st)
    else (\<exists>p' st'. nvbackCudaFree_srv env p sc st = Inr (OK, p', sc, st')
      \<and> vm_inv (se_rt env) (bs_gpu st') (bs_table st') \<and> mm_valid (bs_table st' ! i) = 0
      \<and> bs_local st' = (bs_local st)[k := -1]
      \<and> (mm_actual_devptr (bs_table st ! i) = 0
         \<or> \<not> cu_live (se_rt env) (mm_actual_devptr (bs_table st ! i)) (bs_gpu st')))"
proof (cases "k = 0")
  case True
  then show ?thesis using assms(3) by (simp add: nvbackCudaFree_srv_def reply_def)
next
  case False
  obtain t' g' where d: "mem_map_delete (se_rt env) (bs_table st) (int i) (bs_gpu st) = Inr (t', g')"
    "vm_inv (se_rt env) g' t'" "mm_valid (t' ! i) = 0"
    "mm_actual_devptr (bs_table st ! i) \<noteq> 0 \<longrightarrow>
       \<not> cu_live (se_rt env) (mm_actual_devptr (bs_table st ! i)) g'"
    using delete_spec [OF assms(1,2,6)] by blast
  have "nvbackCudaFree_srv env p sc st = Inr (OK, set_err cudaSuccess p, sc,
      st\<lparr>bs_table := t', bs_gpu := g', bs_local := (bs_local st)[k := -1]\<rparr>)"
    using False assms(3-5) d(1)
    by (simp add: nvbackCudaFree_srv_def reply_def local_at_def local_set_def)
  then show ?thesis using False d by auto
qed

lemma srv_free_but_first_witness:
  "nvbackCudaFree_srv demo_srv (demo_packet CUDA_FREE 0x7004 0 0) (conn_req []) (demo_st [0])
     = Inr (OK, demo_packet CUDA_FREE 0x7004 0 0, conn_req [], demo_st [0])
   \<and> (\<exists>p' st'. nvbackCudaFree_srv demo_srv (demo_packet CUDA_FREE 0x7004 0 0) (conn_req [])
        (demo_st [-1, 0]) = Inr (OK, p', conn_req [], st') \<and> bs_local st' = [-1, -1])"
proof -
  let ?p = "demo_packet CUDA_FREE 0x7004 0 0"
  have e: "pkt_err ?p = cudaSuccess"
    by (simp add: pkt_err_def demo_packet_def zero_packet_def cudaSuccess_def)
  show ?thesis
    using srv_free_but_first [of demo_srv "demo_st [0]" ?p 0 0 "conn_req []"]
      srv_free_but_first [of demo_srv "demo_st [-1, 0]" ?p 1 0 "conn_req []"]
      demo_rt_ok fresh_node_inv demo_find e
    by auto
qed

section \<open>Launching\<close>

lemma paging_status: "gvirt_is_paging_required km i t = Inr s \<Longrightarrow> s = 1"
  by (auto simp: gvirt_is_paging_required_def bindr_eq_Inr_iff split: if_splits)

lemma launch_registered_fault: "\<exists>f. launch_registered env a p sc st = Inl f"
proof (cases "kmap_add_kernel (bs_kmap st) (fa_hostFun a)")
  case (Inr r)
  obtain km i where r: "r = (km, i)" by force
  show ?thesis
  proof (cases "gvirt_is_paging_required km i (bs_table st)")
    case (Inr s)
    then show ?thesis
      using \<open>kmap_add_kernel _ _ = _\<close> r paging_status [OF Inr]
      by (simp add: launch_registered_def)
  qed (use \<open>kmap_add_kernel _ _ = _\<close> r in \<open>simp add: launch_registered_def\<close>)
qed (simp add: launch_registered_def)

text \<open>No kernel is ever launched: \<open>cudaLaunch\<close> of a registered function ends in a fault,
  and when the handler returns it reports \<open>cudaErrorLaunchFailure\<close> and has done nothing.\<close>

theorem srv_launch_never_succeeds:
  assumes "se_semget_launch env \<noteq> -1" and "bs_fatc st = Some cs"
    and "find_fn cs (arg_lo (pk_arg0 p)) = Inr r"
  shows "if r = None
    then nvbackCudaLaunch_srv env p sc st = Inr (ERROR, set_err cudaErrorLaunchFailure p, sc, st)
    else (\<exists>f. nvbackCudaLaunch_srv env p sc st = Inl f)"
proof -
  have "arg_lo (pk_arg0 (set_err e p)) = arg_lo (pk_arg0 p)" for e by (simp add: set_err_def)
  then show ?thesis
    using assms launch_registered_fault [of env _ "set_err cudaErrorLaunchFailure p" sc st]
    by (cases r) (auto simp: nvbackCudaLaunch_srv_def Let_def reply_def cudaErrorLaunchFailure_def
        cudaSuccess_def)
qed

lemma srv_launch_never_succeeds_witness:
  "nvbackCudaLaunch_srv demo_srv (demo_packet CUDA_LAUNCH 0x40 0 0) (conn_req []) (demo_st [])
     = Inr (ERROR, set_err cudaErrorLaunchFailure (demo_packet CUDA_LAUNCH 0x40 0 0), conn_req [],
         demo_st [])"
  using srv_launch_never_succeeds [of demo_srv "demo_st []" "[]" "demo_packet CUDA_LAUNCH 0x40 0 0"
      None "conn_req []"]
  by simp

section \<open>Devices\<close>

text \<open>With \<open>n\<close> devices any \<open>n\<close> consecutive calls of the round robin choice give every
  device exactly once, and with none the choice divides by zero.\<close>

theorem round_robin_fair:
  assumes "0 < db_devices b" and "0 \<le> db_rr b" and "db_rr b < db_devices b"
  shows "(\<exists>ds. rr_calls (nat (db_devices b)) b = Inr ds \<and> distinct ds \<and> set ds = {0..<db_devices b})
    \<and> get_next_device_RR (b\<lparr>db_devices := 0\<rparr>) = Inl DivZero"
proof -
  let ?n = "db_devices b" let ?f = "\<lambda>i. (db_rr b + int i) mod ?n"
  have inj: "inj_on ?f {..<nat ?n}"
  proof
    fix i j assume ij: "i \<in> {..<nat ?n}" "j \<in> {..<nat ?n}" "?f i = ?f j"
    then have "?n dvd (db_rr b + int i) - (db_rr b + int j)"
      by (simp only: mod_eq_dvd_iff)
    then have "?n dvd int i - int j" by simp
    moreover have "\<bar>int i - int j\<bar> < ?n" using ij(1,2) assms(1) by auto
    ultimately show "i = j" using dvd_imp_le_int [of "int i - int j" ?n] by auto
  qed
  have sub: "?f ` {..<nat ?n} \<subseteq> {0..<?n}" using assms(1) by auto
  have "card (?f ` {..<nat ?n}) = card {0..<?n}" using card_image [OF inj] by simp
  from card_subset_eq [OF _ sub this] have set: "?f ` {..<nat ?n} = {0..<?n}" by simp
  have "rr_calls (nat ?n) b = Inr (map ?f [0..<nat ?n])"
    by (rule rr_calls_eq [OF assms refl])
  moreover have "distinct (map ?f [0..<nat ?n])" "set (map ?f [0..<nat ?n]) = {0..<?n}"
    using inj set by (simp_all add: distinct_map atLeast0LessThan)
  ultimately show ?thesis by (simp add: get_next_device_RR_def)
qed

lemma round_robin_fair_witness:
  "\<exists>ds. rr_calls 3 \<lparr>db_devices = 3, db_threads = [], db_rr = 1\<rparr> = Inr ds \<and> distinct ds
     \<and> set ds = {0..<3}"
  using round_robin_fair [of "\<lparr>db_devices = 3, db_threads = [], db_rr = 1\<rparr>"] by simp

end
