(* ===== verification/Interposer.thy ===== *)
theory Interposer
  imports Remote_Rpc Fat_Registry
begin

text \<open>
  The application's side: the CUDA calls that interposer/libci.c takes over and sends to the
  backend that owns the current device, the registration of the program at every backend, and
  the reading of the configuration (\<open>l_getLocalFromConfig\<close> of interposer/libciutils.c). What is
  printed is left out, and so are the calls that are only handed on to the CUDA library.
\<close>

section \<open>The state of the application\<close>

definition MAX_INTERPOSED_DEVICES :: nat where "MAX_INTERPOSED_DEVICES = 1000"

definition MAX_FATCUBIN_HANDLES :: nat where "MAX_FATCUBIN_HANDLES = 1000"

definition HOSTNAME_STRLEN :: nat where "HOSTNAME_STRLEN = 256"

text \<open>
  The global variables of libci.c and libciutils.c. \<open>ci_cur\<close> is what \<open>tlsKey2\<close> of the thread
  points to, \<open>ci_handles\<close> the two-dimensional array of the handles, \<open>ci_net\<close> everything behind
  the network.
\<close>

record 'n client =
  ci_err :: u32
  ci_cur :: "int option"
  ci_nodes :: nat
  ci_devices :: int
  ci_hosts :: "string list"
  ci_in_node :: "int list"
  ci_index :: "int list"
  ci_local :: "int list"
  ci_cumm :: "int list"
  ci_first_node :: nat
  ci_first_local :: int
  ci_done :: int
  ci_handles :: "u64 list list"
  ci_counter :: int
  ci_vars :: "vars_tab option"
  ci_share :: int
  ci_net :: 'n

text \<open>
  \<open>en_alloc\<close>: the small allocations succeed; \<open>en_malloc\<close> gives the blocks of the packed
  arguments; \<open>en_rpc\<close> is \<open>l_do_cuda_rpc\<close> to the backend with the index, and \<open>en_mem\<close> what
  lies at an address of the application.
\<close>

record 'n client_env =
  en_alloc :: bool
  en_malloc :: "int \<Rightarrow> cbuf option"
  en_buf :: u64
  en_thread :: u64
  en_rpc :: "int \<Rightarrow> 'n rpc"
  en_mem :: "u64 \<Rightarrow> byte list option"

definition cudaErrorUnknown :: u32 where "cudaErrorUnknown = 30"

definition l_remoteInitMetThrReq :: "'n client_env \<Rightarrow> u16 \<Rightarrow> 'n client
    \<Rightarrow> cuda_packet option \<times> 'n client" where
  "l_remoteInitMetThrReq env m c = (case callocCudaPacket (en_alloc env) (ci_err c) of
     (None, e) \<Rightarrow> (None, c\<lparr>ci_err := e\<rparr>)
   | (Some p, e) \<Rightarrow> (Some (set_err cudaErrorUnknown
       (p\<lparr>pk_method_id := m, pk_thr_id := en_thread env, pk_flags := CUDA_request\<rparr>)),
       c\<lparr>ci_err := e\<rparr>))"

section \<open>A call\<close>

text \<open>
  What all calls share: the packet is made and filled in, sent by its \<open>_rpc\<close> function, and the
  last error is set from the status and the packet that came back. The result is that status,
  the packet and the data for the caller's buffer, or \<open>None\<close> when there is no packet.
\<close>

type_synonym 'n send = "cuda_packet \<Rightarrow> 'n \<Rightarrow> (int \<times> cuda_packet \<times> byte list option \<times> 'n) cres"

type_synonym 'n called = "((int \<times> cuda_packet \<times> byte list option) option \<times> 'n client) cres"

definition remote_call :: "'n client_env \<Rightarrow> u16 \<Rightarrow> (cuda_packet \<Rightarrow> cuda_packet) \<Rightarrow> 'n send
    \<Rightarrow> (int \<Rightarrow> cuda_packet \<Rightarrow> u32) \<Rightarrow> 'n client \<Rightarrow> 'n called" where
  "remote_call env m fill send err c = (case l_remoteInitMetThrReq env m c of
     (None, c) \<Rightarrow> Inr (None, c)
   | (Some p, c) \<Rightarrow> bindr (send (fill p) (ci_net c)) (\<lambda>(r, p, rsp, net).
       Inr (Some (r, p, rsp), c\<lparr>ci_err := err r p, ci_net := net\<rparr>)))"

text \<open>The last error after a call that is waited for, and after one that is not.\<close>

definition sync_err :: "int \<Rightarrow> cuda_packet \<Rightarrow> u32" where
  "sync_err r p = (if r = OK then pkt_err p else cudaErrorUnknown)"

definition async_err :: "int \<Rightarrow> cuda_packet \<Rightarrow> u32" where
  "async_err r p = (if r = OK then cudaSuccess else cudaErrorUnknown)"

definition no_rsp :: "(cuda_packet \<Rightarrow> 'n \<Rightarrow> (int \<times> cuda_packet \<times> 'n) cres) \<Rightarrow> 'n send" where
  "no_rsp f p net = bindr (f p net) (\<lambda>(r, p, net). Inr (r, p, None, net))"

definition returning_err :: "'n called \<Rightarrow> (u32 \<times> 'n client) cres" where
  "returning_err r = bindr r (\<lambda>(x, c). Inr (ci_err c, c))"

section \<open>The calls\<close>

definition rcudaThreadExit :: "'n client_env \<Rightarrow> int \<Rightarrow> 'n client \<Rightarrow> (u32 \<times> 'n client) cres" where
  "rcudaThreadExit env idx c = returning_err (remote_call env (method_num CUDA_THREAD_EXIT) (\<lambda>p. p)
     (no_rsp (nvbackCudaThreadExit_rpc (en_rpc env idx))) sync_err c)"

definition rcudaThreadSynchronize :: "'n client_env \<Rightarrow> int \<Rightarrow> 'n client \<Rightarrow> (u32 \<times> 'n client) cres" where
  "rcudaThreadSynchronize env idx c = returning_err (remote_call env
     (method_num CUDA_THREAD_SYNCHRONIZE) (\<lambda>p. p)
     (no_rsp (nvbackCudaThreadSynchronize_rpc (en_rpc env idx))) sync_err c)"

definition rcudaGetLastError :: "'n client \<Rightarrow> u32" where
  "rcudaGetLastError c = ci_err c"

text \<open>The second component is what the pointer argument leads to afterwards.\<close>

definition rcudaGetDeviceCount :: "'n client_env \<Rightarrow> int \<Rightarrow> int \<Rightarrow> 'n client
    \<Rightarrow> (u32 \<times> int \<times> 'n client) cres" where
  "rcudaGetDeviceCount env count idx c =
     bindr (remote_call env (method_num CUDA_GET_DEVICE_COUNT) (\<lambda>p. p)
       (no_rsp (nvbackCudaGetDeviceCount_rpc (en_rpc env idx))) sync_err c) (\<lambda>(x, c).
     Inr (ci_err c, (case x of None \<Rightarrow> count | Some (r, p, rsp) \<Rightarrow>
       if r = OK then sint (ucast (arg_lo (pk_arg0 p)) :: u32) else count), c))"

definition rcudaGetDeviceProperties :: "'n client_env \<Rightarrow> u64 \<Rightarrow> nat \<Rightarrow> int \<Rightarrow> int \<Rightarrow> 'n client
    \<Rightarrow> (u32 \<times> byte list option \<times> 'n client) cres" where
  "rcudaGetDeviceProperties env prop prop_size device idx c =
     bindr (remote_call env (method_num CUDA_GET_DEVICE_PROPERTIES)
       (\<lambda>p. p\<lparr>pk_flags := or (pk_flags p) CUDA_Copytype, pk_arg0 := set_argp prop (pk_arg0 p),
          pk_arg1 := set_argi device (pk_arg1 p),
          pk_arg2 := set_argi (int prop_size) (pk_arg2 p)\<rparr>)
       (nvbackCudaGetDeviceProperties_rpc (en_rpc env idx) (en_mem env)) sync_err c) (\<lambda>(x, c).
     Inr (ci_err c, (case x of None \<Rightarrow> en_mem env prop | Some (r, p, rsp) \<Rightarrow> rsp), c))"

definition rcudaSetDevice :: "'n client_env \<Rightarrow> int \<Rightarrow> int \<Rightarrow> int \<Rightarrow> 'n client
    \<Rightarrow> (u32 \<times> 'n client) cres" where
  "rcudaSetDevice env device idx isLocal c = returning_err (remote_call env
     (method_num CUDA_SET_DEVICE) (\<lambda>p. p\<lparr>pk_arg0 := set_argi device (pk_arg0 p),
       pk_arg1 := set_argi isLocal (pk_arg1 p), pk_arg2 := set_argi (ci_share c) (pk_arg2 p)\<rparr>)
     (no_rsp (nvbackCudaSetDevice_rpc (en_rpc env idx))) async_err c)"

definition rcudaGetDevice :: "'n client_env \<Rightarrow> int \<Rightarrow> int \<Rightarrow> int \<Rightarrow> 'n client
    \<Rightarrow> (u32 \<times> int \<times> 'n client) cres" where
  "rcudaGetDevice env device idx node c =
     bindr (remote_call env (method_num CUDA_GET_DEVICE)
       (\<lambda>p. p\<lparr>pk_arg0 := set_argi device (pk_arg0 p), pk_arg1 := set_argi (ci_first_local c) (pk_arg1 p),
          pk_arg2 := set_argi node (pk_arg2 p), pk_is_feedback_packet := 0\<rparr>)
       (no_rsp (nvbackCudaGetDevice_rpc (en_rpc env idx))) sync_err c) (\<lambda>(x, c).
     Inr (ci_err c, (case x of None \<Rightarrow> device | Some (r, p, rsp) \<Rightarrow>
       if r = OK then sint (ucast (arg_lo (pk_arg0 p)) :: u32) else device), c))"

definition rcudaConfigureCall :: "'n client_env \<Rightarrow> u32 \<times> u32 \<times> u32 \<Rightarrow> u32 \<times> u32 \<times> u32 \<Rightarrow> u64 \<Rightarrow> u64
    \<Rightarrow> int \<Rightarrow> 'n client \<Rightarrow> (u32 \<times> 'n client) cres" where
  "rcudaConfigureCall env gridDim blockDim sharedMem stream idx c = returning_err (remote_call env
     (method_num CUDA_CONFIGURE_CALL) (\<lambda>p. p\<lparr>pk_arg0 := set_arg_dim gridDim (pk_arg0 p),
       pk_arg1 := set_arg_dim blockDim (pk_arg1 p), pk_arg2 := set_argp sharedMem (pk_arg2 p),
       pk_arg3 := set_argp stream (pk_arg3 p)\<rparr>)
     (no_rsp (nvbackCudaConfigureCall_rpc (en_rpc env idx))) async_err c)"

text \<open>The trace output reads a pointer at \<open>arg\<close>, whatever the size of the argument.\<close>

definition rcudaSetupArgument :: "'n client_env \<Rightarrow> u64 \<Rightarrow> u64 \<Rightarrow> u64 \<Rightarrow> int \<Rightarrow> 'n client
    \<Rightarrow> (u32 \<times> 'n client) cres" where
  "rcudaSetupArgument env arg sz offset idx c =
     (case l_remoteInitMetThrReq env (method_num CUDA_SETUP_ARGUMENT) c of
        (None, c) \<Rightarrow> Inr (ci_err c, c)
      | (Some p, c') \<Rightarrow> (case en_mem env arg of None \<Rightarrow> Inl NullDeref
          | Some b \<Rightarrow> if length b < 8 then Inl OutOfBounds else
            returning_err (remote_call env (method_num CUDA_SETUP_ARGUMENT)
              (\<lambda>p. p\<lparr>pk_flags := or (pk_flags p) CUDA_Copytype, pk_arg0 := set_argp arg (pk_arg0 p),
                 pk_arg1 := set_argp sz (pk_arg1 p), pk_arg2 := set_argp offset (pk_arg2 p)\<rparr>)
              (no_rsp (nvbackCudaSetupArgument_rpc (en_rpc env idx) (en_mem env))) async_err c)))"

definition rcudaLaunch :: "'n client_env \<Rightarrow> u64 \<Rightarrow> int \<Rightarrow> 'n client \<Rightarrow> (u32 \<times> 'n client) cres" where
  "rcudaLaunch env entry idx c = returning_err (remote_call env (method_num CUDA_LAUNCH)
     (\<lambda>p. p\<lparr>pk_arg0 := set_argp entry (pk_arg0 p)\<rparr>)
     (no_rsp (nvbackCudaLaunch_rpc (en_rpc env idx))) async_err c)"

text \<open>\<open>devPtr\<close> is the address of the caller's pointer and \<open>old\<close> its value.\<close>

definition rcudaMalloc :: "'n client_env \<Rightarrow> u64 \<Rightarrow> u64 \<Rightarrow> u64 \<Rightarrow> int \<Rightarrow> 'n client
    \<Rightarrow> (u32 \<times> u64 \<times> 'n client) cres" where
  "rcudaMalloc env devPtr old sz idx c =
     bindr (remote_call env (method_num CUDA_MALLOC)
       (\<lambda>p. p\<lparr>pk_arg0 := set_argp devPtr (pk_arg0 p), pk_arg1 := set_argp sz (pk_arg1 p)\<rparr>)
       (no_rsp (nvbackCudaMalloc_rpc (en_rpc env idx)))
       (\<lambda>r p. if r \<noteq> OK then cudaErrorMemoryAllocation else pkt_err p) c) (\<lambda>(x, c).
     Inr (ci_err c, (case x of None \<Rightarrow> old | Some (r, p, rsp) \<Rightarrow>
       if r \<noteq> OK then 0 else arg_lo (pk_arg0 p)), c))"

definition rcudaFree :: "'n client_env \<Rightarrow> u64 \<Rightarrow> int \<Rightarrow> 'n client \<Rightarrow> (u32 \<times> 'n client) cres" where
  "rcudaFree env devPtr idx c = returning_err (remote_call env (method_num CUDA_FREE)
     (\<lambda>p. p\<lparr>pk_arg0 := set_argp devPtr (pk_arg0 p)\<rparr>)
     (no_rsp (nvbackCudaFree_rpc (en_rpc env idx))) async_err c)"

text \<open>The method is set by \<open>nvbackCudaMemcpy_rpc\<close>; until then it is \<open>(uint16_t) ERROR\<close>.\<close>

definition rcudaMemcpy :: "'n client_env \<Rightarrow> u64 \<Rightarrow> u64 \<Rightarrow> u64 \<Rightarrow> int \<Rightarrow> int \<Rightarrow> 'n client
    \<Rightarrow> (u32 \<times> byte list option \<times> 'n client) cres" where
  "rcudaMemcpy env dst src count kind idx c =
     bindr (remote_call env (-1)
       (\<lambda>p. p\<lparr>pk_arg0 := set_argp dst (pk_arg0 p), pk_arg1 := set_argp src (pk_arg1 p),
          pk_arg2 := set_argp count (pk_arg2 p), pk_arg3 := set_argi kind (pk_arg3 p),
          pk_flags := or (pk_flags p) CUDA_Copytype\<rparr>)
       (nvbackCudaMemcpy_rpc (en_rpc env idx) (en_mem env)) sync_err c) (\<lambda>(x, c).
     Inr (ci_err c, (case x of None \<Rightarrow> None | Some (r, p, rsp) \<Rightarrow> rsp), c))"

text \<open>
  A symbol is looked up before anything is sent. \<open>symbol\<close> is the address with the string that
  lies there.
\<close>

definition rcudaMemcpyToSymbol :: "'n client_env \<Rightarrow> symbolp option \<Rightarrow> u64 \<Rightarrow> u64 \<Rightarrow> u64 \<Rightarrow> int \<Rightarrow> int
    \<Rightarrow> 'n client \<Rightarrow> (u32 \<times> 'n client) cres" where
  "rcudaMemcpyToSymbol env symbol src count offset kind idx c =
     bindr (g_vars_find (ci_vars c) symbol) (\<lambda>hostVar.
     if hostVar = 0 then Inr (cudaErrorInvalidSymbol, c\<lparr>ci_err := cudaErrorInvalidSymbol\<rparr>) else
     returning_err (remote_call env (method_num CUDA_MEMCPY_TO_SYMBOL)
       (\<lambda>p. p\<lparr>pk_arg0 := set_argp hostVar (pk_arg0 p), pk_arg1 := set_argp src (pk_arg1 p),
          pk_arg2 := \<lparr>arg_lo = count, arg_hi = offset\<rparr>, pk_arg3 := set_argi kind (pk_arg3 p),
          pk_flags := or (pk_flags p) CUDA_Copytype\<rparr>)
       (no_rsp (nvbackCudaMemcpyToSymbol_rpc (en_rpc env idx) (en_mem env))) sync_err c))"

definition rcudaMemcpyFromSymbol :: "'n client_env \<Rightarrow> u64 \<Rightarrow> symbolp option \<Rightarrow> u64 \<Rightarrow> u64 \<Rightarrow> int \<Rightarrow> int
    \<Rightarrow> 'n client \<Rightarrow> (u32 \<times> byte list option \<times> 'n client) cres" where
  "rcudaMemcpyFromSymbol env dst symbol count offset kind idx c =
     bindr (g_vars_find (ci_vars c) symbol) (\<lambda>hostVar.
     if hostVar = 0 then Inr (cudaErrorInvalidSymbol, None, c\<lparr>ci_err := cudaErrorInvalidSymbol\<rparr>) else
     bindr (remote_call env (method_num CUDA_MEMCPY_FROM_SYMBOL)
       (\<lambda>p. p\<lparr>pk_arg0 := set_argp hostVar (pk_arg0 p), pk_arg1 := set_argp dst (pk_arg1 p),
          pk_arg2 := \<lparr>arg_lo = count, arg_hi = offset\<rparr>, pk_arg3 := set_argi kind (pk_arg3 p),
          pk_flags := or (pk_flags p) CUDA_Copytype\<rparr>)
       (nvbackCudaMemcpyFromSymbol_rpc (en_rpc env idx) (en_mem env)) sync_err c) (\<lambda>(x, c).
     Inr (ci_err c, (case x of None \<Rightarrow> None | Some (r, p, rsp) \<Rightarrow> rsp), c)))"

section \<open>The current device\<close>

text \<open>\<open>CUR_DEV\<close> is allocated, with 0, by the first call of the thread.\<close>

definition cur_dev :: "'n client_env \<Rightarrow> 'n client \<Rightarrow> (int \<times> 'n client) cres" where
  "cur_dev env c = (case ci_cur c of Some d \<Rightarrow> Inr (d, c)
     | None \<Rightarrow> if en_alloc env then Inr (0, c\<lparr>ci_cur := Some 0\<rparr>) else Inl NullDeref)"

text \<open>\<open>DEV_TO_INDEX[*CUR_DEV]\<close> as the last argument.\<close>

definition on_cur_dev :: "'n client_env \<Rightarrow> (int \<Rightarrow> 'n client \<Rightarrow> 'a cres) \<Rightarrow> 'n client \<Rightarrow> 'a cres" where
  "on_cur_dev env f c = bindr (cur_dev env c) (\<lambda>(d, c).
     bindr (nthri (ci_index c) d) (\<lambda>idx. f idx c))"

definition cudaThreadExit :: "'n client_env \<Rightarrow> 'n client \<Rightarrow> (u32 \<times> 'n client) cres" where
  "cudaThreadExit env = on_cur_dev env (rcudaThreadExit env)"

definition cudaThreadSynchronize :: "'n client_env \<Rightarrow> 'n client \<Rightarrow> (u32 \<times> 'n client) cres" where
  "cudaThreadSynchronize env = on_cur_dev env (rcudaThreadSynchronize env)"

definition cudaGetLastError :: "'n client \<Rightarrow> u32" where
  "cudaGetLastError c = rcudaGetLastError c"

definition cudaGetDeviceCount :: "'n client \<Rightarrow> u32 \<times> int" where
  "cudaGetDeviceCount c = (cudaSuccess, ci_devices c)"

definition cudaGetDeviceProperties :: "'n client_env \<Rightarrow> u64 \<Rightarrow> nat \<Rightarrow> int \<Rightarrow> 'n client
    \<Rightarrow> (u32 \<times> byte list option \<times> 'n client) cres" where
  "cudaGetDeviceProperties env prop prop_size device c =
     bindr (nthri (ci_local c) device) (\<lambda>l. bindr (nthri (ci_index c) device) (\<lambda>idx.
     rcudaGetDeviceProperties env prop prop_size l idx c))"

text \<open>
  The device the application asks for is ignored: the scheduler's node, the entry
  \<open>MAX_BACKEND_NODES\<close> of the list of hosts, chooses one.
\<close>

definition cudaSetDevice :: "'n client_env \<Rightarrow> int \<Rightarrow> 'n client \<Rightarrow> (u32 \<times> 'n client) cres" where
  "cudaSetDevice env device c =
     bindr (cur_dev env c) (\<lambda>(d, c).
     bindr (rcudaGetDevice env (ci_devices c) MAX_BACKEND_NODES 0 c) (\<lambda>(e, drr, c).
     bindr (nthri (ci_local c) drr) (\<lambda>l. bindr (nthri (ci_index c) drr) (\<lambda>idx.
     bindr (rcudaSetDevice env l idx 0 c) (\<lambda>(ret, c).
     Inr (ret, if ret = cudaSuccess then c\<lparr>ci_cur := Some drr\<rparr> else c))))))"

definition cudaGetDevice :: "'n client_env \<Rightarrow> 'n client \<Rightarrow> (u32 \<times> int \<times> 'n client) cres" where
  "cudaGetDevice env c = bindr (cur_dev env c) (\<lambda>(d, c). Inr (cudaSuccess, d, c))"

definition cudaConfigureCall :: "'n client_env \<Rightarrow> u32 \<times> u32 \<times> u32 \<Rightarrow> u32 \<times> u32 \<times> u32 \<Rightarrow> u64 \<Rightarrow> u64
    \<Rightarrow> 'n client \<Rightarrow> (u32 \<times> 'n client) cres" where
  "cudaConfigureCall env gridDim blockDim sharedMem stream =
     on_cur_dev env (rcudaConfigureCall env gridDim blockDim sharedMem stream)"

definition cudaSetupArgument :: "'n client_env \<Rightarrow> u64 \<Rightarrow> u64 \<Rightarrow> u64 \<Rightarrow> 'n client
    \<Rightarrow> (u32 \<times> 'n client) cres" where
  "cudaSetupArgument env arg sz offset = on_cur_dev env (rcudaSetupArgument env arg sz offset)"

definition cudaLaunch :: "'n client_env \<Rightarrow> u64 \<Rightarrow> 'n client \<Rightarrow> (u32 \<times> 'n client) cres" where
  "cudaLaunch env entry = on_cur_dev env (rcudaLaunch env entry)"

definition cudaMalloc :: "'n client_env \<Rightarrow> u64 \<Rightarrow> u64 \<Rightarrow> u64 \<Rightarrow> 'n client
    \<Rightarrow> (u32 \<times> u64 \<times> 'n client) cres" where
  "cudaMalloc env devPtr old sz = on_cur_dev env (rcudaMalloc env devPtr old sz)"

definition cudaFree :: "'n client_env \<Rightarrow> u64 \<Rightarrow> 'n client \<Rightarrow> (u32 \<times> 'n client) cres" where
  "cudaFree env devPtr = on_cur_dev env (rcudaFree env devPtr)"

definition cudaMemcpy :: "'n client_env \<Rightarrow> u64 \<Rightarrow> u64 \<Rightarrow> u64 \<Rightarrow> int \<Rightarrow> 'n client
    \<Rightarrow> (u32 \<times> byte list option \<times> 'n client) cres" where
  "cudaMemcpy env dst src count kind = on_cur_dev env (rcudaMemcpy env dst src count kind)"

definition cudaMemcpyToSymbol :: "'n client_env \<Rightarrow> symbolp option \<Rightarrow> u64 \<Rightarrow> u64 \<Rightarrow> u64 \<Rightarrow> int
    \<Rightarrow> 'n client \<Rightarrow> (u32 \<times> 'n client) cres" where
  "cudaMemcpyToSymbol env symbol src count offset kind =
     on_cur_dev env (rcudaMemcpyToSymbol env symbol src count offset kind)"

definition cudaMemcpyFromSymbol :: "'n client_env \<Rightarrow> u64 \<Rightarrow> symbolp option \<Rightarrow> u64 \<Rightarrow> u64 \<Rightarrow> int
    \<Rightarrow> 'n client \<Rightarrow> (u32 \<times> byte list option \<times> 'n client) cres" where
  "cudaMemcpyFromSymbol env dst symbol count offset kind =
     on_cur_dev env (rcudaMemcpyFromSymbol env dst symbol count offset kind)"

text \<open>\<open>getcwd\<close> is taken over too: the size of its buffer is the share of the application.\<close>

definition getcwd :: "u64 \<Rightarrow> 'n client \<Rightarrow> 'n client" where
  "getcwd sz c = c\<lparr>ci_share := sint (ucast sz :: u32)\<rparr>"

section \<open>The configuration\<close>

definition remote_key :: "nat \<Rightarrow> string" where
  "remote_key i = ''network:remote'' @ digits i"

text \<open>
  The rows of \<open>BACKEND_LIST\<close> that are left bound the loop: when the configuration has more
  nodes than that, the next name is written behind the array. \<open>ini\<close> is the parsed file.
\<close>

primrec config_loop :: "(string \<Rightarrow> string option) \<Rightarrow> nat \<Rightarrow> nat \<Rightarrow> 'n client \<Rightarrow> 'n client cres" where
  "config_loop ini 0 i c = (if ini (remote_key i) = None then Inr c else Inl OutOfBounds)"
| "config_loop ini (Suc k) i c = (case ini (remote_key i) of None \<Rightarrow> Inr c
     | Some s \<Rightarrow> if HOSTNAME_STRLEN \<le> length s then Inl OutOfBounds else
         config_loop ini k (i + 1) (c\<lparr>ci_hosts := (ci_hosts c)[ci_nodes c := s],
           ci_first_node := (if s = ''localhost'' then ci_nodes c else ci_first_node c),
           ci_nodes := ci_nodes c + 1\<rparr>))"

definition l_getLocalFromConfig :: "(string \<Rightarrow> string option) option \<Rightarrow> 'n client \<Rightarrow> 'n client cres" where
  "l_getLocalFromConfig ini c = (if 0 < ci_done c then Inr c else
     (case ini of None \<Rightarrow> Inl ExitProc
      | Some f \<Rightarrow> bindr (config_loop f (nat (MAX_BACKEND_NODES + 1) - ci_nodes c) 0 c) (\<lambda>c.
          (case f ''scheduler:sched'' of None \<Rightarrow> Inl NullDeref
           | Some s \<Rightarrow> if HOSTNAME_STRLEN \<le> length s then Inl OutOfBounds
               else Inr (c\<lparr>ci_hosts := (ci_hosts c)[nat MAX_BACKEND_NODES := s], ci_done := 1\<rparr>)))))"

section \<open>The devices of all nodes\<close>

text \<open>\<open>for (; k < BACKEND_DEVICES; k++)\<close> for node \<open>i\<close>, whose devices start at \<open>base\<close>.\<close>

primrec dev_loop :: "nat \<Rightarrow> nat \<Rightarrow> int \<Rightarrow> nat \<Rightarrow> 'n client \<Rightarrow> 'n client cres" where
  "dev_loop 0 i base k c = Inr c"
| "dev_loop (Suc n) i base k c =
     bindr (updr (ci_index c) k (int i)) (\<lambda>ix. bindr (updr (ci_local c) k (int k - base)) (\<lambda>lc.
     dev_loop n i base (k + 1) (c\<lparr>ci_index := ix, ci_local := lc\<rparr>)))"

text \<open>\<open>for (i = 0; i < BACKEND_NODES; i++)\<close> from \<open>i\<close> with \<open>n\<close> nodes left.\<close>

primrec node_loop :: "'n client_env \<Rightarrow> nat \<Rightarrow> nat \<Rightarrow> nat \<Rightarrow> 'n client \<Rightarrow> 'n client cres" where
  "node_loop env 0 i k c = Inr c"
| "node_loop env (Suc n) i k c =
     bindr (nthr (ci_in_node c) i) (\<lambda>count.
     bindr (rcudaGetDeviceCount env count (int i) c) (\<lambda>(e, count, c).
     let c = c\<lparr>ci_in_node := (ci_in_node c)[i := count], ci_devices := ci_devices c + count\<rparr> in
     bindr (dev_loop (nat (ci_devices c - int k)) i (ci_devices c - count) k c) (\<lambda>c.
     node_loop env n (i + 1) (k + nat (ci_devices c - int k)) c)))"

text \<open>\<open>for (i = 1; i <= BACKEND_NODES; i++)\<close>.\<close>

primrec cumm_loop :: "nat \<Rightarrow> nat \<Rightarrow> 'n client \<Rightarrow> 'n client cres" where
  "cumm_loop 0 i c = Inr c"
| "cumm_loop (Suc n) i c =
     bindr (nthr (ci_cumm c) (i - 1)) (\<lambda>a. bindr (nthr (ci_in_node c) (i - 1)) (\<lambda>b.
     bindr (updr (ci_cumm c) i (a + b)) (\<lambda>cu. cumm_loop n (i + 1) (c\<lparr>ci_cumm := cu\<rparr>))))"

definition find_devices :: "'n client_env \<Rightarrow> 'n client \<Rightarrow> 'n client cres" where
  "find_devices env c =
     bindr (node_loop env (ci_nodes c) 0 0 c) (\<lambda>c.
     bindr (cumm_loop (ci_nodes c) 1 c) (\<lambda>c.
     bindr (nthr (ci_cumm c) (ci_first_node c)) (\<lambda>l.
     Inr (c\<lparr>ci_first_local := l, ci_done := 2\<rparr>))))"

section \<open>Registration at every node\<close>

text \<open>What \<open>fatC\<close> points to, as its magic number says.\<close>

datatype fat_image = Fat32 cudaFatCudaBinary | Fat40 cudaFatCudaBinary2 | OtherFat

text \<open>The packed bytes are the request data; \<open>bytes_at\<close> is the memory with only them.\<close>

definition bytes_at :: "byte list \<Rightarrow> u64 \<Rightarrow> byte list option" where
  "bytes_at b a = Some b"

definition register_packed :: "'n client_env \<Rightarrow> byte list \<Rightarrow> int \<Rightarrow> int \<Rightarrow> 'n client
    \<Rightarrow> (u64 \<times> 'n client) cres" where
  "register_packed env b n idx c =
     bindr (remote_call env (method_num CUDA_REGISTER_FAT_BINARY)
       (\<lambda>p. p\<lparr>pk_flags := or (pk_flags p) CUDA_Copytype, pk_arg0 := set_argp (en_buf env) (pk_arg0 p),
          pk_arg1 := set_argi n (pk_arg1 p)\<rparr>)
       (no_rsp (nvback_cudaRegisterFatBinary_rpc (en_rpc env idx) (bytes_at b)))
       (\<lambda>r p. if r \<noteq> OK then cudaErrorUnknown else ci_err c) c) (\<lambda>(x, c).
     (case x of None \<Rightarrow> Inl ExitProc
      | Some (r, p, rsp) \<Rightarrow> Inr (if r \<noteq> OK then 0 else pk_ret_ex_val p, c)))"

text \<open>Size, allocation and packing, each failure being the end of the process.\<close>

definition pack_fat :: "'n client_env \<Rightarrow> (int \<times> cache_num_entries) cres
    \<Rightarrow> (cache_num_entries \<Rightarrow> packer) \<Rightarrow> (byte list \<times> int) cres" where
  "pack_fat env szr pack = bindr szr (\<lambda>(n, cache).
     (case en_malloc env n of None \<Rightarrow> Inl ExitProc
      | Some b \<Rightarrow> bindr (pack cache b (Some 0)) (\<lambda>(b', off).
          if off = ERROR then Inl ExitProc else Inr (b', n))))"

definition r_cudaRegisterFatBinary :: "'n client_env \<Rightarrow> cudaFatCudaBinary \<Rightarrow> int \<Rightarrow> 'n client
    \<Rightarrow> (u64 \<times> 'n client) cres" where
  "r_cudaRegisterFatBinary env f idx c = (if \<not> en_alloc env then Inl ExitProc else
     bindr (pack_fat env (getFatRecPktSize f) (packFatBinary f)) (\<lambda>(b, n).
       register_packed env b n idx c))"

definition r_cudaRegisterFatBinary_4 :: "'n client_env \<Rightarrow> cudaFatCudaBinary2 \<Rightarrow> int \<Rightarrow> 'n client
    \<Rightarrow> (u64 \<times> 'n client) cres" where
  "r_cudaRegisterFatBinary_4 env f idx c = (if \<not> en_alloc env then Inl ExitProc else
     bindr (pack_fat env (getFatRecPktSize_4 f) (packFatBinary_4 f)) (\<lambda>(b, n).
       register_packed env b n idx c))"

definition handle_at :: "'n client \<Rightarrow> int \<Rightarrow> u64 cres" where
  "handle_at c idx = bindr (nthri (ci_handles c) (ci_counter c - 1)) (\<lambda>row. nthri row idx)"

definition set_handle :: "'n client \<Rightarrow> nat \<Rightarrow> u64 \<Rightarrow> 'n client cres" where
  "set_handle c idx h = bindr (nthri (ci_handles c) (ci_counter c - 1)) (\<lambda>row.
     bindr (updr row idx h) (\<lambda>row'.
     Inr (c\<lparr>ci_handles := (ci_handles c)[nat (ci_counter c - 1) := row']\<rparr>)))"

text \<open>\<open>while (index < BACKEND_NODES)\<close> from \<open>index\<close> with \<open>k\<close> nodes left.\<close>

primrec all_nodes :: "(nat \<Rightarrow> 'n client \<Rightarrow> 'n client cres) \<Rightarrow> nat \<Rightarrow> nat \<Rightarrow> 'n client \<Rightarrow> 'n client cres" where
  "all_nodes f 0 idx c = Inr c"
| "all_nodes f (Suc k) idx c = bindr (f idx c) (\<lambda>c. all_nodes f k (idx + 1) c)"

text \<open>The value that is returned to the application, \<open>ret\<close>, is never set; nothing uses it.\<close>

definition cudaRegisterFatBinary :: "'n client_env \<Rightarrow> (string \<Rightarrow> string option) option \<Rightarrow> fat_image
    \<Rightarrow> 'n client \<Rightarrow> 'n client cres" where
  "cudaRegisterFatBinary env ini fatC c =
     bindr (l_getLocalFromConfig ini c) (\<lambda>c.
     bindr (if ci_done c = 1 then find_devices env c else Inr c) (\<lambda>c.
     let c = c\<lparr>ci_counter := ci_counter c + 1\<rparr> in
     (case fatC of OtherFat \<Rightarrow> Inr c
      | Fat32 f \<Rightarrow> all_nodes (\<lambda>i c. bindr (r_cudaRegisterFatBinary env f (int i) c)
          (\<lambda>(h, c). set_handle c i h)) (ci_nodes c) 0 c
      | Fat40 f \<Rightarrow> all_nodes (\<lambda>i c. bindr (r_cudaRegisterFatBinary_4 env f (int i) c)
          (\<lambda>(h, c). set_handle c i h)) (ci_nodes c) 0 c)))"

definition r_cudaUnregisterFatBinary :: "'n client_env \<Rightarrow> u64 \<Rightarrow> int \<Rightarrow> 'n client \<Rightarrow> 'n client cres" where
  "r_cudaUnregisterFatBinary env h idx c =
     bindr (remote_call env (method_num CUDA_UNREGISTER_FAT_BINARY)
       (\<lambda>p. p\<lparr>pk_arg0 := set_argp h (pk_arg0 p)\<rparr>)
       (no_rsp (nvback_cudaUnregisterFatBinary_rpc (en_rpc env idx)))
       (\<lambda>r p. if r = ERROR then cudaErrorUnknown else ci_err c) c) (\<lambda>(x, c).
     (case x of None \<Rightarrow> Inl ExitProc
      | Some (r, p, rsp) \<Rightarrow> Inr (if r = ERROR then c else c\<lparr>ci_vars := None\<rparr>)))"

definition cudaUnregisterFatBinary :: "'n client_env \<Rightarrow> 'n client \<Rightarrow> 'n client cres" where
  "cudaUnregisterFatBinary env c =
     bindr (all_nodes (\<lambda>i c. bindr (handle_at c (int i)) (\<lambda>h.
         r_cudaUnregisterFatBinary env h (int i) c)) (ci_nodes c) 0 c) (\<lambda>c.
     Inr (c\<lparr>ci_counter := ci_counter c - 1\<rparr>))"

definition r_cudaRegisterFunction :: "'n client_env \<Rightarrow> reg_func \<Rightarrow> int \<Rightarrow> 'n client \<Rightarrow> 'n client cres" where
  "r_cudaRegisterFunction env a idx c = (if \<not> en_alloc env then Inl ExitProc else
     bindr (packRegFuncArgs (en_malloc env) a) (\<lambda>(b, n).
     (case b of None \<Rightarrow> Inl ExitProc
      | Some b \<Rightarrow> bindr (remote_call env (method_num CUDA_REGISTER_FUNCTION)
          (\<lambda>p. p\<lparr>pk_flags := or (pk_flags p) CUDA_Copytype,
             pk_arg0 := set_argp (en_buf env) (pk_arg0 p), pk_arg1 := set_argi n (pk_arg1 p)\<rparr>)
          (no_rsp (nvback_cudaRegister_rpc (en_rpc env idx) (bytes_at b))) sync_err c)
          (\<lambda>(x, c). Inr c))))"

definition cudaRegisterFunction :: "'n client_env \<Rightarrow> reg_func \<Rightarrow> 'n client \<Rightarrow> 'n client cres" where
  "cudaRegisterFunction env a c = all_nodes (\<lambda>i c. bindr (handle_at c (int i)) (\<lambda>h.
     r_cudaRegisterFunction env (a\<lparr>rf_fatCubinHandle := h\<rparr>) (int i) c)) (ci_nodes c) 0 c"

definition r_cudaRegisterVar :: "'n client_env \<Rightarrow> reg_var \<Rightarrow> int \<Rightarrow> 'n client \<Rightarrow> 'n client cres" where
  "r_cudaRegisterVar env a idx c = (if \<not> en_alloc env then Inl ExitProc else
     bindr (packRegVar (en_malloc env) a) (\<lambda>(b, n).
     (case b of None \<Rightarrow> Inl ExitProc
      | Some b \<Rightarrow> if rv_fatCubinHandle a = 0 then Inl AssertFail else
          bindr (remote_call env (method_num CUDA_REGISTER_VARIABLE)
            (\<lambda>p. p\<lparr>pk_flags := or (pk_flags p) CUDA_Copytype,
               pk_arg0 := set_argp (en_buf env) (pk_arg0 p), pk_arg1 := set_argi n (pk_arg1 p)\<rparr>)
            (no_rsp (nvback_cudaRegister_rpc (en_rpc env idx) (bytes_at b))) sync_err c) (\<lambda>(x, c).
          let tab = (case ci_vars c of None \<Rightarrow> [] | Some t \<Rightarrow> t) in
          Inr (c\<lparr>ci_vars := Some (fst (g_vars_insert tab (rv_fatCubinHandle a)
            (Some (g_vars_val_new (rv_hostVar a) (rv_deviceName a)))))\<rparr>)))))"

definition cudaRegisterVar :: "'n client_env \<Rightarrow> reg_var \<Rightarrow> 'n client \<Rightarrow> 'n client cres" where
  "cudaRegisterVar env a c = all_nodes (\<lambda>i c. bindr (handle_at c (int i)) (\<lambda>h.
     r_cudaRegisterVar env (a\<lparr>rv_fatCubinHandle := h\<rparr>) (int i) c)) (ci_nodes c) 0 c"

end
