(* ===== verification/App_Stack.thy ===== *)
theory App_Stack
  imports Interposer Remote_Properties
begin

text \<open>
  The whole path of a CUDA call: the interposed function of the application, the connection to
  the node of its device, the loop of the backend there, the handler and back. The interface
  between the application's side and the rest is the locale \<open>remote_gpu\<close>: a remote call that
  delivers. The network of backends below provides it.
\<close>

section \<open>The interface\<close>

text \<open>
  \<open>up net st\<close>: the network can carry a call and the backend behind it is in the state \<open>st\<close>;
  \<open>exec\<close> is what the backend does with a packet and its data.
\<close>

locale remote_gpu =
  fixes rpc :: "'n rpc"
    and exec :: "cuda_packet \<Rightarrow> byte list \<Rightarrow> 'b \<Rightarrow> (cuda_packet \<times> srv_conn \<times> 'b) cres"
    and up :: "'n \<Rightarrow> 'b \<Rightarrow> bool"
  assumes deliver: "\<lbrakk>up net st; req_fits reqbuf n d; exec p d st = Inr (p', sc', st');
      rsp_fits rspbuf rn sc'\<rbrakk> \<Longrightarrow>
    \<exists>net'. rpc p reqbuf n rspbuf rn net =
        Inr (if method_expects_response (pk_method_id p)
             then (p'\<lparr>pk_vmmap := 0, pk_kmap := 0\<rparr>, rsp_stored rspbuf sc', net')
             else (p, rspbuf, net')) \<and> up net' st'"

section \<open>The packets of the application\<close>

definition call_packet :: "'n client_env \<Rightarrow> u16 \<Rightarrow> cuda_packet" where
  "call_packet env m = set_err cudaErrorUnknown
     (zero_packet\<lparr>pk_method_id := m, pk_thr_id := en_thread env, pk_flags := CUDA_request\<rparr>)"

lemma call_packet_sel [simp]:
  "pk_method_id (call_packet env m) = m" "pk_arg0 (call_packet env m) = zero_args"
  "pk_arg1 (call_packet env m) = zero_args" "pk_arg2 (call_packet env m) = zero_args"
  "pk_arg3 (call_packet env m) = zero_args"
  by (simp_all add: call_packet_def set_err_def zero_packet_def)

lemma remote_call_alloc:
  "en_alloc env \<Longrightarrow> remote_call env m fill send err c =
     bindr (send (fill (call_packet env m)) (ci_net c)) (\<lambda>(r, p, rsp, net).
       Inr (Some (r, p, rsp), c\<lparr>ci_err := err r p, ci_net := net\<rparr>))"
  by (simp add: remote_call_def l_remoteInitMetThrReq_def callocCudaPacket_def call_packet_def)

definition copy_packet :: "'n client_env \<Rightarrow> method_id \<Rightarrow> u64 \<Rightarrow> u64 \<Rightarrow> nat \<Rightarrow> int \<Rightarrow> cuda_packet" where
  "copy_packet env f dst src n kind = (call_packet env (method_num f))\<lparr>
     pk_arg0 := set_argp dst zero_args, pk_arg1 := set_argp src zero_args,
     pk_arg2 := set_argp (word_of_nat n) zero_args, pk_arg3 := set_argi kind zero_args,
     pk_flags := or CUDA_request CUDA_Copytype\<rparr>"

lemma copy_packet_sel [simp]:
  "pk_method_id (copy_packet env f dst src n kind) = method_num f"
  "arg_lo (pk_arg0 (copy_packet env f dst src n kind)) = dst"
  "arg_lo (pk_arg1 (copy_packet env f dst src n kind)) = src"
  "arg_lo (pk_arg2 (copy_packet env f dst src n kind)) = word_of_nat n"
  by (simp_all add: copy_packet_def set_argp_def)

definition malloc_packet :: "'n client_env \<Rightarrow> u64 \<Rightarrow> u64 \<Rightarrow> cuda_packet" where
  "malloc_packet env devPtr sz = (call_packet env (method_num CUDA_MALLOC))\<lparr>
     pk_arg0 := set_argp devPtr zero_args, pk_arg1 := set_argp sz zero_args\<rparr>"

lemma expects_copies [simp]:
  "method_expects_response (method_num CUDA_MEMCPY_H2D)"
  "method_expects_response (method_num CUDA_MEMCPY_D2H)"
  "method_expects_response (method_num CUDA_MALLOC)"
  "method_expects_response (method_num CUDA_GET_DEVICE_COUNT)"
  by (simp_all add: method_expects_response_def sync_methods_def)

lemma pkt_err_cleared [simp]: "pkt_err (p\<lparr>pk_vmmap := v, pk_kmap := k\<rparr>) = pkt_err p"
  by (simp add: pkt_err_def)

lemma count_int [simp]: "n < 2 ^ 31 \<Longrightarrow>
    sint (ucast (word_of_nat n :: u64) :: u32) = int n"
  using argn_of_nat(1) [of "set_argp (word_of_nat n) zero_args" n]
  by (simp add: argn_def set_argp_def)

lemma set_argp_lo [simp]: "arg_lo (set_argp v a) = v"
  by (simp add: set_argp_def)

lemma kind_int [simp]:
  "argi (set_argi 1 zero_args) = 1" "argi (set_argi 2 zero_args) = 2"
  by (simp_all add: argi_def set_argi_def)

section \<open>Calls over the interface\<close>

context remote_gpu begin

text \<open>A copy to the device: the data arrives with the packet, the error code comes back.\<close>

lemma rcudaMemcpy_h2d:
  assumes env: "en_rpc env idx = rpc" "en_alloc env" "en_mem env src = Some d"
    and up: "up (ci_net c) st" and d: "d \<noteq> []" "length d < 2 ^ 31"
    and exec: "exec (copy_packet env CUDA_MEMCPY_H2D dst src (length d) 1) d st = Inr (p', conn_req d, st')"
    and err: "pkt_err p' = cudaSuccess"
  shows "\<exists>net'. rcudaMemcpy env dst src (word_of_nat (length d)) 1 idx c
    = Inr (cudaSuccess, None, c\<lparr>ci_err := cudaSuccess, ci_net := net'\<rparr>) \<and> up net' st'"
proof -
  let ?p = "copy_packet env CUDA_MEMCPY_H2D dst src (length d) 1"
  have f: "req_fits (Some d) (int (length d)) d" "rsp_fits None 0 (conn_req d)"
    using d by (simp_all add: req_fits_def rsp_fits_def rsp_ok_def)
  obtain net' where r: "rpc ?p (Some d) (int (length d)) None 0 (ci_net c)
      = Inr (p'\<lparr>pk_vmmap := 0, pk_kmap := 0\<rparr>, None, net')" "up net' st'"
    using deliver [OF up f(1) exec f(2)] by (auto simp: rsp_stored_def)
  have p: "(call_packet env (- 1))\<lparr>pk_arg0 := set_argp dst zero_args,
      pk_arg1 := set_argp src zero_args, pk_arg2 := set_argp (word_of_nat (length d)) zero_args,
      pk_arg3 := set_argi 1 zero_args, pk_flags := or (pk_flags (call_packet env (- 1))) CUDA_Copytype,
      pk_method_id := method_num CUDA_MEMCPY_H2D\<rparr> = ?p"
    by (simp add: copy_packet_def call_packet_def set_err_def zero_packet_def)
  show ?thesis
    using r err d(2) p env
    by (intro exI [of _ net']) (simp add: rcudaMemcpy_def remote_call_alloc nvbackCudaMemcpy_rpc_def
        Let_def err_status_def sync_err_def)
qed

text \<open>A copy from the device: the buffer of the caller is overwritten from its start.\<close>

lemma rcudaMemcpy_d2h:
  assumes env: "en_rpc env idx = rpc" "en_alloc env" "en_mem env dst = Some buf"
    and up: "up (ci_net c) st" and m: "length b = m" "m \<le> length buf" "m < 2 ^ 31"
    and exec: "exec (copy_packet env CUDA_MEMCPY_D2H dst src m 2) [] st = Inr (p',
      (conn_req [])\<lparr>sc_response_data_size := int m, sc_pRspBuffer := Some b\<rparr>, st')"
    and err: "pkt_err p' = cudaSuccess"
  shows "\<exists>net'. rcudaMemcpy env dst src (word_of_nat m) 2 idx c
    = Inr (cudaSuccess, Some (b @ drop m buf), c\<lparr>ci_err := cudaSuccess, ci_net := net'\<rparr>) \<and> up net' st'"
proof -
  let ?p = "copy_packet env CUDA_MEMCPY_D2H dst src m 2"
  let ?sc = "(conn_req [])\<lparr>sc_response_data_size := int m, sc_pRspBuffer := Some b\<rparr>"
  have f: "req_fits None 0 []" "rsp_fits (Some buf) (int m) ?sc"
    using m by (simp_all add: req_fits_def rsp_fits_def rsp_ok_def)
  have "rsp_stored (Some buf) ?sc = Some (b @ drop m buf)" using m by (auto simp: rsp_stored_def)
  then obtain net' where r: "rpc ?p None 0 (Some buf) (int m) (ci_net c)
      = Inr (p'\<lparr>pk_vmmap := 0, pk_kmap := 0\<rparr>, Some (b @ drop m buf), net')" "up net' st'"
    using deliver [OF up f(1) exec f(2)] by auto
  have p: "(call_packet env (- 1))\<lparr>pk_arg0 := set_argp dst zero_args,
      pk_arg1 := set_argp src zero_args, pk_arg2 := set_argp (word_of_nat m) zero_args,
      pk_arg3 := set_argi 2 zero_args, pk_flags := or (pk_flags (call_packet env (- 1))) CUDA_Copytype,
      pk_method_id := method_num CUDA_MEMCPY_D2H\<rparr> = ?p"
    by (simp add: copy_packet_def call_packet_def set_err_def zero_packet_def)
  show ?thesis
    using r err m(3) p env
    by (intro exI [of _ net']) (simp add: rcudaMemcpy_def remote_call_alloc nvbackCudaMemcpy_rpc_def
        Let_def err_status_def sync_err_def)
qed

text \<open>An allocation: the application gets the pointer that comes back in the packet.\<close>

lemma rcudaMalloc_returns:
  assumes env: "en_rpc env idx = rpc" "en_alloc env" and up: "up (ci_net c) st"
    and exec: "exec (malloc_packet env devPtr sz) [] st = Inr (p', conn_req [], st')"
    and err: "pkt_err p' = cudaSuccess"
  shows "\<exists>net'. rcudaMalloc env devPtr old sz idx c
    = Inr (cudaSuccess, arg_lo (pk_arg0 p'), c\<lparr>ci_err := cudaSuccess, ci_net := net'\<rparr>) \<and> up net' st'"
proof -
  let ?p = "malloc_packet env devPtr sz"
  have f: "req_fits None 0 []" "rsp_fits None 0 (conn_req [])"
    by (simp_all add: req_fits_def rsp_fits_def rsp_ok_def)
  have m: "pk_method_id ?p = method_num CUDA_MALLOC" by (simp add: malloc_packet_def)
  obtain net' where r: "rpc ?p None 0 None 0 (ci_net c)
      = Inr (p'\<lparr>pk_vmmap := 0, pk_kmap := 0\<rparr>, None, net')" "up net' st'"
    using deliver [OF up f(1) exec f(2)] m by (auto simp: rsp_stored_def)
  show ?thesis
    using r err env
    by (intro exI [of _ net']) (simp add: rcudaMalloc_def remote_call_alloc nvbackCudaMalloc_rpc_def
        sync_rpc_def no_rsp_def malloc_packet_def err_status_def)
qed

text \<open>The number of devices of the node.\<close>

lemma rcudaGetDeviceCount_returns:
  assumes env: "en_rpc env idx = rpc" "en_alloc env" and up: "up (ci_net c) st"
    and exec: "exec (call_packet env (method_num CUDA_GET_DEVICE_COUNT)) [] st = Inr (p', conn_req [], st')"
    and err: "pkt_err p' = cudaSuccess"
  shows "\<exists>net'. rcudaGetDeviceCount env count idx c = Inr (cudaSuccess,
      sint (ucast (arg_lo (pk_arg0 p')) :: u32), c\<lparr>ci_err := cudaSuccess, ci_net := net'\<rparr>) \<and> up net' st'"
proof -
  let ?p = "call_packet env (method_num CUDA_GET_DEVICE_COUNT)"
  have f: "req_fits None 0 []" "rsp_fits None 0 (conn_req [])"
    by (simp_all add: req_fits_def rsp_fits_def rsp_ok_def)
  obtain net' where r: "rpc ?p None 0 None 0 (ci_net c)
      = Inr (p'\<lparr>pk_vmmap := 0, pk_kmap := 0\<rparr>, None, net')" "up net' st'"
    using deliver [OF up f(1) exec f(2)] by (auto simp: rsp_stored_def)
  show ?thesis
    using r err env
    by (intro exI [of _ net']) (simp add: rcudaGetDeviceCount_def remote_call_alloc
        nvbackCudaGetDeviceCount_rpc_def sync_rpc_def no_rsp_def err_status_def sync_err_def)
qed

end

section \<open>The network of backends\<close>

text \<open>
  A node as the application sees it: its connection and the ends of the two streams, and the
  state of the backend process that serves the application there, \<open>None\<close> after it has died.
\<close>

record 'g node =
  nd_conn :: connection
  nd_cli :: sock
  nd_srv :: sock
  nd_st :: "'g backend_st option"

text \<open>What is fixed: the system calls, the environment of the handlers, the addresses of the maps.\<close>

record 'g world =
  wo_send :: xfer
  wo_recv :: xfer
  wo_bsend :: xfer
  wo_brecv :: xfer
  wo_fd :: int
  wo_env :: "'g srv_env"
  wo_vm :: u64
  wo_km :: u64
  wo_hosts :: "string list"
  wo_connect :: connect_env

definition node_serve :: "'g world \<Rightarrow> 'g backend_st \<Rightarrow> sock \<Rightarrow> (bool \<times> 'g backend_st \<times> sock) cres" where
  "node_serve w = backend_serve (wo_bsend w) (wo_brecv w) (wo_fd w) (\<lambda>n. True)
     (srv_handlers (wo_env w)) (wo_vm w) (wo_km w)"

text \<open>What the backend has become after it has served the bytes the client sent.\<close>

definition node_after :: "'g world \<Rightarrow> 'g node \<Rightarrow> sock \<Rightarrow> 'g backend_st option" where
  "node_after w nd cli = (case nd_st nd of None \<Rightarrow> None
     | Some st \<Rightarrow> (case node_serve w st ((nd_srv nd)\<lparr>sk_in := drop (length (sk_out (nd_cli nd))) (sk_out cli)\<rparr>) of
         Inl f \<Rightarrow> None | Inr (go, st', t) \<Rightarrow> if go then Some st' else None))"

definition node_peer :: "'g world \<Rightarrow> 'g node \<Rightarrow> sock \<Rightarrow> sock" where
  "node_peer w nd = (case nd_st nd of None \<Rightarrow> (\<lambda>s. s)
     | Some st \<Rightarrow> served_by (node_serve w st) (nd_srv nd) (nd_cli nd))"

definition stack_rpc :: "'g world \<Rightarrow> nat \<Rightarrow> 'g node list rpc" where
  "stack_rpc w i p req n rsp rn net =
     bindr (nthr net i) (\<lambda>nd. bindr (nthr (wo_hosts w) i) (\<lambda>host.
     bindr (l_do_cuda_rpc (wo_send w) (wo_recv w) (node_peer w nd) host (int i) (wo_connect w)
         (nd_conn nd) p req n rsp rn (nd_cli nd)) (\<lambda>(r, conn, p, rsp, s).
     Inr (p, rsp, net[i := nd\<lparr>nd_conn := conn, nd_cli := s, nd_st := node_after w nd s\<rparr>]))))"

definition world_ok :: "'g world \<Rightarrow> bool" where
  "world_ok w \<longleftrightarrow> xfer_ok (wo_send w) \<and> xfer_ok (wo_recv w) \<and> xfer_ok (wo_bsend w)
     \<and> xfer_ok (wo_brecv w) \<and> 0 \<le> wo_fd w"

definition node_up :: "'g world \<Rightarrow> nat \<Rightarrow> 'g node list \<Rightarrow> 'g backend_st \<Rightarrow> bool" where
  "node_up w i net st \<longleftrightarrow> world_ok w \<and> i < length net \<and> i < length (wo_hosts w)
     \<and> cn_valid (nd_conn (net ! i)) \<noteq> 0 \<and> 0 \<le> cn_socket (nd_conn (net ! i)) \<and> nd_st (net ! i) = Some st"

lemma stack_delivers:
  assumes up: "node_up w i net st" and fits: "req_fits reqbuf n d" "rsp_fits rspbuf rn sc'"
    and exec: "executed (wo_env w) (wo_vm w) (wo_km w) p d st = Inr (p', sc', st')"
  shows "\<exists>net'. stack_rpc w i p reqbuf n rspbuf rn net =
      Inr (if method_expects_response (pk_method_id p)
           then (p'\<lparr>pk_vmmap := 0, pk_kmap := 0\<rparr>, rsp_stored rspbuf sc', net')
           else (p, rspbuf, net')) \<and> node_up w i net' st'"
proof -
  have w: "xfer_ok (wo_send w)" "xfer_ok (wo_recv w)" "xfer_ok (wo_bsend w)" "xfer_ok (wo_brecv w)"
    "0 \<le> wo_fd w" and i: "i < length net" "i < length (wo_hosts w)"
    and nd: "cn_valid (nd_conn (net ! i)) \<noteq> 0" "0 \<le> cn_socket (nd_conn (net ! i))"
      "nd_st (net ! i) = Some st"
    using up by (auto simp: node_up_def world_ok_def)
  let ?nd = "net ! i" let ?t = "nd_srv ?nd\<lparr>sk_in := request_bytes p d\<rparr>"
  let ?go = "\<lambda>s. l_do_cuda_rpc (wo_send w) (wo_recv w) (node_peer w ?nd) (wo_hosts w ! i) (int i)
    (wo_connect w) (nd_conn ?nd) p reqbuf n rspbuf rn s"
  let ?out = "\<lambda>s. if method_expects_response (pk_method_id p)
    then (OK, nd_conn ?nd, p'\<lparr>pk_vmmap := 0, pk_kmap := 0\<rparr>, rsp_stored rspbuf sc', s)
    else (OK, nd_conn ?nd, p, rspbuf, s)"
  obtain s' t' where r: "?go (nd_cli ?nd) = Inr (?out s')"
      "sk_out s' = sk_out (nd_cli ?nd) @ request_bytes p d"
    and t: "node_serve w st ?t = Inr (True, st', t')"
    using rpc_serves [OF w(1-4) nd(1,2) w(5) _ fits exec, where mok = "\<lambda>n. True"
        and t = "nd_srv ?nd" and s = "nd_cli ?nd"] nd(3)
    unfolding node_serve_def node_peer_def by fastforce
  have a: "node_after w ?nd s' = Some st'" using t r(2) nd(3) by (simp add: node_after_def)
  let ?net = "net[i := ?nd\<lparr>nd_conn := nd_conn ?nd, nd_cli := s', nd_st := Some st'\<rparr>]"
  have "node_up w i ?net st'" using up i nd by (simp add: node_up_def)
  then show ?thesis
    using i r(1) a by (intro exI [of _ ?net]) (auto simp: stack_rpc_def)
qed

interpretation stack: remote_gpu "stack_rpc w i"
  "executed (wo_env w) (wo_vm w) (wo_km w)" "node_up w i" for w i
  by unfold_locales (rule stack_delivers)

text \<open>A call touches no other node; the same contract with this in it.\<close>

definition only_node :: "nat \<Rightarrow> 'g node list \<Rightarrow> 'g node list \<Rightarrow> bool" where
  "only_node i net0 net \<longleftrightarrow> length net = length net0 \<and> (\<forall>j. j \<noteq> i \<longrightarrow> net ! j = net0 ! j)"

lemma only_node_refl [simp]: "only_node i net net"
  by (simp add: only_node_def)

lemma stack_rpc_frame:
  "stack_rpc w i p req n rsp rn net = Inr (p', rsp', net') \<Longrightarrow> only_node i net net'"
  by (auto simp: stack_rpc_def bindr_eq_Inr_iff only_node_def)

lemma stack_delivers_framed:
  assumes up: "node_up w i net st \<and> only_node i net0 net"
    and fits: "req_fits reqbuf n d" "rsp_fits rspbuf rn sc'"
    and exec: "executed (wo_env w) (wo_vm w) (wo_km w) p d st = Inr (p', sc', st')"
  shows "\<exists>net'. stack_rpc w i p reqbuf n rspbuf rn net =
      Inr (if method_expects_response (pk_method_id p)
           then (p'\<lparr>pk_vmmap := 0, pk_kmap := 0\<rparr>, rsp_stored rspbuf sc', net')
           else (p, rspbuf, net')) \<and> node_up w i net' st' \<and> only_node i net0 net'"
proof -
  obtain net' where r: "stack_rpc w i p reqbuf n rspbuf rn net =
      Inr (if method_expects_response (pk_method_id p)
           then (p'\<lparr>pk_vmmap := 0, pk_kmap := 0\<rparr>, rsp_stored rspbuf sc', net')
           else (p, rspbuf, net'))" "node_up w i net' st'"
    using stack_delivers [OF _ fits exec] up by blast
  then have "only_node i net net'"
    using stack_rpc_frame [of w i p reqbuf n rspbuf rn net] by (auto split: if_splits)
  then have "only_node i net0 net'" using up by (auto simp: only_node_def)
  then show ?thesis using r by blast
qed

interpretation framed: remote_gpu "stack_rpc w i"
  "executed (wo_env w) (wo_vm w) (wo_km w)"
  "\<lambda>net st. node_up w i net st \<and> only_node i net0 net" for w i net0
  by unfold_locales (rule stack_delivers_framed)

end
