(* ===== verification/App_Properties.thy ===== *)
theory App_Properties
  imports App_Stack
begin

text \<open>
  What the application gets from its CUDA calls when they go through the interposer, the
  connection and the handlers of the backend: copies, allocations and the table of devices.
\<close>

section \<open>The handlers under the dispatch\<close>

lemma executed_memcpy:
  assumes "pk_method_id p = method_num CUDA_MEMCPY_H2D \<or> pk_method_id p = method_num CUDA_MEMCPY_D2H"
    and "nvbackCudaMemcpy_srv env (p\<lparr>pk_is_feedback_packet := 0, pk_vmmap := vm, pk_kmap := km\<rparr>)
      (conn_req d) st = Inr (r, p', sc', st')"
  shows "executed env vm km p d st = Inr (p', sc', st')"
  using assms by (auto simp: executed_def pkt_execute_def pkt_handler_def srv_handlers_def
      srv_handler_def)

lemma executed_memcpy_fault:
  assumes "pk_method_id p = method_num CUDA_MEMCPY_H2D"
    and "nvbackCudaMemcpy_srv env (p\<lparr>pk_is_feedback_packet := 0, pk_vmmap := vm, pk_kmap := km\<rparr>)
      (conn_req d) st = Inl f"
  shows "executed env vm km p d st = Inl f"
  using assms by (simp add: executed_def pkt_execute_def pkt_handler_def srv_handlers_def
      srv_handler_def)

lemma executed_malloc:
  assumes "pk_method_id p = method_num CUDA_MALLOC"
    and "nvbackCudaMalloc_srv env (p\<lparr>pk_is_feedback_packet := 0, pk_vmmap := vm, pk_kmap := km\<rparr>)
      (conn_req d) st = Inr (r, p', sc', st')"
  shows "executed env vm km p d st = Inr (p', sc', st')"
  using assms by (simp add: executed_def pkt_execute_def pkt_handler_def srv_handlers_def
      srv_handler_def)

lemma executed_count:
  assumes "pk_method_id p = method_num CUDA_GET_DEVICE_COUNT"
    and "nvbackCudaGetDeviceCount_srv env (p\<lparr>pk_is_feedback_packet := 0, pk_vmmap := vm, pk_kmap := km\<rparr>)
      (conn_req d) st = Inr (r, p', sc', st')"
  shows "executed env vm km p d st = Inr (p', sc', st')"
  using assms by (simp add: executed_def pkt_execute_def pkt_handler_def srv_handlers_def
      srv_handler_def)

text \<open>The current device of the application is on node \<open>i\<close>, which the network leads to.\<close>

definition app_on :: "'g node list client_env \<Rightarrow> 'g world \<Rightarrow> nat \<Rightarrow> 'g node list client \<Rightarrow> bool" where
  "app_on env w i c \<longleftrightarrow> en_alloc env \<and> en_rpc env (int i) = stack_rpc w i
     \<and> (\<exists>dev. ci_cur c = Some (int dev) \<and> dev < length (ci_index c) \<and> ci_index c ! dev = int i)"

lemma on_cur_dev_app:
  assumes "app_on env w i c"
  shows "on_cur_dev env f c = f (int i) c"
  using assms by (auto simp: app_on_def on_cur_dev_def cur_dev_def)

lemma app_on_kept [simp]:
  "app_on env w i (c\<lparr>ci_err := e, ci_net := net\<rparr>) = app_on env w i c"
  by (simp add: app_on_def)

section \<open>A concrete system\<close>

text \<open>One node with a small device, its backend having the objects of \<open>demo_st\<close>.\<close>

definition demo_world :: "byte list option world" where
  "demo_world = \<lparr>wo_send = (\<lambda>k n. 1), wo_recv = (\<lambda>k n. int n), wo_bsend = (\<lambda>k n. 1),
     wo_brecv = (\<lambda>k n. int n), wo_fd = 4, wo_env = demo_srv, wo_vm = 0x100,
     wo_km = 0x200, wo_hosts = [''n0''], wo_connect = demo_env 0\<rparr>"

definition demo_net :: "'g backend_st \<Rightarrow> 'g node list" where
  "demo_net st = [\<lparr>nd_conn = blank_conn\<lparr>cn_valid := 1\<rparr>, nd_cli = idle [], nd_srv = idle [],
     nd_st = Some st\<rparr>]"

definition demo_client :: "'n \<Rightarrow> 'n client" where
  "demo_client net = \<lparr>ci_err = 0, ci_cur = Some 0, ci_nodes = 1, ci_devices = 0, ci_hosts = [],
     ci_in_node = [0], ci_index = [0, 0, 0], ci_local = [0, 0, 0], ci_cumm = [0, 0],
     ci_first_node = 0, ci_first_local = 0, ci_done = 1, ci_handles = [], ci_counter = 0,
     ci_vars = None, ci_share = 1, ci_net = net\<rparr>"

definition demo_cenv :: "byte list option node list client_env" where
  "demo_cenv = \<lparr>en_alloc = True, en_malloc = (\<lambda>n. None), en_buf = 0, en_thread = 1,
     en_rpc = (\<lambda>i. stack_rpc demo_world (nat i)),
     en_mem = (\<lambda>a. if a = 0x50 then Some [1, 2, 3] else Some [9, 9, 9])\<rparr>"

lemma demo_world_sel [simp]:
  "wo_env demo_world = demo_srv"
  by (simp_all add: demo_world_def)

lemma demo_node_up: "node_up demo_world 0 (demo_net st) st"
  using xfer_ok_one xfer_ok_all
  by (simp add: node_up_def world_ok_def demo_world_def demo_net_def blank_conn_def)

lemma demo_app_on: "app_on demo_cenv demo_world 0 (demo_client net)"
  by (simp add: app_on_def demo_cenv_def demo_client_def)

section \<open>Copies\<close>

text \<open>C1. What the application copies to a device object with \<open>cudaMemcpy\<close> it gets back with
  \<open>cudaMemcpy\<close>: both calls return \<open>cudaSuccess\<close>, and the first \<open>m\<close> bytes of the destination
  are those that were written, the rest of it being unchanged. The calls go through the
  interposer, the connection to the node of the current device and the handlers there.\<close>

theorem app_memcpy_roundtrip:
  fixes w :: "'g world"
  assumes app: "app_on env w i c" "node_up w i (ci_net c) st"
    and ok: "cuda_ok (se_rt (wo_env w))" "vm_inv (se_rt (wo_env w)) (bs_gpu st) (bs_table st)"
    and obj: "local_object st dv k" "length d \<le> mm_size (bs_table st ! k)"
    and mem: "en_mem env src = Some d" "en_mem env dst = Some buf"
    and n: "d \<noteq> []" "length d < 2 ^ 31" "m \<le> length d" "m \<le> length buf"
    and rsp: "se_malloc (wo_env w) m = Some b" "length b = m"
  shows "\<exists>c1 c2. cudaMemcpy env dv src (word_of_nat (length d)) 1 c = Inr (cudaSuccess, None, c1)
    \<and> cudaMemcpy env dst dv (word_of_nat m) 2 c1
        = Inr (cudaSuccess, Some (take m d @ drop m buf), c2)"
proof -
  let ?e = "wo_env w" let ?rt = "se_rt ?e"
  let ?exec = "executed ?e (wo_vm w) (wo_km w)"
  have env: "en_rpc env (int i) = stack_rpc w i" "en_alloc env" using app(1) by (auto simp: app_on_def)
  let ?up = "\<lambda>q. q\<lparr>pk_is_feedback_packet := 0, pk_vmmap := wo_vm w, pk_kmap := wo_km w\<rparr>"
  let ?p = "copy_packet env CUDA_MEMCPY_H2D dv src (length d) 1"
  let ?q = "copy_packet env CUDA_MEMCPY_D2H dst dv m 2"
  obtain p' st1 where 1: "nvbackCudaMemcpy_srv ?e (?up ?p) (conn_req d) st = Inr (OK, p', conn_req d, st1)"
    "pkt_err p' = cudaSuccess" "vm_inv ?rt (bs_gpu st1) (bs_table st1)" "local_object st1 dv k"
    "obj_holds ?rt st1 k d"
    using srv_h2d_ok [OF ok obj n(1,2), of "?up ?p"] by auto
  obtain q' st2 where 2: "nvbackCudaMemcpy_srv ?e (?up ?q) (conn_req []) st1 = Inr (OK, q',
      (conn_req [])\<lparr>sc_response_data_size := int m, sc_pRspBuffer := Some (take m d)\<rparr>, st2)"
    "pkt_err q' = cudaSuccess"
    using srv_d2h_reads [OF 1(3-5) n(3,2) rsp, of "?up ?q"] by auto
  have x: "?exec ?p d st = Inr (p', conn_req d, st1)" by (rule executed_memcpy [OF _ 1(1)]) simp
  obtain net' where c1: "rcudaMemcpy env dv src (word_of_nat (length d)) 1 (int i) c
      = Inr (cudaSuccess, None, c\<lparr>ci_err := cudaSuccess, ci_net := net'\<rparr>)" "node_up w i net' st1"
    using stack.rcudaMemcpy_h2d [OF env mem(1) app(2) n(1,2) x 1(2)] by blast
  let ?c = "c\<lparr>ci_err := cudaSuccess, ci_net := net'\<rparr>"
  have y: "?exec ?q [] st1 = Inr (q', (conn_req [])\<lparr>sc_response_data_size := int m,
      sc_pRspBuffer := Some (take m d)\<rparr>, st2)"
    by (rule executed_memcpy [OF _ 2(1)]) simp
  obtain c2 where "rcudaMemcpy env dst dv (word_of_nat m) 2 (int i) ?c
      = Inr (cudaSuccess, Some (take m d @ drop m buf), c2)"
    using stack.rcudaMemcpy_d2h [OF env mem(2) _ _ n(4) _ y 2(2), of ?c] c1(2) n(2,3) by auto
  then show ?thesis using c1(1) app(1) by (auto simp: cudaMemcpy_def on_cur_dev_app)
qed

lemma app_memcpy_roundtrip_witness:
  "\<exists>c1 c2. cudaMemcpy demo_cenv 0x7004 0x50 3 1 (demo_client (demo_net (demo_st [0])))
      = Inr (cudaSuccess, None, c1)
    \<and> cudaMemcpy demo_cenv 0x60 0x7004 2 2 c1 = Inr (cudaSuccess, Some [1, 2, 9], c2)"
proof -
  have hm: "se_malloc demo_srv 2 = Some [0xEE, 0xEE]" by (simp add: demo_hm_def numeral_2_eq_2)
  have o': "local_object (demo_st [0]) 0x7004 0"
    unfolding local_object_def by (rule exI [of _ 0]) (simp add: demo_find fresh_node_def)
  have m: "en_mem demo_cenv 0x50 = Some [1, 2, 3]" "en_mem demo_cenv 0x60 = Some [9, 9, 9]"
    by (simp_all add: demo_cenv_def)
  have up: "node_up demo_world 0 (ci_net (demo_client (demo_net (demo_st [0])))) (demo_st [0])"
    by (simp add: demo_client_def demo_node_up)
  show ?thesis
    using app_memcpy_roundtrip [OF demo_app_on up, where dv = "0x7004" and k = 0 and d = "[1, 2, 3]"
        and src = "0x50" and dst = "0x60" and m = 2 and buf = "[9, 9, 9]"
        and b = "[0xEE, 0xEE]"]
      demo_rt_ok fresh_node_inv o' hm m
    by (simp add: fresh_node_def)
qed

section \<open>Allocation\<close>

lemma set_err_args [simp]: "pk_arg0 (set_err e p) = pk_arg0 p"
  by (simp add: set_err_def)

lemma srv_malloc_ok:
  fixes st :: "'g backend_st"
  assumes ok: "cuda_ok (se_rt env)" "hm_ok (se_malloc env)" "vm_inv (se_rt env) (bs_gpu st) (bs_table st)"
    and i: "bs_vmap_index st = int i" "i < length (bs_table st)" "mm_valid (bs_table st ! i) = 0"
    and l: "bs_localindex st < length (bs_local st)" and sem: "se_semget env \<noteq> -1"
  shows "\<exists>p' st'. nvbackCudaMalloc_srv env p sc st = Inr (OK, p', sc, st') \<and> pkt_err p' = cudaSuccess
    \<and> arg_lo (pk_arg0 p') = arg_lo (pk_arg0 p)
    \<and> vm_inv (se_rt env) (bs_gpu st') (bs_table st') \<and> bs_vmap_index st' = int (i + 1)
    \<and> bs_localindex st' = bs_localindex st + 1 \<and> bs_local st' = (bs_local st)[bs_localindex st := int i]
    \<and> mm_valid (bs_table st' ! i) = 1 \<and> mm_size (bs_table st' ! i) = unat (arg_lo (pk_arg1 p))
    \<and> map mm_addr (bs_table st') = map mm_addr (bs_table st)"
proof -
  let ?sz = "unat (arg_lo (pk_arg1 p))"
  have un: "mm_actual_devptr (bs_table st ! i) = 0"
    using vm_inv_node [OF ok(3) i(2)] i(3) by (simp add: node_inv_def)
  obtain sw where hm: "se_malloc env ?sz = Some sw" "length sw = ?sz"
    using ok(2) by (auto simp: hm_ok_def)
  obtain t' g' where c: "mem_map_creat (se_rt env) (se_malloc env) (bs_table st) (arg_lo (pk_arg0 p))
      ?sz (int i) (bs_gpu st) = Inr (0, arg_lo (pk_arg0 p), t', g')" "vm_inv (se_rt env) g' t'"
    "frame (se_rt env) i (bs_table st) (bs_gpu st) t' g'" "mm_valid (t' ! i) = 1"
    "mm_size (t' ! i) = ?sz" "mm_addr (t' ! i) = mm_addr (bs_table st ! i)"
    using creat_spec [OF ok(1,3) i(2) un, of "se_malloc env" ?sz sw] hm by blast
  show ?thesis
    using c(1,2,4,5) i l sem frame_addrs [OF c(3) i(2) c(6)]
    by (simp add: nvbackCudaMalloc_srv_def Let_def local_set_def reply_def add.commute)
qed

lemma handle_addrs: "handle_addr ` set t = (\<lambda>a. a + 4) ` set (map mm_addr t)"
  by (simp add: image_image handle_addr_def)

lemma find_entry_loop_none:
  assumes "devptr \<notin> handle_addr ` set t" and "\<forall>x \<in> set xs. x < int (length t)"
  shows "find_entry_loop t xs devptr k = Inr (-1)"
  using assms(2)
proof (induction xs arbitrary: k)
  case (Cons x xs)
  then show ?case
    using assms(1) by (cases "0 \<le> x") (auto simp: nthri_def nthr_def image_iff)
qed simp

text \<open>The entries of a process are positions of the table.\<close>

definition local_ok :: "'g backend_st \<Rightarrow> bool" where
  "local_ok st \<longleftrightarrow> bs_localindex st \<le> length (bs_local st)
     \<and> (\<forall>x \<in> set (take (bs_localindex st) (bs_local st)). x < int (length (bs_table st)))"

lemma srv_h2d_unknown:
  assumes "local_ok st" and "dv \<notin> handle_addr ` set (bs_table st)" and "length d < 2 ^ 31"
    and "pk_method_id p = method_num CUDA_MEMCPY_H2D" "arg_lo (pk_arg0 p) = dv"
    and "arg_lo (pk_arg2 p) = word_of_nat (length d)"
  shows "nvbackCudaMemcpy_srv env p (conn_req d) st = Inl OutOfBounds"
proof -
  have "argi (pk_arg2 p) = int (length d)" using argn_of_nat(2) [OF assms(6,3)] .
  then show ?thesis
    using assms(1,4,5) find_entry_loop_none [OF assms(2)]
    by (simp add: nvbackCudaMemcpy_srv_def vmem_copy_def find_local_def mem_map_find_entry_def
        local_ok_def local_at_def nthri_def method_num_inj)
qed



end
