(* ===== verification/Device_Table.thy ===== *)
theory Device_Table
  imports App_Properties
begin

text \<open>
  The table of all devices that the first registration builds by asking every node for its
  number of devices: the loops of \<open>__cudaRegisterFatBinary\<close>, compared with a table written
  down directly.
\<close>

section \<open>The reference table\<close>

text \<open>The node and the local number of every device, the nodes one after the other from \<open>i\<close>.\<close>

primrec device_table :: "nat \<Rightarrow> nat list \<Rightarrow> (int \<times> int) list" where
  "device_table i [] = []"
| "device_table i (n # ns) = map (\<lambda>j. (int i, int j)) [0..<n] @ device_table (i + 1) ns"

lemma length_device_table [simp]: "length (device_table i ns) = sum_list ns"
  by (induction ns arbitrary: i) simp_all

section \<open>A splice into an array\<close>

definition splice_at :: "nat \<Rightarrow> 'a list \<Rightarrow> 'a list \<Rightarrow> 'a list" where
  "splice_at k ys xs = take k xs @ ys @ drop (k + length ys) xs"

lemma length_splice_at [simp]: "k + length ys \<le> length xs \<Longrightarrow> length (splice_at k ys xs) = length xs"
  by (simp add: splice_at_def)

lemma splice_at_Nil [simp]: "splice_at k [] xs = xs"
  by (simp add: splice_at_def)

lemma splice_at_Cons:
  "k < length xs \<Longrightarrow> splice_at (k + 1) ys (xs[k := y]) = splice_at k (y # ys) xs"
  by (simp add: splice_at_def take_Suc_conv_app_nth drop_update_cancel)

lemma splice_at_append:
  assumes "k + length ys \<le> length xs"
  shows "splice_at (k + length ys) zs (splice_at k ys xs) = splice_at k (ys @ zs) xs"
  using assms by (cases ys) (auto simp: splice_at_def min_def ac_simps)

lemma take_splice_at: "k + length ys \<le> length xs \<Longrightarrow> take (k + length ys) (splice_at k ys xs) = take k xs @ ys"
  by (cases ys) (auto simp: splice_at_def)

section \<open>The loops\<close>

lemma dev_loop_eq:
  assumes "k + n \<le> length (ci_index c)" and "k + n \<le> length (ci_local c)"
  shows "dev_loop n i base k c = Inr (c\<lparr>ci_index := splice_at k (replicate n (int i)) (ci_index c),
    ci_local := splice_at k (map (\<lambda>j. int j - base) [k..<k + n]) (ci_local c)\<rparr>)"
  using assms
proof (induction n arbitrary: k c)
  case (Suc n)
  have u: "[k..<Suc (k + n)] = k # [Suc k..<Suc (k + n)]" by (rule upt_conv_Cons) simp
  have "dev_loop (Suc n) i base k c = dev_loop n i base (k + 1)
      (c\<lparr>ci_index := (ci_index c)[k := int i], ci_local := (ci_local c)[k := int k - base]\<rparr>)"
    using Suc.prems by simp
  also have "\<dots> = Inr (c\<lparr>ci_index := splice_at k (replicate (Suc n) (int i)) (ci_index c),
    ci_local := splice_at k (map (\<lambda>j. int j - base) [k..<k + Suc n]) (ci_local c)\<rparr>)"
    using Suc.prems splice_at_Cons [of k "ci_index c" "replicate n (int i)" "int i"]
      splice_at_Cons [of k "ci_local c" "map (\<lambda>j. int j - base) [Suc k..<Suc k + n]" "int k - base"]
    by (subst Suc.IH) (simp_all add: u del: upt_Suc)
  finally show ?case .
qed simp

lemma upt_shift: "map (\<lambda>j. int j - int k) [k..<k + n] = map int [0..<n]"
proof -
  have "[k..<k + n] = map (\<lambda>j. j + k) [0..<n]" by (simp add: map_add_upt add.commute)
  then show ?thesis by simp
qed

section \<open>Asking the nodes\<close>

text \<open>Every node \<open>i\<close> is up, with its backend in the state \<open>sts ! i\<close>, and has \<open>ns ! i\<close> devices.\<close>

definition nodes_up :: "'g node list client_env \<Rightarrow> 'g world \<Rightarrow> 'g node list \<Rightarrow> 'g backend_st list
    \<Rightarrow> nat list \<Rightarrow> bool" where
  "nodes_up env w net sts ns \<longleftrightarrow> (\<forall>i < length ns. en_rpc env (int i) = stack_rpc w i
     \<and> node_up w i net (sts ! i) \<and> se_get_count (wo_env w) (bs_gpu (sts ! i)) = (int (ns ! i), cudaSuccess))"

lemma count_asked:
  assumes up: "nodes_up env w (ci_net c) sts ns" and al: "en_alloc env"
    and i: "i < length ns" "ns ! i < 2 ^ 31"
  shows "\<exists>net'. rcudaGetDeviceCount env count (int i) c = Inr (cudaSuccess, int (ns ! i),
      c\<lparr>ci_err := cudaSuccess, ci_net := net'\<rparr>) \<and> nodes_up env w net' sts ns"
proof -
  let ?st = "sts ! i" let ?n = "int (ns ! i)"
  let ?up = "\<lambda>q. q\<lparr>pk_is_feedback_packet := 0, pk_vmmap := wo_vm w, pk_kmap := wo_km w\<rparr>"
  let ?p = "call_packet env (method_num CUDA_GET_DEVICE_COUNT)"
  let ?p' = "set_err cudaSuccess (?up ?p)\<lparr>pk_arg0 := set_argi ?n (pk_arg0 (?up ?p))\<rparr>"
  have u: "en_rpc env (int i) = stack_rpc w i" "node_up w i (ci_net c) ?st"
    "se_get_count (wo_env w) (bs_gpu ?st) = (?n, cudaSuccess)"
    using up i(1) by (auto simp: nodes_up_def)
  have x: "executed (wo_env w) (wo_vm w) (wo_km w) ?p [] ?st = Inr (?p', conn_req [], ?st)"
    by (rule executed_count [where r = OK]) (simp_all add: nvbackCudaGetDeviceCount_srv_def u(3))
  have e: "pkt_err ?p' = cudaSuccess" by (simp add: pkt_err_def set_err_def)
  have f: "node_up w i (ci_net c) ?st \<and> only_node i (ci_net c) (ci_net c)" using u(2) by simp
  obtain net' where r: "rcudaGetDeviceCount env count (int i) c = Inr (cudaSuccess,
      sint (ucast (arg_lo (pk_arg0 ?p')) :: u32), c\<lparr>ci_err := cudaSuccess, ci_net := net'\<rparr>)"
    "node_up w i net' ?st" "only_node i (ci_net c) net'"
    using framed.rcudaGetDeviceCount_returns [OF u(1) al f x e] by blast
  have "sint (ucast (arg_lo (pk_arg0 ?p')) :: u32) = ?n"
    using i(2) by (simp add: set_argi_def sint_small_nat)
  moreover have "nodes_up env w net' sts ns"
    using up r(2,3) unfolding nodes_up_def node_up_def only_node_def by metis
  ultimately show ?thesis using r(1) by auto
qed

section \<open>The table\<close>

text \<open>The nodes from \<open>i\<close> on, which have \<open>ms\<close> devices, those before \<open>k\<close> being entered.\<close>

lemma node_loop_eq:
  assumes "en_alloc env" and "\<forall>n \<in> set ns. n < 2 ^ 31"
    and "nodes_up env w (ci_net c) sts ns" and "ns = ls @ ms" and "length ls = i"
    and "ci_devices c = int k" and "i + length ms \<le> length (ci_in_node c)"
    and "k + sum_list ms \<le> length (ci_index c)" and "k + sum_list ms \<le> length (ci_local c)"
  shows "\<exists>e net. node_loop env (length ms) i k c = Inr (c\<lparr>ci_err := e, ci_net := net,
    ci_in_node := splice_at i (map int ms) (ci_in_node c), ci_devices := int (k + sum_list ms),
    ci_index := splice_at k (map fst (device_table i ms)) (ci_index c),
    ci_local := splice_at k (map snd (device_table i ms)) (ci_local c)\<rparr>)"
  using assms
proof (induction ms arbitrary: i k c ls)
  case Nil
  then show ?case by (intro exI [of _ "ci_err c"] exI [of _ "ci_net c"]) simp
next
  case (Cons n ms)
  have i: "i < length ns" "ns ! i = n" "ns ! i < 2 ^ 31"
    using Cons.prems(2,4,5) by (auto simp: nth_append)
  obtain net' where r: "rcudaGetDeviceCount env (ci_in_node c ! i) (int i) c = Inr (cudaSuccess, int n,
      c\<lparr>ci_err := cudaSuccess, ci_net := net'\<rparr>)" "nodes_up env w net' sts ns"
    using count_asked [OF Cons.prems(3,1) i(1,3)] i(2) by blast
  let ?c = "c\<lparr>ci_err := cudaSuccess, ci_net := net', ci_in_node := (ci_in_node c)[i := int n],
    ci_devices := int (k + n), ci_index := splice_at k (replicate n (int i)) (ci_index c),
    ci_local := splice_at k (map int [0..<n]) (ci_local c)\<rparr>"
  have d: "dev_loop n i (int k) k (c\<lparr>ci_err := cudaSuccess, ci_net := net',
      ci_in_node := (ci_in_node c)[i := int n], ci_devices := int (k + n)\<rparr>) = Inr ?c"
    using Cons.prems(8,9) by (subst dev_loop_eq) (simp_all add: upt_shift)
  have "node_loop env (length (n # ms)) i k c = node_loop env (length ms) (i + 1) (k + n) ?c"
    using Cons.prems(6,7) r(1) d by (simp add: add.commute)
  moreover obtain e net where "node_loop env (length ms) (i + 1) (k + n) ?c = Inr (?c\<lparr>ci_err := e,
      ci_net := net, ci_in_node := splice_at (i + 1) (map int ms) (ci_in_node ?c),
      ci_devices := int (k + n + sum_list ms),
      ci_index := splice_at (k + n) (map fst (device_table (i + 1) ms)) (ci_index ?c),
      ci_local := splice_at (k + n) (map snd (device_table (i + 1) ms)) (ci_local ?c)\<rparr>)"
    using Cons.IH [of ?c "ls @ [n]" "i + 1" "k + n"] Cons.prems r(2) by auto
  moreover have "splice_at (i + 1) (map int ms) (ci_in_node ?c) = splice_at i (map int (n # ms)) (ci_in_node c)"
    using Cons.prems(7) splice_at_Cons [of i "ci_in_node c"] by simp
  moreover have "splice_at (k + n) (map fst (device_table (i + 1) ms)) (ci_index ?c)
      = splice_at k (map fst (device_table i (n # ms))) (ci_index c)"
    using Cons.prems(8) splice_at_append [of k "replicate n (int i)" "ci_index c"]
    by (simp add: comp_def map_replicate_const)
  moreover have "splice_at (k + n) (map snd (device_table (i + 1) ms)) (ci_local ?c)
      = splice_at k (map snd (device_table i (n # ms))) (ci_local c)"
    using Cons.prems(9) splice_at_append [of k "map int [0..<n]" "ci_local c"]
    by (simp add: comp_def)
  ultimately show ?case by (intro exI [of _ e] exI [of _ net]) (simp add: add.assoc)
qed

text \<open>\<open>CUMMULATIVE_FREQ_DEV\<close>: the number of devices of the nodes before each one.\<close>

lemma cumm_loop_eq:
  assumes "m + n < length (ci_cumm c)" and "m + n \<le> length (ci_in_node c)"
    and "\<forall>j \<le> m. ci_cumm c ! j = sum_list (take j (ci_in_node c))"
  shows "\<exists>cu. cumm_loop n (m + 1) c = Inr (c\<lparr>ci_cumm := cu\<rparr>) \<and> length cu = length (ci_cumm c)
    \<and> (\<forall>j \<le> m + n. cu ! j = sum_list (take j (ci_in_node c)))"
  using assms
proof (induction n arbitrary: m c)
  case 0
  then show ?case by (intro exI [of _ "ci_cumm c"]) simp
next
  case (Suc n)
  let ?cu = "(ci_cumm c)[m + 1 := sum_list (take (m + 1) (ci_in_node c))]"
  have "ci_cumm c ! m + ci_in_node c ! m = sum_list (take (m + 1) (ci_in_node c))"
    using Suc.prems by (simp add: take_Suc_conv_app_nth)
  then have "cumm_loop (Suc n) (m + 1) c = cumm_loop n (m + 1 + 1) (c\<lparr>ci_cumm := ?cu\<rparr>)"
    using Suc.prems by simp
  moreover have "\<forall>j \<le> m + 1. ?cu ! j = sum_list (take j (ci_in_node c))"
    using Suc.prems by (auto simp: nth_list_update le_Suc_eq)
  ultimately show ?case
    using Suc.IH [of "m + 1" "c\<lparr>ci_cumm := ?cu\<rparr>"] Suc.prems(1,2) by auto
qed

text \<open>The arrays have room for the nodes and their devices.\<close>

definition tables_fit :: "'n client \<Rightarrow> nat list \<Rightarrow> bool" where
  "tables_fit c ns \<longleftrightarrow> ci_nodes c = length ns \<and> length ns \<le> length (ci_in_node c)
     \<and> length ns < length (ci_cumm c) \<and> ci_cumm c ! 0 = 0 \<and> ci_devices c = 0
     \<and> ci_first_node c < length ns \<and> (\<forall>n \<in> set ns. n < 2 ^ 31)
     \<and> sum_list ns \<le> length (ci_index c) \<and> sum_list ns \<le> length (ci_local c)"

lemma sum_map_int: "sum_list (map int ns) = int (sum_list ns)"
  by (induction ns) simp_all

text \<open>C10. The loops that ask the nodes for their devices build the same table as the reference
  definition: device \<open>k\<close> of the application is device \<open>DEV_TO_LOCALDEV[k]\<close> of node
  \<open>DEV_TO_INDEX[k]\<close>, node after node; their number is the sum of the counts, and \<open>first_local\<close>
  the number of devices before the first local node.\<close>

theorem device_table_correct:
  assumes "en_alloc env" and "nodes_up env w (ci_net c) sts ns" and "tables_fit c ns"
  shows "\<exists>c'. find_devices env c = Inr c' \<and> ci_devices c' = int (sum_list ns)
    \<and> zip (take (sum_list ns) (ci_index c')) (take (sum_list ns) (ci_local c')) = device_table 0 ns
    \<and> ci_first_local c' = int (sum_list (take (ci_first_node c) ns)) \<and> ci_done c' = 2"
proof -
  have f: "ci_nodes c = length ns" "length ns \<le> length (ci_in_node c)" "length ns < length (ci_cumm c)"
    "ci_cumm c ! 0 = 0" "ci_devices c = int 0" "ci_first_node c < length ns" "\<forall>n \<in> set ns. n < 2 ^ 31"
    "0 + sum_list ns \<le> length (ci_index c)" "0 + sum_list ns \<le> length (ci_local c)"
    using assms(3) by (auto simp: tables_fit_def)
  let ?t = "device_table 0 ns"
  obtain e net where n: "node_loop env (length ns) 0 0 c = Inr (c\<lparr>ci_err := e, ci_net := net,
      ci_in_node := splice_at 0 (map int ns) (ci_in_node c), ci_devices := int (0 + sum_list ns),
      ci_index := splice_at 0 (map fst ?t) (ci_index c),
      ci_local := splice_at 0 (map snd ?t) (ci_local c)\<rparr>)" (is "_ = Inr ?c")
    using node_loop_eq [OF assms(1) f(7) assms(2), of "[]" ns 0 0] f(2,5,8,9) by auto
  have m: "0 + length ns < length (ci_cumm ?c)" "0 + length ns \<le> length (ci_in_node ?c)"
    "\<forall>j \<le> 0. ci_cumm ?c ! j = sum_list (take j (ci_in_node ?c))"
    using f(2-4) by simp_all
  obtain cu where cu: "cumm_loop (length ns) 1 ?c = Inr (?c\<lparr>ci_cumm := cu\<rparr>)"
    "length cu = length (ci_cumm c)" "\<forall>j \<le> length ns. cu ! j = sum_list (take j (ci_in_node ?c))"
    using cumm_loop_eq [OF m] by auto
  have "cu ! ci_first_node c = int (sum_list (take (ci_first_node c) ns))"
    using cu(3) f(6) by (simp add: splice_at_def take_map sum_map_int)
  moreover have "zip (take (sum_list ns) (ci_index ?c)) (take (sum_list ns) (ci_local ?c)) = ?t"
    using take_splice_at [of 0 "map fst ?t" "ci_index c"] take_splice_at [of 0 "map snd ?t" "ci_local c"]
      f(8,9) by (simp add: zip_map_fst_snd)
  ultimately show ?thesis
    using n cu(1,2) f by (simp add: find_devices_def)
qed

lemma device_table_correct_witness:
  "\<exists>c'. find_devices (demo_cenv\<lparr>en_rpc := \<lambda>i. stack_rpc (demo_world\<lparr>wo_hosts := [''a'', ''b'']\<rparr>) (nat i)\<rparr>)
      ((demo_client (demo_net (demo_st []) @ demo_net (demo_st [])))\<lparr>ci_nodes := 2,
        ci_in_node := [0, 0], ci_cumm := [0, 0, 0], ci_index := [9, 9, 9, 9], ci_local := [9, 9, 9, 9],
        ci_first_node := 1\<rparr>) = Inr c'
    \<and> zip (take 4 (ci_index c')) (take 4 (ci_local c')) = [(0, 0), (0, 1), (1, 0), (1, 1)]
    \<and> ci_first_local c' = 2"
proof -
  let ?w = "demo_world\<lparr>wo_hosts := [''a'', ''b'']\<rparr>" let ?st = "demo_st []"
  let ?net = "demo_net ?st @ demo_net ?st"
  let ?c = "(demo_client ?net)\<lparr>ci_nodes := 2, ci_in_node := [0, 0], ci_cumm := [0, 0, 0],
    ci_index := [9, 9, 9, 9], ci_local := [9, 9, 9, 9], ci_first_node := 1\<rparr>"
  let ?env = "demo_cenv\<lparr>en_rpc := \<lambda>i. stack_rpc ?w (nat i)\<rparr>"
  have up: "node_up ?w i ?net ?st" if "i < 2" for i
    using that xfer_ok_one xfer_ok_all
    by (auto simp: node_up_def world_ok_def demo_world_def demo_net_def blank_conn_def
        less_2_cases_iff)
  then have n: "nodes_up ?env ?w (ci_net ?c) [?st, ?st] [2, 2]"
    by (auto simp: nodes_up_def less_Suc_eq demo_client_def demo_srv_def cudaSuccess_def)
  have t: "tables_fit ?c [2, 2]" by (simp add: tables_fit_def demo_client_def)
  have "en_alloc ?env" by (simp add: demo_cenv_def)
  moreover have "device_table 0 [2, 2] = [(0, 0), (0, 1), (1, 0), (1, 1)]"
    by (simp add: numeral_2_eq_2)
  ultimately show ?thesis
    using device_table_correct [OF _ n t] by fastforce
qed

end
