(* ===== verification/Client_Types.thy ===== *)
theory Client_Types
  imports Device_Table
begin

text \<open>
  The type invariant of the client library (interposer/libci.c): its global arrays keep their
  declared sizes and the current device of the thread is always an index of the device tables,
  whatever calls the application makes, as long as no answer of the global scheduler is outside
  the tables: then the client reads beyond its arrays and the model ends in \<open>OutOfBounds\<close>. The
  last section says what \<open>cudaSetDevice\<close> does with the answer.
\<close>

section \<open>The invariant\<close>

definition client_wf :: "'n client \<Rightarrow> bool" where
  "client_wf c \<longleftrightarrow> length (ci_index c) = MAX_INTERPOSED_DEVICES \<and> length (ci_local c) = MAX_INTERPOSED_DEVICES
     \<and> length (ci_cumm c) = MAX_INTERPOSED_DEVICES + 1 \<and> length (ci_in_node c) = nat MAX_BACKEND_NODES
     \<and> length (ci_hosts c) = nat MAX_BACKEND_NODES + 1 \<and> ci_nodes c \<le> nat MAX_BACKEND_NODES + 1
     \<and> length (ci_handles c) = MAX_FATCUBIN_HANDLES
     \<and> (\<forall>row \<in> set (ci_handles c). length row = nat MAX_BACKEND_NODES)
     \<and> (\<forall>d. ci_cur c = Some d \<longrightarrow> 0 \<le> d \<and> d < int MAX_INTERPOSED_DEVICES)"

lemma client_wf_frame [simp]:
  "client_wf (c\<lparr>ci_err := e\<rparr>) = client_wf c" "client_wf (c\<lparr>ci_net := n\<rparr>) = client_wf c"
  "client_wf (c\<lparr>ci_vars := v\<rparr>) = client_wf c" "client_wf (c\<lparr>ci_counter := k\<rparr>) = client_wf c"
  "client_wf (c\<lparr>ci_share := s\<rparr>) = client_wf c" "client_wf (c\<lparr>ci_done := b\<rparr>) = client_wf c"
  "client_wf (c\<lparr>ci_devices := i\<rparr>) = client_wf c" "client_wf (c\<lparr>ci_first_local := i\<rparr>) = client_wf c"
  "client_wf (c\<lparr>ci_first_node := j\<rparr>) = client_wf c"
  by (simp_all add: client_wf_def)

lemma remote_call_wf:
  "client_wf c \<Longrightarrow> remote_call env m fill send err c = Inr (x, c') \<Longrightarrow> client_wf c'"
  by (auto simp: remote_call_def l_remoteInitMetThrReq_def bindr_eq_Inr_iff split: prod.splits option.splits)

lemma returning_err_wf:
  "client_wf c \<Longrightarrow> returning_err (remote_call env m fill send err c) = Inr (e, c') \<Longrightarrow> client_wf c'"
  by (auto simp: returning_err_def bindr_eq_Inr_iff dest: remote_call_wf)

lemma cur_dev_wf:
  assumes "client_wf c" and "cur_dev env c = Inr (d, c')"
  shows "client_wf c' \<and> 0 \<le> d \<and> d < int MAX_INTERPOSED_DEVICES"
  using assms by (auto simp: cur_dev_def client_wf_def MAX_INTERPOSED_DEVICES_def split: option.splits if_splits)

lemma on_cur_dev_wf:
  assumes "client_wf c" and "on_cur_dev env f c = Inr r"
  shows "\<exists>idx c1. client_wf c1 \<and> f idx c1 = Inr r"
  using assms(2) by (auto simp: on_cur_dev_def bindr_eq_Inr_iff dest!: cur_dev_wf [OF assms(1)])

lemma on_cur_dev_in_bounds:
  assumes "client_wf c" and "en_alloc env"
  shows "\<exists>idx c1. client_wf c1 \<and> (\<forall>f. on_cur_dev env f c = f idx c1)"
proof -
  obtain d c1 where d: "cur_dev env c = Inr (d, c1)"
    using assms(2) by (cases "ci_cur c") (simp_all add: cur_dev_def)
  have w: "client_wf c1" "0 \<le> d" "d < int MAX_INTERPOSED_DEVICES" using cur_dev_wf [OF assms(1) d] by simp_all
  then have "nthri (ci_index c1) d = Inr (ci_index c1 ! nat d)"
    by (simp add: nthri_def nthr_def client_wf_def nat_less_iff)
  then show ?thesis using d w(1) by (auto simp: on_cur_dev_def)
qed

section \<open>The calls of the application\<close>

datatype api_call =
    Thread_exit | Thread_synchronize
  | Get_device_properties u64 nat int
  | Set_device int | Get_device
  | Configure_call "u32 \<times> u32 \<times> u32" "u32 \<times> u32 \<times> u32" u64 u64
  | Setup_argument u64 u64 u64
  | Launch u64
  | Malloc u64 u64 u64
  | Free u64
  | Memcpy u64 u64 u64 int
  | Memcpy_to_symbol "symbolp option" u64 u64 u64 int
  | Memcpy_from_symbol u64 "symbolp option" u64 u64 int
  | Register_fat_binary "(string \<Rightarrow> string option) option" fat_image
  | Unregister_fat_binary
  | Register_function reg_func
  | Register_var reg_var
  | Getcwd u64

fun api_do :: "'n client_env \<Rightarrow> api_call \<Rightarrow> 'n client \<Rightarrow> 'n client cres" where
  "api_do env Thread_exit c = bindr (cudaThreadExit env c) (\<lambda>(e, c). Inr c)"
| "api_do env Thread_synchronize c = bindr (cudaThreadSynchronize env c) (\<lambda>(e, c). Inr c)"
| "api_do env (Get_device_properties p n d) c = bindr (cudaGetDeviceProperties env p n d c) (\<lambda>(e, x, c). Inr c)"
| "api_do env (Set_device d) c = bindr (cudaSetDevice env d c) (\<lambda>(e, c). Inr c)"
| "api_do env Get_device c = bindr (cudaGetDevice env c) (\<lambda>(e, d, c). Inr c)"
| "api_do env (Configure_call g b sm st) c = bindr (cudaConfigureCall env g b sm st c) (\<lambda>(e, c). Inr c)"
| "api_do env (Setup_argument a sz off) c = bindr (cudaSetupArgument env a sz off c) (\<lambda>(e, c). Inr c)"
| "api_do env (Launch k) c = bindr (cudaLaunch env k c) (\<lambda>(e, c). Inr c)"
| "api_do env (Malloc p old sz) c = bindr (cudaMalloc env p old sz c) (\<lambda>(e, v, c). Inr c)"
| "api_do env (Free p) c = bindr (cudaFree env p c) (\<lambda>(e, c). Inr c)"
| "api_do env (Memcpy dst src n k) c = bindr (cudaMemcpy env dst src n k c) (\<lambda>(e, x, c). Inr c)"
| "api_do env (Memcpy_to_symbol s src n off k) c = bindr (cudaMemcpyToSymbol env s src n off k c) (\<lambda>(e, c). Inr c)"
| "api_do env (Memcpy_from_symbol dst s n off k) c =
     bindr (cudaMemcpyFromSymbol env dst s n off k c) (\<lambda>(e, x, c). Inr c)"
| "api_do env (Register_fat_binary ini f) c = cudaRegisterFatBinary env ini f c"
| "api_do env Unregister_fat_binary c = cudaUnregisterFatBinary env c"
| "api_do env (Register_function a) c = cudaRegisterFunction env a c"
| "api_do env (Register_var a) c = cudaRegisterVar env a c"
| "api_do env (Getcwd sz) c = Inr (getcwd sz c)"

primrec api_run :: "'n client_env \<Rightarrow> api_call list \<Rightarrow> 'n client \<Rightarrow> 'n client cres" where
  "api_run env [] c = Inr c"
| "api_run env (a # as) c = bindr (api_do env a c) (api_run env as)"

lemmas rcuda_defs = rcudaThreadExit_def rcudaThreadSynchronize_def rcudaGetDeviceCount_def
  rcudaGetDeviceProperties_def rcudaSetDevice_def rcudaGetDevice_def rcudaConfigureCall_def
  rcudaLaunch_def rcudaMalloc_def rcudaFree_def rcudaMemcpy_def

lemma rcuda_wf:
  assumes "client_wf c"
  shows "rcudaThreadExit env i c = Inr (e, c') \<Longrightarrow> client_wf c'"
    "rcudaThreadSynchronize env i c = Inr (e, c') \<Longrightarrow> client_wf c'"
    "rcudaGetDeviceCount env n i c = Inr (e, n', c') \<Longrightarrow> client_wf c'"
    "rcudaGetDeviceProperties env p m d i c = Inr (e, x, c') \<Longrightarrow> client_wf c'"
    "rcudaSetDevice env d i l c = Inr (e, c') \<Longrightarrow> client_wf c'"
    "rcudaGetDevice env d i l c = Inr (e, d', c') \<Longrightarrow> client_wf c'"
    "rcudaConfigureCall env g b sm st i c = Inr (e, c') \<Longrightarrow> client_wf c'"
    "rcudaLaunch env k i c = Inr (e, c') \<Longrightarrow> client_wf c'"
    "rcudaMalloc env a old sz i c = Inr (e, v, c') \<Longrightarrow> client_wf c'"
    "rcudaFree env a i c = Inr (e, c') \<Longrightarrow> client_wf c'"
    "rcudaMemcpy env dst src sz kind i c = Inr (e, x, c') \<Longrightarrow> client_wf c'"
  unfolding rcuda_defs
  by (auto simp: bindr_eq_Inr_iff dest: returning_err_wf [OF assms] remote_call_wf [OF assms])

lemma rcudaSetupArgument_wf:
  assumes "client_wf c" and "rcudaSetupArgument env a sz off i c = Inr (e, c')"
  shows "client_wf c'"
proof (cases "l_remoteInitMetThrReq env (method_num CUDA_SETUP_ARGUMENT) c")
  case (Pair x c1)
  have "client_wf c1" using Pair assms(1)
    by (auto simp: l_remoteInitMetThrReq_def split: prod.splits option.splits)
  then show ?thesis using Pair assms(2)
    by (auto simp: rcudaSetupArgument_def split: option.splits if_splits dest: returning_err_wf [OF assms(1)])
qed

lemma rcuda_symbol_wf:
  assumes "client_wf c"
  shows "rcudaMemcpyToSymbol env s src n off kind i c = Inr (e, c') \<Longrightarrow> client_wf c'"
    "rcudaMemcpyFromSymbol env dst s n off kind i c = Inr (e, x, c') \<Longrightarrow> client_wf c'"
  using assms unfolding rcudaMemcpyToSymbol_def rcudaMemcpyFromSymbol_def
  by (auto simp: bindr_eq_Inr_iff split: if_splits dest: returning_err_wf remote_call_wf)

lemmas on_cur_dev_calls = cudaThreadExit_def cudaThreadSynchronize_def cudaConfigureCall_def
  cudaSetupArgument_def cudaLaunch_def cudaMalloc_def cudaFree_def cudaMemcpy_def
  cudaMemcpyToSymbol_def cudaMemcpyFromSymbol_def

lemma cuda_calls_wf:
  assumes "client_wf c"
  shows "cudaThreadExit env c = Inr (e, c') \<Longrightarrow> client_wf c'"
    "cudaThreadSynchronize env c = Inr (e, c') \<Longrightarrow> client_wf c'"
    "cudaConfigureCall env g b sm st c = Inr (e, c') \<Longrightarrow> client_wf c'"
    "cudaSetupArgument env a sz off c = Inr (e, c') \<Longrightarrow> client_wf c'"
    "cudaLaunch env k c = Inr (e, c') \<Longrightarrow> client_wf c'"
    "cudaMalloc env a old sz c = Inr (e, v, c') \<Longrightarrow> client_wf c'"
    "cudaFree env a c = Inr (e, c') \<Longrightarrow> client_wf c'"
    "cudaMemcpy env dst src sz kind c = Inr (e, x, c') \<Longrightarrow> client_wf c'"
    "cudaMemcpyToSymbol env s src sz off kind c = Inr (e, c') \<Longrightarrow> client_wf c'"
    "cudaMemcpyFromSymbol env dst s sz off kind c = Inr (e, x, c') \<Longrightarrow> client_wf c'"
  unfolding on_cur_dev_calls
  by (auto dest!: on_cur_dev_wf [OF assms] dest: rcuda_wf rcudaSetupArgument_wf rcuda_symbol_wf)

lemma cudaGetDeviceProperties_wf:
  "client_wf c \<Longrightarrow> cudaGetDeviceProperties env p n d c = Inr (e, x, c') \<Longrightarrow> client_wf c'"
  by (auto simp: cudaGetDeviceProperties_def bindr_eq_Inr_iff dest: rcuda_wf)

text \<open>The device that becomes the current one has been looked up in the tables before.\<close>

lemma cudaSetDevice_wf:
  assumes "client_wf c" and "cudaSetDevice env d c = Inr (e, c')"
  shows "client_wf c'"
proof -
  obtain d0 c0 e1 drr c1 l idx c2 where s: "cur_dev env c = Inr (d0, c0)"
      "rcudaGetDevice env (ci_devices c0) MAX_BACKEND_NODES 0 c0 = Inr (e1, drr, c1)"
      "nthri (ci_local c1) drr = Inr l" "rcudaSetDevice env l idx 0 c1 = Inr (e, c2)"
      "c' = (if e = cudaSuccess then c2\<lparr>ci_cur := Some drr\<rparr> else c2)"
    using assms(2) by (auto simp: cudaSetDevice_def bindr_eq_Inr_iff)
  have w: "client_wf c1" "client_wf c2"
    using cur_dev_wf [OF assms(1) s(1)] s(2,4) rcuda_wf(5,6) by blast+
  have "0 \<le> drr" "nat drr < length (ci_local c1)"
    using s(3) by (auto simp: nthri_def nthr_eq_Inr split: if_splits)
  then have "0 \<le> drr \<and> drr < int MAX_INTERPOSED_DEVICES"
    using w(1) by (simp add: client_wf_def nat_less_iff)
  then show ?thesis using w(2) s(5) by (auto simp: client_wf_def)
qed

lemma config_loop_wf:
  "\<lbrakk>client_wf c; k = nat MAX_BACKEND_NODES + 1 - ci_nodes c; config_loop ini k i c = Inr c'\<rbrakk> \<Longrightarrow> client_wf c'"
proof (induction k arbitrary: i c)
  case (Suc k)
  show ?case
  proof (cases "ini (remote_key i)")
    case (Some s)
    let ?c = "c\<lparr>ci_hosts := (ci_hosts c)[ci_nodes c := s],
      ci_first_node := (if s = ''localhost'' then ci_nodes c else ci_first_node c), ci_nodes := ci_nodes c + 1\<rparr>"
    have r: "config_loop ini k (i + 1) ?c = Inr c'" using Some Suc.prems(3) by (auto split: if_splits)
    have "client_wf ?c" using Suc.prems(1,2) by (simp add: client_wf_def)
    from Suc.IH [OF this _ r] show ?thesis using Suc.prems(2) by simp
  next
    case None
    then show ?thesis using Suc.prems(1,3) by simp
  qed
qed (auto split: if_splits)

lemma l_getLocalFromConfig_wf:
  assumes "client_wf c" and "l_getLocalFromConfig ini c = Inr c'"
  shows "client_wf c'"
proof (cases "0 < ci_done c")
  case False
  then obtain f c1 s where c: "config_loop f (nat (MAX_BACKEND_NODES + 1) - ci_nodes c) 0 c = Inr c1"
      "c' = c1\<lparr>ci_hosts := (ci_hosts c1)[nat MAX_BACKEND_NODES := s], ci_done := 1\<rparr>"
    using assms(2) by (auto simp: l_getLocalFromConfig_def bindr_eq_Inr_iff split: option.splits if_splits)
  have "nat (MAX_BACKEND_NODES + 1) = nat MAX_BACKEND_NODES + 1" by (simp add: MAX_BACKEND_NODES_def)
  then have "client_wf c1" using config_loop_wf [OF assms(1) _ c(1)] by simp
  then show ?thesis using c(2) by (simp add: client_wf_def)
qed (use assms in \<open>simp add: l_getLocalFromConfig_def\<close>)

lemma dev_loop_wf: "client_wf c \<Longrightarrow> dev_loop n i base k c = Inr c' \<Longrightarrow> client_wf c'"
proof (induction n arbitrary: k c)
  case (Suc n)
  then obtain ix lc where r: "updr (ci_index c) k (int i) = Inr ix" "updr (ci_local c) k (int k - base) = Inr lc"
      "dev_loop n i base (k + 1) (c\<lparr>ci_index := ix, ci_local := lc\<rparr>) = Inr c'"
    by (auto simp: bindr_eq_Inr_iff)
  have "client_wf (c\<lparr>ci_index := ix, ci_local := lc\<rparr>)"
    using Suc.prems(1) r(1,2) by (auto simp: client_wf_def updr_def split: if_splits)
  from Suc.IH [OF this r(3)] show ?case .
qed simp

lemma node_loop_wf: "client_wf c \<Longrightarrow> node_loop env n i k c = Inr c' \<Longrightarrow> client_wf c'"
proof (induction n arbitrary: i k c)
  case (Suc n)
  from Suc.prems(2) obtain c0 e cnt c1 c2 k1 b1 k2 where
      g: "rcudaGetDeviceCount env c0 (int i) c = Inr (e, cnt, c1)"
    and d: "dev_loop k1 i b1 k
         (c1\<lparr>ci_in_node := (ci_in_node c1)[i := cnt], ci_devices := ci_devices c1 + cnt\<rparr>) = Inr c2"
    and r: "node_loop env n (i + 1) k2 c2 = Inr c'"
    unfolding node_loop.simps bindr_eq_Inr_iff Let_def by (clarsimp simp: bindr_eq_Inr_iff)
  have "client_wf c1" by (rule rcuda_wf(3) [OF Suc.prems(1) g])
  then have "client_wf (c1\<lparr>ci_in_node := (ci_in_node c1)[i := cnt], ci_devices := ci_devices c1 + cnt\<rparr>)"
    by (simp add: client_wf_def)
  from Suc.IH [OF dev_loop_wf [OF this d] r] show ?case .
qed simp

lemma cumm_loop_wf: "client_wf c \<Longrightarrow> cumm_loop n i c = Inr c' \<Longrightarrow> client_wf c'"
proof (induction n arbitrary: i c)
  case (Suc n)
  then obtain a b cu where r: "updr (ci_cumm c) i (a + b) = Inr cu" "cumm_loop n (i + 1) (c\<lparr>ci_cumm := cu\<rparr>) = Inr c'"
    by (auto simp: bindr_eq_Inr_iff)
  have "client_wf (c\<lparr>ci_cumm := cu\<rparr>)" using Suc.prems(1) r(1) by (auto simp: client_wf_def updr_def split: if_splits)
  from Suc.IH [OF this r(2)] show ?case .
qed simp

lemma find_devices_wf: "client_wf c \<Longrightarrow> find_devices env c = Inr c' \<Longrightarrow> client_wf c'"
  by (auto simp: find_devices_def bindr_eq_Inr_iff dest: node_loop_wf [rotated] cumm_loop_wf [rotated])

section \<open>Registration\<close>

lemma all_nodes_wf:
  assumes "all_nodes f k i c = Inr c'" and "client_wf c"
    and "\<And>i c c'. f i c = Inr c' \<Longrightarrow> client_wf c \<Longrightarrow> client_wf c'"
  shows "client_wf c'"
  using assms(1,2)
proof (induction k arbitrary: i c)
  case (Suc k)
  from Suc.prems(1) obtain c1 where r: "f i c = Inr c1" "all_nodes f k (i + 1) c1 = Inr c'"
    by (auto simp: bindr_eq_Inr_iff)
  from Suc.IH [OF r(2) assms(3) [OF r(1) Suc.prems(2)]] show ?case .
qed simp

lemma set_handle_wf:
  assumes "client_wf c" and "set_handle c i h = Inr c'"
  shows "client_wf c'"
proof -
  obtain row row' where r: "nthri (ci_handles c) (ci_counter c - 1) = Inr row" "updr row i h = Inr row'"
      "c' = c\<lparr>ci_handles := (ci_handles c)[nat (ci_counter c - 1) := row']\<rparr>"
    using assms(2) by (auto simp: set_handle_def bindr_eq_Inr_iff)
  have "row \<in> set (ci_handles c)" using r(1) by (auto simp: nthri_def nthr_eq_Inr split: if_splits)
  then have "length row' = nat MAX_BACKEND_NODES"
    using assms(1) r(2) by (auto simp: client_wf_def updr_def split: if_splits)
  then show ?thesis using assms(1) r(3) by (auto simp: client_wf_def dest!: set_update_subset_insert [THEN subsetD])
qed

lemma register_packed_wf:
  "client_wf c \<Longrightarrow> register_packed env b n i c = Inr (h, c') \<Longrightarrow> client_wf c'"
  by (auto simp: register_packed_def bindr_eq_Inr_iff dest: remote_call_wf split: option.splits)

lemma r_cudaRegisterFatBinary_wf:
  assumes "client_wf c"
  shows "r_cudaRegisterFatBinary env f i c = Inr (h, c') \<Longrightarrow> client_wf c'"
    "r_cudaRegisterFatBinary_4 env f4 i c = Inr (h, c') \<Longrightarrow> client_wf c'"
  using assms unfolding r_cudaRegisterFatBinary_def r_cudaRegisterFatBinary_4_def
  by (auto simp: bindr_eq_Inr_iff dest: register_packed_wf split: if_splits)

lemma cudaRegisterFatBinary_wf:
  assumes "client_wf c" and "cudaRegisterFatBinary env ini fatC c = Inr c'"
  shows "client_wf c'"
proof -
  obtain c1 c2 where c: "l_getLocalFromConfig ini c = Inr c1"
      "(if ci_done c1 = 1 then find_devices env c1 else Inr c1) = Inr c2"
    and r: "(let c = c2\<lparr>ci_counter := ci_counter c2 + 1\<rparr> in
     (case fatC of OtherFat \<Rightarrow> Inr c
      | Fat32 f \<Rightarrow> all_nodes (\<lambda>i c. bindr (r_cudaRegisterFatBinary env f (int i) c)
          (\<lambda>(h, c). set_handle c i h)) (ci_nodes c) 0 c
      | Fat40 f \<Rightarrow> all_nodes (\<lambda>i c. bindr (r_cudaRegisterFatBinary_4 env f (int i) c)
          (\<lambda>(h, c). set_handle c i h)) (ci_nodes c) 0 c)) = Inr c'"
    using assms(2) unfolding cudaRegisterFatBinary_def bindr_eq_Inr_iff by blast
  have "client_wf c1" by (rule l_getLocalFromConfig_wf [OF assms(1) c(1)])
  then have w: "client_wf (c2\<lparr>ci_counter := ci_counter c2 + 1\<rparr>)"
    using c(2) find_devices_wf by (auto split: if_splits)
  show ?thesis
  proof (cases fatC)
    case (Fat32 f)
    show ?thesis using r unfolding Fat32 Let_def fat_image.case
      by (rule all_nodes_wf)
        (use w in \<open>auto simp: bindr_eq_Inr_iff dest!: r_cudaRegisterFatBinary_wf(1) [rotated] set_handle_wf [rotated]\<close>)
  next
    case (Fat40 f)
    show ?thesis using r unfolding Fat40 Let_def fat_image.case
      by (rule all_nodes_wf)
        (use w in \<open>auto simp: bindr_eq_Inr_iff dest!: r_cudaRegisterFatBinary_wf(2) [rotated] set_handle_wf [rotated]\<close>)
  qed (use r w in simp)
qed

lemma r_register_wf:
  assumes "client_wf c"
  shows "r_cudaUnregisterFatBinary env h i c = Inr c' \<Longrightarrow> client_wf c'"
    "r_cudaRegisterFunction env a i c = Inr c' \<Longrightarrow> client_wf c'"
    "r_cudaRegisterVar env v i c = Inr c' \<Longrightarrow> client_wf c'"
proof -
  assume "r_cudaUnregisterFatBinary env h i c = Inr c'"
  then show "client_wf c'" unfolding r_cudaUnregisterFatBinary_def
    by (clarsimp simp: bindr_eq_Inr_iff split: option.splits) (drule remote_call_wf [OF assms], simp)
next
  assume r: "r_cudaRegisterFunction env a i c = Inr c'"
  then have "en_alloc env" by (auto simp: r_cudaRegisterFunction_def split: if_splits)
  with r show "client_wf c'" unfolding r_cudaRegisterFunction_def
    by (clarsimp simp: bindr_eq_Inr_iff split: option.splits) (drule remote_call_wf [OF assms], simp)
next
  assume r: "r_cudaRegisterVar env v i c = Inr c'"
  then have "en_alloc env" "rv_fatCubinHandle v \<noteq> 0"
    by (auto simp: r_cudaRegisterVar_def bindr_eq_Inr_iff split: if_splits option.splits)
  with r show "client_wf c'" unfolding r_cudaRegisterVar_def Let_def
    by (auto simp: bindr_eq_Inr_iff dest!: remote_call_wf [OF assms] split: option.splits)
qed

lemma registrations_wf:
  assumes "client_wf c"
  shows "cudaUnregisterFatBinary env c = Inr c' \<Longrightarrow> client_wf c'"
    "cudaRegisterFunction env a c = Inr c' \<Longrightarrow> client_wf c'"
    "cudaRegisterVar env v c = Inr c' \<Longrightarrow> client_wf c'"
proof -
  assume "cudaUnregisterFatBinary env c = Inr c'"
  then obtain c1 where r: "all_nodes (\<lambda>i c. bindr (handle_at c (int i)) (\<lambda>h.
         r_cudaUnregisterFatBinary env h (int i) c)) (ci_nodes c) 0 c = Inr c1"
      "c' = c1\<lparr>ci_counter := ci_counter c1 - 1\<rparr>"
    unfolding cudaUnregisterFatBinary_def bindr_eq_Inr_iff by blast
  have "client_wf c1" using r(1)
    by (rule all_nodes_wf) (use assms in \<open>auto simp: bindr_eq_Inr_iff dest: r_register_wf(1) [rotated]\<close>)
  then show "client_wf c'" using r(2) by simp
next
  assume "cudaRegisterFunction env a c = Inr c'"
  then show "client_wf c'" unfolding cudaRegisterFunction_def
    by (rule all_nodes_wf) (use assms in \<open>auto simp: bindr_eq_Inr_iff dest: r_register_wf(2) [rotated]\<close>)
next
  assume "cudaRegisterVar env v c = Inr c'"
  then show "client_wf c'" unfolding cudaRegisterVar_def
    by (rule all_nodes_wf) (use assms in \<open>auto simp: bindr_eq_Inr_iff dest: r_register_wf(3) [rotated]\<close>)
qed

lemma api_do_wf:
  assumes "client_wf c" and "api_do env a c = Inr c'"
  shows "client_wf c'"
proof (cases a)
  case Thread_exit
  then show ?thesis using assms(2) by (auto simp: bindr_eq_Inr_iff dest!: cuda_calls_wf(1) [OF assms(1)])
next
  case Thread_synchronize
  then show ?thesis using assms(2) by (auto simp: bindr_eq_Inr_iff dest!: cuda_calls_wf(2) [OF assms(1)])
next
  case (Configure_call g b sm st)
  then show ?thesis using assms(2) by (auto simp: bindr_eq_Inr_iff dest!: cuda_calls_wf(3) [OF assms(1)])
next
  case (Setup_argument x sz off)
  then show ?thesis using assms(2) by (auto simp: bindr_eq_Inr_iff dest!: cuda_calls_wf(4) [OF assms(1)])
next
  case (Launch k)
  then show ?thesis using assms(2) by (auto simp: bindr_eq_Inr_iff dest!: cuda_calls_wf(5) [OF assms(1)])
next
  case (Malloc p v sz)
  then show ?thesis using assms(2) by (auto simp: bindr_eq_Inr_iff dest!: cuda_calls_wf(6) [OF assms(1)])
next
  case (Free p)
  then show ?thesis using assms(2) by (auto simp: bindr_eq_Inr_iff dest!: cuda_calls_wf(7) [OF assms(1)])
next
  case (Memcpy d x n k)
  then show ?thesis using assms(2) by (auto simp: bindr_eq_Inr_iff dest!: cuda_calls_wf(8) [OF assms(1)])
next
  case (Memcpy_to_symbol x1 x2 x3 x4 x5)
  then show ?thesis using assms(2) by (auto simp: bindr_eq_Inr_iff dest!: cuda_calls_wf(9) [OF assms(1)])
next
  case (Memcpy_from_symbol x1 x2 x3 x4 x5)
  then show ?thesis using assms(2) by (auto simp: bindr_eq_Inr_iff dest!: cuda_calls_wf(10) [OF assms(1)])
next
  case (Get_device_properties p n d)
  then show ?thesis using assms(2) by (auto simp: bindr_eq_Inr_iff cudaGetDevice_def dest!: cudaGetDeviceProperties_wf [OF assms(1)])
next
  case (Set_device d)
  then show ?thesis using assms(2) by (auto simp: bindr_eq_Inr_iff cudaGetDevice_def dest!: cudaSetDevice_wf [OF assms(1)])
next
  case (Register_fat_binary ini f)
  then show ?thesis using assms(2) by (auto simp: bindr_eq_Inr_iff cudaGetDevice_def dest!: cudaRegisterFatBinary_wf [OF assms(1)])
next
  case Unregister_fat_binary
  then show ?thesis using assms(2) by (auto simp: bindr_eq_Inr_iff cudaGetDevice_def dest!: registrations_wf(1) [OF assms(1)])
next
  case (Register_function f)
  then show ?thesis using assms(2) by (auto simp: bindr_eq_Inr_iff cudaGetDevice_def dest!: registrations_wf(2) [OF assms(1)])
next
  case (Register_var f)
  then show ?thesis using assms(2) by (auto simp: bindr_eq_Inr_iff cudaGetDevice_def dest!: registrations_wf(3) [OF assms(1)])
next
  case Get_device
  then show ?thesis using assms(2) by (auto simp: bindr_eq_Inr_iff cudaGetDevice_def dest!: cur_dev_wf [OF assms(1)])
next
  case (Getcwd sz)
  then show ?thesis using assms by (auto simp: getcwd_def)
qed

text \<open>The global variables before the program starts.\<close>

definition client0 :: "'n \<Rightarrow> 'n client" where
  "client0 net = \<lparr>ci_err = 0, ci_cur = None, ci_nodes = 0, ci_devices = 0,
     ci_hosts = replicate (nat MAX_BACKEND_NODES + 1) [], ci_in_node = replicate (nat MAX_BACKEND_NODES) 0,
     ci_index = replicate MAX_INTERPOSED_DEVICES 0, ci_local = replicate MAX_INTERPOSED_DEVICES 0,
     ci_cumm = replicate (MAX_INTERPOSED_DEVICES + 1) 0, ci_first_node = 0, ci_first_local = 0,
     ci_done = 0, ci_handles = replicate MAX_FATCUBIN_HANDLES (replicate (nat MAX_BACKEND_NODES) 0),
     ci_counter = 0, ci_vars = None, ci_share = 1, ci_net = net\<rparr>"

lemma client0_wf: "client_wf (client0 net)"
  by (simp add: client_wf_def client0_def)

lemma api_run_wf: "client_wf c \<Longrightarrow> api_run env as c = Inr c' \<Longrightarrow> client_wf c'"
  by (induction as arbitrary: c) (auto simp: bindr_eq_Inr_iff dest: api_do_wf)

text \<open>Whatever calls an application has made without reading beyond an array, the arrays of the
  client library have their declared sizes, and the look-up of the current device, with which every
  call starts, does not leave the device table: the call goes to the backend that the table gives.\<close>

lemma client_stays_typed:
  assumes "api_run env as (client0 net) = Inr c"
  shows "client_wf c \<and> (en_alloc env \<longrightarrow> (\<exists>idx c1. client_wf c1 \<and> (\<forall>f. on_cur_dev env f c = f idx c1)))"
  using api_run_wf [OF client0_wf assms] on_cur_dev_in_bounds by blast

lemma demo_api_run:
  "api_run demo_cenv [Getcwd 40, Get_device] (client0 []) = Inr ((client0 [])\<lparr>ci_share := 40, ci_cur := Some 0\<rparr>)"
  by (simp add: getcwd_def cudaGetDevice_def cur_dev_def client0_def demo_cenv_def)

lemma client_stays_typed_witness:
  "client_wf ((client0 [] :: byte list option node list client)\<lparr>ci_share := 40, ci_cur := Some 0\<rparr>)
   \<and> (\<exists>idx c1. \<forall>f. on_cur_dev demo_cenv f ((client0 [])\<lparr>ci_share := 40, ci_cur := Some 0\<rparr>) = f idx c1)"
proof -
  have "en_alloc demo_cenv" by (simp add: demo_cenv_def)
  then show ?thesis using client_stays_typed [OF demo_api_run] by blast
qed

section \<open>The choice of a device\<close>

text \<open>The two packets of \<open>cudaSetDevice\<close>: to the scheduler, and to the node of the device.\<close>

definition get_device_packet :: "'n client_env \<Rightarrow> 'n client \<Rightarrow> cuda_packet" where
  "get_device_packet env c = (call_packet env (method_num CUDA_GET_DEVICE))\<lparr>
     pk_arg0 := set_argi (ci_devices c) zero_args, pk_arg1 := set_argi (ci_first_local c) zero_args,
     pk_arg2 := set_argi 0 zero_args, pk_is_feedback_packet := 0\<rparr>"

definition set_device_packet :: "'n client_env \<Rightarrow> 'n client \<Rightarrow> int \<Rightarrow> cuda_packet" where
  "set_device_packet env c l = (call_packet env (method_num CUDA_SET_DEVICE))\<lparr>
     pk_arg0 := set_argi l zero_args, pk_arg1 := set_argi 0 zero_args, pk_arg2 := set_argi (ci_share c) zero_args\<rparr>"

text \<open>C14. \<open>cudaSetDevice\<close> does not set the device it is asked for. It asks the global scheduler, the node
  behind the backends, for one of all devices, and takes the answer as an index of the device table
  without a check: outside the table the client reads beyond its arrays. Otherwise the node that the
  table gives is told to use its local device, with the share of the application, and all later
  calls of the thread go to that node. When the scheduler cannot serve the request the client goes on
  with the entry behind the last device.\<close>

theorem set_device_follows_scheduler:
  assumes "en_alloc env" and "length (ci_local c) = length (ci_index c)"
    and ask: "nvbackCudaGetDevice_rpc (en_rpc env MAX_BACKEND_NODES) (get_device_packet env c) (ci_net c)
      = Inr (r, p, net1)"
    and d: "d = (if r = OK then sint (ucast (arg_lo (pk_arg0 p)) :: u32) else ci_devices c)"
  shows "(d < 0 \<or> int (length (ci_index c)) \<le> d \<longrightarrow> cudaSetDevice env device c = Inl OutOfBounds)
    \<and> (0 \<le> d \<and> d < int (length (ci_index c)) \<longrightarrow> (\<forall>q net2.
        nvbackCudaSetDevice_rpc (en_rpc env (ci_index c ! nat d))
          (set_device_packet env c (ci_local c ! nat d)) net1 = Inr (OK, q, net2) \<longrightarrow>
        (\<exists>c'. cudaSetDevice env device c = Inr (cudaSuccess, c') \<and> ci_net c' = net2 \<and> ci_cur c' = Some d
           \<and> (\<forall>f. on_cur_dev env f c' = f (ci_index c ! nat d) c'))))"
proof -
  let ?c = "c\<lparr>ci_cur := Some (case ci_cur c of None \<Rightarrow> 0 | Some x \<Rightarrow> x)\<rparr>"
  let ?c1 = "?c\<lparr>ci_err := sync_err r p, ci_net := net1\<rparr>"
  have cur: "\<exists>x. cur_dev env c = Inr (x, ?c)"
    using assms(1) by (cases "ci_cur c") (auto simp: cur_dev_def)
  have 1: "rcudaGetDevice env (ci_devices ?c) MAX_BACKEND_NODES 0 ?c = Inr (sync_err r p, d, ?c1)"
    using ask d assms(1) by (simp add: rcudaGetDevice_def remote_call_alloc no_rsp_def get_device_packet_def)
  have 2: "rcudaSetDevice env l idx 0 ?c1 = bindr (nvbackCudaSetDevice_rpc (en_rpc env idx) (set_device_packet env c l) net1)
      (\<lambda>(r, q, net2). Inr (async_err r q, ?c1\<lparr>ci_err := async_err r q, ci_net := net2\<rparr>))" for l idx
    using assms(1) by (cases "nvbackCudaSetDevice_rpc (en_rpc env idx) (set_device_packet env c l) net1")
      (auto simp: rcudaSetDevice_def returning_err_def remote_call_alloc no_rsp_def set_device_packet_def split: prod.split)
  have "cudaSetDevice env device c = Inl OutOfBounds" if "d < 0 \<or> int (length (ci_index c)) \<le> d"
    using cur 1 that assms(2) by (auto simp: cudaSetDevice_def nthri_def nthr_def)
  moreover have "\<exists>c'. cudaSetDevice env device c = Inr (cudaSuccess, c') \<and> ci_net c' = net2 \<and> ci_cur c' = Some d
      \<and> (\<forall>f. on_cur_dev env f c' = f (ci_index c ! nat d) c')"
    if h: "0 \<le> d" "d < int (length (ci_index c))" "nvbackCudaSetDevice_rpc (en_rpc env (ci_index c ! nat d))
          (set_device_packet env c (ci_local c ! nat d)) net1 = Inr (OK, q, net2)" for q net2
  proof -
    have l: "nthri (ci_local ?c1) d = Inr (ci_local c ! nat d)" "nthri (ci_index ?c1) d = Inr (ci_index c ! nat d)"
      using h(1,2) assms(2) by (simp_all add: nthri_def nthr_def nat_less_iff)
    have "cudaSetDevice env device c = Inr (cudaSuccess,
        ?c1\<lparr>ci_err := cudaSuccess, ci_net := net2, ci_cur := Some d\<rparr>)"
      using cur 1 2 [of "ci_local c ! nat d" "ci_index c ! nat d"] l h(3)
      by (auto simp: cudaSetDevice_def async_err_def)
    then show ?thesis using l(2) by (auto simp: on_cur_dev_def cur_dev_def)
  qed
  ultimately show ?thesis by blast
qed

text \<open>A network that answers every request itself: device 2 of the table is chosen, whatever is asked for.\<close>

definition demo_answer :: "int \<Rightarrow> int list rpc" where
  "demo_answer i p req n rsp rn net =
     Inr (set_err cudaSuccess (p\<lparr>pk_arg0 := set_argi 2 (pk_arg0 p)\<rparr>), rsp, net @ [i])"

theorem set_device_follows_scheduler_witness:
  "\<exists>c'. cudaSetDevice \<lparr>en_alloc = True, en_malloc = \<lambda>n. None, en_buf = 0, en_thread = 1,
      en_rpc = demo_answer, en_mem = \<lambda>a. None\<rparr> 0 ((demo_client [])\<lparr>ci_index := [0, 0, 1], ci_local := [0, 1, 0]\<rparr>)
    = Inr (cudaSuccess, c') \<and> ci_cur c' = Some 2 \<and> ci_net c' = [MAX_BACKEND_NODES, 1]"
proof -
  let ?env = "\<lparr>en_alloc = True, en_malloc = \<lambda>n. None, en_buf = 0, en_thread = 1,
      en_rpc = demo_answer, en_mem = \<lambda>a. None\<rparr> :: int list client_env"
  let ?c = "(demo_client [])\<lparr>ci_index := [0, 0, 1], ci_local := [0, 1, 0]\<rparr> :: int list client"
  let ?p = "set_err cudaSuccess ((get_device_packet ?env ?c)\<lparr>pk_arg0 := set_argi 2 (pk_arg0 (get_device_packet ?env ?c))\<rparr>)"
  have 1: "nvbackCudaGetDevice_rpc (en_rpc ?env MAX_BACKEND_NODES) (get_device_packet ?env ?c) (ci_net ?c)
      = Inr (OK, ?p, [MAX_BACKEND_NODES])"
    by (simp add: nvbackCudaGetDevice_rpc_def sync_rpc_def demo_answer_def err_status_def demo_client_def
        pkt_err_def set_err_def)
  have 2: "sint (ucast (arg_lo (pk_arg0 ?p)) :: u32) = 2" by (simp add: set_argi_def)
  have 3: "\<exists>q. nvbackCudaSetDevice_rpc (en_rpc ?env (ci_index ?c ! nat 2))
      (set_device_packet ?env ?c (ci_local ?c ! nat 2)) [MAX_BACKEND_NODES] = Inr (OK, q, [MAX_BACKEND_NODES, 1])"
    by (simp add: nvbackCudaSetDevice_rpc_def async_rpc_def demo_answer_def)
  show ?thesis
    using set_device_follows_scheduler [of ?env ?c OK ?p "[MAX_BACKEND_NODES]" 2 0] 1 2 3 by auto
qed

end
