(* ===== verification/App_Registration.thy ===== *)
theory App_Registration
  imports Client_Types Marshal_Properties
begin

text \<open>
  The start of a program and its use of a device variable through the whole stack: the fat
  binary of CUDA 4.0, the variables and the copies to symbols go from the interposer over the
  connection to the handlers, which register them with the CUDA runtime of the node.
\<close>

section \<open>Requests that carry packed arguments\<close>

definition reg_packet :: "'n client_env \<Rightarrow> method_id \<Rightarrow> nat \<Rightarrow> cuda_packet" where
  "reg_packet env m n = (call_packet env (method_num m))\<lparr>
     pk_flags := or CUDA_request CUDA_Copytype, pk_arg0 := set_argp (en_buf env) zero_args,
     pk_arg1 := set_argi (int n) zero_args\<rparr>"

lemma reg_packet_sel [simp]: "pk_method_id (reg_packet env m n) = method_num m"
  by (simp add: reg_packet_def)

lemma reg_packet_eq [simp]:
  "(call_packet env (method_num m))\<lparr>pk_flags := or (pk_flags (call_packet env (method_num m))) CUDA_Copytype,
     pk_arg0 := set_argp (en_buf env) zero_args, pk_arg1 := set_argi (int n) zero_args\<rparr>
   = reg_packet env m n"
  by (simp add: reg_packet_def call_packet_def set_err_def zero_packet_def)

lemma size_int [simp]: "n < 2 ^ 31 \<Longrightarrow>
    sint (ucast (arg_lo (set_argi (int n) zero_args)) :: u32) = int n"
  using count_int [of n] by (simp add: set_argi_def)

lemma reg_packet_args [simp]:
  "arg_lo (pk_arg1 (reg_packet env m n)) = arg_lo (set_argi (int n) zero_args)"
  by (simp add: reg_packet_def)

lemma expects_registrations [simp]:
  "method_expects_response (method_num CUDA_REGISTER_FAT_BINARY)"
  "method_expects_response (method_num CUDA_REGISTER_FUNCTION)"
  "method_expects_response (method_num CUDA_REGISTER_VARIABLE)"
  "method_expects_response (method_num CUDA_MEMCPY_TO_SYMBOL)"
  by (simp_all add: method_expects_response_def sync_methods_def)

lemma fits_conn_req: "b \<noteq> [] \<Longrightarrow> length b < 2 ^ 31 \<Longrightarrow>
    req_fits (Some b) (int (length b)) b \<and> rsp_fits None 0 (conn_req b)"
  by (simp add: req_fits_def rsp_fits_def rsp_ok_def)

lemma le_ne [simp]: "le32 x \<noteq> []" "le64 y \<noteq> []"
  by (metis length_0_conv length_le32 zero_neq_numeral, metis length_0_conv length_le64 zero_neq_numeral)

lemma le_image_ne [simp]: "fat4_image f \<noteq> []" "reg_var_image a \<noteq> []"
  by (simp_all add: fat4_image_def reg_var_image_def split: prod.splits)

text \<open>A block of the counted size is packed completely.\<close>

lemma pack_fat4:
  assumes "fat4_wf f" and "malloc_ok (en_malloc env)"
    and "en_malloc env (int (length (fat4_image f))) \<noteq> None"
  shows "pack_fat env (getFatRecPktSize_4 f) (packFatBinary_4 f) = Inr (fat4_image f, int (length (fat4_image f)))"
proof -
  let ?n = "length (fat4_image f)"
  obtain b where b: "en_malloc env (int ?n) = Some b" using assms(3) by auto
  then have l: "length b = ?n" using assms(2) by (auto simp: malloc_ok_def)
  have "packFatBinary_4 f empty_cache b (Some 0) = Inr (splice b 0 (fat4_image f), int ?n)"
    using writes_fat4 [OF assms(1)] l by (simp add: writes_apply)
  then show ?thesis using b l by (simp add: pack_fat_def fat4_size [OF assms(1)] splice_def ERROR_def)
qed

section \<open>Registration over the interface\<close>

context remote_gpu begin

lemma register_sent:
  assumes env: "en_rpc env idx = rpc" "en_alloc env" and up: "up (ci_net c) st"
    and b: "b \<noteq> []" "length b < 2 ^ 31" and m: "method_expects_response (method_num m)"
    and exec: "exec (reg_packet env m (length b)) b st = Inr (p', conn_req b, st')"
    and send: "send = nvback_cudaRegister_rpc \<and> r = err_status p'
      \<or> send = nvback_cudaRegisterFatBinary_rpc \<and> r = (if pk_ret_ex_val p' \<noteq> 0 then OK else ERROR)"
  shows "\<exists>net'. remote_call env (method_num m)
      (\<lambda>p. p\<lparr>pk_flags := or (pk_flags p) CUDA_Copytype, pk_arg0 := set_argp (en_buf env) (pk_arg0 p),
        pk_arg1 := set_argi (int (length b)) (pk_arg1 p)\<rparr>)
      (no_rsp (send (en_rpc env idx) (bytes_at b))) err c
    = Inr (Some (r, p'\<lparr>pk_vmmap := 0, pk_kmap := 0\<rparr>, None),
        c\<lparr>ci_err := err r (p'\<lparr>pk_vmmap := 0, pk_kmap := 0\<rparr>), ci_net := net'\<rparr>) \<and> up net' st'"
proof -
  have f: "req_fits (Some b) (int (length b)) b" "rsp_fits None 0 (conn_req b)"
    using fits_conn_req [OF b] by simp_all
  obtain net' where r: "rpc (reg_packet env m (length b)) (Some b) (int (length b)) None 0 (ci_net c)
      = Inr (p'\<lparr>pk_vmmap := 0, pk_kmap := 0\<rparr>, None, net')" "up net' st'"
    using deliver [OF up f(1) exec f(2)] m by (auto simp: rsp_stored_def)
  show ?thesis
    using r send env b(2)
    by (intro exI [of _ net']) (auto simp: remote_call_alloc no_rsp_def nvback_cudaRegister_rpc_def
        nvback_cudaRegisterFatBinary_rpc_def bytes_at_def err_status_def)
qed

text \<open>The fat binary: the handle the runtime of the node gave comes back.\<close>

lemma r_cudaRegisterFatBinary_4_returns:
  assumes env: "en_rpc env idx = rpc" "en_alloc env" and up: "up (ci_net c) st"
    and f: "fat4_wf f" "length (fat4_image f) < 2 ^ 31"
    and al: "malloc_ok (en_malloc env)" "en_malloc env (int (length (fat4_image f))) \<noteq> None"
    and exec: "exec (reg_packet env CUDA_REGISTER_FAT_BINARY (length (fat4_image f))) (fat4_image f) st
      = Inr (p', conn_req (fat4_image f), st')"
    and h: "pk_ret_ex_val p' \<noteq> 0"
  shows "\<exists>net'. r_cudaRegisterFatBinary_4 env f idx c = Inr (pk_ret_ex_val p', c\<lparr>ci_net := net'\<rparr>)
    \<and> up net' st'"
proof -
  show ?thesis
    using register_sent [OF env up le_image_ne(1) f(2) expects_registrations(1) exec,
        of nvback_cudaRegisterFatBinary_rpc OK "\<lambda>r p. if r \<noteq> OK then cudaErrorUnknown else ci_err c"]
      h env(2)
    by (force simp: r_cudaRegisterFatBinary_4_def pack_fat4 [OF f(1) al] register_packed_def)
qed

text \<open>A variable: it is entered into the table of the application whatever the answer is.\<close>

lemma r_cudaRegisterVar_returns:
  assumes env: "en_rpc env idx = rpc" "en_alloc env" and up: "up (ci_net c) st"
    and a: "reg_var_wf a" "length (reg_var_image a) < 2 ^ 31" "rv_fatCubinHandle a \<noteq> 0"
    and al: "malloc_ok (en_malloc env)" "en_malloc env (int (length (reg_var_image a))) \<noteq> None"
    and exec: "exec (reg_packet env CUDA_REGISTER_VARIABLE (length (reg_var_image a))) (reg_var_image a) st
      = Inr (p', conn_req (reg_var_image a), st')"
    and err: "pkt_err p' = cudaSuccess"
  shows "\<exists>net'. r_cudaRegisterVar env a idx c = Inr (c\<lparr>ci_err := cudaSuccess, ci_net := net',
      ci_vars := Some (fst (g_vars_insert (case ci_vars c of None \<Rightarrow> [] | Some t \<Rightarrow> t) (rv_fatCubinHandle a)
        (Some (g_vars_val_new (rv_hostVar a) (rv_deviceName a)))))\<rparr>) \<and> up net' st'"
proof -
  have pk: "packRegVar (en_malloc env) a = Inr (Some (reg_var_image a), int (length (reg_var_image a)))"
    using pack_allocated_exact [OF al(1) writes_reg_var [OF a(1)] reg_var_size] al(2)
    by (simp add: packRegVar_def reg_var_size)
  show ?thesis
    using register_sent [OF env up le_image_ne(2) a(2) expects_registrations(3) exec,
        of nvback_cudaRegister_rpc OK sync_err]
      err env(2) a(3) pk
    by (force simp: r_cudaRegisterVar_def err_status_def sync_err_def Let_def)
qed

end

section \<open>The handlers of the registration\<close>

lemma holds_at_self: "holds_at s 0 s"
  by (simp add: holds_at_def)

lemma srv_register_fat2:
  assumes "fat4_wf f" and "se_small env" and "se_reg_fat2 env (fat4_view f) (bs_gpu st) = (h, g)"
  shows "nvback_cudaRegisterFatBinary2_srv env p (conn_req (fat4_image f)) st =
    Inr (OK, p\<lparr>pk_arg1 := set_argp (se_fat_addr env) (pk_arg1 p), pk_ret_ex_val := h\<rparr>,
      conn_req (fat4_image f), st\<lparr>bs_gpu := g, bs_fatc := Some ((case bs_fatc st of None \<Rightarrow> [] | Some cs \<Rightarrow> cs)
        @ [fci_calloc\<lparr>fi_fatCubinHandle := h, fi_fatCubin := Some (FatCubin2 (fat4_view f))\<rparr>])\<rparr>)"
  using assms reads_apply [OF reads_fat4 [OF assms(1)] holds_at_self]
  by (simp add: nvback_cudaRegisterFatBinary2_srv_def req_buf_def req_ptr_def)

lemma srv_register_var:
  assumes "reg_var_wf a" and "se_small env"
    and "fcia_update st (rv_fatCubinHandle a) (add_var (reg_var_view a)) = Inr st1"
  shows "nvback_cudaRegisterVar_srv env p (conn_req (reg_var_image a)) st =
    Inr (OK, set_err cudaSuccess p, conn_req (reg_var_image a),
      st1\<lparr>bs_gpu := se_reg_var env (reg_var_view a) (bs_gpu st1)\<rparr>)"
proof -
  have "unpackRegVar (reg_var_image a) (Some 0) = Inr (Some (reg_var_view a), OK)"
    unfolding unpackRegVar_def by (rule status_of_reads [OF reads_reg_var [OF assms(1)]])
  moreover have "va_fatCubinHandle (reg_var_view a) = rv_fatCubinHandle a" by (simp add: reg_var_view_def)
  ultimately show ?thesis
    using assms(2,3) by (simp add: nvback_cudaRegisterVar_srv_def req_buf_def req_ptr_def)
qed

section \<open>The registered variable and its symbol\<close>

lemma fcia_update_last:
  assumes "bs_fatc st = Some (cs @ [e])" and "fi_fatCubinHandle e = h"
    and "h \<notin> fi_fatCubinHandle ` set cs" and "f e = Inr e'"
  shows "fcia_update st h f = Inr (st\<lparr>bs_fatc := Some (cs @ [e'])\<rparr>)"
proof -
  have "takeWhile (\<lambda>e. fi_fatCubinHandle e \<noteq> h) (cs @ [e]) = cs"
    using assms(2,3) by (subst takeWhile_append2) (auto simp: image_iff)
  then have "g_fcia_idx (Some (cs @ [e])) h = int (length cs)"
    using assms(2) by (simp add: g_fcia_idx_def fcia_idx_loop_spec)
  then show ?thesis
    using assms(1,4) by (simp add: fcia_update_def g_fcia_elidx_def Let_def)
qed

text \<open>The slot of the fat binary that was registered last.\<close>

definition with_var :: "u64 \<Rightarrow> fat_cubin \<Rightarrow> reg_var_args \<Rightarrow> fatcubin_info" where
  "with_var h f a = fci_calloc\<lparr>fi_fatCubinHandle := h, fi_fatCubin := Some f, fi_num_reg_vars := 1,
     fi_variables := (fi_variables fci_calloc)[0 := Some a]\<rparr>"

lemma add_var_first:
  "add_var a (fci_calloc\<lparr>fi_fatCubinHandle := h, fi_fatCubin := Some f\<rparr>) = Inr (with_var h f a)"
  by (simp add: add_var_def with_var_def fci_calloc_def MAX_REGISTERED_VARS_def)

lemma find_symbol_last:
  assumes "bs_fatc st = Some (cs @ [with_var h f a])" and "\<forall>p \<in> set cs. fci_wf p"
    and "va_hostVar a = hv"
  shows "find_symbol st hv = Inr (Some (length cs, 0))"
proof -
  let ?e = "with_var h f a" let ?ps = "cs @ [?e]"
  have v: "holds_var ?e hv m \<longleftrightarrow> m = 0" for m
    using assms(3) by (auto simp: holds_var_def slot_has_def with_var_def fci_calloc_def MAX_REGISTERED_VARS_def)
  have "fci_wf ?e" by (simp add: fci_wf_def with_var_def fci_calloc_def MAX_REGISTERED_VARS_def MAX_REGISTERED_FUNCS_def)
  then have w: "\<forall>p \<in> set ?ps. fci_wf p" using assms(2) by auto
  have x: "\<exists>p \<in> set ?ps. \<exists>m. holds_var p hv m" using v by auto
  obtain n m where r: "fcia_host_loop ?ps hv 0 (None, -1) = Inr (Some n, int m)" "n < length ?ps"
    "holds_var (?ps ! n) hv m" "\<forall>n'. n < n' \<longrightarrow> n' < length ?ps \<longrightarrow> (\<forall>m'. \<not> holds_var (?ps ! n') hv m')"
    using fcia_host_loop_spec [OF w, of hv 0 "(None, -1)"] unfolding if_P [OF x] by auto
  have n: "n = length cs"
  proof (rule ccontr)
    assume "n \<noteq> length cs"
    then have "n < length cs" using r(2) by simp
    then have "\<not> holds_var (?ps ! length cs) hv 0" using r(4) [rule_format, of "length cs" 0] by simp
    then show False using v by simp
  qed
  then have "m = 0" using r(3) v by simp
  then show ?thesis
    using r(1) n assms(1) by (simp add: find_symbol_def g_fcia_host_var_def MAX_REGISTERED_VARS_def)
qed

definition symbol_packet :: "'n client_env \<Rightarrow> u64 \<Rightarrow> u64 \<Rightarrow> nat \<Rightarrow> u64 \<Rightarrow> cuda_packet" where
  "symbol_packet env hv src n off = (call_packet env (method_num CUDA_MEMCPY_TO_SYMBOL))\<lparr>
     pk_arg0 := set_argp hv zero_args, pk_arg1 := set_argp src zero_args,
     pk_arg2 := \<lparr>arg_lo = word_of_nat n, arg_hi = off\<rparr>, pk_arg3 := set_argi 1 zero_args,
     pk_flags := or CUDA_request CUDA_Copytype\<rparr>"

lemma symbol_packet_sel [simp]:
  "pk_method_id (symbol_packet env hv src n off) = method_num CUDA_MEMCPY_TO_SYMBOL"
  "arg_lo (pk_arg0 (symbol_packet env hv src n off)) = hv"
  "pk_arg2 (symbol_packet env hv src n off) = \<lparr>arg_lo = word_of_nat n, arg_hi = off\<rparr>"
  "pk_arg3 (symbol_packet env hv src n off) = set_argi 1 zero_args"
  by (simp_all add: symbol_packet_def)

lemma srv_to_symbol:
  assumes "argn (pk_arg3 p) = 1" and "pk_arg2 p = \<lparr>arg_lo = word_of_nat (length d), arg_hi = off\<rparr>"
    and "d \<noteq> []" "length d < 2 ^ 31" and "find_symbol st (arg_lo (pk_arg0 p)) = Inr (Some v)"
    and "se_to_symbol env v (Some d) (word_of_nat (length d)) off 1 (bs_gpu st) = (e, g)"
  shows "\<exists>r p'. nvbackCudaMemcpyToSymbol_srv env p (conn_req d) st
    = Inr (r, p', conn_req d, st\<lparr>bs_gpu := g\<rparr>) \<and> pkt_err p' = e"
proof -
  have "(ucast (word_of_nat (length d) :: u32) :: u64) = word_of_nat (length d)"
    by (subst word_unat_eq_iff) (use assms(4) in \<open>simp add: unat_of_nat unsigned_ucast_eq take_bit_nat_eq_self\<close>)
  then show ?thesis
    using assms by (simp add: nvbackCudaMemcpyToSymbol_srv_def Let_def reply_def)
qed

section \<open>A symbol over the interface\<close>

context remote_gpu begin

lemma rcudaMemcpyToSymbol_returns:
  assumes env: "en_rpc env idx = rpc" "en_alloc env" "en_mem env src = Some d"
    and up: "up (ci_net c) st" and d: "d \<noteq> []" "length d < 2 ^ 31"
    and hv: "g_vars_find (ci_vars c) smb = Inr hv" "hv \<noteq> 0"
    and exec: "exec (symbol_packet env hv src (length d) off) d st = Inr (p', conn_req d, st')"
  shows "\<exists>net'. rcudaMemcpyToSymbol env smb src (word_of_nat (length d)) off 1 idx c =
      (let e = (if pkt_err p' = cudaSuccess then cudaSuccess else cudaErrorUnknown) in
       Inr (e, c\<lparr>ci_err := e, ci_net := net'\<rparr>)) \<and> up net' st'"
proof -
  let ?p = "symbol_packet env hv src (length d) off"
  have f: "req_fits (Some d) (int (length d)) d" "rsp_fits None 0 (conn_req d)"
    using fits_conn_req [OF d] by simp_all
  obtain net' where r: "rpc ?p (Some d) (int (length d)) None 0 (ci_net c)
      = Inr (p'\<lparr>pk_vmmap := 0, pk_kmap := 0\<rparr>, None, net')" "up net' st'"
    using deliver [OF up f(1) exec f(2)] by (auto simp: rsp_stored_def)
  let ?m = "method_num CUDA_MEMCPY_TO_SYMBOL"
  have p: "(call_packet env ?m)\<lparr>pk_arg0 := set_argp hv zero_args, pk_arg1 := set_argp src zero_args,
      pk_arg2 := \<lparr>arg_lo = word_of_nat (length d), arg_hi = off\<rparr>, pk_arg3 := set_argi 1 zero_args,
      pk_flags := or (pk_flags (call_packet env ?m)) CUDA_Copytype\<rparr> = ?p"
    by (simp add: symbol_packet_def call_packet_def set_err_def zero_packet_def)
  have one: "(ucast (arg_lo (set_argi 1 zero_args)) :: u32) = 1" by (simp add: set_argi_def)
  have a1: "arg_lo (pk_arg1 ?p) = src" by (simp add: symbol_packet_def)
  show ?thesis
    using r env d hv one a1
    by (intro exI [of _ net']) (simp add: rcudaMemcpyToSymbol_def remote_call_alloc p no_rsp_def
        nvbackCudaMemcpyToSymbol_rpc_def returning_err_def sync_err_def err_status_def Let_def
        cudaErrorUnknown_def cudaSuccess_def)
qed

end

section \<open>Registered, and used\<close>

lemma executed_registration:
  fixes env :: "'g srv_env"
  defines "up \<equiv> \<lambda>p vm km. p\<lparr>pk_is_feedback_packet := 0, pk_vmmap := vm, pk_kmap := km\<rparr>"
  shows "pk_method_id p = method_num CUDA_REGISTER_FAT_BINARY \<Longrightarrow>
      nvback_cudaRegisterFatBinary2_srv env (up p vm km) (conn_req d) st = Inr (r, p', sc', st') \<Longrightarrow>
      executed env vm km p d st = Inr (p', sc', st')"
    and "pk_method_id p = method_num CUDA_REGISTER_VARIABLE \<Longrightarrow>
      nvback_cudaRegisterVar_srv env (up p vm km) (conn_req d) st = Inr (r, p', sc', st') \<Longrightarrow>
      executed env vm km p d st = Inr (p', sc', st')"
    and "pk_method_id p = method_num CUDA_MEMCPY_TO_SYMBOL \<Longrightarrow>
      nvbackCudaMemcpyToSymbol_srv env (up p vm km) (conn_req d) st = Inr (r, p', sc', st') \<Longrightarrow>
      executed env vm km p d st = Inr (p', sc', st')"
  unfolding up_def
  by (auto simp: executed_def pkt_execute_def pkt_handler_def srv_handlers_def srv_handler_def)

text \<open>One node; the program has found its devices and is about to register.\<close>

definition one_node :: "'g node list client_env \<Rightarrow> 'g world \<Rightarrow> 'g node list client \<Rightarrow> bool" where
  "one_node env w c \<longleftrightarrow> app_on env w 0 c \<and> ci_nodes c = 1 \<and> ci_done c = 2 \<and> client_wf c
     \<and> 0 \<le> ci_counter c \<and> ci_counter c < int MAX_FATCUBIN_HANDLES
     \<and> malloc_ok (en_malloc env) \<and> (\<forall>n. en_malloc env n \<noteq> None)"

lemma one_node_register:
  assumes on: "one_node env w c" "node_up w 0 (ci_net c) st"
    and f: "fat4_wf f" "length (fat4_image f) < 2 ^ 31" "se_small (wo_env w)"
    and h: "se_reg_fat2 (wo_env w) (fat4_view f) (bs_gpu st) = (h, g)" "h \<noteq> 0"
  shows "\<exists>c1 st1. cudaRegisterFatBinary env ini (Fat40 f) c = Inr c1 \<and> app_on env w 0 c1
    \<and> ci_nodes c1 = 1 \<and> handle_at c1 0 = Inr h \<and> ci_vars c1 = ci_vars c \<and> node_up w 0 (ci_net c1) st1
    \<and> bs_gpu st1 = g \<and> bs_fatc st1 = Some ((case bs_fatc st of None \<Rightarrow> [] | Some cs \<Rightarrow> cs)
        @ [fci_calloc\<lparr>fi_fatCubinHandle := h, fi_fatCubin := Some (FatCubin2 (fat4_view f))\<rparr>])"
proof -
  let ?c = "c\<lparr>ci_counter := ci_counter c + 1\<rparr>"
  have env: "en_rpc env 0 = stack_rpc w 0" "en_alloc env" using on(1) by (auto simp: one_node_def app_on_def)
  have al: "malloc_ok (en_malloc env)" "en_malloc env (int (length (fat4_image f))) \<noteq> None"
    using on(1) by (auto simp: one_node_def)
  let ?p = "reg_packet env CUDA_REGISTER_FAT_BINARY (length (fat4_image f))"
  let ?q = "?p\<lparr>pk_is_feedback_packet := 0, pk_vmmap := wo_vm w, pk_kmap := wo_km w\<rparr>"
  note x = executed_registration(1) [OF reg_packet_sel srv_register_fat2 [OF f(1,3) h(1), of ?q]]
  obtain net' where r: "r_cudaRegisterFatBinary_4 env f 0 ?c = Inr (h, ?c\<lparr>ci_net := net'\<rparr>)"
      "node_up w 0 net' (st\<lparr>bs_gpu := g, bs_fatc := Some ((case bs_fatc st of None \<Rightarrow> [] | Some cs \<Rightarrow> cs)
        @ [fci_calloc\<lparr>fi_fatCubinHandle := h, fi_fatCubin := Some (FatCubin2 (fat4_view f))\<rparr>])\<rparr>)"
    using stack.r_cudaRegisterFatBinary_4_returns [OF env(1,2) _ f(1,2) al x, of ?c] on(2) h(2) by auto
  let ?k = "nat (ci_counter c)" let ?row = "ci_handles c ! ?k"
  have k: "?k < length (ci_handles c)" "0 < length ?row" "0 \<le> ci_counter c" "ci_counter c < int (length (ci_handles c))"
    using on(1) by (auto simp: one_node_def client_wf_def MAX_BACKEND_NODES_def nat_less_iff)
  let ?c1 = "?c\<lparr>ci_net := net', ci_handles := (ci_handles c)[?k := ?row[0 := h]]\<rparr>"
  have s: "set_handle (?c\<lparr>ci_net := net'\<rparr>) 0 h = Inr ?c1"
    using k by (simp add: set_handle_def nthri_def)
  have "cudaRegisterFatBinary env ini (Fat40 f) c = Inr ?c1"
    using on(1) r(1) s by (simp add: one_node_def cudaRegisterFatBinary_def l_getLocalFromConfig_def)
  moreover have "handle_at ?c1 0 = Inr h" using k by (simp add: handle_at_def nthri_def)
  moreover have "app_on env w 0 ?c1" using on(1) by (simp add: one_node_def app_on_def)
  ultimately show ?thesis using r(2) on(1)
    by (intro exI [of _ ?c1] exI [of _ "st\<lparr>bs_gpu := g, bs_fatc := Some ((case bs_fatc st of
      None \<Rightarrow> [] | Some cs \<Rightarrow> cs) @ [fci_calloc\<lparr>fi_fatCubinHandle := h,
      fi_fatCubin := Some (FatCubin2 (fat4_view f))\<rparr>])\<rparr>"]) (simp add: one_node_def)
qed

lemma bindr_Inr: "bindr r Inr = r"
  by (cases r) simp_all

lemma one_node_register_var:
  assumes on: "app_on env w 0 c" "ci_nodes c = 1" "handle_at c 0 = Inr h" "node_up w 0 (ci_net c) st"
    and al: "malloc_ok (en_malloc env)" "\<forall>n. en_malloc env n \<noteq> None"
    and a: "reg_var_wf a" "length (reg_var_image a) < 2 ^ 31" "se_small (wo_env w)" "h \<noteq> 0"
    and st: "bs_fatc st = Some (cs @ [fci_calloc\<lparr>fi_fatCubinHandle := h, fi_fatCubin := Some f\<rparr>])"
      "h \<notin> fi_fatCubinHandle ` set cs"
  defines "b \<equiv> a\<lparr>rv_fatCubinHandle := h\<rparr>"
  shows "\<exists>c1 st1. cudaRegisterVar env a c = Inr c1 \<and> app_on env w 0 c1 \<and> node_up w 0 (ci_net c1) st1
    \<and> ci_vars c1 = Some (fst (g_vars_insert (case ci_vars c of None \<Rightarrow> [] | Some t \<Rightarrow> t) h
        (Some (g_vars_val_new (rv_hostVar a) (rv_deviceName a)))))
    \<and> bs_gpu st1 = se_reg_var (wo_env w) (reg_var_view b) (bs_gpu st)
    \<and> bs_fatc st1 = Some (cs @ [with_var h f (reg_var_view b)])"
proof -
  have env: "en_rpc env 0 = stack_rpc w 0" "en_alloc env" using on(1) by (auto simp: app_on_def)
  have b: "reg_var_wf b" "length (reg_var_image b) < 2 ^ 31" "rv_fatCubinHandle b = h"
    using a by (simp_all add: b_def reg_var_wf_def reg_var_image_def)
  have al': "en_malloc env (int (length (reg_var_image b))) \<noteq> None" using al(2) by blast
  let ?st = "st\<lparr>bs_fatc := Some (cs @ [with_var h f (reg_var_view b)])\<rparr>"
  have u: "fcia_update st (rv_fatCubinHandle b) (add_var (reg_var_view b)) = Inr ?st"
    unfolding b(3) by (rule fcia_update_last [OF st(1) _ st(2)]) (simp_all add: add_var_first)
  let ?p = "reg_packet env CUDA_REGISTER_VARIABLE (length (reg_var_image b))"
  let ?q = "?p\<lparr>pk_is_feedback_packet := 0, pk_vmmap := wo_vm w, pk_kmap := wo_km w\<rparr>"
  note x = executed_registration(2) [OF reg_packet_sel srv_register_var [OF b(1) a(3) u, of ?q]]
  obtain net' where r: "r_cudaRegisterVar env b 0 c = Inr (c\<lparr>ci_err := cudaSuccess, ci_net := net',
      ci_vars := Some (fst (g_vars_insert (case ci_vars c of None \<Rightarrow> [] | Some t \<Rightarrow> t) h
        (Some (g_vars_val_new (rv_hostVar b) (rv_deviceName b)))))\<rparr>)"
      "node_up w 0 net' (?st\<lparr>bs_gpu := se_reg_var (wo_env w) (reg_var_view b) (bs_gpu ?st)\<rparr>)"
    using stack.r_cudaRegisterVar_returns [OF env on(4) b(1,2) _ al(1) al' x] b(3) a(4) by auto
  have "cudaRegisterVar env a c = r_cudaRegisterVar env b 0 c"
    using on(2,3) bindr_Inr [of "r_cudaRegisterVar env b 0 c"] by (simp add: cudaRegisterVar_def b_def)
  then show ?thesis
    using r on(1) by (intro exI [of _ "c\<lparr>ci_err := cudaSuccess, ci_net := net', ci_vars := Some (fst
      (g_vars_insert (case ci_vars c of None \<Rightarrow> [] | Some t \<Rightarrow> t) h
        (Some (g_vars_val_new (rv_hostVar b) (rv_deviceName b)))))\<rparr>"]
      exI [of _ "?st\<lparr>bs_gpu := se_reg_var (wo_env w) (reg_var_view b) (bs_gpu ?st)\<rparr>"])
      (simp add: b_def app_on_def)
qed

lemma one_node_symbol:
  assumes on: "app_on env w 0 c" "node_up w 0 (ci_net c) st" "en_mem env src = Some d"
    and d: "d \<noteq> []" "length d < 2 ^ 31" and hv: "g_vars_find (ci_vars c) smb = Inr hv" "hv \<noteq> 0"
    and v: "find_symbol st hv = Inr (Some v)"
    and dev: "se_to_symbol (wo_env w) v (Some d) (word_of_nat (length d)) off 1 (bs_gpu st) = (e, g)"
  shows "\<exists>c1 st1. cudaMemcpyToSymbol env smb src (word_of_nat (length d)) off 1 c
      = Inr (if e = cudaSuccess then cudaSuccess else cudaErrorUnknown, c1)
    \<and> node_up w 0 (ci_net c1) st1 \<and> bs_gpu st1 = g"
proof -
  have env: "en_rpc env 0 = stack_rpc w 0" "en_alloc env" using on(1) by (auto simp: app_on_def)
  let ?p = "symbol_packet env hv src (length d) off"
  let ?q = "?p\<lparr>pk_is_feedback_packet := 0, pk_vmmap := wo_vm w, pk_kmap := wo_km w\<rparr>"
  have q: "argn (pk_arg3 ?q) = 1" "pk_arg2 ?q = \<lparr>arg_lo = word_of_nat (length d), arg_hi = off\<rparr>"
    "arg_lo (pk_arg0 ?q) = hv"
    by (simp_all add: argn_def set_argi_def)
  obtain r p' where h: "nvbackCudaMemcpyToSymbol_srv (wo_env w) ?q (conn_req d) st
      = Inr (r, p', conn_req d, st\<lparr>bs_gpu := g\<rparr>)" "pkt_err p' = e"
    using srv_to_symbol [OF q(1,2) d, of st v "wo_env w" e g] q(3) v dev by auto
  note x = executed_registration(3) [OF symbol_packet_sel(1) h(1)]
  show ?thesis
    using stack.rcudaMemcpyToSymbol_returns [OF env on(3,2) d hv x] h(2) on(1)
    by (auto simp: cudaMemcpyToSymbol_def on_cur_dev_app Let_def cong: if_cong
      intro!: exI [of _ "st\<lparr>bs_gpu := g\<rparr>"])
qed

text \<open>C5. A program registers its fat binary, registers a device variable of it and copies data to
  the variable by its symbol, all through the interposer. Then the CUDA runtime of the node has
  been called with the fat binary and with the arguments of the variable as the program gave
  them (strings cut at their end), and it copies the program's data to the variable that was
  registered with this fat binary, whatever other fat binaries the backend has. The program gets
  \<open>cudaSuccess\<close> when the runtime does; every error of the runtime becomes \<open>cudaErrorUnknown\<close>.\<close>

theorem app_symbol_reaches_device:
  fixes w :: "'g world"
  assumes on: "one_node env w c" "node_up w 0 (ci_net c) st" "se_small (wo_env w)"
    and fatc: "cs = (case bs_fatc st of None \<Rightarrow> [] | Some cs \<Rightarrow> cs)" "\<forall>p \<in> set cs. fci_wf p"
    and f: "fat4_wf f" "length (fat4_image f) < 2 ^ 31"
      "se_reg_fat2 (wo_env w) (fat4_view f) (bs_gpu st) = (h, g)" "h \<noteq> 0" "h \<notin> fi_fatCubinHandle ` set cs"
    and a: "reg_var_wf a" "length (reg_var_image a) < 2 ^ 31" "rv_hostVar a \<noteq> 0" "rv_deviceName a \<noteq> None"
    and tab: "vars_inv (case ci_vars c of None \<Rightarrow> [] | Some t \<Rightarrow> t)"
    and d: "en_mem env src = Some d" "d \<noteq> []" "length d < 2 ^ 31"
    and dev: "se_to_symbol (wo_env w) (length cs, 0) (Some d) (word_of_nat (length d)) off 1
      (se_reg_var (wo_env w) (reg_var_view (a\<lparr>rv_fatCubinHandle := h\<rparr>)) g) = (e, g')"
  shows "\<exists>c1 c2 c3 st3. cudaRegisterFatBinary env ini (Fat40 f) c = Inr c1
    \<and> cudaRegisterVar env a c1 = Inr c2
    \<and> cudaMemcpyToSymbol env (Some (rv_hostVar a, s)) src (word_of_nat (length d)) off 1 c2
        = Inr (if e = cudaSuccess then cudaSuccess else cudaErrorUnknown, c3)
    \<and> node_up w 0 (ci_net c3) st3 \<and> bs_gpu st3 = g'"
proof -
  let ?b = "reg_var_view (a\<lparr>rv_fatCubinHandle := h\<rparr>)" let ?fc = "FatCubin2 (fat4_view f)"
  let ?tab = "case ci_vars c of None \<Rightarrow> [] | Some t \<Rightarrow> t"
  let ?v = "g_vars_val_new (rv_hostVar a) (rv_deviceName a)"
  let ?t = "fst (g_vars_insert ?tab h (Some ?v))"
  obtain c1 st1 where 1: "cudaRegisterFatBinary env ini (Fat40 f) c = Inr c1" "app_on env w 0 c1"
    "ci_nodes c1 = 1" "handle_at c1 0 = Inr h" "ci_vars c1 = ci_vars c" "node_up w 0 (ci_net c1) st1"
    "bs_gpu st1 = g" "bs_fatc st1 = Some (cs @ [fci_calloc\<lparr>fi_fatCubinHandle := h, fi_fatCubin := Some ?fc\<rparr>])"
    using one_node_register [OF on(1,2) f(1,2) on(3) f(3,4), of ini] fatc(1) by auto
  obtain c2 st2 where 2: "cudaRegisterVar env a c1 = Inr c2" "app_on env w 0 c2" "node_up w 0 (ci_net c2) st2"
    "ci_vars c2 = Some ?t" "bs_gpu st2 = se_reg_var (wo_env w) ?b g" "bs_fatc st2 = Some (cs @ [with_var h ?fc ?b])"
    using one_node_register_var [OF 1(2,3,4,6) _ _ a(1,2) on(3) f(4) 1(8) f(5)] on(1) 1(5,7)
    by (auto simp: one_node_def)
  have n: "vv_deviceName ?v \<noteq> None" "vv_hostVar ?v = rv_hostVar a" using a(4) by (auto simp: g_vars_val_new_def)
  have "g_vars_find (Some ?t) (Some (rv_hostVar a, s)) = Inr (vv_hostVar ?v)"
    using host_vars.inv_register [OF tab f(4) n(1)] host_vars.content_register [OF tab f(4) n(1)] n(2)
    by (intro host_vars.lookup_address) auto
  then have hv: "g_vars_find (ci_vars c2) (Some (rv_hostVar a, s)) = Inr (rv_hostVar a)" using 2(4) n(2) by simp
  have v: "find_symbol st2 (rv_hostVar a) = Inr (Some (length cs, 0))"
    by (rule find_symbol_last [OF 2(6) fatc(2)]) (simp add: reg_var_view_def)
  show ?thesis
    using one_node_symbol [OF 2(2,3) d hv a(3) v] dev 2(5) 1(1) 2(1) by metis
qed

text \<open>\<open>__nvback_cudaUnregisterFatBinary_srv\<close> frees every fat binary through the structure of CUDA
  3.2, also one that \<open>__nvback_cudaRegisterFatBinary2_srv\<close> unpacked: it reads behind its block.\<close>

lemma unregister_fat4_reads_outside:
  assumes "bs_fatc st = Some (cs @ [fci_calloc\<lparr>fi_fatCubinHandle := h, fi_fatCubin := Some (FatCubin2 f)\<rparr>])"
    and "h \<notin> fi_fatCubinHandle ` set cs" and "arg_lo (pk_arg0 p) = h"
  shows "nvback_cudaUnregisterFatBinary_srv env p sc st = Inl OutOfBounds"
proof -
  let ?e = "fci_calloc\<lparr>fi_fatCubinHandle := h, fi_fatCubin := Some (FatCubin2 f)\<rparr>"
  have "takeWhile (\<lambda>e. fi_fatCubinHandle e \<noteq> h) (cs @ [?e]) = cs"
    using assms(2) by (subst takeWhile_append2) (auto simp: image_iff)
  then have "g_fcia_idx (Some (cs @ [?e])) h = int (length cs)"
    by (simp add: g_fcia_idx_def fcia_idx_loop_spec)
  then have "g_fcia_elidx (bs_fatc st) (arg_lo (pk_arg0 p)) = (Some ?e, int (length cs))"
    using assms(1,3) by (simp add: g_fcia_elidx_def Let_def)
  then show ?thesis
    by (simp add: nvback_cudaUnregisterFatBinary_srv_def cleanFatCubinInfo_def fci_calloc_def freeFatBinary_def)
qed

text \<open>A node whose device holds the last bytes copied to a symbol; its backend has registered a fat
  binary of another program.\<close>

definition symbol_world :: "byte list option world" where
  "symbol_world = demo_world\<lparr>wo_env := demo_srv\<lparr>se_reg_fat2 := (\<lambda>f g. (0x7f00, g)),
     se_to_symbol := (\<lambda>v b n off k g. (0, b))\<rparr>\<rparr>"

definition symbol_cenv :: "byte list option node list client_env" where
  "symbol_cenv = demo_cenv\<lparr>en_malloc := demo_malloc, en_rpc := (\<lambda>i. stack_rpc symbol_world (nat i))\<rparr>"

definition symbol_client :: "byte list option node list client" where
  "symbol_client = (client0 (demo_net ((demo_st [])\<lparr>bs_fatc := Some [fci_calloc\<lparr>fi_fatCubinHandle := 1\<rparr>]\<rparr>)))
     \<lparr>ci_nodes := 1, ci_done := 2, ci_cur := Some 0\<rparr>"

lemma symbol_on: "one_node symbol_cenv symbol_world symbol_client"
  by (simp add: one_node_def app_on_def symbol_cenv_def symbol_client_def demo_cenv_def demo_malloc_ok
      client0_def client_wf_def demo_malloc_def MAX_INTERPOSED_DEVICES_def MAX_FATCUBIN_HANDLES_def)

theorem app_symbol_reaches_device_witness:
  "\<exists>c1 c2 c3 st3. cudaRegisterFatBinary symbol_cenv None (Fat40 demo_fat4) symbol_client = Inr c1
    \<and> cudaRegisterVar symbol_cenv demo_var c1 = Inr c2
    \<and> cudaMemcpyToSymbol symbol_cenv (Some (0x601040, [])) 0x50 3 0 1 c2 = Inr (cudaSuccess, c3)
    \<and> node_up symbol_world 0 (ci_net c3) st3 \<and> bs_gpu st3 = Some [1, 2, 3]"
proof -
  let ?p = "fci_calloc\<lparr>fi_fatCubinHandle := 1\<rparr>" let ?st = "(demo_st [])\<lparr>bs_fatc := Some [?p]\<rparr>"
  have up: "node_up symbol_world 0 (ci_net symbol_client) ?st"
    using demo_node_up [of ?st]
    by (simp add: symbol_world_def symbol_client_def node_up_def world_ok_def client0_def)
  have small: "se_small (wo_env symbol_world)" by (simp add: symbol_world_def demo_srv_def)
  have z: "l_getSize_regVar demo_var = 42" "getFatRecPktSize_4 demo_fat4 = Inr (32, empty_cache)"
    by code_simp+
  have f: "fat4_wf demo_fat4" by (simp add: fat4_wf_def demo_fat4_def str_wf_def cstr_def)
  have a: "reg_var_wf demo_var" by (simp add: reg_var_wf_def demo_var_def str_wf_def cstr_def)
  have n: "length (fat4_image demo_fat4) < 2 ^ 31" "length (reg_var_image demo_var) < 2 ^ 31"
    using z fat4_size [OF f] reg_var_size [of demo_var] by simp_all
  have d: "en_mem symbol_cenv 0x50 = Some [1, 2, 3]" by (simp add: symbol_cenv_def demo_cenv_def)
  have cs: "[?p] = (case bs_fatc ?st of None \<Rightarrow> [] | Some cs \<Rightarrow> cs)" "\<forall>p \<in> set [?p]. fci_wf p"
    by (simp_all add: fci_wf_def fci_calloc_def)
  have h: "se_reg_fat2 (wo_env symbol_world) (fat4_view demo_fat4) (bs_gpu ?st) = (0x7f00, Some [0, 0, 0, 0])"
    "(0x7f00::u64) \<noteq> 0" "0x7f00 \<notin> fi_fatCubinHandle ` set [?p]"
    by (simp_all add: symbol_world_def demo_st_def)
  have v: "rv_hostVar demo_var = 0x601040" "rv_hostVar demo_var \<noteq> 0" "rv_deviceName demo_var \<noteq> None"
    by (simp_all add: demo_var_def)
  have t: "vars_inv (case ci_vars symbol_client of None \<Rightarrow> [] | Some t \<Rightarrow> t)"
    by (simp add: vars_inv_def named_def tab_vars_def symbol_client_def client0_def)
  have l: "[1, 2, 3] \<noteq> ([] :: byte list)" "length [1, 2, 3 :: byte] < 2 ^ 31" by simp_all
  have e: "se_to_symbol (wo_env symbol_world) (length [?p], 0) (Some [1, 2, 3])
      (word_of_nat (length [1, 2, 3 :: byte])) 0 1 (se_reg_var (wo_env symbol_world)
        (reg_var_view (demo_var\<lparr>rv_fatCubinHandle := 0x7f00\<rparr>)) (Some [0, 0, 0, 0])) = (0, Some [1, 2, 3])"
    by (simp add: symbol_world_def)
  show ?thesis
    using app_symbol_reaches_device [OF symbol_on up small cs f n(1) h a n(2) v(2,3) t d l e, of None "[]"] v(1) cudaSuccess_def
    by simp
qed

end
