(* ===== verification/Handlers_Return.thy ===== *)
theory Handlers_Return
  imports Remote_Srv
begin

text \<open>
  No handler of the backend waits for ever: whatever it is sent, each of them comes back or the
  process dies in it, as long as the calls to the CUDA runtime, the sockets and the semaphores
  themselves come back. The one call that would loop, the launch of a kernel, is never reached. The
  lemmas follow the definitions, from the readers of the packets to the handlers.
\<close>

definition returns :: "'a cres \<Rightarrow> bool" where
  "returns r \<longleftrightarrow> r \<noteq> Inl Hangs"

named_theorems returning "calls that return"

lemma returns_bindr: "returns r \<Longrightarrow> (\<And>x. r = Inr x \<Longrightarrow> returns (k x)) \<Longrightarrow> returns (bindr r k)"
  by (cases r) (auto simp: returns_def)

lemma returns_values [simp]: "returns (Inr x)" "returns (Inl f) \<longleftrightarrow> f \<noteq> Hangs"
  by (simp_all add: returns_def)

lemma returns_access [simp]: "returns (nthr xs i)" "returns (nthri xs j)" "returns (updr xs i x)"
  by (simp_all add: nthr_def nthri_def updr_def)

section \<open>Reading the packets\<close>

definition reader_returns :: "'a unpacker \<Rightarrow> bool" where
  "reader_returns f \<longleftrightarrow> (\<forall>b c. returns (f b c))"

lemma reader_basic [returning]:
  "reader_returns (memcpy_from n)" "reader_returns (read_ret x)" "reader_returns read_u32" "reader_returns read_u64"
  by (auto simp: reader_returns_def memcpy_from_def read_ret_def read_u32_def read_u64_def
      intro!: returns_bindr split: option.split prod.split)

lemma reader_fault [returning]: "e \<noteq> Hangs \<Longrightarrow> reader_returns (read_fault e)"
  by (simp add: reader_returns_def read_fault_def)

lemma reader_if [returning]: "(c \<Longrightarrow> reader_returns f) \<Longrightarrow> (\<not> c \<Longrightarrow> reader_returns g) \<Longrightarrow>
    reader_returns (if c then f else g)"
  by simp

lemma reader_src [returning]: "reader_returns f \<Longrightarrow> reader_returns (if_src d f)"
  "reader_returns f \<Longrightarrow> reader_returns (if_src_err d f)"
  by (simp_all add: reader_returns_def if_src_def if_src_err_def)

lemma reader_then [returning]:
  "reader_returns f \<Longrightarrow> (\<And>x. reader_returns (k x)) \<Longrightarrow> reader_returns (then_read f k)"
  by (auto simp: reader_returns_def then_read_def intro!: returns_bindr split: option.split prod.split)

lemma reader_chk [returning]:
  "reader_returns f \<Longrightarrow> (\<And>x. reader_returns (k x)) \<Longrightarrow> reader_returns (read_chk f k)"
  by (auto simp: reader_returns_def read_chk_def intro!: returns_bindr split: option.split prod.split)

lemma reader_n [returning]: "reader_returns f \<Longrightarrow> reader_returns (unpack_n n f)"
  by (induction n) (auto intro!: returning)

lemma reader_arrays [returning]:
  "reader_returns f \<Longrightarrow> reader_returns (unpack_terminated w f t n)"
  "reader_returns f \<Longrightarrow> reader_returns (unpack_linked f t)"
  by (auto simp: unpack_terminated_def unpack_linked_def intro!: returning)

lemma reader_str [returning]:
  "reader_returns l_unpackStr" "reader_returns l_unpackUint3Ptr" "reader_returns l_unpackDim3Ptr"
  "reader_returns l_unpackIntPtr"
  by (auto simp: l_unpackStr_def l_unpackUint3Ptr_def l_unpackDim3Ptr_def l_unpackIntPtr_def intro!: returning)

lemma reader_elf_bytes [returning]: "reader_returns (unpack_elf_bytes n)"
  using reader_basic(1) [of "unat n"]
  by (auto simp: reader_returns_def unpack_elf_bytes_def l_unpackChars_def
      intro!: returns_bindr split: option.split prod.split)

lemma reader_entries [returning]:
  "reader_returns l_unpackPtx" "reader_returns l_unpackCubin" "reader_returns l_unpackDebug"
  "reader_returns l_unpackElf" "reader_returns l_unpackSymbol"
  by (auto simp: l_unpackPtx_def l_unpackCubin_def l_unpackDebug_def l_unpackElf_def l_unpackSymbol_def
      intro!: returning)

lemma reader_deps [returning]: "reader_returns unpack_imported_deps"
  using reader_entries(5) reader_basic(3)
  by (auto simp: reader_returns_def unpack_imported_deps_def l_unpackDep_def Let_def
      intro!: returns_bindr split: option.split prod.split)

lemma reader_structures [returning]:
  "reader_returns unpackFatBinary" "reader_returns unpackFatBinary_4" "reader_returns unpackRegFunc_body"
  "reader_returns unpackRegVar_body"
  unfolding unpackFatBinary_def unpackFatBinary_4_def unpackRegFunc_body_def unpackRegVar_body_def
  by (intro returning; simp)+

lemma returns_unpack:
  "returns (unpackFatBinary b c)" "returns (unpackFatBinary_4 b c)"
  "returns (unpackRegFuncArgs b c)" "returns (unpackRegVar b c)"
  using reader_structures
  by (auto simp: reader_returns_def unpackRegFuncArgs_def unpackRegVar_def status_of_def
      intro!: returns_bindr split: prod.split)

section \<open>The registry\<close>

lemma returns_scan:
  "returns (scan_vars vs hv k j)" "returns (fcia_host_loop ps hv i acc)" "returns (g_fcia_host_var arr hv)"
  "returns (scan_fns fns fun k j)" "returns (find_fn cs fun)"
proof -
  show s: "returns (scan_vars vs hv k j)" for vs hv k j
    by (induction k arbitrary: j) (auto intro!: returns_bindr split: option.split)
  show l: "returns (fcia_host_loop ps hv i acc)" for ps i acc
    by (induction ps arbitrary: i acc) (auto intro!: returns_bindr s split: option.split)
  show "returns (g_fcia_host_var arr hv)" by (auto simp: g_fcia_host_var_def l split: option.split)
  show f: "returns (scan_fns fns fun k j)" for fns k j
    by (induction k arbitrary: j) (auto intro!: returns_bindr split: option.split)
  show "returns (find_fn cs fun)"
    by (induction cs) (auto intro!: returns_bindr f split: option.split)
qed

lemma returns_free:
  "returns (free_block b st)" "returns (free_opt p b st)" "returns (free_list xs st)"
  "returns (free_entries a es i st)" "returns (free_array a q st)"
proof -
  show b: "returns (free_block b st)" for b st by (simp add: free_block_def)
  then show o: "returns (free_opt p b st)" for p b st by (simp add: free_opt_def)
  show "returns (free_list xs st)" by (induction xs arbitrary: st) (auto intro!: returns_bindr o)
  show e: "returns (free_entries a es i st)" for es i st
    by (induction es arbitrary: i st) (auto intro!: returns_bindr o)
  show "returns (free_array a q st)"
    by (auto simp: free_array_def intro!: returns_bindr b e split: option.split)
qed

lemma returns_clean: "returns (cleanFatCubinInfo p st)"
proof -
  have v: "returns (freeRegVar i a st)" "returns (freeRegFunc i f st)" for i a f st
    by (auto simp: freeRegVar_def freeRegFunc_def intro!: returns_bindr returns_free split: option.split)
  have s: "(\<And>i x st. returns (f i x st)) \<Longrightarrow> returns (free_slots f xs k i st)" for f xs k i st
    by (induction k arbitrary: i st) (auto intro!: returns_bindr)
  have "returns (freeFatBinary fc st)" for fc st
    by (auto simp: freeFatBinary_def intro!: returns_bindr returns_free split: option.split fat_cubin.split)
  then show ?thesis
    by (auto simp: cleanFatCubinInfo_def intro!: returns_bindr s v split: option.split)
qed

lemma returns_update: "(\<And>c. returns (f c)) \<Longrightarrow> returns (fcia_update st h f)"
  by (auto simp: fcia_update_def intro!: returns_bindr split: prod.split option.split)

lemma returns_add: "returns (add_fn a c)" "returns (add_var v c)"
  by (auto simp: add_fn_def add_var_def intro!: returns_bindr)

section \<open>The memory map and the kernel map\<close>

lemma returns_table:
  "returns (mem_map_creat rt hm t dv n x g)" "returns (mem_map_delete rt t x g)"
  "returns (mem_map_find_entry t is len dv)" "returns (mem_map_memcpy rt t x src sz ty g)"
proof -
  show "returns (mem_map_creat rt hm t dv n x g)"
    by (auto simp: mem_map_creat_def Let_def intro!: returns_bindr split: prod.split)
  show "returns (mem_map_delete rt t x g)"
    by (auto simp: mem_map_delete_def Let_def intro!: returns_bindr)
  have "returns (find_entry_loop t is dv i)" for "is" i
    by (induction "is" arbitrary: i) (auto intro!: returns_bindr)
  then show "returns (mem_map_find_entry t is len dv)" by (simp add: mem_map_find_entry_def)
  have c: "returns (copy_into d s k)" "returns (copy_from d k)" for d s k
    by (auto simp: copy_into_def copy_from_def split: option.split)
  show "returns (mem_map_memcpy rt t x src sz ty g)"
    by (auto simp: mem_map_memcpy_def mem_map_h2d_def mem_map_d2h_def Let_def intro!: returns_bindr c)
qed

lemma returns_kmap:
  "returns (kmap_add_config k a b c d)" "returns (kmap_add_arg k arg sz off v)" "returns (kmap_add_kernel k fn)"
proof -
  have u: "returns (kmap_upd k f)" for k f by (auto simp: kmap_upd_def intro!: returns_bindr)
  show "returns (kmap_add_config k a b c d)" "returns (kmap_add_arg k arg sz off v)" "returns (kmap_add_kernel k fn)"
    by (auto simp: kmap_add_config_def kmap_add_arg_def kmap_add_kernel_def intro!: returns_bindr u split: option.split)
qed

lemma returns_paging: "returns (gvirt_is_paging_required km i t)"
proof -
  have "returns (paging_loop t as req)" for "as" req
    by (induction "as" arbitrary: req) (auto intro!: returns_bindr)
  then show ?thesis by (auto simp: gvirt_is_paging_required_def intro!: returns_bindr)
qed

section \<open>The handlers\<close>

lemma returns_reply: "returns (reply p sc st)"
  by (simp add: reply_def)

text \<open>The paging test never gives 0, so the loop of the launch is not entered.\<close>

lemma returns_launch: "returns (launch_registered env a p sc st)"
proof -
  have "s \<noteq> 0" if "gvirt_is_paging_required km i t = Inr s" for km i t s
    using that by (auto simp: gvirt_is_paging_required_def bindr_eq_Inr_iff split: if_splits)
  then show ?thesis
    by (auto simp: launch_registered_def intro!: returns_bindr returns_kmap returns_paging split: prod.split)
qed

lemma returns_local: "returns (local_at st i)" "returns (local_set st n x)" "returns (find_local st dv)"
  by (auto simp: local_at_def local_set_def find_local_def intro!: returns_bindr returns_table)

lemma returns_memory:
  "returns (nvbackCudaMalloc_srv env p sc st)" "returns (nvbackCudaFree_srv env p sc st)"
  "returns (nvbackCudaMemcpy_srv env p sc st)"
proof -
  show "returns (nvbackCudaMalloc_srv env p sc st)"
    by (auto simp: nvbackCudaMalloc_srv_def Let_def
        intro!: returns_bindr returns_table returns_local returns_reply split: prod.split)
  show "returns (nvbackCudaFree_srv env p sc st)"
    by (auto simp: nvbackCudaFree_srv_def
        intro!: returns_bindr returns_table returns_local returns_reply split: prod.split)
  have "returns (vmem_copy env p sc dv st)" for p sc dv
    by (auto simp: vmem_copy_def Let_def
        intro!: returns_bindr returns_table returns_local returns_reply split: prod.split)
  then show "returns (nvbackCudaMemcpy_srv env p sc st)"
    by (simp add: nvbackCudaMemcpy_srv_def Let_def)
qed

lemma returns_kernels:
  "returns (nvbackCudaSetupArgument_srv env p sc st)" "returns (nvbackCudaConfigureCall_srv env p sc st)"
  "returns (nvbackCudaLaunch_srv env p sc st)"
  by (auto simp: nvbackCudaSetupArgument_srv_def nvbackCudaConfigureCall_srv_def nvbackCudaLaunch_srv_def Let_def
      intro!: returns_bindr returns_kmap returns_local returns_reply returns_scan returns_launch split: option.split)

lemma returns_find_symbol: "returns (find_symbol st hv)"
  by (auto simp: find_symbol_def intro!: returns_bindr returns_scan split: prod.split option.split)

lemma returns_symbols:
  "returns (nvbackCudaMemcpyToSymbol_srv env p sc st)" "returns (nvbackCudaMemcpyFromSymbol_srv env p sc st)"
  by (auto simp: nvbackCudaMemcpyToSymbol_srv_def nvbackCudaMemcpyFromSymbol_srv_def Let_def
      intro!: returns_bindr returns_find_symbol returns_reply split: prod.split option.split)

lemma returns_registration:
  "returns (nvback_cudaRegisterFatBinary2_srv env p sc st)" "returns (nvback_cudaRegisterFunction_srv env p sc st)"
  "returns (nvback_cudaRegisterVar_srv env p sc st)" "returns (nvback_cudaUnregisterFatBinary_srv env p sc st)"
  by (auto simp: nvback_cudaRegisterFatBinary2_srv_def nvback_cudaRegisterFunction_srv_def
      nvback_cudaRegisterVar_srv_def nvback_cudaUnregisterFatBinary_srv_def
      intro!: returns_bindr returns_unpack returns_update returns_add returns_clean split: prod.split option.split)

lemma returns_devices:
  "returns (nvbackCudaGetDeviceCount_srv env p sc st)" "returns (nvbackCudaGetDeviceProperties_srv env p sc st)"
  "returns (nvbackCudaGetDevice_srv env p sc st)" "returns (nvbackCudaSetDevice_srv env p sc st)"
  "returns (nvbackCudaThreadSynchronize_srv env p sc st)" "returns (nvbackCudaThreadExit_srv env p sc st)"
  by (auto simp: nvbackCudaGetDeviceCount_srv_def nvbackCudaGetDeviceProperties_srv_def nvbackCudaGetDevice_srv_def
      nvbackCudaSetDevice_srv_def nvbackCudaThreadSynchronize_srv_def nvbackCudaThreadExit_srv_def
      get_next_device_RR_def Let_def intro!: returns_bindr returns_reply split: prod.split option.split)

lemma returns_handler: "returns (srv_handlers env h p s)"
proof -
  have "returns (srv_handler env h p sc st)" for sc st
    by (cases h) (simp_all add: srv_handler_def returns_memory returns_kernels returns_symbols
        returns_registration returns_devices)
  then show ?thesis by (auto simp: srv_handlers_def intro!: returns_bindr split: prod.split)
qed

lemma returns_execute: "returns (pkt_execute (srv_handlers env) p s)"
  by (auto simp: pkt_execute_def returns_handler split: option.split)

section \<open>Receiving and responding\<close>

lemma returns_put: "returns (put sndf fd msg n s)"
proof -
  have "returns (put_loop sndf r m s)" for r m s
    by (induction sndf r m s rule: put_loop.induct) (subst put_loop.simps, auto simp: Let_def)
  then show ?thesis by (simp add: put_def split: option.split)
qed

lemma returns_respond: "returns (backend_respond sndf fd st p sc s)"
  by (auto simp: backend_respond_def strm_expects_response_def conn_sendCudaPktHdr_def Let_def
      intro!: returns_bindr returns_put split: prod.split)

lemma returns_receive: "returns (backend_receive rcv fd mok s)"
  by (auto simp: backend_receive_def Let_def split: prod.split)

lemma returns_serve: "returns (backend_serve sndf rcv fd mok (srv_handlers env) vm km st s)"
  by (auto simp: backend_serve_def Let_def intro!: returns_bindr returns_receive returns_execute returns_respond
      split: prod.split option.split)

end
