(* ===== verification/Backend_Conn.thy ===== *)
theory Backend_Conn
  imports Remote_Properties Handlers_Return
begin

text \<open>
  A connection from its first request to its end: the loop of \<open>backend_thread\<close> in
  backend/backend.c, and \<open>handle_req\<close> of Global_Sched/global_sched.c, the same loop in the
  global scheduler, which has no memory map and takes a thread off its device at the end.
\<close>

section \<open>The loop\<close>

text \<open>
  \<open>while (1)\<close>: \<open>serve\<close> is the body, its boolean says whether it went on (\<open>continue\<close> or the
  end of the body) or left the loop with \<open>break\<close>.
\<close>

partial_function (option) conn_loop :: "('s \<Rightarrow> sock \<Rightarrow> (bool \<times> 's \<times> sock) cres) \<Rightarrow> 's \<Rightarrow> sock
    \<Rightarrow> ('s \<times> sock) cres option" where
  "conn_loop serve st s = (case serve st s of Inl f \<Rightarrow> Some (Inl f)
     | Inr (go, st', s') \<Rightarrow> if go then conn_loop serve st' s' else Some (Inr (st', s')))"

lemma conn_loop_go: "serve st s = Inr (True, st', s') \<Longrightarrow> conn_loop serve st s = conn_loop serve st' s'"
  by (subst conn_loop.simps) simp

lemma conn_loop_stop: "serve st s = Inr (False, st', s') \<Longrightarrow> conn_loop serve st s = Some (Inr (st', s'))"
  by (subst conn_loop.simps) simp

definition backend_conn :: "xfer \<Rightarrow> xfer \<Rightarrow> int \<Rightarrow> (nat \<Rightarrow> bool) \<Rightarrow> 'g srv_env
    \<Rightarrow> u64 \<Rightarrow> u64
    \<Rightarrow> 'g backend_st \<Rightarrow> sock \<Rightarrow> ('g backend_st \<times> sock) cres option" where
  "backend_conn sndf rcv fd mok env vm km =
     conn_loop (backend_serve sndf rcv fd mok (srv_handlers env) vm km)"

text \<open>
  The loop body of the global scheduler. The state has the application type with it, which a
  \<open>cudaGetDevice\<close> packet brings in its third argument.
\<close>

definition gs_serve :: "xfer \<Rightarrow> xfer \<Rightarrow> int \<Rightarrow> (nat \<Rightarrow> bool)
    \<Rightarrow> (handler \<Rightarrow> cuda_packet \<Rightarrow> srv_conn \<times> 's \<Rightarrow> (cuda_packet \<times> srv_conn \<times> 's) cres)
    \<Rightarrow> 's \<times> int \<Rightarrow> sock \<Rightarrow> (bool \<times> ('s \<times> int) \<times> sock) cres" where
  "gs_serve sndf rcv fd mok srv st s =
     bindr (backend_receive rcv fd mok s) (\<lambda>(req, s).
     (case req of None \<Rightarrow> Inr (False, st, s) | Some None \<Rightarrow> Inr (True, st, s)
      | Some (Some (strm, sc)) \<Rightarrow>
        bindr (nthr (st_rpkts strm) 0) (\<lambda>p.
        bindr (pkt_execute srv p (sc, fst st)) (\<lambda>(p, sc, st').
        let app = (if pk_method_id p = method_num CUDA_GET_DEVICE then argn (pk_arg2 p) else snd st);
            strm = strm\<lparr>st_rpkts := (st_rpkts strm)[0 := p]\<rparr> in
        bindr (backend_respond sndf fd strm p sc s) (\<lambda>(go, s). Inr (go, (st', app), s))))))"

definition handle_req :: "xfer \<Rightarrow> xfer \<Rightarrow> int \<Rightarrow> (nat \<Rightarrow> bool) \<Rightarrow> 'g srv_env
    \<Rightarrow> 'g backend_st \<Rightarrow> sock \<Rightarrow> ('g backend_st \<times> sock) cres option" where
  "handle_req sndf rcv fd mok env st s =
     (case conn_loop (gs_serve sndf rcv fd mok (srv_handlers env)) (st, -1) s of
        None \<Rightarrow> None
      | Some r \<Rightarrow> Some (bindr r (\<lambda>((st, app), s).
          bindr (dec_thread_count_per_device (bs_assigned st) (bs_dev st)) (\<lambda>b.
          Inr (st\<lparr>bs_dev := b\<rparr>, s)))))"

section \<open>Every connection ends\<close>

lemma get_loop_consumes:
  "get_loop rcv remain got s = (r, b, s') \<Longrightarrow> length (sk_in s') \<le> length (sk_in s)
     \<and> (r = 1 \<and> 0 < remain \<longrightarrow> int (length (sk_in s')) + remain \<le> int (length (sk_in s)))"
proof (induction rcv remain got s rule: get_loop.induct)
  case (1 rcv remain got s)
  show ?case
  proof (cases "0 < remain")
    case False
    then show ?thesis using 1(2) by (subst (asm) get_loop.simps) auto
  next
    case True
    let ?n = "nat (xfer_chunk remain)" let ?r = "rcv (sk_calls s) ?n"
    let ?r' = "if ?r \<le> 0 then ?r else min ?r (int (length (sk_in s)))"
    let ?s = "s\<lparr>sk_calls := sk_calls s + 1, sk_in := drop (nat ?r') (sk_in s)\<rparr>"
    show ?thesis
    proof (cases "?r' \<le> 0")
      case r: True
      have "get_loop rcv remain got s = (?r', got, s\<lparr>sk_calls := sk_calls s + 1\<rparr>)"
        using True r by (subst get_loop.simps) (simp add: Let_def)
      then have "r = ?r'" "sk_in s' = sk_in s" using 1(2) by auto
      then show ?thesis using r by auto
    next
      case False
      then have "get_loop rcv remain got s
          = get_loop rcv (remain - ?r') (got @ take (nat ?r') (sk_in s)) ?s"
        using True by (subst get_loop.simps) (simp add: Let_def)
      then have "get_loop rcv (remain - ?r') (got @ take (nat ?r') (sk_in s)) ?s = (r, b, s')"
        using 1(2) by simp
      note ih = 1(1) [OF True refl refl refl False this]
      define x where "x = ?r'"
      have x: "0 < x" "x \<le> int (length (sk_in s))"
        using False unfolding x_def by (simp_all split: if_splits)
      have "length (sk_in s') \<le> length (sk_in s) - nat x"
        "r = 1 \<and> 0 < remain - x \<longrightarrow>
           int (length (sk_in s')) + (remain - x) \<le> int (length (sk_in s) - nat x)"
        using ih unfolding x_def [symmetric] by auto
      then show ?thesis using x True by (cases "x < remain") auto
    qed
  qed
qed

lemma get_consumes:
  assumes "get rcv (Some fd) ok n s = (r, b, s')"
  shows "length (sk_in s') \<le> length (sk_in s)"
    and "r = 1 \<Longrightarrow> 0 < n \<Longrightarrow> int (length (sk_in s')) + n \<le> int (length (sk_in s))"
  using assms get_loop_consumes [of rcv n "[]" s r b s']
  by (auto simp: get_def EINVAL_def split: if_splits)

lemma put_loop_input: "put_loop sndf remain msg s = Inr (r, s') \<Longrightarrow> sk_in s' = sk_in s"
proof (induction sndf remain msg s rule: put_loop.induct)
  case (1 sndf remain msg s)
  then show ?case
    by (subst (asm) (2) put_loop.simps) (auto simp: Let_def split: if_splits)
qed

lemma put_input: "put sndf fd msg n s = Inr (r, s') \<Longrightarrow> sk_in s' = sk_in s"
  using put_loop_input by (auto simp: put_def split: option.splits if_splits)

lemma send_hdr_input: "conn_sendCudaPktHdr sndf fd st n sz s = Inr (r, st', s') \<Longrightarrow> sk_in s' = sk_in s"
  using put_input by (auto simp: conn_sendCudaPktHdr_def bindr_eq_Inr_iff)

lemma backend_respond_input:
  "backend_respond sndf fd st p sc s = Inr (go, s') \<Longrightarrow> sk_in s' = sk_in s"
  by (auto simp: backend_respond_def bindr_eq_Inr_iff split: if_splits
      dest!: put_input send_hdr_input)

text \<open>A round that goes on has taken a header off the stream.\<close>

lemma backend_receive_consumes:
  assumes "backend_receive rcv fd mok s = Inr (req, s')"
  shows "length (sk_in s') \<le> length (sk_in s)"
    and "req \<noteq> None \<Longrightarrow> length (sk_in s') + 8 \<le> length (sk_in s)"
proof -
  obtain r hb s1 where h: "get rcv (Some fd) True 8 s = (r, hb, s1)" by (metis prod_cases3)
  obtain num dsz where n: "hdr_of_bytes hb = (num, dsz)" by force
  obtain r2 pb s2 where p: "get rcv (Some fd) True (batch_bytes num) s1 = (r2, pb, s2)"
    by (metis prod_cases3)
  obtain r3 db s3 where d: "get rcv (Some fd) True (sint dsz) s2 = (r3, db, s3)"
    by (metis prod_cases3)
  have l: "length (sk_in s1) \<le> length (sk_in s)" "length (sk_in s2) \<le> length (sk_in s1)"
    "length (sk_in s3) \<le> length (sk_in s2)"
    using get_consumes(1) [OF h] get_consumes(1) [OF p] get_consumes(1) [OF d] .
  have c: "r = 1 \<Longrightarrow> length (sk_in s1) + 8 \<le> length (sk_in s)" using get_consumes(2) [OF h] by simp
  have e: "r \<noteq> 1 \<and> req = None \<and> s' = s1 \<or> r = 1 \<and> s' \<in> {s1, s2, s3}"
    using assms by (auto simp: backend_receive_def h n p d Let_def split: if_splits)
  show "length (sk_in s') \<le> length (sk_in s)" using e l by auto
  show "req \<noteq> None \<Longrightarrow> length (sk_in s') + 8 \<le> length (sk_in s)" using e l c by auto
qed

lemma receive_then_consumes:
  assumes "bindr (backend_receive rcv fd mok s) (\<lambda>(req, s1). k req s1) = Inr (True, st', s')"
    and "\<And>s1. k None s1 \<noteq> Inr (True, st', s')"
    and "\<And>req s1. k req s1 = Inr (True, st', s') \<Longrightarrow> sk_in s' = sk_in s1"
  shows "length (sk_in s') + 8 \<le> length (sk_in s)"
proof -
  obtain req s1 where r: "backend_receive rcv fd mok s = Inr (req, s1)" "k req s1 = Inr (True, st', s')"
    using assms(1) by (auto simp: bindr_eq_Inr_iff)
  have "req \<noteq> None" using r(2) assms(2) by metis
  then show ?thesis using backend_receive_consumes(2) [OF r(1)] assms(3) [OF r(2)] by simp
qed

lemma backend_serve_consumes:
  assumes "backend_serve sndf rcv fd mok srv vm km st s = Inr (True, st', s')"
  shows "length (sk_in s') + 8 \<le> length (sk_in s)"
  by (rule receive_then_consumes [OF assms [unfolded backend_serve_def]])
    (auto simp: bindr_eq_Inr_iff Let_def dest!: backend_respond_input split: option.split_asm)

lemma gs_serve_consumes:
  assumes "gs_serve sndf rcv fd mok srv st s = Inr (True, st', s')"
  shows "length (sk_in s') + 8 \<le> length (sk_in s)"
  by (rule receive_then_consumes [OF assms [unfolded gs_serve_def]])
    (auto simp: bindr_eq_Inr_iff Let_def dest!: backend_respond_input split: option.split_asm)

lemma conn_loop_ends:
  assumes "\<And>st s st' s'. serve st s = Inr (True, st', s') \<Longrightarrow> length (sk_in s') < length (sk_in s)"
    and "\<And>st s f. serve st s = Inl f \<Longrightarrow> F f"
  shows "\<exists>r. conn_loop serve st s = Some r \<and> (\<forall>f. r = Inl f \<longrightarrow> F f)"
proof (induction "length (sk_in s)" arbitrary: st s rule: less_induct)
  case less
  show ?case
  proof (cases "serve st s")
    case (Inl f)
    then show ?thesis using assms(2) by (simp add: conn_loop.simps)
  next
    case (Inr x)
    obtain go st' s' where x: "x = (go, st', s')" by (metis prod_cases3)
    show ?thesis
    proof (cases go)
      case True
      then have "length (sk_in s') < length (sk_in s)" using assms(1) Inr x by simp
      from less [OF this] show ?thesis using Inr x True by (simp add: conn_loop.simps [of serve st s])
    qed (use Inr x in \<open>simp add: conn_loop.simps\<close>)
  qed
qed

lemma conn_loop_returns:
  assumes "\<And>st s st' s'. serve st s = Inr (True, st', s') \<Longrightarrow> length (sk_in s') < length (sk_in s)"
    and "\<And>st s. returns (serve st s)"
  shows "\<exists>r. conn_loop serve st s = Some r \<and> returns r"
proof -
  have "\<exists>r. conn_loop serve st s = Some r \<and> (\<forall>f. r = Inl f \<longrightarrow> f \<noteq> Hangs)"
    by (rule conn_loop_ends [OF assms(1)]) (use assms(2) in \<open>auto simp: returns_def\<close>)
  then show ?thesis unfolding returns_def by blast
qed

lemma returns_gs_serve: "returns (gs_serve sndf rcv fd mok (srv_handlers env) st s)"
  by (auto simp: gs_serve_def Let_def intro!: returns_bindr returns_receive returns_execute returns_respond
      split: prod.split option.split)


section \<open>The requests of a connection, in order\<close>

text \<open>The reference: the requests executed one after the other, with what each of them left.\<close>

primrec exec_all :: "'g srv_env \<Rightarrow> u64 \<Rightarrow> u64 \<Rightarrow> (cuda_packet \<times> byte list) list \<Rightarrow> 'g backend_st
    \<Rightarrow> ((cuda_packet \<times> srv_conn) list \<times> 'g backend_st) cres" where
  "exec_all env vm km [] st = Inr ([], st)"
| "exec_all env vm km (r # rs) st =
     bindr (executed env vm km (fst r) (snd r) st) (\<lambda>(p, sc, st).
     bindr (exec_all env vm km rs st) (\<lambda>(tr, st). Inr ((p, sc) # tr, st)))"

definition answer :: "cuda_packet \<times> srv_conn \<Rightarrow> byte list" where
  "answer a = (case a of (p, sc) \<Rightarrow> if method_expects_response (pk_method_id p)
     then response_bytes (p\<lparr>pk_vmmap := 0, pk_kmap := 0\<rparr>) sc else [])"

definition requests :: "(cuda_packet \<times> byte list) list \<Rightarrow> byte list" where
  "requests rs = concat (map (\<lambda>(p, d). request_bytes p d) rs)"

lemma get_at_end:
  assumes "xfer_ok rcv" and "0 \<le> fd" and "sk_in s = []" and "0 < n"
  shows "get rcv (Some fd) True n s = (0, [], s\<lparr>sk_calls := sk_calls s + 1\<rparr>)"
proof -
  have "0 < nat (xfer_chunk n)" using xfer_chunk_bounds [OF assms(4)] by simp
  then have "\<not> rcv (sk_calls s) (nat (xfer_chunk n)) \<le> 0"
    using xfer_okD [OF assms(1)] by (smt (verit))
  then show ?thesis using assms(2-4) by (simp add: get_def get_loop.simps [of rcv n] Let_def)
qed

lemma serve_at_end:
  assumes "xfer_ok rcv" and "0 \<le> fd" and "sk_in s = []"
  shows "backend_serve sndf rcv fd mok srv vm km st s = Inr (False, st, s\<lparr>sk_calls := sk_calls s + 1\<rparr>)"
  using get_at_end [OF assms, of 8] by (simp add: backend_serve_def backend_receive_def)

text \<open>C9. The backend executes the requests of a connection in the order in which they were
  sent, each on the state the one before left, and sends the responses in that order; at the end
  of the stream it has consumed all of it. The segmentation of the stream does not matter.\<close>

theorem connection_executes_in_order:
  fixes env :: "'g srv_env"
  assumes ok: "xfer_ok rcv" "xfer_ok sndf" "0 \<le> fd" "\<forall>n. mok n"
    and rs: "\<forall>r \<in> set rs. length (snd r) < 2 ^ 31"
    and ex: "exec_all env vm km rs st = Inr (tr, st')" "\<forall>a \<in> set tr. rsp_ok (snd a)"
    and inp: "sk_in s = requests rs"
  shows "\<exists>k. backend_conn sndf rcv fd mok env vm km st s = Some (Inr (st',
    s\<lparr>sk_in := [], sk_out := sk_out s @ concat (map answer tr), sk_calls := k\<rparr>))"
  using rs ex inp
proof (induction rs arbitrary: st s tr)
  case Nil
  then have "sk_in s = []" by (simp add: requests_def)
  from serve_at_end [OF ok(1,3) this, of sndf mok "srv_handlers env" vm km st]
  show ?case using Nil
    by (intro exI [of _ "sk_calls s + 1"]) (simp add: backend_conn_def conn_loop.simps requests_def)
next
  case (Cons r rs)
  obtain p d where r: "r = (p, d)" by force
  obtain p' sc' st1 tr' where e: "executed env vm km p d st = Inr (p', sc', st1)"
    "exec_all env vm km rs st1 = Inr (tr', st')" "tr = (p', sc') # tr'"
    using Cons.prems(2) r by (auto simp: bindr_eq_Inr_iff)
  have req: "sk_in s = request_bytes p d @ requests rs" "length d < 2 ^ 31"
    using Cons.prems(1,4) r by (simp_all add: requests_def)
  have fr: "rsp_ok sc'" using Cons.prems(3) e(3) by simp
  obtain k where k: "backend_serve sndf rcv fd mok (srv_handlers env) vm km st s = Inr (True, st1,
      s\<lparr>sk_in := requests rs, sk_out := sk_out s @ answer (p', sc'), sk_calls := k\<rparr>)"
    using backend_serve_ok [OF ok req e(1) [unfolded executed_def] fr] by (auto simp: answer_def)
  let ?s = "s\<lparr>sk_in := requests rs, sk_out := sk_out s @ answer (p', sc'), sk_calls := k\<rparr>"
  obtain k' where "backend_conn sndf rcv fd mok env vm km st1 ?s = Some (Inr (st',
      ?s\<lparr>sk_in := [], sk_out := sk_out ?s @ concat (map answer tr'), sk_calls := k'\<rparr>))"
    using Cons.IH [OF _ e(2), of ?s] Cons.prems(1,3) e(3) by auto
  moreover have "backend_conn sndf rcv fd mok env vm km st s
      = backend_conn sndf rcv fd mok env vm km st1 ?s"
    unfolding backend_conn_def by (rule conn_loop_go, rule k)
  ultimately show ?case using e(3) by (intro exI [of _ k']) simp
qed

lemma demo_get_device:
  assumes "bs_dev st = b" and "db_rr b = k" and "0 \<le> k" "k < 2"
  shows "executed demo_srv 0x100 0x200 (demo_packet CUDA_GET_DEVICE 3 0 0) [] st
    = Inr ((demo_packet CUDA_GET_DEVICE (word_of_int k) 0 0)\<lparr>pk_vmmap := 0x100, pk_kmap := 0x200\<rparr>,
        conn_req [], st\<lparr>bs_dev := b\<lparr>db_devices := 3, db_rr := k + 1\<rparr>, bs_assigned := Some k\<rparr>)"
proof -
  have r: "(k + 1) smod 3 = k + 1" using assms smod_mod_positive [of "k + 1" "3 :: int"] by simp
  show ?thesis
    using assms(1,2)
    by (simp add: r executed_def pkt_execute_def pkt_handler_def srv_handlers_def srv_handler_def
        nvbackCudaGetDevice_srv_def Let_def get_next_device_RR_def argn_def demo_packet_def
        zero_packet_def set_err_def reply_def set_argi_def pkt_err_def cudaSuccess_def)
qed


lemma connection_executes_in_order_witness:
  "\<exists>st k. backend_conn (\<lambda>k n. 1) (\<lambda>k n. int n) 4 (\<lambda>n. True) demo_srv 0x100 0x200 (demo_st [])
      (idle (requests [(demo_packet CUDA_GET_DEVICE 3 0 0, []), (demo_packet CUDA_GET_DEVICE 3 0 0, [])]))
    = Some (Inr (st, (idle [])\<lparr>sk_out := answer (demo_packet CUDA_GET_DEVICE 0 0 0, conn_req [])
        @ answer (demo_packet CUDA_GET_DEVICE 1 0 0, conn_req []), sk_calls := k\<rparr>))"
proof -
  let ?p = "demo_packet CUDA_GET_DEVICE 3 0 0"
  have 1: "exec_all demo_srv 0x100 0x200 [(?p, []), (?p, [])] (demo_st []) = Inr (
      [((demo_packet CUDA_GET_DEVICE 0 0 0)\<lparr>pk_vmmap := 0x100, pk_kmap := 0x200\<rparr>, conn_req []),
       ((demo_packet CUDA_GET_DEVICE 1 0 0)\<lparr>pk_vmmap := 0x100, pk_kmap := 0x200\<rparr>, conn_req [])],
      (demo_st [])\<lparr>bs_dev := dev_bal0\<lparr>db_devices := 3, db_rr := 2\<rparr>, bs_assigned := Some 1\<rparr>)"
    by (simp add: demo_get_device [where k = 0] demo_get_device [where k = 1] dev_bal0_def)
  have m: "method_expects_response (method_num CUDA_GET_DEVICE)"
    by (simp add: method_expects_response_def sync_methods_def)
  show ?thesis
    using connection_executes_in_order [OF xfer_ok_all xfer_ok_one _ _ _ 1, of 4 "\<lambda>n. True"
        "idle (requests [(?p, []), (?p, [])])"]
    by (auto simp: rsp_ok_def idle_def answer_def m demo_packet_def zero_packet_def)
qed

section \<open>A session with the global scheduler\<close>

lemma gs_serve_ok:
  assumes ok: "xfer_ok rcv" "xfer_ok sndf" "0 \<le> fd" "\<forall>n. mok n"
    and req: "sk_in s = request_bytes p d @ rest" "length d < 2 ^ 31"
    and exec: "pkt_execute srv p (conn_req d, st) = Inr (p', sc', st')"
    and rsp: "rsp_ok sc'" and m: "method_expects_response (pk_method_id p')"
  shows "\<exists>k. gs_serve sndf rcv fd mok srv (st, app) s = Inr (True,
    (st', if pk_method_id p' = method_num CUDA_GET_DEVICE then argn (pk_arg2 p') else app),
    s\<lparr>sk_in := rest, sk_out := sk_out s @ response_bytes p' sc', sk_calls := k\<rparr>)"
proof -
  let ?strm = "\<lambda>p. \<lparr>st_batch_size = 0, st_num_cuda_pkts = 1, st_data_size = word_of_nat (length d),
      st_rpkts = p # replicate (MAX_REMOTE_BATCH_SIZE - 1) zero_packet\<rparr>"
  obtain k where k: "backend_receive rcv fd mok s = Inr (Some (Some (?strm p, conn_req d)),
      s\<lparr>sk_in := rest, sk_calls := k\<rparr>)"
    using backend_receive_ok [OF ok(1,3) req ok(4)] by blast
  let ?s = "s\<lparr>sk_in := rest, sk_calls := k\<rparr>"
  obtain k' where "backend_respond sndf fd (?strm p') p' sc' ?s = Inr (True,
      ?s\<lparr>sk_out := sk_out ?s @ response_bytes p' sc', sk_calls := k'\<rparr>)"
    using backend_respond_ok [OF ok(2,3), of "?strm p'" p' _ sc' ?s] m rsp by auto
  then show ?thesis using k exec by (intro exI [of _ k']) (simp add: gs_serve_def Let_def)
qed

lemma gs_serve_at_end:
  assumes "xfer_ok rcv" and "0 \<le> fd" and "sk_in s = []"
  shows "gs_serve sndf rcv fd mok srv st s = Inr (False, st, s\<lparr>sk_calls := sk_calls s + 1\<rparr>)"
  using get_at_end [OF assms, of 8] by (simp add: gs_serve_def backend_receive_def)

text \<open>A session in which an application asks the global scheduler for a device answers the
  next device in turn, whatever device it asked for before, and at its end takes one thread off
  the count of that device although the choice has added none: the counts only ever go down.\<close>

theorem gs_session_device:
  fixes st :: "'g backend_st"
  assumes ok: "xfer_ok rcv" "xfer_ok sndf" "0 \<le> fd" "\<forall>n. mok n" "se_small env"
    and p: "pk_method_id p = method_num CUDA_GET_DEVICE" "argn (pk_arg0 p) = n"
    and rr: "db_rr (bs_dev st) = int d" "int d < n" "d < length (db_threads (bs_dev st))"
    and n: "n < 2 ^ 31" and inp: "sk_in s = request_bytes p []"
  shows "\<exists>p' s'. handle_req sndf rcv fd mok env st s = Some (Inr (
      st\<lparr>bs_assigned := Some (int d), bs_dev := \<lparr>db_devices = n,
        db_threads = (db_threads (bs_dev st))[d := db_threads (bs_dev st) ! d - 1],
        db_rr = (int d + 1) mod n\<rparr>\<rparr>, s'))
    \<and> sk_out s' = sk_out s @ response_bytes p' (conn_req []) \<and> argn (pk_arg0 p') = int d"
proof -
  let ?b = "bs_dev st\<lparr>db_devices := n, db_rr := (int d + 1) mod n\<rparr>"
  let ?st = "st\<lparr>bs_dev := ?b, bs_assigned := Some (int d)\<rparr>"
  let ?p = "(set_err 0 p)\<lparr>pk_arg0 := set_argi (int d) (pk_arg0 p)\<rparr>"
  have r: "(int d + 1) smod n = (int d + 1) mod n" using rr(2) by (intro smod_mod_positive) simp_all
  have e: "pkt_execute (srv_handlers env) p (conn_req [], st) = Inr (?p, conn_req [], ?st)"
    using p rr ok(5) by (simp add: pkt_execute_def pkt_handler_def srv_handlers_def srv_handler_def
        nvbackCudaGetDevice_srv_def Let_def get_next_device_RR_def r reply_def set_err_def)
  have m: "method_expects_response (pk_method_id ?p)"
    using p(1) by (simp add: method_expects_response_def sync_methods_def)
  let ?app = "if pk_method_id ?p = method_num CUDA_GET_DEVICE then argn (pk_arg2 ?p) else -1"
  obtain k where k: "gs_serve sndf rcv fd mok (srv_handlers env) (st, -1) s = Inr (True, (?st, ?app),
      s\<lparr>sk_in := [], sk_out := sk_out s @ response_bytes ?p (conn_req []), sk_calls := k\<rparr>)"
    using gs_serve_ok [OF ok(1-4), where rest = "[]", OF _ _ e _ m] inp by (auto simp: rsp_ok_def)
  let ?s = "s\<lparr>sk_in := [], sk_out := sk_out s @ response_bytes ?p (conn_req []), sk_calls := k\<rparr>"
  have "gs_serve sndf rcv fd mok (srv_handlers env) (?st, ?app) ?s
      = Inr (False, (?st, ?app), ?s\<lparr>sk_calls := sk_calls ?s + 1\<rparr>)"
    by (rule gs_serve_at_end [OF ok(1,3)]) simp
  then have "conn_loop (gs_serve sndf rcv fd mok (srv_handlers env)) (?st, ?app) ?s
      = Some (Inr ((?st, ?app), ?s\<lparr>sk_calls := k + 1\<rparr>))"
    by (subst conn_loop_stop) simp_all
  moreover have "conn_loop (gs_serve sndf rcv fd mok (srv_handlers env)) (st, -1) s
      = conn_loop (gs_serve sndf rcv fd mok (srv_handlers env)) (?st, ?app) ?s"
    by (rule conn_loop_go, rule k)
  moreover have "argn (pk_arg0 ?p) = int d"
    by (rule argn_of_nat(1)) (use rr(2) n in \<open>simp_all add: set_argi_def\<close>)
  ultimately show ?thesis
    using rr(3) by (intro exI [of _ ?p] exI [of _ "?s\<lparr>sk_calls := k + 1\<rparr>"])
      (simp add: handle_req_def dec_thread_count_per_device_def)
qed

lemma gs_session_device_witness:
  "\<exists>p' s'. handle_req (\<lambda>k n. 1) (\<lambda>k n. int n) 4 (\<lambda>n. True) demo_srv (demo_st [])
      (idle (request_bytes (demo_packet CUDA_GET_DEVICE 3 0 0) [])) = Some (Inr (
        (demo_st [])\<lparr>bs_assigned := Some 0, bs_dev := \<lparr>db_devices = 3,
          db_threads = (replicate 100 0)[0 := -1], db_rr = 1\<rparr>\<rparr>, s'))
    \<and> sk_out s' = response_bytes p' (conn_req []) \<and> argn (pk_arg0 p') = 0"
proof -
  have "argn (pk_arg0 (demo_packet CUDA_GET_DEVICE 3 0 0)) = 3"
    by (simp add: argn_def demo_packet_def)
  then show ?thesis
    using gs_session_device [OF xfer_ok_all xfer_ok_one, where p = "demo_packet CUDA_GET_DEVICE 3 0 0"
        and st = "demo_st []" and env = demo_srv and d = 0 and n = 3 and fd = 4 and mok = "\<lambda>n. True"
        and s = "idle (request_bytes (demo_packet CUDA_GET_DEVICE 3 0 0) [])"]
    by (auto simp: dev_bal0_def MAX_BACKEND_DEVICES_def idle_def)
qed

end
