(* ===== verification/Cfs.thy ===== *)
theory Cfs
  imports Sched_Common
begin

text \<open>
  The first scheduler of the system, l2scheduler/cfs_scheduler.c, with the calls of its clients,
  backend/libcfsscheduler.c: a table of processes, a listener thread that enters and removes
  them, and a control thread that lets one after the other run by real-time signals. A process
  handles its signal by waiting for the next one, so each signal stops it or lets it go on.
\<close>

section \<open>The table\<close>

definition CFS_MAX :: nat where "CFS_MAX = 500"

definition CFS_ADD_Q :: int where "CFS_ADD_Q = 10"

definition CFS_REM_Q :: int where "CFS_REM_Q = 11"

definition CFS_INVALID :: int where "CFS_INVALID = 0"

text \<open>\<open>polling_thread_count\<close> indexes the arrays before it is raised, so it never wraps.\<close>

record cfs_data =
  cf_process :: "int list"
  cf_share :: "u64 list"
  cf_signal :: "int list"
  cf_valid :: "int list"
  cf_count :: nat
  cf_rt :: u32

record cfs_pcd =
  cp_pid :: int
  cp_share :: u64
  cp_action :: int

text \<open>The first real-time signal of Linux with glibc; the last is \<open>SIGRTMAX\<close>.\<close>

definition SIGRTMIN :: int where "SIGRTMIN = 34"

definition cfs_already_added :: "cfs_data \<Rightarrow> cfs_pcd \<Rightarrow> bool" where
  "cfs_already_added d pcd \<longleftrightarrow> cp_pid pcd \<in> set (cf_process d)"

definition cfs_register_process :: "cfs_data \<Rightarrow> int \<Rightarrow> int \<Rightarrow> u64 \<Rightarrow> cfs_data cres" where
  "cfs_register_process d pid signum share =
     bindr (updr (cf_process d) (cf_count d) pid) (\<lambda>ps.
     bindr (updr (cf_share d) (cf_count d) share) (\<lambda>ss.
     bindr (updr (cf_signal d) (cf_count d) signum) (\<lambda>gs.
     bindr (updr (cf_valid d) (cf_count d) 1) (\<lambda>vs.
     Inr (d\<lparr>cf_process := ps, cf_share := ss, cf_signal := gs, cf_valid := vs,
            cf_count := cf_count d + 1\<rparr>)))))"

text \<open>\<open>signum = SIGRTMIN + RT_signal_indx++\<close>.\<close>

definition cfs_signum :: "cfs_data \<Rightarrow> int" where
  "cfs_signum d = sint (word_of_int SIGRTMIN + cf_rt d)"

definition cfs_remove :: "int \<Rightarrow> cfs_data \<Rightarrow> cfs_data" where
  "cfs_remove pid d = (case find (\<lambda>i. cf_process d ! i = pid) [0..<length (cf_process d)] of
     None \<Rightarrow> d
   | Some i \<Rightarrow> d\<lparr>cf_process := (cf_process d)[i := CFS_INVALID], cf_valid := (cf_valid d)[i := 0]\<rparr>)"

text \<open>
  One round of the listener: \<open>status\<close> is what \<open>read\<close> returned, \<open>err\<close> the client's answer to the
  signal number it is sent. The list has the signals that are sent.
\<close>

definition cfs_listen :: "cfs_data \<Rightarrow> int \<Rightarrow> cfs_pcd \<Rightarrow> int \<Rightarrow> (cfs_data \<times> (int \<times> int) list) cres" where
  "cfs_listen d status pcd err =
     (if 0 < status \<and> cp_action pcd = CFS_ADD_Q \<and> \<not> cfs_already_added d pcd then
        let signum = cfs_signum d; d = d\<lparr>cf_rt := cf_rt d + 1\<rparr> in
        if err = 0 then
          bindr (cfs_register_process d (cp_pid pcd) signum (cp_share pcd)) (\<lambda>d.
            Inr (d, [(cp_pid pcd, signum)]))
        else Inr (d, [])
      else if cp_action pcd = CFS_REM_Q then Inr (cfs_remove (cp_pid pcd) d, [])
      else Inr (d, []))"

text \<open>All global variables are 0 when the listener has started.\<close>

definition cfs_init :: cfs_data where
  "cfs_init = \<lparr>cf_process = replicate CFS_MAX 0, cf_share = replicate CFS_MAX 0,
     cf_signal = replicate CFS_MAX 0, cf_valid = replicate CFS_MAX 0, cf_count = 0, cf_rt = 0\<rparr>"

section \<open>The control thread\<close>

text \<open>\<open>thid++; if (thid > polling_thread_count-1) thid = 0\<close>.\<close>

definition cfs_next :: "cfs_data \<Rightarrow> nat \<Rightarrow> nat" where
  "cfs_next d thid = (if cf_count d - 1 < thid + 1 then 0 else thid + 1)"

text \<open>
  One iteration: the next position, and the process whose turn it is with its signal and share,
  unless there is none.
\<close>

definition cfs_control :: "cfs_data \<Rightarrow> nat \<Rightarrow> (nat \<times> (int \<times> int \<times> u64) option) cres" where
  "cfs_control d thid = (if cf_count d = 0 then Inr (thid, None) else
     bindr (nthr (cf_valid d) thid) (\<lambda>v.
     if v = 0 then Inr (cfs_next d thid, None) else
     bindr (nthr (cf_process d) thid) (\<lambda>p. bindr (nthr (cf_share d) thid) (\<lambda>sh.
     bindr (nthr (cf_signal d) thid) (\<lambda>sg.
     Inr (cfs_next d thid, if p = CFS_INVALID then None else Some (p, sg, sh)))))))"

text \<open>
  The length of a turn in ns: \<open>nanosleep\<close> rejects a \<open>tv_nsec\<close> of a second or more, or a negative
  one, and returns at once; its result is not looked at.
\<close>

definition cfs_slice_ns :: "u64 \<Rightarrow> int" where
  "cfs_slice_ns share = (let n = sint (1000000 * share) in
     if 0 \<le> n \<and> n \<le> 999999999 then n else 0)"

section \<open>The clients\<close>

text \<open>\<open>sigaction\<close> refuses a number that is no signal.\<close>

definition cfs_register_handler :: "int \<Rightarrow> int" where
  "cfs_register_handler signum = (if 1 \<le> signum \<and> signum \<le> SIGRTMAX then 0 else -1)"

definition cfs_add_pcd :: "int \<Rightarrow> u64 \<Rightarrow> cfs_pcd" where
  "cfs_add_pcd pid share = \<lparr>cp_pid = pid, cp_share = share, cp_action = CFS_ADD_Q\<rparr>"

definition cfs_rem_pcd :: "int \<Rightarrow> u64 \<Rightarrow> cfs_pcd" where
  "cfs_rem_pcd pid junk = \<lparr>cp_pid = pid, cp_share = junk, cp_action = CFS_REM_Q\<rparr>"

section \<open>The system\<close>

text \<open>
  The table and the position of the control thread, whether the semaphore of the clients is
  free, the process (and its signal) whose turn it is, and which processes are awake.
\<close>

record cfs_sys =
  cs_data :: cfs_data
  cs_thid :: nat
  cs_free :: bool
  cs_run :: "(int \<times> int) option"
  cs_awake :: "int \<Rightarrow> bool"

text \<open>\<open>sigqueue\<close>: an invalid number is refused, another one stops the process or lets it go on.\<close>

definition cfs_signal :: "int \<times> int \<Rightarrow> (int \<Rightarrow> bool) \<Rightarrow> (int \<Rightarrow> bool)" where
  "cfs_signal ps aw = (case ps of (pid, signum) \<Rightarrow>
     if cfs_register_handler signum = 0 then aw(pid := \<not> aw pid) else aw)"

text \<open>
  \<open>add_queue\<close> and \<open>rem_queue\<close> take the semaphore. For a process that is in the table already the
  listener answers nothing, and the client waits for ever with the semaphore taken.
\<close>

definition cfs_add :: "int \<Rightarrow> u64 \<Rightarrow> cfs_sys \<Rightarrow> cfs_sys cres" where
  "cfs_add pid share s = (let pcd = cfs_add_pcd pid share; d = cs_data s in
     if cfs_already_added d pcd then Inr (s\<lparr>cs_free := False\<rparr>) else
     bindr (cfs_listen d 24 pcd (cfs_register_handler (cfs_signum d))) (\<lambda>(d, sigs).
     Inr (s\<lparr>cs_data := d, cs_awake := fold cfs_signal sigs (cs_awake s)\<rparr>)))"

definition cfs_rem :: "int \<Rightarrow> u64 \<Rightarrow> cfs_sys \<Rightarrow> cfs_sys cres" where
  "cfs_rem pid junk s = bindr (cfs_listen (cs_data s) 24 (cfs_rem_pcd pid junk) 0) (\<lambda>(d, sigs).
     Inr (s\<lparr>cs_data := d\<rparr>))"

definition cfs_turn :: "cfs_sys \<Rightarrow> cfs_sys cres" where
  "cfs_turn s = bindr (cfs_control (cs_data s) (cs_thid s)) (\<lambda>(t, r).
     Inr (case r of None \<Rightarrow> s\<lparr>cs_thid := t\<rparr>
       | Some (p, sg, sh) \<Rightarrow> s\<lparr>cs_thid := t, cs_run := Some (p, sg),
           cs_awake := cfs_signal (p, sg) (cs_awake s)\<rparr>))"

definition cfs_end_turn :: "int \<times> int \<Rightarrow> cfs_sys \<Rightarrow> cfs_sys" where
  "cfs_end_turn ps s = s\<lparr>cs_run := None, cs_awake := cfs_signal ps (cs_awake s)\<rparr>"

text \<open>
  The steps. Only a process that is awake can call \<open>add_queue\<close> or \<open>rem_queue\<close>, and a process
  that has left does not come back in the same turn; the control thread ends the turn it has
  begun.
\<close>

inductive cfs_step :: "cfs_sys \<Rightarrow> cfs_sys cres \<Rightarrow> bool" where
  step_add: "\<lbrakk>cs_free s; 0 < pid; cs_awake s pid; \<forall>sg. cs_run s \<noteq> Some (pid, sg)\<rbrakk> \<Longrightarrow> cfs_step s (cfs_add pid share s)"
| step_rem: "\<lbrakk>cs_free s; 0 < pid; cs_awake s pid\<rbrakk> \<Longrightarrow> cfs_step s (cfs_rem pid junk s)"
| step_turn: "cs_run s = None \<Longrightarrow> cfs_step s (cfs_turn s)"
| step_end: "cs_run s = Some ps \<Longrightarrow> cfs_step s (Inr (cfs_end_turn ps s))"

inductive_cases cfs_stepE: "cfs_step s r"

text \<open>The states after \<open>n\<close> steps.\<close>

inductive cfs_reach :: "nat \<Rightarrow> cfs_sys \<Rightarrow> bool" where
  reach_init: "cfs_reach 0 \<lparr>cs_data = cfs_init, cs_thid = 0, cs_free = True, cs_run = None,
     cs_awake = (\<lambda>p. True)\<rparr>"
| reach_step: "\<lbrakk>cfs_reach n s; cfs_step s (Inr s')\<rbrakk> \<Longrightarrow> cfs_reach (n + 1) s'"

section \<open>The table is consistent\<close>

text \<open>\<open>k\<close> is the number of processes that were offered a signal.\<close>

definition cfs_table :: "nat \<Rightarrow> cfs_data \<Rightarrow> bool" where
  "cfs_table k d \<longleftrightarrow> length (cf_process d) = CFS_MAX \<and> length (cf_share d) = CFS_MAX
     \<and> length (cf_signal d) = CFS_MAX \<and> length (cf_valid d) = CFS_MAX
     \<and> cf_rt d = word_of_nat k \<and> cf_count d \<le> k \<and> cf_count d \<le> 31
     \<and> (\<forall>i < CFS_MAX. if cf_valid d ! i = 0 then cf_process d ! i = 0
          else i < cf_count d \<and> 0 < cf_process d ! i \<and> cfs_register_handler (cf_signal d ! i) = 0)
     \<and> (\<forall>i < CFS_MAX. \<forall>j < CFS_MAX. cf_process d ! i = cf_process d ! j \<longrightarrow>
          cf_process d ! i \<noteq> 0 \<longrightarrow> i = j)"

lemma cfs_tableD:
  assumes "cfs_table k d"
  shows "length (cf_process d) = CFS_MAX" "length (cf_share d) = CFS_MAX"
    "length (cf_signal d) = CFS_MAX" "length (cf_valid d) = CFS_MAX" "cf_rt d = word_of_nat k"
    "cf_count d \<le> k" "cf_count d \<le> 31"
    "i < CFS_MAX \<Longrightarrow> cf_valid d ! i = 0 \<Longrightarrow> cf_process d ! i = 0"
    "i < CFS_MAX \<Longrightarrow> cf_valid d ! i \<noteq> 0 \<Longrightarrow> i < cf_count d \<and> 0 < cf_process d ! i
       \<and> cfs_register_handler (cf_signal d ! i) = 0"
    "\<lbrakk>i < CFS_MAX; j < CFS_MAX; cf_process d ! i = cf_process d ! j; cf_process d ! i \<noteq> 0\<rbrakk> \<Longrightarrow> i = j"
  using assms unfolding cfs_table_def by auto

lemma cfs_table_init: "cfs_table 0 cfs_init"
  by (simp add: cfs_table_def cfs_init_def)

lemma cfs_signum_eq:
  assumes "cf_rt d = word_of_nat k" and "k < 2 ^ 31 - 64"
  shows "cfs_signum d = 34 + int k"
proof -
  have "word_of_int SIGRTMIN + cf_rt d = word_of_nat (34 + k)" using assms(1) by (simp add: SIGRTMIN_def)
  then show ?thesis using assms(2) sint_small_nat [of "34 + k"] by (simp add: cfs_signum_def)
qed

lemma cfs_table_refused: "cfs_table k d \<Longrightarrow> cfs_table (k + 1) (d\<lparr>cf_rt := cf_rt d + 1\<rparr>)"
  by (simp add: cfs_table_def)

lemma cfs_table_remove:
  assumes "cfs_table k d"
  shows "cfs_table k (cfs_remove pid d)"
proof (cases "find (\<lambda>i. cf_process d ! i = pid) [0..<length (cf_process d)]")
  case None
  then show ?thesis using assms by (simp add: cfs_remove_def)
next
  case (Some i)
  then have "i < CFS_MAX" using cfs_tableD(1) [OF assms] by (auto simp: find_Some_iff)
  then show ?thesis using assms Some
    by (auto simp: cfs_remove_def cfs_table_def CFS_INVALID_def nth_list_update)
qed

lemma cfs_remove_count [simp]: "cf_count (cfs_remove pid d) = cf_count d"
  by (simp add: cfs_remove_def split: option.splits)

text \<open>A removal takes the process out and leaves the other entries.\<close>

lemma cfs_remove_nth:
  assumes "cfs_table k d" and "i < CFS_MAX" and "cf_valid (cfs_remove pid d) ! i \<noteq> 0"
  shows "cf_valid d ! i \<noteq> 0" "cf_process (cfs_remove pid d) ! i = cf_process d ! i"
    "cf_process d ! i \<noteq> pid"
proof -
  note D = cfs_tableD [OF assms(1)]
  have "cf_valid d ! i \<noteq> 0 \<and> cf_process (cfs_remove pid d) ! i = cf_process d ! i \<and> cf_process d ! i \<noteq> pid"
  proof (cases "find (\<lambda>i. cf_process d ! i = pid) [0..<length (cf_process d)]")
    case None
    then have "cfs_remove pid d = d" by (simp add: cfs_remove_def)
    moreover have "cf_process d ! i \<noteq> pid" using None assms(2) D(1) by (simp add: find_None_iff)
    ultimately show ?thesis using assms(3) by simp
  next
    case (Some j)
    then have j: "j < CFS_MAX" "cf_process d ! j = pid" using D(1) by (auto simp: find_Some_iff)
    have i: "i \<noteq> j" "cf_valid d ! i \<noteq> 0"
      using assms(2,3) Some j D(4) by (auto simp: cfs_remove_def nth_list_update split: if_splits)
    then show ?thesis using Some j D(9) [OF assms(2) i(2)] D(10) [OF assms(2) j(1)]
      by (auto simp: cfs_remove_def)
  qed
  then show "cf_valid d ! i \<noteq> 0" "cf_process (cfs_remove pid d) ! i = cf_process d ! i"
    "cf_process d ! i \<noteq> pid" by auto
qed

lemma cfs_table_register:
  assumes t: "cfs_table k d" and k: "k \<le> 30" and pid: "0 < pid" "pid \<notin> set (cf_process d)"
    and sg: "cfs_register_handler sg = 0"
  shows "\<exists>d'. cfs_register_process (d\<lparr>cf_rt := cf_rt d + 1\<rparr>) pid sg sh = Inr d' \<and> cfs_table (k + 1) d'
    \<and> cf_process d' = (cf_process d)[cf_count d := pid] \<and> cf_valid d' = (cf_valid d)[cf_count d := 1]
    \<and> cf_count d' = cf_count d + 1"
proof -
  note D = cfs_tableD [OF t]
  have c: "cf_count d < CFS_MAX" using D(7) by (simp add: CFS_MAX_def)
  have n: "cf_process d ! i \<noteq> pid" if "i < CFS_MAX" for i using pid(2) that D(1) by (auto simp: in_set_conv_nth)
  show ?thesis
    using c D pid(1) sg k n n [symmetric]
    by (auto simp: cfs_register_process_def cfs_table_def nth_list_update less_Suc_eq split: if_splits)
qed

text \<open>The signal of a registration is refused from the 32nd on.\<close>

lemma cfs_handler_refuses: "0 \<le> i \<Longrightarrow> cfs_register_handler (34 + i) = 0 \<longleftrightarrow> i \<le> 30"
  by (simp add: cfs_register_handler_def SIGRTMAX_def)

lemma cfs_add_cases:
  assumes t: "cfs_table k (cs_data s)" and k: "k < 2 ^ 31 - 64" and pid: "0 < pid"
  shows "if cfs_already_added (cs_data s) (cfs_add_pcd pid sh)
      then cfs_add pid sh s = Inr (s\<lparr>cs_free := False\<rparr>)
    else if k \<le> 30 then (\<exists>d'. cfs_add pid sh s = Inr (s\<lparr>cs_data := d',
        cs_awake := (cs_awake s)(pid := \<not> cs_awake s pid)\<rparr>) \<and> cfs_table (k + 1) d'
      \<and> cf_process d' = (cf_process (cs_data s))[cf_count (cs_data s) := pid]
      \<and> cf_valid d' = (cf_valid (cs_data s))[cf_count (cs_data s) := 1]
      \<and> cf_count d' = cf_count (cs_data s) + 1)
    else cfs_add pid sh s = Inr (s\<lparr>cs_data := (cs_data s)\<lparr>cf_rt := cf_rt (cs_data s) + 1\<rparr>\<rparr>)"
proof -
  let ?d = "cs_data s"
  have sg: "cfs_signum ?d = 34 + int k" by (rule cfs_signum_eq [OF cfs_tableD(5) [OF t] k])
  have f: "cfs_register_handler (cfs_signum ?d) = 0 \<longleftrightarrow> k \<le> 30"
    unfolding sg using cfs_handler_refuses [of "int k"] by simp
  show ?thesis
  proof (cases "cfs_already_added ?d (cfs_add_pcd pid sh)")
    case True
    then show ?thesis by (simp add: cfs_add_def)
  next
    case False
    then have n: "pid \<notin> set (cf_process ?d)" by (simp add: cfs_already_added_def cfs_add_pcd_def)
    show ?thesis
    proof (cases "k \<le> 30")
      case True
      then have "cfs_register_handler (cfs_signum ?d) = 0" using f by simp
      from cfs_table_register [OF t True pid n this, of sh] this show ?thesis using False True
        by (auto simp: cfs_add_def cfs_listen_def Let_def cfs_add_pcd_def cfs_signal_def)
    next
      case nk: False
      then have "cfs_register_handler (cfs_signum ?d) \<noteq> 0" using f by simp
      then show ?thesis using False nk
        by (simp add: cfs_add_def cfs_listen_def Let_def cfs_add_pcd_def)
    qed
  qed
qed

lemma cfs_rem_eq: "cfs_rem pid junk s = Inr (s\<lparr>cs_data := cfs_remove pid (cs_data s)\<rparr>)"
  by (simp add: cfs_rem_def cfs_listen_def cfs_rem_pcd_def CFS_ADD_Q_def CFS_REM_Q_def)

section \<open>One process at a time\<close>

text \<open>
  The processes of the table sleep, but for the one whose turn it is; the control thread is at
  a position of the table.
\<close>

definition cfs_quiet :: "cfs_sys \<Rightarrow> bool" where
  "cfs_quiet s \<longleftrightarrow> (\<forall>i < CFS_MAX. cf_valid (cs_data s) ! i \<noteq> 0 \<longrightarrow>
       (cs_awake s (cf_process (cs_data s) ! i) \<longleftrightarrow> (\<exists>sg. cs_run s = Some (cf_process (cs_data s) ! i, sg))))
     \<and> (\<forall>p sg. cs_run s = Some (p, sg) \<longrightarrow> cfs_register_handler sg = 0)
     \<and> cs_thid s < max 1 (cf_count (cs_data s))"

definition cfs_inv :: "nat \<Rightarrow> cfs_sys \<Rightarrow> bool" where
  "cfs_inv n s \<longleftrightarrow> (\<exists>k \<le> n. cfs_table k (cs_data s)) \<and> cfs_quiet s"

lemma cfs_invI: "\<lbrakk>k \<le> n; cfs_table k (cs_data s); cfs_quiet s\<rbrakk> \<Longrightarrow> cfs_inv n s"
  by (auto simp: cfs_inv_def)

text \<open>What the control thread does at position \<open>thid\<close>.\<close>

lemma cfs_control_eq:
  assumes t: "cfs_table k d" and c: "thid < cf_count d"
  shows "cfs_control d thid = Inr (if thid + 1 < cf_count d then thid + 1 else 0,
    if cf_valid d ! thid = 0 then None
    else Some (cf_process d ! thid, cf_signal d ! thid, cf_share d ! thid))"
proof -
  note D = cfs_tableD [OF t]
  have i: "thid < CFS_MAX" using c D(7) by (simp add: CFS_MAX_def)
  have "cfs_next d thid = (if thid + 1 < cf_count d then thid + 1 else 0)"
    using c by (auto simp: cfs_next_def)
  then show ?thesis using D(1-4) i c D(9) [OF i]
    by (cases "cf_valid d ! thid = 0") (auto simp: cfs_control_def CFS_INVALID_def)
qed

lemma cfs_turn_eq:
  assumes t: "cfs_table k (cs_data s)" and c: "cs_thid s < cf_count (cs_data s)"
  defines "i \<equiv> cs_thid s" and "p \<equiv> cf_process (cs_data s) ! cs_thid s"
    and "sg \<equiv> cf_signal (cs_data s) ! cs_thid s"
  shows "cfs_turn s = Inr (let s' = s\<lparr>cs_thid := if i + 1 < cf_count (cs_data s) then i + 1 else 0\<rparr> in
    if cf_valid (cs_data s) ! i = 0 then s'
    else s'\<lparr>cs_run := Some (p, sg), cs_awake := (cs_awake s)(p := \<not> cs_awake s p)\<rparr>)"
proof -
  have "i < CFS_MAX" using c cfs_tableD(7) [OF t] by (simp add: i_def CFS_MAX_def)
  then have "cf_valid (cs_data s) ! i \<noteq> 0 \<Longrightarrow> cfs_register_handler sg = 0"
    using cfs_tableD(9) [OF t, of i] by (simp add: i_def sg_def)
  then show ?thesis unfolding i_def p_def sg_def
    by (simp add: cfs_turn_def cfs_control_eq [OF t c] cfs_signal_def Let_def)
qed

lemma cfs_inv_add:
  assumes inv: "cfs_inv n s" and n: "n < 2 ^ 31 - 64"
    and g: "0 < pid" "cs_awake s pid" "\<forall>sg. cs_run s \<noteq> Some (pid, sg)"
  shows "\<exists>s'. cfs_add pid sh s = Inr s' \<and> cfs_inv (n + 1) s'"
proof -
  obtain k where k: "k \<le> n" "cfs_table k (cs_data s)" and q: "cfs_quiet s"
    using inv by (auto simp: cfs_inv_def)
  note A = cfs_add_cases [OF k(2) _ g(1), of sh]
  consider (dup) "cfs_already_added (cs_data s) (cfs_add_pcd pid sh)"
    | (new) "\<not> cfs_already_added (cs_data s) (cfs_add_pcd pid sh)" "k \<le> 30"
    | (late) "\<not> cfs_already_added (cs_data s) (cfs_add_pcd pid sh)" "\<not> k \<le> 30" by blast
  then show ?thesis
  proof cases
    case dup
    then show ?thesis using A k n q by (auto simp: cfs_quiet_def intro!: cfs_invI [of k])
  next
    case late
    moreover have "cfs_table (k + 1) ((cs_data s)\<lparr>cf_rt := cf_rt (cs_data s) + 1\<rparr>)"
      by (rule cfs_table_refused [OF k(2)])
    moreover have "cfs_quiet (s\<lparr>cs_data := (cs_data s)\<lparr>cf_rt := cf_rt (cs_data s) + 1\<rparr>\<rparr>)"
      using q by (simp add: cfs_quiet_def)
    ultimately show ?thesis using A k(1) n by (auto intro!: cfs_invI [of "k + 1"])
  next
    case new
    let ?d = "cs_data s"
    obtain d' where d': "cfs_add pid sh s = Inr (s\<lparr>cs_data := d',
        cs_awake := (cs_awake s)(pid := \<not> cs_awake s pid)\<rparr>)" "cfs_table (k + 1) d'"
      "cf_process d' = (cf_process ?d)[cf_count ?d := pid]" "cf_valid d' = (cf_valid ?d)[cf_count ?d := 1]"
      "cf_count d' = cf_count ?d + 1"
      using A new k(1) n by auto
    have "pid \<notin> set (cf_process ?d)" using new(1) by (simp add: cfs_already_added_def cfs_add_pcd_def)
    then have np: "cf_process ?d ! i \<noteq> pid" if "i < CFS_MAX" for i
      using that cfs_tableD(1) [OF k(2)] by (auto simp: in_set_conv_nth)
    have "cf_count ?d < CFS_MAX" using cfs_tableD(7) [OF k(2)] by (simp add: CFS_MAX_def)
    then have "cfs_quiet (s\<lparr>cs_data := d', cs_awake := (cs_awake s)(pid := \<not> cs_awake s pid)\<rparr>)"
      using q g np cfs_tableD(1,4) [OF k(2)]
      by (auto simp: cfs_quiet_def d'(3-5) nth_list_update)
    then show ?thesis using d'(1,2) k(1) by (auto intro!: cfs_invI [of "k + 1"])
  qed
qed

lemma cfs_inv_rem:
  assumes "cfs_inv n s"
  shows "cfs_inv (n + 1) (s\<lparr>cs_data := cfs_remove pid (cs_data s)\<rparr>)"
proof -
  obtain k where k: "k \<le> n" "cfs_table k (cs_data s)" and q: "cfs_quiet s"
    using assms by (auto simp: cfs_inv_def)
  have "cfs_quiet (s\<lparr>cs_data := cfs_remove pid (cs_data s)\<rparr>)"
    using q cfs_remove_nth [OF k(2), of _ pid] by (auto simp: cfs_quiet_def cfs_remove_count)
  then show ?thesis using k cfs_table_remove [OF k(2)] by (auto intro!: cfs_invI [of k])
qed

lemma cfs_inv_turn:
  assumes inv: "cfs_inv n s" and r: "cs_run s = None"
  shows "\<exists>s'. cfs_turn s = Inr s' \<and> cfs_inv (n + 1) s'"
proof -
  obtain k where k: "k \<le> n" "cfs_table k (cs_data s)" and q: "cfs_quiet s"
    using inv by (auto simp: cfs_inv_def)
  note D = cfs_tableD [OF k(2)]
  show ?thesis
  proof (cases "cf_count (cs_data s) = 0")
    case True
    then show ?thesis using k q by (auto simp: cfs_turn_def cfs_control_def intro!: cfs_invI [of k])
  next
    case False
    then have c: "cs_thid s < cf_count (cs_data s)" using q by (auto simp: cfs_quiet_def)
    have i: "cs_thid s < CFS_MAX" using c D(7) by (simp add: CFS_MAX_def)
    let ?v = "cf_valid (cs_data s) ! cs_thid s"
    obtain s' where s': "cfs_turn s = Inr s'" "cs_data s' = cs_data s" "cfs_quiet s'"
    proof (cases "?v = 0")
      case True
      then show ?thesis using that q c
        by (auto simp: cfs_turn_eq [OF k(2) c] cfs_quiet_def Let_def)
    next
      case False
      let ?p = "cf_process (cs_data s) ! cs_thid s" let ?sg = "cf_signal (cs_data s) ! cs_thid s"
      let ?s = "s\<lparr>cs_thid := if cs_thid s + 1 < cf_count (cs_data s) then cs_thid s + 1 else 0,
        cs_run := Some (?p, ?sg), cs_awake := (cs_awake s)(?p := \<not> cs_awake s ?p)\<rparr>"
      have asleep: "\<not> cs_awake s (cf_process (cs_data s) ! j)"
        if "j < CFS_MAX" "cf_valid (cs_data s) ! j \<noteq> 0" for j
        using q r that by (simp add: cfs_quiet_def)
      have "cfs_register_handler ?sg = 0" using D(9) [OF i False] by simp
      then have "cfs_quiet ?s" using asleep [OF i False] asleep c unfolding cfs_quiet_def by auto
      then show ?thesis using that False by (simp add: cfs_turn_eq [OF k(2) c] Let_def)
    qed
    then show ?thesis using k by (auto intro!: cfs_invI [of k])
  qed
qed

lemma cfs_inv_end:
  assumes inv: "cfs_inv n s" and r: "cs_run s = Some ps"
  shows "cfs_inv (n + 1) (cfs_end_turn ps s)"
proof -
  obtain k where k: "k \<le> n" "cfs_table k (cs_data s)" and q: "cfs_quiet s"
    using inv by (auto simp: cfs_inv_def)
  obtain p sg where ps: "ps = (p, sg)" by force
  have "cfs_quiet (cfs_end_turn ps s)"
    using q r ps by (auto simp: cfs_quiet_def cfs_end_turn_def cfs_signal_def)
  moreover have "cs_data (cfs_end_turn ps s) = cs_data s" by (simp add: cfs_end_turn_def)
  ultimately show ?thesis using k by (auto intro!: cfs_invI [of k])
qed

lemma cfs_step_inv:
  assumes "cfs_inv n s" and "n < 2 ^ 31 - 64" and "cfs_step s r"
  shows "\<exists>s'. r = Inr s' \<and> cfs_inv (n + 1) s'"
  using assms(3)
proof cases
  case step_add
  then show ?thesis using cfs_inv_add [OF assms(1,2)] by blast
next
  case step_rem
  then show ?thesis using cfs_inv_rem [OF assms(1)] by (auto simp: cfs_rem_eq)
next
  case step_turn
  then show ?thesis using cfs_inv_turn [OF assms(1)] by blast
next
  case step_end
  then show ?thesis using cfs_inv_end [OF assms(1)] by blast
qed

lemma cfs_reach_inv: "cfs_reach n s \<Longrightarrow> n < 2 ^ 31 - 64 \<Longrightarrow> cfs_inv n s"
proof (induction rule: cfs_reach.induct)
  case reach_init
  have "cfs_quiet \<lparr>cs_data = cfs_init, cs_thid = 0, cs_free = True, cs_run = None, cs_awake = \<lambda>p. True\<rparr>"
    by (simp add: cfs_quiet_def cfs_init_def)
  then show ?case using cfs_table_init by (auto simp: cfs_inv_def)
next
  case (reach_step n s s')
  then show ?case using cfs_step_inv [of n s "Inr s'"] by auto
qed

section \<open>Properties\<close>

definition cfs_start :: cfs_sys where
  "cfs_start = \<lparr>cs_data = cfs_init, cs_thid = 0, cs_free = True, cs_run = None, cs_awake = (\<lambda>p. True)\<rparr>"

lemma cfs_reach_start: "cfs_reach 0 cfs_start"
  unfolding cfs_start_def by (rule reach_init)

text \<open>The processes of the table.\<close>

definition cfs_members :: "cfs_data \<Rightarrow> int list" where
  "cfs_members d = map ((!) (cf_process d)) (filter (\<lambda>i. cf_valid d ! i \<noteq> 0) [0..<cf_count d])"

lemma cfs_members_iff:
  assumes "cfs_table k d"
  shows "p \<in> set (cfs_members d) \<longleftrightarrow> (\<exists>i < CFS_MAX. cf_valid d ! i \<noteq> 0 \<and> cf_process d ! i = p)"
proof -
  have "cf_count d \<le> CFS_MAX" using cfs_tableD(7) [OF assms] by (simp add: CFS_MAX_def)
  then have "i < cf_count d \<and> cf_valid d ! i \<noteq> 0 \<longleftrightarrow> i < CFS_MAX \<and> cf_valid d ! i \<noteq> 0" for i
    using cfs_tableD(9) [OF assms, of i] by auto
  then show ?thesis by (auto simp: cfs_members_def)
qed

lemma cfs_members_distinct:
  assumes "cfs_table k d"
  shows "distinct (cfs_members d)"
proof -
  have c: "cf_count d \<le> CFS_MAX" using cfs_tableD(7) [OF assms] by (simp add: CFS_MAX_def)
  have "inj_on ((!) (cf_process d)) {i. i < cf_count d \<and> cf_valid d ! i \<noteq> 0}"
  proof (rule inj_onI, clarsimp)
    fix i j assume a: "cf_process d ! i = cf_process d ! j" "i < cf_count d" "cf_valid d ! i \<noteq> 0"
      "j < cf_count d"
    then have "i < CFS_MAX" "j < CFS_MAX" using c by auto
    then show "i = j" using a cfs_tableD(9,10) [OF assms] by fastforce
  qed
  then show ?thesis by (simp add: cfs_members_def distinct_map)
qed

text \<open>The table of the scheduler holds at most 31 processes and none twice, and no step of the
  listener or the control thread ever faults: the 500 slots are never used up, although none is
  used again, because the signals run out after 31 registrations.\<close>

theorem cfs_table_bounded:
  assumes "cfs_reach n s" and "n < 2 ^ 31 - 64"
  shows "length (cfs_members (cs_data s)) \<le> 31 \<and> distinct (cfs_members (cs_data s))
    \<and> cf_count (cs_data s) \<le> 31 \<and> (\<forall>r. cfs_step s r \<longrightarrow> (\<exists>s'. r = Inr s'))"
proof -
  have inv: "cfs_inv n s" by (rule cfs_reach_inv [OF assms])
  then obtain k where k: "cfs_table k (cs_data s)" by (auto simp: cfs_inv_def)
  have "length (cfs_members (cs_data s)) \<le> cf_count (cs_data s)"
    unfolding cfs_members_def by (metis diff_zero length_filter_le length_map length_upt)
  then show ?thesis
    using cfs_tableD(7) [OF k] cfs_members_distinct [OF k] cfs_step_inv [OF inv assms(2)] by fastforce
qed

lemma cfs_table_bounded_witness:
  "length (cfs_members (cs_data cfs_start)) \<le> 31 \<and> (\<exists>s'. cfs_add 7 25 cfs_start = Inr s')"
proof -
  have "cfs_step cfs_start (cfs_add 7 25 cfs_start)"
    by (rule step_add) (simp_all add: cfs_start_def)
  then show ?thesis using cfs_table_bounded [OF cfs_reach_start] by auto
qed

text \<open>C15. At any time at most one process of the table is awake, and it is the one whose turn the
  control thread has begun; between two turns all of them sleep.\<close>

theorem cfs_one_at_a_time:
  assumes "cfs_reach n s" and "n < 2 ^ 31 - 64" and "p \<in> set (cfs_members (cs_data s))"
  shows "cs_awake s p \<longleftrightarrow> (\<exists>sg. cs_run s = Some (p, sg))"
proof -
  have inv: "cfs_inv n s" by (rule cfs_reach_inv [OF assms(1,2)])
  then obtain k where k: "cfs_table k (cs_data s)" by (auto simp: cfs_inv_def)
  then show ?thesis using inv assms(3) cfs_members_iff [OF k]
    by (auto simp: cfs_inv_def cfs_quiet_def)
qed

section \<open>Leaving\<close>

text \<open>The states \<open>m\<close> steps later.\<close>

inductive cfs_later :: "cfs_sys \<Rightarrow> nat \<Rightarrow> cfs_sys \<Rightarrow> bool" for s where
  later_refl: "cfs_later s 0 s"
| later_step: "\<lbrakk>cfs_later s m s1; cfs_step s1 (Inr s2)\<rbrakk> \<Longrightarrow> cfs_later s (m + 1) s2"

definition cfs_gone :: "int \<Rightarrow> cfs_sys \<Rightarrow> bool" where
  "cfs_gone p s \<longleftrightarrow> \<not> cs_awake s p \<and> (\<forall>sg. cs_run s \<noteq> Some (p, sg))
     \<and> p \<notin> set (cfs_members (cs_data s))"

lemma cfs_gone_step:
  assumes inv: "cfs_inv n s" and n: "n < 2 ^ 31 - 64" and gone: "cfs_gone p s"
    and step: "cfs_step s (Inr s')"
  shows "cfs_gone p s'"
proof -
  obtain k where k: "k \<le> n" "cfs_table k (cs_data s)" and q: "cfs_quiet s"
    using inv by (auto simp: cfs_inv_def)
  obtain k' where k': "cfs_table k' (cs_data s')"
    using cfs_step_inv [OF inv n step] by (auto simp: cfs_inv_def)
  have out: "cf_process (cs_data s) ! i \<noteq> p" if "i < CFS_MAX" "cf_valid (cs_data s) ! i \<noteq> 0" for i
    using gone that cfs_members_iff [OF k(2)] by (auto simp: cfs_gone_def)
  from step show ?thesis
  proof cases
    case (step_add pid share)
    then have pid: "pid \<noteq> p" using gone by (auto simp: cfs_gone_def)
    have c: "cf_count (cs_data s) < CFS_MAX" using cfs_tableD(7) [OF k(2)] by (simp add: CFS_MAX_def)
    have m: "p \<notin> set (cfs_members (cs_data s'))"
    proof (rule ccontr, unfold not_not cfs_members_iff [OF k'])
      assume "\<exists>i < CFS_MAX. cf_valid (cs_data s') ! i \<noteq> 0 \<and> cf_process (cs_data s') ! i = p"
      then obtain i where "i < CFS_MAX" "cf_valid (cs_data s') ! i \<noteq> 0" "cf_process (cs_data s') ! i = p"
        by blast
      then show False
        using step_add(1) cfs_add_cases [OF k(2) _ step_add(3), of share] k(1) n out [of i] pid c
          cfs_tableD(1,4) [OF k(2)]
        by (auto simp: nth_list_update split: if_splits)
    qed
    have "cs_run s' = cs_run s" "cs_awake s' p = cs_awake s p"
      using step_add(1) cfs_add_cases [OF k(2) _ step_add(3), of share] k(1) n pid
      by (auto split: if_splits)
    then show ?thesis using m gone by (simp add: cfs_gone_def)
  next
    case (step_rem pid junk)
    then have s': "s' = s\<lparr>cs_data := cfs_remove pid (cs_data s)\<rparr>" by (simp add: cfs_rem_eq)
    have "p \<notin> set (cfs_members (cfs_remove pid (cs_data s)))"
      using cfs_members_iff [OF cfs_table_remove [OF k(2)]] cfs_remove_nth [OF k(2)] out by fastforce
    then show ?thesis using gone by (simp add: s' cfs_gone_def)
  next
    case step_turn
    show ?thesis
    proof (cases "cf_count (cs_data s) = 0")
      case True
      then show ?thesis using step_turn gone by (auto simp: cfs_turn_def cfs_control_def cfs_gone_def)
    next
      case False
      then have c: "cs_thid s < cf_count (cs_data s)" using q by (auto simp: cfs_quiet_def)
      then have "cs_thid s < CFS_MAX" using cfs_tableD(7) [OF k(2)] by (simp add: CFS_MAX_def)
      then show ?thesis using step_turn(1) gone out [of "cs_thid s"]
        by (auto simp: cfs_turn_eq [OF k(2) c] cfs_gone_def Let_def split: if_splits)
    qed
  next
    case (step_end ps)
    then show ?thesis using gone by (cases ps) (auto simp: cfs_gone_def cfs_end_turn_def cfs_signal_def)
  qed
qed

lemma cfs_gone_later:
  "cfs_later s m s' \<Longrightarrow> cfs_inv n s \<Longrightarrow> cfs_gone p s \<Longrightarrow> n + m < 2 ^ 31 - 64 \<Longrightarrow>
   cfs_gone p s' \<and> cfs_inv (n + m) s'"
proof (induction rule: cfs_later.induct)
  case (later_step m s1 s2)
  then have "cfs_gone p s1" "cfs_inv (n + m) s1" by simp_all
  then show ?case using later_step cfs_gone_step [of "n + m" s1 p s2] cfs_step_inv [of "n + m" s1 "Inr s2"]
    by (auto simp: add.assoc)
qed simp

text \<open>A process that leaves the queue in its own turn, the only time it is awake, is put to
  sleep at the end of that turn by a signal it no longer expects, and never wakes again.\<close>

theorem cfs_leaver_sleeps:
  assumes "cfs_reach n s" and "cs_run s = Some (p, sg)" and "p \<in> set (cfs_members (cs_data s))"
    and "cfs_rem p junk s = Inr s1" and "cfs_later (cfs_end_turn (p, sg) s1) m s'"
    and "n + m + 2 < 2 ^ 31 - 64"
  shows "\<not> cs_awake s' p \<and> p \<notin> set (cfs_members (cs_data s'))"
proof -
  have inv: "cfs_inv n s" by (rule cfs_reach_inv [OF assms(1)]) (use assms(6) in simp)
  then obtain k where k: "cfs_table k (cs_data s)" and q: "cfs_quiet s" by (auto simp: cfs_inv_def)
  have aw: "cs_awake s p" "cfs_register_handler sg = 0"
    using q assms(2,3) cfs_members_iff [OF k] by (auto simp: cfs_quiet_def)
  have s1: "s1 = s\<lparr>cs_data := cfs_remove p (cs_data s)\<rparr>" using assms(4) by (simp add: cfs_rem_eq)
  have "cfs_inv (n + 1) s1" unfolding s1 by (rule cfs_inv_rem [OF inv])
  from cfs_inv_end [OF this, of "(p, sg)"] have i2: "cfs_inv (n + 2) (cfs_end_turn (p, sg) s1)"
    using assms(2) by (simp add: s1)
  have "p \<notin> set (cfs_members (cfs_remove p (cs_data s)))"
    using cfs_members_iff [OF cfs_table_remove [OF k]] cfs_remove_nth [OF k] by fastforce
  then have "cfs_gone p (cfs_end_turn (p, sg) s1)"
    using aw by (simp add: cfs_gone_def cfs_end_turn_def s1 cfs_signal_def)
  from cfs_gone_later [OF assms(5) i2 this] assms(6) show ?thesis by (simp add: cfs_gone_def)
qed

section \<open>Turns\<close>

text \<open>\<open>k\<close> iterations of the control thread with nobody coming or leaving: who had a turn.\<close>

primrec cfs_pass :: "nat \<Rightarrow> cfs_sys \<Rightarrow> (int list \<times> cfs_sys) cres" where
  "cfs_pass 0 s = Inr ([], s)"
| "cfs_pass (Suc k) s = bindr (cfs_turn s) (\<lambda>s1. case cs_run s1 of None \<Rightarrow> cfs_pass k s1
     | Some ps \<Rightarrow> bindr (cfs_pass k (cfs_end_turn ps s1)) (\<lambda>(l, s2). Inr (fst ps # l, s2)))"

lemma cfs_pass_from:
  assumes t: "cfs_table k (cs_data s)" and "cs_run s = None" and "cs_thid s = i"
    and "i + m = cf_count (cs_data s)" and "0 < m"
  shows "\<exists>s'. cfs_pass m s = Inr (map ((!) (cf_process (cs_data s)))
      (filter (\<lambda>j. cf_valid (cs_data s) ! j \<noteq> 0) [i..<i + m]), s')
    \<and> cs_data s' = cs_data s \<and> cs_thid s' = 0 \<and> cs_run s' = None"
  using assms
proof (induction m arbitrary: s i)
  case (Suc m)
  let ?d = "cs_data s" let ?p = "cf_process ?d ! i" let ?sg = "cf_signal ?d ! i"
  let ?n = "if i + 1 < cf_count ?d then i + 1 else 0"
  let ?aw = "(cs_awake s)(?p := \<not> cs_awake s ?p)"
  have c: "cs_thid s < cf_count ?d" using Suc.prems by simp
  have u: "[i..<i + Suc m] = i # [i + 1..<i + 1 + m]" by (simp add: upt_rec)
  define s1 where "s1 = (if cf_valid ?d ! i = 0 then s\<lparr>cs_thid := ?n\<rparr>
    else cfs_end_turn (?p, ?sg) (s\<lparr>cs_thid := ?n, cs_run := Some (?p, ?sg), cs_awake := ?aw\<rparr>))"
  have s1: "cs_data s1 = ?d" "cs_run s1 = None" "cs_thid s1 = ?n"
    using Suc.prems(2) by (simp_all add: s1_def cfs_end_turn_def)
  have step: "cfs_pass (Suc m) s = (if cf_valid ?d ! i = 0 then cfs_pass m s1
      else bindr (cfs_pass m s1) (\<lambda>(l, s2). Inr (?p # l, s2)))"
    using Suc.prems(2,3) by (simp add: cfs_turn_eq [OF Suc.prems(1) c] Let_def s1_def)
  obtain s' where s': "cfs_pass m s1 = Inr (map ((!) (cf_process ?d))
      (filter (\<lambda>j. cf_valid ?d ! j \<noteq> 0) [i + 1..<i + 1 + m]), s')"
    "cs_data s' = ?d" "cs_thid s' = 0" "cs_run s' = None"
  proof (cases m)
    case 0
    then show ?thesis using that [of s1] s1 Suc.prems(4) by simp
  next
    case (Suc l)
    then show ?thesis using that Suc.IH [of s1 "i + 1"] Suc.prems(1,4) s1 by auto
  qed
  show ?case unfolding step u using s' by simp
qed simp

text \<open>C24. In one pass of the control thread over the table every process of it has exactly one
  turn, in the order of registration, and the next pass starts at the beginning again.\<close>

theorem cfs_round_robin:
  assumes "cfs_reach n s" and "n < 2 ^ 31 - 64" and "cs_run s = None" and "cs_thid s = 0"
    and "0 < cf_count (cs_data s)"
  shows "\<exists>s'. cfs_pass (cf_count (cs_data s)) s = Inr (cfs_members (cs_data s), s')
    \<and> cs_data s' = cs_data s \<and> cs_thid s' = 0"
proof -
  obtain k where k: "cfs_table k (cs_data s)"
    using cfs_reach_inv [OF assms(1,2)] by (auto simp: cfs_inv_def)
  from cfs_pass_from [OF k assms(3,4), of "cf_count (cs_data s)"] assms(5) show ?thesis
    by (auto simp: cfs_members_def)
qed

lemma sint_small_nat64: "m < 2 ^ 63 \<Longrightarrow> sint (word_of_nat m :: u64) = int m"
  by (simp add: signed_of_nat signed_take_bit_int_eq_self)

text \<open>A turn lasts the share of the process in milliseconds if that is less than a second; a
  process with a larger share is stopped again at once, for \<open>nanosleep\<close> rejects the time.\<close>

theorem cfs_slice_spec:
  assumes "unat share < 2 ^ 43"
  shows "cfs_slice_ns share = (if unat share < 1000 then 1000000 * int (unat share) else 0)"
proof -
  have e: "1000000 * share = word_of_nat (1000000 * unat share)" by simp
  have "1000000 * unat share < 2 ^ 63" using assms by simp
  then have "sint (1000000 * share) = int (1000000 * unat share)"
    by (subst e) (rule sint_small_nat64)
  moreover obtain u where "u = unat share" by blast
  ultimately show ?thesis unfolding cfs_slice_ns_def Let_def by (fold \<open>u = unat share\<close>) auto
qed

lemma cfs_slice_spec_witness: "cfs_slice_ns 25 = 25000000 \<and> cfs_slice_ns 1000 = 0"
  using cfs_slice_spec [of 25] cfs_slice_spec [of 1000] by simp

lemma cfs_turn_keeps: "cfs_turn s = Inr s' \<Longrightarrow> cs_free s' = cs_free s \<and> cs_data s' = cs_data s"
  by (auto simp: cfs_turn_def bindr_eq_Inr_iff split: option.split_asm)

text \<open>A process that registers a second time while it is in the table is not answered: it
  waits with the semaphore taken, and from then on no process can register or leave.\<close>

theorem cfs_duplicate_blocks:
  assumes "p \<in> set (cf_process (cs_data s))" and "cfs_add p share s = Inr s1"
    and "cfs_later s1 m s'"
  shows "\<not> cs_free s' \<and> cs_data s' = cs_data s"
  using assms(3,2)
proof (induction rule: cfs_later.induct)
  case later_refl
  then show ?case using assms(1)
    by (auto simp: cfs_add_def cfs_already_added_def cfs_add_pcd_def)
next
  case (later_step m s1 s2)
  from later_step(2) later_step(3) [OF later_step.prems] show ?case
    by cases (auto simp: cfs_end_turn_def dest!: cfs_turn_keeps [OF sym])
qed

section \<open>A run\<close>

lemma cfs_demo:
  "\<exists>s sg. cfs_reach 2 s \<and> cs_run s = Some (7, sg) \<and> 7 \<in> set (cfs_members (cs_data s))
     \<and> (\<exists>s1. cfs_reach 1 s1 \<and> cs_run s1 = None \<and> cs_thid s1 = 0 \<and> cf_count (cs_data s1) = 1
          \<and> cfs_members (cs_data s1) = [7])"
proof -
  have p: "cf_process cfs_init = replicate 500 0" "cf_valid cfs_init = replicate 500 0"
    "cf_count cfs_init = 0" by (simp_all add: cfs_init_def CFS_MAX_def)
  have na: "\<not> cfs_already_added (cs_data cfs_start) (cfs_add_pcd 7 25)"
    by (simp add: cfs_already_added_def cfs_start_def p cfs_add_pcd_def)
  have t: "cfs_table 0 (cs_data cfs_start)" using cfs_table_init by (simp add: cfs_start_def)
  obtain d where d: "cfs_add 7 25 cfs_start = Inr (cfs_start\<lparr>cs_data := d,
      cs_awake := (cs_awake cfs_start)(7 := \<not> cs_awake cfs_start 7)\<rparr>)" "cfs_table 1 d"
    "cf_process d = (replicate 500 0)[0 := 7]" "cf_valid d = (replicate 500 0)[0 := 1]" "cf_count d = 1"
    using cfs_add_cases [OF t, of 7 25] na by (auto simp: cfs_start_def p)
  let ?s1 = "cfs_start\<lparr>cs_data := d, cs_awake := (cs_awake cfs_start)(7 := \<not> cs_awake cfs_start 7)\<rparr>"
  have "cfs_step cfs_start (Inr ?s1)"
    unfolding d(1) [symmetric] by (rule step_add) (simp_all add: cfs_start_def)
  from reach_step [OF cfs_reach_start this] have r1: "cfs_reach 1 ?s1" by simp
  have run: "cs_run ?s1 = None" "cs_thid ?s1 = 0" by (simp_all add: cfs_start_def)
  obtain s2 where s2: "cfs_turn ?s1 = Inr s2" "cs_run s2 = Some (7, cf_signal d ! 0)" "cs_data s2 = d"
    using cfs_turn_eq [of 1 ?s1] d run by (auto simp: Let_def)
  have "cfs_step ?s1 (Inr s2)" unfolding s2(1) [symmetric] by (rule step_turn) (rule run(1))
  from reach_step [OF r1 this] have r2: "cfs_reach 2 s2" by (simp add: numeral_2_eq_2)
  have "cfs_members d = [7]" by (simp add: cfs_members_def d)
  then show ?thesis using r1 r2 s2 run d(5)
    by (intro exI [of _ s2] exI [of _ "cf_signal d ! 0"]) (auto intro!: exI [of _ ?s1])
qed

lemma cfs_one_at_a_time_witness:
  "\<exists>s sg. cfs_reach 2 s \<and> cs_awake s 7 \<and> cs_run s = Some (7, sg)"
  using cfs_demo cfs_one_at_a_time [of 2 _ 7] by fastforce

lemma cfs_leaver_sleeps_witness:
  "\<exists>s sg s1. cfs_reach 2 s \<and> cs_run s = Some (7, sg) \<and> cfs_rem 7 0 s = Inr s1
     \<and> \<not> cs_awake (cfs_end_turn (7, sg) s1) 7"
proof -
  obtain s sg where s: "cfs_reach 2 s" "cs_run s = Some (7, sg)" "7 \<in> set (cfs_members (cs_data s))"
    using cfs_demo by blast
  show ?thesis
    using cfs_leaver_sleeps [OF s cfs_rem_eq [of 7 0 s] later_refl] s(1,2) cfs_rem_eq by fastforce
qed

lemma cfs_round_robin_witness: "\<exists>s s'. cfs_reach 1 s \<and> cfs_pass 1 s = Inr ([7], s')"
proof -
  obtain s where s: "cfs_reach 1 s" "cs_run s = None" "cs_thid s = 0" "cf_count (cs_data s) = 1"
    "cfs_members (cs_data s) = [7]"
    using cfs_demo by blast
  show ?thesis using cfs_round_robin [OF s(1) _ s(2,3)] s by auto
qed

lemma cfs_duplicate_blocks_witness:
  "\<exists>s s1. cfs_reach 1 s \<and> cfs_add 7 25 s = Inr s1 \<and> \<not> cs_free s1"
proof -
  obtain s where s: "cfs_reach 1 s" "cfs_members (cs_data s) = [7]"
    using cfs_demo by blast
  then obtain k where k: "cfs_table k (cs_data s)"
    using cfs_reach_inv [of 1 s] by (auto simp: cfs_inv_def)
  have p: "7 \<in> set (cf_process (cs_data s))"
    using cfs_members_iff [OF k, of 7] s(2) cfs_tableD(1) [OF k] by (auto simp: in_set_conv_nth)
  then have a: "cfs_add 7 25 s = Inr (s\<lparr>cs_free := False\<rparr>)"
    by (simp add: cfs_add_def cfs_already_added_def cfs_add_pcd_def)
  show ?thesis using cfs_duplicate_blocks [OF p a later_refl] a s(1) by blast
qed

end
