(* ===== verification/L2_Client.thy ===== *)
theory L2_Client
  imports Fair_Share Las
begin

text \<open>
  The clients of the second-level schedulers, backend/libl2scheduler.c: a backend process enters
  itself into the table of the scheduler of its GPU, reports the time it has used, asks for its
  priority and leaves. The requests go through FIFOs: one per listener thread, which is found in
  a mapping file, and one per process for the answers.
\<close>

section \<open>The listeners as the clients see them\<close>

text \<open>
  A listener's FIFO can be missing, can be left over from a thread that has ended, or is read by
  the listener thread of a GPU.
\<close>

datatype fifo = No_fifo | No_reader | Read_by int

text \<open>
  What all processes share: the mapping file (\<open>None\<close> when it does not exist), the FIFOs by
  thread id, whether the semaphore exists, the table, and the signals that were sent.
\<close>

record l2 =
  l2_file :: "(int \<times> string) list option"
  l2_fifo :: "string \<Rightarrow> fifo"
  l2_sem :: bool
  l2_table :: scheduler_data
  l2_signals :: "(int \<times> int) list"

definition GET_SIGNUM :: int where "GET_SIGNUM = 13"

text \<open>
  \<open>while (!feof(fp)) { fscanf(fp, "%d\t%s\n", &gpu, tid); if (gpu == gpuid) ... break; }\<close>: the
  thread id has room for 24 characters. Nothing is read from an empty file, and \<open>gpu\<close> is
  compared all the same.
\<close>

primrec scan_map :: "u32 \<Rightarrow> (int \<times> string) list \<Rightarrow> string option cres" where
  "scan_map gpuid [] = Inr None"
| "scan_map gpuid (l # ls) = (case l of (g, tid) \<Rightarrow> if 24 < length tid then Inl OutOfBounds
     else if word_of_int g = gpuid then Inr (Some tid) else scan_map gpuid ls)"

definition sched_tid :: "u32 \<Rightarrow> l2 \<Rightarrow> string option cres" where
  "sched_tid gpuid s = (case l2_file s of None \<Rightarrow> Inl NullDeref | Some [] \<Rightarrow> Inl Uninit
     | Some ls \<Rightarrow> scan_map gpuid ls)"

text \<open>
  A request that expects no answer: the path of the listener is opened for writing, which blocks
  while nobody reads; a failed \<open>open\<close> makes the \<open>write\<close> fail, which nobody looks at.
\<close>

definition l2_send :: "(int \<Rightarrow> scheduler_data \<Rightarrow> (scheduler_data \<times> (int \<times> int) list) cres)
    \<Rightarrow> string \<Rightarrow> l2 \<Rightarrow> l2 cres" where
  "l2_send listen tid s = (case l2_fifo s tid of No_fifo \<Rightarrow> Inr s | No_reader \<Rightarrow> Inl Hangs
     | Read_by g \<Rightarrow> bindr (listen g (l2_table s)) (\<lambda>(sd, sigs).
         Inr (s\<lparr>l2_table := sd, l2_signals := l2_signals s @ sigs\<rparr>)))"

text \<open>A request that waits for its answer, which is what \<open>reply\<close> finds in the answers.\<close>

definition l2_ask :: "(int \<Rightarrow> scheduler_data \<Rightarrow> (scheduler_data \<times> 'o list) cres) \<Rightarrow> ('o \<Rightarrow> 'a option)
    \<Rightarrow> ('o list \<Rightarrow> (int \<times> int) list) \<Rightarrow> string option \<Rightarrow> l2 \<Rightarrow> ('a \<times> l2) cres" where
  "l2_ask listen reply sigs tid s = (case map_option (l2_fifo s) tid of
       Some (Read_by g) \<Rightarrow> bindr (listen g (l2_table s)) (\<lambda>(sd, outs).
         case List.map_filter reply outs of [] \<Rightarrow> Inl Hangs
         | x # xs \<Rightarrow> Inr (x, s\<lparr>l2_table := sd, l2_signals := l2_signals s @ sigs outs\<rparr>))
     | _ \<Rightarrow> Inl Hangs)"

section \<open>Clients of the fair-share scheduler\<close>

definition fs_reply :: "int \<Rightarrow> listen_out \<Rightarrow> int option" where
  "fs_reply pid x = (case x of Reply p n \<Rightarrow> if p = pid then Some n else None | _ \<Rightarrow> None)"

definition fs_queued :: "listen_out list \<Rightarrow> (int \<times> int) list" where
  "fs_queued = List.map_filter (\<lambda>x. case x of Queue p n \<Rightarrow> Some (p, n) | _ \<Rightarrow> None)"

text \<open>The size of a request; \<open>read\<close> gives it to the listener.\<close>

definition PCD_SIZE :: int where "PCD_SIZE = 48"

text \<open>
  \<open>fs_register_handler\<close> installs handlers for three signals that all exist, so \<open>sigaction\<close>
  does not fail; its argument is only printed.
\<close>

definition fs_register_handler :: "int \<Rightarrow> int" where
  "fs_register_handler signum = 0"

definition fs_queue_request :: "process_credit_data \<Rightarrow> int \<Rightarrow> scheduler_data
    \<Rightarrow> (scheduler_data \<times> (int \<times> int) list) cres" where
  "fs_queue_request pcd g sd =
     bindr (fs_listen g PCD_SIZE pcd 0 sd) (\<lambda>(sd, outs). Inr (sd, fs_queued outs))"

text \<open>\<open>junk\<close> is what the uninitialised request on the stack holds.\<close>

definition fs_add_queue :: "int \<Rightarrow> u32 \<Rightarrow> u64 \<Rightarrow> int \<Rightarrow> process_credit_data \<Rightarrow> l2 \<Rightarrow> (int \<times> l2) cres" where
  "fs_add_queue pid gpuid app_type share junk s = bindr (sched_tid gpuid s) (\<lambda>tid.
     let pcd = junk\<lparr>pcd_pid := pid, pcd_share_unit := word_of_int share, pcd_action := ADD_Q,
           pcd_app_type := sint (ucast app_type :: u32), pcd_gpuid := sint gpuid\<rparr> in
     if \<not> l2_sem s then Inr (-1, s) else
     l2_ask (\<lambda>g. fs_listen g PCD_SIZE pcd (fs_register_handler SIGSCHED)) (fs_reply pid) fs_queued tid s)"

text \<open>\<open>me\<close> is \<open>getpid()\<close>; the argument \<open>process_id\<close> is not used.\<close>

definition fs_rem_queue :: "int \<Rightarrow> int \<Rightarrow> int \<Rightarrow> process_credit_data \<Rightarrow> l2 \<Rightarrow> (int \<times> l2) cres" where
  "fs_rem_queue me process_id gpuid junk s =
     (if gpuid = -1 then Inr (0, s) else if \<not> l2_sem s then Inr (-1, s) else
      bindr (sched_tid (word_of_int gpuid) s) (\<lambda>t. case t of None \<Rightarrow> Inr (0, s) | Some tid \<Rightarrow>
      bindr (l2_send (fs_queue_request (junk\<lparr>pcd_pid := me, pcd_action := REM_Q\<rparr>)) tid s) (\<lambda>s.
      Inr (0, s))))"

definition fs_notify_scheduler :: "int \<Rightarrow> timeval \<Rightarrow> timeval \<Rightarrow> int \<Rightarrow> int \<Rightarrow> l2 \<Rightarrow> l2 cres" where
  "fs_notify_scheduler me before after gpuid junk s =
     (if gpuid = -1 then Inr s else if \<not> l2_sem s then Inr s else
      bindr (sched_tid (word_of_int gpuid) s) (\<lambda>t. case t of None \<Rightarrow> Inr s | Some tid \<Rightarrow>
      l2_send (fs_queue_request \<lparr>pcd_pid = me, pcd_share_unit = 0, pcd_action = NOTIFY_SCHED,
        pcd_app_type = 0, pcd_gpuid = junk, pcd_execution = timersub after before\<rparr>) tid s))"

text \<open>
  \<open>fs_get_RTsignal\<close> asks one listener after the other, and waits for the answer of each with the
  semaphore taken.
\<close>

fun rtsignal_loop :: "process_credit_data \<Rightarrow> (int \<times> string) list \<Rightarrow> int \<Rightarrow> l2 \<Rightarrow> (int \<times> l2) cres" where
  "rtsignal_loop pcd [] signum s = Inr (signum, s)"
| "rtsignal_loop pcd ((g, tid) # ls) signum s = (if 24 < length tid then Inl OutOfBounds else
     bindr (l2_ask (\<lambda>g. fs_listen g PCD_SIZE pcd 0) (fs_reply (pcd_pid pcd)) fs_queued (Some tid) s)
       (\<lambda>(signum, s). if signum \<noteq> -1 then Inr (signum, s) else rtsignal_loop pcd ls signum s))"

definition fs_get_RTsignal :: "int \<Rightarrow> process_credit_data \<Rightarrow> l2 \<Rightarrow> (int \<times> l2) cres" where
  "fs_get_RTsignal pid junk s = (if \<not> l2_sem s then Inr (-1, s) else
     case l2_file s of None \<Rightarrow> Inl NullDeref | Some [] \<Rightarrow> Inl Uninit
     | Some ls \<Rightarrow> rtsignal_loop (junk\<lparr>pcd_pid := pid, pcd_action := GET_SIGNUM\<rparr>) ls (-1) s)"

section \<open>Clients of the least-attained-service scheduler\<close>

definition las_reply :: "int \<Rightarrow> las_out \<Rightarrow> int option" where
  "las_reply pid x = (case x of LReply p n \<Rightarrow> if p = pid then Some n else None | _ \<Rightarrow> None)"

definition las_data_reply :: "int \<Rightarrow> las_out \<Rightarrow> process_credit_data option" where
  "las_data_reply pid x = (case x of LData p d \<Rightarrow> if p = pid then Some d else None | _ \<Rightarrow> None)"

definition las_queue_request :: "process_credit_data \<Rightarrow> int \<Rightarrow> scheduler_data
    \<Rightarrow> (scheduler_data \<times> (int \<times> int) list) cres" where
  "las_queue_request pcd g sd = bindr (las_listen g PCD_SIZE pcd sd) (\<lambda>(sd, outs). Inr (sd, []))"

definition las_add_queue :: "int \<Rightarrow> u32 \<Rightarrow> int \<Rightarrow> process_credit_data \<Rightarrow> l2 \<Rightarrow> (int \<times> l2) cres" where
  "las_add_queue pid gpuid app_type junk s = bindr (sched_tid gpuid s) (\<lambda>tid.
     let pcd = junk\<lparr>pcd_pid := pid, pcd_action := ADD_Q, pcd_app_type := app_type,
           pcd_gpuid := sint gpuid\<rparr> in
     if \<not> l2_sem s then Inr (-1, s) else
     l2_ask (\<lambda>g. las_listen g PCD_SIZE pcd) (las_reply pid) (\<lambda>_. []) tid s)"

definition las_rem_queue :: "int \<Rightarrow> int \<Rightarrow> int \<Rightarrow> process_credit_data \<Rightarrow> l2 \<Rightarrow> (int \<times> l2) cres" where
  "las_rem_queue me process_id gpuid junk s =
     (if gpuid = -1 then Inr (0, s) else if \<not> l2_sem s then Inr (-1, s) else
      bindr (sched_tid (word_of_int gpuid) s) (\<lambda>t. case t of None \<Rightarrow> Inr (0, s) | Some tid \<Rightarrow>
      bindr (l2_send (las_queue_request (junk\<lparr>pcd_pid := me, pcd_action := REM_Q\<rparr>)) tid s) (\<lambda>s.
      Inr (0, s))))"

definition las_notify_scheduler :: "int \<Rightarrow> timeval \<Rightarrow> timeval \<Rightarrow> int \<Rightarrow> int \<Rightarrow> l2 \<Rightarrow> l2 cres" where
  "las_notify_scheduler me before after gpuid junk s =
     (if gpuid = -1 then Inr s else if \<not> l2_sem s then Inr s else
      bindr (sched_tid (word_of_int gpuid) s) (\<lambda>t. case t of None \<Rightarrow> Inr s | Some tid \<Rightarrow>
      l2_send (las_queue_request \<lparr>pcd_pid = me, pcd_share_unit = 0, pcd_action = NOTIFY_SCHED,
        pcd_app_type = 0, pcd_gpuid = junk, pcd_execution = timersub after before\<rparr>) tid s))"

text \<open>
  The slot travels in the field of the GPU. Without a listener for the GPU the result is a
  variable that was never set.
\<close>

definition las_get_priority :: "int \<Rightarrow> int \<Rightarrow> int \<Rightarrow> process_credit_data \<Rightarrow> l2 \<Rightarrow> (int \<times> l2) cres" where
  "las_get_priority me index gpuid junk s =
     (if gpuid = -1 then Inr (-1, s) else if \<not> l2_sem s then Inr (-1, s) else
      bindr (sched_tid (word_of_int gpuid) s) (\<lambda>t. case t of None \<Rightarrow> Inl Uninit | Some tid \<Rightarrow>
      l2_ask (\<lambda>g. las_listen g PCD_SIZE (junk\<lparr>pcd_pid := me, pcd_action := GET_PRIORITY,
        pcd_gpuid := index\<rparr>)) (las_reply me) (\<lambda>_. []) (Some tid) s))"

text \<open>The application type and the time are set when there is an answer.\<close>

definition las_get_l2_data :: "int \<Rightarrow> int \<Rightarrow> int \<Rightarrow> process_credit_data \<Rightarrow> l2
    \<Rightarrow> (int \<times> (int \<times> timeval) option \<times> l2) cres" where
  "las_get_l2_data me gpuid index junk s =
     (if gpuid = -1 then Inr (0, None, s) else if \<not> l2_sem s then Inr (-1, None, s) else
      bindr (sched_tid (word_of_int gpuid) s) (\<lambda>t. case t of None \<Rightarrow> Inr (0, None, s) | Some tid \<Rightarrow>
      bindr (l2_ask (\<lambda>g. las_listen g PCD_SIZE (junk\<lparr>pcd_pid := me, pcd_action := GET_L2_DATA,
        pcd_gpuid := index\<rparr>)) (las_data_reply me) (\<lambda>_. []) (Some tid) s) (\<lambda>(d, s).
      Inr (if pcd_action d = 1 then 1 else 0, Some (pcd_app_type d, pcd_execution d), s))))"

section \<open>What both listeners promise\<close>

lemma l2_ask_eq: "l2_ask listen reply sigs tid s = Inr (x, s') \<longleftrightarrow>
    (\<exists>t g sd outs xs. tid = Some t \<and> l2_fifo s t = Read_by g \<and> listen g (l2_table s) = Inr (sd, outs)
       \<and> List.map_filter reply outs = x # xs
       \<and> s' = s\<lparr>l2_table := sd, l2_signals := l2_signals s @ sigs outs\<rparr>)" (is "?l \<longleftrightarrow> ?r")
proof
  assume ?l
  then obtain t g sd outs where h: "tid = Some t" "l2_fifo s t = Read_by g"
      "listen g (l2_table s) = Inr (sd, outs)"
      "(case List.map_filter reply outs of [] \<Rightarrow> Inl Hangs | x # xs \<Rightarrow>
         Inr (x, s\<lparr>l2_table := sd, l2_signals := l2_signals s @ sigs outs\<rparr>)) = Inr (x, s')"
    by (auto simp: l2_ask_def bindr_eq_Inr_iff split: option.splits fifo.splits)
  then show ?r by (cases "List.map_filter reply outs") auto
qed (auto simp: l2_ask_def)

text \<open>
  A listener keeps the invariant of the table, and a request that removes a process leaves it
  out of the table. The clients' operations inherit both.
\<close>

locale l2_server =
  fixes serve :: "process_credit_data \<Rightarrow> int \<Rightarrow> scheduler_data \<Rightarrow> (scheduler_data \<times> 'o list) cres"
  assumes serve_inv: "\<lbrakk>table_inv sd; serve pcd g sd = Inr (sd', outs)\<rbrakk> \<Longrightarrow> table_inv sd'"
    and serve_leave: "\<lbrakk>table_inv sd; pcd_action pcd = REM_Q; pcd_pid pcd \<noteq> INVALID_PROCEESS;
        \<exists>x \<in> set (sd_slots sd). sl_process x = pcd_pid pcd \<and> sl_gpu x = g\<rbrakk>
      \<Longrightarrow> \<exists>sd' outs. serve pcd g sd = Inr (sd', outs) \<and> pcd_pid pcd \<notin> set (pids sd')"
begin

lemma ask_inv:
  assumes "table_inv (l2_table s)" and "l2_ask (serve pcd) reply sigs tid s = Inr (x, s')"
  shows "table_inv (l2_table s')"
  using assms by (auto simp: l2_ask_eq dest: serve_inv)

lemma send_inv:
  assumes "table_inv (l2_table s)"
    and "l2_send (\<lambda>g sd. bindr (serve pcd g sd) (\<lambda>(sd, outs). Inr (sd, f outs))) tid s = Inr s'"
  shows "table_inv (l2_table s')"
  using assms by (auto simp: l2_send_def bindr_eq_Inr_iff dest: serve_inv split: fifo.splits)

lemma send_leave:
  assumes "table_inv (l2_table s)" and "l2_fifo s tid = Read_by g" and "pcd_action pcd = REM_Q"
    and "pcd_pid pcd \<noteq> INVALID_PROCEESS"
    and "\<exists>x \<in> set (sd_slots (l2_table s)). sl_process x = pcd_pid pcd \<and> sl_gpu x = g"
  shows "\<exists>s'. l2_send (\<lambda>g sd. bindr (serve pcd g sd) (\<lambda>(sd, outs). Inr (sd, f outs))) tid s = Inr s'
    \<and> table_inv (l2_table s') \<and> pcd_pid pcd \<notin> set (pids (l2_table s'))"
proof -
  from serve_leave [OF assms(1,3,4,5)] obtain sd' outs where
    r: "serve pcd g (l2_table s) = Inr (sd', outs)" "pcd_pid pcd \<notin> set (pids sd')" by blast
  then show ?thesis using serve_inv [OF assms(1) r(1)] assms(2) by (simp add: l2_send_def)
qed

end

interpretation fs_server: l2_server "\<lambda>pcd g. fs_listen g PCD_SIZE pcd err"
proof
  fix sd sd' :: scheduler_data and pcd :: process_credit_data and g outs
  assume "table_inv sd" "fs_listen g PCD_SIZE pcd err sd = Inr (sd', outs)"
  then show "table_inv sd'" using fs_listen_inv [of sd g PCD_SIZE pcd err] by auto
next
  fix sd :: scheduler_data and pcd :: process_credit_data and g
  assume a: "table_inv sd" "pcd_action pcd = REM_Q" "pcd_pid pcd \<noteq> INVALID_PROCEESS"
    "\<exists>x \<in> set (sd_slots sd). sl_process x = pcd_pid pcd \<and> sl_gpu x = g"
  from fs_table.remove_inv [OF a(1), of g "pcd_pid pcd"] a(3,4) obtain sd' where
    r: "fs_remove g (pcd_pid pcd) sd = Inr sd'" "pcd_pid pcd \<notin> set (pids sd')" by auto
  show "\<exists>sd' outs. fs_listen g PCD_SIZE pcd err sd = Inr (sd', outs) \<and> pcd_pid pcd \<notin> set (pids sd')"
    using a(2) r by (simp add: fs_listen_def PCD_SIZE_def pcd_actions)
qed

lemma las_listen_inv:
  assumes "table_inv sd" and "las_listen g st pcd sd = Inr (sd', outs)"
  shows "table_inv sd'"
proof -
  have reg: "table_inv sd''" if "las_register_process r sd = Inr (i, sd'')" "lr_pid r \<notin> set (pids sd)" for r i sd''
    using las_table.register_inv [OF assms(1) that(2)] that(1) by auto
  have rem: "table_inv sd''" if "las_remove g p sd = Inr sd''" for p sd''
    using las_table.remove_inv [OF assms(1), of g p] that by auto
  have nt: "table_inv sd''" if "las_notify g pcd sd = Inr sd''" for sd''
  proof -
    have "pids sd'' = pids sd \<and> length (sd_slots sd'') = length (sd_slots sd) \<and> sd_count sd'' = sd_count sd"
      using that by (auto simp: las_notify_def slot_upd_def bindr_eq_Inr_iff nthr_eq_Inr pids_def map_update
          list_update_same_conv split: option.splits)
    then show ?thesis using assms(1) by (simp add: table_inv_def sd_ok_def distinct_pids_def)
  qed
  show ?thesis using assms reg rem nt
    by (auto simp: las_listen_def bindr_eq_Inr_iff already_added_pids split: if_splits)
qed

interpretation las_server: l2_server "\<lambda>pcd g. las_listen g PCD_SIZE pcd"
proof
  fix sd sd' :: scheduler_data and pcd :: process_credit_data and g outs
  assume "table_inv sd" "las_listen g PCD_SIZE pcd sd = Inr (sd', outs)"
  then show "table_inv sd'" by (rule las_listen_inv)
next
  fix sd :: scheduler_data and pcd :: process_credit_data and g
  assume a: "table_inv sd" "pcd_action pcd = REM_Q" "pcd_pid pcd \<noteq> INVALID_PROCEESS"
    "\<exists>x \<in> set (sd_slots sd). sl_process x = pcd_pid pcd \<and> sl_gpu x = g"
  from las_table.remove_inv [OF a(1), of g "pcd_pid pcd"] a(3,4) obtain sd' where
    r: "las_remove g (pcd_pid pcd) sd = Inr sd'" "pcd_pid pcd \<notin> set (pids sd')" by auto
  show "\<exists>sd' outs. las_listen g PCD_SIZE pcd sd = Inr (sd', outs) \<and> pcd_pid pcd \<notin> set (pids sd')"
    using a(2) r by (simp add: las_listen_def PCD_SIZE_def pcd_actions)
qed

text \<open>A GPU whose listener is up: the mapping file leads to a FIFO that the listener reads.\<close>

definition gpu_served :: "int \<Rightarrow> string \<Rightarrow> l2 \<Rightarrow> bool" where
  "gpu_served gpu tid s \<longleftrightarrow> l2_sem s \<and> gpu \<noteq> -1 \<and> sint (word_of_int gpu :: u32) = gpu
     \<and> sched_tid (word_of_int gpu) s = Inr (Some tid) \<and> l2_fifo s tid = Read_by gpu"

end
