(* ===== verification/L2_Properties.thy ===== *)
theory L2_Properties
  imports L2_Client
begin

text \<open>
  What the clients of the second-level schedulers can rely on: a session with the fair-share
  scheduler from \<open>fs_add_queue\<close> to \<open>fs_rem_queue\<close>, a session with the least-attained-service
  scheduler while other processes come, report and go, and the request that is never answered.
\<close>

section \<open>Fair share\<close>

lemma ucast_of_int: "ucast (word_of_int x :: u64) = (word_of_int x :: u32)"
  by (rule bit_word_eqI) (simp add: bit_simps)

lemma fs_add_queue_joins:
  assumes inv: "table_inv (l2_table s)" and up: "gpu_served gpu tid s"
    and new: "pid \<notin> set (pids (l2_table s))"
  shows "\<exists>s'. fs_add_queue pid (word_of_int gpu) app_type share junk s = Inr (SIGSCHED, s')
    \<and> table_inv (l2_table s') \<and> l2_signals s' = l2_signals s @ [(pid, SIGALRM)]
    \<and> (let x = sd_slots (l2_table s') ! unat (sd_count (l2_table s)) in
         sl_process x = pid \<and> sl_gpu x = gpu \<and> sl_state x = PROC_ACTIVE
         \<and> sl_share_unit x = word_of_int (sint (word_of_int share :: u32)))
    \<and> unat (sd_count (l2_table s)) < length (sd_slots (l2_table s'))
    \<and> l2_file s' = l2_file s \<and> l2_fifo s' = l2_fifo s \<and> l2_sem s' = l2_sem s"
proof -
  let ?pcd = "junk\<lparr>pcd_pid := pid, pcd_share_unit := word_of_int share, pcd_action := ADD_Q,
      pcd_app_type := sint (ucast app_type :: u32), pcd_gpuid := gpu\<rparr>"
  let ?sd = "l2_table s"
  have c: "unat (sd_count ?sd) < length (sd_slots ?sd)"
    using inv sd_okD by (simp add: table_inv_def)
  obtain sd' where l: "fs_listen gpu PCD_SIZE ?pcd 0 ?sd = Inr (sd', [Reply pid SIGSCHED, Queue pid SIGALRM])"
    and t: "sl_process (sd_slots sd' ! unat (sd_count ?sd)) = pid" "sl_gpu (sd_slots sd' ! unat (sd_count ?sd)) = gpu"
      "sl_state (sd_slots sd' ! unat (sd_count ?sd)) = PROC_ACTIVE"
      "sl_share_unit (sd_slots sd' ! unat (sd_count ?sd)) = word_of_int (sint (word_of_int share :: u32))"
      "length (sd_slots sd') = length (sd_slots ?sd)"
    using new c by (simp add: fs_listen_def PCD_SIZE_def already_added_pids fs_register_process_def
        slot_upd_ok ucast_of_int)
  have i: "table_inv sd'" by (rule fs_server.serve_inv [OF inv l])
  show ?thesis using up l i t c
    by (simp add: fs_add_queue_def gpu_served_def l2_ask_def fs_register_handler_def
        List.map_filter_simps fs_reply_def fs_queued_def Let_def)
qed

text \<open>C34. A backend process that adds itself to the queue of a GPU whose listener is up, and is not
  in the table, is entered as active on that GPU with its share (cut to 32 bits) and is sent the
  signal that stops it. When it leaves the queue it is not in the table any more. Both keep the
  table consistent.\<close>

theorem fs_queue_session:
  assumes "table_inv (l2_table s)" and "gpu_served gpu tid s"
    and "pid \<notin> set (pids (l2_table s))" and "pid \<noteq> INVALID_PROCEESS"
  shows "\<exists>s' s''. fs_add_queue pid (word_of_int gpu) app_type share junk s = Inr (SIGSCHED, s')
    \<and> table_inv (l2_table s') \<and> l2_signals s' = l2_signals s @ [(pid, SIGALRM)]
    \<and> (\<exists>x \<in> set (sd_slots (l2_table s')). sl_process x = pid \<and> sl_gpu x = gpu
         \<and> sl_state x = PROC_ACTIVE \<and> sl_share_unit x = word_of_int (sint (word_of_int share :: u32)))
    \<and> fs_rem_queue pid process_id gpu junk' s' = Inr (0, s'')
    \<and> table_inv (l2_table s'') \<and> pid \<notin> set (pids (l2_table s''))"
proof -
  from fs_add_queue_joins [OF assms(1-3), of app_type share junk] obtain s' where
    a: "fs_add_queue pid (word_of_int gpu) app_type share junk s = Inr (SIGSCHED, s')"
      "table_inv (l2_table s')" "l2_signals s' = l2_signals s @ [(pid, SIGALRM)]"
    and x: "sl_process (sd_slots (l2_table s') ! unat (sd_count (l2_table s))) = pid"
      "sl_gpu (sd_slots (l2_table s') ! unat (sd_count (l2_table s))) = gpu"
      "sl_state (sd_slots (l2_table s') ! unat (sd_count (l2_table s))) = PROC_ACTIVE"
      "sl_share_unit (sd_slots (l2_table s') ! unat (sd_count (l2_table s)))
         = word_of_int (sint (word_of_int share :: u32))"
      "unat (sd_count (l2_table s)) < length (sd_slots (l2_table s'))"
    and k: "l2_file s' = l2_file s" "l2_fifo s' = l2_fifo s" "l2_sem s' = l2_sem s"
    by (auto simp: Let_def)
  have m: "\<exists>x \<in> set (sd_slots (l2_table s')). sl_process x = pid \<and> sl_gpu x = gpu
         \<and> sl_state x = PROC_ACTIVE \<and> sl_share_unit x = word_of_int (sint (word_of_int share :: u32))"
    using x nth_mem by blast
  let ?pcd = "junk'\<lparr>pcd_pid := pid, pcd_action := REM_Q\<rparr>"
  have f: "l2_fifo s' tid = Read_by gpu" using assms(2) k by (simp add: gpu_served_def)
  obtain s'' where "l2_send (fs_queue_request ?pcd) tid s' = Inr s''"
      "table_inv (l2_table s'')" "pid \<notin> set (pids (l2_table s''))"
    using fs_server.send_leave [where pcd = ?pcd and f = fs_queued and err = 0, OF a(2) f] m assms(4)
    unfolding fs_queue_request_def by auto
  then have "fs_rem_queue pid process_id gpu junk' s' = Inr (0, s'')"
    using assms(2) k by (simp add: fs_rem_queue_def gpu_served_def sched_tid_def)
  then show ?thesis using a m \<open>table_inv (l2_table s'')\<close> \<open>pid \<notin> set (pids (l2_table s''))\<close> by blast
qed

definition demo_l2 :: l2 where
  "demo_l2 = \<lparr>l2_file = Some [(0, ''140''), (1, ''141'')],
     l2_fifo = (\<lambda>t. if t = ''140'' then Read_by 0 else if t = ''141'' then Read_by 1 else No_fifo),
     l2_sem = True, l2_table = Scheduler_Data0, l2_signals = []\<rparr>"

definition demo_pcd :: process_credit_data where
  "demo_pcd = \<lparr>pcd_pid = 7, pcd_share_unit = 3, pcd_action = 9, pcd_app_type = 1, pcd_gpuid = 5,
     pcd_execution = \<lparr>tv_sec = 2, tv_usec = 5\<rparr>\<rparr>"

lemma demo_l2_served: "gpu_served 1 ''141'' demo_l2"
  by (simp add: gpu_served_def demo_l2_def sched_tid_def)

lemma pids_zero: "p \<noteq> 0 \<Longrightarrow> p \<notin> set (pids Scheduler_Data0)"
  by (simp add: pids_def Scheduler_Data0_def zero_slot_def MAX_CONTROLLER_COUNT_def)

theorem fs_queue_session_witness:
  "\<exists>s' s''. fs_add_queue 4711 1 2 30 demo_pcd demo_l2 = Inr (SIGSCHED, s')
    \<and> fs_rem_queue 4711 4711 1 demo_pcd s' = Inr (0, s'') \<and> 4711 \<notin> set (pids (l2_table s''))"
  using fs_queue_session [of demo_l2 1 "''141''" 4711 2 30 demo_pcd 4711 demo_pcd] demo_l2_served
    pids_zero [of 4711]
  by (auto simp: table_inv_zero demo_l2_def INVALID_PROCEESS_def)

text \<open>\<open>fs_get_RTsignal\<close> never returns once a scheduler has entered itself into the mapping file:
  no listener answers its request, and it waits for the first answer with the semaphore taken.\<close>

theorem fs_get_RTsignal_hangs:
  assumes "l2_sem s" and "l2_file s = Some ((g, tid) # ls)" and "length tid \<le> 24"
  shows "fs_get_RTsignal pid junk s = Inl Hangs"
proof -
  have "fs_listen g' PCD_SIZE (junk\<lparr>pcd_pid := pid, pcd_action := GET_SIGNUM\<rparr>) 0 sd = Inr (sd, [])" for g' sd
    by (simp add: fs_listen_def GET_SIGNUM_def pcd_actions)
  then show ?thesis using assms
    by (simp add: fs_get_RTsignal_def l2_ask_def List.map_filter_simps split: fifo.split)
qed

theorem fs_get_RTsignal_hangs_witness: "fs_get_RTsignal 4711 demo_pcd demo_l2 = Inl Hangs"
  using fs_get_RTsignal_hangs [of demo_l2 0 "''140''" "[(1, ''141'')]" 4711 demo_pcd]
  by (simp add: demo_l2_def)

section \<open>Least attained service\<close>

text \<open>What a process does with the scheduler while it is in the queue, and a run of such steps.\<close>

datatype las_op =
    Join int u32 int process_credit_data
  | Leave int int int process_credit_data
  | Report int timeval timeval int int
  | Ask_priority int int int process_credit_data
  | Ask_data int int int process_credit_data

fun las_op_do :: "las_op \<Rightarrow> l2 \<Rightarrow> l2 cres" where
  "las_op_do (Join pid gpu app junk) s = bindr (las_add_queue pid gpu app junk s) (\<lambda>(r, s). Inr s)"
| "las_op_do (Leave pid p gpu junk) s = bindr (las_rem_queue pid p gpu junk s) (\<lambda>(r, s). Inr s)"
| "las_op_do (Report pid b a gpu junk) s = las_notify_scheduler pid b a gpu junk s"
| "las_op_do (Ask_priority pid i gpu junk) s = bindr (las_get_priority pid i gpu junk s) (\<lambda>(r, s). Inr s)"
| "las_op_do (Ask_data pid gpu i junk) s = bindr (las_get_l2_data pid gpu i junk s) (\<lambda>(r, x, s). Inr s)"

primrec las_run :: "las_op list \<Rightarrow> l2 \<Rightarrow> l2 cres" where
  "las_run [] s = Inr s"
| "las_run (x # xs) s = bindr (las_op_do x s) (las_run xs)"

primrec las_actor :: "las_op \<Rightarrow> int" where
  "las_actor (Join pid gpu app junk) = pid"
| "las_actor (Leave pid p gpu junk) = pid"
| "las_actor (Report pid b a gpu junk) = pid"
| "las_actor (Ask_priority pid i gpu junk) = pid"
| "las_actor (Ask_data pid gpu i junk) = pid"

text \<open>The time in us that a process has reported.\<close>

primrec las_reported :: "int \<Rightarrow> las_op list \<Rightarrow> int" where
  "las_reported me [] = 0"
| "las_reported me (x # xs) = (case x of Report p b a g j \<Rightarrow> if p = me then tv_us a - tv_us b else 0
     | _ \<Rightarrow> 0) + las_reported me xs"

definition las_joins :: "las_op list \<Rightarrow> nat" where
  "las_joins ops = length (filter (\<lambda>x. case x of Join p g a j \<Rightarrow> True | _ \<Rightarrow> False) ops)"

text \<open>
  The process \<open>me\<close> has slot \<open>idx\<close> with the time \<open>u\<close>, and at most \<open>n\<close> processes have entered
  the table after it.
\<close>

definition las_holds :: "int \<Rightarrow> int \<Rightarrow> nat \<Rightarrow> nat \<Rightarrow> int \<Rightarrow> scheduler_data \<Rightarrow> bool" where
  "las_holds me gpu idx n u sd \<longleftrightarrow> table_inv sd \<and> idx < MAX_CONTROLLER_COUNT \<and> me \<noteq> INVALID_PROCEESS
     \<and> sl_process (sd_slots sd ! idx) = me \<and> sl_gpu (sd_slots sd ! idx) = gpu
     \<and> sl_feedback (sd_slots sd ! idx) = 0 \<and> tv_us (sl_execution (sd_slots sd ! idx)) = u
     \<and> (\<exists>k \<le> n. unat (sd_count sd) = (idx + 1 + k) mod MAX_CONTROLLER_COUNT)"

lemma mod_step_neq:
  assumes "i < m" and "k + 1 < m"
  shows "(i + 1 + k) mod m \<noteq> (i :: nat)"
proof (cases "i + 1 + k < m")
  case False
  then have "(i + 1 + k) mod m = i + 1 + k - m" using assms by (simp add: mod_if)
  then show ?thesis using assms False by linarith
qed simp

lemma las_register_others:
  assumes "las_holds me gpu idx n u sd" and "n + 1 < MAX_CONTROLLER_COUNT"
    and "las_register_process r sd = Inr (i, sd')" and "table_inv sd'"
  shows "las_holds me gpu idx (n + 1) u sd'"
proof -
  from assms(1) obtain k where k: "k \<le> n" "unat (sd_count sd) = (idx + 1 + k) mod MAX_CONTROLLER_COUNT"
    by (auto simp: las_holds_def)
  have ne: "unat (sd_count sd) \<noteq> idx"
    using mod_step_neq [of idx MAX_CONTROLLER_COUNT k] k assms(1,2) by (auto simp: las_holds_def)
  have c: "unat (sd_count sd') = (idx + 1 + (k + 1)) mod MAX_CONTROLLER_COUNT"
  proof -
    have "sd_count sd' = next_slot (sd_count sd)"
      using assms(3) by (auto simp: las_register_process_def bindr_eq_Inr_iff slot_upd_def)
    moreover have "unat (sd_count sd) < MAX_CONTROLLER_COUNT"
      using assms(1) by (simp add: las_holds_def table_inv_def sd_ok_def)
    ultimately have "unat (sd_count sd') = ((idx + 1 + k) mod MAX_CONTROLLER_COUNT + 1) mod MAX_CONTROLLER_COUNT"
      using unat_next_slot(1) k(2) by simp
    then show ?thesis by (simp add: mod_simps)
  qed
  have s: "sd_slots sd' ! idx = sd_slots sd ! idx"
    using assms(3) ne by (auto simp: las_register_process_def bindr_eq_Inr_iff slot_upd_def)
  have "k + 1 \<le> n + 1" using k(1) by simp
  with c have "\<exists>k' \<le> n + 1. unat (sd_count sd') = (idx + 1 + k') mod MAX_CONTROLLER_COUNT" by blast
  then show ?thesis using assms(1,4) s by (simp add: las_holds_def)
qed

lemma las_slot_others:
  assumes "las_holds me gpu idx n u sd" and "find_slot pid g (sd_slots sd) 0 = Some j" and "pid \<noteq> me"
    and "slot_upd f j sd = Inr sd'" and "table_inv sd'"
  shows "las_holds me gpu idx n u sd'"
proof -
  have "j \<noteq> idx" using find_slot_Some [OF assms(2)] assms(1,3) by (auto simp: las_holds_def)
  then show ?thesis using assms(1,4,5) by (auto simp: las_holds_def slot_upd_def bindr_eq_Inr_iff)
qed

lemma las_holds_mono: "las_holds me gpu idx n u sd \<Longrightarrow> n \<le> n' \<Longrightarrow> las_holds me gpu idx n' u sd"
  unfolding las_holds_def by (meson le_trans)

lemma las_listen_others:
  assumes h: "las_holds me gpu idx n u sd" and n: "n + 1 < MAX_CONTROLLER_COUNT"
    and "pcd_pid pcd \<noteq> me" and r: "las_listen g PCD_SIZE pcd sd = Inr (sd', outs)"
  shows "las_holds me gpu idx (n + (if pcd_action pcd = ADD_Q then 1 else 0)) u sd'"
proof -
  have i: "table_inv sd'"
    using las_listen_inv [OF _ r] h by (simp add: las_holds_def)
  have w: "las_holds me gpu idx (n + 1) u sd'" if "las_holds me gpu idx n u sd'"
    using that by (rule las_holds_mono) simp
  have "las_holds me gpu idx n u sd'" if "las_remove g (pcd_pid pcd) sd = Inr sd'"
    using that las_slot_others [OF h _ assms(3) _ i] h by (auto simp: las_remove_def split: option.splits)
  moreover have "las_holds me gpu idx n u sd'" if "las_notify g pcd sd = Inr sd'"
    using that las_slot_others [OF h _ assms(3) _ i] h by (auto simp: las_notify_def split: option.splits)
  ultimately show ?thesis using r h w las_register_others [OF h n _ i]
    by (auto simp: las_listen_def bindr_eq_Inr_iff pcd_actions split: if_splits)
qed

lemma las_notify_mine:
  assumes h: "las_holds me gpu idx n u sd" and "pcd_pid pcd = me"
  shows "\<exists>sd'. las_notify gpu pcd sd = Inr sd' \<and> las_holds me gpu idx n (u + tv_us (pcd_execution pcd)) sd'"
proof -
  have l: "length (sd_slots sd) = MAX_CONTROLLER_COUNT" "idx < length (sd_slots sd)" "table_inv sd"
    using h by (auto simp: las_holds_def table_inv_def sd_ok_def)
  have m: "sl_process (sd_slots sd ! idx) = me" "sl_gpu (sd_slots sd ! idx) = gpu"
    using h by (auto simp: las_holds_def)
  have "find_slot me gpu (sd_slots sd) 0 \<noteq> None"
    using m nth_mem [OF l(2)] by (auto simp: find_slot_None)
  then obtain j where j: "find_slot me gpu (sd_slots sd) 0 = Some j" by blast
  have "j = idx"
    using table_invD [OF l(3), of j idx me] find_slot_Some [OF j] l(2) m(1) h
    by (auto simp: pids_def las_holds_def)
  then have r: "las_notify gpu pcd sd = Inr (sd\<lparr>sd_slots := (sd_slots sd)[idx := (sd_slots sd ! idx)
      \<lparr>sl_execution := timeradd (sl_execution (sd_slots sd ! idx)) (pcd_execution pcd)\<rparr>]\<rparr>)" (is "_ = Inr ?sd")
    using j assms(2) l(2) by (simp add: las_notify_def slot_upd_ok)
  have "pids ?sd = pids sd" using l(2) by (simp add: pids_def map_update list_update_same_conv)
  then have "table_inv ?sd" using l by (simp add: table_inv_def sd_ok_def distinct_pids_def)
  then show ?thesis using r h l(2) by (auto simp: las_holds_def)
qed

text \<open>A step changes neither the mapping nor the FIFOs.\<close>

definition same_env :: "l2 \<Rightarrow> l2 \<Rightarrow> bool" where
  "same_env s s' \<longleftrightarrow> l2_file s' = l2_file s \<and> l2_fifo s' = l2_fifo s \<and> l2_sem s' = l2_sem s"

lemma same_env_refl [simp]: "same_env s s"
  by (simp add: same_env_def)

lemma gpu_served_same_env: "same_env s s' \<Longrightarrow> gpu_served gpu tid s' = gpu_served gpu tid s"
  by (simp add: same_env_def gpu_served_def sched_tid_def)

lemma las_ask_others:
  assumes "las_holds me gpu idx n u (l2_table s)" and "n + 1 < MAX_CONTROLLER_COUNT"
    and "l2_ask (\<lambda>g. las_listen g PCD_SIZE pcd) reply sg tid s = Inr (y, s')" and "pcd_pid pcd \<noteq> me"
  shows "las_holds me gpu idx (n + (if pcd_action pcd = ADD_Q then 1 else 0)) u (l2_table s') \<and> same_env s s'"
  using assms(3) las_listen_others [OF assms(1,2,4)] by (auto simp: l2_ask_eq same_env_def)

lemma las_send_others:
  assumes "las_holds me gpu idx n u (l2_table s)" and "n + 1 < MAX_CONTROLLER_COUNT"
    and "l2_send (las_queue_request pcd) tid s = Inr s'" and "pcd_pid pcd \<noteq> me" and "pcd_action pcd \<noteq> ADD_Q"
  shows "las_holds me gpu idx n u (l2_table s') \<and> same_env s s'"
  using assms(1,3,5) las_listen_others [OF assms(1,2,4)]
  by (auto simp: l2_send_def las_queue_request_def bindr_eq_Inr_iff same_env_def split: fifo.splits)

lemma las_op_others:
  assumes h: "las_holds me gpu idx n u (l2_table s)" and n: "n + 1 < MAX_CONTROLLER_COUNT"
    and a: "las_actor x \<noteq> me" and r: "las_op_do x s = Inr s'"
  shows "las_holds me gpu idx (n + las_joins [x]) u (l2_table s') \<and> same_env s s'"
proof (cases x)
  case (Join pid g app junk)
  then show ?thesis
    using r a las_holds_mono [OF h, of "n + 1"]
    by (auto simp: las_add_queue_def bindr_eq_Inr_iff Let_def las_joins_def
        dest!: las_ask_others [OF h n] split: if_splits)
next
  case (Leave pid p g junk)
  then show ?thesis using r a h
    by (auto simp: las_rem_queue_def bindr_eq_Inr_iff las_joins_def pcd_actions
        dest!: las_send_others [OF h n] split: if_splits option.splits)
next
  case (Report pid b e g junk)
  then show ?thesis using r a h
    by (auto simp: las_notify_scheduler_def bindr_eq_Inr_iff las_joins_def pcd_actions
        dest!: las_send_others [OF h n] split: if_splits option.splits)
next
  case (Ask_priority pid i g junk)
  then show ?thesis using r a h
    by (auto simp: las_get_priority_def bindr_eq_Inr_iff las_joins_def pcd_actions
        dest!: las_ask_others [OF h n] split: if_splits option.splits)
next
  case (Ask_data pid g i junk)
  then show ?thesis using r a h
    by (auto simp: las_get_l2_data_def bindr_eq_Inr_iff las_joins_def pcd_actions
        dest!: las_ask_others [OF h n] split: if_splits option.splits)
qed

lemma las_op_mine:
  assumes h: "las_holds me gpu idx n u (l2_table s)" and up: "gpu_served gpu tid s"
  shows "\<exists>s'. las_op_do (Report me b a gpu junk) s = Inr s' \<and> same_env s s'
    \<and> las_holds me gpu idx n (u + (tv_us a - tv_us b)) (l2_table s')"
proof -
  let ?pcd = "\<lparr>pcd_pid = me, pcd_share_unit = 0, pcd_action = NOTIFY_SCHED,
        pcd_app_type = 0, pcd_gpuid = junk, pcd_execution = timersub a b\<rparr>"
  obtain sd' where "las_notify gpu ?pcd (l2_table s) = Inr sd'"
      "las_holds me gpu idx n (u + (tv_us a - tv_us b)) sd'"
    using las_notify_mine [OF h, of ?pcd] by auto
  moreover have "las_listen gpu PCD_SIZE ?pcd (l2_table s) = bindr (las_notify gpu ?pcd (l2_table s)) (\<lambda>sd. Inr (sd, []))"
    by (simp add: las_listen_def PCD_SIZE_def pcd_actions)
  ultimately show ?thesis using up
    by (simp add: las_notify_scheduler_def gpu_served_def l2_send_def las_queue_request_def same_env_def)
qed

lemma las_run_holds:
  assumes "las_holds me gpu idx n u (l2_table s)" and "gpu_served gpu tid s"
    and "\<forall>x \<in> set ops. las_actor x = me \<longrightarrow> (\<exists>b a j. x = Report me b a gpu j)"
    and "n + las_joins ops + 1 < MAX_CONTROLLER_COUNT" and "las_run ops s = Inr s'"
  shows "las_holds me gpu idx (n + las_joins ops) (u + las_reported me ops) (l2_table s') \<and> gpu_served gpu tid s'"
  using assms
proof (induction ops arbitrary: s n u)
  case (Cons x xs)
  from Cons.prems(5) obtain t where t: "las_op_do x s = Inr t" "las_run xs t = Inr s'"
    by (auto simp: bindr_eq_Inr_iff)
  have xs: "\<forall>x \<in> set xs. las_actor x = me \<longrightarrow> (\<exists>b a j. x = Report me b a gpu j)" using Cons.prems(3) by simp
  have j: "las_joins (x # xs) = las_joins [x] + las_joins xs" by (simp add: las_joins_def)
  show ?case
  proof (cases "las_actor x = me")
    case True
    then obtain b a jk where x: "x = Report me b a gpu jk" using Cons.prems(3) by auto
    have k: "same_env s t" "las_holds me gpu idx n (u + (tv_us a - tv_us b)) (l2_table t)"
      using las_op_mine [OF Cons.prems(1,2), of b a jk] t(1) x by auto
    have "las_joins [x] = 0" by (simp add: x las_joins_def)
    then have "n + las_joins xs + 1 < MAX_CONTROLLER_COUNT" using Cons.prems(4) j by simp
    from Cons.IH [OF k(2) _ xs this t(2)] show ?thesis
      using gpu_served_same_env [OF k(1)] Cons.prems(2) j \<open>las_joins [x] = 0\<close> by (simp add: x add.assoc)
  next
    case False
    have "n + 1 < MAX_CONTROLLER_COUNT" using Cons.prems(4) by simp
    from las_op_others [OF Cons.prems(1) this False t(1)] have
      k: "las_holds me gpu idx (n + las_joins [x]) u (l2_table t)" "same_env s t" by simp_all
    have "n + las_joins [x] + las_joins xs + 1 < MAX_CONTROLLER_COUNT" using Cons.prems(4) j by simp
    from Cons.IH [OF k(1) _ xs this t(2)] show ?thesis
      using gpu_served_same_env [OF k(2)] Cons.prems(2) False j by (cases x) (simp_all add: add.assoc)
  qed
qed (simp add: las_joins_def)

lemma las_add_queue_holds:
  assumes inv: "table_inv (l2_table s)" and up: "gpu_served gpu tid s"
    and new: "me \<notin> set (pids (l2_table s))" "me \<noteq> INVALID_PROCEESS"
  shows "\<exists>s'. las_add_queue me (word_of_int gpu) app junk s = Inr (int (unat (sd_count (l2_table s))), s')
    \<and> las_holds me gpu (unat (sd_count (l2_table s))) 0
        (tv_us (sl_execution (sd_slots (l2_table s) ! unat (sd_count (l2_table s))))) (l2_table s')
    \<and> same_env s s'"
proof -
  let ?pcd = "junk\<lparr>pcd_pid := me, pcd_action := ADD_Q, pcd_app_type := app, pcd_gpuid := gpu\<rparr>"
  let ?sd = "l2_table s" and ?i = "unat (sd_count (l2_table s))"
  have c: "length (sd_slots ?sd) = MAX_CONTROLLER_COUNT" "?i < MAX_CONTROLLER_COUNT"
    using inv sd_okD by (simp_all add: table_inv_def)
  have i: "sint (sd_count ?sd) = int ?i"
  proof -
    have "int ?i < 500" using c(2) unfolding MAX_CONTROLLER_COUNT_def by linarith
    then have "int ?i < 2 ^ 31" by (rule less_trans) simp
    moreover have "- (2 ^ 31) \<le> uint (sd_count ?sd)" by (rule order_trans [OF _ uint_ge_0]) simp
    ultimately have "signed_take_bit 31 (uint (sd_count ?sd)) = uint (sd_count ?sd)"
      by (intro signed_take_bit_int_eq_self) simp_all
    then show ?thesis by (simp add: sint_uint)
  qed
  obtain sd' where l: "las_listen gpu PCD_SIZE ?pcd ?sd = Inr (sd', [LReply me (int ?i)])"
    and t: "sl_process (sd_slots sd' ! ?i) = me" "sl_gpu (sd_slots sd' ! ?i) = gpu"
      "sl_feedback (sd_slots sd' ! ?i) = 0" "sl_execution (sd_slots sd' ! ?i) = sl_execution (sd_slots ?sd ! ?i)"
      "sd_count sd' = next_slot (sd_count ?sd)"
    using new c by (simp add: las_listen_def PCD_SIZE_def already_added_pids las_register_process_def
        slot_upd_ok i)
  have "table_inv sd'" by (rule las_server.serve_inv [OF inv l])
  then have "las_holds me gpu ?i 0 (tv_us (sl_execution (sd_slots ?sd ! ?i))) sd'"
    using t c(2) new(2) unat_next_slot(1) [OF c(2)] by (simp add: las_holds_def)
  then show ?thesis using up l
    by (simp add: las_add_queue_def gpu_served_def l2_ask_def las_reply_def List.map_filter_simps same_env_def Let_def)
qed

lemma las_get_l2_data_holds:
  assumes h: "las_holds me gpu idx n u (l2_table s)" and up: "gpu_served gpu tid s"
  shows "\<exists>app t. las_get_l2_data me gpu (int idx) junk s = Inr (0, Some (app, t), s) \<and> tv_us t = u"
proof -
  have "length (sd_slots (l2_table s)) = MAX_CONTROLLER_COUNT" "idx < MAX_CONTROLLER_COUNT"
    using h by (auto simp: las_holds_def table_inv_def sd_ok_def)
  then show ?thesis using h up
    by (simp add: las_get_l2_data_def gpu_served_def l2_ask_def las_listen_def PCD_SIZE_def pcd_actions
        nthri_def nthr_def las_data_reply_def List.map_filter_simps las_holds_def)
qed

text \<open>The time that the least-attained-service scheduler reports for a process is the time of
  the slot it was given (left by the slot's former owner) plus the sum of the intervals the process
  has notified, whatever other processes do in between on any GPU: enter, leave, notify or ask.
  Fewer than 499 processes enter meanwhile, so that the slot is not given away. No process is
  marked for feedback, so the result is 0.\<close>

theorem las_session_time:
  assumes "table_inv (l2_table s)" and "gpu_served gpu tid s"
    and "me \<notin> set (pids (l2_table s))" and "me \<noteq> INVALID_PROCEESS"
    and "\<forall>x \<in> set ops. las_actor x = me \<longrightarrow> (\<exists>b a j. x = Report me b a gpu j)"
    and "las_joins ops < 499"
  shows "\<exists>idx s1. las_add_queue me (word_of_int gpu) app junk s = Inr (int idx, s1)
    \<and> idx = unat (sd_count (l2_table s))
    \<and> (\<forall>s2. las_run ops s1 = Inr s2 \<longrightarrow>
         (\<exists>ty t. las_get_l2_data me gpu (int idx) junk' s2 = Inr (0, Some (ty, t), s2)
            \<and> tv_us t = tv_us (sl_execution (sd_slots (l2_table s) ! idx)) + las_reported me ops))"
proof -
  from las_add_queue_holds [OF assms(1-4), of app junk] obtain s1 where
    a: "las_add_queue me (word_of_int gpu) app junk s = Inr (int (unat (sd_count (l2_table s))), s1)"
    and h: "las_holds me gpu (unat (sd_count (l2_table s))) 0
        (tv_us (sl_execution (sd_slots (l2_table s) ! unat (sd_count (l2_table s))))) (l2_table s1)"
    and e: "same_env s s1" by blast
  have up: "gpu_served gpu tid s1" using gpu_served_same_env [OF e] assms(2) by simp
  have "0 + las_joins ops + 1 < MAX_CONTROLLER_COUNT" using assms(6) by (simp add: MAX_CONTROLLER_COUNT_def)
  from las_run_holds [OF h up assms(5) this] show ?thesis
    using a las_get_l2_data_holds [where junk = junk'] by blast
qed

definition demo_ops :: "las_op list" where
  "demo_ops = [Join 5 0 1 demo_pcd,
     Report 9 \<lparr>tv_sec = 3, tv_usec = 999999\<rparr> \<lparr>tv_sec = 5, tv_usec = 2\<rparr> 1 0,
     Report 5 \<lparr>tv_sec = 0, tv_usec = 0\<rparr> \<lparr>tv_sec = 7, tv_usec = 0\<rparr> 0 0,
     Leave 5 5 0 demo_pcd,
     Report 9 \<lparr>tv_sec = 8, tv_usec = 0\<rparr> \<lparr>tv_sec = 8, tv_usec = 10\<rparr> 1 0]"

lemma demo_run:
  "case las_add_queue 9 1 1 demo_pcd demo_l2 of Inl f \<Rightarrow> False
   | Inr (i, s1) \<Rightarrow> i = 0 \<and> (case las_run demo_ops s1 of Inl f \<Rightarrow> False | Inr s2 \<Rightarrow> True)"
  by code_simp

lemma demo_runs:
  "\<exists>s1 s2. las_add_queue 9 1 1 demo_pcd demo_l2 = Inr (0, s1) \<and> las_run demo_ops s1 = Inr s2"
  using demo_run by (simp split: sum.split_asm prod.split_asm) (metis sum.exhaust)

lemma demo_l2_table:
  "l2_table demo_l2 = Scheduler_Data0" "sd_count Scheduler_Data0 = 0"
  "tv_us (sl_execution (sd_slots Scheduler_Data0 ! 0)) = 0"
  by (simp_all add: demo_l2_def Scheduler_Data0_def MAX_CONTROLLER_COUNT_def zero_slot_def tv_us_def)

lemma demo_ops_facts:
  "las_joins demo_ops = 1" "las_reported 9 demo_ops = 1000013"
  "\<forall>x \<in> set demo_ops. las_actor x = 9 \<longrightarrow> (\<exists>b a j. x = Report 9 b a 1 j)"
  by (simp_all add: demo_ops_def las_joins_def tv_us_def)

theorem las_session_time_witness:
  "\<exists>s1 s2 ty t. las_add_queue 9 1 1 demo_pcd demo_l2 = Inr (0, s1) \<and> las_run demo_ops s1 = Inr s2
    \<and> las_get_l2_data 9 1 0 demo_pcd s2 = Inr (0, Some (ty, t), s2) \<and> tv_us t = 1000013"
  using las_session_time [of demo_l2 1 "''141''" 9 demo_ops 1 demo_pcd demo_pcd] demo_l2_served
    pids_zero [of 9] demo_runs
  by (auto simp: table_inv_zero demo_l2_table demo_ops_facts INVALID_PROCEESS_def)

end
