(* ===== verification/L2_Signals.thy ===== *)
theory L2_Signals
  imports Vmem_Properties L2_Client
begin

text \<open>
  The signals of a backend process that has registered with the fair-share scheduler:
  \<open>signal_block_all\<close> and the handlers of backend/libl2scheduler.c. \<open>SIGALRM\<close> ends a time
  slice and \<open>SIGVTALRM\<close> is the pager's request to sleep; their handlers wait for \<open>SIGSCHED\<close>,
  which starts the next slice, or for \<open>SIGPAGE\<close>, which asks for a page-out. This is the build
  with \<open>SCHED_FAIR_SHARE\<close>.
\<close>

section \<open>Processes and what surrounds them\<close>

definition SIGVTALRM :: int where "SIGVTALRM = 26"

definition SIGPAGE :: int where "SIGPAGE = SIGRTMAX - 1"

lemmas signals = SIGALRM_def SIGVTALRM_def SIGSCHED_def SIGPAGE_def SIGRTMAX_def

text \<open>
  What a handler uses: the CUDA runtime, the number in \<open>SCHED_PID_FILE_PATH\<close> (\<open>None\<close> when the
  file cannot be opened), what the pointer that came with a signal leads to in this process,
  \<open>act.sa_mask\<close>, which is never initialised, the addresses of the swap blocks of the objects, and
  the \<open>status\<close> field a \<open>struct mem_map\<close> at an address would have (\<open>None\<close> where nothing is mapped).
  A number is read with \<open>%ld\<close> into the four bytes of
  a \<open>pid_t\<close>; what the other four bytes overwrite is not modelled.
\<close>

record 'g sig_env =
  sg_rt :: "'g cuda_rt"
  sg_pid_file :: "int option"
  sg_deref :: "u64 \<Rightarrow> timeval option"
  sg_act_mask :: "int set"
  sg_swap_addr :: "nat \<Rightarrow> u64"
  sg_status_at :: "u64 \<Rightarrow> vmem_status option"

text \<open>
  A process: the signals whose handlers wait in \<open>sigwaitinfo\<close>, the innermost first (none while
  it executes), the real-time timer, the blocked and the pending signals, those it has sent with
  receiver, number and value, \<open>gpu_binding\<close>, and its objects in the virtual memory.
\<close>

record 'g sig_proc =
  sp_frames :: "int list"
  sp_timer :: "timeval option"
  sp_mask :: "int set"
  sp_pending :: "(int \<times> u64) list"
  sp_sent :: "(int \<times> int \<times> int) list"
  sp_gpu_binding :: int
  sp_table :: "mem_map list"
  sp_dev :: 'g

text \<open>\<open>sigprocmask (SIG_BLOCK, ...)\<close> of all real-time signals, before the process registers.\<close>

definition signal_block_all :: "'g sig_proc \<Rightarrow> 'g sig_proc" where
  "signal_block_all s = s\<lparr>sp_mask := sp_mask s \<union> {SIGSCHED..SIGRTMAX}\<rparr>"

text \<open>\<open>sigprocmask (SIG_UNBLOCK, ...)\<close> of \<open>fs_register_handler\<close>; \<open>SIGVTALRM\<close> stays as it is.\<close>

definition unblock_handled :: "'g sig_proc \<Rightarrow> 'g sig_proc" where
  "unblock_handled s = s\<lparr>sp_mask := sp_mask s - {SIGSCHED, SIGALRM, SIGPAGE}\<rparr>"

text \<open>
  \<open>setitimer (ITIMER_REAL, ...)\<close> for one expiry: an invalid value is refused and changes nothing,
  a zero value stops the timer.
\<close>

definition setitimer :: "timeval \<Rightarrow> 'g sig_proc \<Rightarrow> 'g sig_proc" where
  "setitimer tv s = (if \<not> (0 \<le> tv_sec tv \<and> 0 \<le> tv_usec tv \<and> tv_usec tv < 1000000) then s
     else if tv_sec tv = 0 \<and> tv_usec tv = 0 then s\<lparr>sp_timer := None\<rparr>
     else s\<lparr>sp_timer := Some tv\<rparr>)"

definition scheduler_pid :: "'g sig_env \<Rightarrow> int cres" where
  "scheduler_pid env = (case sg_pid_file env of None \<Rightarrow> Inl NullDeref | Some p \<Rightarrow> Inr p)"

definition sigqueue :: "int \<Rightarrow> int \<Rightarrow> int \<Rightarrow> 'g sig_proc \<Rightarrow> 'g sig_proc" where
  "sigqueue pid sig v s = s\<lparr>sp_sent := sp_sent s @ [(pid, sig, v)]\<rparr>"

text \<open>
  The handlers call \<open>gvirt_page_out (vmap_table)\<close> with the array of records, where the function
  takes an array of pointers to records: \<open>table[x]\<close> is then the \<open>x\<close>-th word of the records, which
  are six words long.
\<close>

definition status_num :: "vmem_status \<Rightarrow> int" where
  "status_num st = (case st of D_NOALLOC \<Rightarrow> 0 | D_INIT \<Rightarrow> 1 | D_READY \<Rightarrow> 2 | D_MODIFIED \<Rightarrow> 3
     | D_MEMWAIT \<Rightarrow> 4 | D_DEFERRED \<Rightarrow> 5)"

definition int_pair :: "int \<Rightarrow> int \<Rightarrow> u64" where
  "int_pair lo hi = or (ucast (word_of_int lo :: u32)) (push_bit 32 (ucast (word_of_int hi :: u32)))"

definition record_words :: "u64 \<Rightarrow> mem_map \<Rightarrow> u64 list" where
  "record_words swap m = [int_pair (mm_valid m) (mm_handle m), mm_actual_devptr m,
     (if mm_swap m = None then 0 else swap), word_of_nat (mm_size m),
     int_pair (status_num (mm_status m)) (mm_pid m), int_pair (mm_freq m) 0]"

definition table_word :: "'g sig_env \<Rightarrow> mem_map list \<Rightarrow> int \<Rightarrow> u64 cres" where
  "table_word env t x = nthri
     (concat (map (\<lambda>j. record_words (sg_swap_addr env j) (t ! j)) [0..<length t])) x"

text \<open>
  Step 2 of \<open>gvirt_page_out\<close> on this table. Where the word is no mapped address the process dies.
  A record that seems to be on the device is copied from, freed and written through whatever
  stands at that address; this is a fault of the model too.
\<close>

primrec page_words :: "'g sig_env \<Rightarrow> mem_map list \<Rightarrow> int list \<Rightarrow> unit cres" where
  "page_words env t [] = Inr ()"
| "page_words env t (x # xs) = bindr (table_word env t x) (\<lambda>a.
     case sg_status_at env a of None \<Rightarrow> Inl OutOfBounds
     | Some st \<Rightarrow> if st = D_READY \<or> st = D_MODIFIED then Inl OutOfBounds else page_words env t xs)"

text \<open>
  The page-out of a handler. The pager sends the address of its own array of pages; \<open>req\<close> is what
  the process finds there, \<open>None\<close> when nothing is mapped.
\<close>

definition page_out :: "'g sig_env \<Rightarrow> int list option \<Rightarrow> 'g sig_proc \<Rightarrow> 'g sig_proc cres" where
  "page_out env req s = (case req of None \<Rightarrow> Inl OutOfBounds
     | Some xs \<Rightarrow> bindr (page_words env (sp_table s) xs) (\<lambda>u. Inr s))"

section \<open>The handlers\<close>

text \<open>Up to \<open>sigwaitinfo\<close>: the end of the slice is reported to the scheduler.\<close>

definition sigschedulehandler_sleep :: "'g sig_env \<Rightarrow> 'g sig_proc \<Rightarrow> 'g sig_proc cres" where
  "sigschedulehandler_sleep env s = bindr (scheduler_pid env) (\<lambda>pid.
     Inr ((sigqueue pid SIGRTMAX (sp_gpu_binding s) s)\<lparr>sp_frames := SIGALRM # sp_frames s\<rparr>))"

text \<open>The pager put the process to sleep: the scheduler is not told.\<close>

definition sigvtalarm_handler_sleep :: "'g sig_env \<Rightarrow> 'g sig_proc \<Rightarrow> 'g sig_proc cres" where
  "sigvtalarm_handler_sleep env s = bindr (scheduler_pid env) (\<lambda>pid.
     Inr (s\<lparr>sp_frames := SIGVTALRM # sp_frames s\<rparr>))"

text \<open>
  From \<open>sigwaitinfo\<close> to the end, the same in both. A handler that runs in between makes
  \<open>sigwaitinfo\<close> fail; its result is compared with \<open>SIGPAGE\<close> only, and \<open>si\<close> was not written.
\<close>

datatype awaited = Got int u64 | Interrupted

definition handler_wake :: "'g sig_env \<Rightarrow> int list option \<Rightarrow> awaited \<Rightarrow> 'g sig_proc \<Rightarrow> 'g sig_proc cres" where
  "handler_wake env req w s = (case w of Interrupted \<Rightarrow> Inl Uninit
     | Got sig v \<Rightarrow> if sig = SIGPAGE then page_out env req s
         else (case sg_deref env v of None \<Rightarrow> Inl OutOfBounds | Some tp \<Rightarrow> Inr (setitimer tp s)))"

text \<open>\<open>SIGPAGE\<close> while the process executes: the timer is stopped before the pages go out.\<close>

definition sigpage_handler :: "'g sig_env \<Rightarrow> int list option \<Rightarrow> 'g sig_proc \<Rightarrow> 'g sig_proc cres" where
  "sigpage_handler env req s =
     (let s = setitimer \<lparr>tv_sec = 0, tv_usec = 0\<rparr> s in bindr (scheduler_pid env) (\<lambda>pid.
        page_out env req (sigqueue pid SIGPAGE (sp_gpu_binding s) s)))"

section \<open>Delivery\<close>

text \<open>A handler that runs has its own signal and \<open>sa_mask\<close> blocked.\<close>

definition blocked :: "'g sig_env \<Rightarrow> 'g sig_proc \<Rightarrow> int set" where
  "blocked env s = sp_mask s \<union> (if sp_frames s = [] then {} else set (sp_frames s) \<union> sg_act_mask env)"

text \<open>\<open>sigwaitinfo\<close> takes these from the process, blocked or not.\<close>

definition awaits :: "'g sig_proc \<Rightarrow> int \<Rightarrow> bool" where
  "awaits s sig \<longleftrightarrow> sp_frames s \<noteq> [] \<and> (sig = SIGSCHED \<or> sig = SIGPAGE)"

text \<open>The innermost handler goes on and returns; another one below it was interrupted.\<close>

definition wake :: "'g sig_env \<Rightarrow> int list option \<Rightarrow> int \<Rightarrow> u64 \<Rightarrow> 'g sig_proc \<Rightarrow> 'g sig_proc cres" where
  "wake env req sig v s = bindr (handler_wake env req (Got sig v) s) (\<lambda>s.
     let s = s\<lparr>sp_frames := tl (sp_frames s)\<rparr> in
     if sp_frames s = [] then Inr s else handler_wake env req Interrupted s)"

text \<open>
  A signal that is blocked becomes pending, the standard ones (below 34) once. The real-time
  signals without handler end the process.
\<close>

definition deliver :: "'g sig_env \<Rightarrow> int list option \<Rightarrow> int \<Rightarrow> u64 \<Rightarrow> 'g sig_proc \<Rightarrow> 'g sig_proc cres" where
  "deliver env req sig v s =
     (if awaits s sig then wake env req sig v s
      else if sig \<in> blocked env s then
        Inr (if sig < SIGSCHED \<and> sig \<in> fst ` set (sp_pending s) then s
             else s\<lparr>sp_pending := sp_pending s @ [(sig, v)]\<rparr>)
      else if sig = SIGALRM then sigschedulehandler_sleep env s
      else if sig = SIGVTALRM then sigvtalarm_handler_sleep env s
      else if sig = SIGPAGE then sigpage_handler env req s
      else Inl Killed)"

section \<open>Executions\<close>

text \<open>
  What happens to a process: it gets a signal (with what it then finds asked for by the pager), its timer
  expires, a pending signal is no longer blocked, or it executes and works on its objects (the
  page-outs are those of the handlers). An execution ends where a delivery does not return.
\<close>

datatype sig_event = Recv int u64 "int list option" | Expire | Unblocked nat "int list option" | Work vop

inductive sig_step :: "'g sig_env \<Rightarrow> (nat \<Rightarrow> byte list option) \<Rightarrow> sig_event \<Rightarrow> 'g sig_proc
    \<Rightarrow> 'g sig_proc \<Rightarrow> bool" for env hm where
  s_recv: "\<lbrakk>sig \<in> {SIGALRM, SIGVTALRM, SIGSCHED, SIGPAGE};
     deliver env req sig v s = Inr s'\<rbrakk> \<Longrightarrow> sig_step env hm (Recv sig v req) s s'"
| s_expire: "\<lbrakk>sp_timer s \<noteq> None; deliver env None SIGALRM 0 (s\<lparr>sp_timer := None\<rparr>) = Inr s'\<rbrakk> \<Longrightarrow>
     sig_step env hm Expire s s'"
| s_unblocked: "\<lbrakk>i < length (sp_pending s); sp_pending s ! i = (sig, v);
     awaits s sig \<or> sig \<notin> blocked env s;
     deliver env req sig v (s\<lparr>sp_pending := take i (sp_pending s) @ drop (Suc i) (sp_pending s)\<rparr>) = Inr s'\<rbrakk> \<Longrightarrow>
     sig_step env hm (Unblocked i req) s s'"
| s_work: "\<lbrakk>sp_frames s = []; \<forall>xs. op \<noteq> VPageOut xs; vm_step (sg_rt env) hm op (sp_table s, sp_dev s) out (t, g)\<rbrakk> \<Longrightarrow>
     sig_step env hm (Work op) s (s\<lparr>sp_table := t, sp_dev := g\<rparr>)"

inductive_cases sig_stepE: "sig_step env hm ev s s'"
inductive_cases sig_recvE: "sig_step env hm (Recv sig v req) s s'"
inductive_cases sig_expireE: "sig_step env hm Expire s s'"
inductive_cases sig_unblockedE: "sig_step env hm (Unblocked i req) s s'"
inductive_cases sig_workE: "sig_step env hm (Work op) s s'"

inductive sig_run :: "'g sig_env \<Rightarrow> (nat \<Rightarrow> byte list option) \<Rightarrow> sig_event list \<Rightarrow> 'g sig_proc
    \<Rightarrow> 'g sig_proc \<Rightarrow> bool" for env hm where
  run_end: "sig_run env hm [] s s"
| run_step: "sig_step env hm ev s s' \<Longrightarrow> sig_run env hm evs s' s'' \<Longrightarrow> sig_run env hm (ev # evs) s s''"

section \<open>Page-outs\<close>

lemma setitimer_frame [simp]:
  "sp_frames (setitimer tv s) = sp_frames s" "sp_table (setitimer tv s) = sp_table s"
  "sp_dev (setitimer tv s) = sp_dev s" "sp_mask (setitimer tv s) = sp_mask s"
  "sp_pending (setitimer tv s) = sp_pending s" "sp_sent (setitimer tv s) = sp_sent s"
  "sp_gpu_binding (setitimer tv s) = sp_gpu_binding s"
  by (simp_all add: setitimer_def)

lemma page_out_same: "page_out env req s = Inr s' \<Longrightarrow> s' = s"
  by (auto simp: page_out_def bindr_eq_Inr_iff split: option.splits)

lemma page_out_cong: "sp_table s = sp_table s' \<Longrightarrow> page_out env req s = Inl f \<longleftrightarrow> page_out env req s' = Inl f"
  by (cases req; cases "page_words env (sp_table s') (the req)") (auto simp: page_out_def)

text \<open>The first word of the first record is 0 or 1, as the record is invalid or valid.\<close>

lemma first_word:
  assumes "t \<noteq> []" and "mm_handle (t ! 0) = 0" and "mm_valid (t ! 0) \<in> {0, 1}"
  shows "table_word env t 0 = Inr (word_of_int (mm_valid (t ! 0)))"
proof -
  obtain m ms where t: "t = m # ms" using assms(1) by (cases t) auto
  have "int_pair (mm_valid m) 0 = word_of_int (mm_valid m)" using assms(3) t by (auto simp: int_pair_def)
  moreover have "[0..<length t] = 0 # [Suc 0..<length t]" using t by (simp add: upt_conv_Cons del: upt_Suc)
  ultimately show ?thesis
    using assms(2) t by (simp add: table_word_def nthri_def nthr_def record_words_def del: upt_Suc)
qed

lemma page_0_faults:
  assumes "t \<noteq> []" and "mm_handle (t ! 0) = 0" and "mm_valid (t ! 0) \<in> {0, 1}"
    and "\<forall>a. unat a < 4096 \<longrightarrow> sg_status_at env a = None"
  shows "page_words env t (0 # xs) = Inl OutOfBounds"
proof -
  have "unat (word_of_int (mm_valid (t ! 0)) :: u64) < 4096" using assms(3) by auto
  then show ?thesis using first_word [OF assms(1-3), of env] assms(4) by simp
qed

section \<open>Slices\<close>

text \<open>
  The order of the signals the scheduler and the pager keep to: \<open>SIGSCHED\<close> is for a process that
  sleeps and brings an address that is mapped there too; \<open>SIGALRM\<close> and \<open>SIGVTALRM\<close> are for a
  process that executes and whose timer is stopped.
\<close>

definition in_turn :: "'g sig_env \<Rightarrow> sig_event \<Rightarrow> 'g sig_proc \<Rightarrow> bool" where
  "in_turn env ev s \<longleftrightarrow> (case ev of
       Recv sig v req \<Rightarrow> (sig = SIGSCHED \<longrightarrow> sp_frames s \<noteq> [] \<and> sg_deref env v \<noteq> None)
         \<and> (sig = SIGALRM \<or> sig = SIGVTALRM \<longrightarrow> sp_frames s = [] \<and> sp_timer s = None)
     | _ \<Rightarrow> True)"

text \<open>A registered process: it executes, or sleeps in one handler with its timer stopped.\<close>

definition registered :: "'g sig_proc \<Rightarrow> bool" where
  "registered s \<longleftrightarrow> (sp_frames s = [] \<or> (\<exists>f. sp_frames s = [f] \<and> sp_timer s = None))
     \<and> sp_pending s = [] \<and> sp_mask s \<inter> {SIGALRM, SIGVTALRM, SIGSCHED, SIGPAGE} = {}"

text \<open>The state after \<open>signal_block_all\<close> and \<open>fs_register_handler\<close>.\<close>

lemma registered_start:
  assumes "sp_frames s = []" "sp_pending s = []" "SIGVTALRM \<notin> sp_mask s"
  shows "registered (unblock_handled (signal_block_all s))"
  using assms by (auto simp: registered_def unblock_handled_def signal_block_all_def signals)

text \<open>No delivery in turn fails but for the page-outs; the scheduler hears of the end of a slice,
  and of the page-out of a process that executes.\<close>

lemma deliver_in_turn:
  assumes r: "registered s" and p: "sg_pid_file env = Some p"
    and turn: "in_turn env (Recv sig v req) s" and h: "sig \<in> {SIGALRM, SIGVTALRM, SIGSCHED}"
  shows "\<exists>s'. deliver env req sig v s = Inr s' \<and> registered s' \<and> sp_gpu_binding s' = sp_gpu_binding s
    \<and> sp_sent s' = sp_sent s @ (if sig = SIGALRM then [(p, SIGRTMAX, sp_gpu_binding s)] else [])"
proof (cases "awaits s sig")
  case True
  then obtain f where f: "sp_frames s = [f]" "sp_timer s = None"
    using r by (auto simp: registered_def awaits_def)
  have m: "sp_pending s = []" "sp_mask s \<inter> {SIGALRM, SIGVTALRM, SIGSCHED, SIGPAGE} = {}"
    using r by (simp_all add: registered_def)
  obtain tp where tp: "sg_deref env v = Some tp" "sig = SIGSCHED"
    using turn True h by (auto simp: in_turn_def awaits_def signals)
  then show ?thesis using True f m
    by (simp add: deliver_def wake_def handler_wake_def registered_def signals)
next
  case False
  then have run: "sp_frames s = []" "sig \<noteq> SIGSCHED"
    using turn h by (auto simp: in_turn_def awaits_def)
  have m: "sp_pending s = []" "sp_mask s \<inter> {SIGALRM, SIGVTALRM, SIGSCHED, SIGPAGE} = {}"
    "sig \<notin> blocked env s"
    using r run h by (auto simp: registered_def blocked_def)
  have "sp_timer s = None" using turn run h by (auto simp: in_turn_def)
  then show ?thesis using False run m p h
    by (auto simp: deliver_def sigschedulehandler_sleep_def sigvtalarm_handler_sleep_def scheduler_pid_def
        registered_def sigqueue_def signals)
qed

text \<open>A page-out that returns has looked at records only.\<close>

lemma deliver_SIGPAGE:
  assumes r: "registered s" and p: "sg_pid_file env = Some p"
  shows "deliver env req SIGPAGE v s = Inr s' \<longleftrightarrow> (\<exists>xs. req = Some xs \<and> page_words env (sp_table s) xs = Inr ()
    \<and> s' = (if sp_frames s = [] then sigqueue p SIGPAGE (sp_gpu_binding s) (setitimer \<lparr>tv_sec = 0, tv_usec = 0\<rparr> s)
            else s\<lparr>sp_frames := []\<rparr>))"
proof -
  have "sp_frames s = [] \<or> (\<exists>f. sp_frames s = [f])" "SIGPAGE \<notin> sp_mask s"
    using r by (auto simp: registered_def)
  then show ?thesis using p
    by (auto simp: deliver_def awaits_def blocked_def wake_def handler_wake_def sigpage_handler_def Let_def
        scheduler_pid_def page_out_def bindr_eq_Inr_iff sigqueue_def signals split: option.splits)
qed

lemma page_out_in_turn:
  assumes "registered s" and "sg_pid_file env = Some p" and "deliver env req SIGPAGE v s = Inr s'"
  shows "registered s' \<and> sp_gpu_binding s' = sp_gpu_binding s
    \<and> sp_sent s' = sp_sent s @ (if sp_frames s = [] then [(p, SIGPAGE, sp_gpu_binding s)] else [])"
  using assms(1,3) unfolding deliver_SIGPAGE [OF assms(1,2)]
  by (auto simp: registered_def sigqueue_def split: if_splits)

text \<open>An execution that keeps to the order, and the events that end a slice.\<close>

inductive turn_run :: "'g sig_env \<Rightarrow> (nat \<Rightarrow> byte list option) \<Rightarrow> sig_event list \<Rightarrow> 'g sig_proc
    \<Rightarrow> 'g sig_proc \<Rightarrow> bool" for env hm where
  turn_end: "turn_run env hm [] s s"
| turn_step: "in_turn env ev s \<Longrightarrow> sig_step env hm ev s s' \<Longrightarrow> turn_run env hm evs s' s'' \<Longrightarrow>
     turn_run env hm (ev # evs) s s''"

definition slice_end :: "sig_event \<Rightarrow> bool" where
  "slice_end ev \<longleftrightarrow> (case ev of Expire \<Rightarrow> True | Recv sig v req \<Rightarrow> sig = SIGALRM | _ \<Rightarrow> False)"

definition reports :: "'g sig_proc \<Rightarrow> (int \<times> int \<times> int) list" where
  "reports s = filter (\<lambda>m. fst (snd m) = SIGRTMAX) (sp_sent s)"

lemma expire_in_turn:
  assumes "registered s" "sp_timer s \<noteq> None"
  shows "registered (s\<lparr>sp_timer := None\<rparr>)" "in_turn env (Recv SIGALRM 0 req) (s\<lparr>sp_timer := None\<rparr>)"
  using assms by (auto simp: registered_def in_turn_def signals)

lemma turn_step_reports:
  assumes step: "sig_step env hm ev s s'" "in_turn env ev s"
    and r: "registered s" and p: "sg_pid_file env = Some p"
  shows "registered s' \<and> sp_gpu_binding s' = sp_gpu_binding s
    \<and> reports s' = reports s @ (if slice_end ev then [(p, SIGRTMAX, sp_gpu_binding s)] else [])"
  using step(1)
proof (cases rule: sig_step.cases)
  case (s_recv sig req v)
  show ?thesis
  proof (cases "sig = SIGPAGE")
    case True
    then show ?thesis
      using page_out_in_turn [OF r p] s_recv by (auto simp: reports_def slice_end_def signals)
  next
    case False
    then show ?thesis
      using deliver_in_turn [OF r p, of sig v req] s_recv step(2)
      by (auto simp: reports_def slice_end_def signals)
  qed
next
  case s_expire
  show ?thesis
    using deliver_in_turn [OF expire_in_turn(1) [OF r s_expire(2)] p expire_in_turn(2) [OF r s_expire(2)], where req = None]
      s_expire by (simp add: reports_def slice_end_def)
next
  case (s_unblocked i sig v req)
  then show ?thesis using r by (simp add: registered_def)
next
  case (s_work op out t g)
  then show ?thesis using r by (simp add: registered_def reports_def slice_end_def)
qed

lemma turn_run_reports:
  assumes "turn_run env hm evs s s'" and r: "registered s" and p: "sg_pid_file env = Some p"
  shows "registered s' \<and> sp_gpu_binding s' = sp_gpu_binding s
    \<and> reports s' = reports s @ replicate (length (filter slice_end evs)) (p, SIGRTMAX, sp_gpu_binding s)"
  using assms(1) r
proof (induction rule: turn_run.induct)
  case (turn_end s)
  then show ?case by simp
next
  case (turn_step ev s s' evs s'')
  then show ?case using turn_step_reports [OF turn_step(2,1,5) p] by simp
qed



text \<open>Signals that come out of turn, by what the process does.\<close>

lemma out_of_turn:
  assumes "registered s" and "sg_pid_file env = Some p" and "sg_deref env v = Some tp"
  shows "sp_frames s = [] \<Longrightarrow> deliver env req SIGSCHED v s = Inl Killed"
    and "sp_frames s = [SIGVTALRM] \<Longrightarrow> SIGALRM \<notin> sg_act_mask env \<Longrightarrow>
      bindr (deliver env req SIGALRM 0 s) (deliver env req SIGSCHED v) = Inl Uninit"
    and "sp_frames s = [SIGALRM] \<Longrightarrow> \<exists>s1 s2. deliver env req SIGALRM 0 s = Inr s1
      \<and> deliver env req SIGSCHED v s1 = Inr s2 \<and> sp_frames s2 = []
      \<and> (\<exists>s3. sig_step env hm (Unblocked 0 None) s2 s3 \<and> sp_frames s3 = [SIGALRM]
            \<and> reports s3 = reports s @ [(p, SIGRTMAX, sp_gpu_binding s)])"
proof -
  have m: "sp_mask s \<inter> {SIGALRM, SIGVTALRM, SIGSCHED, SIGPAGE} = {}" "sp_pending s = []"
    using assms(1) by (simp_all add: registered_def)
  show "deliver env req SIGSCHED v s = Inl Killed" if "sp_frames s = []"
    using that m by (simp add: deliver_def awaits_def blocked_def signals)
  show "bindr (deliver env req SIGALRM 0 s) (deliver env req SIGSCHED v) = Inl Uninit"
    if "sp_frames s = [SIGVTALRM]" "SIGALRM \<notin> sg_act_mask env"
    using that m assms(2,3) by (simp add: deliver_def awaits_def blocked_def sigschedulehandler_sleep_def
        scheduler_pid_def wake_def handler_wake_def sigqueue_def signals)
  show "\<exists>s1 s2. deliver env req SIGALRM 0 s = Inr s1
      \<and> deliver env req SIGSCHED v s1 = Inr s2 \<and> sp_frames s2 = []
      \<and> (\<exists>s3. sig_step env hm (Unblocked 0 None) s2 s3 \<and> sp_frames s3 = [SIGALRM]
            \<and> reports s3 = reports s @ [(p, SIGRTMAX, sp_gpu_binding s)])" if f: "sp_frames s = [SIGALRM]"
  proof -
    let ?s1 = "s\<lparr>sp_pending := [(SIGALRM, 0)]\<rparr>"
    let ?s2 = "(setitimer tp ?s1)\<lparr>sp_frames := []\<rparr>"
    let ?s3 = "(sigqueue p SIGRTMAX (sp_gpu_binding s) (?s2\<lparr>sp_pending := []\<rparr>))\<lparr>sp_frames := [SIGALRM]\<rparr>"
    have 1: "deliver env req SIGALRM 0 s = Inr ?s1" "deliver env req SIGSCHED v ?s1 = Inr ?s2"
      using f m assms(3) by (simp_all add: deliver_def awaits_def blocked_def wake_def handler_wake_def signals)
    have "sig_step env hm (Unblocked 0 None) ?s2 ?s3"
      using m assms(2) by (intro s_unblocked [where sig = SIGALRM and v = 0])
        (auto simp: deliver_def awaits_def blocked_def sigschedulehandler_sleep_def
          scheduler_pid_def signals sigqueue_def)
    then show ?thesis
      using 1 by (intro exI conjI) (assumption | simp add: reports_def sigqueue_def)+
  qed
qed


section \<open>A concrete process\<close>

text \<open>The scheduler is process 77; the address of its slice is mapped in the process as well, and
  50 ms are written there. The process is bound to GPU 1 and has one object on the device.\<close>

definition demo_sig_env :: "byte list option sig_env" where
  "demo_sig_env = \<lparr>sg_rt = demo_rt, sg_pid_file = Some 77,
     sg_deref = (\<lambda>v. if v = 0x7000 then Some \<lparr>tv_sec = 0, tv_usec = 50000\<rparr> else None), sg_act_mask = {},
     sg_swap_addr = (\<lambda>j. 0x9000),
     sg_status_at = (\<lambda>a. if 0x8000 \<le> a \<and> a < 0xA000 then Some D_NOALLOC else None)\<rparr>"

definition demo_proc :: "int list \<Rightarrow> timeval option \<Rightarrow> (int \<times> int \<times> int) list \<Rightarrow> mem_map
    \<Rightarrow> byte list option \<Rightarrow> byte list option sig_proc" where
  "demo_proc fs tm sent m g = \<lparr>sp_frames = fs, sp_timer = tm, sp_mask = {}, sp_pending = [],
     sp_sent = sent, sp_gpu_binding = 1, sp_table = [m], sp_dev = g\<rparr>"

text \<open>The pager asks for nothing, then for \<open>record\<close> 2, which is the address of the swap block.\<close>

definition demo_signals :: "sig_event list" where
  "demo_signals = [Recv SIGALRM 0 None, Recv SIGPAGE 0 (Some [2]), Recv SIGVTALRM 0 None,
     Recv SIGSCHED 0x7000 None, Expire]"

lemma demo_registered: "length fs \<le> 1 \<Longrightarrow> tm = None \<or> fs = [] \<Longrightarrow> registered (demo_proc fs tm sent m g)"
  by (cases fs) (auto simp: registered_def demo_proc_def)

lemma demo_words: "page_words demo_sig_env [ready_node] [2] = Inr ()"
  by (simp add: table_word_def nthri_def nthr_def record_words_def ready_node_def demo_sig_env_def)

lemma demo_turn_run:
  "turn_run demo_sig_env hm demo_signals (demo_proc [] None [] ready_node g)
     (demo_proc [SIGALRM] None [(77, SIGRTMAX, 1), (77, SIGRTMAX, 1)] ready_node g)"
proof -
  let ?e = demo_sig_env and ?m = "(77, SIGRTMAX, 1)" and ?n = ready_node
  let ?tv = "\<lparr>tv_sec = 0, tv_usec = 50000\<rparr>"
  note d = demo_proc_def demo_sig_env_def deliver_def awaits_def blocked_def in_turn_def
    sigschedulehandler_sleep_def sigvtalarm_handler_sleep_def scheduler_pid_def sigqueue_def wake_def
    handler_wake_def setitimer_def signals
  have q: "page_out ?e (Some [2]) (demo_proc fs None sent ?n g) = Inr (demo_proc fs None sent ?n g)" for fs sent
    using demo_words by (simp add: page_out_def demo_proc_def)
  have 1: "in_turn ?e (Recv SIGALRM 0 None) (demo_proc [] None [] ?n g)"
    "sig_step ?e hm (Recv SIGALRM 0 None) (demo_proc [] None [] ?n g) (demo_proc [SIGALRM] None [?m] ?n g)"
    by (simp add: d, rule s_recv) (simp_all add: d)
  have 2: "in_turn ?e (Recv SIGPAGE 0 (Some [2])) (demo_proc [SIGALRM] None [?m] ?n g)"
    "sig_step ?e hm (Recv SIGPAGE 0 (Some [2])) (demo_proc [SIGALRM] None [?m] ?n g) (demo_proc [] None [?m] ?n g)"
    using q [of "[SIGALRM]" "[?m]"] by (simp add: d, intro s_recv) (simp_all add: d)
  have 3: "in_turn ?e (Recv SIGVTALRM 0 None) (demo_proc [] None [?m] ?n g)"
    "sig_step ?e hm (Recv SIGVTALRM 0 None) (demo_proc [] None [?m] ?n g) (demo_proc [SIGVTALRM] None [?m] ?n g)"
    by (simp add: d, rule s_recv) (simp_all add: d)
  have 4: "in_turn ?e (Recv SIGSCHED 0x7000 None) (demo_proc [SIGVTALRM] None [?m] ?n g)"
    "sig_step ?e hm (Recv SIGSCHED 0x7000 None) (demo_proc [SIGVTALRM] None [?m] ?n g) (demo_proc [] (Some ?tv) [?m] ?n g)"
    by (simp add: d, rule s_recv) (simp_all add: d)
  have 5: "in_turn ?e Expire (demo_proc [] (Some ?tv) [?m] ?n g)"
    "sig_step ?e hm Expire (demo_proc [] (Some ?tv) [?m] ?n g) (demo_proc [SIGALRM] None [?m, ?m] ?n g)"
    by (simp add: d, rule s_expire) (simp_all add: d)
  show ?thesis unfolding demo_signals_def
    by (rule turn_step [OF 1 turn_step [OF 2 turn_step [OF 3 turn_step [OF 4 turn_step [OF 5 turn_end]]]]])
qed

lemma turn_run_is_run: "turn_run env hm evs s s' \<Longrightarrow> sig_run env hm evs s s'"
  by (induction rule: turn_run.induct) (auto intro: sig_run.intros)




end
