(* ===== verification/L2_Start.thy ===== *)
theory L2_Start
  imports L2_Signals L2_Properties Sched_Properties "HOL-Library.Multiset"
begin

text \<open>
  How the second-level scheduler starts and ends: \<open>fs_start_scheduler\<close>, \<open>las_start_scheduler\<close>, the
  part of the listener threads before they serve requests, the redirection of the signals of the
  processes to the control threads, and the clean-up (l2scheduler/\<open>fair_share_sched.c\<close> and
  \<open>las_scheduler.c\<close>).
\<close>

section \<open>The process of the scheduler\<close>

datatype routine = Fs_listen | Fs_control | Las_listen | Las_control

datatype sig_handler = Sem_cleanup | Las_cleanup | Redirection | Redirection2

text \<open>
  What the system answers: the process id, whether a file can be opened for writing, whether there
  is room for a semaphore and for \<open>malloc\<close>, the thread ids \<open>pthread_create\<close> writes, and the
  address of the array \<open>thIDs\<close>.
\<close>

record start_env =
  st_pid :: int
  st_files :: bool
  st_sem :: bool
  st_malloc :: bool
  st_thread :: "nat \<Rightarrow> u64"
  st_thIDs :: u64

text \<open>
  The scheduler: what it shares with its clients, the file with its process id, the blocked
  signals, the handlers, \<open>thIDs\<close>, the threads with their routine and argument, and the signals
  that are pending for the process and queued for a thread.
\<close>

record l2_sched =
  ls_os :: l2
  ls_pid_file :: "int option"
  ls_blocked :: "int set"
  ls_handlers :: "int \<Rightarrow> sig_handler option"
  ls_thIDs :: "u64 list"
  ls_threads :: "(u64 \<times> routine \<times> int) list"
  ls_pending :: "(int \<times> int) list"
  ls_queued :: "(u64 \<times> int \<times> int) list"

definition SIGINT :: int where "SIGINT = 2"

definition num_gpus :: nat where "num_gpus = 2"

text \<open>
  \<open>for (i = 0; i < thread_count; i += 2)\<close>: a listener and a control thread for every GPU, with \<open>k\<close>
  of them left and \<open>j\<close> the next. An \<open>int\<close> is allocated for each and written unchecked.
\<close>

primrec start_threads :: "start_env \<Rightarrow> routine \<Rightarrow> routine \<Rightarrow> nat \<Rightarrow> nat \<Rightarrow> l2_sched \<Rightarrow> l2_sched cres" where
  "start_threads env listener control 0 j s = Inr s"
| "start_threads env listener control (Suc k) j s =
     (if \<not> st_malloc env then Inl NullDeref else
      bindr (updr (ls_thIDs s) (2 * j) (st_thread env (2 * j))) (\<lambda>t.
      bindr (updr t (2 * j + 1) (st_thread env (2 * j + 1))) (\<lambda>t.
        start_threads env listener control k (j + 1) (s\<lparr>ls_thIDs := t, ls_threads := ls_threads s
          @ [(st_thread env (2 * j), listener, int j), (st_thread env (2 * j + 1), control, int j)]\<rparr>))))"

text \<open>
  \<open>semget (..., IPC_CREAT | IPC_EXCL)\<close> fails when the semaphore exists; the process id has been
  written by then. The handlers are for signals that exist, so \<open>sigaction\<close> does not fail.
\<close>

definition fs_start_scheduler :: "start_env \<Rightarrow> l2_sched \<Rightarrow> (int \<times> l2_sched) cres" where
  "fs_start_scheduler env s =
     (let s = s\<lparr>ls_blocked := ls_blocked s \<union> {SIGSCHED..SIGRTMAX}\<rparr> in
      if \<not> st_files env then Inl NullDeref else
      let s = s\<lparr>ls_pid_file := Some (st_pid env)\<rparr> in
      if l2_sem (ls_os s) \<or> \<not> st_sem env then Inr (-1, s) else
      let s = s\<lparr>ls_os := (ls_os s)\<lparr>l2_sem := True\<rparr>,
        ls_handlers := (ls_handlers s)(SIGINT \<mapsto> Sem_cleanup, SIGRTMAX \<mapsto> Redirection, SIGPAGE \<mapsto> Redirection2)\<rparr>;
        s = s\<lparr>ls_os := (ls_os s)\<lparr>l2_table := fs_listen_init (l2_table (ls_os s))\<rparr>\<rparr> in
      bindr (start_threads env Fs_listen Fs_control num_gpus 0 s) (\<lambda>s. Inr (2 * int num_gpus, s)))"

definition las_start_scheduler :: "start_env \<Rightarrow> l2_sched \<Rightarrow> (int \<times> l2_sched) cres" where
  "las_start_scheduler env s =
     (if l2_sem (ls_os s) \<or> \<not> st_sem env then Inr (-1, s) else
      let s = s\<lparr>ls_os := (ls_os s)\<lparr>l2_sem := True\<rparr>,
        ls_handlers := (ls_handlers s)(SIGINT \<mapsto> Las_cleanup)\<rparr> in
      bindr (start_threads env Las_listen Las_control num_gpus 0 s) (\<lambda>s. Inr (2 * int num_gpus, s)))"

text \<open>What the handlers of \<open>SIGINT\<close> leave behind; the files of the clients are not modelled.\<close>

definition sem_cleanup_and_exit :: "l2_sched \<Rightarrow> l2_sched" where
  "sem_cleanup_and_exit s = s\<lparr>ls_os := (ls_os s)\<lparr>l2_fifo := \<lambda>_. No_fifo, l2_file := None, l2_sem := False\<rparr>\<rparr>"

definition las_sem_cleanup_and_exit :: "l2_sched \<Rightarrow> l2_sched" where
  "las_sem_cleanup_and_exit s = s\<lparr>ls_os := (ls_os s)\<lparr>l2_fifo := \<lambda>_. No_fifo, l2_file := None, l2_sem := False\<rparr>\<rparr>"

section \<open>The listeners\<close>

text \<open>A line is appended to the mapping file; \<open>threadid\<close> has room for 19 digits.\<close>

definition fs_write_mappings :: "start_env \<Rightarrow> int \<Rightarrow> u64 \<Rightarrow> l2 \<Rightarrow> l2 cres" where
  "fs_write_mappings env gpuid tid s =
     (if 20 \<le> length (digits (unat tid)) then Inl OutOfBounds
      else if \<not> st_files env then Inl NullDeref
      else Inr (s\<lparr>l2_file := Some ((case l2_file s of None \<Rightarrow> [] | Some ls \<Rightarrow> ls) @ [(gpuid, digits (unat tid))])\<rparr>))"

definition las_write_mappings :: "start_env \<Rightarrow> int \<Rightarrow> u64 \<Rightarrow> l2 \<Rightarrow> l2 cres" where
  "las_write_mappings env gpuid tid s =
     (if 20 \<le> length (digits (unat tid)) then Inl OutOfBounds
      else if \<not> st_files env then Inl NullDeref
      else Inr (s\<lparr>l2_file := Some ((case l2_file s of None \<Rightarrow> [] | Some ls \<Rightarrow> ls) @ [(gpuid, digits (unat tid))])\<rparr>))"

text \<open>The thread \<open>tid\<close> up to its first \<open>read\<close>: \<open>mkfifo\<close>, the mapping, the table, \<open>open\<close>.\<close>

definition fs_listen_start :: "start_env \<Rightarrow> u64 \<Rightarrow> int \<Rightarrow> l2 \<Rightarrow> l2 cres" where
  "fs_listen_start env tid gpuid s =
     bindr (fs_write_mappings env gpuid tid s) (\<lambda>s.
     Inr (s\<lparr>l2_table := fs_listen_init (l2_table s), l2_fifo := (l2_fifo s)(digits (unat tid) := Read_by gpuid)\<rparr>))"

definition las_listen_start :: "start_env \<Rightarrow> u64 \<Rightarrow> int \<Rightarrow> l2 \<Rightarrow> l2 cres" where
  "las_listen_start env tid gpuid s =
     bindr (las_write_mappings env gpuid tid s) (\<lambda>s.
     Inr (s\<lparr>l2_table := las_listen_init (l2_table s), l2_fifo := (l2_fifo s)(digits (unat tid) := Read_by gpuid)\<rparr>))"

text \<open>The threads run in any order: those of the list, one after the other.\<close>

definition run_routine :: "start_env \<Rightarrow> u64 \<times> routine \<times> int \<Rightarrow> l2 \<Rightarrow> l2 cres" where
  "run_routine env t s = (case t of (tid, r, g) \<Rightarrow> (case r of Fs_listen \<Rightarrow> fs_listen_start env tid g s
     | Las_listen \<Rightarrow> las_listen_start env tid g s | _ \<Rightarrow> Inr s))"

primrec run_routines :: "start_env \<Rightarrow> (u64 \<times> routine \<times> int) list \<Rightarrow> l2 \<Rightarrow> l2 cres" where
  "run_routines env [] s = Inr s"
| "run_routines env (t # ts) s = bindr (run_routine env t s) (run_routines env ts)"

section \<open>The signals of the processes\<close>

text \<open>
  \<open>pthread_sigqueue\<close> with a number that is no thread id reaches nobody. The handlers pass the
  address of the element of \<open>thIDs\<close> where the function expects the element.
\<close>

definition pthread_sigqueue :: "u64 \<Rightarrow> int \<Rightarrow> int \<Rightarrow> l2_sched \<Rightarrow> l2_sched" where
  "pthread_sigqueue tid sig v s = (if tid \<in> fst ` set (ls_threads s)
     then s\<lparr>ls_queued := ls_queued s @ [(tid, sig, v)]\<rparr> else s)"

definition redirection_handler :: "start_env \<Rightarrow> int \<Rightarrow> l2_sched \<Rightarrow> l2_sched" where
  "redirection_handler env v s =
     pthread_sigqueue (st_thIDs env + word_of_int (8 * (2 * v + 1))) SIGSCHED v s"

definition redirection_handler2 :: "start_env \<Rightarrow> int \<Rightarrow> l2_sched \<Rightarrow> l2_sched" where
  "redirection_handler2 env v s =
     pthread_sigqueue (st_thIDs env + word_of_int (8 * (2 * v + 1))) (SIGRTMAX - 2) v s"

text \<open>
  A signal for the scheduler. All its threads have the mask of the thread that created them, so a
  signal that is blocked there stays pending.
\<close>

definition sched_receive :: "start_env \<Rightarrow> int \<times> int \<Rightarrow> l2_sched \<Rightarrow> l2_sched cres" where
  "sched_receive env m s = (case m of (sig, v) \<Rightarrow>
     if sig \<in> ls_blocked s then Inr (s\<lparr>ls_pending := ls_pending s @ [(sig, v)]\<rparr>)
     else (case ls_handlers s sig of None \<Rightarrow> Inl Killed
       | Some Redirection \<Rightarrow> Inr (redirection_handler env v s)
       | Some Redirection2 \<Rightarrow> Inr (redirection_handler2 env v s)
       | Some Sem_cleanup \<Rightarrow> Inl ExitProc
       | Some Las_cleanup \<Rightarrow> Inl ExitProc))"

primrec sched_receives :: "start_env \<Rightarrow> (int \<times> int) list \<Rightarrow> l2_sched \<Rightarrow> l2_sched cres" where
  "sched_receives env [] s = Inr s"
| "sched_receives env (m # ms) s = bindr (sched_receive env m s) (sched_receives env ms)"

text \<open>What \<open>sigwaitinfo (&set, NULL)\<close> of the control thread \<open>tid\<close> would return for.\<close>

definition control_wakes :: "u64 \<Rightarrow> l2_sched \<Rightarrow> bool" where
  "control_wakes tid s \<longleftrightarrow> (\<exists>sig \<in> {SIGSCHED, SIGRTMAX - 2}.
     sig \<in> fst ` set (ls_pending s) \<or> (tid, sig) \<in> (\<lambda>(t, g, v). (t, g)) ` set (ls_queued s))"

section \<open>After the start\<close>

definition entries :: "l2 \<Rightarrow> (int \<times> string) list" where
  "entries s = (case l2_file s of None \<Rightarrow> [] | Some ls \<Rightarrow> ls)"

definition listeners :: "(u64 \<times> routine \<times> int) list \<Rightarrow> (int \<times> string) list" where
  "listeners = List.map_filter (\<lambda>(tid, r, g). if r = Fs_listen then Some (g, digits (unat tid)) else None)"

definition fs_thread :: "u64 \<times> routine \<times> int \<Rightarrow> bool" where
  "fs_thread t \<longleftrightarrow> fst (snd t) \<in> {Fs_listen, Fs_control} \<and> unat (fst t) < 10 ^ 19"

text \<open>Four threads in the table, in this order.\<close>

definition fs_threads :: "start_env \<Rightarrow> (u64 \<times> routine \<times> int) list" where
  "fs_threads env = [(st_thread env 0, Fs_listen, 0), (st_thread env 1, Fs_control, 0),
     (st_thread env 2, Fs_listen, 1), (st_thread env 3, Fs_control, 1)]"

lemma start_threads_returns:
  assumes "length (ls_thIDs s) = 10"
  shows "start_threads env l c num_gpus 0 s = (if st_malloc env
    then Inr (s\<lparr>ls_thIDs := (ls_thIDs s)[0 := st_thread env 0, 1 := st_thread env 1, 2 := st_thread env 2, 3 := st_thread env 3],
      ls_threads := ls_threads s @ [(st_thread env 0, l, 0), (st_thread env 1, c, 0), (st_thread env 2, l, 1), (st_thread env 3, c, 1)]\<rparr>)
    else Inl NullDeref)"
  using assms by (simp add: num_gpus_def numeral_eq_Suc updr_def)

lemma fs_start_returns:
  assumes "length (ls_thIDs s) = 10" "fs_start_scheduler env s = Inr (r, s')" "0 \<le> r"
  shows "r = 4 \<and> st_files env \<and> \<not> l2_sem (ls_os s) \<and> ls_pid_file s' = Some (st_pid env)
    \<and> ls_os s' = (ls_os s)\<lparr>l2_sem := True, l2_table := fs_listen_init (l2_table (ls_os s))\<rparr>
    \<and> ls_blocked s' = ls_blocked s \<union> {SIGSCHED..SIGRTMAX}
    \<and> ls_handlers s' = (ls_handlers s)(SIGINT \<mapsto> Sem_cleanup, SIGRTMAX \<mapsto> Redirection, SIGPAGE \<mapsto> Redirection2)
    \<and> ls_thIDs s' = (ls_thIDs s)[0 := st_thread env 0, 1 := st_thread env 1, 2 := st_thread env 2, 3 := st_thread env 3]
    \<and> ls_threads s' = ls_threads s @ fs_threads env
    \<and> ls_pending s' = ls_pending s \<and> ls_queued s' = ls_queued s"
  using assms start_threads_returns
  by (auto simp: fs_start_scheduler_def Let_def fs_threads_def num_gpus_def [symmetric] split: if_splits)

lemma write_mappings_returns:
  assumes "unat tid < 10 ^ 19" "st_files env"
  shows "fs_write_mappings env g tid s = Inr (s\<lparr>l2_file := Some (entries s @ [(g, digits (unat tid))])\<rparr>)"
  using digits_length [of 19 "unat tid"] assms by (simp add: fs_write_mappings_def entries_def)

lemma run_routine_listens:
  assumes "fs_thread t" "st_files env"
  shows "\<exists>os. run_routine env t s = Inr os \<and> entries os = entries s @ listeners [t]
    \<and> l2_sem os = l2_sem s \<and> (table_inv (l2_table s) \<longrightarrow> table_inv (l2_table os))
    \<and> (l2_file os = l2_file s \<or> l2_file os = Some (entries os))
    \<and> l2_fifo os = (if fst (snd t) = Fs_listen
        then (l2_fifo s)(digits (unat (fst t)) := Read_by (snd (snd t))) else l2_fifo s)"
  using assms write_mappings_returns [of "fst t" env "snd (snd t)" s]
  by (cases t) (auto simp: fs_thread_def run_routine_def fs_listen_start_def entries_def listeners_def
    map_filter_simps fs_listen_init_def intro: table_inv_map)

lemma run_routines_listen:
  assumes "\<forall>t \<in> set ts. fs_thread t" "st_files env" "distinct (map fst ts)"
  shows "\<exists>os. run_routines env ts s = Inr os \<and> entries os = entries s @ listeners ts
    \<and> l2_sem os = l2_sem s \<and> (table_inv (l2_table s) \<longrightarrow> table_inv (l2_table os))
    \<and> (l2_file os = l2_file s \<or> l2_file os = Some (entries os))
    \<and> (\<forall>(tid, r, g) \<in> set ts. r = Fs_listen \<longrightarrow> l2_fifo os (digits (unat tid)) = Read_by g)
    \<and> (\<forall>x. x \<notin> (\<lambda>t. digits (unat (fst t))) ` set ts \<longrightarrow> l2_fifo os x = l2_fifo s x)"
  using assms(1,3)
proof (induction ts arbitrary: s)
  case Nil
  then show ?case by (simp add: listeners_def map_filter_simps)
next
  case (Cons t ts)
  obtain s1 where 1: "run_routine env t s = Inr s1" "entries s1 = entries s @ listeners [t]"
    "l2_sem s1 = l2_sem s" "table_inv (l2_table s) \<longrightarrow> table_inv (l2_table s1)"
    "l2_file s1 = l2_file s \<or> l2_file s1 = Some (entries s1)"
    "l2_fifo s1 = (if fst (snd t) = Fs_listen
        then (l2_fifo s)(digits (unat (fst t)) := Read_by (snd (snd t))) else l2_fifo s)"
    using run_routine_listens [of t env s] Cons.prems assms(2) by auto
  obtain os where 2: "run_routines env ts s1 = Inr os" "entries os = entries s1 @ listeners ts"
    "l2_sem os = l2_sem s1" "table_inv (l2_table s1) \<longrightarrow> table_inv (l2_table os)"
    "l2_file os = l2_file s1 \<or> l2_file os = Some (entries os)"
    "\<forall>(tid, r, g) \<in> set ts. r = Fs_listen \<longrightarrow> l2_fifo os (digits (unat tid)) = Read_by g"
    "\<forall>x. x \<notin> (\<lambda>t. digits (unat (fst t))) ` set ts \<longrightarrow> l2_fifo os x = l2_fifo s1 x"
    using Cons.IH [of s1] Cons.prems by auto
  have "digits (unat (fst t)) \<notin> (\<lambda>t. digits (unat (fst t))) ` set ts"
    using Cons.prems(2) by (auto simp: word_unat_eq_iff image_iff)
  then have "fst (snd t) = Fs_listen \<longrightarrow> l2_fifo os (digits (unat (fst t))) = Read_by (snd (snd t))"
    using 2(7) 1(6) by simp
  moreover have "listeners (t # ts) = listeners [t] @ listeners ts"
    by (simp add: listeners_def map_filter_def)
  moreover have "l2_file os = l2_file s \<or> l2_file os = Some (entries os)"
    using 1(5) 2(2,5) by (auto simp: entries_def)
  ultimately show ?case using 1 2 by (intro exI [of _ os]) (auto split: prod.splits)
qed

lemma mset_two:
  assumes "mset xs = {#a, b#}"
  shows "xs = [a, b] \<or> xs = [b, a]"
proof -
  have "length xs = 2" using arg_cong [OF assms, of size] by simp
  then obtain x y where "xs = [x, y]" by (auto simp: numeral_2_eq_2 length_Suc_conv)
  then show ?thesis using assms by (auto simp: add_eq_conv_ex)
qed

lemma listeners_any_order:
  assumes "mset ts = mset (fs_threads env)"
  shows "listeners ts = [(0, digits (unat (st_thread env 0))), (1, digits (unat (st_thread env 2)))]
    \<or> listeners ts = [(1, digits (unat (st_thread env 2))), (0, digits (unat (st_thread env 0)))]"
proof -
  have "mset (listeners ts) = mset (listeners (fs_threads env))"
    using assms by (simp add: listeners_def map_filter_def)
  then show ?thesis
    by (intro mset_two) (simp add: fs_threads_def listeners_def map_filter_simps)
qed

lemma served_if_listed:
  assumes "l2_sem s" "l2_file s = Some ls" "ls = [(g, tid), (h, tid')] \<or> ls = [(h, tid'), (g, tid)]"
    and "{g, h} = {0, 1}" "length tid \<le> 24" "length tid' \<le> 24" "l2_fifo s tid = Read_by g"
  shows "gpu_served g tid s"
  using assms by (auto simp: gpu_served_def sched_tid_def doubleton_eq_iff)

text \<open>C22. A scheduler that was started on a clean system serves its clients, in whatever order its
  threads get to run: the mapping file leads every process of a GPU to the listener of that GPU,
  the table is consistent, and the element \<open>2 * g + 1\<close> of \<open>thIDs\<close>, which the redirection of
  signals uses, is the control thread of GPU \<open>g\<close>.\<close>

theorem scheduler_serves:
  assumes "fs_start_scheduler env s0 = Inr (r, s1)" and "0 \<le> r"
    and "length (ls_thIDs s0) = 10" and "ls_threads s0 = []"
    and "l2_file (ls_os s0) = None \<or> l2_file (ls_os s0) = Some []" and "table_inv (l2_table (ls_os s0))"
    and "distinct (map (st_thread env) [0..<4])" and "\<forall>i < 4. unat (st_thread env i) < 10 ^ 19"
    and "mset ts = mset (ls_threads s1)" and "g = 0 \<or> g = 1"
  shows "\<exists>os. run_routines env ts (ls_os s1) = Inr os \<and> table_inv (l2_table os)
    \<and> gpu_served (int g) (digits (unat (st_thread env (2 * g)))) os
    \<and> (ls_thIDs s1 ! (2 * g + 1), Fs_control, int g) \<in> set (ls_threads s1)"
proof -
  note st = fs_start_returns [OF assms(3,1,2)]
  have four: "[0..<4] = [0, 1, 2, 3 :: nat]" by (simp add: upt_rec numeral_eq_Suc)
  have th: "ls_threads s1 = fs_threads env" using st assms(4) by simp
  have ts: "set ts = set (fs_threads env)" "mset ts = mset (fs_threads env)"
    using assms(9) th by (metis set_mset_mset, simp)
  have d: "distinct (map fst ts)"
  proof -
    have "mset (map fst ts) = mset (map fst (fs_threads env))" using ts(2) by simp
    moreover have "distinct (map fst (fs_threads env))" using assms(7) by (simp add: four fs_threads_def)
    ultimately show ?thesis by (metis mset_eq_imp_distinct_iff)
  qed
  have f: "\<forall>t \<in> set ts. fs_thread t" using assms(8) ts(1) by (simp add: fs_threads_def fs_thread_def)
  have fl: "st_files env" using st by blast
  have e: "entries (ls_os s1) = []" "l2_sem (ls_os s1)" "table_inv (l2_table (ls_os s1))"
    using st assms(5) table_inv_map [OF assms(6)] by (auto simp: entries_def fs_listen_init_def)
  obtain os where os: "run_routines env ts (ls_os s1) = Inr os" "entries os = listeners ts" "l2_sem os"
    "table_inv (l2_table os)" "l2_file os = l2_file (ls_os s1) \<or> l2_file os = Some (entries os)"
    "\<forall>(tid, r, g) \<in> set ts. r = Fs_listen \<longrightarrow> l2_fifo os (digits (unat tid)) = Read_by g"
    using run_routines_listen [OF f fl d, of "ls_os s1"] e by auto
  have fi: "l2_fifo os (digits (unat (st_thread env 0))) = Read_by 0"
    "l2_fifo os (digits (unat (st_thread env 2))) = Read_by 1"
    using os(6) ts(1) by (auto simp: fs_threads_def)
  have len: "length (digits (unat (st_thread env i))) \<le> 24" if "i < 4" for i
    using digits_length [of 19 "unat (st_thread env i)"] assms(8) that by simp
  have "listeners ts \<noteq> []" using listeners_any_order [OF ts(2)] by auto
  then have "l2_file os = Some (listeners ts)"
    using os(2,5) e(1) by (auto simp: entries_def split: option.splits)
  then have "gpu_served 0 (digits (unat (st_thread env 0))) os" "gpu_served 1 (digits (unat (st_thread env 2))) os"
    using served_if_listed [OF os(3), of _ 0 "digits (unat (st_thread env 0))" 1 "digits (unat (st_thread env 2))"]
      served_if_listed [OF os(3), of _ 1 "digits (unat (st_thread env 2))" 0 "digits (unat (st_thread env 0))"]
      listeners_any_order [OF ts(2)] fi len [of 0] len [of 2] by (auto simp: insert_commute)
  moreover have "(ls_thIDs s1 ! (2 * g + 1), Fs_control, int g) \<in> set (ls_threads s1)"
    using st assms(3,10) th by (auto simp: fs_threads_def)
  ultimately show ?thesis using os(1,4) assms(10) by auto
qed

section \<open>Only one scheduler\<close>

text \<open>C30. While a scheduler runs no other one starts: the second fails at the semaphore and changes
  nothing the clients of the first use, except that they find the second's process id and send
  the end of their slices to it. When the first has cleaned up, another one starts.\<close>

theorem one_scheduler_at_a_time:
  assumes "fs_start_scheduler env s0 = Inr (r, s1)" and "0 \<le> r" and "length (ls_thIDs s0) = 10"
    and "st_files env'" "st_sem env'" "st_malloc env'" and "length (ls_thIDs s) = 10"
  shows "(\<exists>s'. fs_start_scheduler env' (s\<lparr>ls_os := ls_os s1\<rparr>) = Inr (-1, s')
      \<and> ls_os s' = ls_os s1 \<and> ls_pid_file s' = Some (st_pid env') \<and> ls_threads s' = ls_threads s)
    \<and> (\<exists>s'. fs_start_scheduler env' (s\<lparr>ls_os := ls_os (sem_cleanup_and_exit s1)\<rparr>) = Inr (4, s')
      \<and> ls_threads s' = ls_threads s @ fs_threads env' \<and> l2_file (ls_os s') = None)"
proof -
  have k: "l2_sem (ls_os s1)" using fs_start_returns [OF assms(3,1,2)] by simp
  show ?thesis
    using k assms(4-7) by (simp add: fs_start_scheduler_def Let_def start_threads_returns
        sem_cleanup_and_exit_def fs_threads_def num_gpus_def [symmetric])
qed

section \<open>The end of a slice\<close>

text \<open>The scheduler gets two kinds of signals from a process.\<close>

definition for_scheduler :: "int \<times> int \<times> int \<Rightarrow> bool" where
  "for_scheduler m \<longleftrightarrow> fst (snd m) \<in> {SIGRTMAX, SIGPAGE}"

lemma deliver_sends:
  "deliver env req sig v s = Inr s' \<Longrightarrow> \<forall>m \<in> set (sp_sent s). for_scheduler m \<Longrightarrow>
     \<forall>m \<in> set (sp_sent s'). for_scheduler m"
  by (auto dest!: page_out_same simp: deliver_def wake_def handler_wake_def bindr_eq_Inr_iff Let_def
      sigschedulehandler_sleep_def sigvtalarm_handler_sleep_def sigpage_handler_def sigqueue_def for_scheduler_def
      split: if_splits option.splits)

lemma sig_run_sends:
  "sig_run env hm evs s s' \<Longrightarrow> \<forall>m \<in> set (sp_sent s). for_scheduler m \<Longrightarrow>
     \<forall>m \<in> set (sp_sent s'). for_scheduler m"
proof (induction rule: sig_run.induct)
  case (run_step ev s s' evs s'')
  have "\<forall>m \<in> set (sp_sent s'). for_scheduler m"
    using run_step(1)
  proof (cases rule: sig_step.cases)
    case (s_recv sig req v)
    then show ?thesis using deliver_sends [OF s_recv(3)] run_step(4) by simp
  next
    case s_expire
    then show ?thesis using deliver_sends [OF s_expire(3)] run_step(4) by simp
  next
    case (s_unblocked i sig v req)
    then show ?thesis using deliver_sends [OF s_unblocked(5)] run_step(4) by simp
  next
    case (s_work op out t g)
    then show ?thesis using run_step(4) by simp
  qed
  then show ?case by (rule run_step.IH)
qed

lemma sched_receives_blocked:
  "\<forall>m \<in> set ms. fst m \<in> ls_blocked s \<Longrightarrow>
     sched_receives env ms s = Inr (s\<lparr>ls_pending := ls_pending s @ ms\<rparr>)"
  by (induction ms arbitrary: s) (auto simp: sched_receive_def split: prod.splits)

text \<open>Were the signals not blocked, the redirection would still miss its thread.\<close>

lemma redirection_misses:
  "st_thIDs env + word_of_int (8 * (2 * v + 1)) \<notin> fst ` set (ls_threads s) \<Longrightarrow>
     redirection_handler env v s = s \<and> redirection_handler2 env v s = s"
  by (simp add: redirection_handler_def redirection_handler2_def pthread_sigqueue_def)

text \<open>C29. The scheduler never learns that a slice has ended. Whatever happens to a registered process,
  the signals it sends to the scheduler are blocked there in every thread since the start, so they
  stay pending, and no control thread returns from waiting for the end of the slice.\<close>

theorem end_of_slice_lost:
  assumes "fs_start_scheduler env s0 = Inr (r, s1)" and "0 \<le> r" and "length (ls_thIDs s0) = 10"
    and "ls_pending s0 = []" and "ls_queued s0 = []"
    and "sig_run penv hm evs p p'" and "sp_sent p = []"
  shows "\<exists>s2. sched_receives env (map snd (sp_sent p')) s1 = Inr s2
    \<and> ls_pending s2 = map snd (sp_sent p') \<and> (\<forall>tid. \<not> control_wakes tid s2)"
proof -
  note st = fs_start_returns [OF assms(3,1,2)]
  have m: "\<forall>m \<in> set (sp_sent p'). for_scheduler m" using sig_run_sends [OF assms(6)] assms(7) by simp
  then have "\<forall>m \<in> set (map snd (sp_sent p')). fst m \<in> ls_blocked s1"
    using st by (auto simp: for_scheduler_def signals)
  from sched_receives_blocked [OF this, of env] show ?thesis
    using st assms(4,5) m by (auto simp: control_wakes_def for_scheduler_def signals)
qed

section \<open>A concrete start\<close>

definition demo_start :: start_env where
  "demo_start = \<lparr>st_pid = 77, st_files = True, st_sem = True, st_malloc = True,
     st_thread = (\<lambda>i. word_of_nat (100 + i)), st_thIDs = 0x601000\<rparr>"

definition demo_sched :: l2_sched where
  "demo_sched = \<lparr>ls_os = \<lparr>l2_file = None, l2_fifo = \<lambda>_. No_fifo, l2_sem = False,
       l2_table = Scheduler_Data0, l2_signals = []\<rparr>,
     ls_pid_file = None, ls_blocked = {}, ls_handlers = \<lambda>_. None, ls_thIDs = replicate 10 0,
     ls_threads = [], ls_pending = [], ls_queued = []\<rparr>"

lemma demo_starts: "\<exists>s1. fs_start_scheduler demo_start demo_sched = Inr (4, s1)
    \<and> ls_threads s1 = fs_threads demo_start"
proof -
  have "length (ls_thIDs demo_sched) = 10" by (simp add: demo_sched_def)
  from start_threads_returns [of "_\<lparr>ls_thIDs := ls_thIDs demo_sched\<rparr>"] this show ?thesis
    by (simp add: fs_start_scheduler_def Let_def start_threads_returns demo_start_def demo_sched_def
        fs_threads_def num_gpus_def [symmetric])
qed

theorem scheduler_serves_witness:
  "\<exists>s1 os. fs_start_scheduler demo_start demo_sched = Inr (4, s1)
    \<and> run_routines demo_start (rev (fs_threads demo_start)) (ls_os s1) = Inr os \<and> gpu_served 1 ''102'' os"
proof -
  obtain s1 where s1: "fs_start_scheduler demo_start demo_sched = Inr (4, s1)"
    "ls_threads s1 = fs_threads demo_start" using demo_starts by blast
  have four: "[0..<4] = [0, 1, 2, 3 :: nat]" by (simp add: upt_rec numeral_eq_Suc)
  have l: "unat (st_thread demo_start i) < 10 ^ 19" if "i < 4" for i
  proof -
    have "unat (word_of_nat (100 + i) :: u64) \<le> 100 + i" by (simp only: unat_of_nat mod_less_eq_dividend)
    then show ?thesis using that by (simp add: demo_start_def)
  qed
  have d: "distinct (map (st_thread demo_start) [0..<4])" "\<forall>i < 4. unat (st_thread demo_start i) < 10 ^ 19"
    "length (ls_thIDs demo_sched) = 10" "ls_threads demo_sched = []" "l2_file (ls_os demo_sched) = None"
    "table_inv (l2_table (ls_os demo_sched))" "st_thread demo_start 2 = 102"
    using table_inv_zero l by (simp_all add: four demo_start_def demo_sched_def)
  have "digits 102 = ''102''" by code_simp
  then have t: "digits (unat (102 :: u64)) = ''102''" by simp
  have p: "mset (rev (fs_threads demo_start)) = mset (ls_threads s1)" using s1(2) by simp
  show ?thesis
    using scheduler_serves [OF s1(1) _ d(3,4) _ d(6,1,2) p, of 1] s1(1) d(5,7) t by auto
qed

theorem one_scheduler_at_a_time_witness:
  "\<exists>s1 s2. fs_start_scheduler demo_start demo_sched = Inr (4, s1)
    \<and> fs_start_scheduler (demo_start\<lparr>st_pid := 99\<rparr>) (demo_sched\<lparr>ls_os := ls_os s1\<rparr>) = Inr (-1, s2)
    \<and> ls_pid_file s2 = Some 99"
proof -
  obtain s1 where s1: "fs_start_scheduler demo_start demo_sched = Inr (4, s1)" using demo_starts by blast
  have "length (ls_thIDs demo_sched) = 10" by (simp add: demo_sched_def)
  then show ?thesis
    using one_scheduler_at_a_time [OF s1, of "demo_start\<lparr>st_pid := 99\<rparr>" demo_sched] s1
    by (auto simp: demo_start_def)
qed

theorem end_of_slice_lost_witness:
  "\<exists>s1 s2. fs_start_scheduler demo_start demo_sched = Inr (4, s1)
    \<and> sched_receives demo_start [(SIGRTMAX, 1), (SIGRTMAX, 1)] s1 = Inr s2 \<and> \<not> control_wakes 103 s2"
proof -
  obtain s1 where s1: "fs_start_scheduler demo_start demo_sched = Inr (4, s1)" using demo_starts by blast
  have d: "length (ls_thIDs demo_sched) = 10" "ls_pending demo_sched = []" "ls_queued demo_sched = []"
    by (simp_all add: demo_sched_def)
  have e: "sp_sent (demo_proc [] None [] ready_node (Some [1, 2, 3, 0])) = []" by (simp add: demo_proc_def)
  show ?thesis
    using end_of_slice_lost [OF s1 _ d turn_run_is_run [OF demo_turn_run] e] s1
    by (auto simp: demo_proc_def)
qed

end
