(* ===== verification/Semaphores.thy ===== *)
theory Semaphores
  imports Gvirt_Base
begin

text \<open>
  The semaphore operations of interposer/\<open>semaphore_ops.c\<close> (backend/libl2scheduler.c has the same
  \<open>P\<close> and \<open>V\<close>), and what they are worth to the processes that lock their FIFO with them, which
  never look at the results.
\<close>

text \<open>The semaphores of the system: the ids by key, and the values of those that exist.\<close>

record sems =
  se_ids :: "int \<Rightarrow> int option"
  se_value :: "int \<Rightarrow> nat option"

definition SEMVMX :: nat where "SEMVMX = 32767"

text \<open>
  A \<open>semop\<close> that has to wait fails when a handler runs in the process (\<open>EINTR\<close>) or when the
  semaphore is removed (\<open>EIDRM\<close>).
\<close>

datatype sem_wake = Waits | Handler_ran | Removed

text \<open>\<open>semop\<close> also fails for an id that does not exist; \<open>P\<close> and \<open>V\<close> answer every failure with 0.\<close>

definition sem_P :: "sem_wake \<Rightarrow> int \<Rightarrow> sems \<Rightarrow> (int \<times> sems) cres" where
  "sem_P w semID s = (case se_value s semID of None \<Rightarrow> Inr (0, s)
     | Some 0 \<Rightarrow> (case w of Waits \<Rightarrow> Inl Hangs | Handler_ran \<Rightarrow> Inr (0, s)
         | Removed \<Rightarrow> Inr (0, s\<lparr>se_value := (se_value s)(semID := None)\<rparr>))
     | Some (Suc n) \<Rightarrow> Inr (-1, s\<lparr>se_value := (se_value s)(semID \<mapsto> n)\<rparr>))"

definition sem_V :: "int \<Rightarrow> sems \<Rightarrow> (int \<times> sems) cres" where
  "sem_V semID s = (case se_value s semID of None \<Rightarrow> Inr (0, s)
     | Some n \<Rightarrow> if SEMVMX \<le> n then Inr (0, s)
         else Inr (-1, s\<lparr>se_value := (se_value s)(semID \<mapsto> n + 1)\<rparr>))"

definition get_semaphore :: "int \<Rightarrow> sems \<Rightarrow> int" where
  "get_semaphore key s = (case se_ids s key of None \<Rightarrow> -1 | Some i \<Rightarrow> i)"

section \<open>Exclusion\<close>

text \<open>
  Processes between their \<open>P\<close> and their \<open>V\<close> on a semaphore the scheduler has set to 1: \<open>ps\<close> those
  whose \<open>P\<close> was granted, \<open>qs\<close> those whose \<open>P\<close> failed and who went on all the same; \<open>k\<close> of the
  latter have left again, with a \<open>V\<close> for a \<open>P\<close> that took nothing.
\<close>

inductive critical :: "int \<Rightarrow> nat list \<Rightarrow> nat list \<Rightarrow> nat \<Rightarrow> sems \<Rightarrow> bool" for i where
  cr_start: "se_value s i = Some 1 \<Longrightarrow> critical i [] [] 0 s"
| cr_enter: "critical i ps qs k s \<Longrightarrow> sem_P w i s = Inr (-1, s') \<Longrightarrow> critical i (p # ps) qs k s'"
| cr_failed: "critical i ps qs k s \<Longrightarrow> sem_P w i s = Inr (0, s') \<Longrightarrow> critical i ps (q # qs) k s'"
| cr_leave: "critical i ps qs k s \<Longrightarrow> p \<in> set ps \<Longrightarrow> sem_V i s = Inr (r, s') \<Longrightarrow>
    critical i (remove1 p ps) qs k s'"
| cr_leave_failed: "critical i ps qs k s \<Longrightarrow> q \<in> set qs \<Longrightarrow> sem_V i s = Inr (r, s') \<Longrightarrow>
    critical i ps (remove1 q qs) (k + 1) s'"

lemma sem_V_exists: "sem_V i s = Inr (r, s') \<Longrightarrow> se_value s' i = Some v' \<Longrightarrow>
    \<exists>v. se_value s i = Some v \<and> (v < SEMVMX \<longrightarrow> v' = v + 1)"
  by (auto simp: sem_V_def split: option.splits if_splits)

lemma sem_P_exists: "sem_P w i s = Inr (r, s') \<Longrightarrow> se_value s' i = Some v' \<Longrightarrow>
    \<exists>v. se_value s i = Some v \<and> (if r = -1 then v = v' + 1 else v' = v)"
  by (auto simp: sem_P_def split: option.splits nat.splits sem_wake.splits)

text \<open>The value and the processes that were let in add up to what has been given back too often.\<close>

lemma critical_value:
  "critical i ps qs k s \<Longrightarrow> se_value s i = Some v \<Longrightarrow> k < SEMVMX \<Longrightarrow> v + length ps = 1 + k"
proof (induction arbitrary: v rule: critical.induct)
  case (cr_start s)
  then show ?case by simp
next
  case (cr_enter ps qs k s w s' p)
  then show ?case using sem_P_exists [OF cr_enter(2,4)] by fastforce
next
  case (cr_failed ps qs k s w s' q)
  then show ?case using sem_P_exists [OF cr_failed(2,4)] by fastforce
next
  case (cr_leave ps qs k s p r s')
  obtain u where u: "se_value s i = Some u" "u < SEMVMX \<longrightarrow> v = u + 1"
    using sem_V_exists [OF cr_leave(3,5)] by blast
  have "length ps = Suc (length (remove1 p ps))"
    using cr_leave(2) length_pos_if_in_set [OF cr_leave(2)] by (simp add: length_remove1)
  moreover have "u + length ps = 1 + k" by (rule cr_leave(4) [OF u(1) cr_leave(6)])
  ultimately show ?case using u(2) cr_leave(6) by linarith
next
  case (cr_leave_failed ps qs k s q r s')
  obtain u where u: "se_value s i = Some u" "u < SEMVMX \<longrightarrow> v = u + 1"
    using sem_V_exists [OF cr_leave_failed(3,5)] by blast
  then show ?case using cr_leave_failed(4) [OF u(1)] cr_leave_failed(6) by simp
qed

text \<open>C33. A semaphore the scheduler has set to 1 excludes as long as no \<open>P\<close> fails: then at most one
  process is between its \<open>P\<close> and its \<open>V\<close>. A signal handler that runs while a process waits lets it
  in beside the one that is there, since nobody looks at the result of \<open>P\<close>; and its \<open>V\<close> gives
  back what it has not taken: after \<open>k\<close> of them the semaphore lets \<open>k + 1\<close> processes in at a time,
  for as long as it exists.\<close>

theorem semaphore_excludes_until_failure:
  assumes "critical i ps qs k s" and "se_value s i = Some v" and "k < SEMVMX"
  shows "length ps \<le> 1 + k
    \<and> (sem_P Waits i s = Inl Hangs \<longleftrightarrow> length ps = 1 + k)
    \<and> (length ps = 1 + k \<longrightarrow> critical i ps (q # qs) k s
        \<and> (\<exists>s1 s2. critical i ps qs (k + 1) s1 \<and> sem_P Waits i s1 = Inr (-1, s2)
             \<and> critical i (p # ps) qs (k + 1) s2))"
proof -
  have v: "v + length ps = 1 + k" by (rule critical_value [OF assms])
  have P: "sem_P Waits i s = Inl Hangs \<longleftrightarrow> v = 0"
    using assms(2) by (cases v) (simp_all add: sem_P_def)
  have "critical i ps (q # qs) k s
      \<and> (\<exists>s1 s2. critical i ps qs (k + 1) s1 \<and> sem_P Waits i s1 = Inr (-1, s2) \<and> critical i (p # ps) qs (k + 1) s2)"
    if "length ps = 1 + k"
  proof -
    have v0: "se_value s i = Some 0" using that v assms(2) by simp
    then have "sem_P Handler_ran i s = Inr (0, s)" by (simp add: sem_P_def)
    from cr_failed [OF assms(1) this] have c: "critical i ps (q # qs) k s" .
    let ?s = "s\<lparr>se_value := (se_value s)(i \<mapsto> 1)\<rparr>"
    have "sem_V i s = Inr (-1, ?s)" using v0 by (simp add: sem_V_def SEMVMX_def)
    from cr_leave_failed [OF c _ this, of q] have c': "critical i ps qs (k + 1) ?s" by simp
    have "sem_P Waits i ?s = Inr (-1, ?s\<lparr>se_value := (se_value ?s)(i \<mapsto> 0)\<rparr>)" by (simp add: sem_P_def)
    from cr_enter [OF c' this] this c c' show ?thesis by blast
  qed
  then show ?thesis using v P by auto
qed

lemma semaphore_excludes_until_failure_witness:
  "sem_P Waits 3 \<lparr>se_ids = \<lambda>_. Some 3, se_value = [3 \<mapsto> 0]\<rparr> = Inl Hangs
   \<and> critical 3 [7] [8] 0 \<lparr>se_ids = \<lambda>_. Some 3, se_value = [3 \<mapsto> 0]\<rparr>"
proof -
  let ?s = "\<lparr>se_ids = \<lambda>_. Some 3, se_value = [3 \<mapsto> 1]\<rparr>" and ?t = "\<lparr>se_ids = \<lambda>_. Some 3, se_value = [3 \<mapsto> 0]\<rparr>"
  have "critical 3 [] [] 0 ?s" by (rule cr_start) simp
  moreover have "sem_P Waits 3 ?s = Inr (-1, ?t)" by (simp add: sem_P_def)
  ultimately have "critical 3 [7] [] 0 ?t" by (rule cr_enter)
  from semaphore_excludes_until_failure [OF this, of 0 8] show ?thesis by (simp add: SEMVMX_def)
qed

end
