(* ===== verification/Fs_Threads.thy ===== *)
theory Fs_Threads
  imports Sched_Properties
begin

text \<open>
  The threads of the fair-share scheduler on their common table: the listeners
  (\<open>fs_listen_thread\<close>) one memory access at a time, since they take no lock, and the writes of
  the control threads (\<open>fs_control_thread\<close>, \<open>fs_calculate_timeslice\<close>) in between.
\<close>

section \<open>A listener, access by access\<close>

text \<open>
  Where a listener is: in the loop before it reads, waiting for a request, in the loop of
  \<open>already_added\<close>, in the exchange with the process, about to make access \<open>k\<close> of
  \<open>fs_register_process\<close> or to store the counter it has read, in the loop of the \<open>REM_Q\<close>
  branch, or about to clear the state of the slot it has found.
\<close>

datatype listener = Starting nat | Idle | Checking process_credit_data nat
  | Asking process_credit_data | Adding fs_reg nat | Counting fs_reg u32
  | Removing int nat | Clearing int nat

definition fs_reg_of :: "process_credit_data \<Rightarrow> fs_reg" where
  "fs_reg_of pcd = \<lparr>fr_pid = pcd_pid pcd, fr_signum = SIGSCHED, fr_app_type = pcd_app_type pcd,
     fr_gpuid = pcd_gpuid pcd, fr_share = sint (ucast (pcd_share_unit pcd) :: u32)\<rparr>"

text \<open>The seven writes of a registration, in their order; each reads the counter again.\<close>

definition reg_write :: "fs_reg \<Rightarrow> nat \<Rightarrow> slot \<Rightarrow> slot" where
  "reg_write r k s = (if k = 0 then s\<lparr>sl_process := fr_pid r\<rparr>
     else if k = 1 then s\<lparr>sl_share_unit := word_of_int (fr_share r)\<rparr>
     else if k = 2 then s\<lparr>sl_signal_num := fr_signum r\<rparr>
     else if k = 3 then s\<lparr>sl_state := PROC_ACTIVE\<rparr>
     else if k = 4 then s\<lparr>sl_app_type := fr_app_type r\<rparr>
     else if k = 5 then s\<lparr>sl_penalty := 0\<rparr>
     else s\<lparr>sl_gpu := fr_gpuid r\<rparr>)"

text \<open>What a listener for the GPU \<open>gpu\<close> does next. \<open>err\<close> is what the process answers, if it is asked.\<close>

definition listen_next :: "int \<Rightarrow> int \<Rightarrow> listener \<Rightarrow> scheduler_data \<Rightarrow> (listener \<times> scheduler_data) cres" where
  "listen_next gpu err l sd = (case l of
     Starting k \<Rightarrow> if k < MAX_CONTROLLER_COUNT
       then bindr (slot_upd (\<lambda>s. s\<lparr>sl_state := PROC_INACTIVE\<rparr>) k sd) (\<lambda>sd. Inr (Starting (k + 1), sd))
       else Inr (Idle, sd)
   | Idle \<Rightarrow> Inr (Idle, sd)
   | Checking pcd k \<Rightarrow> if k < MAX_CONTROLLER_COUNT
       then bindr (nthr (sd_slots sd) k) (\<lambda>s.
         Inr (if sl_process s = pcd_pid pcd then Idle else Checking pcd (k + 1), sd))
       else Inr (Asking pcd, sd)
   | Asking pcd \<Rightarrow> Inr (if err = 0 then Adding (fs_reg_of pcd) 0 else Idle, sd)
   | Adding r k \<Rightarrow> if k < 7
       then bindr (slot_upd (reg_write r k) (unat (sd_count sd)) sd) (\<lambda>sd. Inr (Adding r (k + 1), sd))
       else Inr (Counting r (sd_count sd), sd)
   | Counting r c \<Rightarrow> Inr (Idle, sd\<lparr>sd_count := next_slot c\<rparr>)
   | Removing p k \<Rightarrow> if k < MAX_CONTROLLER_COUNT
       then bindr (nthr (sd_slots sd) k) (\<lambda>s. if p = sl_process s \<and> gpu = sl_gpu s
         then bindr (slot_upd (\<lambda>s. s\<lparr>sl_process := INVALID_PROCEESS\<rparr>) k sd) (\<lambda>sd. Inr (Clearing p k, sd))
         else Inr (Removing p (k + 1), sd))
       else Inr (Idle, sd)
   | Clearing p k \<Rightarrow> bindr (slot_upd (\<lambda>s. s\<lparr>sl_state := PROC_INACTIVE\<rparr>) k sd) (\<lambda>sd. Inr (Idle, sd)))"

text \<open>What \<open>read\<close> gives to a listener that waits; anything else than the two requests is ignored.\<close>

definition listen_recv :: "int \<Rightarrow> process_credit_data \<Rightarrow> listener" where
  "listen_recv status pcd = (if 0 < status \<and> pcd_action pcd = ADD_Q then Checking pcd 0
     else if 0 < status \<and> pcd_action pcd = REM_Q then Removing (pcd_pid pcd) 0 else Idle)"

section \<open>The writes of the control threads\<close>

datatype ctl_write = W_penalty nat int | W_state nat int | W_allocated nat timeval
  | W_execution nat timeval

fun ctl_do :: "ctl_write \<Rightarrow> scheduler_data \<Rightarrow> scheduler_data cres" where
  "ctl_do (W_penalty i p) sd = slot_upd (\<lambda>s. s\<lparr>sl_penalty := p\<rparr>) i sd"
| "ctl_do (W_state i x) sd = slot_upd (\<lambda>s. s\<lparr>sl_state := x\<rparr>) i sd"
| "ctl_do (W_allocated i t) sd = slot_upd (\<lambda>s. s\<lparr>sl_allocated := t\<rparr>) i sd"
| "ctl_do (W_execution i t) sd = slot_upd (\<lambda>s. s\<lparr>sl_execution := t\<rparr>) i sd"

inductive ctl_writes :: "scheduler_data \<Rightarrow> scheduler_data \<Rightarrow> bool" where
  cw_none: "ctl_writes sd sd"
| cw_more: "ctl_writes sd sd' \<Longrightarrow> ctl_do w sd' = Inr sd'' \<Longrightarrow> ctl_writes sd sd''"

section \<open>All threads\<close>

text \<open>
  The table and the listeners of the GPUs 0, 1, ... A step is a request that arrives, the next
  access of a listener, or a write of a control thread.
\<close>

record fs_threads_state =
  ft_sd :: scheduler_data
  ft_ls :: "listener list"

datatype ft_event = F_recv nat int process_credit_data | F_listen nat int | F_ctl ctl_write

inductive ft_step :: "ft_event \<Rightarrow> fs_threads_state \<Rightarrow> fs_threads_state \<Rightarrow> bool" where
  f_recv: "\<lbrakk>g < length (ft_ls s); ft_ls s ! g = Idle; 0 < pcd_pid pcd\<rbrakk> \<Longrightarrow>
     ft_step (F_recv g status pcd) s (s\<lparr>ft_ls := (ft_ls s)[g := listen_recv status pcd]\<rparr>)"
| f_listen: "\<lbrakk>g < length (ft_ls s); listen_next (int g) err (ft_ls s ! g) (ft_sd s) = Inr (l, sd)\<rbrakk> \<Longrightarrow>
     ft_step (F_listen g err) s (s\<lparr>ft_sd := sd, ft_ls := (ft_ls s)[g := l]\<rparr>)"
| f_ctl: "ctl_do w (ft_sd s) = Inr sd \<Longrightarrow> ft_step (F_ctl w) s (s\<lparr>ft_sd := sd\<rparr>)"

text \<open>The process whose request a listener handles.\<close>

definition of_process :: "listener \<Rightarrow> int option" where
  "of_process l = (case l of Starting k \<Rightarrow> None | Idle \<Rightarrow> None | Checking pcd k \<Rightarrow> Some (pcd_pid pcd)
     | Asking pcd \<Rightarrow> Some (pcd_pid pcd) | Adding r k \<Rightarrow> Some (fr_pid r) | Counting r c \<Rightarrow> Some (fr_pid r)
     | Removing p k \<Rightarrow> Some p | Clearing p k \<Rightarrow> Some p)"

definition apart :: "listener list \<Rightarrow> bool" where
  "apart ls \<longleftrightarrow> (\<forall>g < length ls. \<forall>h < length ls. g \<noteq> h \<longrightarrow> of_process (ls ! g) \<noteq> None \<longrightarrow>
     of_process (ls ! g) \<noteq> of_process (ls ! h))"

lemma apartD: "apart ls \<Longrightarrow> g < length ls \<Longrightarrow> h < length ls \<Longrightarrow> g \<noteq> h \<Longrightarrow> of_process (ls ! g) = Some p \<Longrightarrow>
    of_process (ls ! h) \<noteq> Some p"
  by (metis apart_def option.distinct(1))

definition ft_start :: "nat \<Rightarrow> fs_threads_state" where
  "ft_start n = \<lparr>ft_sd = Scheduler_Data0, ft_ls = replicate n (Starting 0)\<rparr>"

text \<open>
  Executions, and the states of \<open>n\<close> GPUs; \<open>d\<close> says whether all along no two listeners have
  handled requests of the same process at once.
\<close>

inductive ft_run :: "bool \<Rightarrow> fs_threads_state \<Rightarrow> fs_threads_state \<Rightarrow> bool" for d s where
  ft_none: "ft_run d s s"
| ft_more: "\<lbrakk>ft_run d s s'; ft_step ev s' s''; d \<longrightarrow> apart (ft_ls s'')\<rbrakk> \<Longrightarrow> ft_run d s s''"

definition ft_reach :: "nat \<Rightarrow> bool \<Rightarrow> fs_threads_state \<Rightarrow> bool" where
  "ft_reach n d s \<longleftrightarrow> ft_run d (ft_start n) s"

lemma ft_run_trans: "ft_run d s' s'' \<Longrightarrow> ft_run d s s' \<Longrightarrow> ft_run d s s''"
  by (induction rule: ft_run.induct) (auto intro: ft_more)

lemma ft_reach_run: "ft_reach n d s \<Longrightarrow> ft_run d s s' \<Longrightarrow> ft_reach n d s'"
  by (auto simp: ft_reach_def intro: ft_run_trans)

section \<open>The invariant\<close>

text \<open>A slot that a listener has found is in the table.\<close>

definition index_ok :: "listener \<Rightarrow> bool" where
  "index_ok l \<longleftrightarrow> (case l of Clearing p k \<Rightarrow> k < MAX_CONTROLLER_COUNT | _ \<Rightarrow> True)"

text \<open>As far as a listener has looked, the process it is going to enter is not in the table.\<close>

definition fresh :: "listener \<Rightarrow> int list \<Rightarrow> bool" where
  "fresh l ps \<longleftrightarrow> (case l of Checking pcd k \<Rightarrow> 0 < pcd_pid pcd \<and> pcd_pid pcd \<notin> set (take k ps)
     | Asking pcd \<Rightarrow> 0 < pcd_pid pcd \<and> pcd_pid pcd \<notin> set ps
     | Adding r k \<Rightarrow> 0 < fr_pid r \<and> (k = 0 \<longrightarrow> fr_pid r \<notin> set ps)
     | _ \<Rightarrow> True)"

lemma notin_update: "x \<notin> set ps \<Longrightarrow> x \<noteq> p \<Longrightarrow> x \<notin> set (ps[i := p])"
  using set_update_subset_insert [of ps i p] by blast

lemma fresh_update:
  assumes "fresh l ps" and "p = INVALID_PROCEESS \<or> of_process l \<noteq> Some p"
  shows "fresh l (ps[i := p])"
  using assms by (auto simp: fresh_def of_process_def INVALID_PROCEESS_def take_update_swap notin_update
      split: listener.splits)

lemma pids_same: "(pids sd)[i := sl_process (sd_slots sd ! i)] = pids sd"
  by (simp add: pids_def map_update [symmetric])

lemma reg_write_process: "sl_process (reg_write r k s) = (if k = 0 then fr_pid r else sl_process s)"
  by (simp add: reg_write_def)

lemma slot_upd_pids:
  assumes "i < length (sd_slots sd)"
  shows "\<exists>sd'. slot_upd f i sd = Inr sd' \<and> length (sd_slots sd') = length (sd_slots sd)
    \<and> sd_count sd' = sd_count sd \<and> pids sd' = (pids sd)[i := sl_process (f (sd_slots sd ! i))]"
  using assms by (simp add: slot_upd_ok pids_def map_update)

lemma slot_upd_same_pids:
  assumes "i < length (sd_slots sd)" and "\<And>s. sl_process (f s) = sl_process s"
  shows "\<exists>sd'. slot_upd f i sd = Inr sd' \<and> length (sd_slots sd') = length (sd_slots sd)
    \<and> sd_count sd' = sd_count sd \<and> pids sd' = pids sd"
  using slot_upd_pids [OF assms(1), of f] assms(2) pids_same [of sd i] by simp

text \<open>One access: what it does to the processes in the table.\<close>

lemma listen_next_pids:
  assumes ok: "sd_ok sd" and i: "index_ok l"
  shows "\<exists>l' sd'. listen_next gpu err l sd = Inr (l', sd') \<and> sd_ok sd' \<and> index_ok l'
    \<and> (of_process l' = None \<or> of_process l' = of_process l)
    \<and> (pids sd' = pids sd \<or> (\<exists>i. pids sd' = (pids sd)[i := INVALID_PROCEESS])
       \<or> (\<exists>r. l = Adding r 0 \<and> pids sd' = (pids sd)[unat (sd_count sd) := fr_pid r]))
    \<and> (fresh l (pids sd) \<longrightarrow> fresh l' (pids sd'))"
proof -
  have len: "length (sd_slots sd) = MAX_CONTROLLER_COUNT" "length (pids sd) = MAX_CONTROLLER_COUNT"
    and c: "unat (sd_count sd) < MAX_CONTROLLER_COUNT" using ok by (simp_all add: sd_ok_def pids_def)
  note d = listen_next_def of_process_def index_ok_def fresh_def sd_ok_def len c
  show ?thesis
  proof (cases l)
    case (Starting k)
    then show ?thesis
      using slot_upd_same_pids [of k sd "\<lambda>s. s\<lparr>sl_state := PROC_INACTIVE\<rparr>"] by (auto simp: d)
  next
    case Idle
    then show ?thesis by (simp add: d)
  next
    case (Checking pcd k)
    have "k < length (pids sd) \<Longrightarrow> sl_process (sd_slots sd ! k) = pids sd ! k" by (simp add: pids_def)
    then show ?thesis
      using Checking by (auto simp: d nthr_def take_Suc_conv_app_nth)
  next
    case (Asking pcd)
    then show ?thesis by (simp add: d fs_reg_of_def)
  next
    case (Adding r k)
    show ?thesis
    proof (cases "k < 7")
      case True
      then show ?thesis
        using slot_upd_pids [of "unat (sd_count sd)" sd "reg_write r k"] Adding c len
        by (cases "k = 0") (auto simp: d reg_write_process pids_same)
    next
      case False
      then show ?thesis using Adding by (simp add: d)
    qed
  next
    case (Counting r x)
    then show ?thesis
      using unat_next_slot(2) [of x] by (auto simp: d pids_def next_slot_def unat_mod MAX_CONTROLLER_COUNT_def)
  next
    case (Removing p k)
    let ?hit = "k < MAX_CONTROLLER_COUNT \<and> p = sl_process (sd_slots sd ! k) \<and> gpu = sl_gpu (sd_slots sd ! k)"
    show ?thesis
    proof (cases ?hit)
      case True
      then obtain sd' where "slot_upd (\<lambda>s. s\<lparr>sl_process := INVALID_PROCEESS\<rparr>) k sd = Inr sd'"
        "length (sd_slots sd') = length (sd_slots sd)" "sd_count sd' = sd_count sd"
        "pids sd' = (pids sd)[k := INVALID_PROCEESS]"
        using slot_upd_pids [of k sd "\<lambda>s. s\<lparr>sl_process := INVALID_PROCEESS\<rparr>"] len by auto
      then show ?thesis
        using True Removing by (intro exI [of _ "Clearing p k"] exI [of _ sd']) (auto simp: d nthr_def)
    next
      case False
      then show ?thesis using Removing by (auto simp: d nthr_def)
    qed
  next
    case (Clearing p k)
    then show ?thesis
      using slot_upd_same_pids [of k sd "\<lambda>s. s\<lparr>sl_state := PROC_INACTIVE\<rparr>"] i by (auto simp: d)
  qed
qed

lemma ctl_do_pids:
  assumes "ctl_do w sd = Inr sd'"
  shows "length (sd_slots sd') = length (sd_slots sd) \<and> sd_count sd' = sd_count sd \<and> pids sd' = pids sd"
proof -
  have "\<exists>f i. slot_upd f i sd = Inr sd' \<and> (\<forall>s. sl_process (f s) = sl_process s)"
    using assms by (cases w) auto
  then obtain f i where f: "slot_upd f i sd = Inr sd'" "\<And>s. sl_process (f s) = sl_process s" by blast
  then show ?thesis using pids_slot_upd [OF f(1)] slot_upd_same_pids [of i sd f] by auto
qed

definition ft_inv :: "nat \<Rightarrow> bool \<Rightarrow> fs_threads_state \<Rightarrow> bool" where
  "ft_inv n d s \<longleftrightarrow> sd_ok (ft_sd s) \<and> length (ft_ls s) = n \<and> (\<forall>g < n. index_ok (ft_ls s ! g))
     \<and> (d \<longrightarrow> distinct_pids (ft_sd s) \<and> apart (ft_ls s) \<and> (\<forall>g < n. fresh (ft_ls s ! g) (pids (ft_sd s))))"

lemma ft_inv_start: "ft_inv n d (ft_start n)"
  using table_inv_zero by (auto simp: ft_inv_def ft_start_def table_inv_def index_ok_def fresh_def apart_def of_process_def)

lemma fresh_recv: "0 < pcd_pid pcd \<Longrightarrow> fresh (listen_recv status pcd) ps \<and> index_ok (listen_recv status pcd)"
  by (simp add: listen_recv_def fresh_def index_ok_def)

lemma ft_inv_step:
  assumes "ft_inv n d s" and "ft_step ev s s'" and "d \<longrightarrow> apart (ft_ls s')"
  shows "ft_inv n d s'"
  using assms(2)
proof (cases rule: ft_step.cases)
  case (f_recv g pcd status)
  then show ?thesis
    using assms(1,3) fresh_recv [of pcd status] by (auto simp: ft_inv_def nth_list_update)
next
  case (f_listen g err l sd)
  let ?l = "ft_ls s ! g" and ?ps = "pids (ft_sd s)"
  have inv: "sd_ok (ft_sd s)" "index_ok ?l" "length (ft_ls s) = n" "g < n"
    using assms(1) f_listen by (simp_all add: ft_inv_def)
  have k: "sd_ok sd" "index_ok l" "of_process l = None \<or> of_process l = of_process ?l"
    "pids sd = ?ps \<or> (\<exists>i. pids sd = ?ps[i := INVALID_PROCEESS])
       \<or> (\<exists>r. ?l = Adding r 0 \<and> pids sd = ?ps[unat (sd_count (ft_sd s)) := fr_pid r])"
    "fresh ?l ?ps \<longrightarrow> fresh l (pids sd)"
    using listen_next_pids [OF inv(1,2), of "int g" err] f_listen by auto
  have dist: "distinct_pids sd \<and> (\<forall>h < n. fresh ((ft_ls s)[g := l] ! h) (pids sd))" if d: d
  proof -
    have t: "table_inv (ft_sd s)" and a: "apart (ft_ls s)" and fr: "\<And>h. h < n \<Longrightarrow> fresh (ft_ls s ! h) ?ps"
      using assms(1) d by (simp_all add: ft_inv_def table_inv_def)
    obtain i p where ip: "pids sd = ?ps \<or> pids sd = ?ps[i := p]"
      "p = INVALID_PROCEESS \<or> p \<notin> set ?ps \<and> of_process ?l = Some p"
    proof -
      consider "pids sd = ?ps" | i where "pids sd = ?ps[i := INVALID_PROCEESS]"
        | r where "?l = Adding r 0" "pids sd = ?ps[unat (sd_count (ft_sd s)) := fr_pid r]"
        using k(4) by blast
      then show ?thesis using that fr [OF inv(4)] by cases (auto simp: fresh_def of_process_def)
    qed
    have "distinct_pids sd"
      using ip(1)
    proof
      assume "pids sd = ?ps"
      then show ?thesis using t by (simp add: table_inv_def distinct_pids_def)
    next
      assume "pids sd = ?ps[i := p]"
      then show ?thesis using table_inv_update [OF t k(1)] ip(2) by (auto simp: table_inv_def)
    qed
    moreover have "fresh ((ft_ls s)[g := l] ! h) (pids sd)" if h: "h < n" for h
    proof (cases "h = g")
      case True
      then show ?thesis using k(5) fr [OF h] inv by simp
    next
      case False
      then have "p = INVALID_PROCEESS \<or> of_process (ft_ls s ! h) \<noteq> Some p"
        using ip(2) apartD [OF a, of g h] h inv by auto
      then show ?thesis using False ip(1) fr [OF h] fresh_update by auto
    qed
    ultimately show ?thesis by blast
  qed
  then show ?thesis
    using assms(1,3) k(1,2) f_listen by (auto simp: ft_inv_def nth_list_update)
next
  case (f_ctl w sd)
  then show ?thesis
    using assms(1) ctl_do_pids [OF f_ctl(3)] by (auto simp: ft_inv_def sd_ok_def distinct_pids_def)
qed

lemma ft_run_inv: "ft_run d s s' \<Longrightarrow> ft_inv n d s \<Longrightarrow> ft_inv n d s'"
  by (induction rule: ft_run.induct) (auto intro: ft_inv_step)

lemma ft_reach_inv: "ft_reach n d s \<Longrightarrow> ft_inv n d s"
  unfolding ft_reach_def by (rule ft_run_inv [OF _ ft_inv_start])

section \<open>An iteration of a control thread\<close>

lemma ctl_writes_trans: "ctl_writes sd1 sd2 \<Longrightarrow> ctl_writes sd0 sd1 \<Longrightarrow> ctl_writes sd0 sd2"
  by (induction rule: ctl_writes.induct) (auto intro: cw_more)

text \<open>A slot in which only what the control threads write may differ.\<close>

definition rewritten :: "slot \<Rightarrow> slot \<Rightarrow> bool" where
  "rewritten s s' \<longleftrightarrow> s' = s\<lparr>sl_penalty := sl_penalty s', sl_state := sl_state s',
     sl_allocated := sl_allocated s', sl_execution := sl_execution s'\<rparr>"

lemma ctl_writes_slot:
  assumes "rewritten (sd_slots sd ! i) s'" and "i < length (sd_slots sd)"
  shows "ctl_writes sd (sd\<lparr>sd_slots := (sd_slots sd)[i := s']\<rparr>)"
proof -
  let ?s = "sd_slots sd ! i"
  let ?u = "\<lambda>x. sd\<lparr>sd_slots := (sd_slots sd)[i := x]\<rparr>"
  have "ctl_do (W_penalty i (sl_penalty s')) sd = Inr (?u (?s\<lparr>sl_penalty := sl_penalty s'\<rparr>))"
    "ctl_do (W_state i (sl_state s')) (?u (?s\<lparr>sl_penalty := sl_penalty s'\<rparr>))
       = Inr (?u (?s\<lparr>sl_penalty := sl_penalty s', sl_state := sl_state s'\<rparr>))"
    "ctl_do (W_allocated i (sl_allocated s')) (?u (?s\<lparr>sl_penalty := sl_penalty s', sl_state := sl_state s'\<rparr>))
       = Inr (?u (?s\<lparr>sl_penalty := sl_penalty s', sl_state := sl_state s', sl_allocated := sl_allocated s'\<rparr>))"
    "ctl_do (W_execution i (sl_execution s'))
        (?u (?s\<lparr>sl_penalty := sl_penalty s', sl_state := sl_state s', sl_allocated := sl_allocated s'\<rparr>))
       = Inr (?u s')"
    using assms(2) assms(1) [unfolded rewritten_def, symmetric] by (simp_all add: slot_upd_ok)
  then show ?thesis by (rule cw_more [OF cw_more [OF cw_more [OF cw_more [OF cw_none]]]])
qed

lemma ctl_writes_slots:
  assumes "\<forall>i < length ss. rewritten (sd_slots sd ! i) (ss ! i)" and "length ss = length (sd_slots sd)"
  shows "ctl_writes sd (sd\<lparr>sd_slots := ss\<rparr>)"
proof -
  have "ctl_writes sd (sd\<lparr>sd_slots := take n ss @ drop n (sd_slots sd)\<rparr>)" if "n \<le> length ss" for n
    using that
  proof (induction n)
    case 0
    then show ?case by (simp add: cw_none)
  next
    case (Suc n)
    let ?sd = "sd\<lparr>sd_slots := take n ss @ drop n (sd_slots sd)\<rparr>"
    have "sd_slots ?sd ! n = sd_slots sd ! n" "n < length (sd_slots ?sd)"
      using Suc.prems assms(2) by (simp_all add: nth_append)
    moreover have "(sd_slots ?sd)[n := ss ! n] = take (Suc n) ss @ drop (Suc n) (sd_slots sd)"
      using Suc.prems assms(2) by (auto intro!: nth_equalityI simp: nth_append nth_list_update less_Suc_eq)
    ultimately show ?case
      using ctl_writes_trans [OF ctl_writes_slot [of ?sd n "ss ! n"] Suc.IH] Suc.prems assms(1) by simp
  qed
  from this [of "length ss"] show ?thesis using assms(2) by simp
qed

lemma fs_age_rewrites: "rewritten s (fs_age gpu s)"
  by (simp add: rewritten_def fs_age_def fs_settle_def fs_wake_def fs_penalise_def Let_def)

lemma rewritten_allocated: "rewritten s s' \<Longrightarrow> rewritten s (s'\<lparr>sl_allocated := t\<rparr>)"
  by (cases s; cases s') (simp add: rewritten_def)

lemma fs_timeslices_writes: "ctl_writes sd (fs_timeslices gpu sd)"
proof -
  have "ctl_writes sd (sd\<lparr>sd_slots := map f (sd_slots sd)\<rparr>)" if "\<And>s. rewritten s (f s)" for f
    using that by (intro ctl_writes_slots) simp_all
  moreover have "rewritten s (if fs_active gpu (fs_age gpu s) then (fs_age gpu s)\<lparr>sl_allocated := t\<rparr>
      else fs_age gpu s)" for s t
    using fs_age_rewrites [of s gpu] rewritten_allocated by simp
  ultimately show ?thesis
    using fs_age_rewrites by (simp add: fs_timeslices_def Let_def comp_def)
qed

text \<open>What an iteration may do to the table \<open>sd\<close>; \<open>bad\<close> is when it may leave the table.\<close>

definition ctl_within :: "scheduler_data \<Rightarrow> bool \<Rightarrow> (u32 \<times> fs_state) ctl \<Rightarrow> bool" where
  "ctl_within sd bad r \<longleftrightarrow> (case r of
       Go p \<Rightarrow> unat (fst p) < MAX_CONTROLLER_COUNT \<and> ctl_writes sd (fs_data (snd p))
     | Blocked st \<Rightarrow> ctl_writes sd (fs_data st)
     | Crash f \<Rightarrow> bad)"

lemma fs_advance_within:
  assumes "unat thid < MAX_CONTROLLER_COUNT" and "ctl_writes sd (fs_data st)"
  shows "ctl_within sd bad (fs_advance gpu thid st)"
  using unat_next_slot(2) [OF assms(1)] assms(2) ctl_writes_trans [OF fs_timeslices_writes assms(2)]
  by (simp add: ctl_within_def fs_advance_def Let_def fs_calculate_timeslice_def mutex_lock_def mutex_unlock_def)

lemma fs_control_within:
  assumes ok: "sd_ok (fs_data st)" and t: "unat thid < MAX_CONTROLLER_COUNT"
  shows "ctl_within (fs_data st) (sig = Some (SIGRTMAX - 2) \<and> MAX_CONTROLLER_COUNT \<le> unat i)
    (fs_control gpu share_unit i sig tp tp1 thid st)"
proof -
  let ?bad = "sig = Some (SIGRTMAX - 2) \<and> MAX_CONTROLLER_COUNT \<le> unat i"
  let ?sd = "fs_data st" and ?n = "length (sd_slots (fs_data st))"
  have n: "?n = MAX_CONTROLLER_COUNT" "unat thid < ?n" using ok t by (simp_all add: sd_ok_def)
  have adv: "ctl_within ?sd ?bad (fs_advance gpu thid st')" if "ctl_writes ?sd (fs_data st')" for st'
    by (rule fs_advance_within [OF t that])
  have pen: "ctl_writes ?sd (?sd\<lparr>sd_slots := (sd_slots ?sd)[unat thid := (sd_slots ?sd ! unat thid)
      \<lparr>sl_penalty := p\<rparr>]\<rparr>)" for p
    by (rule ctl_writes_slot) (use n in \<open>simp_all add: rewritten_def\<close>)
  have pag: "ctl_writes ?sd (?sd\<lparr>sd_slots := (sd_slots ?sd)[unat i := (sd_slots ?sd ! unat i)
      \<lparr>sl_state := x\<rparr>]\<rparr>)" if "unat i < ?n" for x
    by (rule ctl_writes_slot) (use that in \<open>simp_all add: rewritten_def\<close>)
  have exe: "ctl_writes ?sd (?sd\<lparr>sd_slots := (sd_slots ?sd)[unat thid := (sd_slots ?sd ! unat thid)
      \<lparr>sl_execution := x\<rparr>]\<rparr>)" for x
    by (rule ctl_writes_slot) (use n in \<open>simp_all add: rewritten_def\<close>)
  have lock: "mutex_lock (st\<lparr>fs_locked := True\<rparr>) = Blocked (st\<lparr>fs_locked := True\<rparr>)" by (simp add: mutex_lock_def)
  have base: "ctl_within ?sd ?bad (Go (thid, st))" "ctl_within ?sd ?bad (Blocked st)"
    using t cw_none by (simp_all add: ctl_within_def)
  show ?thesis
    using n adv [OF cw_none] adv pen pag exe base
    by (auto simp: fs_control_def liftc_def nthr_def slot_upd_ok slot_upd_def mutex_lock_def Let_def ctl_within_def cw_none)
qed

section \<open>A listener alone\<close>

text \<open>The accesses of a listener while no other thread runs.\<close>

definition alone :: "int \<Rightarrow> int \<Rightarrow> listener \<times> scheduler_data \<Rightarrow> listener \<times> scheduler_data \<Rightarrow> bool" where
  "alone gpu err x y \<longleftrightarrow> listen_next gpu err (fst x) (snd x) = Inr y"

lemma alone_step: "listen_next gpu err l sd = Inr (l', sd') \<Longrightarrow> (alone gpu err)\<^sup>*\<^sup>* (l', sd') z
    \<Longrightarrow> (alone gpu err)\<^sup>*\<^sup>* (l, sd) z"
  by (rule converse_rtranclp_into_rtranclp) (simp_all add: alone_def)

lemma alone_one: "listen_next gpu err l sd = Inr z \<Longrightarrow> (alone gpu err)\<^sup>*\<^sup>* (l, sd) z"
  by (rule r_into_rtranclp) (simp add: alone_def)

lemma starting_alone:
  assumes "sd_ok sd"
  shows "(alone gpu err)\<^sup>*\<^sup>* (Starting 0, sd) (Idle, fs_listen_init sd)"
proof -
  let ?f = "\<lambda>s. s\<lparr>sl_state := PROC_INACTIVE\<rparr>"
  let ?sd = "\<lambda>k. sd\<lparr>sd_slots := map ?f (take k (sd_slots sd)) @ drop k (sd_slots sd)\<rparr>"
  have n: "length (sd_slots sd) = MAX_CONTROLLER_COUNT" using assms by (simp add: sd_ok_def)
  have "(alone gpu err)\<^sup>*\<^sup>* (Starting 0, sd) (Starting k, ?sd k)" if "k \<le> MAX_CONTROLLER_COUNT" for k
    using that
  proof (induction k)
    case (Suc k)
    have "listen_next gpu err (Starting k) (?sd k) = Inr (Starting (Suc k), ?sd (Suc k))"
      using Suc.prems n by (auto simp: listen_next_def slot_upd_ok nth_append list_update_append
          take_Suc_conv_app_nth Cons_nth_drop_Suc [symmetric])
    then show ?case using Suc by (auto intro: rtranclp_trans alone_one)
  qed simp
  from this [of MAX_CONTROLLER_COUNT]
  have "(alone gpu err)\<^sup>*\<^sup>* (Starting 0, sd) (Starting MAX_CONTROLLER_COUNT, fs_listen_init sd)"
    using n by (simp add: fs_listen_init_def)
  then show ?thesis by (rule rtranclp_trans) (simp add: alone_one listen_next_def)
qed

lemma checking_alone:
  assumes "sd_ok sd"
  shows "(alone gpu err)\<^sup>*\<^sup>* (Checking pcd 0, sd) (if already_added pcd sd then Idle else Asking pcd, sd)"
proof -
  have n: "length (sd_slots sd) = MAX_CONTROLLER_COUNT" using assms by (simp add: sd_ok_def)
  have "(alone gpu err)\<^sup>*\<^sup>* (Checking pcd k, sd)
      (if pcd_pid pcd \<in> set (drop k (pids sd)) then Idle else Asking pcd, sd)" for k
  proof (induction "MAX_CONTROLLER_COUNT - k" arbitrary: k)
    case 0
    then show ?case using n by (intro alone_one) (simp add: listen_next_def pids_def)
  next
    case (Suc m)
    then have k: "k < MAX_CONTROLLER_COUNT" "m = MAX_CONTROLLER_COUNT - (k + 1)" by simp_all
    then have "drop k (pids sd) = sl_process (sd_slots sd ! k) # drop (k + 1) (pids sd)"
      using n by (simp add: pids_def Cons_nth_drop_Suc [symmetric])
    then show ?case using k n Suc(1) [OF k(2)]
      by (cases "sl_process (sd_slots sd ! k) = pcd_pid pcd")
        (auto simp: listen_next_def nthr_def intro: alone_one alone_step)
  qed
  from this [of 0] show ?thesis by (simp add: already_added_pids)
qed

lemma adding_alone:
  assumes "sd_ok sd" and "k \<le> 7" and "j \<le> k"
  shows "(alone gpu err)\<^sup>*\<^sup>* (Adding r j, sd) (Adding r k, sd\<lparr>sd_slots := (sd_slots sd)
    [unat (sd_count sd) := fold (reg_write r) [j..<k] (sd_slots sd ! unat (sd_count sd))]\<rparr>)"
  using assms(2,3)
proof (induction k)
  case (Suc k)
  show ?case
  proof (cases "j \<le> k")
    case True
    have c: "unat (sd_count sd) < length (sd_slots sd)" using assms(1) by (simp add: sd_ok_def)
    let ?sd = "sd\<lparr>sd_slots := (sd_slots sd)
      [unat (sd_count sd) := fold (reg_write r) [j..<k] (sd_slots sd ! unat (sd_count sd))]\<rparr>"
    have "listen_next gpu err (Adding r k) ?sd = Inr (Adding r (Suc k), sd\<lparr>sd_slots := (sd_slots sd)
      [unat (sd_count sd) := fold (reg_write r) [j..<Suc k] (sd_slots sd ! unat (sd_count sd))]\<rparr>)"
      using Suc.prems True c by (simp add: listen_next_def slot_upd_ok)
    then show ?thesis using Suc True by (auto intro: rtranclp_trans alone_one)
  next
    case False
    then have "j = Suc k" using Suc.prems by simp
    then show ?thesis by simp
  qed
qed simp

lemma reg_writes: "fold (reg_write r) [0..<7] s = s\<lparr>sl_process := fr_pid r,
    sl_share_unit := word_of_int (fr_share r), sl_signal_num := fr_signum r, sl_state := PROC_ACTIVE,
    sl_app_type := fr_app_type r, sl_penalty := 0, sl_gpu := fr_gpuid r\<rparr>"
  by (simp add: reg_write_def upt_rec)

lemma registering_alone:
  assumes "sd_ok sd" and "fs_register_process r sd = Inr sd'"
  shows "(alone gpu err)\<^sup>*\<^sup>* (Adding r 0, sd) (Idle, sd')"
proof -
  have c: "unat (sd_count sd) < length (sd_slots sd)" using assms(1) by (simp add: sd_ok_def)
  define sd7 where "sd7 = sd\<lparr>sd_slots := (sd_slots sd)
      [unat (sd_count sd) := fold (reg_write r) [0..<7] (sd_slots sd ! unat (sd_count sd))]\<rparr>"
  have e: "sd' = sd7\<lparr>sd_count := next_slot (sd_count sd7)\<rparr>"
    using assms(2) c unfolding sd7_def reg_writes by (simp add: fs_register_process_def slot_upd_ok)
  have 1: "(alone gpu err)\<^sup>*\<^sup>* (Adding r 0, sd) (Adding r 7, sd7)"
    using adding_alone [OF assms(1), of 7 0 gpu err r] by (simp add: sd7_def)
  have 2: "listen_next gpu err (Adding r 7) sd7 = Inr (Counting r (sd_count sd7), sd7)"
    "listen_next gpu err (Counting r (sd_count sd7)) sd7 = Inr (Idle, sd')"
    by (simp_all add: listen_next_def e)
  show ?thesis by (rule rtranclp_trans [OF 1 alone_step [OF 2(1) alone_one [OF 2(2)]]])
qed

lemma removing_alone:
  assumes "sd_ok sd" and "fs_remove gpu p sd = Inr sd'"
  shows "(alone gpu err)\<^sup>*\<^sup>* (Removing p 0, sd) (Idle, sd')"
proof -
  have n: "length (sd_slots sd) = MAX_CONTROLLER_COUNT" using assms(1) by (simp add: sd_ok_def)
  have "(alone gpu err)\<^sup>*\<^sup>* (Removing p k, sd) (Idle, case find_slot p gpu (drop k (sd_slots sd)) k of None \<Rightarrow> sd
      | Some i \<Rightarrow> sd\<lparr>sd_slots := (sd_slots sd)[i := (sd_slots sd ! i)\<lparr>sl_process := INVALID_PROCEESS,
          sl_state := PROC_INACTIVE\<rparr>]\<rparr>)" for k
  proof (induction "MAX_CONTROLLER_COUNT - k" arbitrary: k)
    case 0
    then show ?case using n by (intro alone_one) (simp add: listen_next_def)
  next
    case (Suc m)
    then have k: "k < MAX_CONTROLLER_COUNT" "m = MAX_CONTROLLER_COUNT - (k + 1)" by simp_all
    then have d: "drop k (sd_slots sd) = (sd_slots sd ! k) # drop (k + 1) (sd_slots sd)"
      using n by (simp add: Cons_nth_drop_Suc [symmetric])
    show ?case
    proof (cases "p = sl_process (sd_slots sd ! k) \<and> gpu = sl_gpu (sd_slots sd ! k)")
      case True
      let ?s = "(sd_slots sd ! k)\<lparr>sl_process := INVALID_PROCEESS\<rparr>"
      let ?sd = "sd\<lparr>sd_slots := (sd_slots sd)[k := ?s]\<rparr>"
      let ?e = "sd\<lparr>sd_slots := (sd_slots sd)[k := ?s\<lparr>sl_state := PROC_INACTIVE\<rparr>]\<rparr>"
      have "listen_next gpu err (Removing p k) sd = Inr (Clearing p k, ?sd)"
        "listen_next gpu err (Clearing p k) ?sd = Inr (Idle, ?e)"
        using True k n by (simp_all add: listen_next_def nthr_def slot_upd_ok)
      from alone_step [OF this(1) alone_one [OF this(2)]] show ?thesis using True d by simp
    next
      case False
      then have "listen_next gpu err (Removing p k) sd = Inr (Removing p (k + 1), sd)"
        using k n by (auto simp: listen_next_def nthr_def)
      from alone_step [OF this Suc(1) [OF k(2)]] show ?thesis using False d by (auto split: option.splits)
    qed
  qed
  from this [of 0] show ?thesis
    using assms(2) find_slot_Some [of p gpu "sd_slots sd" 0]
    by (auto simp: fs_remove_def slot_upd_ok split: option.splits)
qed

text \<open>Without interference a listener does what \<open>fs_listen\<close> says.\<close>

lemma listener_alone:
  assumes "sd_ok sd" and "fs_listen gpu status pcd err sd = Inr (sd', out)"
  shows "(alone gpu err)\<^sup>*\<^sup>* (listen_recv status pcd, sd) (Idle, sd')"
proof -
  consider (add) "0 < status" "pcd_action pcd = ADD_Q" | (rem) "0 < status" "pcd_action pcd = REM_Q"
    | (other) "listen_recv status pcd = Idle"
    by (cases "0 < status"; cases "pcd_action pcd = ADD_Q"; cases "pcd_action pcd = REM_Q")
      (auto simp: listen_recv_def)
  then show ?thesis
  proof cases
    case add
    note c = checking_alone [OF assms(1), of gpu err pcd]
    show ?thesis
    proof (cases "already_added pcd sd")
      case True
      then show ?thesis using add assms(2) c by (simp add: listen_recv_def fs_listen_def pcd_actions)
    next
      case False
      have 1: "listen_next gpu err (Asking pcd) sd = Inr (if err = 0 then Adding (fs_reg_of pcd) 0 else Idle, sd)"
        by (simp add: listen_next_def)
      have "(alone gpu err)\<^sup>*\<^sup>* (if err = 0 then Adding (fs_reg_of pcd) 0 else Idle, sd) (Idle, sd')"
      proof (cases "err = 0")
        case True
        then have "fs_register_process (fs_reg_of pcd) sd = Inr sd'"
          using add False assms(2) by (auto simp: fs_listen_def fs_reg_of_def bindr_eq_Inr_iff)
        from registering_alone [OF assms(1) this] show ?thesis using True by simp
      next
        case e: False
        then show ?thesis using add False assms(2) by (simp add: fs_listen_def)
      qed
      from alone_step [OF 1 this] have "(alone gpu err)\<^sup>*\<^sup>* (Asking pcd, sd) (Idle, sd')" .
      then show ?thesis using add False c by (auto simp: listen_recv_def intro: rtranclp_trans)
    qed
  next
    case rem
    then show ?thesis using assms removing_alone [OF assms(1)]
      by (auto simp: listen_recv_def fs_listen_def bindr_eq_Inr_iff pcd_actions)
  next
    case other
    then show ?thesis using assms(2)
      by (auto simp: listen_recv_def fs_listen_def split: if_splits)
  qed
qed

section \<open>Together\<close>

lemma apart_update:
  assumes "apart ls" and "\<And>h p. h < length ls \<Longrightarrow> h \<noteq> g \<Longrightarrow> of_process l = Some p \<Longrightarrow> of_process (ls ! h) \<noteq> Some p"
  shows "apart (ls[g := l])"
  unfolding apart_def
proof (intro allI impI)
  fix a b assume h: "a < length (ls[g := l])" "b < length (ls[g := l])" "a \<noteq> b" "of_process (ls[g := l] ! a) \<noteq> None"
  then obtain p where p: "of_process (ls[g := l] ! a) = Some p" by auto
  have "of_process (ls[g := l] ! b) \<noteq> Some p"
  proof
    assume q: "of_process (ls[g := l] ! b) = Some p"
    consider "a = g" "b \<noteq> g" | "b = g" "a \<noteq> g" | "a \<noteq> g" "b \<noteq> g" using h(3) by blast
    then show False
      using h p q assms(2) [of b p] assms(2) [of a p] apartD [OF assms(1), of a b p] by cases auto
  qed
  then show "of_process (ls[g := l] ! a) \<noteq> of_process (ls[g := l] ! b)" using p by simp
qed

lemma ft_run_alone:
  assumes "(alone (int g) err)\<^sup>*\<^sup>* (ft_ls s ! g, ft_sd s) y" and "ft_inv n d s" and "g < n"
  shows "ft_run d s (s\<lparr>ft_sd := snd y, ft_ls := (ft_ls s)[g := fst y]\<rparr>)"
  using assms(1)
proof (induction rule: rtranclp_induct)
  case base
  then show ?case by (simp add: ft_none)
next
  case (step y z)
  let ?s = "\<lambda>y. s\<lparr>ft_sd := snd y, ft_ls := (ft_ls s)[g := fst y]\<rparr>"
  have inv: "ft_inv n d (?s y)" by (rule ft_run_inv [OF step.IH assms(2)])
  have l: "length (ft_ls s) = n" using assms(2) by (simp add: ft_inv_def)
  have "\<forall>h < n. index_ok ((ft_ls s)[g := fst y] ! h)" using inv by (simp add: ft_inv_def)
  from this [rule_format, OF assms(3)] have i: "sd_ok (snd y)" "index_ok (fst y)" using inv assms(3) l by (simp_all add: ft_inv_def)
  have nx: "listen_next (int g) err (fst y) (snd y) = Inr z" using step(2) by (simp add: alone_def)
  have sv: "of_process (fst z) = None \<or> of_process (fst z) = of_process (fst y)"
    using listen_next_pids [OF i, of "int g" err] nx by auto
  have st: "ft_step (F_listen g err) (?s y) (?s z)"
    using f_listen [of g "?s y" err "fst z" "snd z"] nx assms(3) l by simp
  have "apart ((ft_ls s)[g := fst z])" if d: d
  proof -
    have a: "apart ((ft_ls s)[g := fst y])" using inv d by (simp add: ft_inv_def)
    have "of_process ((ft_ls s)[g := fst y] ! h) \<noteq> Some p"
      if "h < length ((ft_ls s)[g := fst y])" "h \<noteq> g" "of_process (fst z) = Some p" for h p
      using sv assms(3) l apartD [OF a, of g h p] that by auto
    then have "apart (((ft_ls s)[g := fst y])[g := fst z])" by (rule apart_update [OF a])
    then show ?thesis by simp
  qed
  then show ?case using ft_more [OF step.IH st] by simp
qed

lemma ft_run_recv:
  assumes "g < length (ft_ls s)" and "ft_ls s ! g = Idle" and "0 < pcd_pid pcd" and "apart (ft_ls s)"
    and "\<forall>h < length (ft_ls s). h \<noteq> g \<longrightarrow> of_process (ft_ls s ! h) \<noteq> Some (pcd_pid pcd)"
  shows "ft_run d s (s\<lparr>ft_ls := (ft_ls s)[g := listen_recv status pcd]\<rparr>)"
proof -
  have "of_process (listen_recv status pcd) = None \<or> of_process (listen_recv status pcd) = Some (pcd_pid pcd)"
    by (simp add: listen_recv_def of_process_def)
  then have "apart ((ft_ls s)[g := listen_recv status pcd])"
    using assms(4,5) by (intro apart_update) auto
  then show ?thesis using ft_more [OF ft_none f_recv [OF assms(1-3)], of d] by simp
qed

text \<open>The writes of a control thread between two accesses of the listeners.\<close>

lemma ft_run_control: "ctl_writes sd sd' \<Longrightarrow> ft_sd s = sd \<Longrightarrow> d \<longrightarrow> apart (ft_ls s) \<Longrightarrow> ft_run d s (s\<lparr>ft_sd := sd'\<rparr>)"
proof (induction rule: ctl_writes.induct)
  case (cw_none sd)
  then have "s\<lparr>ft_sd := sd\<rparr> = s" by simp
  then show ?case using ft_run.ft_none [of d s] by simp
next
  case (cw_more sd sd' w sd'')
  then show ?case
    using ft_more [OF cw_more.IH [OF cw_more.prems] f_ctl [of w "s\<lparr>ft_sd := sd'\<rparr>" sd'']] by simp
qed

text \<open>C17. The table of the fair-share scheduler is consistent at any time, although the listeners do not
  lock it and the control threads write to it in between: whatever the order of the single
  accesses, there are 500 slots and the counter is within them, and no process is in the table
  twice, provided that no two listeners have handled requests of the same process at once. No
  access of a listener leaves the table. Nor does an iteration of a control thread, which writes
  penalties, states, slices and execution times only, except that the state of slot \<open>i\<close>, which is
  never initialised, is set after a signal that tells of paging.\<close>

theorem fs_table_consistent:
  assumes "ft_reach n d s"
  shows "sd_ok (ft_sd s) \<and> (d \<longrightarrow> distinct_pids (ft_sd s))
    \<and> (\<forall>g < n. \<exists>l sd. listen_next (int g) err (ft_ls s ! g) (ft_sd s) = Inr (l, sd))
    \<and> (\<forall>st thid. fs_data st = ft_sd s \<and> unat thid < MAX_CONTROLLER_COUNT \<longrightarrow>
         ctl_within (ft_sd s) (sig = Some (SIGRTMAX - 2) \<and> MAX_CONTROLLER_COUNT \<le> unat i)
           (fs_control gpu share_unit i sig tp tp1 thid st))"
proof -
  have inv: "ft_inv n d s" by (rule ft_reach_inv [OF assms])
  then have ok: "sd_ok (ft_sd s)" and ix: "\<And>g. g < n \<Longrightarrow> index_ok (ft_ls s ! g)" by (simp_all add: ft_inv_def)
  have "\<exists>l sd. listen_next (int g) err (ft_ls s ! g) (ft_sd s) = Inr (l, sd)" if "g < n" for g
    using listen_next_pids [OF ok ix [OF that]] by blast
  moreover have "ctl_within (ft_sd s) (sig = Some (SIGRTMAX - 2) \<and> MAX_CONTROLLER_COUNT \<le> unat i)
      (fs_control gpu share_unit i sig tp tp1 thid st)"
    if "fs_data st = ft_sd s" "unat thid < MAX_CONTROLLER_COUNT" for st thid
    using fs_control_within [of st thid] ok that by simp
  ultimately show ?thesis using inv ok by (simp add: ft_inv_def)
qed

text \<open>Two listeners that register at the same time, and the slot they write.\<close>

lemma mixed_writes:
  "fold (reg_write r) [1..<7] (fold (reg_write q) [0..<7] (reg_write r 0 s)) = s\<lparr>sl_process := fr_pid q,
    sl_share_unit := word_of_int (fr_share r), sl_signal_num := fr_signum r, sl_state := PROC_ACTIVE,
    sl_app_type := fr_app_type r, sl_penalty := 0, sl_gpu := fr_gpuid r\<rparr>"
  unfolding reg_writes by (simp add: reg_write_def upt_rec)

text \<open>C13. Registration is not locked. Whenever the listeners of both GPUs have been told to register a
  process, the two can end up in one slot: the first process is lost although its listener has
  registered it, and the second is scheduled on the GPU and with the share of the first.\<close>

theorem fs_registrations_race:
  assumes "ft_reach 2 True s" and "ft_ls s = [Adding r 0, Adding q 0]"
  shows "\<exists>s'. ft_run True s s' \<and> ft_ls s' = [Idle, Idle]
    \<and> sd_count (ft_sd s') = next_slot (sd_count (ft_sd s)) \<and> fr_pid r \<notin> set (pids (ft_sd s'))
    \<and> (\<exists>x. sd_slots (ft_sd s') = (sd_slots (ft_sd s))[unat (sd_count (ft_sd s)) := x]
         \<and> sl_process x = fr_pid q \<and> sl_share_unit x = word_of_int (fr_share r)
         \<and> sl_gpu x = fr_gpuid r \<and> sl_state x = PROC_ACTIVE)"
proof -
  have inv: "ft_inv 2 True s" by (rule ft_reach_inv [OF assms(1)])
  let ?c = "unat (sd_count (ft_sd s))" let ?x = "sd_slots (ft_sd s) ! ?c"
  let ?u = "\<lambda>x. (ft_sd s)\<lparr>sd_slots := (sd_slots (ft_sd s))[?c := x]\<rparr>"
  let ?s = "\<lambda>a b sd. s\<lparr>ft_sd := sd, ft_ls := [a, b]\<rparr>"
  have c: "?c < length (sd_slots (ft_sd s))" and ok: "sd_ok (ft_sd s)"
    using inv by (simp_all add: ft_inv_def sd_ok_def)
  have oku: "sd_ok (?u x)" for x using ok by (simp add: sd_ok_def)
  have pq: "fr_pid r \<notin> set (pids (ft_sd s))" "fr_pid r \<noteq> fr_pid q"
  proof -
    have "fresh (ft_ls s ! 0) (pids (ft_sd s))" "apart (ft_ls s)" using inv by (simp_all add: ft_inv_def)
    then show "fr_pid r \<notin> set (pids (ft_sd s))" "fr_pid r \<noteq> fr_pid q"
      using assms(2) apartD [of "ft_ls s" 0 1 "fr_pid r"] by (auto simp: fresh_def of_process_def)
  qed
  define x1 x2 x3 where "x1 = reg_write r 0 ?x" and "x2 = fold (reg_write q) [0..<7] x1"
    and "x3 = fold (reg_write r) [1..<7] x2"
  let ?e = "?u x3\<lparr>sd_count := next_slot (sd_count (ft_sd s))\<rparr>"
  have run: "ft_run True s (?s a' b sd')" if "ft_run True s (?s a b sd)" "(alone 0 0)\<^sup>*\<^sup>* (a, sd) (a', sd')" for a b sd a' sd'
    using ft_run_trans [OF ft_run_alone [of 0 0 "?s a b sd" "(a', sd')", OF _ ft_run_inv [OF that(1) inv]] that(1)]
      that(2) by simp
  have run': "ft_run True s (?s a b' sd')" if "ft_run True s (?s a b sd)" "(alone 1 0)\<^sup>*\<^sup>* (b, sd) (b', sd')" for a b sd b' sd'
    using ft_run_trans [OF ft_run_alone [of 1 0 "?s a b sd" "(b', sd')", OF _ ft_run_inv [OF that(1) inv]] that(1)]
      that(2) by simp
  have "ft_run True s (?s (Adding r 0) (Adding q 0) (ft_sd s))"
    using ft_none [of True s] by (simp add: assms(2) [symmetric])
  from run [OF this, of "Adding r 1" "?u x1"]
  have "ft_run True s (?s (Adding r 1) (Adding q 0) (?u x1))"
    using adding_alone [OF ok, of 1 0 0 0 r] by (simp add: x1_def)
  from run' [OF this, of "Adding q 7" "?u x2"]
  have "ft_run True s (?s (Adding r 1) (Adding q 7) (?u x2))"
    using adding_alone [OF oku, of 7 0 1 0 q x1] c by (simp add: x2_def)
  from run [OF this, of "Adding r 7" "?u x3"]
  have "ft_run True s (?s (Adding r 7) (Adding q 7) (?u x3))"
    using adding_alone [OF oku, of 7 1 0 0 r x2] c by (simp add: x3_def)
  from run [OF this, of "Counting r (sd_count (ft_sd s))" "?u x3"]
  have "ft_run True s (?s (Counting r (sd_count (ft_sd s))) (Adding q 7) (?u x3))"
    by (simp add: alone_one listen_next_def)
  from run' [OF this, of "Counting q (sd_count (ft_sd s))" "?u x3"]
  have "ft_run True s (?s (Counting r (sd_count (ft_sd s))) (Counting q (sd_count (ft_sd s))) (?u x3))"
    by (simp add: alone_one listen_next_def)
  from run [OF this, of Idle ?e]
  have "ft_run True s (?s Idle (Counting q (sd_count (ft_sd s))) ?e)"
    by (simp add: alone_one listen_next_def)
  from run' [OF this, of Idle ?e]
  have fin: "ft_run True s (?s Idle Idle ?e)" by (simp add: alone_one listen_next_def)
  have x3: "sl_process x3 = fr_pid q \<and> sl_share_unit x3 = word_of_int (fr_share r)
      \<and> sl_gpu x3 = fr_gpuid r \<and> sl_state x3 = PROC_ACTIVE"
    unfolding x3_def x2_def x1_def mixed_writes by simp
  moreover have "fr_pid r \<notin> set (pids ?e)"
    using pq x3 notin_update [OF pq(1,2)] by (simp add: pids_def map_update)
  ultimately show ?thesis using fin by (intro exI [of _ "?s Idle Idle ?e"]) auto
qed

section \<open>A concrete run\<close>

text \<open>The listeners of two GPUs start; processes 7 and 8 ask for shares of 20 and 30 on GPUs 0 and 1
  and are both told to be registered.\<close>

definition demo_pcd8 :: process_credit_data where
  "demo_pcd8 = (demo_pcd ADD_Q 8)\<lparr>pcd_share_unit := 30, pcd_gpuid := 1\<rparr>"

definition demo_both :: fs_threads_state where
  "demo_both = \<lparr>ft_sd = fs_listen_init Scheduler_Data0,
     ft_ls = [Adding (fs_reg_of (demo_pcd ADD_Q 7)) 0, Adding (fs_reg_of demo_pcd8) 0]\<rparr>"

lemma demo_both_reached: "ft_reach 2 True demo_both"
proof -
  let ?i = "fs_listen_init Scheduler_Data0" and ?p = "demo_pcd ADD_Q 7" and ?q = demo_pcd8
  let ?s = "\<lambda>a b sd. \<lparr>ft_sd = sd, ft_ls = [a, b]\<rparr>"
  have ok: "sd_ok Scheduler_Data0" using table_inv_zero by (simp add: table_inv_def)
  then have oki: "sd_ok ?i" by (simp add: sd_ok_def fs_listen_init_def)
  have ii: "fs_listen_init ?i = ?i" by (simp add: fs_listen_init_def)
  have new: "\<not> already_added ?p ?i" "\<not> already_added ?q ?i"
    by (auto simp: already_added_def fs_listen_init_def Scheduler_Data0_def zero_slot_def demo_pcd_def demo_pcd8_def)
  have run: "ft_reach 2 True (?s a' b sd')" if "ft_reach 2 True (?s a b sd)" "(alone 0 0)\<^sup>*\<^sup>* (a, sd) (a', sd')"
    for a b sd a' sd'
    using ft_reach_run [OF that(1) ft_run_alone [of 0 0 "?s a b sd" "(a', sd')", OF _ ft_reach_inv [OF that(1)]]]
      that(2) by simp
  have run': "ft_reach 2 True (?s a b' sd')" if "ft_reach 2 True (?s a b sd)" "(alone 1 0)\<^sup>*\<^sup>* (b, sd) (b', sd')"
    for a b sd b' sd'
    using ft_reach_run [OF that(1) ft_run_alone [of 1 0 "?s a b sd" "(b', sd')", OF _ ft_reach_inv [OF that(1)]]]
      that(2) by simp
  have ask: "(alone g 0)\<^sup>*\<^sup>* (listen_recv 1 x, ?i) (Adding (fs_reg_of x) 0, ?i)"
    if "\<not> already_added x ?i" "pcd_action x = ADD_Q" for g x
    using checking_alone [OF oki, of g 0 x] alone_one [of g 0 "Asking x" ?i "(Adding (fs_reg_of x) 0, ?i)"] that
    by (auto simp: listen_recv_def listen_next_def intro: rtranclp_trans)
  have "ft_reach 2 True (?s (Starting 0) (Starting 0) Scheduler_Data0)"
    using ft_none [of True "ft_start 2"] by (simp add: ft_reach_def ft_start_def numeral_2_eq_2)
  from run' [OF run [OF this starting_alone [OF ok]] starting_alone [OF oki]]
  have 1: "ft_reach 2 True (?s Idle Idle ?i)" by (simp add: ii)
  have "ft_reach 2 True (?s (listen_recv 1 ?p) Idle ?i)"
    using ft_reach_run [OF 1 ft_run_recv [of 0 "?s Idle Idle ?i" ?p True 1]]
    by (auto simp: demo_pcd_def apart_def of_process_def less_Suc_eq)
  from run [OF this ask [OF new(1)]]
  have 2: "ft_reach 2 True (?s (Adding (fs_reg_of ?p) 0) Idle ?i)" by (simp add: demo_pcd_def)
  have "ft_reach 2 True (?s (Adding (fs_reg_of ?p) 0) (listen_recv 1 ?q) ?i)"
    using ft_reach_run [OF 2 ft_run_recv [of 1 "?s (Adding (fs_reg_of ?p) 0) Idle ?i" ?q True 1]]
    by (auto simp: demo_pcd_def demo_pcd8_def fs_reg_of_def apart_def of_process_def less_Suc_eq)
  from run' [OF this ask [OF new(2)]] show ?thesis
    by (simp add: demo_both_def demo_pcd8_def demo_pcd_def)
qed

text \<open>The first listener runs alone from there: process 7 is in the table, and an iteration of the
  control thread stays in it.\<close>

theorem fs_table_consistent_witness:
  "\<exists>s. ft_reach 2 True s \<and> 7 \<in> set (pids (ft_sd s)) \<and> distinct_pids (ft_sd s)
     \<and> ctl_within (ft_sd s) False (fs_control 0 5 0 (Some 34) \<lparr>tv_sec = 1, tv_usec = 0\<rparr>
          \<lparr>tv_sec = 2, tv_usec = 0\<rparr> 0 \<lparr>fs_data = ft_sd s, fs_locked = False, fs_sent = []\<rparr>)"
proof -
  note inv = ft_reach_inv [OF demo_both_reached]
  then have ok: "sd_ok (ft_sd demo_both)" by (simp add: ft_inv_def)
  obtain sd where sd: "fs_register_process (fs_reg_of (demo_pcd ADD_Q 7)) (ft_sd demo_both) = Inr sd"
    "pids sd = (pids (ft_sd demo_both))[unat (sd_count (ft_sd demo_both)) := 7]"
    using fs_table.register_ok [OF ok, of "fs_reg_of (demo_pcd ADD_Q 7)"] by (auto simp: fs_reg_of_def demo_pcd_def)
  have l: "ft_ls demo_both ! 0 = Adding (fs_reg_of (demo_pcd ADD_Q 7)) 0" by (simp add: demo_both_def)
  let ?s = "demo_both\<lparr>ft_sd := sd, ft_ls := (ft_ls demo_both)[0 := Idle]\<rparr>"
  have r: "ft_reach 2 True ?s"
    using ft_reach_run [OF demo_both_reached ft_run_alone [of 0 0 demo_both "(Idle, sd)", OF _ inv]]
      registering_alone [OF ok sd(1), of 0 0] l by simp
  have "7 \<in> set (pids sd)"
    using sd(2) sd_okD [OF ok] by (simp add: pids_def set_update_memI)
  moreover have "SIGRTMAX - 2 \<noteq> 34" "unat (0 :: u32) < MAX_CONTROLLER_COUNT"
    by (simp_all add: SIGRTMAX_def MAX_CONTROLLER_COUNT_def)
  ultimately show ?thesis
    using r fs_table_consistent [OF r, of 0 "Some 34" 0 0 5 "\<lparr>tv_sec = 1, tv_usec = 0\<rparr>" "\<lparr>tv_sec = 2, tv_usec = 0\<rparr>"]
    by (intro exI [of _ ?s]) auto
qed

theorem fs_registrations_race_witness:
  "\<exists>s'. ft_run True demo_both s' \<and> ft_ls s' = [Idle, Idle] \<and> 7 \<notin> set (pids (ft_sd s'))
     \<and> (\<exists>x. sd_slots (ft_sd s') = (sd_slots (ft_sd demo_both))[0 := x]
          \<and> sl_process x = 8 \<and> sl_share_unit x = 20 \<and> sl_gpu x = 0)"
proof -
  have "sint (ucast (20 :: u64) :: u32) = 20" by simp
  moreover have "ft_ls demo_both = [Adding (fs_reg_of (demo_pcd ADD_Q 7)) 0, Adding (fs_reg_of demo_pcd8) 0]"
    "sd_count (ft_sd demo_both) = 0"
    by (simp_all add: demo_both_def fs_listen_init_def Scheduler_Data0_def)
  ultimately show ?thesis
    using fs_registrations_race [OF demo_both_reached, of "fs_reg_of (demo_pcd ADD_Q 7)" "fs_reg_of demo_pcd8"]
    by (auto simp: fs_reg_of_def demo_pcd_def demo_pcd8_def)
qed

end
