(* ===== verification/Gs_Sessions.thy ===== *)
theory Gs_Sessions
  imports Backend_Conn
begin

text \<open>
  The global scheduler with all its clients (\<open>backend_thread\<close> of \<open>Global_Sched/global_sched.c\<close>): it
  accepts connections for ever and starts a thread for each, which serves the requests of the
  connection. The threads share the global variables and run in any interleaving; the mutex
  makes the choice of a device one step, and the number of devices, which is written outside of
  it, is the same in the requests of all clients.
\<close>

section \<open>The other handlers leave the devices alone\<close>

definition same_devices :: "'g backend_st \<Rightarrow> 'g handled \<Rightarrow> bool" where
  "same_devices st res \<longleftrightarrow> (\<forall>r p sc st'. res = Inr (r, p, sc, st') \<longrightarrow>
     bs_dev st' = bs_dev st \<and> bs_assigned st' = bs_assigned st)"

lemma same_devices_simps [simp]:
  "same_devices st (Inl f)"
  "same_devices st (Inr (r, p, sc, st')) \<longleftrightarrow> bs_dev st' = bs_dev st \<and> bs_assigned st' = bs_assigned st"
  "same_devices st (reply p sc st') \<longleftrightarrow> bs_dev st' = bs_dev st \<and> bs_assigned st' = bs_assigned st"
  by (simp_all add: same_devices_def reply_def)

lemma same_devices_bindr [intro!]:
  "(\<And>x. r = Inr x \<Longrightarrow> same_devices st (k x)) \<Longrightarrow> same_devices st (bindr r k)"
  by (cases r) simp_all

lemma same_devices_kept:
  "same_devices st' res \<Longrightarrow> bs_dev st' = bs_dev st \<Longrightarrow> bs_assigned st' = bs_assigned st \<Longrightarrow> same_devices st res"
  by (simp add: same_devices_def)

lemma local_set_devices [simp]:
  "local_set st i x = Inr st' \<Longrightarrow> bs_dev st' = bs_dev st" "local_set st i x = Inr st' \<Longrightarrow> bs_assigned st' = bs_assigned st"
  by (auto simp: local_set_def bindr_eq_Inr_iff split: if_splits)

lemma fcia_update_devices [simp]:
  "fcia_update st h f = Inr st' \<Longrightarrow> bs_dev st' = bs_dev st" "fcia_update st h f = Inr st' \<Longrightarrow> bs_assigned st' = bs_assigned st"
  by (auto simp: fcia_update_def bindr_eq_Inr_iff split: if_splits option.splits prod.splits)

lemmas memory_handlers = nvbackCudaMalloc_srv_def nvbackCudaFree_srv_def nvbackCudaMemcpy_srv_def vmem_copy_def
  nvbackCudaMemcpyToSymbol_srv_def nvbackCudaMemcpyFromSymbol_srv_def

lemmas kernel_handlers = nvbackCudaSetupArgument_srv_def nvbackCudaConfigureCall_srv_def nvbackCudaLaunch_srv_def
  launch_registered_def

lemmas device_handlers = nvbackCudaGetDeviceCount_srv_def nvbackCudaGetDeviceProperties_srv_def
  nvbackCudaSetDevice_srv_def nvbackCudaThreadSynchronize_srv_def nvbackCudaThreadExit_srv_def

lemmas register_handlers = nvback_cudaRegisterFatBinary2_srv_def nvback_cudaRegisterFunction_srv_def
  nvback_cudaRegisterVar_srv_def nvback_cudaUnregisterFatBinary_srv_def

lemma same_devices_handlers:
  "same_devices st (nvbackCudaMalloc_srv env p sc st)" "same_devices st (nvbackCudaFree_srv env p sc st)"
  "same_devices st (nvbackCudaMemcpy_srv env p sc st)" "same_devices st (nvbackCudaMemcpyToSymbol_srv env p sc st)"
  "same_devices st (nvbackCudaMemcpyFromSymbol_srv env p sc st)"
  by (auto simp: memory_handlers Let_def split: option.split prod.split)

lemma same_devices_kernels:
  "same_devices st (nvbackCudaSetupArgument_srv env p sc st)" "same_devices st (nvbackCudaConfigureCall_srv env p sc st)"
  "same_devices st (nvbackCudaLaunch_srv env p sc st)"
  by (auto simp: kernel_handlers Let_def split: option.split prod.split)

lemma same_devices_device:
  "same_devices st (nvbackCudaGetDeviceCount_srv env p sc st)" "same_devices st (nvbackCudaGetDeviceProperties_srv env p sc st)"
  "same_devices st (nvbackCudaSetDevice_srv env p sc st)" "same_devices st (nvbackCudaThreadSynchronize_srv env p sc st)"
  "same_devices st (nvbackCudaThreadExit_srv env p sc st)"
  by (auto simp: device_handlers Let_def split: option.split prod.split)

lemma same_devices_register:
  "same_devices st (nvback_cudaRegisterFatBinary2_srv env p sc st)" "same_devices st (nvback_cudaRegisterFunction_srv env p sc st)"
  "same_devices st (nvback_cudaRegisterVar_srv env p sc st)" "same_devices st (nvback_cudaUnregisterFatBinary_srv env p sc st)"
  by (auto simp: register_handlers Let_def split: option.split prod.split)

lemma same_devices_handler: "h \<noteq> H_GetDevice \<Longrightarrow> same_devices st (srv_handler env h p sc st)"
  by (cases h) (simp_all add: srv_handler_def same_devices_handlers same_devices_kernels
    same_devices_device same_devices_register)

lemma srv_handler_devices:
  "srv_handler env h p sc st = Inr (r, p', sc', st') \<Longrightarrow> h \<noteq> H_GetDevice \<Longrightarrow>
     bs_dev st' = bs_dev st \<and> bs_assigned st' = bs_assigned st"
  using same_devices_handler [of h st env p sc] by (simp add: same_devices_def)

lemma pkt_handler_get_device: "pkt_handler w = Some H_GetDevice \<longleftrightarrow> w = method_num CUDA_GET_DEVICE"
  unfolding method_of_iff [symmetric] by (auto simp: pkt_handler_def split: option.splits method_id.splits)

section \<open>Sessions\<close>

text \<open>
  The global variables, and for each thread that still runs its \<open>DEVICE_ASSIGNED\<close>, its
  \<open>application_type\<close> and its connection; \<open>bs_assigned\<close> of the state is that of the thread that
  runs.
\<close>

record 'g gs_sys =
  gy_state :: "'g backend_st"
  gy_session :: "nat \<Rightarrow> (int option \<times> int \<times> sock) option"

text \<open>\<open>conn_malloc\<close>, \<open>conn_accept\<close> and \<open>pthread_create\<close> of one round of \<open>backend_thread\<close>.\<close>

definition gs_accept :: "nat \<Rightarrow> sock \<Rightarrow> 'g gs_sys \<Rightarrow> 'g gs_sys" where
  "gs_accept i s sys = sys\<lparr>gy_session := (gy_session sys)(i \<mapsto> (None, -1, s))\<rparr>"

text \<open>One round of the loop of thread \<open>i\<close>, or, when it leaves the loop, the rest of \<open>handle_req\<close>.\<close>

definition gs_turn :: "xfer \<Rightarrow> xfer \<Rightarrow> int \<Rightarrow> (nat \<Rightarrow> bool) \<Rightarrow> 'g srv_env \<Rightarrow> nat \<Rightarrow> 'g gs_sys \<Rightarrow> 'g gs_sys cres" where
  "gs_turn sndf rcv fd mok env i sys = (case gy_session sys i of None \<Rightarrow> Inr sys
     | Some (asg, app, s) \<Rightarrow>
         bindr (gs_serve sndf rcv fd mok (srv_handlers env) ((gy_state sys)\<lparr>bs_assigned := asg\<rparr>, app) s)
           (\<lambda>(go, (st, app), s).
             if go then Inr (sys\<lparr>gy_state := st, gy_session := (gy_session sys)(i \<mapsto> (bs_assigned st, app, s))\<rparr>)
             else bindr (dec_thread_count_per_device (bs_assigned st) (bs_dev st)) (\<lambda>b.
               Inr (sys\<lparr>gy_state := st\<lparr>bs_dev := b\<rparr>, gy_session := (gy_session sys)(i := None)\<rparr>))))"

text \<open>The request thread \<open>i\<close> finds, and the answer when it asks for a device.\<close>

definition gs_request :: "xfer \<Rightarrow> int \<Rightarrow> (nat \<Rightarrow> bool) \<Rightarrow> sock \<Rightarrow> (cuda_packet \<times> srv_conn) option" where
  "gs_request rcv fd mok s = (case backend_receive rcv fd mok s of
     Inr (Some (Some (strm, sc)), s') \<Rightarrow> (case st_rpkts strm of [] \<Rightarrow> None | p # ps \<Rightarrow> Some (p, sc)) | _ \<Rightarrow> None)"

definition gs_answer :: "'g srv_env \<Rightarrow> (cuda_packet \<times> srv_conn) option \<Rightarrow> 'g backend_st \<Rightarrow> int list" where
  "gs_answer env req st = (case req of None \<Rightarrow> []
     | Some (p, sc) \<Rightarrow> if pk_method_id p \<noteq> method_num CUDA_GET_DEVICE then []
         else (case pkt_execute (srv_handlers env) p (sc, st) of Inl f \<Rightarrow> []
           | Inr (p', r) \<Rightarrow> [argn (pk_arg0 p')]))"

definition names_devices :: "int \<Rightarrow> (cuda_packet \<times> srv_conn) option \<Rightarrow> bool" where
  "names_devices n req \<longleftrightarrow> (\<forall>p sc. req = Some (p, sc) \<and> pk_method_id p = method_num CUDA_GET_DEVICE \<longrightarrow>
     argn (pk_arg0 p) = n)"

text \<open>
  The system from a state with no session: connections come and threads run in any order. The
  list has the devices that were given, in the order of the answers; \<open>n\<close> is the number of
  devices that every client names.
\<close>

inductive gs_runs :: "xfer \<Rightarrow> xfer \<Rightarrow> int \<Rightarrow> (nat \<Rightarrow> bool) \<Rightarrow> 'g srv_env \<Rightarrow> int \<Rightarrow> 'g backend_st
    \<Rightarrow> int list \<Rightarrow> 'g gs_sys \<Rightarrow> bool" for sndf rcv fd mok env n st0 where
  gs_start: "gs_runs sndf rcv fd mok env n st0 [] \<lparr>gy_state = st0, gy_session = \<lambda>_. None\<rparr>"
| gs_new: "gs_runs sndf rcv fd mok env n st0 ds sys \<Longrightarrow> gy_session sys i = None \<Longrightarrow>
     gs_runs sndf rcv fd mok env n st0 ds (gs_accept i s sys)"
| gs_go: "gs_runs sndf rcv fd mok env n st0 ds sys \<Longrightarrow> gy_session sys i = Some (asg, app, s) \<Longrightarrow>
     names_devices n (gs_request rcv fd mok s) \<Longrightarrow>
     gs_turn sndf rcv fd mok env i sys = Inr sys' \<Longrightarrow>
     gs_runs sndf rcv fd mok env n st0
       (ds @ gs_answer env (gs_request rcv fd mok s) ((gy_state sys)\<lparr>bs_assigned := asg\<rparr>)) sys'"

section \<open>Devices in turn\<close>

text \<open>What a served request does to the devices.\<close>

lemma gs_serve_devices:
  assumes "gs_serve sndf rcv fd mok (srv_handlers env) (st, app) s = Inr (go, (st', app'), s')"
    and "names_devices n (gs_request rcv fd mok s)"
    and "db_rr (bs_dev st) = int d" "int d < n" "n < 2 ^ 31"
  shows "(bs_dev st' = bs_dev st \<and> gs_answer env (gs_request rcv fd mok s) st = [])
    \<or> (bs_dev st' = (bs_dev st)\<lparr>db_devices := n, db_rr := (int d + 1) mod n\<rparr>
        \<and> gs_answer env (gs_request rcv fd mok s) st = [int d])"
proof -
  obtain req s1 where r: "backend_receive rcv fd mok s = Inr (req, s1)"
    using assms(1) by (auto simp: gs_serve_def bindr_eq_Inr_iff)
  show ?thesis
  proof (cases "\<exists>strm sc. req = Some (Some (strm, sc))")
    case False
    then have "st' = st" "gs_request rcv fd mok s = None"
      using assms(1) r by (auto simp: gs_serve_def gs_request_def split: option.splits)
    then show ?thesis by (simp add: gs_answer_def)
  next
    case True
    then obtain strm sc where q: "req = Some (Some (strm, sc))" by blast
    obtain p p' sc' where x: "nthr (st_rpkts strm) 0 = Inr p"
      "pkt_execute (srv_handlers env) p (sc, st) = Inr (p', sc', st')"
      using assms(1) r q by (auto simp: gs_serve_def bindr_eq_Inr_iff Let_def)
    have g: "gs_request rcv fd mok s = Some (p, sc)"
      using r q x(1) by (auto simp: gs_request_def nthr_def split: if_splits list.splits)
    show ?thesis
    proof (cases "pk_method_id p = method_num CUDA_GET_DEVICE")
      case False
      then have "bs_dev st' = bs_dev st"
        using x(2) srv_handler_devices pkt_handler_get_device
        by (fastforce simp: pkt_execute_def srv_handlers_def bindr_eq_Inr_iff split: option.splits)
      then show ?thesis using False g by (simp add: gs_answer_def)
    next
      case True
      then have n: "argn (pk_arg0 p) = n" using assms(2) g by (simp add: names_devices_def)
      have m: "(int d + 1) smod n = (int d + 1) mod n" using assms(4) by (intro smod_mod_positive) simp_all
      have a: "argn (set_argi (int d) y) = int d" for y
        using assms(4,5) by (intro argn_of_nat(1)) (simp_all add: set_argi_def)
      have h: "srv_handler env H_GetDevice p sc st = Inr (r', p', sc', st') \<Longrightarrow> argn (pk_arg0 p') = int d
          \<and> bs_dev st' = (bs_dev st)\<lparr>db_devices := n, db_rr := (int d + 1) mod n\<rparr>" for r'
        using n assms(3,4) m a by (auto simp: srv_handler_def nvbackCudaGetDevice_srv_def Let_def
            get_next_device_RR_def reply_def set_err_def split: if_splits)
      have "pkt_handler (pk_method_id p) = Some H_GetDevice" using True pkt_handler_get_device by blast
      then have "argn (pk_arg0 p') = int d \<and> bs_dev st' = (bs_dev st)\<lparr>db_devices := n, db_rr := (int d + 1) mod n\<rparr>"
        using x(2) h by (auto simp: pkt_execute_def srv_handlers_def bindr_eq_Inr_iff)
      then show ?thesis using True g x(2) by (simp add: gs_answer_def)
    qed
  qed
qed

text \<open>The counts of threads are only taken down.\<close>

definition threads_below :: "dev_bal \<Rightarrow> dev_bal \<Rightarrow> bool" where
  "threads_below b b0 \<longleftrightarrow> length (db_threads b) = length (db_threads b0)
     \<and> (\<forall>d < length (db_threads b0). db_threads b ! d \<le> db_threads b0 ! d)"

lemma threads_below_refl [simp]: "threads_below b b"
  by (simp add: threads_below_def)

lemma dec_thread_count_below:
  assumes "dec_thread_count_per_device a b = Inr b'" and "threads_below b b0"
  shows "threads_below b' b0 \<and> db_rr b' = db_rr b"
proof -
  obtain d where d: "a = Some d" "0 \<le> d" "nat d < length (db_threads b)"
    "b' = b\<lparr>db_threads := (db_threads b)[nat d := db_threads b ! nat d - 1]\<rparr>"
    using assms(1) by (auto simp: dec_thread_count_per_device_def bindr_eq_Inr_iff nthri_def nthr_def
        split: option.splits if_splits)
  have "(db_threads b)[nat d := db_threads b ! nat d - 1] ! k \<le> db_threads b ! k" if "k < length (db_threads b)" for k
    using that by (cases "k = nat d") simp_all
  then show ?thesis using assms(2) d by (fastforce simp: threads_below_def)
qed

lemma gs_turn_devices:
  assumes turn: "gs_turn sndf rcv fd mok env i sys = Inr sys'" "gy_session sys i = Some (asg, app, s)"
    and req: "names_devices n (gs_request rcv fd mok s)"
    and rr: "db_rr (bs_dev (gy_state sys)) = int d" "int d < n" "n < 2 ^ 31"
    and b: "threads_below (bs_dev (gy_state sys)) b0"
  shows "threads_below (bs_dev (gy_state sys')) b0 \<and>
    (let ds = gs_answer env (gs_request rcv fd mok s) ((gy_state sys)\<lparr>bs_assigned := asg\<rparr>) in
       ds = [] \<and> db_rr (bs_dev (gy_state sys')) = int d
       \<or> ds = [int d] \<and> db_rr (bs_dev (gy_state sys')) = (int d + 1) mod n)"
proof -
  let ?st = "(gy_state sys)\<lparr>bs_assigned := asg\<rparr>"
  obtain go st1 app1 s1 where v: "gs_serve sndf rcv fd mok (srv_handlers env) (?st, app) s = Inr (go, (st1, app1), s1)"
    using turn by (auto simp: gs_turn_def bindr_eq_Inr_iff)
  have k: "(bs_dev st1 = bs_dev (gy_state sys) \<and> gs_answer env (gs_request rcv fd mok s) ?st = [])
    \<or> (bs_dev st1 = (bs_dev (gy_state sys))\<lparr>db_devices := n, db_rr := (int d + 1) mod n\<rparr>
        \<and> gs_answer env (gs_request rcv fd mok s) ?st = [int d])"
    using gs_serve_devices [OF v req _ rr(2,3)] rr(1) by simp
  then have b1: "threads_below (bs_dev st1) b0" using b by (auto simp: threads_below_def)
  have "threads_below (bs_dev (gy_state sys')) b0 \<and> db_rr (bs_dev (gy_state sys')) = db_rr (bs_dev st1)"
  proof (cases go)
    case True
    then show ?thesis using turn v b1 by (auto simp: gs_turn_def)
  next
    case False
    then obtain b' where "dec_thread_count_per_device (bs_assigned st1) (bs_dev st1) = Inr b'"
      "gy_state sys' = st1\<lparr>bs_dev := b'\<rparr>"
      using turn v by (auto simp: gs_turn_def bindr_eq_Inr_iff)
    then show ?thesis using dec_thread_count_below [OF _ b1] by auto
  qed
  then show ?thesis using k rr(1) by (auto simp: Let_def)
qed

lemma map_mod_snoc:
  "0 \<le> r \<Longrightarrow> map (\<lambda>i. (r + int i) mod n) [0..<k] @ [(r + int k) mod n] = map (\<lambda>i. (r + int i) mod n) [0..<Suc k]"
  by simp

text \<open>C18. The global scheduler gives the devices out in turn over all its clients: however many
  applications are connected, whatever else they ask for and however their threads interleave,
  the answers to the questions for a device are, in the order in which they are given, the next
  device, the one after it, and so on around all devices. A count of threads, which should be the
  load of a device, never rises.\<close>

theorem devices_in_turn:
  assumes "gs_runs sndf rcv fd mok env n st0 ds sys"
    and "db_rr (bs_dev st0) = r" and "0 \<le> r" and "r < n" and "n < 2 ^ 31"
  shows "ds = map (\<lambda>i. (r + int i) mod n) [0..<length ds]
    \<and> (\<forall>d < length (db_threads (bs_dev st0)).
         db_threads (bs_dev (gy_state sys)) ! d \<le> db_threads (bs_dev st0) ! d)"
proof -
  have "ds = map (\<lambda>i. (r + int i) mod n) [0..<length ds] \<and> threads_below (bs_dev (gy_state sys)) (bs_dev st0)
    \<and> db_rr (bs_dev (gy_state sys)) = (r + int (length ds)) mod n"
    using assms(1)
  proof (induction rule: gs_runs.induct)
    case gs_start
    then show ?case using assms by simp
  next
    case (gs_new ds sys i s)
    then show ?case by (simp add: gs_accept_def)
  next
    case (gs_go ds sys i asg app s sys')
    let ?d = "(r + int (length ds)) mod n"
    have d: "0 \<le> ?d" "?d < n" using assms by simp_all
    then have rr: "db_rr (bs_dev (gy_state sys)) = int (nat ?d)" "int (nat ?d) < n" using gs_go.IH by simp_all
    have nx: "(?d + 1) mod n = (r + int (Suc (length ds))) mod n"
      using mod_add_left_eq [of "r + int (length ds)" n 1] by (simp add: algebra_simps)
    let ?as = "gs_answer env (gs_request rcv fd mok s) ((gy_state sys)\<lparr>bs_assigned := asg\<rparr>)"
    have k: "threads_below (bs_dev (gy_state sys')) (bs_dev st0)"
      "?as = [] \<and> db_rr (bs_dev (gy_state sys')) = ?d
       \<or> ?as = [?d] \<and> db_rr (bs_dev (gy_state sys')) = (?d + 1) mod n"
      using gs_turn_devices [OF gs_go.hyps(4,2,3) rr assms(5), where ?b0.0 = "bs_dev st0"] gs_go.IH d(1)
      by (simp_all add: Let_def)
    have "ds @ [?d] = map (\<lambda>i. (r + int i) mod n) [0..<Suc (length ds)]"
      using gs_go.IH map_mod_snoc [OF assms(3), of n "length ds"] by metis
    then show ?case
      using k gs_go.IH nx by (elim disjE) simp_all
  qed
  then show ?thesis by (simp add: threads_below_def)
qed

text \<open>The session of a client that closes its connection without having asked for a device ends the
  whole scheduler, and with it the sessions of all other clients: the thread has no device and
  dereferences NULL.\<close>

theorem close_without_device_crashes:
  assumes "xfer_ok rcv" and "0 \<le> fd" and "gy_session sys i = None" and "sk_in s = []"
  shows "gs_turn sndf rcv fd mok env i (gs_accept i s sys) = Inl NullDeref"
  by (simp add: gs_turn_def gs_accept_def dec_thread_count_per_device_def gs_serve_at_end [OF assms(1,2,4)])

section \<open>Two clients\<close>

lemma gs_get_device_turn:
  assumes ok: "xfer_ok rcv" "xfer_ok sndf" "0 \<le> fd" "\<forall>n. mok n" "se_small env"
    and s: "gy_session sys i = Some (asg, app, s)" "sk_in s = request_bytes p []"
    and p: "pk_method_id p = method_num CUDA_GET_DEVICE" "argn (pk_arg0 p) = n" "0 < n"
  shows "\<exists>sys'. gs_turn sndf rcv fd mok env i sys = Inr sys' \<and> gs_request rcv fd mok s = Some (p, conn_req [])
    \<and> (\<forall>j. j \<noteq> i \<longrightarrow> gy_session sys' j = gy_session sys j)"
proof -
  let ?st = "(gy_state sys)\<lparr>bs_assigned := asg\<rparr>"
  obtain p' st' where e: "pkt_execute (srv_handlers env) p (conn_req [], ?st) = Inr (p', conn_req [], st')"
    "pk_method_id p' = pk_method_id p"
    using p ok(5) by (auto simp: pkt_execute_def pkt_handler_def srv_handlers_def srv_handler_def
      nvbackCudaGetDevice_srv_def Let_def get_next_device_RR_def reply_def set_err_def)
  have m: "method_expects_response (pk_method_id p')"
    using p(1) e(2) by (simp add: method_expects_response_def sync_methods_def)
  have "rsp_ok (conn_req [])" by (simp add: rsp_ok_def)
  then have "\<exists>app' s'. gs_serve sndf rcv fd mok (srv_handlers env) (?st, app) s = Inr (True, (st', app'), s')"
    using gs_serve_ok [OF ok(1-4) _ _ e(1) _ m, of s "[]" app] s(2) by auto
  then obtain app' s' where v: "gs_serve sndf rcv fd mok (srv_handlers env) (?st, app) s = Inr (True, (st', app'), s')"
    by blast
  have "gs_request rcv fd mok s = Some (p, conn_req [])"
    using backend_receive_ok [OF ok(1,3), of s p "[]" "[]" mok] s(2) ok(4) by (auto simp: gs_request_def)
  then show ?thesis using s(1) v by (simp add: gs_turn_def)
qed

theorem devices_in_turn_witness:
  "\<exists>sys. gs_runs (\<lambda>k n. 1) (\<lambda>k n. int n) 4 (\<lambda>n. True) demo_srv 3 (demo_st []) [0, 1] sys"
proof -
  let ?p = "demo_packet CUDA_GET_DEVICE 3 0 0" let ?s = "idle (request_bytes ?p [])"
  let ?r = "gs_runs (\<lambda>k n. 1) (\<lambda>k n. int n) 4 (\<lambda>n. True) demo_srv 3 (demo_st [])"
  let ?rq = "gs_request (\<lambda>k n. int n) 4 (\<lambda>n. True)" let ?tn = "gs_turn (\<lambda>k n. 1) (\<lambda>k n. int n) 4 (\<lambda>n. True) demo_srv"
  let ?a = "\<lambda>sys. gs_answer demo_srv (Some (?p, conn_req [])) ((gy_state sys)\<lparr>bs_assigned := None\<rparr>)"
  have p: "pk_method_id ?p = method_num CUDA_GET_DEVICE" "argn (pk_arg0 ?p) = 3" "0 < (3 :: int)"
    by (simp_all add: demo_packet_def argn_def)
  have sm: "se_small demo_srv" by (simp add: demo_srv_def)
  let ?init = "\<lparr>gy_state = demo_st [], gy_session = \<lambda>_. None\<rparr>"
  let ?two = "gs_accept 1 ?s (gs_accept 0 ?s ?init)"
  have r2: "?r [] ?two" by (intro gs_new gs_start) (simp_all add: gs_accept_def)
  have q2: "gy_session ?two i = (if i = 0 \<or> i = 1 then Some (None, -1, ?s) else None)" for i
    by (simp add: gs_accept_def)
  obtain s3 where 3: "?tn 1 ?two = Inr s3" "?rq ?s = Some (?p, conn_req [])" "gy_session s3 0 = Some (None, -1, ?s)"
    using gs_get_device_turn [OF xfer_ok_all xfer_ok_one _ _ sm, of 4 "\<lambda>_. True" ?two 1 None "-1" ?s ?p 3] p q2
    by (auto simp: idle_def)
  have r3: "?r (?a ?two) s3"
    using gs_go [OF r2 _ _ 3(1), of None "-1" ?s] q2 [of 1] 3(2) p by (simp add: names_devices_def)
  obtain s4 where 4: "?tn 0 s3 = Inr s4"
    using gs_get_device_turn [OF xfer_ok_all xfer_ok_one _ _ sm, of 4 "\<lambda>_. True" s3 0 None "-1" ?s ?p 3] p 3(3)
    by (auto simp: idle_def)
  have r4: "?r (?a ?two @ ?a s3) s4"
    using gs_go [OF r3 _ _ 4, of None "-1" ?s] 3(2,3) p by (simp add: names_devices_def)
  have one: "length (?a sys) = 1" for sys
    using p sm by (auto simp: gs_answer_def pkt_execute_def pkt_handler_def srv_handlers_def srv_handler_def
      nvbackCudaGetDevice_srv_def Let_def get_next_device_RR_def reply_def set_err_def)
  have "?a ?two @ ?a s3 = map (\<lambda>i. (0 + int i) mod 3) [0..<length (?a ?two @ ?a s3)]"
    using devices_in_turn [OF r4, of 0] by (simp add: dev_bal0_def)
  moreover have "length (?a ?two @ ?a s3) = Suc (Suc 0)" using one [of ?two] one [of s3] by simp
  ultimately have "?a ?two @ ?a s3 = [0, 1]" by simp
  then show ?thesis using r4 by metis
qed

theorem close_without_device_crashes_witness:
  "gs_turn (\<lambda>k n. 1) (\<lambda>k n. int n) 4 (\<lambda>n. True) demo_srv 5
     (gs_accept 5 (idle []) \<lparr>gy_state = demo_st [], gy_session = \<lambda>_. None\<rparr>) = Inl NullDeref"
  by (rule close_without_device_crashes [OF xfer_ok_all]) (simp_all add: idle_def)

end
