(* ===== verification/Isolation.thy ===== *)
theory Isolation
  imports App_Properties
begin

text \<open>
  The backend processes of a node next to each other, in the default build. Every connection has
  a process of its own (\<open>backend_thread\<close> in backend/backend.c forks it and sets \<open>localindex\<close>
  to 0), with its own list of the objects it created, its own swap space and its own context on
  the device. Shared memory holds the table of objects and the counter. The handlers get the
  address of the one pointer \<open>vmap_table\<close> as the array of pointers to the records
  (backend.c:296), so the table a process works on has one record. Here requests of the processes
  that manage memory, ask for the device or prepare a launch are executed in any order, one at a
  time.
\<close>

section \<open>What a process owns\<close>

definition own :: "'g backend_st \<Rightarrow> nat set" where
  "own st = {j. \<exists>k < bs_localindex st. bs_local st ! k = int j}"

text \<open>Its entries are distinct, point to valid objects, and were given out by the counter.\<close>

definition proc_ok :: "int \<Rightarrow> mem_map list \<Rightarrow> 'g backend_st \<Rightarrow> bool" where
  "proc_ok idx t st \<longleftrightarrow> bs_localindex st \<le> length (bs_local st)
     \<and> (\<forall>j \<in> own st. int j < idx \<and> j < length t \<and> mm_valid (t ! j) \<noteq> 0)
     \<and> (\<forall>k < bs_localindex st. \<forall>k' < bs_localindex st.
          bs_local st ! k = bs_local st ! k' \<and> 0 \<le> bs_local st ! k \<longrightarrow> k = k')"

definition quiet_methods :: "method_id set" where
  "quiet_methods = {CUDA_GET_DEVICE_COUNT, CUDA_GET_DEVICE_PROPERTIES, CUDA_GET_DEVICE,
     CUDA_SETUP_ARGUMENT, CUDA_CONFIGURE_CALL}"

definition memory_methods :: "method_id set" where
  "memory_methods = {CUDA_MALLOC, CUDA_FREE, CUDA_MEMCPY_H2D, CUDA_MEMCPY_D2H}"

lemma find_entry_range:
  "find_entry_loop t xs dv k = Inr r \<Longrightarrow> r = -1 \<or> (k \<le> r \<and> r < k + int (length xs) \<and> 0 \<le> xs ! nat (r - k))"
proof (induction xs arbitrary: k)
  case (Cons x xs)
  have ih: "r = -1 \<or> (k \<le> r \<and> r < k + int (length (x # xs)) \<and> 0 \<le> (x # xs) ! nat (r - k))"
    if "find_entry_loop t xs dv (k + 1) = Inr r"
  proof -
    have "nat (r - k) = Suc (nat (r - (k + 1)))" if "k + 1 \<le> r" using that by simp
    then show ?thesis using Cons.IH [OF that] by auto
  qed
  show ?case
    using Cons.prems ih by (auto simp: bindr_eq_Inr_iff split: if_splits)
qed simp

lemma find_local_own:
  assumes "find_local st dv = Inr n" "local_at st n = Inr x"
  shows "\<exists>k j. n = int k \<and> x = int j \<and> k < bs_localindex st \<and> bs_local st ! k = int j \<and> j \<in> own st"
proof -
  have f: "find_entry_loop (bs_table st) (take (bs_localindex st) (bs_local st)) dv 0 = Inr n"
    "bs_localindex st \<le> length (bs_local st)"
    using assms(1) by (auto simp: find_local_def mem_map_find_entry_def split: if_splits)
  have x: "0 \<le> n" "nat n < length (bs_local st)" "x = bs_local st ! nat n"
    using assms(2) by (auto simp: local_at_def nthri_def nthr_def split: if_splits)
  have r: "nat n < bs_localindex st" "0 \<le> bs_local st ! nat n"
    using find_entry_range [OF f(1)] x f(2) by auto
  then show ?thesis using x
    by (intro exI [of _ "nat n"] exI [of _ "nat x"]) (auto simp: own_def)
qed

section \<open>The requests\<close>

lemma vm_run_one: "vm_step rt hm op s out s' \<Longrightarrow> vm_run rt hm [op] s s'"
  by (auto intro: vm_run.intros)

lemma updr_Inr: "updr xs i x = Inr ys \<longleftrightarrow> i < length xs \<and> ys = xs[i := x]"
  by (auto simp: updr_def)

lemma nthri_Inr: "nthri xs i = Inr x \<longleftrightarrow> 0 \<le> i \<and> nat i < length xs \<and> x = xs ! nat i"
  by (auto simp: nthri_def nthr_def)

lemma malloc_request:
  assumes r: "nvbackCudaMalloc_srv env p sc st = Inr (res, p', sc', st')"
    and ok: "proc_ok (bs_vmap_index st) (bs_table st) st" "0 \<le> bs_vmap_index st"
    and unused: "\<forall>j < length (bs_table st). bs_vmap_index st \<le> int j \<longrightarrow> mm_valid (bs_table st ! j) = 0"
  shows "st' = st \<or> (\<exists>k sz. bs_vmap_index st = int k \<and> k < length (bs_table st)
    \<and> bs_vmap_index st' = int k + 1 \<and> mm_valid (bs_table st' ! k) = 1
    \<and> bs_localindex st' = bs_localindex st + 1 \<and> bs_localindex st < length (bs_local st)
    \<and> bs_local st' = (bs_local st)[bs_localindex st := int k]
    \<and> vm_step (se_rt env) (se_malloc env) (VCreat k sz) (bs_table st, bs_gpu st) None (bs_table st', bs_gpu st'))"
proof (cases "se_semget env = -1")
  case True
  then show ?thesis using r by (simp add: nvbackCudaMalloc_srv_def)
next
  case False
  let ?sz = "unat (arg_lo (pk_arg1 p))"
  obtain k where i: "bs_vmap_index st = int k" using ok(2) by (metis nonneg_int_cases)
  obtain c dv t g where c: "mem_map_creat (se_rt env) (se_malloc env) (bs_table st) (arg_lo (pk_arg0 p)) ?sz
      (int k) (bs_gpu st) = Inr (c, dv, t, g)"
    and l: "bs_localindex st < length (bs_local st)"
    and st': "st' = st\<lparr>bs_vmap_index := int k + 1, bs_table := t, bs_gpu := g,
      bs_local := (bs_local st)[bs_localindex st := int k], bs_localindex := bs_localindex st + 1\<rparr>"
    using r False i by (auto simp: nvbackCudaMalloc_srv_def Let_def bindr_eq_Inr_iff local_set_def
        reply_def updr_Inr)
  have k: "k < length (bs_table st)" "mm_valid (t ! k) = 1"
    using c by (auto simp: mem_map_creat_def bindr_eq_Inr_iff nthr_eq_Inr Let_def split: prod.split_asm)
  have "mm_valid (bs_table st ! k) = 0" using unused k(1) i by simp
  from v_creat [OF k(1) this c] show ?thesis using st' l k i by auto
qed

lemma free_request:
  assumes r: "nvbackCudaFree_srv env p sc st = Inr (res, p', sc', st')"
  shows "st' = st \<or> (\<exists>k j. k < bs_localindex st \<and> bs_local st ! k = int j \<and> j \<in> own st
    \<and> bs_vmap_index st' = bs_vmap_index st \<and> bs_localindex st' = bs_localindex st
    \<and> bs_local st' = (bs_local st)[k := -1]
    \<and> vm_step (se_rt env) (se_malloc env) (VDelete j) (bs_table st, bs_gpu st) None (bs_table st', bs_gpu st'))"
proof -
  obtain n where n: "find_local st (arg_lo (pk_arg0 p)) = Inr n"
    using r by (auto simp: nvbackCudaFree_srv_def bindr_eq_Inr_iff)
  show ?thesis
  proof (cases "0 < n")
    case False
    then show ?thesis using r n by (simp add: nvbackCudaFree_srv_def reply_def)
  next
    case True
    obtain x t g where x: "local_at st n = Inr x"
      and d: "mem_map_delete (se_rt env) (bs_table st) x (bs_gpu st) = Inr (t, g)"
      and st': "st' = st\<lparr>bs_table := t, bs_gpu := g, bs_local := (bs_local st)[nat n := -1]\<rparr>"
      using r n True by (auto simp: nvbackCudaFree_srv_def bindr_eq_Inr_iff local_set_def reply_def updr_Inr)
    obtain k j where k: "n = int k" "x = int j" "k < bs_localindex st" "bs_local st ! k = int j" "j \<in> own st"
      using find_local_own [OF n x] by blast
    have j: "j < length (bs_table st)"
      using d k(2) by (auto simp: mem_map_delete_def bindr_eq_Inr_iff nthr_eq_Inr)
    have "vm_step (se_rt env) (se_malloc env) (VDelete j) (bs_table st, bs_gpu st) None (t, g)"
      by (rule v_delete [OF j]) (use d k(2) in simp)
    then show ?thesis using st' k by (intro disjI2 exI [of _ k] exI [of _ j]) simp
  qed
qed

lemma copy_into_bounds:
  "copy_into (Some d) src n = Inr x \<Longrightarrow> 0 \<le> n \<and> n \<le> int (length d) \<and> n \<le> int (length src)"
  by (auto simp: copy_into_def split: if_splits)

lemma copy_from_bounds: "copy_from (Some d) n = Inr x \<Longrightarrow> 0 \<le> n \<and> n \<le> int (length d)"
  by (auto simp: copy_from_def split: if_splits)

lemma set_nodeI: "mm_valid m' = v \<Longrightarrow> \<exists>m''. t[i := m'] = t[i := m''] \<and> mm_valid m'' = v"
  by blast

lemma h2d_node:
  "mem_map_h2d rt t i m src n g = Inr (out, t', g') \<Longrightarrow> \<exists>m'. t' = t[i := m'] \<and> mm_valid m' = mm_valid m"
  by (cases "mm_status m") (auto simp: mem_map_h2d_def bindr_eq_Inr_iff Let_def intro!: set_nodeI)

lemma d2h_node:
  "mem_map_d2h rt t i (t ! i) n g = Inr (out, t', g') \<Longrightarrow>
   \<exists>m'. t' = t[i := m'] \<and> mm_valid m' = mm_valid (t ! i)"
  by (auto simp: mem_map_d2h_def bindr_eq_Inr_iff intro!: set_nodeI intro: exI [of _ "t ! i"]
      split: if_splits)

lemma d2h_bounds:
  assumes "mem_map_d2h rt t i m n g = Inr (out, t', g')" and "mm_swap m = Some sw"
    and "\<not> (mm_status m = D_NOALLOC \<or> mm_status m = D_INIT)"
  shows "0 \<le> n \<and> n \<le> int (length sw)"
proof (cases "mm_status m = D_READY \<or> mm_status m = D_MODIFIED")
  case True
  then obtain z where "copy_into (Some sw) (cu_content rt (mm_actual_devptr m) g) n = Inr z"
    using assms by (auto simp: mem_map_d2h_def bindr_eq_Inr_iff)
  then show ?thesis using copy_into_bounds by blast
next
  case False
  then obtain z where "copy_from (Some sw) n = Inr z"
    using assms by (auto simp: mem_map_d2h_def bindr_eq_Inr_iff)
  then show ?thesis using copy_from_bounds by blast
qed

text \<open>A copy to or from an object of the process.\<close>

lemma vmem_copy_request:
  assumes r: "vmem_copy env p sc dv st = Inr (res, p', sc', st')"
    and ok: "proc_ok (bs_vmap_index st) (bs_table st) st"
    and inv: "vm_inv (se_rt env) (bs_gpu st) (bs_table st)"
    and m: "pk_method_id p = method_num CUDA_MEMCPY_H2D \<or> pk_method_id p = method_num CUDA_MEMCPY_D2H"
  shows "bs_local st' = bs_local st \<and> bs_localindex st' = bs_localindex st \<and> bs_vmap_index st' = bs_vmap_index st
    \<and> (\<exists>j ops. j \<in> own st \<and> j < length (bs_table st) \<and> (\<forall>op \<in> set ops. \<forall>i. touches i op \<longrightarrow> i = j)
        \<and> vm_run (se_rt env) (se_malloc env) ops (bs_table st, bs_gpu st) (bs_table st', bs_gpu st')
        \<and> mm_valid (bs_table st' ! j) = mm_valid (bs_table st ! j))"
proof -
  let ?src = "case sc_pReqBuffer sc of None \<Rightarrow> [] | Some b \<Rightarrow> b" let ?n = "argn (pk_arg2 p)"
  let ?s = "(bs_table st, bs_gpu st)" and ?run = "vm_run (se_rt env) (se_malloc env)"
  obtain n x out t g where f: "find_local st dv = Inr n" "local_at st n = Inr x"
    and c: "mem_map_memcpy (se_rt env) (bs_table st) x ?src ?n (pk_method_id p) (bs_gpu st) = Inr (out, t, g)"
    and st': "st' = st\<lparr>bs_table := t, bs_gpu := g\<rparr>"
    using r by (auto simp: vmem_copy_def bindr_eq_Inr_iff reply_def Let_def)
  obtain k j where k: "x = int j" "j \<in> own st" using find_local_own [OF f] by blast
  have j: "j < length (bs_table st)" "mm_valid (bs_table st ! j) \<noteq> 0" using ok k(2) by (auto simp: proc_ok_def)
  obtain sw where sw: "mm_swap (bs_table st ! j) = Some sw" "length sw = mm_size (bs_table st ! j)"
    using vm_inv_node [OF inv j(1)] j(2) by (auto simp: node_inv_def)
  have "(\<exists>m'. t = (bs_table st)[j := m'] \<and> mm_valid m' = mm_valid (bs_table st ! j))
    \<and> (\<exists>ops. (\<forall>op \<in> set ops. \<forall>i. touches i op \<longrightarrow> i = j) \<and> ?run ops ?s (t, g))"
  proof (cases "pk_method_id p = method_num CUDA_MEMCPY_H2D")
    case True
    have h: "mem_map_h2d (se_rt env) (bs_table st) j (bs_table st ! j) ?src ?n (bs_gpu st) = Inr (out, t, g)"
      using c unfolding True k(1) memcpy_h2d [OF j(1)] .
    then obtain z where "copy_into (Some sw) ?src ?n = Inr z"
      using sw(1) by (auto simp: mem_map_h2d_def bindr_eq_Inr_iff)
    from copy_into_bounds [OF this] have "vm_step (se_rt env) (se_malloc env) (VWrite j ?src ?n) ?s None (t, g)"
      using sw(2) c True k(1) by (intro v_write [OF j]) auto
    from vm_run_one [OF this] show ?thesis
      by (intro conjI [OF h2d_node [OF h]] exI [of _ "[VWrite j ?src ?n]"]) simp
  next
    case False
    then have m': "pk_method_id p = method_num CUDA_MEMCPY_D2H" using m by simp
    have h: "mem_map_d2h (se_rt env) (bs_table st) j (bs_table st ! j) ?n (bs_gpu st) = Inr (out, t, g)"
      using c unfolding m' k(1) memcpy_d2h [OF j(1)] .
    have "\<exists>ops. (\<forall>op \<in> set ops. \<forall>i. touches i op \<longrightarrow> i = j) \<and> ?run ops ?s (t, g)"
    proof (cases "mm_status (bs_table st ! j) = D_NOALLOC \<or> mm_status (bs_table st ! j) = D_INIT")
      case True
      then have "?s = (t, g)" using h by (simp add: mem_map_d2h_def)
      then have "?run [] ?s (t, g)" by (simp add: vm_run.finish)
      then show ?thesis by (intro exI [of _ "[]"]) simp
    next
      case nz: False
      have "vm_step (se_rt env) (se_malloc env) (VRead j ?n) ?s out (t, g)"
        using d2h_bounds [OF h sw(1) nz] sw(2) h by (intro v_read [OF j]) (auto simp: memcpy_d2h [OF j(1)])
      from vm_run_one [OF this] show ?thesis by (intro exI [of _ "[VRead j ?n]"]) simp
    qed
    then show ?thesis using d2h_node [OF h] by simp
  qed
  then obtain m' ops where "t = (bs_table st)[j := m']" "mm_valid m' = mm_valid (bs_table st ! j)"
    "\<forall>op \<in> set ops. \<forall>i. touches i op \<longrightarrow> i = j" "?run ops ?s (t, g)" by blast
  then show ?thesis using st' k(2) j(1) by (intro conjI exI [of _ j] exI [of _ ops]) simp_all
qed

lemma vm_run_length:
  assumes "vm_run rt hm ops s s'" and "cuda_ok rt" and "hm_ok hm" and "vm_inv rt (snd s) (fst s)"
  shows "length (fst s') = length (fst s)"
  using assms
proof (induction rule: vm_run.induct)
  case (more op s out s' ops s'')
  then show ?case
    using vm_step_preserves [of rt hm op "fst s" "snd s" out "fst s'" "snd s'"] by simp
qed simp

section \<open>What a request does\<close>

text \<open>
  At most one operation on an object, which is one of the process or the next one of the counter;
  then the counter moves on and the object is the process's.
\<close>

definition serves :: "'g srv_env \<Rightarrow> 'g backend_st \<Rightarrow> 'g backend_st \<Rightarrow> bool" where
  "serves env st st' \<longleftrightarrow> (\<exists>ops.
     vm_run (se_rt env) (se_malloc env) ops (bs_table st, bs_gpu st) (bs_table st', bs_gpu st')
     \<and> (\<forall>op \<in> set ops. \<forall>j. touches j op \<longrightarrow> j \<in> own st \<or> int j = bs_vmap_index st \<and> j \<in> own st')
     \<and> (bs_vmap_index st' = bs_vmap_index st \<and> own st' \<subseteq> own st
        \<or> (\<exists>k. bs_vmap_index st = int k \<and> k < length (bs_table st) \<and> bs_vmap_index st' = int k + 1
             \<and> own st' = insert k (own st)))
     \<and> proc_ok (bs_vmap_index st') (bs_table st') st')"

lemma servesI:
  assumes "vm_run (se_rt env) (se_malloc env) ops (bs_table st, bs_gpu st) (bs_table st', bs_gpu st')"
    and "\<forall>op \<in> set ops. \<forall>j. touches j op \<longrightarrow> j \<in> own st"
    and "bs_vmap_index st' = bs_vmap_index st" "own st' \<subseteq> own st"
    and "proc_ok (bs_vmap_index st) (bs_table st') st'"
  shows "serves env st st'"
  using assms unfolding serves_def by (intro exI [of _ ops]) simp

lemma own_local [simp]:
  "own (st\<lparr>bs_table := t, bs_gpu := g\<rparr>) = own st" "own (st\<lparr>bs_kmap := km\<rparr>) = own st"
  by (simp_all add: own_def)

lemma serves_same_objects:
  assumes "proc_ok (bs_vmap_index st) (bs_table st) st"
    and "bs_table st' = bs_table st" "bs_gpu st' = bs_gpu st" "bs_vmap_index st' = bs_vmap_index st"
    and "bs_local st' = bs_local st" "bs_localindex st' = bs_localindex st"
  shows "serves env st st'"
proof (rule servesI [where ops = "[]"])
  have "own st' = own st" using assms(5,6) by (simp add: own_def)
  then show "own st' \<subseteq> own st" "proc_ok (bs_vmap_index st) (bs_table st') st'"
    using assms by (simp_all add: proc_ok_def)
qed (use assms in \<open>simp_all add: vm_run.finish\<close>)

text \<open>The state of the node that a request finds.\<close>

definition node_ok :: "'g srv_env \<Rightarrow> 'g backend_st \<Rightarrow> bool" where
  "node_ok env st \<longleftrightarrow> vm_inv (se_rt env) (bs_gpu st) (bs_table st) \<and> 0 \<le> bs_vmap_index st
     \<and> (\<forall>j < length (bs_table st). bs_vmap_index st \<le> int j \<longrightarrow> mm_valid (bs_table st ! j) = 0)
     \<and> proc_ok (bs_vmap_index st) (bs_table st) st"

lemma serves_refl: "node_ok env st \<Longrightarrow> serves env st st"
  by (rule serves_same_objects) (simp_all add: node_ok_def)

lemma malloc_serves:
  assumes "nvbackCudaMalloc_srv env p sc st = Inr (res, p', sc', st')" and ok: "node_ok env st"
    and rt: "cuda_ok (se_rt env)" "hm_ok (se_malloc env)"
  shows "serves env st st'"
proof (cases "st' = st")
  case True
  then show ?thesis using serves_refl [OF ok] by simp
next
  case False
  then obtain k sz where k: "bs_vmap_index st = int k" "k < length (bs_table st)"
      "bs_vmap_index st' = int k + 1" "mm_valid (bs_table st' ! k) = 1"
    and l: "bs_localindex st' = bs_localindex st + 1" "bs_localindex st < length (bs_local st)"
      "bs_local st' = (bs_local st)[bs_localindex st := int k]"
    and s: "vm_step (se_rt env) (se_malloc env) (VCreat k sz) (bs_table st, bs_gpu st) None (bs_table st', bs_gpu st')"
    using malloc_request [OF assms(1)] ok by (auto simp: node_ok_def)
  have pr: "proc_ok (int k) (bs_table st) st" and inv: "vm_inv (se_rt env) (bs_gpu st) (bs_table st)"
    using ok k(1) by (auto simp: node_ok_def)
  have o': "own st' = insert k (own st)"
  proof (intro equalityI subsetI)
    fix j assume "j \<in> insert k (own st)"
    then consider "j = k" | i where "i < bs_localindex st" "bs_local st ! i = int j"
      by (auto simp: own_def)
    then have "\<exists>i < bs_localindex st'. bs_local st' ! i = int j"
    proof cases
      case 1
      then show ?thesis using l by (intro exI [of _ "bs_localindex st"]) simp
    next
      case (2 i)
      then show ?thesis using l by (intro exI [of _ i]) simp
    qed
    then show "j \<in> own st'" by (simp add: own_def)
  qed (use l in \<open>auto simp: own_def less_Suc_eq nth_list_update split: if_splits\<close>)
  have o: "j < k \<and> j < length (bs_table st) \<and> mm_valid (bs_table st ! j) \<noteq> 0" if "j \<in> own st" for j
    using pr that by (auto simp: proc_ok_def)
  note st = vm_step_preserves [OF s rt inv]
  have v: "mm_valid (bs_table st' ! j) \<noteq> 0" if "j \<in> own st" for j
    using st o [OF that] by (auto simp: same_object_def)
  have old: "bs_local st ! i = int j \<Longrightarrow> j \<noteq> k" if "i < bs_localindex st" for i j
    using o [of j] that by (auto simp: own_def)
  have "proc_ok (int k + 1) (bs_table st') st'"
    unfolding proc_ok_def o'
  proof (intro conjI ballI allI impI)
    show "bs_localindex st' \<le> length (bs_local st')" using l by simp
    fix j assume j: "j \<in> insert k (own st)"
    then show "int j < int k + 1" "j < length (bs_table st')" "mm_valid (bs_table st' ! j) \<noteq> 0"
      using o [of j] v k st by auto
  next
    fix i i' assume i: "i < bs_localindex st'" "i' < bs_localindex st'"
      "bs_local st' ! i = bs_local st' ! i' \<and> 0 \<le> bs_local st' ! i"
    have d: "bs_local st ! a = bs_local st ! b \<Longrightarrow> 0 \<le> bs_local st ! a \<Longrightarrow> a = b"
      if "a < bs_localindex st" "b < bs_localindex st" for a b
      using pr that by (auto simp: proc_ok_def)
    show "i = i'"
      using i l old [of i k] old [of i' k] d [of i i'] by (auto simp: less_Suc_eq nth_list_update split: if_splits)
  qed
  then show ?thesis
    unfolding serves_def using k o' vm_run_one [OF s] by (intro exI [of _ "[VCreat k sz]"]) simp
qed

lemma free_serves:
  assumes "nvbackCudaFree_srv env p sc st = Inr (res, p', sc', st')" and ok: "node_ok env st"
    and rt: "cuda_ok (se_rt env)" "hm_ok (se_malloc env)"
  shows "serves env st st'"
proof (cases "st' = st")
  case True
  then show ?thesis using serves_refl [OF ok] by simp
next
  case False
  then obtain k j where k: "k < bs_localindex st" "bs_local st ! k = int j" "j \<in> own st"
      "bs_vmap_index st' = bs_vmap_index st" "bs_localindex st' = bs_localindex st"
      "bs_local st' = (bs_local st)[k := -1]"
    and s: "vm_step (se_rt env) (se_malloc env) (VDelete j) (bs_table st, bs_gpu st) None (bs_table st', bs_gpu st')"
    using free_request [OF assms(1)] by auto
  have pr: "proc_ok (bs_vmap_index st) (bs_table st) st" and inv: "vm_inv (se_rt env) (bs_gpu st) (bs_table st)"
    using ok by (auto simp: node_ok_def)
  note st = vm_step_preserves [OF s rt inv]
  have d: "bs_local st ! a = bs_local st ! b \<Longrightarrow> 0 \<le> bs_local st ! a \<Longrightarrow> a = b"
    if "a < bs_localindex st" "b < bs_localindex st" for a b
    using pr that by (auto simp: proc_ok_def)
  have o': "own st' \<subseteq> own st" "j \<notin> own st'"
    using k d pr by (auto simp: own_def proc_ok_def nth_list_update split: if_splits)
  have "proc_ok (bs_vmap_index st) (bs_table st') st'"
    unfolding proc_ok_def
  proof (intro conjI ballI allI impI)
    show "bs_localindex st' \<le> length (bs_local st')" using k pr by (simp add: proc_ok_def)
    fix i assume "i \<in> own st'"
    then have i: "i \<in> own st" "i \<noteq> j" using o' by auto
    then show "int i < bs_vmap_index st" "i < length (bs_table st')" "mm_valid (bs_table st' ! i) \<noteq> 0"
      using pr st by (auto simp: proc_ok_def same_object_def)
  next
    fix a b assume "a < bs_localindex st'" "b < bs_localindex st'"
      "bs_local st' ! a = bs_local st' ! b \<and> 0 \<le> bs_local st' ! a"
    then show "a = b" using k d pr by (auto simp: proc_ok_def nth_list_update split: if_splits)
  qed
  then show ?thesis
    by (intro servesI [OF vm_run_one [OF s]]) (use k o' in auto)
qed

lemma vmem_copy_serves:
  assumes r: "vmem_copy env p sc dv st = Inr (res, p', sc', st')" and ok: "node_ok env st"
    and rt: "cuda_ok (se_rt env)" "hm_ok (se_malloc env)"
    and m: "pk_method_id p = method_num CUDA_MEMCPY_H2D \<or> pk_method_id p = method_num CUDA_MEMCPY_D2H"
  shows "serves env st st'"
proof -
  have pr: "proc_ok (bs_vmap_index st) (bs_table st) st" and inv: "vm_inv (se_rt env) (bs_gpu st) (bs_table st)"
    using ok by (auto simp: node_ok_def)
  note c = vmem_copy_request [OF r pr inv m]
  obtain j ops where j: "j \<in> own st" "j < length (bs_table st)" "\<forall>op \<in> set ops. \<forall>i. touches i op \<longrightarrow> i = j"
    "vm_run (se_rt env) (se_malloc env) ops (bs_table st, bs_gpu st) (bs_table st', bs_gpu st')"
    "mm_valid (bs_table st' ! j) = mm_valid (bs_table st ! j)" using c by blast
  have st': "bs_local st' = bs_local st" "bs_localindex st' = bs_localindex st"
    "bs_vmap_index st' = bs_vmap_index st" using c by simp_all
  then have o: "own st' = own st" by (simp add: own_def)
  have v: "i < length (bs_table st') \<and> mm_valid (bs_table st' ! i) \<noteq> 0" if "i \<in> own st" for i
  proof (cases "i = j")
    case True
    then show ?thesis using vm_run_length [OF j(4) rt] inv j pr by (simp add: proc_ok_def)
  next
    case False
    then have nt: "\<forall>op \<in> set ops. \<not> touches i op" using j(3) by blast
    show ?thesis
      using vm_run_preserves [OF j(4) rt _ nt] inv pr that by (simp add: proc_ok_def same_object_def)
  qed
  have "proc_ok (bs_vmap_index st) (bs_table st') st'"
    using pr st' v unfolding proc_ok_def o by simp
  then show ?thesis by (intro servesI [OF j(4)]) (use j o st' in auto)
qed

lemma memcpy_serves:
  assumes "nvbackCudaMemcpy_srv env p sc st = Inr (res, p', sc', st')" and "node_ok env st"
    and "cuda_ok (se_rt env)" "hm_ok (se_malloc env)"
    and m: "pk_method_id p = method_num CUDA_MEMCPY_H2D \<or> pk_method_id p = method_num CUDA_MEMCPY_D2H"
  shows "serves env st st'"
  using assms vmem_copy_serves [where st = st and st' = st' and env = env] serves_refl [of env st]
  by (auto simp: nvbackCudaMemcpy_srv_def Let_def split: if_splits)

text \<open>The requests that leave the objects alone.\<close>

lemma quiet_same:
  assumes "srv_handler env h p sc st = Inr (res, p', sc', st')"
    and "h \<in> {H_GetDeviceCount, H_GetDeviceProperties, H_GetDevice, H_SetupArgument, H_ConfigureCall}"
  shows "bs_table st' = bs_table st \<and> bs_gpu st' = bs_gpu st \<and> bs_vmap_index st' = bs_vmap_index st
     \<and> bs_local st' = bs_local st \<and> bs_localindex st' = bs_localindex st"
  using assms
  by (auto simp: srv_handler_def reply_def nvbackCudaGetDeviceCount_srv_def
      nvbackCudaGetDeviceProperties_srv_def nvbackCudaGetDevice_srv_def nvbackCudaSetupArgument_srv_def
      nvbackCudaConfigureCall_srv_def Let_def bindr_eq_Inr_iff split: prod.split_asm option.split_asm if_splits)

lemma quiet_serves:
  assumes "srv_handler env h p sc st = Inr (res, p', sc', st')" and "node_ok env st"
    and "h \<in> {H_GetDeviceCount, H_GetDeviceProperties, H_GetDevice, H_SetupArgument, H_ConfigureCall}"
  shows "serves env st st'"
  using quiet_same [OF assms(1,3)] assms(2) by (intro serves_same_objects) (simp_all add: node_ok_def)

text \<open>The handler of a request, with the packet the loop gives it.\<close>

lemma request_handler:
  assumes "executed env vm km p d st = Inr (p', sc', st')"
    and "pk_method_id p = method_num f" "f \<in> memory_methods \<union> quiet_methods"
  obtains h res where
    "srv_handler env h (p\<lparr>pk_is_feedback_packet := 0, pk_vmmap := vm, pk_kmap := km\<rparr>) (conn_req d) st
       = Inr (res, p', sc', st')"
    "f = CUDA_MALLOC \<and> h = H_Malloc \<or> f = CUDA_FREE \<and> h = H_Free
     \<or> (f = CUDA_MEMCPY_H2D \<or> f = CUDA_MEMCPY_D2H) \<and> h = H_Memcpy
     \<or> h \<in> {H_GetDeviceCount, H_GetDeviceProperties, H_GetDevice, H_SetupArgument, H_ConfigureCall}"
proof -
  obtain h where h: "pkt_handler (pk_method_id p) = Some h"
    "f = CUDA_MALLOC \<and> h = H_Malloc \<or> f = CUDA_FREE \<and> h = H_Free
     \<or> (f = CUDA_MEMCPY_H2D \<or> f = CUDA_MEMCPY_D2H) \<and> h = H_Memcpy
     \<or> h \<in> {H_GetDeviceCount, H_GetDeviceProperties, H_GetDevice, H_SetupArgument, H_ConfigureCall}"
    using assms(2,3) by (auto simp: memory_methods_def quiet_methods_def pkt_handler_def)
  then show thesis
    using assms(1) that by (auto simp: executed_def pkt_execute_def srv_handlers_def bindr_eq_Inr_iff)
qed

lemma request_serves:
  assumes r: "executed env vm km p d st = Inr (p', sc', st')" and ok: "node_ok env st"
    and rt: "cuda_ok (se_rt env)" "hm_ok (se_malloc env)"
    and m: "pk_method_id p = method_num f" "f \<in> memory_methods \<union> quiet_methods"
  shows "serves env st st'"
proof -
  obtain h res where s: "srv_handler env h (p\<lparr>pk_is_feedback_packet := 0, pk_vmmap := vm, pk_kmap := km\<rparr>)
      (conn_req d) st = Inr (res, p', sc', st')"
    and h: "f = CUDA_MALLOC \<and> h = H_Malloc \<or> f = CUDA_FREE \<and> h = H_Free
     \<or> (f = CUDA_MEMCPY_H2D \<or> f = CUDA_MEMCPY_D2H) \<and> h = H_Memcpy
     \<or> h \<in> {H_GetDeviceCount, H_GetDeviceProperties, H_GetDevice, H_SetupArgument, H_ConfigureCall}"
    by (rule request_handler [OF r m])
  from h consider "h = H_Malloc" | "h = H_Free" | "h = H_Memcpy" "f = CUDA_MEMCPY_H2D \<or> f = CUDA_MEMCPY_D2H"
    | "h \<in> {H_GetDeviceCount, H_GetDeviceProperties, H_GetDevice, H_SetupArgument, H_ConfigureCall}" by blast
  then show ?thesis
  proof cases
    case 1
    then show ?thesis using malloc_serves [OF _ ok rt] s by (simp add: srv_handler_def)
  next
    case 2
    then show ?thesis using free_serves [OF _ ok rt] s by (simp add: srv_handler_def)
  next
    case 3
    then show ?thesis using memcpy_serves [OF _ ok rt] s m(1) by (fastforce simp: srv_handler_def)
  next
    case 4
    then show ?thesis using quiet_serves [OF s ok] by simp
  qed
qed

text \<open>What no state of the device or of the table matters for.\<close>

lemma memcpy_needs_object:
  assumes "nvbackCudaMemcpy_srv env p sc st = Inr (res, p', sc', st')" and "own st = {}"
  shows "st' = st"
proof -
  have "\<not> vmem_copy env q c dv st = Inr (res, p', sc', st')" for q c dv
    using assms(2) find_local_own [of st dv] by (fastforce simp: vmem_copy_def bindr_eq_Inr_iff)
  then show ?thesis using assms(1) by (auto simp: nvbackCudaMemcpy_srv_def Let_def split: if_splits)
qed

lemma malloc_counts:
  assumes "nvbackCudaMalloc_srv env p sc st = Inr (res, p', sc', st')"
  shows "st' = st \<or> (0 \<le> bs_vmap_index st \<and> bs_vmap_index st < int (length (bs_table st))
    \<and> bs_vmap_index st' = bs_vmap_index st + 1 \<and> length (bs_table st') = length (bs_table st))"
  using assms
  by (auto simp: nvbackCudaMalloc_srv_def mem_map_creat_def local_set_def reply_def Let_def nthri_Inr
      bindr_eq_Inr_iff split: if_splits prod.split_asm)

text \<open>A process without an object leaves the objects alone, unless it allocates.\<close>

lemma request_without_object:
  assumes r: "executed env vm km p d st = Inr (p', sc', st')"
    and m: "pk_method_id p = method_num f" "f \<in> memory_methods \<union> quiet_methods"
    and o: "own st = {}"
  shows "bs_table st' = bs_table st \<and> bs_vmap_index st' = bs_vmap_index st \<and> own st' = {}
      \<and> bs_localindex st' = bs_localindex st \<and> bs_local st' = bs_local st
    \<or> f = CUDA_MALLOC \<and> 0 \<le> bs_vmap_index st \<and> bs_vmap_index st < int (length (bs_table st))
      \<and> bs_vmap_index st' = bs_vmap_index st + 1"
proof -
  obtain h res where s: "srv_handler env h (p\<lparr>pk_is_feedback_packet := 0, pk_vmmap := vm, pk_kmap := km\<rparr>)
      (conn_req d) st = Inr (res, p', sc', st')"
    and h: "f = CUDA_MALLOC \<and> h = H_Malloc \<or> f = CUDA_FREE \<and> h = H_Free
     \<or> (f = CUDA_MEMCPY_H2D \<or> f = CUDA_MEMCPY_D2H) \<and> h = H_Memcpy
     \<or> h \<in> {H_GetDeviceCount, H_GetDeviceProperties, H_GetDevice, H_SetupArgument, H_ConfigureCall}"
    by (rule request_handler [OF r m])
  from h consider "f = CUDA_MALLOC" "h = H_Malloc" | "h = H_Free" | "h = H_Memcpy"
    | "h \<in> {H_GetDeviceCount, H_GetDeviceProperties, H_GetDevice, H_SetupArgument, H_ConfigureCall}" by blast
  then show ?thesis
  proof cases
    case 1
    from s [unfolded 1(2)] have "nvbackCudaMalloc_srv env
        (p\<lparr>pk_is_feedback_packet := 0, pk_vmmap := vm, pk_kmap := km\<rparr>) (conn_req d) st = Inr (res, p', sc', st')"
      by (simp add: srv_handler_def)
    from malloc_counts [OF this] show ?thesis using o 1(1) by auto
  next
    case 2
    from s [unfolded 2] have "nvbackCudaFree_srv env
        (p\<lparr>pk_is_feedback_packet := 0, pk_vmmap := vm, pk_kmap := km\<rparr>) (conn_req d) st = Inr (res, p', sc', st')"
      by (simp add: srv_handler_def)
    from free_request [OF this] show ?thesis using o by auto
  next
    case 3
    from s [unfolded 3] have "nvbackCudaMemcpy_srv env
        (p\<lparr>pk_is_feedback_packet := 0, pk_vmmap := vm, pk_kmap := km\<rparr>) (conn_req d) st = Inr (res, p', sc', st')"
      by (simp add: srv_handler_def)
    from memcpy_needs_object [OF this o] show ?thesis using o by simp
  next
    case 4
    from quiet_same [OF s 4] show ?thesis using o by (simp add: own_def)
  qed
qed

text \<open>The counter and the table, whatever the device and the table hold.\<close>

lemma copy_keeps_table:
  assumes "nvbackCudaMemcpy_srv env p sc st = Inr (res, p', sc', st')"
    and m: "pk_method_id p = method_num CUDA_MEMCPY_H2D \<or> pk_method_id p = method_num CUDA_MEMCPY_D2H"
  shows "bs_vmap_index st' = bs_vmap_index st \<and> length (bs_table st') = length (bs_table st)"
proof -
  have c: "bs_vmap_index st' = bs_vmap_index st \<and> length (bs_table st') = length (bs_table st)"
    if v: "vmem_copy env q c dv st = Inr (res, p', sc', st')" and m: "pk_method_id q = method_num CUDA_MEMCPY_H2D
      \<or> pk_method_id q = method_num CUDA_MEMCPY_D2H" for q c dv
  proof -
    obtain n x out t g where f: "find_local st dv = Inr n" "local_at st n = Inr x"
      and c: "mem_map_memcpy (se_rt env) (bs_table st) x (case sc_pReqBuffer c of None \<Rightarrow> [] | Some b \<Rightarrow> b)
        (argn (pk_arg2 q)) (pk_method_id q) (bs_gpu st) = Inr (out, t, g)"
      and st': "st' = st\<lparr>bs_table := t, bs_gpu := g\<rparr>"
      using v by (auto simp: vmem_copy_def bindr_eq_Inr_iff reply_def Let_def)
    obtain j where x: "x = int j" using find_local_own [OF f] by blast
    have j: "j < length (bs_table st)"
      using c x by (auto simp: mem_map_memcpy_def bindr_eq_Inr_iff nthr_eq_Inr)
    have "length t = length (bs_table st)"
      using m
    proof
      assume "pk_method_id q = method_num CUDA_MEMCPY_H2D"
      then show ?thesis using c h2d_node unfolding x by (fastforce simp: memcpy_h2d [OF j])
    next
      assume "pk_method_id q = method_num CUDA_MEMCPY_D2H"
      then show ?thesis using c d2h_node unfolding x by (fastforce simp: memcpy_d2h [OF j])
    qed
    then show ?thesis using st' by simp
  qed
  show ?thesis
    using assms c by (auto simp: nvbackCudaMemcpy_srv_def Let_def split: if_splits)
qed

lemma request_counts:
  assumes r: "executed env vm km p d st = Inr (p', sc', st')"
    and m: "pk_method_id p = method_num f" "f \<in> memory_methods \<union> quiet_methods"
  shows "bs_vmap_index st \<le> bs_vmap_index st' \<and> length (bs_table st') = length (bs_table st)"
proof -
  let ?p = "p\<lparr>pk_is_feedback_packet := 0, pk_vmmap := vm, pk_kmap := km\<rparr>"
  obtain h res where s: "srv_handler env h ?p (conn_req d) st = Inr (res, p', sc', st')"
    and h: "f = CUDA_MALLOC \<and> h = H_Malloc \<or> f = CUDA_FREE \<and> h = H_Free
     \<or> (f = CUDA_MEMCPY_H2D \<or> f = CUDA_MEMCPY_D2H) \<and> h = H_Memcpy
     \<or> h \<in> {H_GetDeviceCount, H_GetDeviceProperties, H_GetDevice, H_SetupArgument, H_ConfigureCall}"
    by (rule request_handler [OF r m])
  from h consider "h = H_Malloc" | "h = H_Free" | "h = H_Memcpy" "f = CUDA_MEMCPY_H2D \<or> f = CUDA_MEMCPY_D2H"
    | "h \<in> {H_GetDeviceCount, H_GetDeviceProperties, H_GetDevice, H_SetupArgument, H_ConfigureCall}" by blast
  then show ?thesis
  proof cases
    case 1
    from s [unfolded 1] have "nvbackCudaMalloc_srv env ?p (conn_req d) st = Inr (res, p', sc', st')"
      by (simp add: srv_handler_def)
    from malloc_counts [OF this] show ?thesis by auto
  next
    case 2
    from s [unfolded 2] have "nvbackCudaFree_srv env ?p (conn_req d) st = Inr (res, p', sc', st')"
      by (simp add: srv_handler_def)
    then show ?thesis
      by (auto simp: nvbackCudaFree_srv_def mem_map_delete_def local_set_def reply_def Let_def
          bindr_eq_Inr_iff split: if_splits)
  next
    case 3
    from s [unfolded 3] have "nvbackCudaMemcpy_srv env ?p (conn_req d) st = Inr (res, p', sc', st')"
      by (simp add: srv_handler_def)
    from copy_keeps_table [OF this] show ?thesis using 3(2) m(1) by auto
  next
    case 4
    from quiet_same [OF s 4] show ?thesis by simp
  qed
qed

section \<open>The processes of a node\<close>

text \<open>Shared memory, and the processes: the state of a process is its own but for the two segments.\<close>

record 'g node_sys =
  ns_table :: "mem_map list"
  ns_index :: int
  ns_procs :: "nat \<Rightarrow> 'g backend_st option"

definition attached :: "'g node_sys \<Rightarrow> 'g backend_st \<Rightarrow> 'g backend_st" where
  "attached s b = b\<lparr>bs_table := ns_table s, bs_vmap_index := ns_index s\<rparr>"

definition left :: "nat \<Rightarrow> 'g backend_st \<Rightarrow> 'g node_sys \<Rightarrow> 'g node_sys" where
  "left i b s = s\<lparr>ns_table := bs_table b, ns_index := bs_vmap_index b, ns_procs := (ns_procs s)(i \<mapsto> b)\<rparr>"

text \<open>
  A new connection has a process with \<open>localindex = 0\<close> and otherwise what the daemon has, with a
  device context of its own; the loop of a process executes a request; a process ends with its
  connection or by a signal, its objects stay in the table. A request that accesses memory outside
  the table has no step: a run goes on as long as no process has done that.
\<close>

datatype node_event = Connects nat | Requests nat method_id cuda_packet "byte list" | Ends nat

fun actor :: "node_event \<Rightarrow> nat" where
  "actor (Connects i) = i"
| "actor (Requests i f p d) = i"
| "actor (Ends i) = i"

inductive node_step :: "'g srv_env \<Rightarrow> u64 \<Rightarrow> u64 \<Rightarrow> node_event \<Rightarrow> 'g node_sys \<Rightarrow> 'g node_sys \<Rightarrow> bool"
  for env vm km where
  n_connect: "ns_procs s i = None \<Longrightarrow> node_step env vm km (Connects i) s
     (s\<lparr>ns_procs := (ns_procs s)(i \<mapsto> b\<lparr>bs_localindex := 0\<rparr>)\<rparr>)"
| n_request: "\<lbrakk>ns_procs s i = Some b; f \<in> memory_methods \<union> quiet_methods; pk_method_id p = method_num f;
     executed env vm km p d (attached s b) = Inr (p', sc', b')\<rbrakk> \<Longrightarrow>
     node_step env vm km (Requests i f p d) s (left i b' s)"
| n_end: "ns_procs s i = Some b \<Longrightarrow>
     node_step env vm km (Ends i) s (s\<lparr>ns_procs := (ns_procs s)(i := None)\<rparr>)"

inductive node_run :: "'g srv_env \<Rightarrow> u64 \<Rightarrow> u64 \<Rightarrow> node_event list \<Rightarrow> 'g node_sys \<Rightarrow> 'g node_sys \<Rightarrow> bool"
  for env vm km where
  run_none: "node_run env vm km [] s s"
| run_one: "node_step env vm km ev s s' \<Longrightarrow> node_run env vm km evs s' s'' \<Longrightarrow>
     node_run env vm km (ev # evs) s s''"

inductive_cases node_requestE: "node_step env vm km (Requests i f p d) s s'"

text \<open>
  Before the first connection: the record of the table as the first round of the pager's
  \<open>mem_map_init\<close> leaves it, before the second leaves the array of one pointer
  (\<open>start_pager_faults\<close>), and the counter in fresh shared memory.
\<close>

definition node_start :: "int \<Rightarrow> mem_map \<Rightarrow> 'g node_sys" where
  "node_start pid m = \<lparr>ns_table = [m\<lparr>mm_valid := 0, mm_actual_devptr := 0, mm_swap := None, mm_handle := 0,
     mm_size := 0, mm_status := D_NOALLOC, mm_pid := pid, mm_freq := 0\<rparr>], ns_index = 0, ns_procs = Map.empty\<rparr>"

lemma node_start_first_round:
  "mem_map_init_loop pid (Suc k) 0 [m] = mem_map_init_loop pid k 1 (ns_table (node_start pid m))"
  by (simp add: node_start_def nthr_def)

lemma attached_sel [simp]:
  "bs_gpu (attached s b) = bs_gpu b" "bs_table (attached s b) = ns_table s"
  "bs_vmap_index (attached s b) = ns_index s" "own (attached s b) = own b"
  "bs_local (attached s b) = bs_local b" "bs_localindex (attached s b) = bs_localindex b"
  "proc_ok x t (attached s b) = proc_ok x t b"
  by (simp_all add: attached_def own_def proc_ok_def)

lemma left_sel [simp]:
  "ns_table (left i b s) = bs_table b" "ns_index (left i b s) = bs_vmap_index b"
  "ns_procs (left i b s) = (ns_procs s)(i \<mapsto> b)"
  by (simp_all add: left_def)

lemma attached_left [simp]: "attached (left i b s) b = b"
  by (simp add: attached_def)

section \<open>The invariant of the node\<close>

text \<open>
  The record is free as long as the counter is 0, and then no device context matters for it. A
  process that owns it has it in its own device context and swap space.
\<close>

definition free_record :: "mem_map \<Rightarrow> bool" where
  "free_record m \<longleftrightarrow> mm_valid m = 0 \<and> mm_actual_devptr m = 0 \<and> mm_status m = D_NOALLOC"

definition sys_ok :: "'g srv_env \<Rightarrow> 'g node_sys \<Rightarrow> bool" where
  "sys_ok env s \<longleftrightarrow> length (ns_table s) = 1 \<and> 0 \<le> ns_index s \<and> ns_index s \<le> 1
     \<and> (ns_index s = 0 \<longrightarrow> free_record (ns_table s ! 0))
     \<and> (\<forall>i b. ns_procs s i = Some b \<longrightarrow> proc_ok (ns_index s) (ns_table s) b
          \<and> (own b \<noteq> {} \<longrightarrow> vm_inv (se_rt env) (bs_gpu b) (ns_table s)))
     \<and> (\<forall>i i' b b'. ns_procs s i = Some b \<and> ns_procs s i' = Some b' \<and> own b \<noteq> {} \<and> own b' \<noteq> {} \<longrightarrow> i = i')"

lemma free_record_inv: "free_record m \<Longrightarrow> vm_inv rt g [m]"
  by (simp add: free_record_def vm_inv_def node_inv_def on_device_def)

lemma one_record: "length t = 1 \<Longrightarrow> t = [t ! 0]"
  by (cases t) simp_all

lemma sys_ok_proc:
  assumes "sys_ok env s" "ns_procs s i = Some b"
  shows "proc_ok (ns_index s) (ns_table s) b" "own b \<noteq> {} \<Longrightarrow> vm_inv (se_rt env) (bs_gpu b) (ns_table s)"
    "own b \<noteq> {} \<Longrightarrow> own b = {0} \<and> ns_index s = 1 \<and> mm_valid (ns_table s ! 0) \<noteq> 0"
proof -
  show 1: "proc_ok (ns_index s) (ns_table s) b"
    and "own b \<noteq> {} \<Longrightarrow> vm_inv (se_rt env) (bs_gpu b) (ns_table s)"
    using assms unfolding sys_ok_def by blast+
  assume o: "own b \<noteq> {}"
  have j: "j = 0 \<and> 0 < ns_index s \<and> mm_valid (ns_table s ! 0) \<noteq> 0" if "j \<in> own b" for j
  proof -
    have "j < 1" using 1 that assms(1) by (simp add: proc_ok_def sys_ok_def)
    then show ?thesis using 1 that by (force simp: proc_ok_def)
  qed
  then show "own b = {0} \<and> ns_index s = 1 \<and> mm_valid (ns_table s ! 0) \<noteq> 0"
    using o assms(1) by (fastforce simp: sys_ok_def)
qed

lemma attached_ok:
  assumes ok: "sys_ok env s" and b: "ns_procs s i = Some b" and "own b \<noteq> {} \<or> ns_index s = 0"
  shows "node_ok env (attached s b)"
proof -
  have "vm_inv (se_rt env) (bs_gpu b) (ns_table s)"
  proof (cases "own b = {}")
    case True
    then have "free_record (ns_table s ! 0)" "length (ns_table s) = 1" using ok assms(3) by (auto simp: sys_ok_def)
    then show ?thesis using free_record_inv one_record by metis
  qed (use sys_ok_proc(2) [OF ok b] in simp)
  moreover have "mm_valid (ns_table s ! j) = 0" if "j < length (ns_table s)" "ns_index s \<le> int j" for j
  proof -
    have "j = 0" "ns_index s = 0" using that ok by (auto simp: sys_ok_def)
    then show ?thesis using ok by (simp add: sys_ok_def free_record_def)
  qed
  ultimately show ?thesis
    using ok sys_ok_proc(1) [OF ok b] by (simp add: node_ok_def sys_ok_def)
qed

lemma serves_inv:
  assumes "serves env st st'" and "node_ok env st"
    and rt: "cuda_ok (se_rt env)" "hm_ok (se_malloc env)"
  shows "vm_inv (se_rt env) (bs_gpu st') (bs_table st') \<and> length (bs_table st') = length (bs_table st)"
  using assms vm_run_inv [OF _ rt] vm_run_length [OF _ rt] unfolding serves_def node_ok_def by fastforce

lemma proc_ok_empty: "own b = {} \<Longrightarrow> proc_ok x t b \<Longrightarrow> proc_ok x' t' b"
  by (simp add: proc_ok_def)

text \<open>A request of a process that has an object, or allocates the first: nobody else has one.\<close>

lemma own_request_ok:
  assumes ok: "sys_ok env s" and b: "ns_procs s i = Some b"
    and rt: "cuda_ok (se_rt env)" "hm_ok (se_malloc env)" and sv: "serves env (attached s b) b'"
    and o: "own b \<noteq> {} \<or> ns_index s = 0" and c: "own b \<noteq> {} \<or> bs_vmap_index b' = 1"
  shows "sys_ok env (left i b' s)"
proof -
  have others: "own d = {}" if d: "ns_procs s k = Some d" "k \<noteq> i" for k d
  proof (rule ccontr)
    assume n: "own d \<noteq> {}"
    then have "own b \<noteq> {}" using sys_ok_proc(3) [OF ok d(1)] o by auto
    then show False using ok d b n unfolding sys_ok_def by blast
  qed
  note inv = serves_inv [OF sv attached_ok [OF ok b o] rt]
  have l: "length (bs_table b') = 1" using inv ok by (simp add: sys_ok_def)
  have pb: "proc_ok (bs_vmap_index b') (bs_table b') b'" using sv by (auto simp: serves_def)
  have "bs_vmap_index b' = ns_index s \<or> (\<exists>k. ns_index s = int k \<and> k < 1 \<and> bs_vmap_index b' = int k + 1)"
    using sv ok by (auto simp: serves_def sys_ok_def)
  then have x: "bs_vmap_index b' = 1" 
  proof (cases "own b = {}")
    case False
    then show ?thesis using \<open>bs_vmap_index b' = ns_index s \<or> _\<close> sys_ok_proc(3) [OF ok b] by auto
  qed (use c in simp)
  have pd: "proc_ok (bs_vmap_index b') (bs_table b') d" if "ns_procs s k = Some d" "k \<noteq> i" for k d
    using proc_ok_empty [OF others [OF that]] sys_ok_proc(1) [OF ok that(1)] by blast
  have e: "d = b' \<and> k = i \<or> ns_procs s k = Some d \<and> k \<noteq> i \<and> own d = {}"
    if "ns_procs (left i b' s) k = Some d" for k d
    using that others [of k d] by (cases "k = i") auto
  show ?thesis
    unfolding sys_ok_def
  proof (intro conjI allI impI)
    fix k d assume d: "ns_procs (left i b' s) k = Some d"
    show "proc_ok (ns_index (left i b' s)) (ns_table (left i b' s)) d" using e [OF d] pb pd [of k d] by auto
    show "vm_inv (se_rt env) (bs_gpu d) (ns_table (left i b' s))" if "own d \<noteq> {}"
      using e [OF d] that inv by auto
  next
    fix k k' d d'
    assume "ns_procs (left i b' s) k = Some d \<and> ns_procs (left i b' s) k' = Some d' \<and> own d \<noteq> {} \<and> own d' \<noteq> {}"
    then show "k = k'" using e [of k d] e [of k' d'] by auto
  qed (use l x in simp_all)
qed

text \<open>A request of a process without an object that does not allocate.\<close>

lemma idle_request_ok:
  assumes ok: "sys_ok env s" and b: "ns_procs s i = Some b" and o: "own b = {}"
    and same: "bs_table b' = ns_table s" "bs_vmap_index b' = ns_index s" "own b' = {}"
      "bs_localindex b' = bs_localindex b" "bs_local b' = bs_local b"
  shows "sys_ok env (left i b' s)"
proof -
  have "proc_ok (ns_index s) (ns_table s) b'"
    using sys_ok_proc(1) [OF ok b] o same by (simp add: proc_ok_def)
  then show ?thesis
    using ok o same unfolding sys_ok_def left_sel by (auto split: if_splits)
qed

lemma node_request_ok:
  assumes ok: "sys_ok env s" and b: "ns_procs s i = Some b"
    and rt: "cuda_ok (se_rt env)" "hm_ok (se_malloc env)"
    and r: "executed env vm km p d (attached s b) = Inr (p', sc', b')"
    and m: "pk_method_id p = method_num f" "f \<in> memory_methods \<union> quiet_methods"
  shows "sys_ok env (left i b' s)
    \<and> (own b = {} \<and> ns_index s = 1 \<longrightarrow> bs_table b' = ns_table s \<and> bs_vmap_index b' = ns_index s)"
proof (cases "own b = {}")
  case False
  then have o: "own b \<noteq> {} \<or> ns_index s = 0" by simp
  show ?thesis
    using own_request_ok [OF ok b rt request_serves [OF r attached_ok [OF ok b o] rt m] o] False by simp
next
  case True
  have l: "length (ns_table s) = 1" using ok by (simp add: sys_ok_def)
  have "own (attached s b) = {}" using True by simp
  from request_without_object [OF r m this] show ?thesis
  proof
    assume "bs_table b' = bs_table (attached s b) \<and> bs_vmap_index b' = bs_vmap_index (attached s b)
      \<and> own b' = {} \<and> bs_localindex b' = bs_localindex (attached s b) \<and> bs_local b' = bs_local (attached s b)"
    then show ?thesis using idle_request_ok [OF ok b True] by simp
  next
    assume a: "f = CUDA_MALLOC \<and> 0 \<le> bs_vmap_index (attached s b)
      \<and> bs_vmap_index (attached s b) < int (length (bs_table (attached s b)))
      \<and> bs_vmap_index b' = bs_vmap_index (attached s b) + 1"
    then have x: "ns_index s = 0" using l by simp
    then have o: "own b \<noteq> {} \<or> ns_index s = 0" by simp
    show ?thesis
      using own_request_ok [OF ok b rt request_serves [OF r attached_ok [OF ok b o] rt m] o] a x by simp
  qed
qed

section \<open>The objects of different processes\<close>

lemma node_step_ok:
  assumes "node_step env vm km ev s s'" and rt: "cuda_ok (se_rt env)" "hm_ok (se_malloc env)"
    and ok: "sys_ok env s"
  shows "sys_ok env s'"
  using assms(1)
proof (cases rule: node_step.cases)
  case (n_connect i b)
  have "own (b\<lparr>bs_localindex := 0\<rparr>) = {}" "proc_ok x t (b\<lparr>bs_localindex := 0\<rparr>)" for x t
    by (simp_all add: own_def proc_ok_def)
  then show ?thesis using ok n_connect unfolding sys_ok_def by (auto split: if_splits)
next
  case (n_request i b f p d p' sc' b')
  then show ?thesis using node_request_ok [OF ok n_request(3) rt n_request(6,5,4)] by simp
next
  case (n_end i b)
  then show ?thesis using ok unfolding sys_ok_def by (auto split: if_splits)
qed

lemma node_run_ok:
  assumes "node_run env vm km evs s s'" and rt: "cuda_ok (se_rt env)" "hm_ok (se_malloc env)"
    and "sys_ok env s"
  shows "sys_ok env s'"
  using assms(1,4)
proof (induction rule: node_run.induct)
  case (run_one ev s s' evs s'')
  then show ?case using node_step_ok [OF run_one(1) rt] by simp
qed simp

lemma node_start_ok: "sys_ok env (node_start pid m)"
  by (simp add: sys_ok_def node_start_def free_record_def)

text \<open>While a process has the object, the other processes change neither the table nor the counter.\<close>

lemma others_step:
  assumes "node_step env vm km ev s s'" and rt: "cuda_ok (se_rt env)" "hm_ok (se_malloc env)"
    and ok: "sys_ok env s" and b: "ns_procs s i = Some b" "own b \<noteq> {}" and a: "actor ev \<noteq> i"
  shows "ns_procs s' i = Some b \<and> ns_table s' = ns_table s \<and> ns_index s' = ns_index s"
  using assms(1)
proof (cases rule: node_step.cases)
  case (n_request i' b0 f p d p' sc' b')
  have "i' \<noteq> i" using a n_request(1) by simp
  then have "own b0 = {}" using ok b n_request(3) unfolding sys_ok_def by blast
  then show ?thesis
    using node_request_ok [OF ok n_request(3) rt n_request(6,5,4)] sys_ok_proc(3) [OF ok b] n_request(2) b(1)
      \<open>i' \<noteq> i\<close> by simp
qed (use a b in auto)

lemma others_run:
  assumes "node_run env vm km evs s s'" and rt: "cuda_ok (se_rt env)" "hm_ok (se_malloc env)"
    and "sys_ok env s" and "ns_procs s i = Some b" "own b \<noteq> {}" and "\<forall>ev \<in> set evs. actor ev \<noteq> i"
  shows "ns_procs s' i = Some b \<and> ns_table s' = ns_table s \<and> ns_index s' = ns_index s"
  using assms(1,4-7)
proof (induction rule: node_run.induct)
  case (run_one ev s s' evs s'')
  have a: "actor ev \<noteq> i" using run_one(7) by simp
  show ?case
    using others_step [OF run_one(1) rt run_one(4,5,6) a] node_step_ok [OF run_one(1) rt run_one(4)]
      run_one(3,6,7) by simp
qed simp


text \<open>The example: two connections, the first process allocates four bytes.\<close>

abbreviation alloc_4 :: cuda_packet where "alloc_4 \<equiv> demo_packet CUDA_MALLOC 0 4 0"

abbreviation first_events :: "node_event list" where
  "first_events \<equiv> [Connects 0, Connects 1, Requests 0 CUDA_MALLOC alloc_4 []]"

abbreviation owner_st :: "byte list option backend_st" where
  "owner_st \<equiv> (demo_st [0])\<lparr>bs_gpu := Some [0, 0, 0, 0], bs_table := [fresh_node], bs_vmap_index := 1\<rparr>"

abbreviation idle_st :: "byte list option backend_st" where
  "idle_st \<equiv> (demo_st [0])\<lparr>bs_gpu := None, bs_localindex := 0\<rparr>"

lemma first_events_run:
  "\<exists>s. node_run demo_srv 0 0 first_events (node_start 1 (blank_node 0)) s \<and> ns_table s = [fresh_node]
     \<and> ns_index s = 1 \<and> ns_procs s = [0 \<mapsto> owner_st, 1 \<mapsto> idle_st]"
proof -
  let ?b = idle_st
  let ?s0 = "node_start 1 (blank_node 0) :: byte list option node_sys"
  let ?s1 = "?s0\<lparr>ns_procs := (ns_procs ?s0)(0 \<mapsto> ?b)\<rparr>" let ?s2 = "?s1\<lparr>ns_procs := (ns_procs ?s1)(1 \<mapsto> ?b)\<rparr>"
  let ?up = "\<lambda>q. q\<lparr>pk_is_feedback_packet := 0, pk_vmmap := 0, pk_kmap := 0\<rparr>"
  have c: "mem_map_creat demo_rt demo_hm [blank_node 0] 0 4 0 None = Inr (0, 0, [fresh_node], Some [0, 0, 0, 0])"
    by (simp add: mem_map_creat_def demo_defs nthri_def nthr_def replicate_4)
  have a: "attached ?s2 ?b = ?b\<lparr>bs_table := [blank_node 0], bs_vmap_index := 0\<rparr>"
    by (simp add: attached_def node_start_def blank_node_def)
  obtain p' st1 where m: "nvbackCudaMalloc_srv demo_srv (?up alloc_4) (conn_req []) (attached ?s2 ?b)
      = Inr (OK, p', conn_req [], st1)" "st1 = owner_st"
    unfolding a using c
    by (simp add: nvbackCudaMalloc_srv_def local_set_def reply_def updr_def demo_st_def demo_srv_def)
  have w: "executed demo_srv 0 0 alloc_4 [] (attached ?s2 ?b) = Inr (p', conn_req [], st1)"
    by (rule executed_malloc [OF _ m(1)]) simp
  have s1: "node_step demo_srv 0 0 (Connects 0) ?s0 ?s1"
    using n_connect [of ?s0 0 demo_srv 0 0 ?b] by (simp add: node_start_def)
  have s2: "node_step demo_srv 0 0 (Connects 1) ?s1 ?s2"
    using n_connect [of ?s1 1 demo_srv 0 0 ?b] by (simp add: node_start_def)
  have s3: "node_step demo_srv 0 0 (Requests 0 CUDA_MALLOC alloc_4 []) ?s2 (left 0 st1 ?s2)"
    by (rule n_request [OF _ _ _ w]) (simp_all add: memory_methods_def)
  have "node_run demo_srv 0 0 first_events ?s0 (left 0 st1 ?s2)"
    using s1 s2 s3 by (blast intro: node_run.intros)
  then show ?thesis using m(2) by (intro exI [of _ "left 0 st1 ?s2"]) (auto simp: node_start_def)
qed


section \<open>What a process reads\<close>

lemma local_object_own: "local_object st dv k \<Longrightarrow> k \<in> own st"
  using find_local_own [of st dv] by (fastforce simp: local_object_def local_at_def)



section \<open>The table runs out\<close>

lemma node_run_index:
  assumes "node_run env vm km evs s s'"
  shows "ns_index s \<le> ns_index s' \<and> length (ns_table s') = length (ns_table s)"
  using assms
proof (induction rule: node_run.induct)
  case (run_one ev s s' evs s'')
  from run_one(1) have "ns_index s \<le> ns_index s' \<and> length (ns_table s') = length (ns_table s)"
  proof (cases rule: node_step.cases)
    case (n_request i b f p d p' sc' b')
    then show ?thesis using request_counts [OF n_request(6,5,4)] by simp
  qed simp_all
  then show ?case using run_one(3) by simp
qed simp

text \<open>C37. The counter never goes back, also when objects are freed and processes end: once it has
  reached the end of the table, every \<open>cudaMalloc\<close> of every process indexes behind it. That holds
  for tables of any length and whatever the records and the devices hold; in the program it is
  so after the first allocation on the node.\<close>

theorem table_runs_out:
  assumes "ns_index s \<ge> int (length (ns_table s))" and "node_run env vm km evs s s'"
    and "ns_procs s' i = Some b" and "se_semget env \<noteq> -1" and "pk_method_id p = method_num CUDA_MALLOC"
  shows "executed env vm km p d (attached s' b) = Inl OutOfBounds"
proof -
  have "ns_index s' \<ge> int (length (ns_table s'))" using node_run_index [OF assms(2)] assms(1) by simp
  then have "nthri (ns_table s') (ns_index s') = Inl OutOfBounds" by (simp add: nthri_def nthr_def)
  then show ?thesis
    using assms(4,5)
    by (simp add: executed_def pkt_execute_def pkt_handler_def srv_handlers_def srv_handler_def
        nvbackCudaMalloc_srv_def mem_map_creat_def)
qed

lemma table_runs_out_witness:
  "\<exists>s. node_run demo_srv 0 0 first_events (node_start 1 (blank_node 0)) s \<and> ns_procs s 1 = Some idle_st
    \<and> executed demo_srv 0 0 alloc_4 [] (attached s idle_st) = Inl OutOfBounds"
proof -
  obtain s where s: "node_run demo_srv 0 0 first_events (node_start 1 (blank_node 0)) s"
    "ns_table s = [fresh_node]" "ns_index s = 1" "ns_procs s = [0 \<mapsto> owner_st, 1 \<mapsto> idle_st]"
    using first_events_run by blast
  have "executed demo_srv 0 0 alloc_4 [] (attached s idle_st) = Inl OutOfBounds"
    by (rule table_runs_out [OF _ run_none, where i = 1]) (simp_all add: s demo_srv_def)
  then show ?thesis using s by auto
qed

end
