(* ===== verification/Backend_Sched.thy ===== *)
theory Backend_Sched
  imports Backend_Conn L2_Properties
begin

text \<open>
  The loop of a connection as it is built with a second-level scheduler: the sections of
  \<open>backend_thread\<close> (backend/backend.c) and of \<open>nvbackCudaSetDevice_srv\<close>
  (remote/\<open>remote_api_wrapper.c\<close>) under \<open>SCHED_FAIR_SHARE\<close> and \<open>SCHED_LAS\<close>. The process enters the
  queue of its device with \<open>cudaSetDevice\<close>, reports the time of every request, takes over the
  priority the scheduler gives it, and leaves the queue at the end of the connection.
\<close>

section \<open>The state\<close>

record sched_build =
  sb_fs :: bool
  sb_las :: bool

text \<open>
  The process id, the results of \<open>gettimeofday\<close> in their order, and what is on the stack where
  the requests to the scheduler are put.
\<close>

record sched_env =
  be_pid :: int
  be_clock :: "nat \<Rightarrow> timeval"
  be_junk :: process_credit_data

text \<open>
  The variables of the loop: \<open>index\<close>, \<open>running_gpu\<close>, \<open>kernel_time\<close>, \<open>non_kernel_time\<close>, and
  \<open>gpu_binding\<close>, which the signal handlers read. \<open>ss_prio\<close> has the priorities that were set,
  \<open>ss_ticks\<close> is the number of times the clock was read.
\<close>

record 'g sess =
  ss_st :: "'g backend_st"
  ss_l2 :: l2
  ss_index :: u32
  ss_gpu :: int
  ss_binding :: int
  ss_prio :: "int list"
  ss_ticks :: nat
  ss_kernel :: timeval
  ss_other :: timeval

definition sess_start :: "'g backend_st \<Rightarrow> l2 \<Rightarrow> int \<Rightarrow> 'g sess" where
  "sess_start st l b = \<lparr>ss_st = st, ss_l2 = l, ss_index = -1, ss_gpu = -1, ss_binding = b,
     ss_prio = [], ss_ticks = 0, ss_kernel = \<lparr>tv_sec = 0, tv_usec = 0\<rparr>,
     ss_other = \<lparr>tv_sec = 0, tv_usec = 0\<rparr>\<rparr>"

section \<open>Entering and leaving the queue\<close>

definition enter_fs :: "sched_env \<Rightarrow> cuda_packet \<Rightarrow> l2 \<Rightarrow> (cuda_packet \<times> l2) cres" where
  "enter_fs e p l = bindr (fs_add_queue (be_pid e) (ucast (arg_lo (pk_arg0 p))) 0 (argn (pk_arg2 p))
     (be_junk e) l) (\<lambda>(r, l). Inr (p\<lparr>pk_signo := word_of_int r\<rparr>, l))"

definition enter_las :: "sched_env \<Rightarrow> int \<Rightarrow> cuda_packet \<Rightarrow> l2 \<Rightarrow> (cuda_packet \<times> l2) cres" where
  "enter_las e isLocal p l = bindr (las_add_queue (be_pid e) (ucast (arg_lo (pk_arg0 p)))
     (if isLocal = 0 then 0 else 1) (be_junk e) l) (\<lambda>(r, l). Inr (p\<lparr>pk_signo := word_of_int r\<rparr>, l))"

definition set_device_sched :: "sched_build \<Rightarrow> sched_env \<Rightarrow> 'g srv_env \<Rightarrow> cuda_packet \<Rightarrow> srv_conn
    \<Rightarrow> 'g backend_st \<times> l2 \<Rightarrow> (cuda_packet \<times> srv_conn \<times> 'g backend_st \<times> l2) cres" where
  "set_device_sched bld e env p sc s = (case s of (st, l) \<Rightarrow>
     bindr (nvbackCudaSetDevice_srv env p sc st) (\<lambda>(r, p, sc, st).
     bindr (if sb_fs bld then enter_fs e p l else Inr (p, l)) (\<lambda>(p, l).
     bindr (if sb_las bld then enter_las e (bs_isLocal st) p l else Inr (p, l)) (\<lambda>(p, l).
     Inr (p, sc, st, l)))))"

definition sched_handlers :: "sched_build \<Rightarrow> sched_env \<Rightarrow> 'g srv_env \<Rightarrow> handler \<Rightarrow> cuda_packet
    \<Rightarrow> srv_conn \<times> 'g backend_st \<times> l2 \<Rightarrow> (cuda_packet \<times> srv_conn \<times> 'g backend_st \<times> l2) cres" where
  "sched_handlers bld e env h p s = (case s of (sc, st, l) \<Rightarrow>
     if h = H_SetDevice then set_device_sched bld e env p sc (st, l)
     else bindr (srv_handlers env h p (sc, st)) (\<lambda>(p, sc, st). Inr (p, sc, st, l)))"

definition leave_queue :: "sched_build \<Rightarrow> sched_env \<Rightarrow> 'g sess \<Rightarrow> 'g sess cres" where
  "leave_queue bld e ss =
     bindr (if sb_fs bld then bindr (fs_rem_queue (be_pid e) (be_pid e) (ss_gpu ss) (be_junk e) (ss_l2 ss))
         (\<lambda>(r, l). Inr (ss\<lparr>ss_l2 := l\<rparr>)) else Inr ss) (\<lambda>ss.
     if sb_las bld then bindr (las_rem_queue (be_pid e) (be_pid e) (ss_gpu ss) (be_junk e) (ss_l2 ss))
         (\<lambda>(r, l). Inr (ss\<lparr>ss_l2 := l\<rparr>)) else Inr ss)"

section \<open>The loop\<close>

text \<open>At the head of the loop a process of the least-attained-service scheduler takes its priority over.\<close>

definition renice :: "sched_build \<Rightarrow> sched_env \<Rightarrow> 'g sess \<Rightarrow> 'g sess cres" where
  "renice bld e ss = (if sb_las bld \<and> ss_index ss \<noteq> -1 then
     bindr (las_get_priority (be_pid e) (sint (ss_index ss)) (ss_gpu ss) (be_junk e) (ss_l2 ss)) (\<lambda>(x, l).
       Inr (ss\<lparr>ss_l2 := l, ss_prio := ss_prio ss @ [x]\<rparr>)) else Inr ss)"

text \<open>After a request: its time, and the device it may have set.\<close>

definition charge_time :: "cuda_packet \<Rightarrow> timeval \<Rightarrow> timeval \<Rightarrow> 'g sess \<Rightarrow> 'g sess" where
  "charge_time p before after ss = (if pk_method_id p = method_num CUDA_LAUNCH
     then ss\<lparr>ss_kernel := timeradd (ss_kernel ss) (timersub after before)\<rparr>
     else ss\<lparr>ss_other := timeradd (ss_other ss) (timersub after before)\<rparr>)"

definition after_fs :: "cuda_packet \<Rightarrow> 'g sess \<Rightarrow> 'g sess" where
  "after_fs p ss = (if pk_method_id p = method_num CUDA_SET_DEVICE then ss\<lparr>ss_gpu := argn (pk_arg0 p)\<rparr> else ss)"

definition after_las :: "sched_env \<Rightarrow> cuda_packet \<Rightarrow> timeval \<Rightarrow> timeval \<Rightarrow> 'g sess \<Rightarrow> 'g sess cres" where
  "after_las e p before after ss =
     bindr (las_notify_scheduler (be_pid e) before after (ss_gpu ss) (pcd_gpuid (be_junk e)) (ss_l2 ss)) (\<lambda>l.
     let ss = ss\<lparr>ss_l2 := l\<rparr> in
     Inr (if pk_method_id p = method_num CUDA_SET_DEVICE
       then ss\<lparr>ss_index := pk_signo p, ss_gpu := argn (pk_arg0 p), ss_binding := argn (pk_arg0 p)\<rparr>
       else ss))"

definition account :: "sched_build \<Rightarrow> sched_env \<Rightarrow> cuda_packet \<Rightarrow> timeval \<Rightarrow> timeval \<Rightarrow> 'g sess
    \<Rightarrow> 'g sess cres" where
  "account bld e p before after ss =
     (let ss = charge_time p before after ss; ss = (if sb_fs bld then after_fs p ss else ss) in
      if sb_las bld then after_las e p before after ss else Inr ss)"

text \<open>The execution of a request between two readings of the clock.\<close>

definition sched_execute :: "sched_build \<Rightarrow> sched_env \<Rightarrow> 'g srv_env \<Rightarrow> u64 \<Rightarrow> u64 \<Rightarrow> cuda_packet \<Rightarrow> srv_conn
    \<Rightarrow> 'g sess \<Rightarrow> (cuda_packet \<times> srv_conn \<times> 'g sess) cres" where
  "sched_execute bld e env vm km p sc ss =
     (let before = be_clock e (ss_ticks ss); after = be_clock e (ss_ticks ss + 1) in
      bindr (pkt_execute (sched_handlers bld e env)
          (p\<lparr>pk_is_feedback_packet := 0, pk_vmmap := vm, pk_kmap := km\<rparr>) (sc, ss_st ss, ss_l2 ss))
        (\<lambda>(p, sc, st, l).
      let p = p\<lparr>pk_vmmap := 0, pk_kmap := 0\<rparr> in
      bindr (account bld e p before after (ss\<lparr>ss_st := st, ss_l2 := l, ss_ticks := ss_ticks ss + 2\<rparr>)) (\<lambda>ss.
      Inr (p, sc, ss))))"

definition sched_serve :: "xfer \<Rightarrow> xfer \<Rightarrow> int \<Rightarrow> (nat \<Rightarrow> bool) \<Rightarrow> sched_build \<Rightarrow> sched_env \<Rightarrow> 'g srv_env
    \<Rightarrow> u64 \<Rightarrow> u64 \<Rightarrow> 'g sess \<Rightarrow> sock \<Rightarrow> (bool \<times> 'g sess \<times> sock) cres" where
  "sched_serve sndf rcv fd mok bld e env vm km ss s =
     bindr (renice bld e ss) (\<lambda>ss.
     bindr (backend_receive rcv fd mok s) (\<lambda>(req, s).
     (case req of None \<Rightarrow> Inr (False, ss, s) | Some None \<Rightarrow> Inr (True, ss, s)
      | Some (Some (strm, sc)) \<Rightarrow>
        bindr (nthr (st_rpkts strm) 0) (\<lambda>p.
        bindr (sched_execute bld e env vm km p sc ss) (\<lambda>(p, sc, ss).
        let strm = strm\<lparr>st_rpkts := (st_rpkts strm)[0 := p]\<rparr> in
        bindr (backend_respond sndf fd strm p sc s) (\<lambda>(go, s). Inr (go, ss, s)))))))"

text \<open>The whole connection.\<close>

definition sched_conn :: "xfer \<Rightarrow> xfer \<Rightarrow> int \<Rightarrow> (nat \<Rightarrow> bool) \<Rightarrow> sched_build \<Rightarrow> sched_env \<Rightarrow> 'g srv_env
    \<Rightarrow> u64 \<Rightarrow> u64 \<Rightarrow> 'g sess \<Rightarrow> sock \<Rightarrow> ('g sess \<times> sock) cres option" where
  "sched_conn sndf rcv fd mok bld e env vm km ss s =
     map_option (\<lambda>r. bindr r (\<lambda>(ss, s). bindr (leave_queue bld e ss) (\<lambda>ss. Inr (ss, s))))
       (conn_loop (sched_serve sndf rcv fd mok bld e env vm km) ss s)"

section \<open>Without a scheduler\<close>

text \<open>
  What remains when the state of the scheduler is forgotten. With none of the two sections built
  in, the loop is that of \<open>Backend_Conn\<close>.
\<close>

definition plain_build :: sched_build where
  "plain_build = \<lparr>sb_fs = False, sb_las = False\<rparr>"

lemma sched_handlers_plain:
  "sched_handlers plain_build e env h p (sc, st, l)
     = bindr (srv_handlers env h p (sc, st)) (\<lambda>(p, sc, st). Inr (p, sc, st, l))"
  by (auto simp: sched_handlers_def set_device_sched_def plain_build_def srv_handlers_def srv_handler_def
      bindr_def split: sum.split)

lemma pkt_execute_plain:
  "pkt_execute (sched_handlers plain_build e env) p (sc, st, l)
     = bindr (pkt_execute (srv_handlers env) p (sc, st)) (\<lambda>(p, sc, st). Inr (p, sc, st, l))"
  by (simp add: pkt_execute_def sched_handlers_plain split: option.split)

definition served :: "'g sess \<times> sock \<Rightarrow> 'g backend_st \<times> sock" where
  "served x = (case x of (ss, s) \<Rightarrow> (ss_st ss, s))"

lemma charge_time_sel [simp]:
  "ss_st (charge_time p b a ss) = ss_st ss" "ss_l2 (charge_time p b a ss) = ss_l2 ss"
  "ss_index (charge_time p b a ss) = ss_index ss" "ss_gpu (charge_time p b a ss) = ss_gpu ss"
  "ss_ticks (charge_time p b a ss) = ss_ticks ss"
  by (simp_all add: charge_time_def)

lemma sched_serve_plain:
  "map_sum id (\<lambda>(go, x). (go, served x)) (sched_serve sndf rcv fd mok plain_build e env vm km ss s)
     = backend_serve sndf rcv fd mok (srv_handlers env) vm km (ss_st ss) s"
  by (auto simp: sched_serve_def backend_serve_def renice_def sched_execute_def account_def plain_build_def
      pkt_execute_plain [unfolded plain_build_def] served_def Let_def bindr_def
      split: sum.split option.split prod.split)

lemma conn_loop_plain:
  "map_option (map_sum id served) (conn_loop (sched_serve sndf rcv fd mok plain_build e env vm km) ss s)
     = backend_conn sndf rcv fd mok env vm km (ss_st ss) s"
  unfolding backend_conn_def
proof (induction "length (sk_in s)" arbitrary: ss s rule: less_induct)
  case less
  let ?f = "sched_serve sndf rcv fd mok plain_build e env vm km"
  let ?g = "backend_serve sndf rcv fd mok (srv_handlers env) vm km"
  note eq = sched_serve_plain [of sndf rcv fd mok e env vm km ss s]
  show ?case
  proof (cases "?f ss s")
    case (Inl x)
    then have "?g (ss_st ss) s = Inl x" using eq by simp
    then show ?thesis using Inl by (simp add: conn_loop.simps [of ?f] conn_loop.simps [of ?g])
  next
    case (Inr x)
    then obtain go ss' s' where x: "?f ss s = Inr (go, ss', s')" by (metis prod_cases3)
    then have g: "?g (ss_st ss) s = Inr (go, ss_st ss', s')" using eq by (simp add: served_def)
    show ?thesis
    proof (cases go)
      case True
      then have "length (sk_in s') < length (sk_in s)" using backend_serve_consumes g by fastforce
      from less [OF this, of ss'] show ?thesis using x g True by (simp add: conn_loop_go)
    next
      case False
      then show ?thesis using x g by (simp add: conn_loop_stop served_def)
    qed
  qed
qed

text \<open>Built without a scheduler, a connection is what \<open>backend_conn\<close> says: the same states of the
  backend, the same bytes on the socket, the same faults, whatever the client sends.\<close>

lemma plain_connection:
  "map_option (map_sum id served) (sched_conn sndf rcv fd mok plain_build e env vm km ss s)
     = backend_conn sndf rcv fd mok env vm km (ss_st ss) s"
proof -
  have "(\<lambda>r :: ('a sess \<times> sock) cres. bindr r (\<lambda>(ss, s). bindr (leave_queue plain_build e ss) (\<lambda>ss. Inr (ss, s)))) = id"
    by (auto simp: fun_eq_iff leave_queue_def plain_build_def bindr_def split: sum.split)
  then have "sched_conn sndf rcv fd mok plain_build e env vm km ss s
      = conn_loop (sched_serve sndf rcv fd mok plain_build e env vm km) ss s"
    unfolding sched_conn_def by (simp add: option.map_id)
  then show ?thesis using conn_loop_plain by metis
qed

section \<open>One device for a connection\<close>

lemma las_add_queue_again:
  assumes "me \<in> set (pids (l2_table l))" and "gpu_served gpu tid l"
  shows "las_add_queue me (word_of_int gpu) app junk l = Inl Hangs"
  using assms by (simp add: las_add_queue_def gpu_served_def l2_ask_def las_listen_def already_added_pids
      List.map_filter_simps pcd_actions Let_def)

lemma fs_add_queue_again:
  assumes "me \<in> set (pids (l2_table l))" and "gpu_served gpu tid l"
  shows "fs_add_queue me (word_of_int gpu) app share junk l = Inl Hangs"
  using assms by (simp add: fs_add_queue_def gpu_served_def l2_ask_def fs_listen_def already_added_pids
      List.map_filter_simps pcd_actions Let_def)

lemma argn_word: "word_of_int (argn a) = (ucast (arg_lo a) :: u32)"
  by (simp add: argn_def)

lemma set_device_execute:
  "pk_method_id p = method_num CUDA_SET_DEVICE \<Longrightarrow> pkt_execute (sched_handlers bld e env) p (sc, st, l)
     = set_device_sched bld e env p sc (st, l)"
  by (simp add: pkt_execute_def pkt_handler_def sched_handlers_def)

text \<open>C32. A process that is in the table of a scheduler and executes \<open>cudaSetDevice\<close> once more, for
  the same or another device with a listener, never returns from it: the listener does not answer a
  registration it already has.\<close>

theorem second_set_device_hangs:
  assumes "sb_fs bld \<or> sb_las bld" and "be_pid e \<in> set (pids (l2_table (ss_l2 ss)))"
    and "gpu_served (argn (pk_arg0 p)) tid (ss_l2 ss)" and "pk_method_id p = method_num CUDA_SET_DEVICE"
  shows "sched_execute bld e env vm km p sc ss = Inl Hangs"
proof -
  have "enter_fs e q (ss_l2 ss) = Inl Hangs" "enter_las e i q (ss_l2 ss) = Inl Hangs" if "pk_arg0 q = pk_arg0 p" for q i
    using that las_add_queue_again [OF assms(2,3)] fs_add_queue_again [OF assms(2,3)]
    by (simp_all add: enter_fs_def enter_las_def argn_word)
  then show ?thesis
    using assms(1,4) by (auto simp: sched_execute_def set_device_execute set_device_sched_def reply_def
        nvbackCudaSetDevice_srv_def set_err_def split: prod.split)
qed

section \<open>What a process is charged\<close>

text \<open>
  A connection on a node with other clients of the scheduler: rounds of its loop that go on, and
  what other processes do with the scheduler between them.
\<close>

datatype sched_item = Round | Other las_op

definition do_item :: "xfer \<Rightarrow> xfer \<Rightarrow> int \<Rightarrow> (nat \<Rightarrow> bool) \<Rightarrow> sched_build \<Rightarrow> sched_env \<Rightarrow> 'g srv_env
    \<Rightarrow> u64 \<Rightarrow> u64 \<Rightarrow> sched_item \<Rightarrow> 'g sess \<times> sock \<Rightarrow> ('g sess \<times> sock) cres" where
  "do_item sndf rcv fd mok bld e env vm km it x = (case x of (ss, s) \<Rightarrow> (case it of
       Round \<Rightarrow> bindr (sched_serve sndf rcv fd mok bld e env vm km ss s) (\<lambda>(go, ss, s). Inr (ss, s))
     | Other op \<Rightarrow> bindr (las_op_do op (ss_l2 ss)) (\<lambda>l. Inr (ss\<lparr>ss_l2 := l\<rparr>, s))))"

primrec do_items :: "xfer \<Rightarrow> xfer \<Rightarrow> int \<Rightarrow> (nat \<Rightarrow> bool) \<Rightarrow> sched_build \<Rightarrow> sched_env \<Rightarrow> 'g srv_env
    \<Rightarrow> u64 \<Rightarrow> u64 \<Rightarrow> sched_item list \<Rightarrow> 'g sess \<times> sock \<Rightarrow> ('g sess \<times> sock) cres" where
  "do_items sndf rcv fd mok bld e env vm km [] x = Inr x"
| "do_items sndf rcv fd mok bld e env vm km (it # its) x =
     bindr (do_item sndf rcv fd mok bld e env vm km it x) (do_items sndf rcv fd mok bld e env vm km its)"

text \<open>The time in us of \<open>n\<close> requests, the first between the readings \<open>k\<close> and \<open>k + 1\<close> of the clock.\<close>

primrec spent :: "sched_env \<Rightarrow> nat \<Rightarrow> nat \<Rightarrow> int" where
  "spent e k 0 = 0"
| "spent e k (Suc n) = tv_us (be_clock e (k + 1)) - tv_us (be_clock e k) + spent e (k + 2) n"

lemma spent_add: "spent e k (m + n) = spent e k m + spent e (k + 2 * m) n"
  by (induction m arbitrary: k) (simp_all add: algebra_simps)

definition joins :: "sched_item list \<Rightarrow> nat" where
  "joins its = las_joins (List.map_filter (\<lambda>it. case it of Round \<Rightarrow> None | Other op \<Rightarrow> Some op) its)"

lemma joins_simps [simp]:
  "joins [] = 0" "joins (Round # its) = joins its" "joins (Other op # its) = las_joins [op] + joins its"
  by (simp_all add: joins_def List.map_filter_simps las_joins_def)

text \<open>A process in the queue: its slot holds the time \<open>u\<close>, and it reports to the listener of \<open>gpu\<close>.\<close>

definition queued :: "sched_env \<Rightarrow> int \<Rightarrow> string \<Rightarrow> nat \<Rightarrow> nat \<Rightarrow> int \<Rightarrow> 'g sess \<Rightarrow> bool" where
  "queued e gpu tid idx n u ss \<longleftrightarrow> las_holds (be_pid e) gpu idx n u (l2_table (ss_l2 ss))
     \<and> gpu_served gpu tid (ss_l2 ss) \<and> ss_gpu ss = gpu"

lemma las_holds_pid: "las_holds me gpu idx n u sd \<Longrightarrow> me \<in> set (pids sd)"
  by (auto simp: las_holds_def table_inv_def sd_ok_def pids_def)

lemma renice_kept:
  assumes "renice bld e ss = Inr ss'"
  shows "l2_table (ss_l2 ss') = l2_table (ss_l2 ss) \<and> same_env (ss_l2 ss) (ss_l2 ss') \<and> ss_gpu ss' = ss_gpu ss
    \<and> ss_ticks ss' = ss_ticks ss \<and> ss_index ss' = ss_index ss"
  using assms
  by (auto simp: renice_def las_get_priority_def l2_ask_eq las_listen_def pcd_actions bindr_eq_Inr_iff same_env_def
      split: if_splits option.split_asm)

lemma other_execute:
  assumes "pk_method_id p \<noteq> method_num CUDA_SET_DEVICE"
  shows "pkt_execute (sched_handlers bld e env) p (sc, st, l)
    = bindr (pkt_execute (srv_handlers env) p (sc, st)) (\<lambda>(p, sc, st). Inr (p, sc, st, l))"
proof -
  have "pkt_handler (pk_method_id p) \<noteq> Some H_SetDevice"
    using assms unfolding method_of_iff [symmetric]
    by (auto simp: pkt_handler_def split: option.splits method_id.splits)
  then show ?thesis by (auto simp: pkt_execute_def sched_handlers_def split: option.split)
qed

lemma las_add_queue_known:
  assumes "me \<in> set (pids (l2_table l))" and "l2_sem l"
  shows "las_add_queue me w app junk l \<noteq> Inr x"
  using assms by (cases x) (auto simp: las_add_queue_def bindr_eq_Inr_iff l2_ask_eq las_listen_def already_added_pids
      pcd_actions List.map_filter_simps Let_def)

text \<open>A request of a queued process is no \<open>cudaSetDevice\<close>, and its time is added.\<close>

lemma request_charged:
  assumes bld: "sb_las bld" "\<not> sb_fs bld" and q: "queued e gpu tid idx n u ss"
    and r: "sched_execute bld e env vm km p sc ss = Inr (p', sc', ss')"
  shows "queued e gpu tid idx n (u + spent e (ss_ticks ss) 1) ss' \<and> ss_ticks ss' = ss_ticks ss + 2
    \<and> ss_index ss' = ss_index ss"
proof -
  let ?p = "p\<lparr>pk_is_feedback_packet := 0, pk_vmmap := vm, pk_kmap := km\<rparr>"
  let ?b = "be_clock e (ss_ticks ss)" and ?a = "be_clock e (ss_ticks ss + 1)"
  have me: "be_pid e \<in> set (pids (l2_table (ss_l2 ss)))" and sem: "l2_sem (ss_l2 ss)" and g: "ss_gpu ss = gpu"
    using q las_holds_pid by (auto simp: queued_def gpu_served_def)
  obtain p1 st l where x: "pkt_execute (sched_handlers bld e env) ?p (sc, ss_st ss, ss_l2 ss) = Inr (p1, sc', st, l)"
    and a: "account bld e (p1\<lparr>pk_vmmap := 0, pk_kmap := 0\<rparr>) ?b ?a
      (ss\<lparr>ss_st := st, ss_l2 := l, ss_ticks := ss_ticks ss + 2\<rparr>) = Inr ss'"
    using r by (auto simp: sched_execute_def bindr_eq_Inr_iff Let_def)
  have m: "pk_method_id p \<noteq> method_num CUDA_SET_DEVICE"
  proof
    assume "pk_method_id p = method_num CUDA_SET_DEVICE"
    then show False
      using x bld las_add_queue_known [OF me sem]
      by (auto simp: set_device_execute set_device_sched_def enter_las_def bindr_eq_Inr_iff)
  qed
  then have l: "l = ss_l2 ss" and "pk_method_id p1 = pk_method_id p"
    using x pkt_execute_method [of env ?p sc "ss_st ss"] by (auto simp: other_execute bindr_eq_Inr_iff)
  then obtain l' where n: "las_notify_scheduler (be_pid e) ?b ?a gpu (pcd_gpuid (be_junk e)) (ss_l2 ss) = Inr l'"
    and s: "ss_l2 ss' = l'" "ss_gpu ss' = gpu" "ss_ticks ss' = ss_ticks ss + 2" "ss_index ss' = ss_index ss"
    using a m bld g by (auto simp: account_def after_las_def bindr_eq_Inr_iff Let_def)
  obtain l'' where "las_op_do (Report (be_pid e) ?b ?a gpu (pcd_gpuid (be_junk e))) (ss_l2 ss) = Inr l''"
    "same_env (ss_l2 ss) l''" "las_holds (be_pid e) gpu idx n (u + (tv_us ?a - tv_us ?b)) (l2_table l'')"
    using las_op_mine q unfolding queued_def by blast
  then show ?thesis using n s q gpu_served_same_env by (auto simp: queued_def)
qed

lemma sched_serve_cases:
  assumes "sched_serve sndf rcv fd mok bld e env vm km ss s = Inr (go, ss', s')"
  obtains ss1 where "renice bld e ss = Inr ss1"
    "ss' = ss1 \<or> (\<exists>p sc p' sc'. sched_execute bld e env vm km p sc ss1 = Inr (p', sc', ss'))"
proof -
  obtain ss1 where n: "renice bld e ss = Inr ss1"
    using assms by (auto simp: sched_serve_def bindr_eq_Inr_iff)
  then have "ss' = ss1 \<or> (\<exists>p sc p' sc'. sched_execute bld e env vm km p sc ss1 = Inr (p', sc', ss'))"
    using assms by (fastforce simp: sched_serve_def bindr_eq_Inr_iff Let_def split: option.split_asm)
  with n show ?thesis using that by blast
qed

lemma round_charged:
  assumes bld: "sb_las bld" "\<not> sb_fs bld" and q: "queued e gpu tid idx n u ss"
    and r: "sched_serve sndf rcv fd mok bld e env vm km ss s = Inr (go, ss', s')"
  shows "\<exists>k. queued e gpu tid idx n (u + spent e (ss_ticks ss) k) ss' \<and> ss_ticks ss' = ss_ticks ss + 2 * k
    \<and> ss_index ss' = ss_index ss"
proof -
  obtain ss1 where n: "renice bld e ss = Inr ss1"
    and x: "ss' = ss1 \<or> (\<exists>p sc p' sc'. sched_execute bld e env vm km p sc ss1 = Inr (p', sc', ss'))"
    using sched_serve_cases [OF r] by blast
  note k = renice_kept [OF n]
  then have q1: "queued e gpu tid idx n u ss1" using q gpu_served_same_env by (auto simp: queued_def)
  from x show ?thesis
  proof
    assume "ss' = ss1"
    then show ?thesis using q1 k by (intro exI [of _ 0]) simp
  next
    assume "\<exists>p sc p' sc'. sched_execute bld e env vm km p sc ss1 = Inr (p', sc', ss')"
    then show ?thesis using request_charged [OF bld q1] k by (intro exI [of _ 1]) auto
  qed
qed

lemma items_charged:
  assumes bld: "sb_las bld" "\<not> sb_fs bld" and "queued e gpu tid idx n u ss"
    and "\<forall>op. Other op \<in> set its \<longrightarrow> las_actor op \<noteq> be_pid e" and "n + joins its + 1 < MAX_CONTROLLER_COUNT"
    and "do_items sndf rcv fd mok bld e env vm km its (ss, s) = Inr (ss', s')"
  shows "\<exists>k. queued e gpu tid idx (n + joins its) (u + spent e (ss_ticks ss) k) ss'
    \<and> ss_ticks ss' = ss_ticks ss + 2 * k \<and> ss_index ss' = ss_index ss"
  using assms(3-)
proof (induction its arbitrary: ss s n u)
  case Nil
  then show ?case by (intro exI [of _ 0]) simp
next
  case (Cons it its)
  obtain ss1 s1 where i: "do_item sndf rcv fd mok bld e env vm km it (ss, s) = Inr (ss1, s1)"
    and more: "do_items sndf rcv fd mok bld e env vm km its (ss1, s1) = Inr (ss', s')"
    using Cons.prems(4) by (auto simp: bindr_eq_Inr_iff)
  have ot: "\<forall>op. Other op \<in> set its \<longrightarrow> las_actor op \<noteq> be_pid e" using Cons.prems(2) by simp
  show ?case
  proof (cases it)
    case Round
    then obtain go where "sched_serve sndf rcv fd mok bld e env vm km ss s = Inr (go, ss1, s1)"
      using i by (auto simp: do_item_def bindr_eq_Inr_iff)
    from round_charged [OF bld Cons.prems(1) this] obtain k where
      k: "queued e gpu tid idx n (u + spent e (ss_ticks ss) k) ss1" "ss_ticks ss1 = ss_ticks ss + 2 * k"
        "ss_index ss1 = ss_index ss" by blast
    have "n + joins its + 1 < MAX_CONTROLLER_COUNT" using Cons.prems(3) Round by simp
    from Cons.IH [OF k(1) ot this more] k(2,3) show ?thesis
      using Round by (auto simp: spent_add add.assoc intro: exI [of _ "k + _"])
  next
    case (Other op)
    then obtain l where l: "las_op_do op (ss_l2 ss) = Inr l" "ss1 = ss\<lparr>ss_l2 := l\<rparr>"
      using i by (auto simp: do_item_def bindr_eq_Inr_iff)
    have h: "las_holds (be_pid e) gpu idx n u (l2_table (ss_l2 ss))" "n + 1 < MAX_CONTROLLER_COUNT"
      "las_actor op \<noteq> be_pid e"
      using Cons.prems Other by (auto simp: queued_def)
    from las_op_others [OF h l(1)] have k: "queued e gpu tid idx (n + las_joins [op]) u ss1"
      using Cons.prems(1) l(2) gpu_served_same_env by (auto simp: queued_def)
    have "n + las_joins [op] + joins its + 1 < MAX_CONTROLLER_COUNT" using Cons.prems(3) Other by simp
    from Cons.IH [OF k ot this more] l(2) Other show ?thesis by (simp add: add.assoc)
  qed
qed

text \<open>The round in which the process sets its device: it is then in the queue.\<close>

lemma set_device_queues:
  assumes bld: "sb_las bld" "\<not> sb_fs bld" and inv: "table_inv (l2_table (ss_l2 ss))"
    and up: "gpu_served gpu tid (ss_l2 ss)" and new: "be_pid e \<notin> set (pids (l2_table (ss_l2 ss)))"
      "be_pid e \<noteq> INVALID_PROCEESS" and first: "ss_gpu ss = -1" "ss_index ss = -1"
    and r: "sched_serve sndf rcv fd mok bld e env vm km ss s = Inr (go, ss', s')" and g: "ss_gpu ss' = gpu"
  shows "let i = unat (sd_count (l2_table (ss_l2 ss))) in
    queued e gpu tid i 0 (tv_us (sl_execution (sd_slots (l2_table (ss_l2 ss)) ! i))) ss'
    \<and> sint (ss_index ss') = int i"
proof -
  let ?i = "unat (sd_count (l2_table (ss_l2 ss)))"
  have "gpu \<noteq> -1" using up by (simp add: gpu_served_def)
  then obtain p sc p' sc' where x: "sched_execute bld e env vm km p sc ss = Inr (p', sc', ss')"
    using r g first by (fastforce simp: sched_serve_def renice_def bindr_eq_Inr_iff Let_def split: option.split_asm)
  let ?p = "p\<lparr>pk_is_feedback_packet := 0, pk_vmmap := vm, pk_kmap := km\<rparr>"
  let ?b = "be_clock e (ss_ticks ss)" and ?a = "be_clock e (ss_ticks ss + 1)"
  obtain p1 st l where y: "pkt_execute (sched_handlers bld e env) ?p (sc, ss_st ss, ss_l2 ss) = Inr (p1, sc', st, l)"
    and a: "account bld e (p1\<lparr>pk_vmmap := 0, pk_kmap := 0\<rparr>) ?b ?a
      (ss\<lparr>ss_st := st, ss_l2 := l, ss_ticks := ss_ticks ss + 2\<rparr>) = Inr ss'"
    using x by (auto simp: sched_execute_def bindr_eq_Inr_iff Let_def)
  have s: "pk_method_id p1 = method_num CUDA_SET_DEVICE" "argn (pk_arg0 p1) = gpu" "ss_l2 ss' = l"
    "ss_index ss' = pk_signo p1"
    using a bld first(1) g \<open>gpu \<noteq> -1\<close>
    by (auto simp: account_def after_las_def las_notify_scheduler_def Let_def split: if_splits)
  have "pk_method_id p = method_num CUDA_SET_DEVICE"
  proof (rule ccontr)
    assume n: "pk_method_id p \<noteq> method_num CUDA_SET_DEVICE"
    then have "pk_method_id p1 = pk_method_id p"
      using y pkt_execute_method [of env ?p sc "ss_st ss"] by (auto simp: other_execute bindr_eq_Inr_iff)
    then show False using n s(1) by simp
  qed
  then obtain app t where "las_add_queue (be_pid e) (ucast (arg_lo (pk_arg0 p1))) app (be_junk e) (ss_l2 ss) = Inr (t, l)"
    "pk_signo p1 = word_of_int t"
    using y bld by (auto simp: set_device_execute set_device_sched_def nvbackCudaSetDevice_srv_def reply_def
        set_err_def enter_las_def bindr_eq_Inr_iff split: prod.split_asm)
  then have ask: "las_add_queue (be_pid e) (word_of_int gpu) app (be_junk e) (ss_l2 ss) = Inr (t, l)"
    "pk_signo p1 = word_of_int t"
    using s(2) by (auto simp: argn_word [symmetric])
  obtain l' where "las_add_queue (be_pid e) (word_of_int gpu) app (be_junk e) (ss_l2 ss) = Inr (int ?i, l')"
    "las_holds (be_pid e) gpu ?i 0 (tv_us (sl_execution (sd_slots (l2_table (ss_l2 ss)) ! ?i))) (l2_table l')"
    "same_env (ss_l2 ss) l'"
    using las_add_queue_holds [OF inv up new] by blast
  moreover from this have "?i < 500" by (simp add: las_holds_def MAX_CONTROLLER_COUNT_def)
  then have "sint (word_of_int (int ?i) :: u32) = int ?i" using sint_small_nat [of ?i] by simp
  ultimately show ?thesis
    using ask s g up gpu_served_same_env by (auto simp: queued_def Let_def)
qed

section \<open>The scheduler answers a process in its queue\<close>

lemma queued_index:
  assumes "queued e gpu tid idx n u ss"
  shows "length (sd_slots (l2_table (ss_l2 ss))) = MAX_CONTROLLER_COUNT" "idx < MAX_CONTROLLER_COUNT"
    "gpu_served gpu tid (ss_l2 ss)" "ss_gpu ss = gpu"
  using assms by (simp_all add: queued_def las_holds_def table_inv_def sd_ok_def)

lemma renice_ok:
  assumes q: "queued e gpu tid idx n u ss" and i: "sint (ss_index ss) = int idx"
  shows "\<exists>ss'. renice bld e ss = Inr ss' \<and> queued e gpu tid idx n u ss' \<and> ss_st ss' = ss_st ss
    \<and> ss_ticks ss' = ss_ticks ss \<and> ss_index ss' = ss_index ss"
proof -
  note h = queued_index [OF q]
  obtain l x where p: "las_get_priority (be_pid e) (sint (ss_index ss)) (ss_gpu ss) (be_junk e) (ss_l2 ss) = Inr (x, l)"
    using h by (simp add: las_get_priority_def gpu_served_def l2_ask_def las_listen_def PCD_SIZE_def pcd_actions
        i nthr_def las_reply_def List.map_filter_simps)
  then obtain ss' where r: "renice bld e ss = Inr ss'" "ss_st ss' = ss_st ss"
    by (cases "sb_las bld \<and> ss_index ss \<noteq> -1") (auto simp: renice_def)
  from renice_kept [OF r(1)] have "queued e gpu tid idx n u ss'"
    using q gpu_served_same_env by (auto simp: queued_def)
  then show ?thesis using r renice_kept [OF r(1)] by auto
qed

lemma execute_ok:
  assumes bld: "sb_las bld" "\<not> sb_fs bld" and q: "queued e gpu tid idx n u ss"
    and m: "pk_method_id p \<noteq> method_num CUDA_SET_DEVICE"
    and x: "pkt_execute (srv_handlers env) (p\<lparr>pk_is_feedback_packet := 0, pk_vmmap := vm, pk_kmap := km\<rparr>)
      (sc, ss_st ss) = Inr (p', sc', st')"
  shows "\<exists>ss'. sched_execute bld e env vm km p sc ss = Inr (p'\<lparr>pk_vmmap := 0, pk_kmap := 0\<rparr>, sc', ss')
    \<and> ss_st ss' = st' \<and> ss_ticks ss' = ss_ticks ss + 2"
proof -
  have m': "pk_method_id p' \<noteq> method_num CUDA_SET_DEVICE" using pkt_execute_method [OF x] m by simp
  obtain l where "las_notify_scheduler (be_pid e) (be_clock e (ss_ticks ss)) (be_clock e (ss_ticks ss + 1)) gpu
      (pcd_gpuid (be_junk e)) (ss_l2 ss) = Inr l"
    using las_op_mine q unfolding queued_def las_op_do.simps by blast
  then show ?thesis
    using bld m m' x queued_index(4) [OF q]
    by (simp add: sched_execute_def other_execute account_def after_las_def Let_def)
qed

lemma set_device_ok:
  assumes bld: "sb_las bld" "\<not> sb_fs bld" and inv: "table_inv (l2_table (ss_l2 ss))"
    and up: "gpu_served gpu tid (ss_l2 ss)" and new: "be_pid e \<notin> set (pids (l2_table (ss_l2 ss)))"
      "be_pid e \<noteq> INVALID_PROCEESS" and first: "ss_gpu ss = -1"
    and m: "pk_method_id p = method_num CUDA_SET_DEVICE" "argn (pk_arg0 p) = gpu"
  shows "\<exists>p' ss'. sched_execute bld e env vm km p sc ss = Inr (p', sc, ss') \<and> ss_gpu ss' = gpu
    \<and> pk_method_id p' = pk_method_id p \<and> ss_st ss' = (ss_st ss)\<lparr>bs_gpu := bs_gpu (ss_st ss'), bs_isLocal := argn (pk_arg1 p)\<rparr>
    \<and> ss_ticks ss' = ss_ticks ss + 2"
proof -
  have "ucast (arg_lo (pk_arg0 p)) = (word_of_int gpu :: u32)" using m(2) by (simp add: argn_word [symmetric])
  then have "\<exists>r l. las_add_queue (be_pid e) (ucast (arg_lo (pk_arg0 p))) a (be_junk e) (ss_l2 ss) = Inr (r, l)" for a
    using las_add_queue_holds [OF inv up new, of a "be_junk e"] by auto
  then obtain r l where "las_add_queue (be_pid e) (ucast (arg_lo (pk_arg0 p)))
      (if argn (pk_arg1 p) = 0 then 0 else 1) (be_junk e) (ss_l2 ss) = Inr (r, l)" by blast
  then show ?thesis
    using bld m first by (simp add: sched_execute_def set_device_execute set_device_sched_def enter_las_def
        nvbackCudaSetDevice_srv_def reply_def set_err_def account_def after_las_def las_notify_scheduler_def
        Let_def split: prod.split)
qed

lemma sched_serve_ok:
  assumes ok: "xfer_ok rcv" "xfer_ok sndf" "0 \<le> fd" "\<forall>n. mok n"
    and req: "sk_in s = request_bytes p d @ rest" "length d < 2 ^ 31"
    and exec: "renice bld e ss = Inr ss1" "sched_execute bld e env vm km p (conn_req d) ss1 = Inr (p', sc', ss')"
    and rsp: "rsp_ok sc'"
  shows "\<exists>s'. sched_serve sndf rcv fd mok bld e env vm km ss s = Inr (True, ss', s') \<and> sk_in s' = rest"
proof -
  let ?strm = "\<lparr>st_batch_size = 0, st_num_cuda_pkts = 1, st_data_size = word_of_nat (length d),
      st_rpkts = p' # replicate (MAX_REMOTE_BATCH_SIZE - 1) zero_packet\<rparr>"
  obtain k where k: "backend_receive rcv fd mok s = Inr (Some (Some
    (\<lparr>st_batch_size = 0, st_num_cuda_pkts = 1, st_data_size = word_of_nat (length d),
      st_rpkts = p # replicate (MAX_REMOTE_BATCH_SIZE - 1) zero_packet\<rparr>, conn_req d)),
    s\<lparr>sk_in := rest, sk_calls := k\<rparr>)"
    using backend_receive_ok [OF ok(1,3) _ req(2) ok(4), of s p rest] req(1) by auto
  have "\<exists>s'. backend_respond sndf fd ?strm p' sc' (s\<lparr>sk_in := rest, sk_calls := k\<rparr>) = Inr (True, s')
    \<and> sk_in s' = rest"
  proof (cases "method_expects_response (pk_method_id p')")
    case True
    then show ?thesis
      using backend_respond_ok [OF ok(2,3), of ?strm p' _ sc' "s\<lparr>sk_in := rest, sk_calls := k\<rparr>"] rsp by auto
  next
    case False
    then have "strm_expects_response ?strm = Inr 0" using strm_expects_response_single [of ?strm p'] by simp
    then show ?thesis by (simp add: backend_respond_def)
  qed
  then show ?thesis using k exec by (auto simp: sched_serve_def Let_def)
qed

lemma queued_leaves:
  assumes bld: "sb_las bld" "\<not> sb_fs bld" and q: "queued e gpu tid idx n u ss"
  shows "\<exists>ss'. leave_queue bld e ss = Inr ss' \<and> table_inv (l2_table (ss_l2 ss'))
    \<and> be_pid e \<notin> set (pids (l2_table (ss_l2 ss')))"
proof -
  let ?pcd = "(be_junk e)\<lparr>pcd_pid := be_pid e, pcd_action := REM_Q\<rparr>" and ?l = "ss_l2 ss"
  have h: "table_inv (l2_table ?l)" "be_pid e \<noteq> INVALID_PROCEESS" "sl_process (sd_slots (l2_table ?l) ! idx) = be_pid e"
    "sl_gpu (sd_slots (l2_table ?l) ! idx) = gpu"
    using q by (auto simp: queued_def las_holds_def)
  have m: "\<exists>x \<in> set (sd_slots (l2_table ?l)). sl_process x = be_pid e \<and> sl_gpu x = gpu"
    using h(3,4) queued_index(1,2) [OF q] nth_mem by metis
  obtain l where "l2_send (las_queue_request ?pcd) tid ?l = Inr l" "table_inv (l2_table l)"
      "be_pid e \<notin> set (pids (l2_table l))"
    using las_server.send_leave [where pcd = ?pcd and f = "\<lambda>_. []" and s = ?l and g = gpu and tid = tid] h(1,2) m
      queued_index(3) [OF q]
    unfolding las_queue_request_def by (auto simp: gpu_served_def)
  then show ?thesis using bld queued_index(3,4) [OF q]
    by (simp add: leave_queue_def las_rem_queue_def gpu_served_def)
qed

text \<open>C12. With the least-attained-service scheduler the backend process of a connection enters the
  queue of its device in the round of its first \<open>cudaSetDevice\<close>. Whatever it serves after that, and
  whatever other processes do with the scheduler in between (fewer than 499 of them enter), the
  time the scheduler has for it is what the slot held before plus the time of all requests it
  executed since; the request that set the device is not counted. When the connection ends, it is
  not in the table any more.\<close>

theorem las_charges_requests:
  assumes "sb_las bld" and "\<not> sb_fs bld" and "table_inv (l2_table (ss_l2 ss))"
    and "gpu_served gpu tid (ss_l2 ss)" and "be_pid e \<notin> set (pids (l2_table (ss_l2 ss)))"
    and "be_pid e \<noteq> INVALID_PROCEESS" and "ss_gpu ss = -1" and "ss_index ss = -1"
    and "sched_serve sndf rcv fd mok bld e env vm km ss s = Inr (go, ss1, s1)" and "ss_gpu ss1 = gpu"
    and "do_items sndf rcv fd mok bld e env vm km its (ss1, s1) = Inr (ss2, s2)"
    and "\<forall>op. Other op \<in> set its \<longrightarrow> las_actor op \<noteq> be_pid e" and "joins its < 499"
  shows "\<exists>k ty t ss3. ss_ticks ss2 = ss_ticks ss1 + 2 * k
    \<and> las_get_l2_data (be_pid e) gpu (sint (ss_index ss2)) junk (ss_l2 ss2) = Inr (0, Some (ty, t), ss_l2 ss2)
    \<and> tv_us t = tv_us (sl_execution (sd_slots (l2_table (ss_l2 ss)) ! unat (sd_count (l2_table (ss_l2 ss)))))
        + spent e (ss_ticks ss1) k
    \<and> leave_queue bld e ss2 = Inr ss3 \<and> be_pid e \<notin> set (pids (l2_table (ss_l2 ss3)))"
proof -
  let ?i = "unat (sd_count (l2_table (ss_l2 ss)))"
  let ?u = "tv_us (sl_execution (sd_slots (l2_table (ss_l2 ss)) ! ?i))"
  have q: "queued e gpu tid ?i 0 ?u ss1" and i: "sint (ss_index ss1) = int ?i"
    using set_device_queues [OF assms(1-10)] by (auto simp: Let_def)
  have "0 + joins its + 1 < MAX_CONTROLLER_COUNT" using assms(13) by (simp add: MAX_CONTROLLER_COUNT_def)
  from items_charged [OF assms(1,2) q assms(12) this assms(11)] obtain k where
    k: "queued e gpu tid ?i (0 + joins its) (?u + spent e (ss_ticks ss1) k) ss2"
      "ss_ticks ss2 = ss_ticks ss1 + 2 * k" "ss_index ss2 = ss_index ss1" by blast
  obtain ty t where "las_get_l2_data (be_pid e) gpu (int ?i) junk (ss_l2 ss2) = Inr (0, Some (ty, t), ss_l2 ss2)"
    "tv_us t = ?u + spent e (ss_ticks ss1) k"
    using las_get_l2_data_holds k(1) unfolding queued_def by blast
  moreover obtain ss3 where "leave_queue bld e ss2 = Inr ss3" "be_pid e \<notin> set (pids (l2_table (ss_l2 ss3)))"
    using queued_leaves [OF assms(1,2) k(1)] by blast
  ultimately show ?thesis using k(2,3) i by auto
qed

definition las_build :: sched_build where
  "las_build = \<lparr>sb_fs = False, sb_las = True\<rparr>"

definition demo_sched :: sched_env where
  "demo_sched = \<lparr>be_pid = 9, be_clock = (\<lambda>k. \<lparr>tv_sec = int k * int k, tv_usec = 7\<rparr>), be_junk = demo_pcd\<rparr>"

lemma demo_sched_sel [simp]: "be_pid demo_sched = 9" "be_junk demo_sched = demo_pcd"
  by (simp_all add: demo_sched_def)

lemma las_leave_ok:
  assumes "gpu_served gpu tid l"
  shows "\<exists>l'. las_op_do (Leave pid q gpu junk) l = Inr l'"
proof -
  obtain sd where "las_remove gpu pid (l2_table l) = Inr sd" using las_table.remove_ok by blast
  then show ?thesis using assms
    by (simp add: las_rem_queue_def gpu_served_def l2_send_def las_queue_request_def las_listen_def
        PCD_SIZE_def pcd_actions)
qed

lemma demo_joined:
  "\<exists>ss1 s1. sched_serve (\<lambda>k n. 1) (\<lambda>k n. int n) 4 (\<lambda>n. True) las_build demo_sched demo_srv 0 0
        (sess_start (demo_st []) demo_l2 0) (idle (request_bytes (demo_packet CUDA_SET_DEVICE 1 0 0) [] @ rest))
      = Inr (True, ss1, s1) \<and> sk_in s1 = rest \<and> ss_gpu ss1 = 1 \<and> ss_ticks ss1 = 2
    \<and> queued demo_sched 1 ''141'' 0 0 0 ss1 \<and> sint (ss_index ss1) = 0"
proof -
  let ?p = "demo_packet CUDA_SET_DEVICE 1 0 0" and ?ss = "sess_start (demo_st []) demo_l2 0"
  have l: "ss_l2 ?ss = demo_l2" "ss_gpu ?ss = -1" "ss_index ?ss = -1" "ss_ticks ?ss = 0"
    by (simp_all add: sess_start_def)
  have b: "sb_las las_build" "\<not> sb_fs las_build" by (simp_all add: las_build_def)
  have t: "table_inv (l2_table demo_l2)" "9 \<notin> set (pids (l2_table demo_l2))" "(9 :: int) \<noteq> INVALID_PROCEESS"
    using pids_zero [of 9] by (simp_all add: demo_l2_table table_inv_zero INVALID_PROCEESS_def)
  obtain p1 ss1 where x1: "sched_execute las_build demo_sched demo_srv 0 0 ?p (conn_req []) ?ss = Inr (p1, conn_req [], ss1)"
    and g: "ss_gpu ss1 = 1" "ss_ticks ss1 = 2"
    using set_device_ok [OF b, of ?ss 1 "''141''" demo_sched ?p demo_srv 0 0 "conn_req []"] t l demo_l2_served
    by (auto simp: argn_def)
  have n0: "renice las_build demo_sched ?ss = Inr ?ss" using l(3) by (simp add: renice_def)
  obtain s1 where r1: "sched_serve (\<lambda>k n. 1) (\<lambda>k n. int n) 4 (\<lambda>n. True) las_build demo_sched demo_srv 0 0 ?ss
      (idle (request_bytes ?p [] @ rest)) = Inr (True, ss1, s1)" "sk_in s1 = rest"
    using sched_serve_ok [OF xfer_ok_all xfer_ok_one _ _ _ _ n0 x1, of 4 "\<lambda>n. True" "idle (request_bytes ?p [] @ rest)" rest]
    by (auto simp: idle_def rsp_ok_def)
  have "queued demo_sched 1 ''141'' 0 0 0 ss1 \<and> sint (ss_index ss1) = 0"
    using set_device_queues [OF b _ _ _ _ _ _ r1(1), of 1 "''141''"] t l g(1) demo_l2_served
    by (simp add: demo_l2_table)
  then show ?thesis using r1 g by blast
qed

text \<open>
  A process sets device 1, another one leaves the queue of the device, and the first synchronises:
  3^2 - 2^2 seconds.
\<close>

lemma las_charges_requests_witness:
  "\<exists>ss1 s1 ss2 s2 ty t. sched_serve (\<lambda>k n. 1) (\<lambda>k n. int n) 4 (\<lambda>n. True) las_build demo_sched demo_srv 0 0
        (sess_start (demo_st []) demo_l2 0) (idle (request_bytes (demo_packet CUDA_SET_DEVICE 1 0 0) []
          @ request_bytes (demo_packet CUDA_THREAD_SYNCHRONIZE 0 0 0) [])) = Inr (True, ss1, s1)
    \<and> do_items (\<lambda>k n. 1) (\<lambda>k n. int n) 4 (\<lambda>n. True) las_build demo_sched demo_srv 0 0
        [Other (Leave 5 5 1 demo_pcd), Round] (ss1, s1) = Inr (ss2, s2)
    \<and> las_get_l2_data 9 1 (sint (ss_index ss2)) demo_pcd (ss_l2 ss2) = Inr (0, Some (ty, t), ss_l2 ss2)
    \<and> tv_us t = 5000000"
proof -
  let ?f = "sched_serve (\<lambda>k n. 1) (\<lambda>k n. int n) 4 (\<lambda>n. True) las_build demo_sched demo_srv 0 0"
  let ?p = "demo_packet CUDA_SET_DEVICE 1 0 0" and ?q = "demo_packet CUDA_THREAD_SYNCHRONIZE 0 0 0"
  let ?ss = "sess_start (demo_st []) demo_l2 0" and ?s = "idle (request_bytes ?p [] @ request_bytes ?q [])"
  have l: "ss_l2 ?ss = demo_l2" "ss_gpu ?ss = -1" "ss_index ?ss = -1" by (simp_all add: sess_start_def)
  have b: "sb_las las_build" "\<not> sb_fs las_build" by (simp_all add: las_build_def)
  have t: "table_inv (l2_table demo_l2)" "9 \<notin> set (pids (l2_table demo_l2))" "(9 :: int) \<noteq> INVALID_PROCEESS"
    using pids_zero [of 9] by (simp_all add: demo_l2_table table_inv_zero INVALID_PROCEESS_def)
  obtain ss1 s1 where r1: "?f ?ss ?s = Inr (True, ss1, s1)" "sk_in s1 = request_bytes ?q []"
    and g: "ss_gpu ss1 = 1" "ss_ticks ss1 = 2" and q1: "queued demo_sched 1 ''141'' 0 0 0 ss1 \<and> sint (ss_index ss1) = 0"
    using demo_joined by blast
  then have up: "gpu_served 1 ''141'' (ss_l2 ss1)" by (simp add: queued_def)
  obtain l1 where l1: "las_op_do (Leave 5 5 1 demo_pcd) (ss_l2 ss1) = Inr l1" using las_leave_ok [OF up] by blast
  let ?ss2 = "ss1\<lparr>ss_l2 := l1\<rparr>"
  have "las_holds 9 1 0 0 0 (l2_table l1) \<and> same_env (ss_l2 ss1) l1"
    using las_op_others [OF _ _ _ l1, of 9 1 0 0 0] q1 by (simp add: queued_def las_joins_def MAX_CONTROLLER_COUNT_def)
  then have q2: "queued demo_sched 1 ''141'' 0 0 0 ?ss2"
    using up gpu_served_same_env [of "ss_l2 ss1" l1] q1 by (simp add: queued_def)
  obtain ss3 where n: "renice las_build demo_sched ?ss2 = Inr ss3" "queued demo_sched 1 ''141'' 0 0 0 ss3"
    "ss_ticks ss3 = 2" using renice_ok [OF q2, of las_build] q1 g(2) by auto
  have "pkt_execute (srv_handlers demo_srv) (?q\<lparr>pk_is_feedback_packet := 0, pk_vmmap := 0, pk_kmap := 0\<rparr>)
      (conn_req [], ss_st ss3) = Inr (set_err 0 (?q\<lparr>pk_is_feedback_packet := 0, pk_vmmap := 0, pk_kmap := 0\<rparr>),
        conn_req [], ss_st ss3)"
    by (simp add: pkt_execute_def pkt_handler_def srv_handlers_def srv_handler_def
        nvbackCudaThreadSynchronize_srv_def reply_def demo_srv_def)
  from execute_ok [OF b n(2) _ this] obtain ss4 q' where x2: "sched_execute las_build demo_sched demo_srv 0 0 ?q
      (conn_req []) ss3 = Inr (q', conn_req [], ss4)" "ss_ticks ss4 = 4"
    using n(3) by (auto simp: method_num_inj)
  obtain s2 where r2: "?f ?ss2 s1 = Inr (True, ss4, s2)"
    using sched_serve_ok [OF xfer_ok_all xfer_ok_one _ _ _ _ n(1) x2(1), of 4 "\<lambda>n. True" s1 "[]"] r1(2)
    by (auto simp: rsp_ok_def)
  have i: "do_items (\<lambda>k n. 1) (\<lambda>k n. int n) 4 (\<lambda>n. True) las_build demo_sched demo_srv 0 0
      [Other (Leave 5 5 1 demo_pcd), Round] (ss1, s1) = Inr (ss4, s2)"
    using l1 r2 by (simp add: do_item_def)
  obtain k ty t where "ss_ticks ss4 = ss_ticks ss1 + 2 * k"
    "las_get_l2_data 9 1 (sint (ss_index ss4)) demo_pcd (ss_l2 ss4) = Inr (0, Some (ty, t), ss_l2 ss4)"
    "tv_us t = spent demo_sched (ss_ticks ss1) k"
    using las_charges_requests [OF b _ _ _ _ _ _ r1(1) _ i, of 1 "''141''" demo_pcd] t l g(1) demo_l2_served
    by (auto simp: demo_l2_table las_joins_def)
  moreover from this have "k = 1" using g(2) x2(2) by simp
  ultimately show ?thesis
    using r1(1) i g(2) by (intro exI conjI) (auto simp: demo_sched_def tv_us_def)
qed

lemma second_set_device_hangs_witness:
  "\<exists>ss1 s1. sched_serve (\<lambda>k n. 1) (\<lambda>k n. int n) 4 (\<lambda>n. True) las_build demo_sched demo_srv 0 0
        (sess_start (demo_st []) demo_l2 0) (idle (request_bytes (demo_packet CUDA_SET_DEVICE 1 0 0) []))
      = Inr (True, ss1, s1)
    \<and> sched_execute las_build demo_sched demo_srv 0 0 (demo_packet CUDA_SET_DEVICE 1 0 0) (conn_req []) ss1 = Inl Hangs"
proof -
  obtain ss1 s1 where r: "sched_serve (\<lambda>k n. 1) (\<lambda>k n. int n) 4 (\<lambda>n. True) las_build demo_sched demo_srv 0 0
        (sess_start (demo_st []) demo_l2 0) (idle (request_bytes (demo_packet CUDA_SET_DEVICE 1 0 0) []))
      = Inr (True, ss1, s1)" and q: "queued demo_sched 1 ''141'' 0 0 0 ss1"
    using demo_joined [of "[]"] by auto
  have "9 \<in> set (pids (l2_table (ss_l2 ss1)))" "gpu_served 1 ''141'' (ss_l2 ss1)"
    using q las_holds_pid by (auto simp: queued_def)
  then have "sched_execute las_build demo_sched demo_srv 0 0 (demo_packet CUDA_SET_DEVICE 1 0 0) (conn_req []) ss1 = Inl Hangs"
    by (intro second_set_device_hangs) (simp_all add: las_build_def argn_def)
  then show ?thesis using r by blast
qed

section \<open>Fair share\<close>

lemma sched_serve_consumes:
  assumes "sched_serve sndf rcv fd mok bld e env vm km ss s = Inr (True, ss', s')"
  shows "length (sk_in s') + 8 \<le> length (sk_in s)"
proof -
  obtain ss1 where "renice bld e ss = Inr ss1" using assms by (auto simp: sched_serve_def bindr_eq_Inr_iff)
  then show ?thesis
    using assms unfolding sched_serve_def
    by (intro receive_then_consumes [where k = "\<lambda>req s. case req of None \<Rightarrow> Inr (False, ss1, s)
        | Some None \<Rightarrow> Inr (True, ss1, s) | Some (Some (strm, sc)) \<Rightarrow>
            bindr (nthr (st_rpkts strm) 0) (\<lambda>p.
            bindr (sched_execute bld e env vm km p sc ss1) (\<lambda>(p, sc, ss).
            let strm = strm\<lparr>st_rpkts := (st_rpkts strm)[0 := p]\<rparr> in
            bindr (backend_respond sndf fd strm p sc s) (\<lambda>(go, s). Inr (go, ss, s))))"])
      (auto simp: bindr_eq_Inr_iff Let_def dest!: backend_respond_input split: option.split_asm)
qed

lemma sched_conn_ends: "\<exists>r. sched_conn sndf rcv fd mok bld e env vm km ss s = Some r"
proof -
  have "\<exists>r. conn_loop (sched_serve sndf rcv fd mok bld e env vm km) ss s = Some r \<and> (\<forall>f. r = Inl f \<longrightarrow> True)"
    by (rule conn_loop_ends) (drule sched_serve_consumes, simp_all)
  then show ?thesis by (auto simp: sched_conn_def)
qed

text \<open>What every round keeps the whole loop keeps.\<close>

lemma conn_loop_keeps:
  assumes "\<And>st s st' s'. serve st s = Inr (True, st', s') \<Longrightarrow> length (sk_in s') < length (sk_in s)"
    and "\<And>st s go st' s'. P st \<Longrightarrow> serve st s = Inr (go, st', s') \<Longrightarrow> P st'"
    and "P st" and "conn_loop serve st s = Some (Inr (st', s'))"
  shows "P st'"
  using assms(3,4)
proof (induction "length (sk_in s)" arbitrary: st s rule: less_induct)
  case less
  obtain go st1 s1 where x: "serve st s = Inr (go, st1, s1)"
    using less.prems(2) by (auto simp: conn_loop.simps [of serve st s] split: sum.split_asm)
  have p: "P st1" using assms(2) less.prems(1) x by blast
  show ?case
  proof (cases go)
    case True
    then have "length (sk_in s1) < length (sk_in s)" "conn_loop serve st1 s1 = Some (Inr (st', s'))"
      using assms(1) x less.prems(2) by (simp_all add: conn_loop_go)
    then show ?thesis using less.hyps p by blast
  next
    case False
    then show ?thesis using x p less.prems(2) by (simp add: conn_loop_stop)
  qed
qed

lemma sched_execute_binding:
  assumes "\<not> sb_las bld" and "sched_execute bld e env vm km p sc ss = Inr (p', sc', ss')"
  shows "ss_binding ss' = ss_binding ss"
proof -
  have "ss_binding (charge_time q b a x) = ss_binding x" "ss_binding (after_fs q x) = ss_binding x"
    for q b a and x :: "'a sess"
    by (simp_all add: charge_time_def after_fs_def)
  then show ?thesis using assms by (auto simp: sched_execute_def account_def bindr_eq_Inr_iff Let_def split: if_split_asm)
qed

lemma sched_serve_binding:
  assumes "\<not> sb_las bld" and "sched_serve sndf rcv fd mok bld e env vm km ss s = Inr (go, ss', s')"
  shows "ss_binding ss' = ss_binding ss"
proof -
  obtain ss1 where "renice bld e ss = Inr ss1"
    "ss' = ss1 \<or> (\<exists>p sc p' sc'. sched_execute bld e env vm km p sc ss1 = Inr (p', sc', ss'))"
    using sched_serve_cases [OF assms(2)] by blast
  then show ?thesis using sched_execute_binding [OF assms(1)] assms(1) by (auto simp: renice_def)
qed

text \<open>With the fair-share scheduler alone a process never sets \<open>gpu_binding\<close>, whatever device it sets:
  what its signal handler reports at the end of a slice is the device it had before.\<close>

theorem fair_share_never_binds:
  assumes "\<not> sb_las bld" and "sched_conn sndf rcv fd mok bld e env vm km ss s = Some (Inr (ss', s'))"
  shows "ss_binding ss' = ss_binding ss"
proof -
  obtain ss1 s1 where l: "conn_loop (sched_serve sndf rcv fd mok bld e env vm km) ss s = Some (Inr (ss1, s1))"
    and q: "leave_queue bld e ss1 = Inr ss'"
    using assms(2) by (auto simp: sched_conn_def bindr_eq_Inr_iff)
  have "ss_binding ss1 = ss_binding ss"
    by (rule conn_loop_keeps [where P = "\<lambda>x. ss_binding x = ss_binding ss", OF _ _ _ l])
      (use sched_serve_consumes sched_serve_binding [OF assms(1)] in \<open>fastforce+\<close>)
  moreover have "ss_binding ss' = ss_binding ss1"
    using q assms(1) by (auto simp: leave_queue_def bindr_eq_Inr_iff split: if_split_asm)
  ultimately show ?thesis by simp
qed

end
