(* ===== verification/Cfs_Processes.thy ===== *)
theory Cfs_Processes
  imports Cfs
begin

text \<open>
  The processes of the first scheduler and their signals, backend/libcfsscheduler.c, below the
  processes of \<open>Cfs\<close> that are asleep or awake; and the start and the clean-up of the scheduler,
  \<open>start_scheduler\<close>, \<open>main\<close> and \<open>sem_cleanup_and_exit\<close> of l2scheduler/cfs_scheduler.c.
\<close>

section \<open>The signals of a process\<close>

text \<open>
  The blocked signals, those with the handler \<open>mysignalhandler1\<close>, the pending ones, and the handlers
  that run, the innermost first: each of them waits in \<open>sigwaitinfo\<close> for its own signal.
\<close>

record cfs_proc =
  pr_blocked :: "int set"
  pr_handlers :: "int set"
  pr_pending :: "int list"
  pr_stack :: "int list"

text \<open>
  While handlers run, their signals are blocked and those of \<open>hm\<close>: \<open>register_handler\<close> does not set
  \<open>sa_mask\<close>.
\<close>

definition cfs_mask :: "int set \<Rightarrow> int set \<Rightarrow> int list \<Rightarrow> int set" where
  "cfs_mask hm blk st = blk \<union> set st \<union> (if st = [] then {} else hm)"

text \<open>
  A handler has returned to the handlers \<open>st\<close>, whose \<open>sigwaitinfo\<close> it has interrupted. The lowest of the
  pending signals that are not blocked is delivered; its handler goes on at once when the signal is
  pending a second time. When there is none, the next handler returns too.
\<close>

function cfs_settle :: "int set \<Rightarrow> cfs_proc \<Rightarrow> int list \<Rightarrow> int list \<Rightarrow> cfs_proc cres" where
  "cfs_settle hm p st pend =
     (case filter (\<lambda>g. g \<notin> cfs_mask hm (pr_blocked p) st) pend of
        [] \<Rightarrow> (case st of [] \<Rightarrow> Inr (p\<lparr>pr_stack := [], pr_pending := pend\<rparr>)
              | h # ws \<Rightarrow> cfs_settle hm p ws pend)
      | g # gs \<Rightarrow> (let sg = fold min gs g; pend' = remove1 sg pend in
          if sg \<notin> pr_handlers p then Inl Killed
          else if sg \<in> set pend' then cfs_settle hm p st (remove1 sg pend')
          else Inr (p\<lparr>pr_stack := sg # st, pr_pending := pend'\<rparr>)))"
  by pat_completeness auto
termination
proof (relation "measure (\<lambda>(hm, p, st, pend). length st + length pend)", goal_cases)
  case 1
  then show ?case by simp
next
  case 2
  then show ?case by simp
next
  case (3 hm p st pend g gs sg pend')
  then have "sg \<in> set pend'" "pend' = remove1 sg pend" by auto
  moreover have "length (remove1 sg pend) \<le> length pend" by (simp add: length_remove1)
  moreover have "0 < length pend'" using \<open>sg \<in> set pend'\<close> by (cases pend') auto
  ultimately have "length (remove1 sg pend') < length pend" by (simp add: length_remove1 split: if_splits)
  then show ?case by simp
qed

declare cfs_settle.simps [simp del]

text \<open>A signal for the process: \<open>sigwaitinfo\<close> takes the one it waits for, though it is blocked.\<close>

definition cfs_receive :: "int set \<Rightarrow> int \<Rightarrow> cfs_proc \<Rightarrow> cfs_proc cres" where
  "cfs_receive hm sg p =
     (if pr_stack p \<noteq> [] \<and> hd (pr_stack p) = sg then cfs_settle hm p (tl (pr_stack p)) (pr_pending p)
      else if sg \<in> cfs_mask hm (pr_blocked p) (pr_stack p) then Inr (p\<lparr>pr_pending := pr_pending p @ [sg]\<rparr>)
      else if sg \<in> pr_handlers p then Inr (p\<lparr>pr_stack := sg # pr_stack p\<rparr>)
      else Inl Killed)"

text \<open>
  \<open>register_handler\<close> unblocks the signal before there is a handler. A number that is no signal changes
  nothing.
\<close>

definition cfs_proc_register :: "int \<Rightarrow> cfs_proc \<Rightarrow> (int \<times> cfs_proc) cres" where
  "cfs_proc_register sg p = (if cfs_register_handler sg \<noteq> 0 then Inr (-1, p)
     else if sg \<in> set (pr_pending p) then Inl Killed
     else Inr (0, p\<lparr>pr_blocked := pr_blocked p - {sg}, pr_handlers := insert sg (pr_handlers p)\<rparr>))"

definition cfs_signal_block_all :: "cfs_proc \<Rightarrow> cfs_proc" where
  "cfs_signal_block_all p = p\<lparr>pr_blocked := pr_blocked p \<union> {SIGRTMIN..SIGRTMAX}\<rparr>"

section \<open>The system with its processes\<close>

record cfs_psys =
  px_data :: cfs_data
  px_thid :: nat
  px_free :: bool
  px_run :: "(int \<times> int) option"
  px_proc :: "int \<Rightarrow> cfs_proc"

text \<open>\<open>sigqueue\<close> refuses what is no signal; the result is not looked at.\<close>

definition cfs_sigqueue :: "int set \<Rightarrow> int \<times> int \<Rightarrow> (int \<Rightarrow> cfs_proc) \<Rightarrow> (int \<Rightarrow> cfs_proc) cres" where
  "cfs_sigqueue hm m procs = (case m of (pid, sg) \<Rightarrow>
     if cfs_register_handler sg = 0
     then bindr (cfs_receive hm sg (procs pid)) (\<lambda>p. Inr (procs(pid := p))) else Inr procs)"

primrec cfs_sigqueues :: "int set \<Rightarrow> (int \<times> int) list \<Rightarrow> (int \<Rightarrow> cfs_proc) \<Rightarrow> (int \<Rightarrow> cfs_proc) cres" where
  "cfs_sigqueues hm [] procs = Inr procs"
| "cfs_sigqueues hm (m # ms) procs = bindr (cfs_sigqueue hm m procs) (cfs_sigqueues hm ms)"

definition px_add :: "int set \<Rightarrow> int \<Rightarrow> u64 \<Rightarrow> cfs_psys \<Rightarrow> cfs_psys cres" where
  "px_add hm pid share s = (let pcd = cfs_add_pcd pid share; d = px_data s in
     if cfs_already_added d pcd then Inr (s\<lparr>px_free := False\<rparr>) else
     bindr (cfs_proc_register (cfs_signum d) (px_proc s pid)) (\<lambda>(err, p).
     bindr (cfs_listen d 24 pcd err) (\<lambda>(d, sigs).
     bindr (cfs_sigqueues hm sigs ((px_proc s)(pid := p))) (\<lambda>procs.
     Inr (s\<lparr>px_data := d, px_proc := procs\<rparr>)))))"

definition px_rem :: "int \<Rightarrow> u64 \<Rightarrow> cfs_psys \<Rightarrow> cfs_psys cres" where
  "px_rem pid junk s = bindr (cfs_listen (px_data s) 24 (cfs_rem_pcd pid junk) 0) (\<lambda>(d, sigs).
     Inr (s\<lparr>px_data := d\<rparr>))"

definition px_turn :: "int set \<Rightarrow> cfs_psys \<Rightarrow> cfs_psys cres" where
  "px_turn hm s = bindr (cfs_control (px_data s) (px_thid s)) (\<lambda>(t, r).
     case r of None \<Rightarrow> Inr (s\<lparr>px_thid := t\<rparr>)
       | Some (p, sg, sh) \<Rightarrow> bindr (cfs_sigqueue hm (p, sg) (px_proc s)) (\<lambda>procs.
           Inr (s\<lparr>px_thid := t, px_run := Some (p, sg), px_proc := procs\<rparr>)))"

definition px_end_turn :: "int set \<Rightarrow> int \<times> int \<Rightarrow> cfs_psys \<Rightarrow> cfs_psys cres" where
  "px_end_turn hm ps s = bindr (cfs_sigqueue hm ps (px_proc s)) (\<lambda>procs.
     Inr (s\<lparr>px_run := None, px_proc := procs\<rparr>))"

text \<open>A process in a handler does nothing else.\<close>

definition px_awake :: "cfs_psys \<Rightarrow> int \<Rightarrow> bool" where
  "px_awake s pid \<longleftrightarrow> pr_stack (px_proc s pid) = []"

inductive px_step :: "int set \<Rightarrow> cfs_psys \<Rightarrow> cfs_psys cres \<Rightarrow> bool" for hm where
  px_step_add: "\<lbrakk>px_free s; 0 < pid; px_awake s pid; \<forall>sg. px_run s \<noteq> Some (pid, sg)\<rbrakk> \<Longrightarrow>
     px_step hm s (px_add hm pid share s)"
| px_step_rem: "\<lbrakk>px_free s; 0 < pid; px_awake s pid\<rbrakk> \<Longrightarrow> px_step hm s (px_rem pid junk s)"
| px_step_turn: "px_run s = None \<Longrightarrow> px_step hm s (px_turn hm s)"
| px_step_end: "px_run s = Some ps \<Longrightarrow> px_step hm s (px_end_turn hm ps s)"

text \<open>The scheduler with processes that have not used it yet.\<close>

definition px_init :: "(int \<Rightarrow> cfs_proc) \<Rightarrow> cfs_psys" where
  "px_init procs = \<lparr>px_data = cfs_init, px_thid = 0, px_free = True, px_run = None, px_proc = procs\<rparr>"

definition cfs_fresh :: "cfs_proc \<Rightarrow> bool" where
  "cfs_fresh p \<longleftrightarrow> pr_pending p = [] \<and> pr_stack p = []"

inductive px_reach :: "int set \<Rightarrow> (int \<Rightarrow> cfs_proc) \<Rightarrow> nat \<Rightarrow> cfs_psys \<Rightarrow> bool" for hm procs where
  px_reach_init: "px_reach hm procs 0 (px_init procs)"
| px_reach_step: "\<lbrakk>px_reach hm procs n s; px_step hm s (Inr s')\<rbrakk> \<Longrightarrow> px_reach hm procs (n + 1) s'"

section \<open>Signals put a process to sleep and wake it\<close>

lemma cfs_receive_toggles:
  assumes "sg \<in> pr_handlers p" "sg \<notin> pr_blocked p" "pr_pending p = []" "pr_stack p = [] \<or> pr_stack p = [sg]"
  shows "cfs_receive hm sg p = Inr (p\<lparr>pr_stack := if pr_stack p = [] then [sg] else []\<rparr>)"
  using assms by (cases p) (auto simp: cfs_receive_def cfs_mask_def cfs_settle.simps)

text \<open>What \<open>Cfs\<close> sees of the system: a process is awake when none of its handlers runs.\<close>

definition px_abs :: "cfs_psys \<Rightarrow> cfs_sys" where
  "px_abs s = \<lparr>cs_data = px_data s, cs_thid = px_thid s, cs_free = px_free s, cs_run = px_run s,
     cs_awake = px_awake s\<rparr>"

lemma px_abs_simps [simp]:
  "cs_data (px_abs s) = px_data s" "cs_thid (px_abs s) = px_thid s" "cs_free (px_abs s) = px_free s"
  "cs_run (px_abs s) = px_run s" "cs_awake (px_abs s) = px_awake s"
  by (simp_all add: px_abs_def)

text \<open>A process that is sent \<open>sg\<close> has the handler and waits for no other signal.\<close>

definition px_ready :: "int \<Rightarrow> cfs_proc \<Rightarrow> bool" where
  "px_ready sg p \<longleftrightarrow> sg \<in> pr_handlers p \<and> sg \<notin> pr_blocked p \<and> (pr_stack p = [] \<or> pr_stack p = [sg])"

definition px_entry :: "cfs_psys \<Rightarrow> nat \<Rightarrow> int \<Rightarrow> int \<Rightarrow> bool" where
  "px_entry s i pid sg \<longleftrightarrow> i < CFS_MAX \<and> cf_valid (px_data s) ! i \<noteq> 0 \<and> pid = cf_process (px_data s) ! i
     \<and> sg = cf_signal (px_data s) ! i"

definition px_inv :: "cfs_psys \<Rightarrow> bool" where
  "px_inv s \<longleftrightarrow> (\<forall>p. pr_pending (px_proc s p) = [])
     \<and> (\<forall>i pid sg. px_entry s i pid sg \<longrightarrow> px_ready sg (px_proc s pid))
     \<and> (\<forall>pid sg. px_run s = Some (pid, sg) \<longrightarrow> px_ready sg (px_proc s pid)
          \<and> (\<forall>i sg'. px_entry s i pid sg' \<longrightarrow> sg' = sg))"

lemma px_invI:
  assumes "\<And>p. pr_pending (px_proc s p) = []"
    and "\<And>i pid sg. px_entry s i pid sg \<Longrightarrow> px_ready sg (px_proc s pid)"
    and "\<And>pid sg. px_run s = Some (pid, sg) \<Longrightarrow> px_ready sg (px_proc s pid)"
    and "\<And>pid sg i sg'. px_run s = Some (pid, sg) \<Longrightarrow> px_entry s i pid sg' \<Longrightarrow> sg' = sg"
  shows "px_inv s"
  unfolding px_inv_def using assms by blast

lemma px_invD:
  assumes "px_inv s"
  shows "pr_pending (px_proc s p) = []" "px_entry s i pid sg \<Longrightarrow> px_ready sg (px_proc s pid)"
    "px_run s = Some (pid, sg) \<Longrightarrow> px_ready sg (px_proc s pid)"
    "px_run s = Some (pid, sg) \<Longrightarrow> px_entry s i pid sg' \<Longrightarrow> sg' = sg"
  using assms unfolding px_inv_def by blast+

lemma px_entry_unique:
  assumes "cfs_table k (px_data s)" "px_entry s i pid sg" "px_entry s j pid sg'"
  shows "i = j \<and> sg = sg'"
proof -
  have "0 < pid" using assms(2) cfs_tableD(9) [OF assms(1)] by (auto simp: px_entry_def)
  then have "i = j" using assms(2,3) cfs_tableD(10) [OF assms(1), of i j] by (auto simp: px_entry_def)
  then show ?thesis using assms(2,3) by (simp add: px_entry_def)
qed

text \<open>One signal to a process that is ready for it.\<close>

definition px_toggle :: "int \<Rightarrow> cfs_proc \<Rightarrow> cfs_proc" where
  "px_toggle sg p = p\<lparr>pr_stack := if pr_stack p = [] then [sg] else []\<rparr>"

lemma px_toggle_simps [simp]:
  "pr_pending (px_toggle sg p) = pr_pending p" "px_ready sg (px_toggle sg p) = (sg \<in> pr_handlers p \<and> sg \<notin> pr_blocked p)"
  "pr_stack (px_toggle sg p) = [] \<longleftrightarrow> pr_stack p \<noteq> []"
  by (auto simp: px_toggle_def px_ready_def)

lemma cfs_sigqueue_ready:
  assumes "px_ready sg (procs pid)" "pr_pending (procs pid) = []" "cfs_register_handler sg = 0"
  shows "cfs_sigqueue hm (pid, sg) procs = Inr (procs(pid := px_toggle sg (procs pid)))"
    "(\<lambda>p. pr_stack ((procs(pid := px_toggle sg (procs pid))) p) = []) = cfs_signal (pid, sg) (\<lambda>p. pr_stack (procs p) = [])"
  using assms cfs_receive_toggles [of sg "procs pid" hm]
  by (auto simp: cfs_sigqueue_def px_ready_def px_toggle_def cfs_signal_def fun_eq_iff)

lemma px_awake_eq: "px_awake s = (\<lambda>p. pr_stack (px_proc s p) = [])"
  by (simp add: px_awake_def fun_eq_iff)

section \<open>The system does what \<open>Cfs\<close> does\<close>

text \<open>A step of the system, seen from \<open>Cfs\<close>.\<close>

definition px_simulates :: "cfs_psys cres \<Rightarrow> cfs_sys cres \<Rightarrow> bool" where
  "px_simulates r r' \<longleftrightarrow> (\<exists>s'. r = Inr s' \<and> px_inv s' \<and> r' = Inr (px_abs s'))"

lemma px_simulatesI: "\<lbrakk>r = Inr s'; px_inv s'; r' = Inr (px_abs s')\<rbrakk> \<Longrightarrow> px_simulates r r'"
  by (auto simp: px_simulates_def)

lemma px_end_simulates:
  assumes inv: "px_inv s" and r: "px_run s = Some ps" and sig: "cfs_register_handler (snd ps) = 0"
  shows "px_simulates (px_end_turn hm ps s) (Inr (cfs_end_turn ps (px_abs s)))"
proof -
  obtain pid sg where ps: "ps = (pid, sg)" by force
  note I = px_invD [OF inv]
  have rd: "px_ready sg (px_proc s pid)" using I(3) r ps by simp
  note Q = cfs_sigqueue_ready [where procs = "px_proc s" and pid = pid and sg = sg, OF rd I(1) sig [unfolded ps snd_conv]]
  let ?s = "s\<lparr>px_run := None, px_proc := (px_proc s)(pid := px_toggle sg (px_proc s pid))\<rparr>"
  have e: "px_entry ?s i p g = px_entry s i p g" for i p g by (simp add: px_entry_def)
  have "px_inv ?s"
  proof (rule px_invI)
    fix i p g assume "px_entry ?s i p g"
    then have en: "px_entry s i p g" unfolding e .
    show "px_ready g (px_proc ?s p)"
      using I(2) [OF en] I(4) [OF r [unfolded ps]] en rd by (auto simp: px_ready_def px_toggle_def)
  qed (use I(1) in auto)
  moreover have "px_end_turn hm ps s = Inr ?s" using Q(1) by (simp add: px_end_turn_def ps)
  moreover have "cfs_end_turn ps (px_abs s) = px_abs ?s"
    using Q(2) by (simp add: cfs_end_turn_def px_abs_def ps px_awake_eq)
  ultimately show ?thesis by (intro px_simulatesI [of _ ?s]) simp_all
qed

lemma px_rem_simulates:
  assumes inv: "px_inv s" and t: "cfs_table k (px_data s)"
  shows "px_simulates (px_rem pid junk s) (cfs_rem pid junk (px_abs s))"
proof -
  let ?s = "s\<lparr>px_data := cfs_remove pid (px_data s)\<rparr>"
  note I = px_invD [OF inv]
  have sg: "cf_signal (cfs_remove pid (px_data s)) = cf_signal (px_data s)"
    by (simp add: cfs_remove_def split: option.splits)
  have e: "px_entry ?s i p g \<Longrightarrow> px_entry s i p g" for i p g
    using cfs_remove_nth [OF t, of i pid] by (simp add: px_entry_def sg)
  have "px_inv ?s"
  proof (rule px_invI)
    show "pr_pending (px_proc ?s p) = []" for p using I(1) by simp
    show "px_ready g (px_proc ?s p)" if "px_entry ?s i p g" for i p g using I(2) [OF e [OF that]] by simp
    show "px_ready g (px_proc ?s p)" if "px_run ?s = Some (p, g)" for p g using I(3) that by simp
    show "g' = g" if "px_run ?s = Some (p, g)" "px_entry ?s i p g'" for p g i g'
      using I(4) [OF _ e [OF that(2)]] that(1) by simp
  qed
  moreover have "px_rem pid junk s = Inr ?s"
    by (simp add: px_rem_def cfs_listen_def cfs_rem_pcd_def CFS_ADD_Q_def CFS_REM_Q_def)
  moreover have "cfs_rem pid junk (px_abs s) = Inr (px_abs ?s)" by (simp add: cfs_rem_eq px_abs_def px_awake_eq)
  ultimately show ?thesis by (intro px_simulatesI [of _ ?s]) simp_all
qed

text \<open>A turn: the process at the position of the control thread gets its signal.\<close>

lemma px_turn_simulates:
  assumes inv: "px_inv s" and t: "cfs_table k (px_data s)" and r: "px_run s = None"
    and c: "px_thid s < max 1 (cf_count (px_data s))"
  shows "px_simulates (px_turn hm s) (cfs_turn (px_abs s))"
proof (cases "cf_count (px_data s) = 0 \<or> cf_valid (px_data s) ! px_thid s = 0")
  case True
  have "\<exists>t. cfs_control (px_data s) (px_thid s) = Inr (t, None)"
    using True c cfs_control_eq [OF t, of "px_thid s"]
    by (cases "cf_count (px_data s) = 0") (auto simp: cfs_control_def)
  then obtain t where t: "cfs_control (px_data s) (px_thid s) = Inr (t, None)" by blast
  let ?s = "s\<lparr>px_thid := t\<rparr>"
  have "px_inv ?s" using inv by (simp add: px_inv_def px_entry_def)
  moreover have "px_turn hm s = Inr ?s" by (simp add: px_turn_def t)
  moreover have "cfs_turn (px_abs s) = Inr (px_abs ?s)" by (simp add: cfs_turn_def px_abs_def t px_awake_eq)
  ultimately show ?thesis by (intro px_simulatesI [of _ ?s]) simp_all
next
  case False
  let ?i = "px_thid s"
  have ci: "?i < cf_count (px_data s)" using c False by (simp add: max_def split: if_splits)
  then have i: "?i < CFS_MAX" using cfs_tableD(7) [OF t] by (simp add: CFS_MAX_def)
  define pid where "pid = cf_process (px_data s) ! ?i"
  define sg where "sg = cf_signal (px_data s) ! ?i"
  define th where "th = (if ?i + 1 < cf_count (px_data s) then ?i + 1 else 0)"
  have en: "px_entry s ?i pid sg" using False i by (simp add: px_entry_def pid_def sg_def)
  have sig: "cfs_register_handler sg = 0" using cfs_tableD(9) [OF t i] False by (simp add: sg_def)
  note I = px_invD [OF inv]
  have rd: "px_ready sg (px_proc s pid)" by (rule I(2) [OF en])
  note Q = cfs_sigqueue_ready [where procs = "px_proc s" and pid = pid and sg = sg, OF rd I(1) sig]
  have ctl: "cfs_control (px_data s) ?i = Inr (th, Some (pid, sg, cf_share (px_data s) ! ?i))"
    using cfs_control_eq [OF t ci] False by (simp add: th_def pid_def sg_def)
  let ?s = "s\<lparr>px_thid := th, px_run := Some (pid, sg), px_proc := (px_proc s)(pid := px_toggle sg (px_proc s pid))\<rparr>"
  have e: "px_entry ?s i p g = px_entry s i p g" for i p g by (simp add: px_entry_def)
  have "px_inv ?s"
  proof (rule px_invI)
    show "pr_pending (px_proc ?s p) = []" for p using I(1) by simp
    show "px_ready g (px_proc ?s p)" if "px_entry ?s i p g" for i p g
      using I(2) [OF that [unfolded e]] px_entry_unique [OF t en, of i g] that [unfolded e] rd
      by (auto simp: px_ready_def px_toggle_def)
    show "px_ready g (px_proc ?s p)" if "px_run ?s = Some (p, g)" for p g
      using that rd by (auto simp: px_ready_def px_toggle_def)
    show "g' = g" if "px_run ?s = Some (p, g)" "px_entry ?s i p g'" for p g i g'
      using px_entry_unique [OF t en, of i g'] that(1) that(2) [unfolded e] by simp
  qed
  moreover have "px_turn hm s = Inr ?s" using Q(1) by (simp add: px_turn_def ctl)
  moreover have "cfs_turn (px_abs s) = Inr (px_abs ?s)"
    using Q(2) by (simp add: cfs_turn_def px_abs_def ctl px_awake_eq)
  ultimately show ?thesis by (intro px_simulatesI [of _ ?s]) simp_all
qed

text \<open>A process that asks for its signal gets it, installs the handler and is put to sleep.\<close>

lemma cfs_register_process_signal:
  "cfs_register_process d pid sg sh = Inr d' \<Longrightarrow> cf_signal d' = (cf_signal d)[cf_count d := sg]"
  by (auto simp: cfs_register_process_def bindr_eq_Inr_iff updr_def split: if_splits)

lemma px_add_simulates:
  assumes inv: "px_inv s" and t: "cfs_table k (px_data s)" and k: "k < 2 ^ 31 - 64"
    and g: "0 < pid" "px_awake s pid" "\<forall>sg. px_run s \<noteq> Some (pid, sg)"
  shows "px_simulates (px_add hm pid sh s) (cfs_add pid sh (px_abs s))"
proof -
  let ?d = "px_data s" and ?sg = "cfs_signum (px_data s)"
  note I = px_invD [OF inv]
  consider (dup) "cfs_already_added ?d (cfs_add_pcd pid sh)"
    | (late) "\<not> cfs_already_added ?d (cfs_add_pcd pid sh)" "cfs_register_handler ?sg \<noteq> 0"
    | (new) "\<not> cfs_already_added ?d (cfs_add_pcd pid sh)" "cfs_register_handler ?sg = 0" by blast
  then show ?thesis
  proof cases
    case dup
    then show ?thesis using inv
      by (intro px_simulatesI [of _ "s\<lparr>px_free := False\<rparr>"])
        (simp_all add: px_add_def cfs_add_def px_inv_def px_entry_def px_abs_def px_awake_eq)
  next
    case late
    let ?s = "s\<lparr>px_data := ?d\<lparr>cf_rt := cf_rt ?d + 1\<rparr>\<rparr>"
    have r: "cfs_register_handler ?sg = -1" using late(2) by (simp add: cfs_register_handler_def split: if_splits)
    have "px_inv ?s" using inv by (simp add: px_inv_def px_entry_def)
    moreover have "px_add hm pid sh s = Inr ?s" using late r
      by (simp add: px_add_def Let_def cfs_proc_register_def cfs_listen_def cfs_add_pcd_def)
    moreover have "cfs_add pid sh (px_abs s) = Inr (px_abs ?s)" using late r
      by (simp add: cfs_add_def Let_def cfs_listen_def cfs_add_pcd_def px_abs_def px_awake_eq)
    ultimately show ?thesis by (intro px_simulatesI [of _ ?s]) simp_all
  next
    case new
    have n: "pid \<notin> set (cf_process ?d)" using new(1) by (simp add: cfs_already_added_def cfs_add_pcd_def)
    have "?sg = 34 + int k" by (rule cfs_signum_eq [OF cfs_tableD(5) [OF t] k])
    then have k30: "k \<le> 30" using new(2) cfs_handler_refuses [of "int k"] by simp
    obtain d' where d': "cfs_register_process (?d\<lparr>cf_rt := cf_rt ?d + 1\<rparr>) pid ?sg sh = Inr d'"
      "cf_process d' = (cf_process ?d)[cf_count ?d := pid]" "cf_valid d' = (cf_valid ?d)[cf_count ?d := 1]"
      using cfs_table_register [OF t k30 g(1) n new(2), of sh] by blast
    have ds: "cf_signal d' = (cf_signal ?d)[cf_count ?d := ?sg]"
      using cfs_register_process_signal [OF d'(1)] by simp
    let ?p = "px_proc s pid"
    let ?q = "?p\<lparr>pr_blocked := pr_blocked ?p - {?sg}, pr_handlers := insert ?sg (pr_handlers ?p)\<rparr>"
    let ?procs = "(px_proc s)(pid := ?q)"
    have rd: "px_ready ?sg (?procs pid)" using g(2) by (simp add: px_ready_def px_awake_def)
    have pe: "pr_pending (?procs pid) = []" using I(1) by simp
    note Q = cfs_sigqueue_ready [where procs = ?procs and pid = pid and sg = ?sg, OF rd pe new(2)]
    let ?s = "s\<lparr>px_data := d', px_proc := ?procs(pid := px_toggle ?sg (?procs pid))\<rparr>"
    have l: "cfs_listen ?d 24 (cfs_add_pcd pid sh) 0 = Inr (d', [(pid, ?sg)])"
      using new(1) d'(1) by (simp add: cfs_listen_def Let_def cfs_add_pcd_def)
    have e: "px_entry ?s i p g' \<Longrightarrow> i = cf_count ?d \<and> p = pid \<and> g' = ?sg \<or> p \<noteq> pid \<and> px_entry s i p g'" for i p g'
      using n cfs_tableD(1,3,4) [OF t]
      by (cases "i = cf_count ?d") (auto simp: px_entry_def d' ds nth_list_update)
    have "px_inv ?s"
    proof (rule px_invI)
      show "pr_pending (px_proc ?s p) = []" for p using I(1) by simp
      show "px_ready g' (px_proc ?s p)" if "px_entry ?s i p g'" for i p g'
        using e [OF that] I(2) [of i p g'] rd by (auto simp: px_ready_def px_toggle_def)
      show "px_ready g' (px_proc ?s p)" if "px_run ?s = Some (p, g')" for p g'
        using that I(3) [of p g'] g(3) by auto
      show "g'' = g'" if "px_run ?s = Some (p, g')" "px_entry ?s i p g''" for p g' i g''
        using that(1) g(3) e [OF that(2)] I(4) [of p g' i g''] by auto
    qed
    moreover have "px_add hm pid sh s = Inr ?s"
      using new l I(1) [of pid] Q(1) by (simp add: px_add_def Let_def cfs_proc_register_def)
    moreover have "cfs_add pid sh (px_abs s) = Inr (px_abs ?s)"
      using new l g(2) Q(2) by (simp add: cfs_add_def Let_def px_abs_def px_awake_eq fun_eq_iff cfs_signal_def)
    ultimately show ?thesis by (intro px_simulatesI [of _ ?s]) simp_all
  qed
qed

text \<open>The signals of the process whose turn it is are valid.\<close>

lemma px_step_simulates:
  assumes st: "px_step hm s r" and inv: "px_inv s" and c: "cfs_inv n (px_abs s)" and n: "n < 2 ^ 31 - 64"
  shows "\<exists>r'. cfs_step (px_abs s) r' \<and> px_simulates r r'"
proof -
  obtain k where k: "k \<le> n" "cfs_table k (px_data s)" and q: "cfs_quiet (px_abs s)"
    using c by (auto simp: cfs_inv_def)
  from st show ?thesis
  proof cases
    case (px_step_add pid share)
    then have "px_simulates r (cfs_add pid share (px_abs s))"
      using px_add_simulates [OF inv k(2) _ px_step_add(3-5), of hm share] k(1) n by simp
    then show ?thesis using px_step_add by (auto intro!: exI step_add)
  next
    case (px_step_rem pid junk)
    then have "px_simulates r (cfs_rem pid junk (px_abs s))" using px_rem_simulates [OF inv k(2), of pid junk] by simp
    then show ?thesis using px_step_rem by (auto intro!: exI step_rem)
  next
    case px_step_turn
    have "px_simulates r (cfs_turn (px_abs s))"
      using px_turn_simulates [OF inv k(2) px_step_turn(2), of hm] q px_step_turn(1) by (simp add: cfs_quiet_def)
    then show ?thesis using px_step_turn by (auto intro!: exI step_turn)
  next
    case (px_step_end ps)
    then have "cfs_register_handler (snd ps) = 0" using q by (cases ps) (simp add: cfs_quiet_def)
    from px_end_simulates [OF inv px_step_end(2) this, of hm]
    have "px_simulates r (Inr (cfs_end_turn ps (px_abs s)))" using px_step_end(1) by simp
    then show ?thesis using px_step_end by (auto intro!: exI step_end)
  qed
qed

lemma px_init_abs:
  assumes "\<forall>p. cfs_fresh (procs p)"
  shows "px_abs (px_init procs) = cfs_start" "px_inv (px_init procs)"
  using assms by (auto simp: px_abs_def px_init_def cfs_start_def px_awake_def cfs_fresh_def px_inv_def
      px_entry_def cfs_init_def)

lemma px_reach_abs:
  assumes "px_reach hm procs n s" "\<forall>p. cfs_fresh (procs p)" "n < 2 ^ 31 - 64"
  shows "cfs_reach n (px_abs s) \<and> px_inv s"
  using assms(1,3)
proof (induction rule: px_reach.induct)
  case px_reach_init
  then show ?case using px_init_abs [OF assms(2)] cfs_reach_start by simp
next
  case (px_reach_step n s s')
  then have IH: "cfs_reach n (px_abs s)" "px_inv s" by simp_all
  moreover have "cfs_inv n (px_abs s)" using cfs_reach_inv [OF IH(1)] px_reach_step.prems by simp
  ultimately obtain r' where "cfs_step (px_abs s) r'" "px_simulates (Inr s') r'"
    using px_step_simulates [OF px_reach_step(2), of n] px_reach_step.prems by auto
  then show ?case using cfs_reach.reach_step [OF IH(1)] by (auto simp: px_simulates_def)
qed

text \<open>C16. The signals of the first scheduler do what its table says. Whatever the processes block, and
  whatever is blocked while a handler runs, every run of the scheduler with the handlers of its processes
  is a run of the scheduler that puts processes to sleep and wakes them; no signal ends a process, none
  stays pending, and a process of the table that is not at its turn waits in the handler of its own
  signal.\<close>

theorem cfs_signals_refine:
  assumes "px_reach hm procs n s" and "\<forall>p. cfs_fresh (procs p)" and "n < 2 ^ 31 - 64"
  shows "cfs_reach n (px_abs s) \<and> (\<forall>r. px_step hm s r \<longrightarrow> (\<exists>s'. r = Inr s'))
    \<and> (\<forall>p. pr_pending (px_proc s p) = [])
    \<and> (\<forall>i pid sg. px_entry s i pid sg \<and> px_run s \<noteq> Some (pid, sg) \<longrightarrow> pr_stack (px_proc s pid) = [sg])"
proof -
  have R: "cfs_reach n (px_abs s)" "px_inv s" using px_reach_abs [OF assms] by simp_all
  have C: "cfs_inv n (px_abs s)" by (rule cfs_reach_inv [OF R(1) assms(3)])
  then have q: "cfs_quiet (px_abs s)" by (simp add: cfs_inv_def)
  have 1: "\<exists>s'. r = Inr s'" if "px_step hm s r" for r
    using px_step_simulates [OF that R(2) C assms(3)] by (auto simp: px_simulates_def)
  have 2: "pr_stack (px_proc s pid) = [sg]" if "px_entry s i pid sg" "px_run s \<noteq> Some (pid, sg)" for i pid sg
  proof -
    have "px_run s \<noteq> Some (pid, sg')" for sg' using px_invD(4) [OF R(2) _ that(1)] that(2) by blast
    then have "\<not> px_awake s pid" using q that(1) by (auto simp: cfs_quiet_def px_entry_def)
    then show ?thesis using px_invD(2) [OF R(2) that(1)] by (auto simp: px_awake_def px_ready_def)
  qed
  show ?thesis using R(1) 1 2 px_invD(1) [OF R(2)] by blast
qed

definition idle_proc :: cfs_proc where
  "idle_proc = \<lparr>pr_blocked = {SIGRTMIN..SIGRTMAX}, pr_handlers = {}, pr_pending = [], pr_stack = []\<rparr>"

theorem cfs_signals_refine_witness:
  "\<exists>s. px_add {} 7 5 (px_init (\<lambda>_. idle_proc)) = Inr s \<and> pr_stack (px_proc s 7) = [34]"
proof -
  let ?s0 = "px_init (\<lambda>_. idle_proc)"
  have f: "\<forall>p. cfs_fresh ((\<lambda>_ :: int. idle_proc) p)" by (simp add: cfs_fresh_def idle_proc_def)
  have st: "px_step {} ?s0 (px_add {} 7 5 ?s0)"
    by (rule px_step_add) (simp_all add: px_init_def px_awake_def idle_proc_def)
  have sg: "cfs_signum cfs_init = 34" by (simp add: cfs_signum_def cfs_init_def SIGRTMIN_def)
  have "\<exists>s. px_add {} 7 5 ?s0 = Inr s \<and> px_entry s 0 7 34 \<and> px_run s = None"
    using sg by (simp add: px_init_def px_add_def cfs_already_added_def cfs_init_def cfs_add_pcd_def CFS_MAX_def
        cfs_proc_register_def cfs_register_handler_def SIGRTMAX_def idle_proc_def cfs_listen_def Let_def
        cfs_register_process_def cfs_sigqueue_def cfs_receive_def cfs_mask_def px_entry_def)
  then obtain s where s: "px_add {} 7 5 ?s0 = Inr s" "px_entry s 0 7 34" "px_run s = None" by blast
  have "px_reach {} (\<lambda>_. idle_proc) (0 + 1) s"
    using px_reach_step [OF px_reach_init] st s(1) by metis
  then show ?thesis using cfs_signals_refine [OF _ f, of "{}" 1 s] s by auto
qed

section \<open>Start and clean-up\<close>

text \<open>
  The node: whether the semaphore and the FIFO of the listener exist, the processes with a FIFO each way,
  and the scheduler when there is one.
\<close>

record cfs_node =
  cn_sem :: bool
  cn_listen :: bool
  cn_write :: "int set"
  cn_read :: "int set"
  cn_sched :: "cfs_psys option"

datatype cfs_outcome = Returned int | Joined

text \<open>
  \<open>start_scheduler\<close> fails at \<open>semget (..., IPC_CREAT | IPC_EXCL)\<close> or joins its two threads, which do not
  end. The first thing the listener does is to create its FIFO and to clear \<open>valid\<close>. \<open>room\<close> says
  whether the system can have another semaphore.
\<close>

definition cfs_listen_start :: "cfs_data \<Rightarrow> cfs_data" where
  "cfs_listen_start d = d\<lparr>cf_valid := map (\<lambda>_. 0) (cf_valid d)\<rparr>"

definition cfs_globals :: cfs_data where
  "cfs_globals = \<lparr>cf_process = replicate CFS_MAX 0, cf_share = replicate CFS_MAX 0,
     cf_signal = replicate CFS_MAX 0, cf_valid = replicate CFS_MAX 0, cf_count = 0, cf_rt = 0\<rparr>"

definition cfs_start_scheduler :: "bool \<Rightarrow> (int \<Rightarrow> cfs_proc) \<Rightarrow> cfs_node \<Rightarrow> cfs_outcome \<times> cfs_node" where
  "cfs_start_scheduler room procs nd = (if cn_sem nd \<or> \<not> room then (Returned (-1), nd) else
     (Joined, nd\<lparr>cn_sem := True, cn_listen := True, cn_sched := Some \<lparr>px_data = cfs_listen_start cfs_globals,
        px_thid = 0, px_free = True, px_run = None, px_proc = procs\<rparr>\<rparr>))"

text \<open>\<open>main\<close> blocks the signals and does not look at the result.\<close>

definition cfs_main :: "bool \<Rightarrow> (int \<Rightarrow> cfs_proc) \<Rightarrow> cfs_proc \<Rightarrow> cfs_node \<Rightarrow> cfs_proc \<times> cfs_outcome \<times> cfs_node" where
  "cfs_main room procs self nd = (let (r, nd) = cfs_start_scheduler room procs nd in
     (cfs_signal_block_all self, case r of Returned _ \<Rightarrow> Returned 0 | Joined \<Rightarrow> Joined, nd))"

definition cfs_cleanup_and_exit :: "cfs_node \<Rightarrow> cfs_node" where
  "cfs_cleanup_and_exit nd = nd\<lparr>cn_listen := False, cn_write := {}, cn_read := {}, cn_sem := False, cn_sched := None\<rparr>"

text \<open>
  The calls of the clients up to \<open>P\<close>. \<open>add_queue\<close> creates its FIFOs before it looks for the semaphore;
  without a scheduler behind it, it waits for the answer that does not come.
\<close>

definition cfs_add_queue :: "int set \<Rightarrow> int \<Rightarrow> u64 \<Rightarrow> cfs_node \<Rightarrow> (int \<times> cfs_node) cres" where
  "cfs_add_queue hm pid share nd =
     (let nd = nd\<lparr>cn_write := insert pid (cn_write nd), cn_read := insert pid (cn_read nd)\<rparr> in
      if \<not> cn_sem nd then Inr (-1, nd) else
      case cn_sched nd of None \<Rightarrow> Inl Hangs | Some s \<Rightarrow>
      if \<not> px_free s then Inl Hangs else
      bindr (px_add hm pid share s) (\<lambda>s'. if px_free s'
        then Inr (cfs_signum (px_data s), nd\<lparr>cn_sched := Some s'\<rparr>) else Inl Hangs))"

definition cfs_rem_queue :: "int \<Rightarrow> u64 \<Rightarrow> cfs_node \<Rightarrow> (int \<times> cfs_node) cres" where
  "cfs_rem_queue pid junk nd = (if \<not> cn_sem nd then Inr (-1, nd) else
     case cn_sched nd of None \<Rightarrow> Inl Hangs | Some s \<Rightarrow>
     if \<not> px_free s then Inl Hangs else
     bindr (px_rem pid junk s) (\<lambda>s'. Inr (0, nd\<lparr>cn_sched := Some s',
       cn_write := cn_write nd - {pid}, cn_read := cn_read nd - {pid}\<rparr>)))"

lemma cfs_listen_start_globals [simp]: "cfs_listen_start cfs_globals = cfs_init"
  by (simp add: cfs_listen_start_def cfs_globals_def cfs_init_def)

lemma cfs_second_start:
  assumes "cfs_start_scheduler room procs nd = (Joined, nd1)"
  shows "cn_sched nd1 = Some (px_init procs)" "cfs_start_scheduler room' procs' nd1 = (Returned (-1), nd1)"
    "cfs_start_scheduler True procs' (cfs_cleanup_and_exit nd1) = (Joined, (cfs_cleanup_and_exit nd1)
       \<lparr>cn_sem := True, cn_listen := True, cn_sched := Some (px_init procs')\<rparr>)"
    "cfs_add_queue hm pid share (cfs_cleanup_and_exit nd1) =
       Inr (-1, (cfs_cleanup_and_exit nd1)\<lparr>cn_write := {pid}, cn_read := {pid}\<rparr>)"
  using assms by (auto simp: cfs_start_scheduler_def px_init_def cfs_cleanup_and_exit_def cfs_add_queue_def
      split: if_splits)

text \<open>A registration on a node with a scheduler: the caller has its FIFOs and is asleep.\<close>

lemma cfs_add_queue_sleeps:
  assumes "px_reach hm procs n s" "\<forall>p. cfs_fresh (procs p)" "n < 2 ^ 31 - 64"
    and "cn_sem nd" "cn_sched nd = Some s" "px_free s" "0 < pid" "px_awake s pid"
    and "\<forall>sg. px_run s \<noteq> Some (pid, sg)" "\<not> cfs_already_added (px_data s) (cfs_add_pcd pid sh)"
    and "cfs_register_handler (cfs_signum (px_data s)) = 0"
  shows "\<exists>nd' s'. cfs_add_queue hm pid sh nd = Inr (cfs_signum (px_data s), nd') \<and> cn_sched nd' = Some s'
    \<and> pid \<in> cn_read nd' \<and> pid \<in> cn_write nd' \<and> \<not> px_awake s' pid \<and> pid \<in> set (cf_process (px_data s'))"
proof -
  have R: "cfs_reach n (px_abs s)" "px_inv s" using px_reach_abs [OF assms(1-3)] by simp_all
  obtain k where k: "k \<le> n" "cfs_table k (px_data s)"
    using cfs_reach_inv [OF R(1) assms(3)] by (auto simp: cfs_inv_def)
  have "k \<le> 30" using cfs_handler_refuses [of "int k"] cfs_signum_eq [OF cfs_tableD(5) [OF k(2)]] k(1) assms(3,11) by simp
  then obtain d' where d': "cfs_add pid sh (px_abs s) = Inr ((px_abs s)\<lparr>cs_data := d',
      cs_awake := (px_awake s)(pid := \<not> px_awake s pid)\<rparr>)"
    "cf_process d' = (cf_process (px_data s))[cf_count (px_data s) := pid]"
    using cfs_add_cases [of k "px_abs s" pid sh] k assms(3,7,10) by auto
  moreover obtain s' where s': "px_add hm pid sh s = Inr s'" "cfs_add pid sh (px_abs s) = Inr (px_abs s')"
    using px_add_simulates [OF R(2) k(2) _ assms(7-9), of hm sh] k(1) assms(3) by (auto simp: px_simulates_def)
  ultimately have e: "px_abs s' = (px_abs s)\<lparr>cs_data := d', cs_awake := (px_awake s)(pid := \<not> px_awake s pid)\<rparr>" by simp
  have "px_free s'" "px_data s' = d'" "\<not> px_awake s' pid"
    using arg_cong [OF e, of cs_free] arg_cong [OF e, of cs_data] arg_cong [OF e, of cs_awake] assms(6,8) by simp_all
  moreover have "cf_count (px_data s) < length (cf_process (px_data s))"
    using cfs_tableD(1,7) [OF k(2)] by (simp add: CFS_MAX_def)
  ultimately show ?thesis using assms(4-6) s'(1) d'(2) by (auto simp: cfs_add_queue_def set_update_memI)
qed

section \<open>Processes that outlive the scheduler\<close>

text \<open>A process that waits in a handler and that the scheduler does not know.\<close>

definition px_stranded :: "int \<Rightarrow> cfs_psys \<Rightarrow> bool" where
  "px_stranded pid s \<longleftrightarrow> \<not> px_awake s pid \<and> (\<forall>sg. px_run s \<noteq> Some (pid, sg))
     \<and> 0 < pid \<and> pid \<notin> set (cf_process (px_data s))"

lemma cfs_sigqueue_other:
  "cfs_sigqueue hm (p, sg) procs = Inr procs' \<Longrightarrow> p \<noteq> pid \<Longrightarrow> procs' pid = procs pid"
  by (auto simp: cfs_sigqueue_def bindr_eq_Inr_iff split: if_splits)

lemma cfs_listen_processes:
  "cfs_listen d st pcd err = Inr (d', sigs) \<Longrightarrow> set (cf_process d') \<subseteq> insert (cp_pid pcd) (insert 0 (set (cf_process d)))
     \<and> fst ` set sigs \<subseteq> {cp_pid pcd}"
proof -
  have "set (cf_process (cfs_remove pid d)) \<subseteq> insert 0 (set (cf_process d))" for pid
    by (auto simp: cfs_remove_def CFS_INVALID_def dest: set_update_subset_insert [THEN subsetD] split: option.splits)
  moreover have "cfs_register_process d1 pid sg sh = Inr d2 \<Longrightarrow> set (cf_process d2) \<subseteq> insert pid (set (cf_process d1))"
    for d1 pid sg sh d2
    by (auto simp: cfs_register_process_def bindr_eq_Inr_iff updr_def dest: set_update_subset_insert [THEN subsetD] split: if_splits)
  ultimately show "cfs_listen d st pcd err = Inr (d', sigs) \<Longrightarrow> ?thesis"
    by (fastforce simp: cfs_listen_def Let_def bindr_eq_Inr_iff split: if_splits)
qed

lemma px_stranded_step:
  assumes st: "px_step hm s (Inr s')" and x: "px_stranded pid s"
  shows "px_stranded pid s'"
proof -
  have A: "\<not> px_awake s pid" "\<And>sg. px_run s \<noteq> Some (pid, sg)" "0 < pid" "pid \<notin> set (cf_process (px_data s))"
    using x by (simp_all add: px_stranded_def)
  from st show ?thesis
  proof cases
    case (px_step_add p share)
    then have ne: "p \<noteq> pid" using A(1) by auto
    show ?thesis
    proof (cases "cfs_already_added (px_data s) (cfs_add_pcd p share)")
      case True
      then have "s' = s\<lparr>px_free := False\<rparr>" using px_step_add(1) by (simp add: px_add_def)
      then show ?thesis using A by (simp add: px_stranded_def px_awake_def)
    next
      case False
      then obtain err q d sigs procs where r: "cfs_listen (px_data s) 24 (cfs_add_pcd p share) err = Inr (d, sigs)"
        "cfs_sigqueues hm sigs ((px_proc s)(p := q)) = Inr procs" "s' = s\<lparr>px_data := d, px_proc := procs\<rparr>"
        using px_step_add(1) [symmetric] by (auto simp: px_add_def Let_def bindr_eq_Inr_iff)
      have L: "set (cf_process d) \<subseteq> insert p (insert 0 (set (cf_process (px_data s))))" "fst ` set sigs \<subseteq> {p}"
        using cfs_listen_processes [OF r(1)] by (simp_all add: cfs_add_pcd_def)
      have "procs' pid = procs0 pid"
        if "cfs_sigqueues hm ms procs0 = Inr procs'" "fst ` set ms \<subseteq> {p}" for ms procs0 procs'
        using that ne by (induction ms arbitrary: procs0) (auto simp: bindr_eq_Inr_iff dest!: cfs_sigqueue_other)
      from this [OF r(2) L(2)] have "procs pid = px_proc s pid" using ne by simp
      then show ?thesis using A L(1) ne r(3) by (auto simp: px_stranded_def px_awake_def)
    qed
  next
    case (px_step_rem p junk)
    obtain d sigs where "cfs_listen (px_data s) 24 (cfs_rem_pcd p junk) 0 = Inr (d, sigs)" "s' = s\<lparr>px_data := d\<rparr>"
      using px_step_rem(1) [symmetric] by (auto simp: px_rem_def bindr_eq_Inr_iff)
    then show ?thesis using A cfs_listen_processes [of "px_data s" 24 "cfs_rem_pcd p junk" 0 d sigs] px_step_rem
      by (auto simp: px_stranded_def px_awake_def cfs_rem_pcd_def)
  next
    case px_step_turn
    obtain t r where c: "cfs_control (px_data s) (px_thid s) = Inr (t, r)"
      using px_step_turn(1) [symmetric] by (auto simp: px_turn_def bindr_eq_Inr_iff)
    show ?thesis
    proof (cases r)
      case None
      then show ?thesis using px_step_turn c A by (auto simp: px_turn_def px_stranded_def px_awake_def)
    next
      case (Some v)
      obtain p sg sh where v: "v = (p, sg, sh)" by (cases v)
      have "p \<in> set (cf_process (px_data s))"
        using c Some v by (auto simp: cfs_control_def bindr_eq_Inr_iff nthr_eq_Inr split: if_splits)
      then have ne: "p \<noteq> pid" using A(4) by auto
      obtain procs where q: "cfs_sigqueue hm (p, sg) (px_proc s) = Inr procs"
        "s' = s\<lparr>px_thid := t, px_run := Some (p, sg), px_proc := procs\<rparr>"
        using px_step_turn(1) [symmetric] c Some v by (auto simp: px_turn_def bindr_eq_Inr_iff)
      then show ?thesis using A ne cfs_sigqueue_other [OF q(1) ne] by (simp add: px_stranded_def px_awake_def)
    qed
  next
    case (px_step_end ps)
    obtain p sg where ps: "ps = (p, sg)" by force
    have ne: "p \<noteq> pid" using A(2) px_step_end(2) ps by auto
    obtain procs where q: "cfs_sigqueue hm (p, sg) (px_proc s) = Inr procs" "s' = s\<lparr>px_run := None, px_proc := procs\<rparr>"
      using px_step_end(1) [symmetric] ps by (auto simp: px_end_turn_def bindr_eq_Inr_iff)
    then show ?thesis using A cfs_sigqueue_other [OF q(1) ne] by (simp add: px_stranded_def px_awake_def)
  qed
qed

lemma px_reach_stranded:
  "px_reach hm procs n s \<Longrightarrow> px_stranded pid (px_init procs) \<Longrightarrow> px_stranded pid s"
  by (induction rule: px_reach.induct) (auto intro: px_stranded_step)

text \<open>
  A scheduler that is stopped leaves the processes that wait for their turn where they are: whatever the
  scheduler does that is started next, they never get out of their handler.
\<close>

lemma stopped_scheduler_strands:
  assumes "px_reach hm procs n s" "\<forall>p. cfs_fresh (procs p)" "n < 2 ^ 31 - 64"
    and "px_entry s i pid sg" "px_run s \<noteq> Some (pid, sg)"
    and "cfs_start_scheduler True (px_proc s) (cfs_cleanup_and_exit nd) = (r, nd')"
  shows "r = Joined \<and> (\<exists>s0. cn_sched nd' = Some s0 \<and> s0 = px_init (px_proc s)
    \<and> (\<forall>m s1. px_reach hm' (px_proc s) m s1 \<longrightarrow> \<not> px_awake s1 pid))"
proof -
  have R: "cfs_reach n (px_abs s)" "px_inv s" using px_reach_abs [OF assms(1-3)] by simp_all
  have C: "cfs_inv n (px_abs s)" by (rule cfs_reach_inv [OF R(1) assms(3)])
  then have q: "cfs_quiet (px_abs s)" and k: "\<exists>k. cfs_table k (px_data s)" by (auto simp: cfs_inv_def)
  have "0 < pid" using k assms(4) cfs_tableD(9) by (auto simp: px_entry_def)
  moreover have "\<not> px_awake s pid"
    using q assms(4) px_invD(4) [OF R(2) _ assms(4)] assms(5) by (auto simp: cfs_quiet_def px_entry_def)
  ultimately have "px_stranded pid (px_init (px_proc s))"
    by (auto simp: px_stranded_def px_init_def px_awake_def cfs_init_def)
  then have "\<not> px_awake s1 pid" if "px_reach hm' (px_proc s) m s1" for m s1
    using px_reach_stranded [OF that] by (simp add: px_stranded_def)
  then show ?thesis using assms(6) by (auto simp: cfs_start_scheduler_def cfs_cleanup_and_exit_def px_init_def)
qed

end
