(* ===== verification/Old_Sched.thy ===== *)
theory Old_Sched
  imports Cfs
begin

text \<open>
  The predecessor of the first scheduler, backend/scheduler.c: one FIFO for the requests and the
  answers of the clients, a smaller table, and 999 where \<open>Cfs\<close> has a field \<open>valid\<close>. The lemmas
  compare its turns with those of \<open>Cfs\<close>.
\<close>

section \<open>The table\<close>

definition OLD_MAX :: nat where "OLD_MAX = 100"

definition OLD_INVALID :: int where "OLD_INVALID = 999"

record old_data =
  od_process :: "int list"
  od_share :: "u64 list"
  od_signal :: "int list"
  od_count :: nat
  od_rt :: u32

definition old_init :: old_data where
  "old_init = \<lparr>od_process = replicate OLD_MAX 0, od_share = replicate OLD_MAX 0,
     od_signal = replicate OLD_MAX 0, od_count = 0, od_rt = 0\<rparr>"

definition old_register_process :: "old_data \<Rightarrow> int \<Rightarrow> int \<Rightarrow> u64 \<Rightarrow> old_data cres" where
  "old_register_process d pid signum share =
     bindr (updr (od_process d) (od_count d) pid) (\<lambda>ps.
     bindr (updr (od_share d) (od_count d) share) (\<lambda>ss.
     bindr (updr (od_signal d) (od_count d) signum) (\<lambda>gs.
     Inr (d\<lparr>od_process := ps, od_share := ss, od_signal := gs, od_count := od_count d + 1\<rparr>))))"

definition old_remove :: "int \<Rightarrow> old_data \<Rightarrow> old_data" where
  "old_remove pid d = (case find (\<lambda>i. od_process d ! i = pid) [0..<length (od_process d)] of
     None \<Rightarrow> d | Some i \<Rightarrow> d\<lparr>od_process := (od_process d)[i := OLD_INVALID]\<rparr>)"

text \<open>
  One round of the listener. The result of \<open>read\<close> is not looked at: \<open>pcd\<close> is what the variable holds
  then, and \<open>err\<close> what is read from the FIFO of the requests after the signal number was sent. Every
  action but \<open>ADD_Q\<close> removes. The list has the signals that are sent.
\<close>

definition old_listen :: "old_data \<Rightarrow> cfs_pcd \<Rightarrow> int \<Rightarrow> (old_data \<times> (int \<times> int) list) cres" where
  "old_listen d pcd err =
     (if cp_action pcd = CFS_ADD_Q then
        let signum = sint (word_of_int SIGRTMIN + od_rt d); d = d\<lparr>od_rt := od_rt d + 1\<rparr> in
        if err = 0 then
          bindr (old_register_process d (cp_pid pcd) signum (cp_share pcd)) (\<lambda>d.
            Inr (d, [(cp_pid pcd, signum)]))
        else Inr (d, [])
      else Inr (old_remove (cp_pid pcd) d, []))"

section \<open>The control thread\<close>

definition old_next :: "old_data \<Rightarrow> nat \<Rightarrow> nat" where
  "old_next d thid = (if od_count d - 1 < thid + 1 then 0 else thid + 1)"

definition old_control :: "old_data \<Rightarrow> nat \<Rightarrow> (nat \<times> (int \<times> int \<times> u64) option) cres" where
  "old_control d thid = (if od_count d = 0 then Inr (thid, None) else
     bindr (nthr (od_process d) thid) (\<lambda>p. bindr (nthr (od_share d) thid) (\<lambda>sh.
     bindr (nthr (od_signal d) thid) (\<lambda>sg.
     Inr (old_next d thid, if p = OLD_INVALID then None else Some (p, sg, sh))))))"

text \<open>\<open>sleep (share_unit/10)\<close>: whole seconds, of an \<open>unsigned int\<close>.\<close>

definition old_slice_s :: "u64 \<Rightarrow> int" where
  "old_slice_s share = uint (ucast (share div 10) :: u32)"

text \<open>
  \<open>add_queue\<close> of the same file registers by the counter and installs the handler in the scheduler
  itself; nothing calls it. On success it returns no value.
\<close>

definition old_add_queue :: "old_data \<Rightarrow> int \<Rightarrow> u64 \<Rightarrow> (int option \<times> old_data) cres" where
  "old_add_queue d pid share = (let signum = SIGRTMIN + int (od_count d) in
     if cfs_register_handler signum \<noteq> 0 then Inr (Some (-1), d)
     else bindr (old_register_process d pid signum share) (\<lambda>d. Inr (None, d)))"

section \<open>The same turns as the first scheduler\<close>

text \<open>The tables of both after the same requests.\<close>

definition old_rel :: "cfs_data \<Rightarrow> old_data \<Rightarrow> bool" where
  "old_rel c d \<longleftrightarrow> length (od_process d) = OLD_MAX \<and> length (od_share d) = OLD_MAX \<and> length (od_signal d) = OLD_MAX
     \<and> od_count d = cf_count c \<and> od_rt d = cf_rt c
     \<and> (\<forall>i < OLD_MAX. od_share d ! i = cf_share c ! i \<and> od_signal d ! i = cf_signal c ! i
          \<and> od_process d ! i = (if cf_valid c ! i \<noteq> 0 then cf_process c ! i else if i < cf_count c then OLD_INVALID else 0)
          \<and> cf_process c ! i \<noteq> OLD_INVALID)"

lemma old_relD:
  assumes "old_rel c d"
  shows "length (od_process d) = OLD_MAX" "length (od_share d) = OLD_MAX" "length (od_signal d) = OLD_MAX"
    "od_count d = cf_count c" "od_rt d = cf_rt c"
    "i < OLD_MAX \<Longrightarrow> od_share d ! i = cf_share c ! i" "i < OLD_MAX \<Longrightarrow> od_signal d ! i = cf_signal c ! i"
    "i < OLD_MAX \<Longrightarrow> od_process d ! i = (if cf_valid c ! i \<noteq> 0 then cf_process c ! i else if i < cf_count c then OLD_INVALID else 0)"
    "i < OLD_MAX \<Longrightarrow> cf_process c ! i \<noteq> OLD_INVALID"
  using assms unfolding old_rel_def by auto

lemma old_rel_init: "old_rel cfs_init old_init"
  by (simp add: old_rel_def cfs_init_def old_init_def OLD_MAX_def CFS_MAX_def OLD_INVALID_def)

text \<open>The control threads choose the same process and go to the same position.\<close>

lemma old_control_same:
  assumes t: "cfs_table k c" and r: "old_rel c d" and i: "thid < max 1 (cf_count c)"
  shows "old_control d thid = cfs_control c thid"
proof (cases "cf_count c = 0")
  case True
  then show ?thesis using old_relD(4) [OF r] by (simp add: old_control_def cfs_control_def)
next
  case False
  then have i: "thid < cf_count c" using i by simp
  then have m: "thid < OLD_MAX" using cfs_tableD(7) [OF t] by (simp add: OLD_MAX_def)
  have p: "od_process d ! thid = (if cf_valid c ! thid \<noteq> 0 then cf_process c ! thid else OLD_INVALID)"
    using old_relD(8) [OF r m] i by simp
  show ?thesis unfolding cfs_control_eq [OF t i]
    using old_relD(1-5) [OF r] old_relD(6,7,9) [OF r m] m i p by (auto simp: old_control_def old_next_def)
qed

text \<open>A process that leaves is found at the same place.\<close>

lemma old_rel_remove:
  assumes t: "cfs_table k c" and r: "old_rel c d" and p: "0 < pid" "pid \<noteq> OLD_INVALID"
  shows "old_rel (cfs_remove pid c) (old_remove pid d)"
proof -
  note T = cfs_tableD [OF t] and R = old_relD [OF r]
  have od: "od_process d ! i = pid \<longleftrightarrow> cf_process c ! i = pid" if "i < OLD_MAX" for i
  proof -
    have "i < CFS_MAX" using that by (simp add: OLD_MAX_def CFS_MAX_def)
    then show ?thesis using R(8) [OF that] T(8) p by auto
  qed
  show ?thesis
  proof (cases "find (\<lambda>i. cf_process c ! i = pid) [0..<length (cf_process c)]")
    case None
    then have "\<forall>i < CFS_MAX. cf_process c ! i \<noteq> pid" using T(1) by (simp add: find_None_iff)
    then have "find (\<lambda>i. od_process d ! i = pid) [0..<length (od_process d)] = None"
      using od R(1) by (auto simp: find_None_iff OLD_MAX_def CFS_MAX_def)
    then show ?thesis using None r by (simp add: cfs_remove_def old_remove_def)
  next
    case (Some i)
    then have i: "i < CFS_MAX" "cf_process c ! i = pid" "\<forall>j < i. cf_process c ! j \<noteq> pid"
      using T(1) by (auto simp: find_Some_iff)
    have v: "cf_valid c ! i \<noteq> 0" using T(8) [OF i(1)] i(2) p(1) by auto
    then have c: "i < cf_count c" using T(9) [OF i(1)] by simp
    then have m: "i < OLD_MAX" using T(7) by (simp add: OLD_MAX_def)
    have "find (\<lambda>i. od_process d ! i = pid) [0..<length (od_process d)] = Some i"
      using od m i R(1) by (auto simp: find_Some_iff)
    then have "old_remove pid d = d\<lparr>od_process := (od_process d)[i := OLD_INVALID]\<rparr>"
      "cfs_remove pid c = c\<lparr>cf_process := (cf_process c)[i := CFS_INVALID], cf_valid := (cf_valid c)[i := 0]\<rparr>"
      using Some by (simp_all add: old_remove_def cfs_remove_def)
    then show ?thesis using R c m i(1) T(1,4)
      by (auto simp: old_rel_def nth_list_update CFS_INVALID_def OLD_INVALID_def)
  qed
qed

text \<open>A process that joins gets the same place and the same signal.\<close>

lemma old_rel_register:
  assumes t: "cfs_table k c" and r: "old_rel c d" and p: "pid \<noteq> OLD_INVALID"
    and g: "cfs_register_process (c\<lparr>cf_rt := cf_rt c + 1\<rparr>) pid sg sh = Inr c'"
  shows "\<exists>d'. old_register_process (d\<lparr>od_rt := od_rt d + 1\<rparr>) pid sg sh = Inr d' \<and> old_rel c' d'"
proof -
  note T = cfs_tableD [OF t] and R = old_relD [OF r]
  have c: "cf_count c < OLD_MAX" "cf_count c < CFS_MAX" using T(7) by (simp_all add: OLD_MAX_def CFS_MAX_def)
  have c': "c' = c\<lparr>cf_rt := cf_rt c + 1, cf_process := (cf_process c)[cf_count c := pid],
      cf_share := (cf_share c)[cf_count c := sh], cf_signal := (cf_signal c)[cf_count c := sg],
      cf_valid := (cf_valid c)[cf_count c := 1], cf_count := cf_count c + 1\<rparr>"
    using g T(1-4) c by (simp add: cfs_register_process_def updr_def)
  let ?d = "d\<lparr>od_rt := od_rt d + 1, od_process := (od_process d)[cf_count c := pid],
      od_share := (od_share d)[cf_count c := sh], od_signal := (od_signal d)[cf_count c := sg],
      od_count := cf_count c + 1\<rparr>"
  have "old_register_process (d\<lparr>od_rt := od_rt d + 1\<rparr>) pid sg sh = Inr ?d"
    using R(1-5) c by (simp add: old_register_process_def updr_def)
  moreover have "old_rel c' ?d"
    unfolding old_rel_def c' using R c T(1-4) p by (auto simp: nth_list_update OLD_MAX_def CFS_MAX_def less_Suc_eq)
  ultimately show ?thesis by blast
qed

section \<open>Sequences of requests\<close>

datatype sched_req = Join int u64 | Leave int

text \<open>The client of \<open>Join\<close> answers whether it could install the handler.\<close>

primrec cfs_req :: "sched_req \<Rightarrow> cfs_data \<Rightarrow> (cfs_data \<times> (int \<times> int) list) cres" where
  "cfs_req (Join pid share) c = cfs_listen c 24 (cfs_add_pcd pid share) (cfs_register_handler (cfs_signum c))"
| "cfs_req (Leave pid) c = cfs_listen c 24 (cfs_rem_pcd pid 0) 0"

primrec old_req :: "sched_req \<Rightarrow> old_data \<Rightarrow> (old_data \<times> (int \<times> int) list) cres" where
  "old_req (Join pid share) d = old_listen d (cfs_add_pcd pid share)
     (cfs_register_handler (sint (word_of_int SIGRTMIN + od_rt d)))"
| "old_req (Leave pid) d = old_listen d (cfs_rem_pcd pid 0) 0"

text \<open>Requests both schedulers are made for: who joins is not in the table, and no process has the number 999.\<close>

primrec plain_req :: "sched_req \<Rightarrow> cfs_data \<Rightarrow> bool" where
  "plain_req (Join pid share) c \<longleftrightarrow> 0 < pid \<and> pid \<noteq> OLD_INVALID \<and> pid \<notin> set (cf_process c)"
| "plain_req (Leave pid) c \<longleftrightarrow> 0 < pid \<and> pid \<noteq> OLD_INVALID"

lemma old_req_same:
  assumes t: "cfs_table k c" and k: "k < 2 ^ 31 - 64" and r: "old_rel c d" and q: "plain_req req c"
  shows "\<exists>k' c' d' sigs. cfs_req req c = Inr (c', sigs) \<and> old_req req d = Inr (d', sigs)
    \<and> k' \<le> k + 1 \<and> cfs_table k' c' \<and> old_rel c' d'"
proof (cases req)
  case (Leave pid)
  then have "cfs_req req c = Inr (cfs_remove pid c, [])" "old_req req d = Inr (old_remove pid d, [])"
    by (simp_all add: cfs_listen_def old_listen_def cfs_rem_pcd_def CFS_ADD_Q_def CFS_REM_Q_def)
  moreover have "cfs_table k (cfs_remove pid c)" by (rule cfs_table_remove [OF t])
  moreover have "old_rel (cfs_remove pid c) (old_remove pid d)" using old_rel_remove [OF t r] q Leave by simp
  moreover have "k \<le> k + 1" by simp
  ultimately show ?thesis by blast
next
  case (Join pid sh)
  let ?sg = "cfs_signum c"
  have sg: "sint (word_of_int SIGRTMIN + od_rt d) = ?sg" using old_relD(5) [OF r] by (simp add: cfs_signum_def)
  have n: "\<not> cfs_already_added c (cfs_add_pcd pid sh)" and p: "0 < pid" "pid \<noteq> OLD_INVALID" "pid \<notin> set (cf_process c)"
    using q Join by (simp_all add: cfs_already_added_def cfs_add_pcd_def)
  show ?thesis
  proof (cases "cfs_register_handler ?sg = 0")
    case False
    let ?c = "c\<lparr>cf_rt := cf_rt c + 1\<rparr>" and ?d = "d\<lparr>od_rt := od_rt d + 1\<rparr>"
    have "cfs_req req c = Inr (?c, [])" "old_req req d = Inr (?d, [])"
      using Join n sg False by (simp_all add: cfs_listen_def old_listen_def Let_def cfs_add_pcd_def)
    moreover have "cfs_table (k + 1) ?c" by (rule cfs_table_refused [OF t])
    moreover have "old_rel ?c ?d" using r by (simp add: old_rel_def)
    ultimately show ?thesis by blast
  next
    case True
    have "?sg = 34 + int k" by (rule cfs_signum_eq [OF cfs_tableD(5) [OF t] k])
    then have k30: "k \<le> 30" using True cfs_handler_refuses [of "int k"] by simp
    obtain c' where c': "cfs_register_process (c\<lparr>cf_rt := cf_rt c + 1\<rparr>) pid ?sg sh = Inr c'" "cfs_table (k + 1) c'"
      using cfs_table_register [OF t k30 p(1,3) True, of sh] by blast
    obtain d' where d': "old_register_process (d\<lparr>od_rt := od_rt d + 1\<rparr>) pid ?sg sh = Inr d'" "old_rel c' d'"
      using old_rel_register [OF t r p(2) c'(1)] by blast
    have "cfs_req req c = Inr (c', [(pid, ?sg)])" "old_req req d = Inr (d', [(pid, ?sg)])"
      using Join n sg True c'(1) d'(1) by (simp_all add: cfs_listen_def old_listen_def Let_def cfs_add_pcd_def)
    then show ?thesis using c'(2) d'(2) by blast
  qed
qed

text \<open>A sequence of requests, with all signals that are sent.\<close>

primrec cfs_reqs :: "sched_req list \<Rightarrow> cfs_data \<Rightarrow> (cfs_data \<times> (int \<times> int) list) cres" where
  "cfs_reqs [] c = Inr (c, [])"
| "cfs_reqs (q # qs) c = bindr (cfs_req q c) (\<lambda>(c, s). bindr (cfs_reqs qs c) (\<lambda>(c, s'). Inr (c, s @ s')))"

primrec old_reqs :: "sched_req list \<Rightarrow> old_data \<Rightarrow> (old_data \<times> (int \<times> int) list) cres" where
  "old_reqs [] d = Inr (d, [])"
| "old_reqs (q # qs) d = bindr (old_req q d) (\<lambda>(d, s). bindr (old_reqs qs d) (\<lambda>(d, s'). Inr (d, s @ s')))"

primrec plain_reqs :: "sched_req list \<Rightarrow> cfs_data \<Rightarrow> bool" where
  "plain_reqs [] c \<longleftrightarrow> True"
| "plain_reqs (q # qs) c \<longleftrightarrow> plain_req q c \<and> (case cfs_req q c of Inl f \<Rightarrow> True | Inr (c, s) \<Rightarrow> plain_reqs qs c)"

lemma old_reqs_same:
  assumes "cfs_table k c" "k + length qs < 2 ^ 31 - 64" "old_rel c d" "plain_reqs qs c"
  shows "\<exists>k' c' d' sigs. cfs_reqs qs c = Inr (c', sigs) \<and> old_reqs qs d = Inr (d', sigs)
    \<and> cfs_table k' c' \<and> old_rel c' d'"
  using assms
proof (induction qs arbitrary: k c d)
  case Nil
  then show ?case by auto
next
  case (Cons q qs)
  obtain k1 c1 d1 s1 where 1: "cfs_req q c = Inr (c1, s1)" "old_req q d = Inr (d1, s1)" "k1 \<le> k + 1"
    "cfs_table k1 c1" "old_rel c1 d1"
    using old_req_same [of k c d q] Cons.prems by auto
  then obtain k' c' d' s where "cfs_reqs qs c1 = Inr (c', s)" "old_reqs qs d1 = Inr (d', s)"
    "cfs_table k' c'" "old_rel c' d'"
    using Cons.IH [of k1 c1 d1] Cons.prems by auto
  then show ?case using 1 by auto
qed

text \<open>
  After the same requests both schedulers have sent the same signals, and their control threads choose the
  same processes from every position on: the rewriting changed how long a turn is, not whose it is.
\<close>

lemma old_scheduler_same_turns:
  assumes "plain_reqs qs cfs_init" "length qs < 2 ^ 31 - 64"
  shows "\<exists>c d sigs. cfs_reqs qs cfs_init = Inr (c, sigs) \<and> old_reqs qs old_init = Inr (d, sigs)
    \<and> (\<forall>thid < max 1 (cf_count c). old_control d thid = cfs_control c thid)"
  using old_reqs_same [OF cfs_table_init, of qs old_init] assms old_rel_init old_control_same by fastforce

text \<open>A share of 25 is two seconds in one and 25 milliseconds in the other.\<close>

lemma old_turn_length: "old_slice_s 25 = 2" "cfs_slice_ns 25 = 25000000"
  by code_simp+

text \<open>The process with the number 999 is registered and never gets a turn.\<close>

lemma process_999_never_runs:
  "\<exists>d. old_reqs [Join 999 5] old_init = Inr (d, [(999, 34)]) \<and> old_control d 0 = Inr (0, None)"
  by (simp add: old_listen_def old_init_def cfs_add_pcd_def CFS_ADD_Q_def cfs_register_handler_def SIGRTMIN_def
      SIGRTMAX_def old_register_process_def updr_def OLD_MAX_def old_control_def OLD_INVALID_def old_next_def)

end
