(* ===== verification/L2_Main.thy ===== *)
theory L2_Main
  imports L2_Start Pager
begin

text \<open>
  The program of the second-level scheduler, l2scheduler/l2scheduler.c: what \<open>main\<close> starts in the
  different builds of \<open>l2scheduler/sched_commons.h\<close>, and what it does then.
\<close>

record l2_build =
  lb_fs :: bool
  lb_las :: bool
  lb_pager :: bool

text \<open>The switches as they are: the pager alone.\<close>

definition default_build :: l2_build where
  "default_build = \<lparr>lb_fs = False, lb_las = False, lb_pager = True\<rparr>"

text \<open>What the system gives the pager: a process id, the ids of the semaphore and of the two blocks.\<close>

record pager_env =
  pe_pid :: int
  pe_sem :: int
  pe_shm :: int
  pe_index :: int
  pe_first :: mem_map

text \<open>
  The threads of a scheduler never end, so that \<open>main\<close> waits for the first of them for ever. Without
  one it joins \<open>pager_tid[0]\<close>, which is 0 in a build without the pager; with the pager, it takes the
  array \<open>pager_tid\<close> itself for a thread before that.
\<close>

datatype main_end = Waits l2_sched

definition run_main :: "l2_build \<Rightarrow> start_env \<Rightarrow> pager_env \<Rightarrow> l2_sched \<Rightarrow> main_end cres" where
  "run_main bld env pe s =
     bindr (if lb_fs bld then bindr (fs_start_scheduler env s) (\<lambda>(r, s). Inr (Some r, s)) else Inr (None, s)) (\<lambda>(n, s).
     bindr (if lb_las bld then bindr (las_start_scheduler env s) (\<lambda>(r, s). Inr (Some r, s)) else Inr (n, s)) (\<lambda>(n, s).
     if lb_pager bld then bindr (start_pager (pe_pid pe) (pe_sem pe) (pe_shm pe) (pe_index pe) (pe_first pe)) (\<lambda>t.
       Inl OutOfBounds)
     else (case n of None \<Rightarrow> Inl Uninit | Some n \<Rightarrow> if 0 < n then Inr (Waits s) else Inl NullDeref)))"

text \<open>Built with the fair share scheduler only, \<open>main\<close> waits with a scheduler that was started.\<close>

lemma run_main_waits:
  assumes "run_main \<lparr>lb_fs = True, lb_las = False, lb_pager = False\<rparr> env pe s = Inr (Waits s')"
    and "length (ls_thIDs s) = 10"
  shows "fs_start_scheduler env s = Inr (4, s') \<and> ls_threads s' = ls_threads s @ fs_threads env"
proof -
  obtain r where r: "fs_start_scheduler env s = Inr (r, s')" "0 < r"
    using assms(1) by (auto simp: run_main_def bindr_eq_Inr_iff split: if_splits)
  then show ?thesis using fs_start_returns [OF assms(2) r(1)] by simp
qed

text \<open>The second of two schedulers does not end with the error of \<open>semget\<close>: it joins a thread that is not there.\<close>

lemma second_scheduler_crashes:
  assumes "fs_start_scheduler env s0 = Inr (r, s1)" and "0 \<le> r" and "length (ls_thIDs s0) = 10" and "st_files env'"
  shows "run_main \<lparr>lb_fs = True, lb_las = False, lb_pager = False\<rparr> env' pe (s\<lparr>ls_os := ls_os s1\<rparr>) = Inl NullDeref"
proof -
  have "l2_sem (ls_os s1)" using fs_start_returns [OF assms(3,1,2)] by simp
  then show ?thesis using assms(4) by (simp add: run_main_def fs_start_scheduler_def Let_def)
qed

text \<open>
  Whatever else is built in, no build with the pager ever gets to wait for its threads; the default
  build is one of them.
\<close>

lemma pager_main_fails:
  assumes "lb_pager bld"
  shows "\<exists>f. run_main bld env pe s = Inl f"
  using assms by (auto simp: run_main_def bindr_def split: sum.splits)

lemma default_main_fails: "\<exists>f. run_main default_build env pe s = Inl f"
  by (rule pager_main_fails) (simp add: default_build_def)

end
