(* ===== verification/Trace_Output.thy ===== *)
theory Trace_Output
  imports Fat_Registry
begin

text \<open>
  The trace functions of interposer/libciutils.c: what \<open>l_printFatBinary\<close>, \<open>l_printRegFunArgs\<close>,
  \<open>l_printRegVar\<close>, \<open>printFatCIArray\<close> and \<open>printRegVarTab\<close> read of the structures they are given,
  and whether they come back. A line is the name of what is printed with the values of the format
  string; the addresses of structures, which the model does not have, are left out.
\<close>

section \<open>Lines\<close>

datatype trace_val = T_str charp | T_ptr u64 | T_num int

type_synonym trace_line = "string \<times> trace_val list"

text \<open>\<open>%s\<close> reads to the end of the string and prints \<open>(null)\<close> for NULL.\<close>

definition t_str :: "charp \<Rightarrow> trace_val" where
  "t_str s = T_str (map_option cstr s)"

definition t_u32 :: "u32 \<Rightarrow> trace_val" where "t_u32 x = T_num (sint x)"

section \<open>Fat binaries\<close>

text \<open>\<open>while (1) { print (p[i]); if (!ok (p[i])) break; i++; }\<close>: the entry is read before it is tested.\<close>

primrec print_entries :: "('a \<Rightarrow> bool) \<Rightarrow> (int \<Rightarrow> 'a \<Rightarrow> trace_line) \<Rightarrow> int \<Rightarrow> 'a list \<Rightarrow> trace_line list cres" where
  "print_entries ok line i [] = Inl OutOfBounds"
| "print_entries ok line i (e # es) = (if ok e
     then bindr (print_entries ok line (i + 1) es) (\<lambda>ls. Inr (line i e # ls)) else Inr [line i e])"

definition print_terminated ::
  "('a \<Rightarrow> bool) \<Rightarrow> (int \<Rightarrow> 'a \<Rightarrow> trace_line) \<Rightarrow> 'a list option \<Rightarrow> trace_line list cres" where
  "print_terminated ok line p = (case p of None \<Rightarrow> Inl NullDeref | Some es \<Rightarrow> print_entries ok line 0 es)"

definition ptx_line :: "int \<Rightarrow> cudaFatPtxEntry \<Rightarrow> trace_line" where
  "ptx_line i e = (''ptx'', [T_num i, t_str (ptx_gpuProfileName e), t_str (ptx_ptx e)])"

definition l_printPtxE :: "cudaFatPtxEntry list option \<Rightarrow> trace_line list cres" where
  "l_printPtxE p = bindr (print_terminated ptx_ok ptx_line p) (\<lambda>ls. Inr ((''__cudaFatPtxEntry'', []) # ls))"

definition cubin_line :: "int \<Rightarrow> cudaFatCubinEntry \<Rightarrow> trace_line" where
  "cubin_line i e = (''cubin'', [T_num i, t_str (cubin_gpuProfileName e), t_str (cubin_cubin e)])"

definition l_printCubinE :: "cudaFatCubinEntry list option \<Rightarrow> trace_line list cres" where
  "l_printCubinE p = bindr (print_terminated cubin_ok cubin_line p) (\<lambda>ls. Inr ((''__cudaFatCubinEntry'', []) # ls))"

text \<open>
  \<open>while (p && p->name) { print (p[i].name); i++; }\<close>: the condition looks at the first entry in every
  iteration. Once it holds, only the end of the array stops the loop.
\<close>

primrec print_names :: "int \<Rightarrow> cudaFatSymbol list \<Rightarrow> trace_line list cres" where
  "print_names i [] = Inl OutOfBounds"
| "print_names i (e # es) =
     bindr (print_names (i + 1) es) (\<lambda>ls. Inr ((''name'', [T_num i, t_str (sym_name e)]) # ls))"

definition l_printSymbolE :: "cudaFatSymbol list option \<Rightarrow> byte list \<Rightarrow> trace_line list cres" where
  "l_printSymbolE p nm =
     bindr (case p of None \<Rightarrow> Inr [] | Some es \<Rightarrow> bindr (nthr es 0) (\<lambda>e.
       if sym_name e = None then Inr [] else print_names 0 es)) (\<lambda>ls.
     Inr ((''__cudaFatSymbol'', [t_str (Some nm)]) # ls))"

text \<open>The lists that are linked by \<open>next\<close> are followed to their end.\<close>

definition numbered :: "(int \<Rightarrow> 'a \<Rightarrow> trace_line) \<Rightarrow> 'a list \<Rightarrow> trace_line list" where
  "numbered line es = map (\<lambda>(i, e). line (int i) e) (List.enumerate 0 es)"

definition l_printDebugE :: "cudaFatDebugEntry list \<Rightarrow> trace_line list" where
  "l_printDebugE p = (''__cudaFatDebugEntry'', []) # numbered (\<lambda>i e. (''debug'', [T_num i,
     t_str (debug_gpuProfileName e), t_str (debug_debug e), t_u32 (debug_size e)])) p"

definition l_printDepE :: "fatrec list \<Rightarrow> trace_line list" where
  "l_printDepE p = (''__cudaFatCudaBinary'', []) #
     numbered (\<lambda>i e. (''p'', [T_num i])) (takeWhile (\<lambda>e. fat_ident e \<noteq> None) p)"

definition l_printElfE :: "cudaFatElfEntry list \<Rightarrow> trace_line list" where
  "l_printElfE p = (''__cudaFatElfEntry'', []) # numbered (\<lambda>i e. (''elf'', [T_num i,
     t_str (elf_gpuProfileName e), t_u32 (elf_size e)])) p"

text \<open>
  \<open>debugInfo\<close> is a number here, an address in the process that registers the fat binary. It is
  printed as a string: \<open>mem\<close> is what the process that prints it finds there.
\<close>

definition print_debugInfo :: "(u64 \<Rightarrow> byte list cres) \<Rightarrow> u64 \<Rightarrow> trace_line list cres" where
  "print_debugInfo mem a = (if a = 0 then Inr [(''debugInfo'', [T_ptr a, t_str None])]
     else bindr (mem a) (\<lambda>s. Inr [(''debugInfo'', [T_ptr a, t_str (Some s)])]))"

text \<open>The parts one after the other.\<close>

primrec print_seq :: "trace_line list cres list \<Rightarrow> trace_line list cres" where
  "print_seq [] = Inr []"
| "print_seq (x # xs) = bindr x (\<lambda>ls. bindr (print_seq xs) (\<lambda>ks. Inr (ls @ ks)))"

definition name_exported :: "byte list" where "name_exported = map of_char ''exported''"

definition name_imported :: "byte list" where "name_imported = map of_char ''imported''"

definition l_printFatBinary ::
  "(u64 \<Rightarrow> byte list cres) \<Rightarrow> cudaFatCudaBinary option \<Rightarrow> trace_line list cres" where
  "l_printFatBinary mem p = (case p of None \<Rightarrow> Inr [(''FatBinary'', [])] | Some f \<Rightarrow> print_seq
     [Inr [(''magic'', [T_num (sint (fat_magic f)), T_num (sint (fat_version f)), T_num (sint (fat_gpuInfoVersion f))]),
           (''key'', [t_str (fat_key f), t_str (fat_ident f), t_str (fat_usageMode f)])],
      l_printPtxE (fat_ptx f), l_printCubinE (fat_cubin f), Inr (l_printDebugE (fat_debug f)),
      print_debugInfo mem (fat_debugInfo f), Inr [(''flags'', [T_num (uint (fat_flags f))])],
      l_printSymbolE (fat_exported f) name_exported, l_printSymbolE (fat_imported f) name_imported,
      Inr (l_printDepE (fat_dependends f)),
      Inr [(''characteristics'', [T_num (uint (fat_characteristic f))])],
      Inr (l_printElfE (fat_elf f))])"

section \<open>Arguments and registries\<close>

text \<open>
  \<open>tid\<close>, \<open>bid\<close> and the dimensions are printed when they are there; \<open>hostFun\<close> and \<open>wSize\<close> are
  printed as addresses only.
\<close>

definition print_triple :: "string \<Rightarrow> ('a \<Rightarrow> u32 list) \<Rightarrow> 'a option \<Rightarrow> trace_line list" where
  "print_triple nm xs p = (nm, []) # (case p of None \<Rightarrow> []
     | Some v \<Rightarrow> [(nm, map (\<lambda>x. T_num (uint x)) (xs v))])"

definition uint3_fields :: "uint3 \<Rightarrow> u32 list" where "uint3_fields v = [ux v, uy v, uz v]"

definition dim3_fields :: "dim3 \<Rightarrow> u32 list" where "dim3_fields v = [dx v, dy v, dz v]"

definition l_printRegFunArgs :: "u64 \<Rightarrow> charp \<Rightarrow> charp \<Rightarrow> u32 \<Rightarrow> uint3 option \<Rightarrow> uint3 option
    \<Rightarrow> dim3 option \<Rightarrow> dim3 option \<Rightarrow> trace_line list" where
  "l_printRegFunArgs h deviceFun deviceName thread_limit tid bid bDim gDim =
     [(''REG FUN ARGS'', []), (''fatCubinHandle'', [T_ptr h]), (''hostFun'', []), (''deviceFun'', [t_str deviceFun]),
      (''deviceName'', [t_str deviceName]), (''thread_limit'', [t_u32 thread_limit])]
     @ print_triple ''tid'' uint3_fields tid @ print_triple ''bid'' uint3_fields bid
     @ print_triple ''bDim'' dim3_fields bDim @ print_triple ''gDim'' dim3_fields gDim @ [(''wSize'', [])]"

definition l_printRegVar :: "u64 \<Rightarrow> u64 \<Rightarrow> charp \<Rightarrow> charp \<Rightarrow> u32 \<Rightarrow> u32 \<Rightarrow> u32 \<Rightarrow> u32 \<Rightarrow> trace_line list" where
  "l_printRegVar h hostVar deviceAddress deviceName ext vsize const glob =
     [(''REG VAR'', []), (''fatCubinHandle'', [T_ptr h]), (''hostVar'', [T_ptr hostVar]),
      (''deviceAddress'', [t_str deviceAddress]), (''deviceName'', [t_str deviceName]), (''ext'', [t_u32 ext]),
      (''vsize'', [t_u32 vsize]), (''constant'', [t_u32 const]), (''global'', [t_u32 glob])]"

text \<open>
  The properties of a device: the fields that are printed; the structure is one of the CUDA headers.
\<close>

record device_prop =
  dp_name :: "byte list"
  dp_major :: u32
  dp_minor :: u32
  dp_totalGlobalMem :: u64
  dp_multiProcessorCount :: u32
  dp_totalConstMem :: u64
  dp_sharedMemPerBlock :: u64
  dp_regsPerBlock :: u32
  dp_warpSize :: u32
  dp_maxThreadsPerBlock :: u32
  dp_maxThreadsDim :: "u32 list"
  dp_maxGridSize :: "u32 list"

definition print_dims :: "string \<Rightarrow> u32 list \<Rightarrow> trace_line list cres" where
  "print_dims nm xs = bindr (nthr xs 0) (\<lambda>x. bindr (nthr xs 1) (\<lambda>y. bindr (nthr xs 2) (\<lambda>z.
     Inr [(nm, [t_u32 x, t_u32 y, t_u32 z])])))"

definition l_printCudaDeviceProp :: "device_prop option \<Rightarrow> (int \<times> trace_line list) cres" where
  "l_printCudaDeviceProp pProp = (case pProp of None \<Rightarrow> Inl NullDeref | Some d \<Rightarrow>
     bindr (print_dims ''Maximum sizes of each dimension of a block'' (dp_maxThreadsDim d)) (\<lambda>bl.
     bindr (print_dims ''Maximum sizes of each dimension of a grid'' (dp_maxGridSize d)) (\<lambda>gl.
     Inr (OK, [(''Device'', [t_str (Some (dp_name d))]),
       (''CUDA Capability Major/Minor version number'', [t_u32 (dp_major d), t_u32 (dp_minor d)]),
       (''Total amount of global memory'', [T_num (uint (dp_totalGlobalMem d))]),
       (''Multiprocessors'', [t_u32 (dp_multiProcessorCount d)]),
       (''Total amount of constant memory'', [T_num (uint (dp_totalConstMem d))]),
       (''Total amount of shared memory per block'', [T_num (uint (dp_sharedMemPerBlock d))]),
       (''Total number of registers available per block'', [t_u32 (dp_regsPerBlock d)]),
       (''Warp size'', [t_u32 (dp_warpSize d)]),
       (''Maximum number of threads per block'', [t_u32 (dp_maxThreadsPerBlock d)])] @ bl @ gl))))"

text \<open>The array of the backend.\<close>

definition printFatCIArray :: "fatcubin_info list option \<Rightarrow> trace_line list" where
  "printFatCIArray fcia = (case fcia of None \<Rightarrow> [] | Some es \<Rightarrow>
     (''FatCubin_info array'', [T_num (int (length es))])
       # map (\<lambda>e. (''FAT Cubin Handle'', [T_ptr (fi_fatCubinHandle e)])) es)"

text \<open>The table of the library, in the order of its iteration; the values are arrays of variables.\<close>

definition l_printGPtrArr :: "u64 \<times> vars_val list \<Rightarrow> trace_line list" where
  "l_printGPtrArr e = (''Key (FatCubinHandler)'', [T_ptr (fst e)]) # numbered (\<lambda>i v. (''hostVar'',
     [T_num i, T_ptr (vv_hostVar v), t_str (vv_deviceName v)])) (snd e) @ [('']'', [])]"

definition printRegVarTab :: "vars_tab option \<Rightarrow> trace_line list" where
  "printRegVarTab tab = (case tab of None \<Rightarrow> [] | Some t \<Rightarrow> concat (map l_printGPtrArr t))"

section \<open>When \<open>l_printFatBinary\<close> comes back\<close>

lemma print_entries_returns:
  "(\<exists>ls. print_entries ok line i es = Inr ls) \<longleftrightarrow> (\<exists>e \<in> set es. \<not> ok e)"
  by (induction es arbitrary: i) (auto simp: bindr_eq_Inr_iff)

lemma print_names_runs_off [simp]: "print_names i es = Inl OutOfBounds"
  by (induction es arbitrary: i) simp_all

lemma print_terminated_returns:
  "(\<exists>ls. print_terminated ok line p = Inr ls) \<longleftrightarrow> p \<noteq> None \<and> terminated ok p"
  by (cases p) (simp_all add: print_terminated_def print_entries_returns terminated_def)

lemma l_printPtxE_returns: "(\<exists>ls. l_printPtxE p = Inr ls) \<longleftrightarrow> p \<noteq> None \<and> terminated ptx_ok p"
  using print_terminated_returns [of ptx_ok ptx_line p] by (auto simp: l_printPtxE_def bindr_eq_Inr_iff)

lemma l_printCubinE_returns: "(\<exists>ls. l_printCubinE p = Inr ls) \<longleftrightarrow> p \<noteq> None \<and> terminated cubin_ok p"
  using print_terminated_returns [of cubin_ok cubin_line p] by (auto simp: l_printCubinE_def bindr_eq_Inr_iff)

text \<open>A table of symbols is printed when it is empty.\<close>

definition no_symbols :: "cudaFatSymbol list option \<Rightarrow> bool" where
  "no_symbols p \<longleftrightarrow> (case p of None \<Rightarrow> True | Some es \<Rightarrow> es \<noteq> [] \<and> sym_name (es ! 0) = None)"

lemma l_printSymbolE_returns: "(\<exists>ls. l_printSymbolE p nm = Inr ls) \<longleftrightarrow> no_symbols p"
  by (auto simp: l_printSymbolE_def no_symbols_def nthr_def split: option.splits)

lemma print_debugInfo_returns:
  "(\<exists>ls. print_debugInfo mem a = Inr ls) \<longleftrightarrow> a = 0 \<or> (\<exists>s. mem a = Inr s)"
  by (auto simp: print_debugInfo_def bindr_eq_Inr_iff)

lemma print_seq_returns: "(\<exists>ls. print_seq xs = Inr ls) \<longleftrightarrow> (\<forall>x \<in> set xs. \<exists>ls. x = Inr ls)"
  by (induction xs) (auto simp: bindr_eq_Inr_iff)

lemma print_fat_returns:
  "(\<exists>ls. l_printFatBinary mem (Some f) = Inr ls) \<longleftrightarrow>
     fat_ptx f \<noteq> None \<and> terminated ptx_ok (fat_ptx f) \<and> fat_cubin f \<noteq> None \<and> terminated cubin_ok (fat_cubin f)
     \<and> (fat_debugInfo f = 0 \<or> (\<exists>s. mem (fat_debugInfo f) = Inr s))
     \<and> no_symbols (fat_exported f) \<and> no_symbols (fat_imported f)"
  unfolding l_printFatBinary_def option.case print_seq_returns
  using l_printPtxE_returns [of "fat_ptx f"] l_printCubinE_returns [of "fat_cubin f"]
    l_printSymbolE_returns [of "fat_exported f" name_exported] l_printSymbolE_returns [of "fat_imported f" name_imported]
    print_debugInfo_returns [of mem "fat_debugInfo f"] by auto

text \<open>
  What the backend has unpacked: its entries are terminated, and it is printed unless it has symbols,
  the first with a name, or an address in \<open>debugInfo\<close> that means nothing on the backend.
\<close>

definition first_unnamed :: "cudaFatSymbol list option \<Rightarrow> bool" where
  "first_unnamed p \<longleftrightarrow> (case arr_entries sym_ok p of [] \<Rightarrow> True | e # es \<Rightarrow> str_bytes (sym_name e) = [])"

lemma syms_view_unnamed: "no_symbols (syms_view p) \<longleftrightarrow> first_unnamed p"
  by (cases "arr_entries sym_ok p")
    (auto simp: syms_view_def no_symbols_def sym_view_def first_unnamed_def str_view_def)

lemma ptxs_view_terminated: "ptxs_view p \<noteq> None \<and> terminated ptx_ok (ptxs_view p)"
  by (simp add: ptxs_view_def terminated_def ptx_ok_def)

lemma cubins_view_terminated: "cubins_view p \<noteq> None \<and> terminated cubin_ok (cubins_view p)"
  by (simp add: cubins_view_def terminated_def cubin_ok_def)

lemma received_fat_binary_printed:
  assumes "fat_wf f" and "holds_at b p (fat_image f)"
  shows "\<exists>x off. unpackFatBinary b (Some p) = Inr (Some x, Some off)
    \<and> ((\<exists>ls. l_printFatBinary mem (Some x) = Inr ls) \<longleftrightarrow>
        first_unnamed (fat_exported f) \<and> first_unnamed (fat_imported f)
        \<and> (fat_debugInfo f = 0 \<or> (\<exists>s. mem (fat_debugInfo f) = Inr s)))"
  using yields_apply [OF yields_fat [OF assms(1)] assms(2)] ptxs_view_terminated [of "fat_ptx f"]
    cubins_view_terminated [of "fat_cubin f"] syms_view_unnamed [of "fat_exported f"]
    syms_view_unnamed [of "fat_imported f"]
  by (auto simp: print_fat_returns fat_view_def simp del: not_None_eq)

section \<open>The registries\<close>

text \<open>The trace has every registered variable, and every fat binary, once.\<close>

lemma l_printGPtrArr_hostVars:
  "map (\<lambda>l. tl (snd l)) (filter (\<lambda>l. fst l = ''hostVar'') (l_printGPtrArr e))
    = map (\<lambda>v. [T_ptr (vv_hostVar v), t_str (vv_deviceName v)]) (snd e)"
proof -
  have "map (\<lambda>l. tl (snd l)) (filter (\<lambda>l. fst l = ''hostVar'') (map (\<lambda>(i, v). (''hostVar'',
      [T_num (int i), T_ptr (vv_hostVar v), t_str (vv_deviceName v)])) (List.enumerate n vs)))
    = map (\<lambda>v. [T_ptr (vv_hostVar v), t_str (vv_deviceName v)]) vs" for n vs
    by (induction vs arbitrary: n) simp_all
  then show ?thesis by (simp add: l_printGPtrArr_def numbered_def)
qed

lemma variables_traced:
  "map (\<lambda>l. tl (snd l)) (filter (\<lambda>l. fst l = ''hostVar'') (printRegVarTab (Some t)))
    = map (\<lambda>v. [T_ptr (vv_hostVar v), t_str (vv_deviceName v)]) (tab_vars t)"
  by (induction t) (simp_all add: printRegVarTab_def l_printGPtrArr_hostVars tab_vars_def)

lemma fat_binaries_traced:
  "map snd (tl (printFatCIArray (Some es))) = map (\<lambda>e. [T_ptr (fi_fatCubinHandle e)]) es"
  by (simp add: printFatCIArray_def)

end
