(* ===== verification/Feedback.thy ===== *)
theory Feedback
  imports Dev_Balance Sched_Common
begin

text \<open>
  The choices of a device by what the schedulers report, remote/remote_api_wrapper.c: by the
  utilisation of the devices and by the execution times of the two types of applications, with
  the counterpart that takes an application off its device (\<open>dec_thread_count_per_device\<close> with
  \<open>L2_FEEDBACK_ENABLED\<close>).
\<close>

section \<open>State\<close>

definition L2_FEEDBACK_TYPE_NONE :: int where "L2_FEEDBACK_TYPE_NONE = 100"

definition L2_FEEDBACK_TYPE_UTIL :: int where "L2_FEEDBACK_TYPE_UTIL = 101"

definition L2_FEEDBACK_TYPE_EX_TIME :: int where "L2_FEEDBACK_TYPE_EX_TIME = 102"

text \<open>The tables have a row for each application type and a column for each of four devices.\<close>

record fb_bal = dev_bal +
  fb_type :: int
  fb_util :: "rat list list"
  fb_ex :: "rat list list"
  fb_nk :: "rat list list"

text \<open>
  \<open>{ {1}, {1} }\<close> sets the first column only.
\<close>

definition fb_bal0 :: fb_bal where
  "fb_bal0 = \<lparr>db_devices = 0, db_threads = replicate MAX_BACKEND_DEVICES 0, db_rr = 0,
     fb_type = L2_FEEDBACK_TYPE_NONE, fb_util = [[1, 0, 0, 0], [1, 0, 0, 0]],
     fb_ex = replicate 2 (replicate 4 0), fb_nk = replicate 2 (replicate 4 0)\<rparr>"

definition cell :: "rat list list \<Rightarrow> int \<Rightarrow> nat \<Rightarrow> rat cres" where
  "cell t i j = bindr (nthri t i) (\<lambda>row. nthr row j)"

section \<open>Floating point\<close>

text \<open>
  \<open>(int) (x / y)\<close>: a quotient that no \<open>int\<close> can hold, infinity and NaN among them, has no
  defined result.
\<close>

definition float_ratio :: "rat \<Rightarrow> rat \<Rightarrow> int cres" where
  "float_ratio x y = (if y = 0 then Inl Uninit else
     let r = flt_to_int (flt (x / y)) in if - (2 ^ 31) \<le> r \<and> r < 2 ^ 31 then Inr r else Inl Uninit)"

text \<open>The ratio of the larger to the smaller entry of a device, and which row has the larger.\<close>

definition fb_ratio :: "rat list list \<Rightarrow> nat \<Rightarrow> (int \<times> int) cres" where
  "fb_ratio t d = bindr (cell t 0 d) (\<lambda>x. bindr (cell t 1 d) (\<lambda>y.
     if x \<ge> y then bindr (float_ratio x y) (\<lambda>r. Inr (r, 0))
     else bindr (float_ratio y x) (\<lambda>r. Inr (r, 1))))"

definition gpu_weight :: "rat list" where "gpu_weight = [1, 3, 1, 3/2]"

text \<open>\<open>thread_count_per_device[i] * gpu_weight[i]\<close>.\<close>

definition load :: "fb_bal \<Rightarrow> nat \<Rightarrow> rat cres" where
  "load b i = bindr (nthr (db_threads b) i) (\<lambda>c. bindr (nthr gpu_weight i) (\<lambda>w.
     Inr (flt (flt (of_int c) * w))))"

definition load_less :: "fb_bal \<Rightarrow> nat \<Rightarrow> nat \<Rightarrow> bool cres" where
  "load_less b i j = bindr (load b i) (\<lambda>x. bindr (load b j) (\<lambda>y. Inr (x < y)))"

section \<open>The choices\<close>

definition add_threads :: "nat \<Rightarrow> int \<Rightarrow> fb_bal \<Rightarrow> fb_bal cres" where
  "add_threads d n b = bindr (nthr (db_threads b) d) (\<lambda>c.
     Inr (b\<lparr>db_threads := (db_threads b)[d := c + n]\<rparr>))"

text \<open>Four devices, whatever \<open>BACKEND_DEVICES\<close> is; the second test names row 0 twice.\<close>

primrec util_data :: "fb_bal \<Rightarrow> nat \<Rightarrow> nat \<Rightarrow> bool cres" where
  "util_data b 0 i = Inr True"
| "util_data b (Suc k) i = bindr (cell (fb_util b) 0 i) (\<lambda>x. bindr (cell (fb_util b) 1 i) (\<lambda>y.
     if x = 1 \<or> y = 1 then Inr False else bindr (cell (fb_nk b) 0 i) (\<lambda>z.
     if z = 0 then Inr False else util_data b k (i + 1))))"

primrec ex_data :: "fb_bal \<Rightarrow> nat \<Rightarrow> nat \<Rightarrow> bool cres" where
  "ex_data b 0 i = Inr True"
| "ex_data b (Suc k) i = bindr (cell (fb_ex b) 0 i) (\<lambda>x. bindr (cell (fb_ex b) 1 i) (\<lambda>y.
     if x = 0 \<or> y = 0 then Inr False else ex_data b k (i + 1)))"

text \<open>
  The application whose type has the larger entry counts as many threads as the ratio says,
  the other one as one.
\<close>

definition charge :: "rat list list \<Rightarrow> int \<Rightarrow> nat \<Rightarrow> int cres" where
  "charge t app d = bindr (fb_ratio t d) (\<lambda>(r, greater). Inr (if greater = app then r else 1))"

text \<open>The search for the second smallest load also starts at device 0.\<close>

definition second_cmp :: "fb_bal \<Rightarrow> nat \<Rightarrow> nat \<Rightarrow> nat \<Rightarrow> bool cres" where
  "second_cmp b mn i sm = bindr (load b i) (\<lambda>x. bindr (load b mn) (\<lambda>m.
     if \<not> x > m then Inr False else bindr (load b sm) (\<lambda>s. Inr (x \<le> s))))"

definition get_next_weighted_device_async_memcpy_feedback :: "int \<Rightarrow> fb_bal \<Rightarrow> (int \<times> fb_bal) cres" where
  "get_next_weighted_device_async_memcpy_feedback app b =
     (let b = b\<lparr>fb_type := L2_FEEDBACK_TYPE_UTIL\<rparr> in
     bindr (util_data b 4 0) (\<lambda>all.
     bindr (least_loaded (load_less b) (nat (db_devices b)) 0 0) (\<lambda>mn.
     bindr (least_loaded (second_cmp b mn) (nat (db_devices b)) 0 0) (\<lambda>sm.
     bindr (load b mn) (\<lambda>mw. bindr (load b sm) (\<lambda>sw.
     if all then
       bindr (if flt (sw - mw) \<le> 1
              then bindr (cell (fb_nk b) app mn) (\<lambda>x. bindr (cell (fb_nk b) app sm) (\<lambda>y. Inr (x < y)))
              else Inr False) (\<lambda>prefer2.
       let chosen = (if prefer2 then sm else mn) in
       bindr (charge (fb_util b) app chosen) (\<lambda>n.
       bindr (add_threads chosen n b) (\<lambda>b. Inr (int chosen, b))))
     else bindr (add_threads mn 1 b) (\<lambda>b. Inr (int mn, b))))))))"

definition get_next_weighted_device_overall_utilization_feedback :: "int \<Rightarrow> fb_bal \<Rightarrow> (int \<times> fb_bal) cres" where
  "get_next_weighted_device_overall_utilization_feedback nodeid b =
     (let b = b\<lparr>fb_type := L2_FEEDBACK_TYPE_UTIL\<rparr> in
     bindr (least_loaded (load_less b) (nat (db_devices b)) 0 0) (\<lambda>mn.
     bindr (charge (fb_util b) nodeid mn) (\<lambda>n.
     bindr (add_threads mn n b) (\<lambda>b. Inr (int mn, b)))))"

definition get_next_weighted_device_execution_time_feedback :: "int \<Rightarrow> fb_bal \<Rightarrow> (int \<times> fb_bal) cres" where
  "get_next_weighted_device_execution_time_feedback app b =
     (let b = b\<lparr>fb_type := L2_FEEDBACK_TYPE_EX_TIME\<rparr> in
     bindr (ex_data b 4 0) (\<lambda>all.
     bindr (least_loaded (threads_less (dev_bal.truncate b)) (nat (db_devices b)) 0 0) (\<lambda>mn.
     bindr (if all then charge (fb_ex b) app mn else Inr 1) (\<lambda>n.
     bindr (add_threads mn n b) (\<lambda>b. Inr (int mn, b))))))"

section \<open>The end of a session\<close>

text \<open>With no policy in use yet the count stays as it is.\<close>

definition fb_dec_thread_count :: "int option \<Rightarrow> int \<Rightarrow> fb_bal \<Rightarrow> fb_bal cres" where
  "fb_dec_thread_count assigned app b = (case assigned of None \<Rightarrow> Inl NullDeref | Some d \<Rightarrow>
     if fb_type b = L2_FEEDBACK_TYPE_UTIL then
       bindr (util_data b 4 0) (\<lambda>all.
       bindr (if all then (if d < 0 then Inl OutOfBounds else charge (fb_util b) app (nat d)) else Inr 1) (\<lambda>n.
       if d < 0 then Inl OutOfBounds else add_threads (nat d) (- n) b))
     else if fb_type b = L2_FEEDBACK_TYPE_EX_TIME then
       bindr (ex_data b 4 0) (\<lambda>all.
       bindr (if all then (if d < 0 then Inl OutOfBounds else charge (fb_ex b) app (nat d)) else Inr 1) (\<lambda>n.
       if d < 0 then Inl OutOfBounds else add_threads (nat d) (- n) b))
     else Inr b)"

section \<open>Properties\<close>

lemma add_threads_back:
  assumes "add_threads d n b = Inr b'"
  shows "add_threads d (- n) b' = Inr b"
  using assms by (auto simp: add_threads_def bindr_eq_Inr_iff nthr_eq_Inr)

lemma ex_data_frame: "fb_ex b' = fb_ex b \<Longrightarrow> ex_data b' k i = ex_data b k i"
  by (induction k arbitrary: i) (simp_all cong: if_cong)

lemma ex_dec:
  assumes "fb_type b = L2_FEEDBACK_TYPE_EX_TIME" and "ex_data b 4 0 = Inr all"
    and "(if all then charge (fb_ex b) app d else Inr 1) = Inr n" and "add_threads d n b = Inr b'"
  shows "fb_dec_thread_count (Some (int d)) app b' = Inr b"
proof -
  have s: "fb_type b' = fb_type b" "fb_ex b' = fb_ex b"
    using assms(4) by (auto simp: add_threads_def bindr_eq_Inr_iff)
  then show ?thesis using assms(1-3) add_threads_back [OF assms(4)] ex_data_frame [OF s(2), of 4 0]
    by (cases all) (simp_all add: fb_dec_thread_count_def L2_FEEDBACK_TYPE_EX_TIME_def L2_FEEDBACK_TYPE_UTIL_def)
qed

text \<open>C38. The policy by execution times gives out a device with the fewest threads, and when the
  application ends without new reports having come in, the thread counts are what they were before:
  the number of threads that were added is taken off again.\<close>

theorem execution_time_policy_balanced:
  assumes "get_next_weighted_device_execution_time_feedback app b = Inr (d, b')"
    and "0 < db_devices b" and "db_devices b \<le> int (length (db_threads b))"
  shows "0 \<le> d \<and> d < db_devices b
    \<and> (\<forall>j < nat (db_devices b). db_threads b ! nat d \<le> db_threads b ! j)
    \<and> fb_dec_thread_count (Some d) app b' = Inr (b\<lparr>fb_type := L2_FEEDBACK_TYPE_EX_TIME\<rparr>)"
proof -
  let ?b = "b\<lparr>fb_type := L2_FEEDBACK_TYPE_EX_TIME\<rparr>" and ?k = "nat (db_devices b)"
  obtain all mn n where g: "ex_data ?b 4 0 = Inr all"
      "least_loaded (threads_less (dev_bal.truncate ?b)) ?k 0 0 = Inr mn"
      "(if all then charge (fb_ex ?b) app mn else Inr 1) = Inr n" "add_threads mn n ?b = Inr b'" "d = int mn"
    using assms(1) by (auto simp: get_next_weighted_device_execution_time_feedback_def Let_def bindr_eq_Inr_iff)
  have t: "db_threads (dev_bal.truncate ?b) = db_threads b" by (simp add: dev_bal.defs)
  have k: "0 + ?k \<le> length (db_threads (dev_bal.truncate ?b))" "0 < length (db_threads (dev_bal.truncate ?b))"
    using assms(2,3) t by auto
  obtain m where "least_loaded (threads_less (dev_bal.truncate ?b)) ?k 0 0 = Inr m" "m < ?k \<or> m = 0"
      "\<forall>j < ?k. db_threads b ! m \<le> db_threads b ! j"
    using least_loaded_threads [OF k(1), of 0] k(2) t by auto
  then have m: "mn < ?k" "\<forall>j < ?k. db_threads b ! mn \<le> db_threads b ! j" using g(2) assms(2) by auto
  have "fb_dec_thread_count (Some (int mn)) app b' = Inr ?b"
    by (rule ex_dec [OF _ g(1,3,4)]) simp
  then show ?thesis using m g(5) by auto
qed

definition demo_fb :: fb_bal where
  "demo_fb = fb_bal0\<lparr>db_devices := 2, db_threads := [3, 2, 0], fb_ex := [[5, 6, 7, 8], [1, 2, 3, 4]]\<rparr>"

lemma demo_fb_choice:
  "get_next_weighted_device_execution_time_feedback 0 demo_fb
   = Inr (1, demo_fb\<lparr>fb_type := L2_FEEDBACK_TYPE_EX_TIME, db_threads := [3, 5, 0]\<rparr>)"
  by code_simp

theorem execution_time_policy_balanced_witness:
  "fb_dec_thread_count (Some 1) 0 (demo_fb\<lparr>fb_type := L2_FEEDBACK_TYPE_EX_TIME, db_threads := [3, 5, 0]\<rparr>)
   = Inr (demo_fb\<lparr>fb_type := L2_FEEDBACK_TYPE_EX_TIME\<rparr>)"
  using execution_time_policy_balanced [OF demo_fb_choice] by (simp add: demo_fb_def)

text \<open>
  With the initial utilisations the policy by utilisation computes 0/0 as soon as it chooses a
  device other than the first.
\<close>

theorem utilization_policy_initially_undefined:
  "get_next_weighted_device_overall_utilization_feedback app (fb_bal0\<lparr>db_devices := 2, db_threads := 1 # replicate 99 0\<rparr>)
   = Inl Uninit"
proof -
  have "least_loaded (load_less (fb_bal0\<lparr>fb_type := L2_FEEDBACK_TYPE_UTIL, db_devices := 2, db_threads := 1 # replicate 99 0\<rparr>)) 2 0 0 = Inr 1"
    by code_simp
  moreover have "fb_ratio [[1, 0, 0, 0], [1, 0, 0, 0]] 1 = Inl Uninit" by code_simp
  ultimately show ?thesis
    by (simp add: get_next_weighted_device_overall_utilization_feedback_def Let_def charge_def fb_bal0_def)
qed

end
