(* ===== verification/Feedback_Loop.thy ===== *)
theory Feedback_Loop
  imports Feedback Interposer Remote_Srv L2_Client
begin

text \<open>
  The way of the reports of a node to the global scheduler, as it is built with
  \<open>L2_FEEDBACK_ENABLED\<close>: the backend puts the report into the packet of \<open>cudaThreadExit\<close>
  (backend/backend.c), the client is to pass it on (interposer/libci.c), and the global scheduler to
  enter it into the tables its choices read (\<open>nvbackCudaGetDevice_srv\<close> of
  remote/\<open>remote_api_wrapper.c\<close>).
\<close>

section \<open>The client\<close>

text \<open>The packet for the global scheduler, with the fields of the packet that came back.\<close>

definition feedback_packet :: "cuda_packet \<Rightarrow> cuda_packet \<Rightarrow> cuda_packet" where
  "feedback_packet p f = f\<lparr>pk_is_feedback_packet := 1, pk_node := pk_node p, pk_devid := pk_devid p,
     pk_app_type := pk_app_type p, pk_total_ex_time := pk_total_ex_time p, pk_sys_time := pk_sys_time p,
     pk_usr_time := pk_usr_time p, pk_cuda_kernel_launches := pk_cuda_kernel_launches p,
     pk_kernel_time := pk_kernel_time p, pk_non_kernel_time := pk_non_kernel_time p\<rparr>"

definition send_feedback :: "'n client_env \<Rightarrow> cuda_packet \<Rightarrow> 'n client \<Rightarrow> 'n client cres" where
  "send_feedback env p c = (case l_remoteInitMetThrReq env (method_num CUDA_GET_DEVICE) c of
     (None, c) \<Rightarrow> Inr c
   | (Some f, c) \<Rightarrow> bindr (nvbackCudaGetDevice_rpc (en_rpc env MAX_BACKEND_NODES) (feedback_packet p f) (ci_net c))
       (\<lambda>(r, f, net). Inr (c\<lparr>ci_net := net\<rparr>)))"

definition rcudaThreadExit_fb :: "'n client_env \<Rightarrow> int \<Rightarrow> 'n client \<Rightarrow> (u32 \<times> 'n client) cres" where
  "rcudaThreadExit_fb env idx c =
     bindr (remote_call env (method_num CUDA_THREAD_EXIT) (\<lambda>p. p)
       (no_rsp (nvbackCudaThreadExit_rpc (en_rpc env idx))) sync_err c) (\<lambda>(x, c).
     bindr (case x of None \<Rightarrow> Inr c
       | Some (r, p, rsp) \<Rightarrow> if r = OK \<and> pk_is_feedback_packet p = 1 then send_feedback env p c else Inr c) (\<lambda>c.
     Inr (ci_err c, c)))"

section \<open>Floats\<close>

text \<open>
  The value of a \<open>float\<close> by its bits; an infinity or a NaN is outside of the model. Double precision
  is rounded to 53 significant bits. \<open>float_bits\<close> is for the normal numbers and 0.
\<close>

definition float_val :: "u32 \<Rightarrow> rat cres" where
  "float_val w = (let e = uint (and (drop_bit 23 w) 255); m = uint (and w 8388607);
       s = (if bit w 31 then -1 else 1) in
     if e = 255 then Inl Uninit
     else Inr (s * (if e = 0 then of_int m * 2 powi (-149) else of_int (m + 8388608) * 2 powi (e - 150))))"

definition float_bits :: "rat \<Rightarrow> u32" where
  "float_bits x = (if x = 0 then 0 else
     let e = flt_exp x; m = \<lfloor>\<bar>x\<bar> / 2 powi (e - 23)\<rfloor> in
     word_of_int ((if x < 0 then 2 ^ 31 else 0) + (e + 127) * 2 ^ 23 + (m - 2 ^ 23)))"

definition dbl :: "rat \<Rightarrow> rat" where
  "dbl x = (if x = 0 then 0 else
     let u = 2 powi (flt_exp x - 52) in sgn x * of_int (round_even (\<bar>x\<bar> / u)) * u)"

section \<open>The backend\<close>

text \<open>
  What the loop of a connection keeps for the report, and what the system says about the process:
  \<open>fe_sends\<close> is the array \<open>sends_l2_feedback\<close> of the backend's own \<open>Scheduler_Data\<close>.
\<close>

record fb_sess =
  fs_launches :: u64
  fs_gDim :: "u32 \<times> u32 \<times> u32"
  fs_bDim :: "u32 \<times> u32 \<times> u32"
  fs_kernel :: timeval
  fs_non_kernel :: timeval

record fb_env =
  fe_pid :: int
  fe_sends :: "int list"
  fe_utime :: int
  fe_stime :: int
  fe_ticks :: int
  fe_junk :: process_credit_data

definition IFRIT_ID :: int where "IFRIT_ID = 0"

definition tv_image :: "timeval \<Rightarrow> timeval_img" where
  "tv_image t = \<lparr>tvi_sec = word_of_int (tv_sec t), tvi_usec = word_of_int (tv_usec t)\<rparr>"

definition count_request :: "fb_env \<Rightarrow> u32 \<Rightarrow> cuda_packet \<Rightarrow> fb_sess \<Rightarrow> fb_sess cres" where
  "count_request e index p f = (if index = -1 then Inr f else
     bindr (nthr (fe_sends e) (unat index)) (\<lambda>b. if b = 0 then Inr f else
       let f = (if pk_method_id p = method_num CUDA_LAUNCH then f\<lparr>fs_launches := fs_launches f + 1\<rparr> else f) in
       Inr (if pk_method_id p = method_num CUDA_CONFIGURE_CALL
         then f\<lparr>fs_gDim := arg_dim (pk_arg0 p), fs_bDim := arg_dim (pk_arg1 p)\<rparr> else f)))"

text \<open>The times in seconds, and the \<open>float\<close>s of the processor times: ticks by ticks per second.\<close>

definition fill_report :: "fb_env \<Rightarrow> int \<Rightarrow> int \<Rightarrow> timeval \<Rightarrow> fb_sess \<Rightarrow> cuda_packet \<Rightarrow> cuda_packet" where
  "fill_report e gpu application texec f p =
     (let ticks = flt (of_int (fe_ticks e)) in
      p\<lparr>pk_is_feedback_packet := 1, pk_node := word_of_int IFRIT_ID, pk_devid := word_of_int gpu,
        pk_app_type := word_of_int application,
        pk_total_ex_time := float_bits (flt (dbl (flt (of_int (tv_sec texec)) + dbl (flt (of_int (tv_usec texec)) * dbl (1 / 1000000))))),
        pk_sys_time := float_bits (flt (flt (of_int (fe_stime e)) / ticks)),
        pk_usr_time := float_bits (flt (flt (of_int (fe_utime e)) / ticks)),
        pk_cuda_kernel_launches := fs_launches f,
        pk_arg0 := set_arg_dim (fs_gDim f) (pk_arg0 p), pk_arg1 := set_arg_dim (fs_bDim f) (pk_arg1 p),
        pk_kernel_time := tv_image (fs_kernel f), pk_non_kernel_time := tv_image (fs_non_kernel f)\<rparr>)"

text \<open>
  The section before the execution of a request. A result of \<open>las_get_l2_data\<close> that is not 0 is taken
  for a success, also the -1 that comes without an answer.
\<close>

definition prepare_report :: "fb_env \<Rightarrow> u32 \<Rightarrow> int \<Rightarrow> cuda_packet \<Rightarrow> fb_sess \<Rightarrow> l2 \<Rightarrow> (cuda_packet \<times> fb_sess \<times> l2) cres" where
  "prepare_report e index gpu p f l =
     (let p = p\<lparr>pk_is_feedback_packet := 0\<rparr> in
      bindr (count_request e index p f) (\<lambda>f.
      if pk_method_id p \<noteq> method_num CUDA_THREAD_EXIT \<or> index = -1 then Inr (p, f, l) else
      bindr (las_get_l2_data (fe_pid e) gpu (sint index) (fe_junk e) l) (\<lambda>(success, x, l).
      if success = 0 then Inr (p, f, l) else
      (case x of None \<Rightarrow> Inl Uninit | Some (application, texec) \<Rightarrow>
        Inr (fill_report e gpu application texec f p, f, l)))))"

section \<open>The global scheduler\<close>

text \<open>
  The tables with those that are only written. \<open>mem_async_utilization\<close> is set to 1 always, as
  nothing counts in \<open>thread_count_mem_async\<close>.
\<close>

record fb_reports = fb_bal +
  fr_usr :: "rat list list"
  fr_sys :: "rat list list"
  fr_launches :: "rat list list"
  fr_kernel :: "rat list list"
  fr_async :: "rat list"

definition set_cell :: "rat list list \<Rightarrow> int \<Rightarrow> int \<Rightarrow> rat \<Rightarrow> rat list list cres" where
  "set_cell t i j v = bindr (nthri t i) (\<lambda>row. bindr (nthri row j) (\<lambda>_.
     Inr (t[nat i := row[nat j := v]])))"

text \<open>\<open>tv_sec + (tv_usec * 0.000001)\<close>, stored in a \<open>float\<close>.\<close>

definition seconds :: "timeval_img \<Rightarrow> rat" where
  "seconds t = flt (dbl (dbl (of_int (sint (tvi_sec t)))
     + dbl (dbl (of_int (sint (tvi_usec t))) * dbl (1 / 1000000))))"

definition record_feedback :: "cuda_packet \<Rightarrow> fb_reports \<Rightarrow> fb_reports cres" where
  "record_feedback p b =
     (let row = sint (pk_app_type p); col = get_gpu_index (sint (pk_node p)) (sint (pk_devid p)) in
      bindr (float_val (pk_usr_time p)) (\<lambda>usr. bindr (float_val (pk_sys_time p)) (\<lambda>sys.
      bindr (float_val (pk_total_ex_time p)) (\<lambda>ex.
      bindr (set_cell (fr_usr b) row col usr) (\<lambda>u.
      bindr (set_cell (fr_sys b) row col sys) (\<lambda>s.
      bindr (set_cell (fb_ex b) row col ex) (\<lambda>e.
      bindr (set_cell (fr_launches b) row col (flt (of_int (sint (pk_cuda_kernel_launches p))))) (\<lambda>l.
      let k = seconds (pk_kernel_time p) in
      bindr (set_cell (fr_kernel b) row col k) (\<lambda>kt.
      bindr (set_cell (fb_nk b) row col (seconds (pk_non_kernel_time p))) (\<lambda>nk.
      if flt (sys + usr) = 0 then Inl Uninit else
      bindr (set_cell (fb_util b) row col (flt (k / flt (sys + usr)))) (\<lambda>ut.
      bindr (nthri (fr_async b) col) (\<lambda>_.
      Inr (b\<lparr>fr_usr := u, fr_sys := s, fb_ex := e, fr_launches := l, fr_kernel := kt, fb_nk := nk,
        fb_util := ut, fr_async := (fr_async b)[nat col := 1]\<rparr>)))))))))))))"

text \<open>A report is a question for a device, too: it goes on as any other.\<close>

definition nvbackCudaGetDevice_srv_fb :: "'g srv_env \<Rightarrow> cuda_packet \<Rightarrow> srv_conn
    \<Rightarrow> 'g backend_st \<times> fb_reports \<Rightarrow> (fb_reports \<times> int \<times> cuda_packet \<times> srv_conn \<times> 'g backend_st) cres" where
  "nvbackCudaGetDevice_srv_fb env p sc st =
     bindr (if pk_is_feedback_packet p \<noteq> 0 then record_feedback p (snd st) else Inr (snd st)) (\<lambda>b.
     bindr (nvbackCudaGetDevice_srv env p sc (fst st)) (\<lambda>r. Inr (b, r)))"

section \<open>No report arrives\<close>

text \<open>
  \<open>l_do_cuda_rpc\<close> over a connection to each backend, with any backends: \<open>cn_peer\<close> is what the backend
  does, \<open>cn_host\<close> its name and \<open>cn_env\<close> the answers of the system.
\<close>

record net_env =
  ne_send :: xfer
  ne_recv :: xfer
  ne_peer :: "int \<Rightarrow> sock \<Rightarrow> sock"
  ne_host :: "int \<Rightarrow> string"
  ne_env :: connect_env

definition net_rpc :: "net_env \<Rightarrow> int \<Rightarrow> (int \<Rightarrow> connection \<times> sock) rpc" where
  "net_rpc e i p req n rsp rn net =
     bindr (l_do_cuda_rpc (ne_send e) (ne_recv e) (ne_peer e i) (ne_host e i) i (ne_env e)
       (fst (net i)) p req n rsp rn (snd (net i))) (\<lambda>(r, conn, p, rsp, s).
     Inr (p, rsp, net(i := (conn, s))))"

text \<open>The backend keeps the report: the packet it has filled in is not sent.\<close>

lemma prepare_report_method:
  "prepare_report e index gpu p f l = Inr (p', f', l') \<Longrightarrow> pk_method_id p' = pk_method_id p"
  by (auto simp: prepare_report_def Let_def bindr_eq_Inr_iff fill_report_def split: if_splits option.splits)

lemma thread_exit_unanswered: "\<not> method_expects_response (method_num CUDA_THREAD_EXIT)"
  by code_simp

lemma report_not_sent:
  assumes "prepare_report e index gpu p f l = Inr (p', f', l')" "pk_method_id p = method_num CUDA_THREAD_EXIT"
    and "st_num_cuda_pkts strm = 1" "st_rpkts strm = p'' # ps" "pk_method_id p'' = pk_method_id p'"
  shows "backend_respond sndf fd strm q sc s = Inr (True, s)"
  using assms(3-5) prepare_report_method [OF assms(1)] assms(2) thread_exit_unanswered
  by (simp add: backend_respond_def strm_expects_response_def nthri_def nthr_def)

text \<open>A packet whose method is not answered comes back as it was.\<close>

lemma rpc_send_async:
  assumes "rpc_send sndf conn p req n s = Inr (r, s')" "\<not> method_expects_response (pk_method_id p)"
  shows "r \<noteq> None"
  using assms by (auto simp: rpc_send_def Let_def bindr_eq_Inr_iff conn_sendCudaPktHdr_def
      strm_expects_response_def MAX_REMOTE_BATCH_SIZE_def nthri_def nthr_def split: if_splits)

lemma net_rpc_async:
  assumes "net_rpc e i p req n rsp rn net = Inr (p', rsp', net')" "\<not> method_expects_response (pk_method_id p)"
  shows "p' = p"
proof -
  obtain conn r s where "rpc_send (ne_send e) conn p req n (snd (net i)) = Inr (r, s)" "r \<noteq> None \<longrightarrow> p' = p"
    using assms(1) by (auto simp: net_rpc_def l_do_cuda_rpc_def bindr_eq_Inr_iff split: option.splits)
  then show ?thesis using rpc_send_async assms(2) by blast
qed

text \<open>C39. The reports never reach the global scheduler. Whatever the backends and the global scheduler do,
  and whatever a backend has put into the packet, the end of an application is the same with
  \<open>L2_FEEDBACK_ENABLED\<close> as without: \<open>cudaThreadExit\<close> is not answered, so the client never sees a report
  that it could pass on.\<close>

theorem feedback_never_forwarded:
  "rcudaThreadExit_fb (env\<lparr>en_rpc := net_rpc e\<rparr>) idx c = rcudaThreadExit (env\<lparr>en_rpc := net_rpc e\<rparr>) idx c"
proof (cases "en_alloc env")
  case False
  then show ?thesis
    by (simp add: rcudaThreadExit_fb_def rcudaThreadExit_def remote_call_def l_remoteInitMetThrReq_def
        callocCudaPacket_def returning_err_def)
next
  case True
  let ?env = "env\<lparr>en_rpc := net_rpc e\<rparr>"
  obtain p c' where p: "l_remoteInitMetThrReq ?env (method_num CUDA_THREAD_EXIT) c = (Some p, c')"
    "pk_method_id p = method_num CUDA_THREAD_EXIT" "pk_is_feedback_packet p = 0"
    using True by (simp add: l_remoteInitMetThrReq_def callocCudaPacket_def zero_packet_def set_err_def)
  show ?thesis
  proof (cases "net_rpc e idx p None 0 None 0 (ci_net c')")
    case (Inl f)
    then show ?thesis
      by (simp add: rcudaThreadExit_fb_def rcudaThreadExit_def remote_call_def p(1) returning_err_def no_rsp_def
          nvbackCudaThreadExit_rpc_def async_rpc_def)
  next
    case (Inr x)
    obtain p' rsp net where x: "x = (p', rsp, net)" by (cases x)
    then have "p' = p" using net_rpc_async [of e idx p None 0 None 0 "ci_net c'" p' rsp net] Inr p(2) thread_exit_unanswered
      by simp
    then show ?thesis using Inr x p(3)
      by (simp add: rcudaThreadExit_fb_def rcudaThreadExit_def remote_call_def p(1) returning_err_def no_rsp_def
          nvbackCudaThreadExit_rpc_def async_rpc_def)
  qed
qed

section \<open>A report would end the scheduler\<close>

text \<open>
  The number of devices is taken from the packet, where a report has 0: the choice that follows
  divides by it.
\<close>

lemma report_ends_scheduler:
  assumes "l_remoteInitMetThrReq env (method_num CUDA_GET_DEVICE) c = (Some f, c')"
    and "record_feedback (feedback_packet p f) b = Inr b'"
  shows "nvbackCudaGetDevice_srv_fb senv (feedback_packet p f) sc (st, b) = Inl DivZero"
proof -
  have "argn (pk_arg0 f) = 0"
    using assms(1) by (auto simp: l_remoteInitMetThrReq_def callocCudaPacket_def zero_packet_def set_err_def argn_def
        split: if_splits)
  then show ?thesis using assms(2)
    by (simp add: nvbackCudaGetDevice_srv_fb_def feedback_packet_def nvbackCudaGetDevice_srv_def set_err_def Let_def
        get_next_device_RR_def)
qed

text \<open>A report of the second device of the first node by an application of type 1 that ran 2 s.\<close>

definition demo_report :: cuda_packet where
  "demo_report = zero_packet\<lparr>pk_devid := 1, pk_app_type := 1, pk_usr_time := 1065353216,
     pk_total_ex_time := 1073741824, pk_kernel_time := \<lparr>tvi_sec = 1, tvi_usec = 0\<rparr>\<rparr>"

definition demo_reports :: fb_reports where
  "demo_reports = fb_bal.extend fb_bal0 \<lparr>fr_usr = replicate 2 (replicate 4 0), fr_sys = replicate 2 (replicate 4 0),
     fr_launches = replicate 2 (replicate 4 0), fr_kernel = replicate 2 (replicate 4 0), fr_async = [1, 0, 0, 0]\<rparr>"

lemma demo_report_recorded:
  "\<exists>b. record_feedback demo_report demo_reports = Inr b \<and> fb_ex b = [[0, 0, 0, 0], [0, 2, 0, 0]]
     \<and> fb_util b = [[1, 0, 0, 0], [1, 1, 0, 0]]"
proof -
  have "map_sum id (\<lambda>b. (fb_ex b, fb_util b)) (record_feedback demo_report demo_reports)
    = Inr ([[0, 0, 0, 0], [0, 2, 0, 0]], [[1, 0, 0, 0], [1, 1, 0, 0]])" by code_simp
  then show ?thesis by (cases "record_feedback demo_report demo_reports") auto
qed

section \<open>The choices without reports\<close>

text \<open>Without reports the choice by execution times is the choice by the number of threads.\<close>

lemma ex_policy_without_reports:
  assumes "fb_ex b = fb_ex fb_bal0"
  shows "get_next_weighted_device_execution_time_feedback app b =
    bindr (get_next_device (dev_bal.truncate b)) (\<lambda>(d, b'). Inr (d, b\<lparr>fb_type := L2_FEEDBACK_TYPE_EX_TIME,
      db_threads := db_threads b'\<rparr>))"
proof -
  have "ex_data (b\<lparr>fb_type := L2_FEEDBACK_TYPE_EX_TIME\<rparr>) 4 0 = Inr False"
    using assms by (simp add: fb_bal0_def numeral_eq_Suc cell_def nthri_def nthr_def)
  then show ?thesis
    by (simp add: get_next_weighted_device_execution_time_feedback_def get_next_device_def take_device_def
        add_threads_def Let_def dev_bal.defs bindr_def split: sum.splits)
qed

end
