(* ===== verification/Direct_Srv.thy ===== *)
theory Direct_Srv
  imports Remote_Properties
begin

text \<open>
  The handlers of the backend before the device got its virtual memory, in
  remote/remote_api_wrapper_3dec.c: allocations, copies and launches go to the CUDA runtime
  directly. remote/remote_api_wrapper.c keeps them as its branches for a build without
  \<open>PAGER\<close>. They are the reference the handlers with virtual memory are compared with: as long
  as data is copied between host and device both give the same answers, whatever is paged out.
\<close>

section \<open>The handlers\<close>

text \<open>
  What they call of the CUDA runtime. \<open>de_malloc\<close> gets what the pointer holds before the call;
  the copies get the address on the device, the block of the host, the number of bytes and the
  kind of the copy; \<open>de_srv\<close> are the other functions the backend uses.
\<close>

record 'g direct_env =
  de_srv :: "'g srv_env"
  de_malloc :: "u64 \<Rightarrow> u64 \<Rightarrow> 'g \<Rightarrow> u64 \<times> u32 \<times> 'g"
  de_free :: "u64 \<Rightarrow> 'g \<Rightarrow> u32 \<times> 'g"
  de_h2d :: "u64 \<Rightarrow> byte list option \<Rightarrow> u64 \<Rightarrow> int \<Rightarrow> 'g \<Rightarrow> u32 \<times> 'g"
  de_d2h :: "byte list \<Rightarrow> u64 \<Rightarrow> u64 \<Rightarrow> int \<Rightarrow> 'g \<Rightarrow> byte list \<times> u32"
  de_d2d :: "u64 \<Rightarrow> u64 \<Rightarrow> u64 \<Rightarrow> int \<Rightarrow> 'g \<Rightarrow> u32 \<times> 'g"
  de_setup :: "byte list option \<Rightarrow> u64 \<Rightarrow> u64 \<Rightarrow> 'g \<Rightarrow> u32 \<times> 'g"
  de_config :: "u32 \<times> u32 \<times> u32 \<Rightarrow> u32 \<times> u32 \<times> u32 \<Rightarrow> u64 \<Rightarrow> u64 \<Rightarrow> 'g \<Rightarrow> u32 \<times> 'g"
  de_launch :: "charp \<Rightarrow> 'g \<Rightarrow> u32 \<times> 'g"

text \<open>The end of all of them: the error code of the runtime goes into the packet.\<close>

definition reply_rt :: "u32 \<times> 'g \<Rightarrow> cuda_packet \<Rightarrow> srv_conn \<Rightarrow> 'g backend_st \<Rightarrow> 'g handled" where
  "reply_rt r p sc st = (case r of (err, g) \<Rightarrow> reply (set_err err p) sc (st\<lparr>bs_gpu := g\<rparr>))"

definition nvbackCudaMalloc_direct :: "'g direct_env \<Rightarrow> cuda_packet \<Rightarrow> srv_conn
    \<Rightarrow> 'g backend_st \<Rightarrow> 'g handled" where
  "nvbackCudaMalloc_direct env p sc st = (case de_malloc env 0 (arg_lo (pk_arg1 p)) (bs_gpu st) of
     (devptr, r) \<Rightarrow> reply_rt r (p\<lparr>pk_arg0 := set_argp devptr (pk_arg0 p)\<rparr>) sc st)"

definition nvbackCudaFree_direct :: "'g direct_env \<Rightarrow> cuda_packet \<Rightarrow> srv_conn
    \<Rightarrow> 'g backend_st \<Rightarrow> 'g handled" where
  "nvbackCudaFree_direct env p sc st = reply_rt (de_free env (arg_lo (pk_arg0 p)) (bs_gpu st)) p sc st"

definition nvbackCudaSetupArgument_direct :: "'g direct_env \<Rightarrow> cuda_packet \<Rightarrow> srv_conn
    \<Rightarrow> 'g backend_st \<Rightarrow> 'g handled" where
  "nvbackCudaSetupArgument_direct env p sc st = reply_rt
     (de_setup env (sc_pReqBuffer sc) (arg_lo (pk_arg1 p)) (arg_lo (pk_arg2 p)) (bs_gpu st)) p sc st"

definition nvbackCudaConfigureCall_direct :: "'g direct_env \<Rightarrow> cuda_packet \<Rightarrow> srv_conn
    \<Rightarrow> 'g backend_st \<Rightarrow> 'g handled" where
  "nvbackCudaConfigureCall_direct env p sc st = reply_rt
     (de_config env (arg_dim (pk_arg0 p)) (arg_dim (pk_arg1 p)) (arg_lo (pk_arg2 p))
       (arg_lo (pk_arg3 p)) (bs_gpu st)) p sc st"

definition nvbackCudaLaunch_direct :: "'g direct_env \<Rightarrow> cuda_packet \<Rightarrow> srv_conn
    \<Rightarrow> 'g backend_st \<Rightarrow> 'g handled" where
  "nvbackCudaLaunch_direct env p sc st =
     (let p = set_err cudaErrorLaunchFailure p in
      case bs_fatc st of None \<Rightarrow> Inl NullDeref
      | Some cs \<Rightarrow> bindr (find_fn cs (arg_lo (pk_arg0 p))) (\<lambda>r.
          (case r of None \<Rightarrow> reply p sc st
           | Some a \<Rightarrow> reply_rt (de_launch env (fa_hostFun a) (bs_gpu st)) p sc st)))"

definition nvbackCudaMemcpy_direct :: "'g direct_env \<Rightarrow> cuda_packet \<Rightarrow> srv_conn
    \<Rightarrow> 'g backend_st \<Rightarrow> 'g handled" where
  "nvbackCudaMemcpy_direct env p sc st =
     (let count = arg_lo (pk_arg2 p); kind = argn (pk_arg3 p) in
      if pk_method_id p = method_num CUDA_MEMCPY_H2H then Inr (ERROR, p, sc, st)
      else if pk_method_id p = method_num CUDA_MEMCPY_H2D then
        if sc_request_data_size sc \<noteq> argi (pk_arg2 p) then Inl AssertFail
        else reply_rt
          (de_h2d env (arg_lo (pk_arg0 p)) (sc_pReqBuffer sc) count kind (bs_gpu st))
          (p\<lparr>pk_arg1 := set_argp (if sc_pReqBuffer sc = None then 0 else se_req_addr (de_srv env))
             (pk_arg1 p)\<rparr>) sc st
      else if pk_method_id p = method_num CUDA_MEMCPY_D2H then
        if sc_pRspBuffer sc \<noteq> None then Inl AssertFail
        else let sc = rsp_malloc (de_srv env) (argn (pk_arg2 p)) sc in
          (case sc_pRspBuffer sc of None \<Rightarrow> Inr (ERROR, p, sc, st)
           | Some b \<Rightarrow> (case de_d2h env b (arg_lo (pk_arg1 p)) count kind (bs_gpu st) of (b', err) \<Rightarrow>
               reply (set_err err (p\<lparr>pk_arg0 := set_argp (se_rsp_addr (de_srv env)) (pk_arg0 p)\<rparr>))
                 (sc\<lparr>sc_pRspBuffer := Some b'\<rparr>) st))
      else reply_rt
        (de_d2d env (arg_lo (pk_arg0 p)) (arg_lo (pk_arg1 p)) count kind (bs_gpu st)) p sc st)"

text \<open>
  What \<open>cudaMemcpy\<close> promises for a copy within a block of the device and a block of the host,
  in the terms of the runtime \<open>rt\<close>: kind 1 is to the device, kind 2 from it.
\<close>

definition memcpy_ok :: "'g cuda_rt \<Rightarrow> 'g direct_env \<Rightarrow> bool" where
  "memcpy_ok rt env \<longleftrightarrow> (\<forall>p b n g. cu_live rt p g \<longrightarrow> unat n \<le> length b \<longrightarrow>
     unat n \<le> length (cu_content rt p g) \<longrightarrow>
     de_h2d env p (Some b) n 1 g = (0, cu_h2d rt p (take (unat n) b) g)
     \<and> de_d2h env b p n 2 g = (take (unat n) (cu_content rt p g) @ drop (unat n) b, 0))"

section \<open>Sequences of copies\<close>

text \<open>
  A client copies bytes to object \<open>i\<close>, copies bytes of it back, or the pager has objects paged
  out, which a backend without virtual memory never notices. The answer is the status, the
  error code, and the size and the data of the response.
\<close>

datatype copy_op = Put nat "byte list" | Get nat nat | PagesOut "int list"

type_synonym copy_answer = "int \<times> u32 \<times> int \<times> byte list option"

definition request_packet :: "method_id \<Rightarrow> u64 \<Rightarrow> u64 \<Rightarrow> nat \<Rightarrow> u64 \<Rightarrow> cuda_packet" where
  "request_packet f dst src n kind = zero_packet\<lparr>pk_method_id := method_num f,
     pk_arg0 := \<lparr>arg_lo = dst, arg_hi = 0\<rparr>, pk_arg1 := \<lparr>arg_lo = src, arg_hi = 0\<rparr>,
     pk_arg2 := \<lparr>arg_lo = word_of_nat n, arg_hi = 0\<rparr>, pk_arg3 := \<lparr>arg_lo = kind, arg_hi = 0\<rparr>\<rparr>"

definition copy_reply :: "'g handled \<Rightarrow> (copy_answer option \<times> 'g backend_st) cres" where
  "copy_reply r = bindr r (\<lambda>(r, p, sc, st).
     Inr (Some (r, pkt_err p, sc_response_data_size sc, sc_pRspBuffer sc), st))"

text \<open>The two backends, with the device pointer \<open>nm i\<close> for object \<open>i\<close>.\<close>

primrec paged_copy :: "'g srv_env \<Rightarrow> (nat \<Rightarrow> u64) \<Rightarrow> copy_op \<Rightarrow> 'g backend_st
    \<Rightarrow> (copy_answer option \<times> 'g backend_st) cres" where
  "paged_copy env nm (Put i d) st = copy_reply (nvbackCudaMemcpy_srv env
     (request_packet CUDA_MEMCPY_H2D (nm i) 0 (length d) 1) (conn_req d) st)"
| "paged_copy env nm (Get i n) st = copy_reply (nvbackCudaMemcpy_srv env
     (request_packet CUDA_MEMCPY_D2H 0 (nm i) n 2) (conn_req []) st)"
| "paged_copy env nm (PagesOut js) st = bindr
     (gvirt_page_out (se_rt env) js (int (length js)) (bs_table st) (bs_gpu st)) (\<lambda>(t, g).
     Inr (None, st\<lparr>bs_table := t, bs_gpu := g\<rparr>))"

primrec direct_copy :: "'g direct_env \<Rightarrow> (nat \<Rightarrow> u64) \<Rightarrow> copy_op \<Rightarrow> 'g backend_st
    \<Rightarrow> (copy_answer option \<times> 'g backend_st) cres" where
  "direct_copy env nm (Put i d) st = copy_reply (nvbackCudaMemcpy_direct env
     (request_packet CUDA_MEMCPY_H2D (nm i) 0 (length d) 1) (conn_req d) st)"
| "direct_copy env nm (Get i n) st = copy_reply (nvbackCudaMemcpy_direct env
     (request_packet CUDA_MEMCPY_D2H 0 (nm i) n 2) (conn_req []) st)"
| "direct_copy env nm (PagesOut js) st = Inr (None, st)"

primrec copies :: "(copy_op \<Rightarrow> 's \<Rightarrow> (copy_answer option \<times> 's) cres) \<Rightarrow> copy_op list \<Rightarrow> 's
    \<Rightarrow> (copy_answer option list \<times> 's) cres" where
  "copies serve [] s = Inr ([], s)"
| "copies serve (op # ops) s = bindr (serve op s) (\<lambda>(a, s).
     bindr (copies serve ops s) (\<lambda>(as, s). Inr (a # as, s)))"

section \<open>The memory as the client sees it\<close>

text \<open>\<open>w i\<close> are the bytes at the start of object \<open>i\<close> that have been written.\<close>

primrec written :: "(nat \<Rightarrow> byte list) \<Rightarrow> copy_op \<Rightarrow> nat \<Rightarrow> byte list" where
  "written w (Put i d) = w(i := d @ drop (length d) (w i))"
| "written w (Get i n) = w"
| "written w (PagesOut js) = w"

primrec ideal_answer :: "(nat \<Rightarrow> byte list) \<Rightarrow> copy_op \<Rightarrow> copy_answer option" where
  "ideal_answer w (Put i d) = Some (OK, cudaSuccess, 0, None)"
| "ideal_answer w (Get i n) = Some (OK, cudaSuccess, int n, Some (take n (w i)))"
| "ideal_answer w (PagesOut js) = None"

primrec ideal_answers :: "(nat \<Rightarrow> byte list) \<Rightarrow> copy_op list \<Rightarrow> copy_answer option list" where
  "ideal_answers w [] = []"
| "ideal_answers w (op # ops) = ideal_answer w op # ideal_answers (written w op) ops"

text \<open>The copies that make sense: to an object that has room, and of bytes that were written.\<close>

primrec fits :: "(nat \<Rightarrow> nat option) \<Rightarrow> nat \<Rightarrow> (nat \<Rightarrow> byte list) \<Rightarrow> copy_op \<Rightarrow> bool" where
  "fits room pages w (Put i d) \<longleftrightarrow> d \<noteq> [] \<and> length d < 2 ^ 31
     \<and> (case room i of None \<Rightarrow> False | Some n \<Rightarrow> length d \<le> n)"
| "fits room pages w (Get i n) \<longleftrightarrow> room i \<noteq> None \<and> 0 < n \<and> n \<le> length (w i) \<and> n < 2 ^ 31"
| "fits room pages w (PagesOut js) \<longleftrightarrow> (\<forall>x \<in> set js. 0 \<le> x \<and> x < int pages)"

primrec all_fit :: "(nat \<Rightarrow> nat option) \<Rightarrow> nat \<Rightarrow> (nat \<Rightarrow> byte list) \<Rightarrow> copy_op list \<Rightarrow> bool" where
  "all_fit room pages w [] \<longleftrightarrow> True"
| "all_fit room pages w (op # ops) \<longleftrightarrow> fits room pages w op \<and> all_fit room pages (written w op) ops"

text \<open>A server that keeps this memory, one law for each operation.\<close>

locale device_memory =
  fixes serve :: "copy_op \<Rightarrow> 's \<Rightarrow> (copy_answer option \<times> 's) cres"
    and mem :: "(nat \<Rightarrow> byte list) \<Rightarrow> 's \<Rightarrow> bool"
    and room :: "nat \<Rightarrow> nat option" and pages :: nat
  assumes put: "mem w s \<Longrightarrow> fits room pages w (Put i d) \<Longrightarrow>
      \<exists>s'. serve (Put i d) s = Inr (ideal_answer w (Put i d), s') \<and> mem (written w (Put i d)) s'"
    and get: "mem w s \<Longrightarrow> fits room pages w (Get i n) \<Longrightarrow>
      \<exists>s'. serve (Get i n) s = Inr (ideal_answer w (Get i n), s') \<and> mem w s'"
    and page: "mem w s \<Longrightarrow> fits room pages w (PagesOut js) \<Longrightarrow>
      \<exists>s'. serve (PagesOut js) s = Inr (None, s') \<and> mem w s'"
begin

lemma step:
  assumes "mem w s" and "fits room pages w op"
  shows "\<exists>s'. serve op s = Inr (ideal_answer w op, s') \<and> mem (written w op) s'"
proof (cases op)
  case (Put i d)
  then show ?thesis using put [OF assms(1), of i d] assms(2) by metis
next
  case (Get i n)
  then show ?thesis using get [OF assms(1), of i n] assms(2) by (metis written.simps(2))
next
  case (PagesOut js)
  then show ?thesis using page [OF assms(1), of js] assms(2) by (metis written.simps(3) ideal_answer.simps(3))
qed

lemma answers_ideally:
  "mem w s \<Longrightarrow> all_fit room pages w ops \<Longrightarrow> \<exists>s'. copies serve ops s = Inr (ideal_answers w ops, s')"
proof (induction ops arbitrary: w s)
  case (Cons op ops)
  obtain s1 where 1: "serve op s = Inr (ideal_answer w op, s1)" "mem (written w op) s1"
    using step [OF Cons.prems(1)] Cons.prems(2) by auto
  from Cons.IH [OF 1(2)] Cons.prems(2) 1(1) show ?case by auto
qed simp

end

section \<open>The backend with virtual memory\<close>

lemma request_packet_sel [simp]:
  "pk_method_id (request_packet f dst src n kind) = method_num f"
  "arg_lo (pk_arg0 (request_packet f dst src n kind)) = dst"
  "arg_lo (pk_arg1 (request_packet f dst src n kind)) = src"
  "arg_lo (pk_arg2 (request_packet f dst src n kind)) = word_of_nat n"
  "arg_lo (pk_arg3 (request_packet f dst src n kind)) = kind"
  by (simp_all add: request_packet_def)

lemma copy_reply_Inr [simp]:
  "copy_reply (Inr (r, p, sc, st)) = Inr (Some (r, pkt_err p, sc_response_data_size sc, sc_pRspBuffer sc), st)"
  by (simp add: copy_reply_def)

lemma prefix_overwritten:
  assumes "take (length w) c = w"
  shows "take (length (d @ drop (length d) w)) (d @ drop (length d) c) = d @ drop (length d) w"
proof -
  have "c = w @ drop (length w) c" using assms by (metis append_take_drop_id)
  then obtain c' where c: "c = w @ c'" by blast
  show ?thesis unfolding c by simp
qed

text \<open>Object \<open>i\<close> has room for \<open>n\<close> bytes and begins with those written.\<close>

definition paged_object :: "'g srv_env \<Rightarrow> 'g backend_st \<Rightarrow> nat \<Rightarrow> nat \<Rightarrow> byte list \<Rightarrow> bool" where
  "paged_object env st i n d \<longleftrightarrow> n \<le> mm_size (bs_table st ! i) \<and> length d \<le> n
     \<and> (d \<noteq> [] \<longrightarrow> obj_holds (se_rt env) st i d)"

definition paged_mem :: "'g srv_env \<Rightarrow> (nat \<Rightarrow> u64) \<Rightarrow> (nat \<Rightarrow> nat option) \<Rightarrow> nat
    \<Rightarrow> (nat \<Rightarrow> byte list) \<Rightarrow> 'g backend_st \<Rightarrow> bool" where
  "paged_mem env nm room pages w st \<longleftrightarrow> cuda_ok (se_rt env) \<and> hm_ok (se_malloc env)
     \<and> vm_inv (se_rt env) (bs_gpu st) (bs_table st) \<and> length (bs_table st) = pages
     \<and> (\<forall>i n. room i = Some n \<longrightarrow> local_object st (nm i) i \<and> paged_object env st i n (w i))"

lemma paged_memD:
  assumes "paged_mem env nm room pages w st"
  shows "cuda_ok (se_rt env)" "hm_ok (se_malloc env)" "vm_inv (se_rt env) (bs_gpu st) (bs_table st)"
    "length (bs_table st) = pages"
    "\<And>i n. room i = Some n \<Longrightarrow> local_object st (nm i) i"
    "\<And>i n. room i = Some n \<Longrightarrow> paged_object env st i n (w i)"
  using assms by (auto simp: paged_mem_def)

lemma obj_holds_same:
  assumes "obj_holds rt st i d"
    and "same_object rt (bs_gpu st) (bs_table st ! i) g' (t' ! i)"
  shows "obj_holds rt (st\<lparr>bs_table := t', bs_gpu := g'\<rparr>) i d"
  using assms by (simp add: obj_holds_def same_object_def)

lemma paged_object_same:
  assumes "paged_object env st i n d"
    and "same_object (se_rt env) (bs_gpu st) (bs_table st ! i) g' (t' ! i)"
  shows "paged_object env (st\<lparr>bs_table := t', bs_gpu := g'\<rparr>) i n d"
  using assms obj_holds_same [of "se_rt env" st i d g' t']
  by (auto simp: paged_object_def same_object_def)

lemma local_object_addrs:
  assumes "local_object st dv i" and "map mm_addr t' = map mm_addr (bs_table st)"
    and "mm_valid (t' ! i) \<noteq> 0"
  shows "local_object (st\<lparr>bs_table := t', bs_gpu := g'\<rparr>) dv i"
proof -
  have f: "find_local (st\<lparr>bs_table := t', bs_gpu := g'\<rparr>) dv = find_local st dv"
    by (simp add: find_local_def mem_map_find_entry_def find_entry_loop_cong [OF assms(2)])
  have l: "length t' = length (bs_table st)" using assms(2) by (metis length_map)
  show ?thesis using assms(1,3) l unfolding local_object_def f by fastforce
qed

lemma local_object_valid: "local_object st dv i \<Longrightarrow> i < length (bs_table st) \<and> mm_valid (bs_table st ! i) \<noteq> 0"
  by (auto simp: local_object_def)

text \<open>An update of one object, which is then as \<open>w'\<close> says.\<close>

lemma paged_mem_update:
  assumes mem: "paged_mem env nm room pages w st" and room: "room i = Some n"
    and inv: "vm_inv (se_rt env) g' t'"
    and fr: "frame (se_rt env) i (bs_table st) (bs_gpu st) t' g'"
    and obj: "mm_addr (t' ! i) = mm_addr (bs_table st ! i)" "mm_valid (t' ! i) \<noteq> 0"
      "paged_object env (st\<lparr>bs_table := t', bs_gpu := g'\<rparr>) i n d"
  shows "paged_mem env nm room pages (w(i := d)) (st\<lparr>bs_table := t', bs_gpu := g'\<rparr>)"
proof -
  note m = paged_memD [OF mem]
  have i: "i < length (bs_table st)" using local_object_valid [OF m(5) [OF room]] by blast
  have addrs: "map mm_addr t' = map mm_addr (bs_table st)" by (rule frame_addrs [OF fr i obj(1)])
  have "local_object (st\<lparr>bs_table := t', bs_gpu := g'\<rparr>) (nm j) j
      \<and> paged_object env (st\<lparr>bs_table := t', bs_gpu := g'\<rparr>) j k ((w(i := d)) j)"
    if j: "room j = Some k" for j k
  proof (cases "j = i")
    case True
    then show ?thesis using local_object_addrs [OF m(5) [OF j] addrs] obj(2,3) j room by simp
  next
    case False
    note v = local_object_valid [OF m(5) [OF j]]
    have s: "same_object (se_rt env) (bs_gpu st) (bs_table st ! j) g' (t' ! j)"
      using frame_same_object [OF fr] v False by blast
    have "mm_valid (t' ! j) \<noteq> 0" using s v by (simp add: same_object_def)
    then show ?thesis
      using local_object_addrs [OF m(5) [OF j] addrs] paged_object_same [OF m(6) [OF j] s] False by simp
  qed
  moreover have "length t' = pages" using fr m(4) by (simp add: frame_def)
  ultimately show ?thesis using m(1,2) inv by (simp add: paged_mem_def)
qed

lemma paged_put:
  assumes mem: "paged_mem env nm room pages w st" and fit: "fits room pages w (Put i d)"
  shows "\<exists>st'. paged_copy env nm (Put i d) st = Inr (ideal_answer w (Put i d), st')
    \<and> paged_mem env nm room pages (written w (Put i d)) st'"
proof -
  note m = paged_memD [OF mem]
  obtain n where n: "room i = Some n" "length d \<le> n" and d: "d \<noteq> []" "length d < 2 ^ 31"
    using fit by (auto split: option.splits)
  note o' = m(6) [OF n(1), unfolded paged_object_def]
  obtain p' t' g' where h: "nvbackCudaMemcpy_srv env
        (request_packet CUDA_MEMCPY_H2D (nm i) 0 (length d) 1) (conn_req d) st
      = Inr (OK, p', conn_req d, st\<lparr>bs_table := t', bs_gpu := g'\<rparr>)" "pkt_err p' = cudaSuccess"
    and inv: "vm_inv (se_rt env) g' t'" and fr: "frame (se_rt env) i (bs_table st) (bs_gpu st) t' g'"
    and v: "vdata (se_rt env) g' (t' ! i) = d @ drop (length d) (vdata (se_rt env) (bs_gpu st) (bs_table st ! i))"
    and s: "mm_status (t' ! i) \<notin> {D_NOALLOC, D_INIT}" "mm_valid (t' ! i) \<noteq> 0"
      "mm_size (t' ! i) = mm_size (bs_table st ! i)" "mm_addr (t' ! i) = mm_addr (bs_table st ! i)"
    using srv_h2d_writes [OF m(1,3) m(5) [OF n(1)] _ d, of "request_packet CUDA_MEMCPY_H2D (nm i) 0 (length d) 1"]
      n(2) o' by auto
  have "take (length (w i)) (vdata (se_rt env) (bs_gpu st) (bs_table st ! i)) = w i"
    using o' by (cases "w i = []") (auto simp: obj_holds_def)
  from prefix_overwritten [OF this, of d, folded v]
  have "paged_object env (st\<lparr>bs_table := t', bs_gpu := g'\<rparr>) i n (d @ drop (length d) (w i))"
    using s n(2) o' by (auto simp: paged_object_def obj_holds_def)
  from paged_mem_update [OF mem n(1) inv fr s(4,2) this] h show ?thesis by auto
qed

lemma paged_get:
  assumes mem: "paged_mem env nm room pages w st" and fit: "fits room pages w (Get i k)"
  shows "\<exists>st'. paged_copy env nm (Get i k) st = Inr (ideal_answer w (Get i k), st')
    \<and> paged_mem env nm room pages w st'"
proof -
  note m = paged_memD [OF mem]
  obtain n where n: "room i = Some n" and k: "0 < k" "k \<le> length (w i)" "k < 2 ^ 31"
    using fit by auto
  note o' = m(6) [OF n]
  have "w i \<noteq> []" using k(1,2) by auto
  then have "obj_holds (se_rt env) st i (w i)" using o' by (simp add: paged_object_def)
  then have holds: "obj_holds (se_rt env) st i (take k (w i))"
    using k(2) unfolding obj_holds_def by (auto simp: min_absorb1 min_absorb2) (metis min.absorb1 take_take)
  obtain b where b: "se_malloc env k = Some b" "length b = k" using m(2) by (auto simp: hm_ok_def)
  let ?q = "request_packet CUDA_MEMCPY_D2H 0 (nm i) k 2"
  obtain q' t' where h: "nvbackCudaMemcpy_srv env ?q (conn_req []) st = Inr (OK, q',
      (conn_req [])\<lparr>sc_response_data_size := int k, sc_pRspBuffer := Some (take k (take k (w i)))\<rparr>,
      st\<lparr>bs_table := t'\<rparr>)" "pkt_err q' = cudaSuccess"
    and inv: "vm_inv (se_rt env) (bs_gpu st) t'"
    and fr: "frame (se_rt env) i (bs_table st) (bs_gpu st) t' (bs_gpu st)"
    and s: "same_object (se_rt env) (bs_gpu st) (bs_table st ! i) (bs_gpu st) (t' ! i)"
    using srv_d2h_reads [OF m(3) m(5) [OF n] holds _ _ b, of ?q] k by auto
  have v: "mm_addr (t' ! i) = mm_addr (bs_table st ! i)" "mm_valid (t' ! i) \<noteq> 0"
    using s local_object_valid [OF m(5) [OF n]] by (simp_all add: same_object_def)
  have "paged_mem env nm room pages (w(i := w i)) (st\<lparr>bs_table := t', bs_gpu := bs_gpu st\<rparr>)"
    by (rule paged_mem_update [OF mem n inv fr v paged_object_same [OF o' s]])
  then show ?thesis using h by (simp add: min_absorb1)
qed

lemma paged_page:
  assumes mem: "paged_mem env nm room pages w st" and fit: "fits room pages w (PagesOut js)"
  shows "\<exists>st'. paged_copy env nm (PagesOut js) st = Inr (None, st') \<and> paged_mem env nm room pages w st'"
proof -
  note m = paged_memD [OF mem]
  obtain t' g' where r: "page_out_loop (se_rt env) js (bs_table st) (bs_gpu st) = Inr (t', g')"
    "vm_inv (se_rt env) g' t'" and l: "length t' = length (bs_table st)"
    and s: "\<And>j. j < length (bs_table st) \<Longrightarrow> same_object (se_rt env) (bs_gpu st) (bs_table st ! j) g' (t' ! j)"
    using page_out_spec [OF m(1,3), of js] fit m(4) by auto
  have addrs: "map mm_addr t' = map mm_addr (bs_table st)"
    using l s by (intro nth_equalityI) (auto simp: same_object_def)
  have "local_object (st\<lparr>bs_table := t', bs_gpu := g'\<rparr>) (nm j) j
      \<and> paged_object env (st\<lparr>bs_table := t', bs_gpu := g'\<rparr>) j k (w j)" if j: "room j = Some k" for j k
  proof -
    note v = local_object_valid [OF m(5) [OF j]]
    have "mm_valid (t' ! j) \<noteq> 0" using s [of j] v by (simp add: same_object_def)
    then show ?thesis
      using local_object_addrs [OF m(5) [OF j] addrs] paged_object_same [OF m(6) [OF j] s] v by simp
  qed
  then have "paged_mem env nm room pages w (st\<lparr>bs_table := t', bs_gpu := g'\<rparr>)"
    using m(1,2,4) r(2) l by (simp add: paged_mem_def)
  then show ?thesis using r(1) by (auto simp: gvirt_page_out_def)
qed

interpretation paged: device_memory "paged_copy env nm" "paged_mem env nm room pages" room pages
  for env nm room pages
  using paged_put paged_get paged_page by unfold_locales

section \<open>The backend without it\<close>

definition direct_object :: "'g cuda_rt \<Rightarrow> u64 \<Rightarrow> nat \<Rightarrow> byte list \<Rightarrow> 'g \<Rightarrow> bool" where
  "direct_object rt dv n d g \<longleftrightarrow> cu_live rt dv g \<and> n \<le> length (cu_content rt dv g)
     \<and> length d \<le> n \<and> take (length d) (cu_content rt dv g) = d"

definition direct_mem :: "'g cuda_rt \<Rightarrow> 'g direct_env \<Rightarrow> (nat \<Rightarrow> u64) \<Rightarrow> (nat \<Rightarrow> nat option)
    \<Rightarrow> (nat \<Rightarrow> byte list) \<Rightarrow> 'g backend_st \<Rightarrow> bool" where
  "direct_mem rt env nm room w st \<longleftrightarrow> cuda_ok rt \<and> memcpy_ok rt env \<and> hm_ok (se_malloc (de_srv env))
     \<and> inj_on nm (dom room)
     \<and> (\<forall>i n. room i = Some n \<longrightarrow> direct_object rt (nm i) n (w i) (bs_gpu st))"

lemma direct_memD:
  assumes "direct_mem rt env nm room w st"
  shows "cuda_ok rt" "memcpy_ok rt env" "hm_ok (se_malloc (de_srv env))"
    "\<And>i j. room i \<noteq> None \<Longrightarrow> room j \<noteq> None \<Longrightarrow> nm i = nm j \<Longrightarrow> i = j"
    "\<And>i n. room i = Some n \<Longrightarrow> direct_object rt (nm i) n (w i) (bs_gpu st)"
  using assms by (auto simp: direct_mem_def inj_on_def dom_def)

lemma unat_count: "n < 2 ^ 31 \<Longrightarrow> unat (word_of_nat n :: u64) = n"
  by (simp add: unat_of_nat)

lemma kind_argn:
  "arg_lo a = 1 \<Longrightarrow> argn a = 1" "arg_lo a = 2 \<Longrightarrow> argn a = 2"
  by (simp_all add: argn_def)

lemma direct_put:
  assumes mem: "direct_mem rt env nm room w st" and fit: "fits room pages w (Put i d)"
  shows "\<exists>st'. direct_copy env nm (Put i d) st = Inr (ideal_answer w (Put i d), st')
    \<and> direct_mem rt env nm room (written w (Put i d)) st'"
proof -
  note m = direct_memD [OF mem]
  obtain n where n: "room i = Some n" "length d \<le> n" and d: "d \<noteq> []" "length d < 2 ^ 31"
    using fit by (auto split: option.splits)
  note o' = m(5) [OF n(1), unfolded direct_object_def]
  let ?g = "cu_h2d rt (nm i) d (bs_gpu st)" and ?p = "request_packet CUDA_MEMCPY_H2D (nm i) 0 (length d) 1"
  have h: "de_h2d env (nm i) (Some d) (word_of_nat (length d)) 1 (bs_gpu st) = (0, ?g)"
    using m(2) o' n(2) unat_count [OF d(2)] by (simp add: memcpy_ok_def)
  have a: "argi (pk_arg2 ?p) = int (length d)" "argn (pk_arg3 ?p) = 1"
    using argn_of_nat(2) [OF _ d(2), of "pk_arg2 ?p"] kind_argn(1) by simp_all
  have r: "direct_copy env nm (Put i d) st = Inr (ideal_answer w (Put i d), st\<lparr>bs_gpu := ?g\<rparr>)"
    using d(1) h a by (simp add: nvbackCudaMemcpy_direct_def method_num_inj reply_rt_def reply_def
        Let_def cudaSuccess_def)
  have len: "length d \<le> length (cu_content rt (nm i) (bs_gpu st))" using o' n(2) by linarith
  note L = cuda_h2d [OF m(1) _ len]
  have "direct_object rt (nm j) k (written w (Put i d) j) ?g" if j: "room j = Some k" for j k
  proof (cases "j = i")
    case True
    then show ?thesis
      using o' n j L prefix_overwritten [of "w i" "cu_content rt (nm i) (bs_gpu st)" d]
      by (auto simp: direct_object_def)
  next
    case False
    then have "nm j \<noteq> nm i" using m(4) [of j i] j n(1) by auto
    then show ?thesis using m(5) [OF j] L o' False by (simp add: direct_object_def)
  qed
  then have "direct_mem rt env nm room (written w (Put i d)) (st\<lparr>bs_gpu := ?g\<rparr>)"
    using mem by (simp add: direct_mem_def)
  then show ?thesis using r by blast
qed

lemma direct_get:
  assumes mem: "direct_mem rt env nm room w st" and fit: "fits room pages w (Get i k)"
  shows "\<exists>st'. direct_copy env nm (Get i k) st = Inr (ideal_answer w (Get i k), st')
    \<and> direct_mem rt env nm room w st'"
proof -
  note m = direct_memD [OF mem]
  obtain n where n: "room i = Some n" and k: "0 < k" "k \<le> length (w i)" "k < 2 ^ 31"
    using fit by auto
  note o' = m(5) [OF n, unfolded direct_object_def]
  let ?q = "request_packet CUDA_MEMCPY_D2H 0 (nm i) k 2" and ?c = "cu_content rt (nm i) (bs_gpu st)"
  obtain b where b: "se_malloc (de_srv env) k = Some b" "length b = k" using m(3) by (auto simp: hm_ok_def)
  have "take k ?c = take k (w i)" using o' k(2) by (metis min.absorb1 take_take)
  then have h: "de_d2h env b (nm i) (word_of_nat k) 2 (bs_gpu st) = (take k (w i), 0)"
    using m(2) o' k b(2) unat_count [OF k(3)] by (simp add: memcpy_ok_def)
  have a: "argn (pk_arg2 ?q) = int k" "argn (pk_arg3 ?q) = 2"
    using argn_of_nat(1) [OF _ k(3), of "pk_arg2 ?q"] kind_argn(2) by simp_all
  have "unat (word_of_int (int k) :: u64) = k" using unat_count [OF k(3)] by simp
  then have "direct_copy env nm (Get i k) st = Inr (ideal_answer w (Get i k), st)"
    using h a b by (simp add: nvbackCudaMemcpy_direct_def method_num_inj reply_def rsp_malloc_def
        Let_def cudaSuccess_def)
  then show ?thesis using mem by blast
qed

lemma direct_page:
  "direct_mem rt env nm room w st \<Longrightarrow>
   \<exists>st'. direct_copy env nm (PagesOut js) st = Inr (None, st') \<and> direct_mem rt env nm room w st'"
  by simp

interpretation direct: device_memory "direct_copy env nm" "direct_mem rt env nm room" room pages
  for rt env nm room pages
  using direct_put direct_get direct_page by unfold_locales

section \<open>Both answer alike\<close>

text \<open>C4. The virtual memory is transparent for copies between host and device: a client that
  copies data to its objects and back gets from the backend with virtual memory the answers the
  backend without it gives, status, error code and data, whatever objects the pager has paged out
  between the requests. Both are the answers of a memory that keeps what was written last. The
  client knows an object by its handle in the one and by its device pointer in the other, it
  writes within the room of an object and reads what it has written.\<close>

theorem paging_is_transparent:
  assumes "paged_mem env nm room pages w st" and "direct_mem rt denv nm' room w sd"
    and "all_fit room pages w ops"
  shows "\<exists>answers st' sd'. copies (paged_copy env nm) ops st = Inr (answers, st')
    \<and> copies (direct_copy denv nm') ops sd = Inr (answers, sd') \<and> answers = ideal_answers w ops"
  using paged.answers_ideally [OF assms(1,3)] direct.answers_ideally [OF assms(2,3)] by blast

text \<open>A runtime whose \<open>cudaMemcpy\<close> copies, and the object of \<open>demo_st\<close> in both backends.\<close>

definition demo_direct :: "byte list option direct_env" where
  "demo_direct = \<lparr>de_srv = demo_srv,
     de_malloc = (\<lambda>slot n g. case cu_malloc demo_rt (unat n) g of
       (None, g') \<Rightarrow> (slot, 2, g') | (Some p, g') \<Rightarrow> (p, 0, g')),
     de_free = (\<lambda>p g. (0, cu_free demo_rt p g)),
     de_h2d = (\<lambda>p b n k g. if k = 1
       then (0, cu_h2d demo_rt p (take (unat n) (case b of None \<Rightarrow> [] | Some b \<Rightarrow> b)) g) else (21, g)),
     de_d2h = (\<lambda>b p n k g. if k = 2
       then (take (unat n) (cu_content demo_rt p g) @ drop (unat n) b, 0) else (b, 21)),
     de_d2d = (\<lambda>p q n k g. (if k = 3 then 0 else 21, g)),
     de_setup = (\<lambda>b n off g. (0, g)), de_config = (\<lambda>gr bl n str g. (0, g)),
     de_launch = (\<lambda>f g. (0, g))\<rparr>"

definition demo_room :: "nat \<Rightarrow> nat option" where
  "demo_room i = (if i = 0 then Some 4 else None)"

lemma demo_paged_mem:
  "paged_mem demo_srv (\<lambda>i. 0x7004) demo_room 1 (\<lambda>i. []) (demo_st [0])"
proof -
  have l: "local_object (demo_st [0]) 0x7004 0"
    unfolding local_object_def by (rule exI [of _ 0]) (simp add: demo_find fresh_node_def)
  have "se_malloc demo_srv = demo_hm" by (simp add: demo_srv_def)
  then show ?thesis using l demo_rt_ok demo_hm_ok fresh_node_inv
    by (simp add: paged_mem_def paged_object_def demo_room_def fresh_node_def)
qed

lemma demo_direct_mem:
  "direct_mem demo_rt demo_direct (\<lambda>i. 0x1000) demo_room (\<lambda>i. []) (demo_st [0])"
proof -
  have "memcpy_ok demo_rt demo_direct" by (simp add: memcpy_ok_def demo_direct_def)
  moreover have "se_malloc (de_srv demo_direct) = demo_hm" by (simp add: demo_direct_def)
  moreover have "direct_object demo_rt 0x1000 4 [] (Some [0, 0, 0, 0])"
    by (simp add: direct_object_def demo_rt_def)
  ultimately show ?thesis using demo_rt_ok demo_hm_ok
    by (auto simp: direct_mem_def demo_room_def inj_on_def split: if_splits)
qed

lemma paging_is_transparent_witness:
  "\<exists>st' sd'. copies (paged_copy demo_srv (\<lambda>i. 0x7004))
      [Put 0 [1, 2, 3], PagesOut [0], Get 0 2, Put 0 [9], Get 0 3] (demo_st [0])
    = Inr ([Some (OK, 0, 0, None), None, Some (OK, 0, 2, Some [1, 2]), Some (OK, 0, 0, None),
        Some (OK, 0, 3, Some [9, 2, 3])], st')
   \<and> copies (direct_copy demo_direct (\<lambda>i. 0x1000))
      [Put 0 [1, 2, 3], PagesOut [0], Get 0 2, Put 0 [9], Get 0 3] (demo_st [0])
    = Inr ([Some (OK, 0, 0, None), None, Some (OK, 0, 2, Some [1, 2]), Some (OK, 0, 0, None),
        Some (OK, 0, 3, Some [9, 2, 3])], sd')"
proof -
  let ?ops = "[Put 0 [1, 2, 3], PagesOut [0], Get 0 2, Put 0 [9], Get 0 3]"
  have fit: "all_fit demo_room 1 (\<lambda>i. []) ?ops" by (simp add: demo_room_def)
  have "ideal_answers (\<lambda>i. []) ?ops = [Some (OK, 0, 0, None), None, Some (OK, 0, 2, Some [1, 2]),
      Some (OK, 0, 0, None), Some (OK, 0, 3, Some [9, 2, 3])]"
    by (simp add: cudaSuccess_def numeral_eq_Suc)
  then show ?thesis
    using paging_is_transparent [OF demo_paged_mem demo_direct_mem fit] by auto
qed

section \<open>What the virtual memory does not do\<close>

text \<open>A registered kernel the backend without virtual memory launches ends in a fault with it.\<close>

lemma paging_loses_launch:
  assumes "bs_fatc st = Some cs" and "find_fn cs (arg_lo (pk_arg0 p)) = Inr (Some a)"
    and "de_launch denv (fa_hostFun a) (bs_gpu st) = (cudaSuccess, g)" and "se_semget_launch env \<noteq> -1"
  shows "\<exists>p'. nvbackCudaLaunch_direct denv p sc st = Inr (OK, p', sc, st\<lparr>bs_gpu := g\<rparr>)"
    and "\<exists>f. nvbackCudaLaunch_srv env p sc st = Inl f"
proof -
  have a: "arg_lo (pk_arg0 (set_err e p)) = arg_lo (pk_arg0 p)" for e by (simp add: set_err_def)
  show "\<exists>p'. nvbackCudaLaunch_direct denv p sc st = Inr (OK, p', sc, st\<lparr>bs_gpu := g\<rparr>)"
    using assms by (simp add: nvbackCudaLaunch_direct_def a reply_rt_def reply_def Let_def)
  show "\<exists>f. nvbackCudaLaunch_srv env p sc st = Inl f"
    using srv_launch_never_succeeds [OF assms(4,1,2), of sc] by simp
qed

text \<open>A copy on the device is made without virtual memory, and with it uses a variable that was
  never set.\<close>

lemma paging_loses_device_copies:
  assumes "pk_method_id p = method_num CUDA_MEMCPY_D2D"
    and "de_d2d denv (arg_lo (pk_arg0 p)) (arg_lo (pk_arg1 p)) (arg_lo (pk_arg2 p))
      (argn (pk_arg3 p)) (bs_gpu st) = (cudaSuccess, g)"
  shows "\<exists>p'. nvbackCudaMemcpy_direct denv p sc st = Inr (OK, p', sc, st\<lparr>bs_gpu := g\<rparr>)"
    and "nvbackCudaMemcpy_srv env p sc st = Inl Uninit"
  using assms by (simp_all add: nvbackCudaMemcpy_direct_def nvbackCudaMemcpy_srv_def method_num_inj
      reply_rt_def reply_def)

text \<open>Without virtual memory an allocation gives the client the address of the runtime.\<close>

lemma direct_malloc_address:
  assumes "de_malloc denv 0 (arg_lo (pk_arg1 p)) (bs_gpu st) = (dv, cudaSuccess, g)"
  shows "\<exists>p'. nvbackCudaMalloc_direct denv p sc st = Inr (OK, p', sc, st\<lparr>bs_gpu := g\<rparr>)
    \<and> arg_lo (pk_arg0 p') = dv"
  using assms by (simp add: nvbackCudaMalloc_direct_def reply_rt_def reply_def set_err_def set_argp_def
      pkt_err_def cudaSuccess_def)

end
