(* ===== verification/Local_Calls.thy ===== *)
theory Local_Calls
  imports Gvirt_Base
begin

text \<open>
  The calls of the CUDA library that interposer/libci.c does not send to a backend but hands on
  to the library itself, and the local variants (\<open>lcuda...\<close>) of those it does send. Every
  wrapper looks its function up once, keeps the pointer in a static variable, and calls it with
  the arguments it was given. What is printed is left out.
\<close>

section \<open>Handing a call on\<close>

text \<open>
  What \<open>dlsym\<close> finds for a name, and whether \<open>dlerror\<close> reports an error after it: an error of
  the look-up, or one of an earlier call to the linker that nobody has asked for.
\<close>

type_synonym 'f linker = "string \<Rightarrow> 'f option \<times> bool"

text \<open>The static variables \<open>pFunc\<close>, by the wrapper they are in.\<close>

type_synonym 'f statics = "string \<Rightarrow> 'f option"

text \<open>
  How a wrapper returns: with \<open>cudaErrorDL\<close> (or what stands for it where the result is no error
  code), or with the result of the function it found, called with these arguments.
\<close>

datatype ('f, 'v) handed_on = DL_error | Calls 'f "'v list"

type_synonym ('f, 'v) local_call = "'f statics \<Rightarrow> (('f, 'v) handed_on \<times> 'f statics) cres"

definition l_handleDlError :: "bool \<Rightarrow> int" where
  "l_handleDlError e = (if e then ERROR else OK)"

definition forward :: "string \<Rightarrow> string \<Rightarrow> 'f linker \<Rightarrow> 'v list \<Rightarrow> ('f, 'v) local_call" where
  "forward wrapper name dl args s = (case s wrapper of
     Some f \<Rightarrow> Inr (Calls f args, s)
   | None \<Rightarrow> (case dl name of (pFunc, e) \<Rightarrow>
       let s = s(wrapper := pFunc) in
       if l_handleDlError e \<noteq> 0 then Inr (DL_error, s)
       else (case pFunc of None \<Rightarrow> Inl NullDeref | Some f \<Rightarrow> Inr (Calls f args, s))))"

text \<open>The wrappers without an error code end the process.\<close>

definition forward_or_exit :: "string \<Rightarrow> string \<Rightarrow> 'f linker \<Rightarrow> 'v list \<Rightarrow> ('f, 'v) local_call" where
  "forward_or_exit wrapper name dl args s = bindr (forward wrapper name dl args s) (\<lambda>(r, s).
     case r of DL_error \<Rightarrow> Inl ExitProc | Calls f as \<Rightarrow> Inr (r, s))"

section \<open>The wrappers\<close>

definition lcudaThreadExit where
  "lcudaThreadExit dl = forward ''lcudaThreadExit'' ''cudaThreadExit'' dl []"

definition lcudaThreadSynchronize where
  "lcudaThreadSynchronize dl = forward ''lcudaThreadSynchronize'' ''cudaThreadSynchronize'' dl []"

definition cudaThreadSetLimit where
  "cudaThreadSetLimit dl limit val = forward ''cudaThreadSetLimit'' ''cudaThreadSetLimit'' dl [limit, val]"

definition cudaThreadGetLimit where
  "cudaThreadGetLimit dl pValue limit = forward ''cudaThreadGetLimit'' ''cudaThreadGetLimit'' dl [pValue, limit]"

definition cudaThreadGetCacheConfig where
  "cudaThreadGetCacheConfig dl pCacheConfig = forward ''cudaThreadGetCacheConfig'' ''cudaThreadGetCacheConfig'' dl [pCacheConfig]"

definition cudaThreadSetCacheConfig where
  "cudaThreadSetCacheConfig dl cacheConfig = forward ''cudaThreadSetCacheConfig'' ''cudaThreadSetCacheConfig'' dl [cacheConfig]"

definition lcudaGetLastError where
  "lcudaGetLastError dl = forward ''lcudaGetLastError'' ''cudaGetLastError'' dl []"

definition cudaPeekAtLastError where
  "cudaPeekAtLastError dl = forward ''cudaPeekAtLastError'' ''cudaPeekAtLastError'' dl []"

definition cudaGetErrorString where
  "cudaGetErrorString dl err = forward ''cudaGetErrorString'' ''cudaGetErrorString'' dl [err]"

definition lcudaGetDeviceProperties where
  "lcudaGetDeviceProperties dl prop device = forward ''lcudaGetDeviceProperties'' ''cudaGetDeviceProperties'' dl [prop, device]"

definition cudaChooseDevice where
  "cudaChooseDevice dl device prop = forward ''cudaChooseDevice'' ''cudaChooseDevice'' dl [device, prop]"

definition lcudaSetDevice where
  "lcudaSetDevice dl device = forward ''lcudaSetDevice'' ''cudaSetDevice'' dl [device]"

definition cudaSetValidDevices where
  "cudaSetValidDevices dl device_arr len = forward ''cudaSetValidDevices'' ''cudaSetValidDevices'' dl [device_arr, len]"

definition cudaSetDeviceFlags where
  "cudaSetDeviceFlags dl flags = forward ''cudaSetDeviceFlags'' ''cudaSetDeviceFlags'' dl [flags]"

definition cudaStreamCreate where
  "cudaStreamCreate dl pStream = forward ''cudaStreamCreate'' ''cudaStreamCreate'' dl [pStream]"

definition cudaStreamDestroy where
  "cudaStreamDestroy dl stream = forward ''cudaStreamDestroy'' ''cudaStreamDestroy'' dl [stream]"

definition cudaStreamWaitEvent where
  "cudaStreamWaitEvent dl stream event flags = forward ''cudaStreamWaitEvent'' ''cudaStreamWaitEvent'' dl [stream, event, flags]"

definition cudaStreamSynchronize where
  "cudaStreamSynchronize dl stream = forward ''cudaStreamSynchronize'' ''cudaStreamSynchronize'' dl [stream]"

definition cudaStreamQuery where
  "cudaStreamQuery dl stream = forward ''cudaStreamQuery'' ''cudaStreamQuery'' dl [stream]"

definition cudaEventCreate where
  "cudaEventCreate dl event = forward ''cudaEventCreate'' ''cudaEventCreate'' dl [event]"

definition cudaEventCreateWithFlags where
  "cudaEventCreateWithFlags dl event flags = forward ''cudaEventCreateWithFlags'' ''cudaEventCreateWithFlags'' dl [event, flags]"

definition cudaEventRecord where
  "cudaEventRecord dl event stream = forward ''cudaEventRecord'' ''cudaEventRecord'' dl [event, stream]"

definition cudaEventQuery where
  "cudaEventQuery dl event = forward ''cudaEventQuery'' ''cudaEventQuery'' dl [event]"

definition cudaEventSynchronize where
  "cudaEventSynchronize dl event = forward ''cudaEventSynchronize'' ''cudaEventSynchronize'' dl [event]"

definition cudaEventDestroy where
  "cudaEventDestroy dl event = forward ''cudaEventDestroy'' ''cudaEventDestroy'' dl [event]"

definition cudaEventElapsedTime where
  "cudaEventElapsedTime dl ms start stop = forward ''cudaEventElapsedTime'' ''cudaEventElapsedTime'' dl [ms, start, stop]"

definition lcudaConfigureCall where
  "lcudaConfigureCall dl gridDim blockDim sharedMem stream = forward ''lcudaConfigureCall'' ''cudaConfigureCall'' dl [gridDim, blockDim, sharedMem, stream]"

definition lcudaSetupArgument where
  "lcudaSetupArgument dl arg sz offset = forward ''lcudaSetupArgument'' ''cudaSetupArgument'' dl [arg, sz, offset]"

definition cudaFuncSetCacheConfig where
  "cudaFuncSetCacheConfig dl func cacheConfig = forward ''cudaFuncSetCacheConfig'' ''cudaFuncSetCacheConfig'' dl [func, cacheConfig]"

definition lcudaLaunch where
  "lcudaLaunch dl entry = forward ''lcudaLaunch'' ''cudaLaunch'' dl [entry]"

definition cudaFuncGetAttributes where
  "cudaFuncGetAttributes dl attr func = forward ''cudaFuncGetAttributes'' ''cudaFuncGetAttributes'' dl [attr, func]"

definition cudaSetDoubleForDevice where
  "cudaSetDoubleForDevice dl d = forward ''cudaSetDoubleForDevice'' ''cudaSetDoubleForDevice'' dl [d]"

definition cudaSetDoubleForHost where
  "cudaSetDoubleForHost dl d = forward ''cudaSetDoubleForHost'' ''cudaSetDoubleForHost'' dl [d]"

definition lcudaMalloc where
  "lcudaMalloc dl devPtr sz = forward ''lcudaMalloc'' ''cudaMalloc'' dl [devPtr, sz]"

definition cudaMallocHost where
  "cudaMallocHost dl ptr sz = forward ''cudaMallocHost'' ''cudaMallocHost'' dl [ptr, sz]"

definition cudaMallocPitch where
  "cudaMallocPitch dl devPtr pitch width height = forward ''cudaMallocPitch'' ''cudaMallocPitch'' dl [devPtr, pitch, width, height]"

definition cudaMallocArray where
  "cudaMallocArray dl array desc width height flags = forward ''cudaMallocArray'' ''cudaMallocArray'' dl [array, desc, width, height, flags]"

definition lcudaFree where
  "lcudaFree dl devPtr = forward ''lcudaFree'' ''cudaFree'' dl [devPtr]"

definition cudaFreeHost where
  "cudaFreeHost dl ptr = forward ''cudaFreeHost'' ''cudaFreeHost'' dl [ptr]"

definition cudaFreeArray where
  "cudaFreeArray dl array = forward ''cudaFreeArray'' ''cudaFreeArray'' dl [array]"

definition cudaHostAlloc where
  "cudaHostAlloc dl pHost sz flags = forward ''cudaHostAlloc'' ''cudaHostAlloc'' dl [pHost, sz, flags]"

definition cudaHostGetDevicePointer where
  "cudaHostGetDevicePointer dl pDevice pHost flags = forward ''cudaHostGetDevicePointer'' ''cudaHostGetDevicePointer'' dl [pDevice, pHost, flags]"

definition cudaHostGetFlags where
  "cudaHostGetFlags dl pFlags pHost = forward ''cudaHostGetFlags'' ''cudaHostGetFlags'' dl [pFlags, pHost]"

definition cudaMalloc3D where
  "cudaMalloc3D dl pitchedDevPtr extent = forward ''cudaMalloc3D'' ''cudaMalloc3D'' dl [pitchedDevPtr, extent]"

definition cudaMalloc3DArray where
  "cudaMalloc3DArray dl array desc extent flags = forward ''cudaMalloc3DArray'' ''cudaMalloc3DArray'' dl [array, desc, extent, flags]"

definition cudaMemcpy3D where
  "cudaMemcpy3D dl p = forward ''cudaMemcpy3D'' ''cudaMemcpy3D'' dl [p]"

definition cudaMemcpy3DAsync where
  "cudaMemcpy3DAsync dl p stream = forward ''cudaMemcpy3DAsync'' ''cudaMemcpy3DAsync'' dl [p, stream]"

definition cudaMemGetInfo where
  "cudaMemGetInfo dl avail tot = forward ''cudaMemGetInfo'' ''cudaMemGetInfo'' dl [avail, tot]"

definition lcudaMemcpy where
  "lcudaMemcpy dl dst src cnt kind = forward ''lcudaMemcpy'' ''cudaMemcpy'' dl [dst, src, cnt, kind]"

definition cudaMemcpyToArray where
  "cudaMemcpyToArray dl dst wOffset hOffset src cnt kind = forward ''cudaMemcpyToArray'' ''cudaMemcpyToArray'' dl [dst, wOffset, hOffset, src, cnt, kind]"

definition cudaMemcpyFromArray where
  "cudaMemcpyFromArray dl dst src wOffset hOffset cnt kind = forward ''cudaMemcpyFromArray'' ''cudaMemcpyFromArray'' dl [dst, src, wOffset, hOffset, cnt, kind]"

definition cudaMemcpyArrayToArray where
  "cudaMemcpyArrayToArray dl dst wOffsetDst hOffsetDst src wOffsetSrc hOffsetSrc cnt kind = forward ''cudaMemcpyArrayToArray'' ''cudaMemcpyArrayToArray'' dl [dst, wOffsetDst, hOffsetDst, src, wOffsetSrc, hOffsetSrc, cnt, kind]"

definition cudaMemcpy2D where
  "cudaMemcpy2D dl dst dpitch src spitch width height kind = forward ''cudaMemcpy2D'' ''cudaMemcpy2D'' dl [dst, dpitch, src, spitch, width, height, kind]"

definition cudaMemcpy2DToArray where
  "cudaMemcpy2DToArray dl dst wOffset hOffset src spitch width height kind = forward ''cudaMemcpy2DToArray'' ''cudaMemcpy2DToArray'' dl [dst, wOffset, hOffset, src, spitch, width, height, kind]"

definition cudaMemcpy2DFromArray where
  "cudaMemcpy2DFromArray dl dst dpitch src wOffset hOffset width height kind = forward ''cudaMemcpy2DFromArray'' ''cudaMemcpy2DFromArray'' dl [dst, dpitch, src, wOffset, hOffset, width, height, kind]"

definition cudaMemcpy2DArrayToArray where
  "cudaMemcpy2DArrayToArray dl dst wOffsetDst hOffsetDst src wOffsetSrc hOffsetSrc width height kind = forward ''cudaMemcpy2DArrayToArray'' ''cudaMemcpy2DArrayToArray'' dl [dst, wOffsetDst, hOffsetDst, src, wOffsetSrc, hOffsetSrc, width, height, kind]"

definition lcudaMemcpyToSymbol where
  "lcudaMemcpyToSymbol dl symbol src cnt offset kind = forward ''lcudaMemcpyToSymbol'' ''cudaMemcpyToSymbol'' dl [symbol, src, cnt, offset, kind]"

definition lcudaMemcpyFromSymbol where
  "lcudaMemcpyFromSymbol dl dst symbol cnt offset kind = forward ''lcudaMemcpyFromSymbol'' ''cudaMemcpyFromSymbol'' dl [dst, symbol, cnt, offset, kind]"

definition cudaMemcpyAsync where
  "cudaMemcpyAsync dl dst src cnt kind stream = forward ''cudaMemcpyAsync'' ''cudaMemcpyAsync'' dl [dst, src, cnt, kind, stream]"

definition cudaMemcpyToArrayAsync where
  "cudaMemcpyToArrayAsync dl dst wOffset hOffset src cnt kind stream = forward ''cudaMemcpyToArrayAsync'' ''cudaMemcpyToArrayAsync'' dl [dst, wOffset, hOffset, src, cnt, kind, stream]"

definition cudaMemcpyFromArrayAsync where
  "cudaMemcpyFromArrayAsync dl dst src wOffset hOffset cnt kind stream = forward ''cudaMemcpyFromArrayAsync'' ''cudaMemcpyFromArrayAsync'' dl [dst, src, wOffset, hOffset, cnt, kind, stream]"

definition cudaMemcpy2DAsync where
  "cudaMemcpy2DAsync dl dst dpitch src spitch width height kind stream = forward ''cudaMemcpy2DAsync'' ''cudaMemcpy2DAsync'' dl [dst, dpitch, src, spitch, width, height, kind, stream]"

definition cudaMemcpy2DToArrayAsync where
  "cudaMemcpy2DToArrayAsync dl dst wOffset hOffset src spitch width height kind stream = forward ''cudaMemcpy2DToArrayAsync'' ''cudaMemcpy2DToArrayAsync'' dl [dst, wOffset, hOffset, src, spitch, width, height, kind, stream]"

definition cudaMemcpy2DFromArrayAsync where
  "cudaMemcpy2DFromArrayAsync dl dst dpitch src wOffset hOffset width height kind stream = forward ''cudaMemcpy2DFromArrayAsync'' ''cudaMemcpy2DFromArrayAsync'' dl [dst, dpitch, src, wOffset, hOffset, width, height, kind, stream]"

definition cudaMemcpyToSymbolAsync where
  "cudaMemcpyToSymbolAsync dl symbol src cnt offset kind stream = forward ''cudaMemcpyToSymbolAsync'' ''cudaMemcpyToSymbolAsync'' dl [symbol, src, cnt, offset, kind, stream]"

definition cudaMemcpyFromSymbolAsync where
  "cudaMemcpyFromSymbolAsync dl dst symbol cnt offset kind stream = forward ''cudaMemcpyFromSymbolAsync'' ''cudaMemcpyFromSymbolAsync'' dl [dst, symbol, cnt, offset, kind, stream]"

definition cudaMemset where
  "cudaMemset dl devPtr val cnt = forward ''cudaMemset'' ''cudaMemset'' dl [devPtr, val, cnt]"

definition cudaMemset2D where
  "cudaMemset2D dl devPtr pitch val width height = forward ''cudaMemset2D'' ''cudaMemset2D'' dl [devPtr, pitch, val, width, height]"

definition cudaMemset3D where
  "cudaMemset3D dl pitchedDevPtr val extent = forward ''cudaMemset3D'' ''cudaMemset3D'' dl [pitchedDevPtr, val, extent]"

definition cudaMemsetAsync where
  "cudaMemsetAsync dl devPtr val cnt stream = forward ''cudaMemsetAsync'' ''cudaMemsetAsync'' dl [devPtr, val, cnt, stream]"

definition cudaMemset2DAsync where
  "cudaMemset2DAsync dl devPtr pitch val width height stream = forward ''cudaMemset2DAsync'' ''cudaMemset2DAsync'' dl [devPtr, pitch, val, width, height, stream]"

definition cudaMemset3DAsync where
  "cudaMemset3DAsync dl pitchedDevPtr val extent stream = forward ''cudaMemset3DAsync'' ''cudaMemset3DAsync'' dl [pitchedDevPtr, val, extent, stream]"

definition cudaGetSymbolAddress where
  "cudaGetSymbolAddress dl devPtr symbol = forward ''cudaGetSymbolAddress'' ''cudaGetSymbolAddress'' dl [devPtr, symbol]"

definition cudaGetSymbolSize where
  "cudaGetSymbolSize dl sz symbol = forward ''cudaGetSymbolSize'' ''cudaGetSymbolSize'' dl [sz, symbol]"

definition cudaGraphicsUnregisterResource where
  "cudaGraphicsUnregisterResource dl resource = forward ''cudaGraphicsUnregisterResource'' ''cudaGraphicsUnregisterResource'' dl [resource]"

definition cudaGraphicsResourceSetMapFlags where
  "cudaGraphicsResourceSetMapFlags dl resource flags = forward ''cudaGraphicsResourceSetMapFlags'' ''cudaGraphicsResourceSetMapFlags'' dl [resource, flags]"

definition cudaGraphicsMapResources where
  "cudaGraphicsMapResources dl cnt resources stream = forward ''cudaGraphicsMapResources'' ''cudaGraphicsMapResources'' dl [cnt, resources, stream]"

definition cudaGraphicsUnmapResources where
  "cudaGraphicsUnmapResources dl cnt resources stream = forward ''cudaGraphicsUnmapResources'' ''cudaGraphicsUnmapResources'' dl [cnt, resources, stream]"

definition cudaGraphicsResourceGetMappedPointer where
  "cudaGraphicsResourceGetMappedPointer dl devPtr sz resource = forward ''cudaGraphicsResourceGetMappedPointer'' ''cudaGraphicsResourceGetMappedPointer'' dl [devPtr, sz, resource]"

definition cudaGraphicsSubResourceGetMappedArray where
  "cudaGraphicsSubResourceGetMappedArray dl array resource arrayIndex mipLevel = forward ''cudaGraphicsSubResourceGetMappedArray'' ''cudaGraphicsSubResourceGetMappedArray'' dl [array, resource, arrayIndex, mipLevel]"

definition cudaGetChannelDesc where
  "cudaGetChannelDesc dl desc array = forward ''cudaGetChannelDesc'' ''cudaGetChannelDesc'' dl [desc, array]"

definition cudaCreateChannelDesc where
  "cudaCreateChannelDesc dl x y z w fmt = forward ''cudaCreateChannelDesc'' ''cudaCreateChannelDesc'' dl [x, y, z, w, fmt]"

definition cudaBindTexture where
  "cudaBindTexture dl offset texref devPtr desc sz = forward ''cudaBindTexture'' ''cudaBindTexture'' dl [offset, texref, devPtr, desc, sz]"

definition cudaBindTexture2D where
  "cudaBindTexture2D dl offset texref devPtr desc width height pitch = forward ''cudaBindTexture2D'' ''cudaBindTexture2D'' dl [offset, texref, devPtr, desc, width, height, pitch]"

definition cudaBindTextureToArray where
  "cudaBindTextureToArray dl texref array desc = forward ''cudaBindTextureToArray'' ''cudaBindTextureToArray'' dl [texref, array, desc]"

definition cudaUnbindTexture where
  "cudaUnbindTexture dl texref = forward ''cudaUnbindTexture'' ''cudaUnbindTexture'' dl [texref]"

definition cudaGetTextureAlignmentOffset where
  "cudaGetTextureAlignmentOffset dl offset texref = forward ''cudaGetTextureAlignmentOffset'' ''cudaGetTextureAlignmentOffset'' dl [offset, texref]"

definition cudaGetTextureReference where
  "cudaGetTextureReference dl texref symbol = forward ''cudaGetTextureReference'' ''cudaGetTextureReference'' dl [texref, symbol]"

definition cudaBindSurfaceToArray where
  "cudaBindSurfaceToArray dl surfref array desc = forward ''cudaBindSurfaceToArray'' ''cudaBindSurfaceToArray'' dl [surfref, array, desc]"

definition cudaGetSurfaceReference where
  "cudaGetSurfaceReference dl surfref symbol = forward ''cudaGetSurfaceReference'' ''cudaGetSurfaceReference'' dl [surfref, symbol]"

definition cudaDriverGetVersion where
  "cudaDriverGetVersion dl driverVersion = forward ''cudaDriverGetVersion'' ''cudaDriverGetVersion'' dl [driverVersion]"

definition cudaRuntimeGetVersion where
  "cudaRuntimeGetVersion dl runtimeVersion = forward ''cudaRuntimeGetVersion'' ''cudaRuntimeGetVersion'' dl [runtimeVersion]"

definition cudaGetExportTable where
  "cudaGetExportTable dl ppExportTable pExportTableId = forward ''cudaGetExportTable'' ''cudaGetExportTable'' dl [ppExportTable, pExportTableId]"

definition local_cudaRegisterFatBinary where
  "local_cudaRegisterFatBinary dl fatC = forward_or_exit ''l__cudaRegisterFatBinary'' ''__cudaRegisterFatBinary'' dl [fatC]"

definition local_cudaUnregisterFatBinary where
  "local_cudaUnregisterFatBinary dl fatCubinHandle = forward_or_exit ''l__cudaUnregisterFatBinary'' ''__cudaUnregisterFatBinary'' dl [fatCubinHandle]"

definition local_cudaRegisterFunction where
  "local_cudaRegisterFunction dl fatCubinHandle hostFun deviceFun deviceName thread_limit tid bid bDim gDim wSize = forward_or_exit ''l__cudaRegisterFunction'' ''__cudaRegisterFunction'' dl [fatCubinHandle, hostFun, deviceFun, deviceName, thread_limit, tid, bid, bDim, gDim, wSize]"

definition local_cudaRegisterVar where
  "local_cudaRegisterVar dl fatCubinHandle hostVar deviceAddress deviceName ext vsize constant global = forward_or_exit ''l__cudaRegisterVar'' ''__cudaRegisterVar'' dl [fatCubinHandle, hostVar, deviceAddress, deviceName, ext, vsize, constant, global]"

definition cudaRegisterTexture where
  "cudaRegisterTexture dl fatCubinHandle hostVar deviceAddress deviceName dm nrm ext = forward_or_exit ''__cudaRegisterTexture'' ''__cudaRegisterTexture'' dl [fatCubinHandle, hostVar, deviceAddress, deviceName, dm, nrm, ext]"

definition cudaRegisterShared where
  "cudaRegisterShared dl fatCubinHandle devicePtr = forward_or_exit ''__cudaRegisterShared'' ''__cudaRegisterShared'' dl [fatCubinHandle, devicePtr]"

definition local_getcwd where
  "local_getcwd dl bf sz = forward_or_exit ''getcwd'' ''getcwd'' dl [bf, sz]"

section \<open>What the wrappers do\<close>

text \<open>A program's calls: the wrapper, the name it looks up, the arguments.\<close>

primrec local_run :: "'f linker \<Rightarrow> (string \<times> string \<times> 'v list) list \<Rightarrow> 'f statics
    \<Rightarrow> (('f, 'v) handed_on list \<times> 'f statics) cres" where
  "local_run dl [] s = Inr ([], s)"
| "local_run dl (c # cs) s = (case c of (k, n, args) \<Rightarrow>
     bindr (forward k n dl args s) (\<lambda>(r, s). bindr (local_run dl cs s) (\<lambda>(rs, s). Inr (r # rs, s))))"

text \<open>The name in the library: a local variant has an \<open>l\<close> in front.\<close>

definition symbol_of :: "string \<Rightarrow> string" where
  "symbol_of k = (if take 2 k = ''lc'' \<or> take 2 k = ''l_'' then tl k else k)"

lemma local_run_forwards:
  assumes "\<forall>(k, n, args) \<in> set cs. n = symbol_of k \<and> dl n = (Some (rt n), False)"
    and "\<forall>k f. s k = Some f \<longrightarrow> f = rt (symbol_of k)"
  shows "\<exists>s'. local_run dl cs s = Inr (map (\<lambda>(k, n, args). Calls (rt n) args) cs, s')"
  using assms
proof (induction cs arbitrary: s)
  case (Cons c cs)
  obtain k n args where c: "c = (k, n, args)" by (cases c) auto
  then have n: "n = symbol_of k" "dl n = (Some (rt n), False)" using Cons.prems(1) by auto
  have fw: "forward k n dl args s = Inr (Calls (rt n) args, s(k := Some (rt n)))"
  proof (cases "s k")
    case None
    then show ?thesis using n(2) by (simp add: forward_def l_handleDlError_def OK_def)
  next
    case (Some f)
    then have "f = rt n" using n(1) Cons.prems(2) by simp
    then have "s(k := Some (rt n)) = s" using Some by (simp add: fun_upd_idem)
    then show ?thesis using Some \<open>f = rt n\<close> by (simp add: forward_def)
  qed
  have inv: "\<forall>j f. (s(k := Some (rt n))) j = Some f \<longrightarrow> f = rt (symbol_of j)"
    using Cons.prems(2) n(1) by auto
  have "\<forall>(k, n, args) \<in> set cs. n = symbol_of k \<and> dl n = (Some (rt n), False)" using Cons.prems(1) by simp
  from Cons.IH [OF this inv] obtain s' where
    "local_run dl cs (s(k := Some (rt n))) = Inr (map (\<lambda>(k, n, args). Calls (rt n) args) cs, s')" by blast
  then show ?case by (simp add: c fw)
qed simp

lemma forward_missing:
  "forward j m (\<lambda>x. (None, True)) as s0 = (case s0 j of None \<Rightarrow> Inr (DL_error, s0(j := None)) | Some f \<Rightarrow> Inr (Calls f as, s0))"
  by (simp add: forward_def l_handleDlError_def ERROR_def split: option.split)

lemma forward_pending:
  "s0 j = None \<Longrightarrow> forward j m (\<lambda>x. (Some f, True)) as s0 = Inr (DL_error, s0(j := Some f))"
  "forward j m (\<lambda>x. (Some f, True)) as (s0(j := Some f)) = Inr (Calls f as, s0(j := Some f))"
  by (simp_all add: forward_def l_handleDlError_def ERROR_def)

lemma symbol_of_sync:
  "symbol_of ''cudaStreamCreate'' = ''cudaStreamCreate''" "symbol_of ''lcudaMemcpy'' = ''cudaMemcpy''"
  by (simp_all add: symbol_of_def)

text \<open>In a program whose names are all found, without errors of the linker, the calls that are
  handed on reach the library in order, each at the function of its name and with its arguments,
  however often the wrappers are used. A name that is not found is answered with the error every
  time. A name that is found while an older error of the linker is pending is answered with the
  error once, and handed on from then on.\<close>

theorem local_calls_handed_on:
  assumes "\<forall>(k, n, args) \<in> set cs. n = symbol_of k \<and> dl n = (Some (rt n), False)"
  shows "(\<exists>s. local_run dl cs (\<lambda>k. None) = Inr (map (\<lambda>(k, n, args). Calls (rt n) args) cs, s))
    \<and> forward j m (\<lambda>x. (None, True)) as s0 = (case s0 j of None \<Rightarrow> Inr (DL_error, s0) | Some f \<Rightarrow> Inr (Calls f as, s0))
    \<and> (s0 j = None \<longrightarrow> forward j m (\<lambda>x. (Some f, True)) as s0 = Inr (DL_error, s0(j := Some f))
         \<and> forward j m (\<lambda>x. (Some f, True)) as (s0(j := Some f)) = Inr (Calls f as, s0(j := Some f)))"
proof -
  have "\<exists>s. local_run dl cs (\<lambda>k. None) = Inr (map (\<lambda>(k, n, args). Calls (rt n) args) cs, s)"
    by (rule local_run_forwards [OF assms]) simp
  moreover have "s0(j := None) = s0" if "s0 j = None" using that by (simp add: fun_upd_idem)
  ultimately show ?thesis by (simp add: forward_missing forward_pending split: option.split)
qed

theorem local_calls_handed_on_witness:
  "\<exists>s. local_run (\<lambda>n. (Some n, False))
      [(''cudaStreamCreate'', ''cudaStreamCreate'', [1 :: int]), (''lcudaMemcpy'', ''cudaMemcpy'', [2, 3, 4, 5]),
       (''cudaStreamCreate'', ''cudaStreamCreate'', [6])] (\<lambda>k. None)
    = Inr ([Calls ''cudaStreamCreate'' [1], Calls ''cudaMemcpy'' [2, 3, 4, 5], Calls ''cudaStreamCreate'' [6]], s)"
proof -
  let ?cs = "[(''cudaStreamCreate'', ''cudaStreamCreate'', [1 :: int]), (''lcudaMemcpy'', ''cudaMemcpy'', [2, 3, 4, 5]),
       (''cudaStreamCreate'', ''cudaStreamCreate'', [6])]"
  let ?dl = "\<lambda>n. (Some n, False)"
  have "\<forall>(k, n, args) \<in> set ?cs. n = symbol_of k \<and> ?dl n = (Some ((\<lambda>n. n) n), False)"
    using symbol_of_sync by simp
  from local_calls_handed_on [OF this, THEN conjunct1] show ?thesis by (simp del: local_run.simps)
qed

end
